(* ===== verification/Pop3_Prelude.thy ===== *)
theory Pop3_Prelude
  imports Main "HOL-Library.Word" "HOL-Library.Monad_Syntax"
begin

text \<open>
  Shared vocabulary of the development: the Win32 integer and string types, the part of the
  C run-time library the sources call (\<^verbatim>\<open>strlen\<close>, \<^verbatim>\<open>strchr\<close>, \<^verbatim>\<open>strstr\<close>, \<^verbatim>\<open>strncpy\<close>,
  \<^verbatim>\<open>_strnicmp\<close>, \<^verbatim>\<open>isspace\<close>, \<^verbatim>\<open>isdigit\<close>, \<^verbatim>\<open>isprint\<close>, \<^verbatim>\<open>atoi\<close>, \<^verbatim>\<open>_snprintf\<close>), array reads and
  writes that fail outside the array, and the lemmas on them that every component uses.

  A value of an option type that the source does not have (\<^term>\<open>None\<close>) stands for a call
  that does not return normally: an access outside an array or through a null pointer.
\<close>

unbundle bit_operations_syntax

named_theorems crt_simps \<open>evaluation rules of the C run-time functions\<close>
named_theorems mem_safe \<open>conditions under which array reads and writes succeed\<close>

section \<open>Types\<close>

type_synonym BYTE = "8 word"
type_synonym WCHAR = "16 word"
type_synonym DWORD = "32 word"
type_synonym wstring = "WCHAR list"

text \<open>Handles and sockets; \<^verbatim>\<open>NULL\<close> is 0 and \<^verbatim>\<open>INVALID_HANDLE_VALUE\<close> is -1.\<close>

type_synonym HANDLE = int

abbreviation (input) NULL_HANDLE :: HANDLE where "NULL_HANDLE \<equiv> 0"
abbreviation (input) INVALID_HANDLE_VALUE :: HANDLE where "INVALID_HANDLE_VALUE \<equiv> -1"

text \<open>A wide literal \<^verbatim>\<open>L"abc"\<close>.\<close>

definition wide :: "string \<Rightarrow> wstring" where
  "wide s = map of_char s"

abbreviation NUL :: char where "NUL \<equiv> CHR 0x00"
abbreviation CR :: char where "CR \<equiv> CHR 0x0D"
abbreviation LF :: char where "LF \<equiv> CHR 0x0A"

section \<open>Arrays\<close>

text \<open>A read or a write outside the array is undefined behaviour: no value.\<close>

definition peek :: "'a list \<Rightarrow> nat \<Rightarrow> 'a option" where
  "peek xs i = (if i < length xs then Some (xs ! i) else None)"

definition poke :: "'a list \<Rightarrow> nat \<Rightarrow> 'a list \<Rightarrow> 'a list option" where
  "poke xs i ys = (if i + length ys \<le> length xs
     then Some (take i xs @ ys @ drop (i + length ys) xs) else None)"

lemma peek_Some [mem_safe, simp]: "i < length xs \<Longrightarrow> peek xs i = Some (xs ! i)"
  by (simp add: peek_def)

lemma peek_eq_Some_iff: "peek xs i = Some x \<longleftrightarrow> i < length xs \<and> x = xs ! i"
  by (auto simp: peek_def)

lemma poke_Some [mem_safe]:
  "i + length ys \<le> length xs \<Longrightarrow>
   poke xs i ys = Some (take i xs @ ys @ drop (i + length ys) xs)"
  by (simp add: poke_def)

lemma poke_length: "poke xs i ys = Some zs \<Longrightarrow> length zs = length xs"
  by (auto simp: poke_def split: if_splits)

section \<open>C strings\<close>

text \<open>
  A buffer is the list of its bytes; the C string it holds ends before its first NUL.
\<close>

definition cstr :: "char list \<Rightarrow> string" where
  "cstr buf = takeWhile (\<lambda>c. c \<noteq> NUL) buf"

definition strlen :: "char list \<Rightarrow> nat" where
  "strlen buf = length (cstr buf)"

lemma cstr_no_nul [simp]: "NUL \<notin> set (cstr buf)"
  by (auto simp: cstr_def dest: set_takeWhileD)

lemma cstr_id [simp]: "NUL \<notin> set s \<Longrightarrow> cstr s = s"
  by (auto simp: cstr_def)

lemma cstr_append_nul [simp]: "NUL \<notin> set s \<Longrightarrow> cstr (s @ NUL # rest) = s"
  by (induction s) (auto simp: cstr_def)

lemma cstr_append: "NUL \<notin> set s \<Longrightarrow> cstr (s @ rest) = s @ cstr rest"
  by (induction s) (auto simp: cstr_def)

lemma cstr_Cons [crt_simps, simp]: "cstr (c # s) = (if c = NUL then [] else c # cstr s)"
  by (simp add: cstr_def)

lemma cstr_Nil [crt_simps, simp]: "cstr [] = []"
  by (simp add: cstr_def)

lemma strlen_le: "strlen buf \<le> length buf"
  by (simp add: strlen_def cstr_def length_takeWhile_le)

text \<open>The suffix of a C string from the first occurrence of \<^term>\<open>c\<close> on: \<^verbatim>\<open>strchr\<close>.\<close>

definition strchr :: "char list \<Rightarrow> char \<Rightarrow> nat option" where
  "strchr buf c = (let s = cstr buf; p = length (takeWhile (\<lambda>d. d \<noteq> c) s)
     in if p < length s then Some p else None)"

text \<open>\<^verbatim>\<open>strstr (buf, "\r\n")\<close>: the index of the first CR LF of the C string.\<close>

fun find_crlf :: "string \<Rightarrow> nat option" where
  "find_crlf (a # b # s) =
     (if a = CR \<and> b = LF then Some 0 else map_option Suc (find_crlf (b # s)))"
| "find_crlf _ = None"

definition strstr_crlf :: "char list \<Rightarrow> nat option" where
  "strstr_crlf buf = find_crlf (cstr buf)"

lemma find_crlf_Some:
  "find_crlf s = Some k \<Longrightarrow> Suc k < length s \<and> s ! k = CR \<and> s ! Suc k = LF"
proof (induction s arbitrary: k rule: find_crlf.induct)
  case (1 a b s)
  then show ?case
    by (cases k) (auto split: if_splits)
qed simp_all

lemma find_crlf_append:
  "CR \<notin> set s \<Longrightarrow> find_crlf (s @ CR # LF # rest) = Some (length s)"
proof (induction s)
  case Nil
  then show ?case by simp
next
  case (Cons a s)
  then show ?case by (cases s) auto
qed

text \<open>Character classes of the C locale.\<close>

definition isspace :: "char \<Rightarrow> bool" where
  "isspace c \<longleftrightarrow> c = CHR 0x20 \<or> (9 \<le> (of_char c :: nat) \<and> (of_char c :: nat) \<le> 13)"

definition isdigit :: "char \<Rightarrow> bool" where
  "isdigit c \<longleftrightarrow> 48 \<le> (of_char c :: nat) \<and> (of_char c :: nat) \<le> 57"

definition isprint :: "char \<Rightarrow> bool" where
  "isprint c \<longleftrightarrow> 32 \<le> (of_char c :: nat) \<and> (of_char c :: nat) \<le> 126"

definition tolower :: "char \<Rightarrow> char" where
  "tolower c = (if 65 \<le> (of_char c :: nat) \<and> (of_char c :: nat) \<le> 90
     then char_of ((of_char c :: nat) + 32) else c)"

lemma isspace_not_nul [simp]: "\<not> isspace NUL"
  by (simp add: isspace_def)

lemma isprint_not_nul [simp]: "\<not> isprint NUL"
  by (simp add: isprint_def)

lemma isdigit_not_nul [simp]: "\<not> isdigit NUL"
  by (simp add: isdigit_def)

lemma isdigit_not_space: "isdigit c \<Longrightarrow> \<not> isspace c"
  by (auto simp: isdigit_def isspace_def)

text \<open>\<^verbatim>\<open>0 == _strnicmp (a, b, n)\<close> and \<^verbatim>\<open>0 == _stricmp (a, b)\<close>.\<close>

definition strnicmp_eq :: "char list \<Rightarrow> string \<Rightarrow> nat \<Rightarrow> bool" where
  "strnicmp_eq a b n \<longleftrightarrow> map tolower (take n (cstr a)) = map tolower (take n b)"

definition stricmp_eq :: "char list \<Rightarrow> string \<Rightarrow> bool" where
  "stricmp_eq a b \<longleftrightarrow> map tolower (cstr a) = map tolower b"

lemma strnicmp_eq_length:
  "strnicmp_eq a b n \<Longrightarrow> length b = n \<Longrightarrow> n \<le> strlen a"
proof -
  assume h: "strnicmp_eq a b n" and b: "length b = n"
  then have "length (take n (cstr a)) = n"
    by (metis length_map length_take min.idem strnicmp_eq_def)
  then show "n \<le> strlen a"
    by (simp add: strlen_def)
qed

text \<open>\<^verbatim>\<open>strncpy (dst, src, n); dst[n] = 0\<close>: the string that is then in \<^verbatim>\<open>dst\<close>.\<close>

definition strncpy_term :: "char list \<Rightarrow> nat \<Rightarrow> string" where
  "strncpy_term src n = take n (cstr src)"

section \<open>Numbers as text\<close>

definition digit_char :: "nat \<Rightarrow> char" where
  "digit_char d = char_of (48 + d)"

definition digit_val :: "char \<Rightarrow> int" where
  "digit_val c = of_char c - 48"

text \<open>\<^verbatim>\<open>%u\<close> of a non-negative number.\<close>

fun fmt_u :: "nat \<Rightarrow> string" where
  "fmt_u n = (if n < 10 then [digit_char n] else fmt_u (n div 10) @ [digit_char (n mod 10)])"

declare fmt_u.simps [simp del]

text \<open>\<^verbatim>\<open>%d\<close>; the sources also pass \<^verbatim>\<open>DWORD\<close> values to it, which it reads as signed.\<close>

definition fmt_d :: "int \<Rightarrow> string" where
  "fmt_d i = (if i < 0 then CHR ''-'' # fmt_u (nat (- i)) else fmt_u (nat i))"

definition fmt_dword_d :: "DWORD \<Rightarrow> string" where
  "fmt_dword_d w = fmt_d (sint w)"

text \<open>\<^verbatim>\<open>atoi\<close> on a text that starts with a digit.\<close>

definition atoi_digits :: "string \<Rightarrow> int" where
  "atoi_digits s = foldl (\<lambda>acc c. 10 * acc + digit_val c) 0 s"

lemma of_char_char_of_small: "n < 256 \<Longrightarrow> of_char (char_of (n::nat)) = (n::nat)"
  by simp

lemma digit_val_digit_char [simp]: "d < 10 \<Longrightarrow> digit_val (digit_char d) = int d"
proof -
  assume "d < 10"
  then have "(of_char (digit_char d) :: nat) = 48 + d"
    by (simp add: digit_char_def)
  then have "(of_char (digit_char d) :: int) = 48 + int d"
    by (metis of_nat_add of_nat_numeral of_nat_of_char)
  then show ?thesis by (simp add: digit_val_def)
qed

lemma isdigit_digit_char [simp]: "d < 10 \<Longrightarrow> isdigit (digit_char d)"
  by (simp add: isdigit_def digit_char_def)

lemma atoi_digits_snoc: "atoi_digits (s @ [c]) = 10 * atoi_digits s + digit_val c"
  by (simp add: atoi_digits_def)

lemma atoi_fmt_u: "atoi_digits (fmt_u n) = int n"
proof (induction n rule: fmt_u.induct)
  case (1 n)
  show ?case
  proof (cases "n < 10")
    case True
    then show ?thesis by (simp add: fmt_u.simps [of n] atoi_digits_def)
  next
    case False
    then have "atoi_digits (fmt_u n) = 10 * int (n div 10) + int (n mod 10)"
      using "1.IH" by (simp add: fmt_u.simps [of n] atoi_digits_snoc)
    then show ?thesis by presburger
  qed
qed

lemma fmt_u_digits: "c \<in> set (fmt_u n) \<Longrightarrow> isdigit c"
proof (induction n rule: fmt_u.induct)
  case (1 n)
  then show ?case
    by (cases "n < 10") (auto simp: fmt_u.simps [of n])
qed

lemma fmt_u_nonempty: "fmt_u n \<noteq> []"
  by (subst fmt_u.simps) simp

lemma fmt_u_length: "0 < k \<Longrightarrow> n < 10 ^ k \<Longrightarrow> length (fmt_u n) \<le> k"
proof (induction n arbitrary: k rule: fmt_u.induct)
  case (1 n)
  show ?case
  proof (cases "n < 10")
    case True
    with "1.prems" show ?thesis by (simp add: fmt_u.simps [of n])
  next
    case False
    then obtain j where k: "k = Suc j" "0 < j"
      using "1.prems" by (cases k; cases "k - 1") auto
    then have "n div 10 < 10 ^ j"
      using "1.prems" by (simp add: less_mult_imp_div_less mult.commute)
    with False k "1.IH" show ?thesis by (simp add: fmt_u.simps [of n])
  qed
qed

text \<open>
  \<^verbatim>\<open>_snprintf (buf, count, ...)\<close> followed by a terminating NUL at \<^verbatim>\<open>buf[count]\<close>: a negative
  result (no value) when the text is longer than \<^verbatim>\<open>count\<close>.  Where the source ignores the
  result, the buffer holds the truncated text.
\<close>

definition snprintf :: "nat \<Rightarrow> 'a list \<Rightarrow> 'a list option" where
  "snprintf count txt = (if length txt \<le> count then Some txt else None)"

definition snprintf_trunc :: "nat \<Rightarrow> 'a list \<Rightarrow> 'a list" where
  "snprintf_trunc count txt = take count txt"

lemma snprintf_Some_iff: "snprintf n t = Some u \<longleftrightarrow> length t \<le> n \<and> u = t"
  by (auto simp: snprintf_def)

text \<open>
  \<^verbatim>\<open>%S\<close> in a narrow format: wide characters are converted in the C locale, and the
  conversion of the argument stops at the first character it cannot represent.
\<close>

definition narrow :: "wstring \<Rightarrow> string" where
  "narrow ws = map (\<lambda>w. char_of (unat w)) (takeWhile (\<lambda>w. unat w < 256) ws)"

lemma unat_of_char_wchar [simp]: "unat (of_char c :: WCHAR) = of_char c"
proof -
  have "(of_char c :: nat) < 65536"
    using nat_of_char_less_256 [of c] by linarith
  then have "unat (of_nat (of_char c) :: WCHAR) = of_char c"
    by (simp only: unat_of_nat) simp
  then show ?thesis by (metis of_nat_of_char)
qed

lemma narrow_wide [simp]: "narrow (wide s) = s"
  by (induction s) (simp_all add: narrow_def wide_def)

section \<open>Words\<close>

lemma unat_dword_of_nat: "n < 4294967296 \<Longrightarrow> unat (of_nat n :: DWORD) = n"
  by (simp add: unat_of_nat)

lemma dword_of_nat_less:
  "a < 4294967296 \<Longrightarrow> b < 4294967296 \<Longrightarrow> (of_nat a :: DWORD) < of_nat b \<longleftrightarrow> a < b"
  by (simp add: word_less_nat_alt unat_dword_of_nat)

lemma dword_of_nat_eq:
  "a < 4294967296 \<Longrightarrow> b < 4294967296 \<Longrightarrow> (of_nat a :: DWORD) = of_nat b \<longleftrightarrow> a = b"
  by (metis unat_dword_of_nat)

lemma unat_of_char_byte [simp]: "unat (of_char c :: BYTE) = of_char c"
proof -
  have "(of_char c :: nat) < 256" by simp
  then have "unat (of_nat (of_char c) :: BYTE) = of_char c"
    by (simp only: unat_of_nat) simp
  then show ?thesis by (metis of_nat_of_char)
qed

lemma dword_lt_2_31_sint:
  assumes "unat (w :: DWORD) < 2147483648"
  shows "sint w = int (unat w)"
proof -
  have u: "uint w = int (unat w)" by (rule uint_nat)
  have lo: "- (2 ^ 31) \<le> uint w" by (rule order_trans [of _ 0]) simp_all
  have "int (unat w) < 2147483648" using assms by linarith
  then have hi: "uint w < 2 ^ 31" by (simp only: u) simp
  have "sint w = uint w"
    using signed_take_bit_int_eq_self [OF lo hi] by (simp add: sint_uint)
  then show ?thesis using u by (rule trans)
qed

end
