(* ===== verification/Win32_Api.thy ===== *)
theory Win32_Api
  imports Pop3_Prelude
begin

text \<open>
  The operating system as a parameter.  Everything the service calls in Win32, Winsock, SSPI
  and COM, and whether memory could be allocated, is a field of a record of functions over an
  unspecified world \<^typ>\<open>'w\<close>; each call returns its result and the next world.  No law is
  assumed of any field here: a theorem that needs documented behaviour states it as a
  hypothesis.  \<^verbatim>\<open>RegQueryValueEx\<close> takes the size of the buffer and returns the code, the bytes it
  stores and the size it reports.  \<^verbatim>\<open>UuidCreateString\<close> stands for \<^verbatim>\<open>UuidCreate\<close> followed, when that
  succeeds, by \<^verbatim>\<open>UuidToString\<close>.  Two fields abbreviate an iteration of the API: \<^verbatim>\<open>FindFirstFile\<close> gives the
  finite sequence of directory entries that it and the \<^verbatim>\<open>FindNextFile\<close> calls on its handle
  return (the empty one for \<^verbatim>\<open>INVALID_HANDLE_VALUE\<close>), and \<^verbatim>\<open>FindNextFile\<close> is the call that
  finds no further entry.
\<close>

section \<open>Constants of the Windows headers\<close>

abbreviation (input) "MAX_PATH \<equiv> (260 :: nat)"

definition ERROR_SUCCESS :: DWORD where "ERROR_SUCCESS = 0"
definition ERROR_FILE_NOT_FOUND :: DWORD where "ERROR_FILE_NOT_FOUND = 2"
definition ERROR_ACCESS_DENIED :: DWORD where "ERROR_ACCESS_DENIED = 5"
definition ERROR_INVALID_HANDLE :: DWORD where "ERROR_INVALID_HANDLE = 6"
definition ERROR_INVALID_DATA :: DWORD where "ERROR_INVALID_DATA = 13"
definition ERROR_OUTOFMEMORY :: DWORD where "ERROR_OUTOFMEMORY = 14"
definition ERROR_INVALID_PARAMETER :: DWORD where "ERROR_INVALID_PARAMETER = 87"
definition ERROR_INSUFFICIENT_BUFFER :: DWORD where "ERROR_INSUFFICIENT_BUFFER = 122"
definition ERROR_NO_MORE_FILES :: DWORD where "ERROR_NO_MORE_FILES = 18"
definition ERROR_IO_PENDING :: DWORD where "ERROR_IO_PENDING = 997"
definition INVALID_SET_FILE_POINTER :: DWORD where "INVALID_SET_FILE_POINTER = 0xFFFFFFFF"
definition INVALID_FILE_SIZE :: DWORD where "INVALID_FILE_SIZE = 0xFFFFFFFF"

definition GENERIC_READ :: DWORD where "GENERIC_READ = 0x80000000"
definition GENERIC_WRITE :: DWORD where "GENERIC_WRITE = 0x40000000"
definition GENERIC_ALL :: DWORD where "GENERIC_ALL = 0x10000000"
definition FILE_SHARE_READ :: DWORD where "FILE_SHARE_READ = 1"
definition FILE_SHARE_DELETE :: DWORD where "FILE_SHARE_DELETE = 4"
definition CREATE_NEW :: DWORD where "CREATE_NEW = 1"
definition OPEN_EXISTING :: DWORD where "OPEN_EXISTING = 3"
definition OPEN_ALWAYS :: DWORD where "OPEN_ALWAYS = 4"
definition FILE_ATTRIBUTE_HIDDEN :: DWORD where "FILE_ATTRIBUTE_HIDDEN = 2"
definition FILE_ATTRIBUTE_NORMAL :: DWORD where "FILE_ATTRIBUTE_NORMAL = 0x80"
definition FILE_FLAG_SEQUENTIAL_SCAN :: DWORD where "FILE_FLAG_SEQUENTIAL_SCAN = 0x08000000"
definition FILE_FLAG_NO_BUFFERING :: DWORD where "FILE_FLAG_NO_BUFFERING = 0x20000000"
definition FILE_FLAG_OVERLAPPED :: DWORD where "FILE_FLAG_OVERLAPPED = 0x40000000"

text \<open>The registry: root keys, access rights and types of values.\<close>

definition HKEY_LOCAL_MACHINE :: HANDLE where "HKEY_LOCAL_MACHINE = 0x80000002"
definition KEY_QUERY_VALUE :: DWORD where "KEY_QUERY_VALUE = 0x0001"
definition KEY_SET_VALUE :: DWORD where "KEY_SET_VALUE = 0x0002"
definition KEY_READ :: DWORD where "KEY_READ = 0x20019"
definition KEY_WRITE :: DWORD where "KEY_WRITE = 0x20006"
definition KEY_ALL_ACCESS :: DWORD where "KEY_ALL_ACCESS = 0xF003F"
definition REG_SZ :: DWORD where "REG_SZ = 1"
definition REG_DWORD :: DWORD where "REG_DWORD = 4"
definition REG_MULTI_SZ :: DWORD where "REG_MULTI_SZ = 7"

type_synonym HRESULT = DWORD

definition S_OK :: HRESULT where "S_OK = 0"
definition S_FALSE :: HRESULT where "S_FALSE = 1"
definition E_FAIL :: HRESULT where "E_FAIL = 0x80004005"
definition E_POINTER :: HRESULT where "E_POINTER = 0x80004003"
definition E_UNEXPECTED :: HRESULT where "E_UNEXPECTED = 0x8000FFFF"
definition E_INVALIDARG :: HRESULT where "E_INVALIDARG = 0x80070057"
definition E_OUTOFMEMORY :: HRESULT where "E_OUTOFMEMORY = 0x8007000E"
definition E_ACCESSDENIED :: HRESULT where "E_ACCESSDENIED = 0x80070005"

text \<open>\<^verbatim>\<open>SUCCEEDED(hr)\<close>: the value is not negative as a signed number.\<close>

definition SUCCEEDED :: "HRESULT \<Rightarrow> bool" where
  "SUCCEEDED hr \<longleftrightarrow> 0 \<le> sint hr"

lemma hresult_values [simp]:
  "SUCCEEDED S_OK" "SUCCEEDED S_FALSE" "\<not> SUCCEEDED E_FAIL" "\<not> SUCCEEDED E_OUTOFMEMORY"
  by (simp_all add: SUCCEEDED_def S_OK_def S_FALSE_def E_FAIL_def E_OUTOFMEMORY_def)

definition HRESULT_FROM_WIN32 :: "DWORD \<Rightarrow> HRESULT" where
  "HRESULT_FROM_WIN32 x = (if sint x \<le> 0 then x else (x AND 0xFFFF) OR 0x80070000)"

lemma HRESULT_FROM_WIN32_zero [simp]: "HRESULT_FROM_WIN32 0 = 0"
  by (simp add: HRESULT_FROM_WIN32_def)

lemma HRESULT_FROM_WIN32_fails: "HRESULT_FROM_WIN32 x = S_OK \<longleftrightarrow> x = 0"
proof (cases "sint x \<le> 0")
  case False
  have "bit ((x AND 0xFFFF) OR (0x80070000 :: DWORD)) 31" by (simp add: bit_or_iff)
  then have "(x AND 0xFFFF) OR (0x80070000 :: DWORD) \<noteq> 0" by (metis bit_0_eq bot_apply bot_bool_def)
  then show ?thesis using False by (auto simp: HRESULT_FROM_WIN32_def S_OK_def)
qed (simp add: HRESULT_FROM_WIN32_def S_OK_def)

lemma SUCCEEDED_HRESULT_FROM_WIN32 [simp]: "SUCCEEDED (HRESULT_FROM_WIN32 x) \<longleftrightarrow> x = 0"
proof (cases "sint x \<le> 0")
  case True
  have "sint x = 0 \<longleftrightarrow> x = 0" by (metis signed_0 signed_eq_0_iff)
  then show ?thesis using True by (auto simp: HRESULT_FROM_WIN32_def SUCCEEDED_def)
next
  case False
  have "bit ((x AND 0xFFFF) OR (0x80070000 :: DWORD)) 31" by (simp add: bit_or_iff)
  then have "sint ((x AND 0xFFFF) OR (0x80070000 :: DWORD)) < 0" using bit_last_iff [of "(x AND 0xFFFF) OR (0x80070000 :: DWORD)"] by simp
  then show ?thesis using False by (auto simp: HRESULT_FROM_WIN32_def SUCCEEDED_def)
qed

section \<open>The calls\<close>

record WIN32_FIND_DATA =
  dwFileAttributes :: DWORD
  nFileSizeLow :: DWORD
  cFileName :: wstring

record 'w win32 =
  alloc :: "'w \<Rightarrow> bool \<times> 'w"
  GetLastError :: "'w \<Rightarrow> DWORD"
  SetLastError :: "DWORD \<Rightarrow> 'w \<Rightarrow> 'w"
  GetTickCount :: "'w \<Rightarrow> DWORD \<times> 'w"
  iswspace :: "WCHAR \<Rightarrow> bool"
  MultiByteToWideChar :: "string \<Rightarrow> wstring"
  RegOpenKeyEx :: "'w \<Rightarrow> HANDLE \<Rightarrow> wstring \<Rightarrow> DWORD \<Rightarrow> (DWORD \<times> HANDLE) \<times> 'w"
  RegConnectRegistry :: "'w \<Rightarrow> wstring \<Rightarrow> HANDLE \<Rightarrow> (DWORD \<times> HANDLE) \<times> 'w"
  RegCreateKeyEx :: "'w \<Rightarrow> HANDLE \<Rightarrow> wstring \<Rightarrow> DWORD \<Rightarrow> (DWORD \<times> HANDLE) \<times> 'w"
  RegCloseKey :: "'w \<Rightarrow> HANDLE \<Rightarrow> 'w"
  RegQueryValueEx :: "'w \<Rightarrow> HANDLE \<Rightarrow> wstring \<Rightarrow> nat \<Rightarrow> (DWORD \<times> BYTE list \<times> nat) \<times> 'w"
  RegSetValueEx :: "'w \<Rightarrow> HANDLE \<Rightarrow> wstring \<Rightarrow> DWORD \<Rightarrow> BYTE list \<Rightarrow> DWORD \<times> 'w"
  UuidCreateString :: "'w \<Rightarrow> (DWORD \<times> wstring) \<times> 'w"
  GetCurrentDirectory :: "'w \<Rightarrow> wstring option \<times> 'w"
  GetFileAttributes :: "'w \<Rightarrow> wstring \<Rightarrow> DWORD \<times> 'w"
  CreateDirectory :: "'w \<Rightarrow> wstring \<Rightarrow> bool \<times> 'w"
  RemoveDirectory :: "'w \<Rightarrow> wstring \<Rightarrow> bool \<times> 'w"
  CreateFile :: "'w \<Rightarrow> wstring \<Rightarrow> DWORD \<Rightarrow> DWORD \<Rightarrow> string option option \<Rightarrow> DWORD \<Rightarrow> DWORD
                 \<Rightarrow> HANDLE \<times> 'w"
  CloseHandle :: "'w \<Rightarrow> HANDLE \<Rightarrow> bool \<times> 'w"
  DeleteFile :: "'w \<Rightarrow> wstring \<Rightarrow> bool \<times> 'w"
  GetFileSize :: "'w \<Rightarrow> HANDLE \<Rightarrow> DWORD \<times> 'w"
  ReadFile :: "'w \<Rightarrow> HANDLE \<Rightarrow> nat \<Rightarrow> string option \<times> 'w"
  WriteFile :: "'w \<Rightarrow> HANDLE \<Rightarrow> string \<Rightarrow> DWORD option \<times> 'w"
  SetEndOfFile :: "'w \<Rightarrow> HANDLE \<Rightarrow> bool \<times> 'w"
  SetFilePointer :: "'w \<Rightarrow> HANDLE \<Rightarrow> DWORD \<times> 'w"
  FindFirstFile :: "'w \<Rightarrow> wstring \<Rightarrow> WIN32_FIND_DATA list \<times> 'w"
  FindNextFile :: "'w \<Rightarrow> 'w"
  FindClose :: "'w \<Rightarrow> 'w"
  InitializeSecurityDescriptor :: "'w \<Rightarrow> bool \<times> 'w"
  SetSecurityDescriptorOwner :: "'w \<Rightarrow> string option \<Rightarrow> bool \<times> 'w"
  NtFlushBuffersFile :: "'w \<Rightarrow> HANDLE \<Rightarrow> DWORD \<times> 'w"
  NtSetInformationFile :: "'w \<Rightarrow> HANDLE \<Rightarrow> DWORD \<Rightarrow> DWORD \<times> 'w"
  TransmitFile :: "'w \<Rightarrow> HANDLE \<Rightarrow> HANDLE \<Rightarrow> DWORD \<Rightarrow> string \<Rightarrow> string \<Rightarrow> bool \<times> 'w"
  WSAGetLastError :: "'w \<Rightarrow> DWORD"
  WSASocket :: "'w \<Rightarrow> HANDLE \<times> 'w"
  CreateIoCompletionPort :: "'w \<Rightarrow> HANDLE \<Rightarrow> bool \<times> 'w"
  AcceptEx :: "'w \<Rightarrow> HANDLE \<Rightarrow> HANDLE \<Rightarrow> bool \<times> 'w"
  WSARecv :: "'w \<Rightarrow> HANDLE \<Rightarrow> bool \<times> 'w"
  closesocket :: "'w \<Rightarrow> HANDLE \<Rightarrow> 'w"
  Authenticate :: "'w \<Rightarrow> wstring \<Rightarrow> wstring option \<Rightarrow> HRESULT \<times> 'w"
  AuthGetEmail :: "'w \<Rightarrow> wstring \<Rightarrow> (HRESULT \<times> wstring) \<times> 'w"
  SearchForMailbox :: "'w \<Rightarrow> wstring \<Rightarrow> (HRESULT \<times> wstring) \<times> 'w"
  AcquireCredentialsHandle :: "'w \<Rightarrow> DWORD \<times> 'w"
  AcceptSecurityContext :: "'w \<Rightarrow> bool \<Rightarrow> BYTE list \<Rightarrow> DWORD \<Rightarrow> (DWORD \<times> BYTE list) \<times> 'w"
  CompleteAuthToken :: "('w \<Rightarrow> DWORD \<times> 'w) option"
  QueryContextNames :: "'w \<Rightarrow> (DWORD \<times> wstring) \<times> 'w"
  DeleteSecurityContext :: "'w \<Rightarrow> 'w"
  FreeCredentialHandle :: "'w \<Rightarrow> 'w"
  GetWindowsDirectory :: "'w \<Rightarrow> bool \<times> 'w"
  LoadLibrary :: "'w \<Rightarrow> bool \<times> 'w"
  GetProcAddress :: "'w \<Rightarrow> bool \<times> 'w"
  InitSecurityInterface :: "'w \<Rightarrow> bool \<times> 'w"
  QuerySecurityPackageInfo :: "'w \<Rightarrow> DWORD \<times> 'w"
  CoCreateP3Config :: "'w \<Rightarrow> HRESULT \<times> 'w"
  get_Domains :: "'w \<Rightarrow> HRESULT \<times> 'w"

end
