(* ===== verification/Sim_Os.thy ===== *)
theory Sim_Os
  imports Win32_Api
begin

text \<open>
  A small executable operating system: one instance of the parameter \<^typ>\<open>'w win32\<close>, used by the
  witnesses to show that the hypotheses on the system can hold together.  Its world has a flat
  file store, a table of open files, a last error, a clock and a table of accounts.  It is not a
  model of Windows; no property rests on it.
\<close>

record sim =
  sim_files :: "(wstring \<times> string) list"
  sim_open :: "(HANDLE \<times> wstring \<times> nat) list"
  sim_next :: HANDLE
  sim_error :: DWORD
  sim_clock :: DWORD
  sim_users :: "(wstring \<times> wstring) list"
  sim_keys :: "(HANDLE \<times> (wstring \<times> wstring) \<times> DWORD) list"
  sim_reg :: "(((wstring \<times> wstring) \<times> wstring) \<times> BYTE list) list"

definition sim_fail :: "DWORD \<Rightarrow> 'a \<Rightarrow> sim \<Rightarrow> 'a \<times> sim" where
  "sim_fail e r w = (r, w\<lparr>sim_error := e\<rparr>)"

definition sim_create :: "sim \<Rightarrow> wstring \<Rightarrow> DWORD \<Rightarrow> DWORD \<Rightarrow> string option option \<Rightarrow> DWORD \<Rightarrow> DWORD
    \<Rightarrow> HANDLE \<times> sim" where
  "sim_create w name access share owner disp flags =
     (let there = map_of (sim_files w) name \<noteq> None;
          busy = (\<exists>e \<in> set (sim_open w). fst (snd e) = name)
      in if busy then sim_fail 32 (-1) w
         else if there \<and> disp = CREATE_NEW then sim_fail 80 (-1) w
         else if \<not> there \<and> disp = OPEN_EXISTING then sim_fail ERROR_FILE_NOT_FOUND (-1) w
         else (sim_next w, w\<lparr>sim_files := (if there then sim_files w else (name, []) # sim_files w),
                 sim_open := (sim_next w, name, 0) # sim_open w, sim_next := sim_next w + 1\<rparr>))"

definition sim_close :: "sim \<Rightarrow> HANDLE \<Rightarrow> bool \<times> sim" where
  "sim_close w h = (case map_of (sim_open w) h of
      None \<Rightarrow> sim_fail ERROR_INVALID_HANDLE False w
    | Some _ \<Rightarrow> (True, w\<lparr>sim_open := filter (\<lambda>e. fst e \<noteq> h) (sim_open w)\<rparr>))"

definition sim_delete :: "sim \<Rightarrow> wstring \<Rightarrow> bool \<times> sim" where
  "sim_delete w name = (if map_of (sim_files w) name = None \<or> (\<exists>e \<in> set (sim_open w). fst (snd e) = name)
     then sim_fail ERROR_FILE_NOT_FOUND False w
     else (True, w\<lparr>sim_files := filter (\<lambda>e. fst e \<noteq> name) (sim_files w)\<rparr>))"

definition sim_read :: "sim \<Rightarrow> HANDLE \<Rightarrow> nat \<Rightarrow> string option \<times> sim" where
  "sim_read w h n = (case map_of (sim_open w) h of
      None \<Rightarrow> sim_fail ERROR_INVALID_HANDLE None w
    | Some (name, pos) \<Rightarrow>
        (case map_of (sim_files w) name of
           None \<Rightarrow> sim_fail ERROR_INVALID_HANDLE None w
         | Some txt \<Rightarrow> (Some (take n (drop pos txt)),
             w\<lparr>sim_open := map (\<lambda>e. if fst e = h then (h, name, pos + n) else e) (sim_open w)\<rparr>)))"

definition sim_rewind :: "sim \<Rightarrow> HANDLE \<Rightarrow> DWORD \<times> sim" where
  "sim_rewind w h = (0, w\<lparr>sim_open := map (\<lambda>e. if fst e = h then (h, fst (snd e), 0) else e) (sim_open w)\<rparr>)"

text \<open>The entries of a directory, found by a filter \<^verbatim>\<open>dir\*.eml\<close>; none of them is hidden.\<close>

definition sim_find :: "sim \<Rightarrow> wstring \<Rightarrow> WIN32_FIND_DATA list \<times> sim" where
  "sim_find w pat =
     (let dir = take (length pat - 5) pat;
          found = [\<lparr>dwFileAttributes = 0, nFileSizeLow = of_nat (length (snd f)),
                    cFileName = drop (length dir) (fst f)\<rparr>.
                   f \<leftarrow> sim_files w, take (length dir) (fst f) = dir,
                   drop (length (fst f) - 4) (fst f) = wide ''.eml'']
      in if found = [] then sim_fail ERROR_FILE_NOT_FOUND [] w else (found, w))"

definition sim_login :: "sim \<Rightarrow> wstring \<Rightarrow> wstring option \<Rightarrow> HRESULT \<times> sim" where
  "sim_login w user pass = (if map_of (sim_users w) user = pass \<and> pass \<noteq> None then S_OK else E_FAIL, w)"

text \<open>A registry in which every key exists and may be opened; the machine is the first part of a key.\<close>

definition sim_key_of :: "sim \<Rightarrow> HANDLE \<Rightarrow> ((wstring \<times> wstring) \<times> DWORD) option" where
  "sim_key_of w h = (if h = HKEY_LOCAL_MACHINE then Some (([], []), KEY_ALL_ACCESS) else map_of (sim_keys w) h)"

definition sim_new_key :: "wstring \<times> wstring \<Rightarrow> DWORD \<Rightarrow> sim \<Rightarrow> (DWORD \<times> HANDLE) \<times> sim" where
  "sim_new_key p sam w =
     (let k = foldr min (map fst (sim_keys w)) 0 - 1 in ((0, k), w\<lparr>sim_keys := (k, p, sam) # sim_keys w\<rparr>))"

definition sim_open_key :: "sim \<Rightarrow> HANDLE \<Rightarrow> wstring \<Rightarrow> DWORD \<Rightarrow> (DWORD \<times> HANDLE) \<times> sim" where
  "sim_open_key w h sub sam = (case sim_key_of w h of
      None \<Rightarrow> ((ERROR_INVALID_HANDLE, 0), w)
    | Some ((m, p), _) \<Rightarrow> sim_new_key (m, if p = [] then sub else p @ wide [CHR 0x5C] @ sub) sam w)"

definition sim_query_value :: "sim \<Rightarrow> HANDLE \<Rightarrow> wstring \<Rightarrow> nat \<Rightarrow> (DWORD \<times> BYTE list \<times> nat) \<times> sim" where
  "sim_query_value w h name n = (case sim_key_of w h of
      None \<Rightarrow> ((ERROR_INVALID_HANDLE, [], n), w)
    | Some (p, sam) \<Rightarrow>
        if sam AND KEY_QUERY_VALUE = 0 then ((ERROR_ACCESS_DENIED, [], n), w)
        else (case map_of (sim_reg w) (p, name) of
           None \<Rightarrow> ((ERROR_FILE_NOT_FOUND, [], n), w)
         | Some bs \<Rightarrow> if length bs \<le> n then ((0, bs, length bs), w) else ((234, [], length bs), w)))"

definition sim_set_value :: "sim \<Rightarrow> HANDLE \<Rightarrow> wstring \<Rightarrow> DWORD \<Rightarrow> BYTE list \<Rightarrow> DWORD \<times> sim" where
  "sim_set_value w h name t bs = (case sim_key_of w h of
      None \<Rightarrow> (ERROR_INVALID_HANDLE, w)
    | Some (p, sam) \<Rightarrow>
        if sam AND KEY_SET_VALUE = 0 then (ERROR_ACCESS_DENIED, w)
        else (0, w\<lparr>sim_reg := ((p, name), bs) # sim_reg w\<rparr>))"

definition sim_api :: "sim win32" where
  "sim_api = \<lparr>
     alloc = Pair True,
     GetLastError = sim_error,
     SetLastError = (\<lambda>e w. w\<lparr>sim_error := e\<rparr>),
     GetTickCount = (\<lambda>w. (sim_clock w, w\<lparr>sim_clock := sim_clock w + 10\<rparr>)),
     iswspace = (\<lambda>c. c = 32 \<or> (9 \<le> c \<and> c \<le> 13)),
     MultiByteToWideChar = wide,
     RegOpenKeyEx = sim_open_key,
     RegConnectRegistry = (\<lambda>w m h. sim_new_key (drop 2 m, []) KEY_ALL_ACCESS w),
     RegCreateKeyEx = sim_open_key,
     RegCloseKey = (\<lambda>w h. w\<lparr>sim_keys := filter (\<lambda>e. fst e \<noteq> h) (sim_keys w)\<rparr>),
     RegQueryValueEx = sim_query_value,
     RegSetValueEx = sim_set_value,
     UuidCreateString = Pair (0, wide ''14f1665c-e3d3-46aa-884f-ed4cf19d7ad6''),
     GetCurrentDirectory = Pair (Some (wide ''C:'')),
     GetFileAttributes = (\<lambda>w p. (0x10, w)),
     CreateDirectory = (\<lambda>w p. (True, w)),
     RemoveDirectory = (\<lambda>w p. (True, w)),
     CreateFile = sim_create,
     CloseHandle = sim_close,
     DeleteFile = sim_delete,
     GetFileSize = (\<lambda>w h. (0, w)),
     ReadFile = sim_read,
     WriteFile = (\<lambda>w h s. (Some (of_nat (length s)), w)),
     SetEndOfFile = (\<lambda>w h. (True, w)),
     SetFilePointer = sim_rewind,
     FindFirstFile = sim_find,
     FindNextFile = (\<lambda>w. w\<lparr>sim_error := ERROR_NO_MORE_FILES\<rparr>),
     FindClose = id,
     InitializeSecurityDescriptor = Pair True,
     SetSecurityDescriptorOwner = (\<lambda>w s. (True, w)),
     NtFlushBuffersFile = (\<lambda>w h. (0, w)),
     NtSetInformationFile = (\<lambda>w h a. (0, w)),
     TransmitFile = (\<lambda>w s f n h t. (True, w)),
     WSAGetLastError = sim_error,
     WSASocket = (\<lambda>w. (sim_next w, w\<lparr>sim_next := sim_next w + 1\<rparr>)),
     CreateIoCompletionPort = (\<lambda>w h. (True, w)),
     AcceptEx = (\<lambda>w l s. (True, w)),
     WSARecv = (\<lambda>w s. (True, w)),
     closesocket = (\<lambda>w s. w),
     Authenticate = sim_login,
     AuthGetEmail = (\<lambda>w u. ((S_OK, u), w)),
     SearchForMailbox = (\<lambda>w u. ((S_OK, u), w)),
     AcquireCredentialsHandle = Pair 0,
     AcceptSecurityContext = (\<lambda>w f t p. ((0, []), w)),
     CompleteAuthToken = None,
     QueryContextNames = Pair (0, wide ''user''),
     DeleteSecurityContext = id,
     FreeCredentialHandle = id,
     GetWindowsDirectory = Pair True,
     LoadLibrary = Pair True,
     GetProcAddress = Pair True,
     InitSecurityInterface = Pair True,
     QuerySecurityPackageInfo = Pair 0,
     CoCreateP3Config = Pair S_OK,
     get_Domains = Pair S_OK\<rparr>"

definition sim_start :: sim where
  "sim_start = \<lparr>sim_files = [], sim_open = [], sim_next = 16, sim_error = 0, sim_clock = 0,
     sim_users = [(wide ''u@d'', wide ''pw'')],
     sim_keys = [], sim_reg = []\<rparr>"

end
