(* ===== verification/Pop3_Reg.thy ===== *)
theory Pop3_Reg
  imports Sim_Os
begin

text \<open>
  The registry values of the POP3 service (\<^verbatim>\<open>pop3/shared/pop3reg/pop3regkeys.cpp\<close>): opening a key on
  this or on another machine, reading and writing numbers and strings, and the named settings.  Values are
  byte strings, as the registry stores them; a string is read up to its terminating NUL, and one that was
  stored without it is read behind the data: no value.
\<close>

section \<open>Values as bytes\<close>

definition dword_bytes :: "DWORD \<Rightarrow> BYTE list" where
  "dword_bytes x = [ucast x, ucast (drop_bit 8 x), ucast (drop_bit 16 x), ucast (drop_bit 24 x)]"

fun bytes_dword :: "BYTE list \<Rightarrow> DWORD" where
  "bytes_dword [] = 0"
| "bytes_dword (b # bs) = ucast b OR push_bit 8 (bytes_dword bs)"

text \<open>The bytes stored over the old content of a buffer of \<^term>\<open>n\<close> bytes.\<close>

definition stored :: "nat \<Rightarrow> BYTE list \<Rightarrow> BYTE list \<Rightarrow> BYTE list" where
  "stored n old bs = take n bs @ drop (length (take n bs)) old"

definition wcs_bytes :: "wstring \<Rightarrow> BYTE list" where
  "wcs_bytes s = concat (map (\<lambda>c. [ucast c, ucast (drop_bit 8 c)]) (s @ [0]))"

fun bytes_wcs :: "BYTE list \<Rightarrow> wstring option" where
  "bytes_wcs (lo # hi # bs) =
     (let c = ucast lo OR push_bit 8 (ucast hi) in
      if c = 0 then Some [] else map_option (Cons c) (bytes_wcs bs))"
| "bytes_wcs _ = None"

section \<open>Keys and names\<close>

definition POP3SERVER_SUBKEY :: wstring where "POP3SERVER_SUBKEY = wide ''POP3 Service''"
definition POP3SERVICE_SUBKEY :: wstring where "POP3SERVICE_SUBKEY = wide ''Pop3svc''"
definition subkey :: "wstring \<Rightarrow> wstring \<Rightarrow> wstring" where "subkey a b = a @ wide [CHR 0x5C] @ b"
definition SERVICES_KEY :: wstring where
  "SERVICES_KEY = subkey (wide ''System'') (subkey (wide ''CurrentControlSet'') (wide ''Services''))"
definition EVENTLOG_KEY :: wstring where
  "EVENTLOG_KEY = subkey SERVICES_KEY (subkey (wide ''Eventlog'') (subkey (wide ''Application'') []))"
definition POP3SERVICE_SERVICES_SUBKEY :: wstring where
  "POP3SERVICE_SERVICES_SUBKEY = subkey SERVICES_KEY POP3SERVICE_SUBKEY"
definition SOFTWARE_KEY :: wstring where "SOFTWARE_KEY = subkey (wide ''Software'') (wide ''Microsoft'')"
definition POP3SERVER_SOFTWARE_SUBKEY :: wstring where
  "POP3SERVER_SOFTWARE_SUBKEY = subkey SOFTWARE_KEY POP3SERVER_SUBKEY"
definition POP3AUTH_SUBKEY :: wstring where "POP3AUTH_SUBKEY = wide ''Auth''"
definition POP3SERVER_AUTH_SUBKEY :: wstring where
  "POP3SERVER_AUTH_SUBKEY = subkey POP3SERVER_SOFTWARE_SUBKEY POP3AUTH_SUBKEY"

definition VALUENAME_LOGGINGLEVEL :: wstring where "VALUENAME_LOGGINGLEVEL = wide ''Logging Level''"
definition VALUENAME_MAILROOT :: wstring where "VALUENAME_MAILROOT = wide ''MailRoot''"
definition VALUENAME_PORT :: wstring where "VALUENAME_PORT = wide ''POP3Port''"
definition VALUENAME_BACKLOG :: wstring where "VALUENAME_BACKLOG = wide ''SocketBacklog''"
definition VALUENAME_MIN :: wstring where "VALUENAME_MIN = wide ''MinNumberOfSockets''"
definition VALUENAME_MAX :: wstring where "VALUENAME_MAX = wide ''MaxNumberOfSockets''"
definition VALUENAME_THRESHOLD :: wstring where "VALUENAME_THRESHOLD = wide ''SocketsThreshold''"
definition VALUENAME_THREADCOUNT :: wstring where "VALUENAME_THREADCOUNT = wide ''ThreadCountPerCPU''"
definition VALUENAME_AUTHMETHODS :: wstring where "VALUENAME_AUTHMETHODS = wide ''AuthMethods''"
definition VALUENAME_DEFAULTAUTH :: wstring where "VALUENAME_DEFAULTAUTH = wide ''DefaultAuthMethod''"
definition VALUENAME_AUTHGUID :: wstring where "VALUENAME_AUTHGUID = wide ''AuthGUID''"
definition VALUENAME_EVENTMSGFILE :: wstring where "VALUENAME_EVENTMSGFILE = wide ''EventMessageFile''"
definition VALUENAME_CATEGORYMSGFILE :: wstring where "VALUENAME_CATEGORYMSGFILE = wide ''CategoryMessageFile''"
definition VALUENAME_TYPESSUPPORTED :: wstring where "VALUENAME_TYPESSUPPORTED = wide ''TypesSupported''"
definition VALUENAME_MAXMSG_PERDOWNLOAD :: wstring where
  "VALUENAME_MAXMSG_PERDOWNLOAD = wide ''MaxMessagesPerDownload''"
definition VALUENAME_CREATE_USER :: wstring where "VALUENAME_CREATE_USER = wide ''CreateUser''"
definition VALUENAME_GREETING :: wstring where "VALUENAME_GREETING = wide ''Greeting''"
definition VALUENAME_VERSION :: wstring where "VALUENAME_VERSION = wide ''Version''"
definition VALUENAME_SOCK_VERSION :: wstring where "VALUENAME_SOCK_VERSION = wide ''IPVersion''"
definition VALUENAME_SPA_REQUIRED :: wstring where "VALUENAME_SPA_REQUIRED = wide ''RequireSPA''"
definition VALUENAME_CONFIRM_ADDUSER :: wstring where "VALUENAME_CONFIRM_ADDUSER = wide ''ConfirmAddUser''"
definition WSZ_EVENTLOG_FILE_NAME :: wstring where "WSZ_EVENTLOG_FILE_NAME = wide (CHR 0x5C # ''Pop3Evt.dll'')"

section \<open>Reading and writing\<close>

text \<open>
  A key below \<^verbatim>\<open>HKEY_LOCAL_MACHINE\<close>, of this machine (no name) or of another.  The name of a machine is
  printed into an array of \<^verbatim>\<open>MAX_PATH\<close> characters; one that fills the array exactly leaves no room for
  the terminator, and the text is read behind the array: no value.
\<close>

definition RegHKLMOpenKey :: "'w win32 \<Rightarrow> wstring \<Rightarrow> DWORD \<Rightarrow> wstring option \<Rightarrow> 'w \<Rightarrow> ((DWORD \<times> HANDLE) \<times> 'w) option" where
  "RegHKLMOpenKey api psSubKey samDesired psMachineName w =
     (case psMachineName of
        None \<Rightarrow> Some (RegOpenKeyEx api w HKEY_LOCAL_MACHINE psSubKey samDesired)
      | Some m \<Rightarrow>
          (case snprintf MAX_PATH (wide [CHR 0x5C, CHR 0x5C] @ m) of
             None \<Rightarrow> Some ((ERROR_INSUFFICIENT_BUFFER, NULL_HANDLE), w)
           | Some sBuffer \<Rightarrow>
               if length sBuffer = MAX_PATH then None
               else
                 (let ((lRC, hKey), w) = RegConnectRegistry api w sBuffer HKEY_LOCAL_MACHINE in
                  if lRC = ERROR_SUCCESS then
                    (let (r, w) = RegOpenKeyEx api w hKey psSubKey samDesired in Some (r, RegCloseKey api w hKey))
                  else Some ((lRC, NULL_HANDLE), w))))"

text \<open>The value a \<^verbatim>\<open>DWORD\<close> variable has after \<^verbatim>\<open>RegQueryValueEx\<close> stored bytes in it.\<close>

definition dword_after :: "DWORD \<Rightarrow> BYTE list \<Rightarrow> DWORD" where
  "dword_after old bs = bytes_dword (stored 4 (dword_bytes old) bs)"

definition RegQueryDWORD :: "'w win32 \<Rightarrow> wstring \<Rightarrow> wstring \<Rightarrow> DWORD \<Rightarrow> wstring option \<Rightarrow> bool \<Rightarrow> DWORD \<Rightarrow> 'w
    \<Rightarrow> ((DWORD \<times> DWORD) \<times> 'w) option" where
  "RegQueryDWORD api lpSubKey lpValueName dwValue psMachineName bDefault dwDefault w = do {
     ((lRC, hKey), w) \<leftarrow> RegHKLMOpenKey api lpSubKey KEY_QUERY_VALUE psMachineName w;
     if lRC = ERROR_SUCCESS then
       (let ((lRC, bs, _), w) = RegQueryValueEx api w hKey lpValueName 4;
            dwValue = dword_after dwValue bs;
            r = (if lRC = ERROR_FILE_NOT_FOUND \<and> bDefault then (ERROR_SUCCESS, dwDefault) else (lRC, dwValue))
        in Some (r, RegCloseKey api w hKey))
     else Some ((lRC, dwValue), w) }"

text \<open>A string value: the bytes stored in the buffer and the size reported.\<close>

definition RegQueryString :: "'w win32 \<Rightarrow> wstring \<Rightarrow> wstring \<Rightarrow> nat \<Rightarrow> wstring option \<Rightarrow> 'w
    \<Rightarrow> ((DWORD \<times> BYTE list \<times> nat) \<times> 'w) option" where
  "RegQueryString api lpSubKey lpValueName dwSize psMachineName w = do {
     ((lRC, hKey), w) \<leftarrow> RegHKLMOpenKey api lpSubKey KEY_QUERY_VALUE psMachineName w;
     if lRC = ERROR_SUCCESS then
       (let (r, w) = RegQueryValueEx api w hKey lpValueName dwSize in Some (r, RegCloseKey api w hKey))
     else Some ((lRC, [], dwSize), w) }"

definition RegSetValue :: "'w win32 \<Rightarrow> DWORD \<Rightarrow> wstring \<Rightarrow> wstring \<Rightarrow> DWORD \<Rightarrow> BYTE list \<Rightarrow> wstring option \<Rightarrow> 'w
    \<Rightarrow> (DWORD \<times> 'w) option" where
  "RegSetValue api samDesired lpSubKey lpValueName dwType bs psMachineName w = do {
     ((lRC, hKey), w) \<leftarrow> RegHKLMOpenKey api lpSubKey samDesired psMachineName w;
     if lRC = ERROR_SUCCESS then
       (let (lRC, w) = RegSetValueEx api w hKey lpValueName dwType bs in Some (lRC, RegCloseKey api w hKey))
     else Some (lRC, w) }"

definition RegSetString :: "'w win32 \<Rightarrow> wstring \<Rightarrow> wstring \<Rightarrow> wstring \<Rightarrow> wstring option \<Rightarrow> 'w \<Rightarrow> (DWORD \<times> 'w) option" where
  "RegSetString api lpSubKey lpValueName psStrBuf =
     RegSetValue api KEY_QUERY_VALUE lpSubKey lpValueName REG_SZ (wcs_bytes psStrBuf)"

definition RegSetDWORD :: "'w win32 \<Rightarrow> wstring \<Rightarrow> wstring \<Rightarrow> DWORD \<Rightarrow> wstring option \<Rightarrow> 'w \<Rightarrow> (DWORD \<times> 'w) option" where
  "RegSetDWORD api lpSubKey lpValueName dwValue =
     RegSetValue api KEY_SET_VALUE lpSubKey lpValueName REG_DWORD (dword_bytes dwValue)"

text \<open>
  The mail root, without a backslash at its end.  The size is in characters; the array is not
  initialised, so a value that was stored without its NUL has no meaning.
\<close>

definition cut_backslash :: "wstring \<Rightarrow> wstring" where
  "cut_backslash s = (if s \<noteq> [] \<and> last s = of_char (CHR 0x5C) then butlast s else s)"

definition RegQueryMailRoot :: "'w win32 \<Rightarrow> nat \<Rightarrow> wstring option \<Rightarrow> 'w \<Rightarrow> ((DWORD \<times> wstring) \<times> 'w) option" where
  "RegQueryMailRoot api dwSize psMachineName w = do {
     ((lRC, bs, _), w) \<leftarrow> RegQueryString api POP3SERVER_SOFTWARE_SUBKEY VALUENAME_MAILROOT (2 * dwSize) psMachineName w;
     if lRC = ERROR_SUCCESS then do {
       psMailRoot \<leftarrow> bytes_wcs bs;
       Some ((lRC, cut_backslash psMailRoot), w) }
     else Some ((lRC, []), w) }"

definition RegQueryGreeting :: "'w win32 \<Rightarrow> nat \<Rightarrow> wstring option \<Rightarrow> 'w \<Rightarrow> ((DWORD \<times> BYTE list \<times> nat) \<times> 'w) option" where
  "RegQueryGreeting api = RegQueryString api POP3SERVER_SOFTWARE_SUBKEY VALUENAME_GREETING"

definition RegQueryAuthGuid :: "'w win32 \<Rightarrow> nat \<Rightarrow> wstring option \<Rightarrow> 'w \<Rightarrow> ((DWORD \<times> BYTE list \<times> nat) \<times> 'w) option" where
  "RegQueryAuthGuid api = RegQueryString api POP3SERVER_AUTH_SUBKEY VALUENAME_AUTHGUID"

definition RegSetAuthGuid :: "'w win32 \<Rightarrow> wstring \<Rightarrow> wstring option \<Rightarrow> 'w \<Rightarrow> (DWORD \<times> 'w) option" where
  "RegSetAuthGuid api psAuthGuid =
     RegSetValue api KEY_SET_VALUE POP3SERVER_AUTH_SUBKEY VALUENAME_AUTHGUID REG_SZ (wcs_bytes psAuthGuid)"

definition RegSetMailRoot :: "'w win32 \<Rightarrow> wstring \<Rightarrow> wstring option \<Rightarrow> 'w \<Rightarrow> (DWORD \<times> 'w) option" where
  "RegSetMailRoot api psMailRoot =
     RegSetValue api KEY_SET_VALUE POP3SERVER_SOFTWARE_SUBKEY VALUENAME_MAILROOT REG_SZ (wcs_bytes psMailRoot)"

definition RegSetGreeting :: "'w win32 \<Rightarrow> wstring \<Rightarrow> wstring option \<Rightarrow> 'w \<Rightarrow> (DWORD \<times> 'w) option" where
  "RegSetGreeting api psGreeting =
     RegSetValue api KEY_SET_VALUE POP3SERVER_SOFTWARE_SUBKEY VALUENAME_GREETING REG_SZ (wcs_bytes psGreeting)"

section \<open>The named settings\<close>

text \<open>The numbers; two of them have a default for a value that is not there.\<close>

type_synonym 'w query_dword = "'w win32 \<Rightarrow> DWORD \<Rightarrow> wstring option \<Rightarrow> 'w \<Rightarrow> ((DWORD \<times> DWORD) \<times> 'w) option"
type_synonym 'w set_dword = "'w win32 \<Rightarrow> DWORD \<Rightarrow> wstring option \<Rightarrow> 'w \<Rightarrow> (DWORD \<times> 'w) option"

definition RegQueryAuthMethod :: "'w query_dword" where
  "RegQueryAuthMethod api dwValue m = RegQueryDWORD api POP3SERVER_AUTH_SUBKEY VALUENAME_DEFAULTAUTH dwValue m False 0"

definition RegQueryConfirmAddUser :: "'w query_dword" where
  "RegQueryConfirmAddUser api dwValue m = RegQueryDWORD api POP3SERVER_SOFTWARE_SUBKEY VALUENAME_CONFIRM_ADDUSER dwValue m True 1"

definition RegQuerySPARequired :: "'w query_dword" where
  "RegQuerySPARequired api dwValue m = RegQueryDWORD api POP3SERVER_SOFTWARE_SUBKEY VALUENAME_SPA_REQUIRED dwValue m True 0"

definition RegQueryLoggingLevel :: "'w query_dword" where
  "RegQueryLoggingLevel api dwValue m = RegQueryDWORD api POP3SERVER_SOFTWARE_SUBKEY VALUENAME_LOGGINGLEVEL dwValue m False 0"

definition RegQueryPort :: "'w query_dword" where
  "RegQueryPort api dwValue m = RegQueryDWORD api POP3SERVICE_SERVICES_SUBKEY VALUENAME_PORT dwValue m False 0"

definition RegQuerySocketBacklog :: "'w query_dword" where
  "RegQuerySocketBacklog api dwValue m = RegQueryDWORD api POP3SERVICE_SERVICES_SUBKEY VALUENAME_BACKLOG dwValue m False 0"

definition RegQuerySocketMax :: "'w query_dword" where
  "RegQuerySocketMax api dwValue m = RegQueryDWORD api POP3SERVICE_SERVICES_SUBKEY VALUENAME_MAX dwValue m False 0"

definition RegQuerySocketMin :: "'w query_dword" where
  "RegQuerySocketMin api dwValue m = RegQueryDWORD api POP3SERVICE_SERVICES_SUBKEY VALUENAME_MIN dwValue m False 0"

definition RegQuerySocketThreshold :: "'w query_dword" where
  "RegQuerySocketThreshold api dwValue m = RegQueryDWORD api POP3SERVICE_SERVICES_SUBKEY VALUENAME_THRESHOLD dwValue m False 0"

definition RegQueryThreadCountPerCPU :: "'w query_dword" where
  "RegQueryThreadCountPerCPU api dwValue m = RegQueryDWORD api POP3SERVICE_SERVICES_SUBKEY VALUENAME_THREADCOUNT dwValue m False 0"

definition RegQueryCreateUser :: "'w query_dword" where
  "RegQueryCreateUser api dwValue m = RegQueryDWORD api POP3SERVER_SOFTWARE_SUBKEY VALUENAME_CREATE_USER dwValue m False 0"

definition RegQueryVersion :: "'w query_dword" where
  "RegQueryVersion api dwValue m = RegQueryDWORD api POP3SERVER_SOFTWARE_SUBKEY VALUENAME_VERSION dwValue m False 0"

definition RegSetAuthMethod :: "'w set_dword" where
  "RegSetAuthMethod api = RegSetDWORD api POP3SERVER_AUTH_SUBKEY VALUENAME_DEFAULTAUTH"

definition RegSetConfirmAddUser :: "'w set_dword" where
  "RegSetConfirmAddUser api = RegSetDWORD api POP3SERVER_SOFTWARE_SUBKEY VALUENAME_CONFIRM_ADDUSER"

definition RegSetSPARequired :: "'w set_dword" where
  "RegSetSPARequired api = RegSetDWORD api POP3SERVER_SOFTWARE_SUBKEY VALUENAME_SPA_REQUIRED"

definition RegSetLoggingLevel :: "'w set_dword" where
  "RegSetLoggingLevel api = RegSetDWORD api POP3SERVER_SOFTWARE_SUBKEY VALUENAME_LOGGINGLEVEL"

definition RegSetPort :: "'w set_dword" where
  "RegSetPort api = RegSetDWORD api POP3SERVICE_SERVICES_SUBKEY VALUENAME_PORT"

definition RegSetSocketBacklog :: "'w set_dword" where
  "RegSetSocketBacklog api = RegSetDWORD api POP3SERVICE_SERVICES_SUBKEY VALUENAME_BACKLOG"

definition RegSetSocketMax :: "'w set_dword" where
  "RegSetSocketMax api = RegSetDWORD api POP3SERVICE_SERVICES_SUBKEY VALUENAME_MAX"

definition RegSetSocketMin :: "'w set_dword" where
  "RegSetSocketMin api = RegSetDWORD api POP3SERVICE_SERVICES_SUBKEY VALUENAME_MIN"

definition RegSetSocketThreshold :: "'w set_dword" where
  "RegSetSocketThreshold api = RegSetDWORD api POP3SERVICE_SERVICES_SUBKEY VALUENAME_THRESHOLD"

definition RegSetThreadCount :: "'w set_dword" where
  "RegSetThreadCount api = RegSetDWORD api POP3SERVICE_SERVICES_SUBKEY VALUENAME_THREADCOUNT"

definition RegSetCreateUser :: "'w set_dword" where
  "RegSetCreateUser api = RegSetDWORD api POP3SERVER_SOFTWARE_SUBKEY VALUENAME_CREATE_USER"

section \<open>Installation\<close>

text \<open>
  A key is opened for writing below \<^verbatim>\<open>HKEY_LOCAL_MACHINE\<close>, a key is created below it, values are written
  there and both are closed: the shape of the three functions that set the registry up.
\<close>

definition in_new_key :: "'w win32 \<Rightarrow> wstring \<Rightarrow> wstring \<Rightarrow> (HANDLE \<Rightarrow> 'w \<Rightarrow> DWORD \<times> 'w) \<Rightarrow> 'w \<Rightarrow> DWORD \<times> 'w" where
  "in_new_key api parent sub body w =
     (let ((lRC, hKey), w) = RegOpenKeyEx api w HKEY_LOCAL_MACHINE parent KEY_WRITE in
      if lRC = ERROR_SUCCESS then
        (let ((lRC, hKey2), w) = RegCreateKeyEx api w hKey sub KEY_ALL_ACCESS;
             (lRC, w) = (if lRC = ERROR_SUCCESS
                         then (let (lRC, w) = body hKey2 w in (lRC, RegCloseKey api w hKey2))
                         else (lRC, w))
         in (lRC, RegCloseKey api w hKey))
      else (lRC, w))"

text \<open>The four authentication methods, each with its NUL, and the NUL that ends the list.\<close>

definition auth_methods :: "wstring list" where
  "auth_methods = [wide ''14f1665c-e3d3-46aa-884f-ed4cf19d7ad5'', wide ''ef9d811e-36c5-497f-ade7-2b36df172824'',
     wide ''c395e20c-2236-4af7-b736-54fad07dc526'', wide ''7c295e55-aab1-466d-b589-526fa0ebc397'']"

definition multi_sz_bytes :: "wstring list \<Rightarrow> BYTE list" where
  "multi_sz_bytes ss = concat (map wcs_bytes ss) @ [0, 0]"

definition RegSetAuthValues :: "'w win32 \<Rightarrow> 'w \<Rightarrow> DWORD \<times> 'w" where
  "RegSetAuthValues api = in_new_key api POP3SERVER_SOFTWARE_SUBKEY POP3AUTH_SUBKEY (\<lambda>hKeyAuth w.
     let (lRC, w) = RegSetValueEx api w hKeyAuth VALUENAME_AUTHMETHODS REG_MULTI_SZ (multi_sz_bytes auth_methods);
         (lRC, w) = (if lRC = ERROR_SUCCESS
                     then RegSetValueEx api w hKeyAuth VALUENAME_DEFAULTAUTH REG_DWORD (dword_bytes 0)
                     else (lRC, w))
     in if lRC = ERROR_SUCCESS then
          (let ((lRC, wszUuid), w) = UuidCreateString api w in
           if lRC = ERROR_SUCCESS then RegSetValueEx api w hKeyAuth VALUENAME_AUTHGUID REG_SZ (wcs_bytes wszUuid)
           else (lRC, w))
        else (lRC, w))"

text \<open>\<^verbatim>\<open>wcscat\<close> into an array of \<^verbatim>\<open>MAX_PATH\<close> characters, without a test of the length.\<close>

definition RegSetEventLogKeys :: "'w win32 \<Rightarrow> 'w \<Rightarrow> (DWORD \<times> 'w) option" where
  "RegSetEventLogKeys api w = do {
     (lRC, path, w) \<leftarrow>
       (case GetCurrentDirectory api w of
          (None, w) \<Rightarrow> Some (GetLastError api w, [], w)
        | (Some dir, w) \<Rightarrow>
            if length dir + length WSZ_EVENTLOG_FILE_NAME < MAX_PATH
            then Some (ERROR_SUCCESS, wcs_bytes (dir @ WSZ_EVENTLOG_FILE_NAME), w) else None);
     if lRC = ERROR_SUCCESS then
       Some (in_new_key api EVENTLOG_KEY POP3SERVICE_SUBKEY (\<lambda>hKey2 w.
         let (lRC, w) = RegSetValueEx api w hKey2 VALUENAME_EVENTMSGFILE REG_SZ path
         in if lRC = ERROR_SUCCESS
            then RegSetValueEx api w hKey2 VALUENAME_TYPESSUPPORTED REG_DWORD (dword_bytes 7)
            else (lRC, w)) w)
     else Some (lRC, w) }"

definition RegSetup :: "'w win32 \<Rightarrow> 'w \<Rightarrow> (DWORD \<times> 'w) option" where
  "RegSetup api w =
     (let (lRC, w) = in_new_key api SOFTWARE_KEY POP3SERVER_SUBKEY (\<lambda>_ w. (ERROR_SUCCESS, w)) w;
          (lRC, w) = (if lRC = ERROR_SUCCESS
                      then in_new_key api SERVICES_KEY POP3SERVICE_SUBKEY (\<lambda>_ w. (ERROR_SUCCESS, w)) w
                      else (lRC, w));
          (lRC, w) = (if lRC = ERROR_SUCCESS then RegSetAuthValues api w else (lRC, w))
      in if lRC = ERROR_SUCCESS then RegSetEventLogKeys api w else Some (lRC, w))"

section \<open>Bytes and values\<close>

lemma bytes_dword_bytes [simp]: "bytes_dword (dword_bytes x) = x"
proof (rule bit_word_eqI)
  fix n assume n: "n < LENGTH(32)"
  consider "n < 8" | "8 \<le> n" "n < 16" | "16 \<le> n" "n < 24" | "24 \<le> n" by linarith
  then show "bit (bytes_dword (dword_bytes x)) n = bit x n"
    by cases (use n in \<open>auto simp: dword_bytes_def bit_simps\<close>)
qed

lemma dword_after_all [simp]: "length bs = 4 \<Longrightarrow> dword_after old bs = bytes_dword bs"
  by (simp add: dword_after_def stored_def dword_bytes_def)

lemma length_dword_bytes [simp]: "length (dword_bytes x) = 4"
  by (simp add: dword_bytes_def)

lemma length_wcs_bytes [simp]: "length (wcs_bytes s) = 2 * length s + 2"
  by (induction s) (simp_all add: wcs_bytes_def)

lemma wchar_halves: "(ucast (ucast c :: BYTE) OR push_bit 8 (ucast (ucast (drop_bit 8 c) :: BYTE)) :: WCHAR) = c"
  by (rule bit_word_eqI) (auto simp: bit_simps)

lemma bytes_wcs_bytes [simp]: "0 \<notin> set s \<Longrightarrow> bytes_wcs (wcs_bytes s) = Some s"
proof (induction s)
  case Nil
  then show ?case by (simp add: wcs_bytes_def)
next
  case (Cons c s)
  have "wcs_bytes (c # s) = ucast c # ucast (drop_bit 8 c) # wcs_bytes s" by (simp add: wcs_bytes_def)
  then show ?case using Cons by (simp add: wchar_halves Let_def)
qed

section \<open>What is set is read back\<close>

text \<open>
  The documented behaviour of the registry that the settings rely on.  \<^verbatim>\<open>key_of\<close> is the key an open handle
  refers to (the machine and the path) with the rights it was opened with, \<^verbatim>\<open>val\<close> the value stored under a
  name of a key.  Opening gives a new handle, closing ends only the handle closed, and neither
  changes a value.  A value that fits the buffer is read
  as it was stored; a handle without the right to set values stores nothing.
\<close>

type_synonym regkey = "wstring \<times> wstring"

definition below :: "regkey \<Rightarrow> wstring \<Rightarrow> regkey" where
  "below k sub = (fst k, if snd k = [] then sub else subkey (snd k) sub)"

definition registry_laws :: "'w win32 \<Rightarrow> ('w \<Rightarrow> HANDLE \<Rightarrow> (regkey \<times> DWORD) option)
    \<Rightarrow> ('w \<Rightarrow> regkey \<times> wstring \<Rightarrow> BYTE list option) \<Rightarrow> bool" where
  "registry_laws api key_of val \<longleftrightarrow>
     (\<forall>w. \<exists>sam. key_of w HKEY_LOCAL_MACHINE = Some (([], []), sam)) \<and>
     (\<forall>w h sub sam e k w'. RegOpenKeyEx api w h sub sam = ((e, k), w') \<longrightarrow> val w' = val w \<and>
        (e = ERROR_SUCCESS \<longrightarrow> key_of w k = None \<and>
           (\<forall>p s. key_of w h = Some (p, s) \<longrightarrow> key_of w' k = Some (below p sub, sam)))) \<and>
     (\<forall>w m e k w'. RegConnectRegistry api w m HKEY_LOCAL_MACHINE = ((e, k), w') \<longrightarrow> val w' = val w \<and>
        (e = ERROR_SUCCESS \<longrightarrow> (\<exists>s. key_of w' k = Some ((drop 2 m, []), s)))) \<and>
     (\<forall>w h. val (RegCloseKey api w h) = val w \<and> (\<forall>h'. h' \<noteq> h \<longrightarrow> key_of (RegCloseKey api w h) h' = key_of w h')) \<and>
     (\<forall>w h name n r w'. RegQueryValueEx api w h name n = (r, w') \<longrightarrow> val w' = val w \<and>
        (\<forall>p s bs. key_of w h = Some (p, s) \<longrightarrow> s AND KEY_QUERY_VALUE \<noteq> 0 \<longrightarrow> val w (p, name) = Some bs \<longrightarrow>
           length bs \<le> n \<longrightarrow> r = (ERROR_SUCCESS, bs, length bs))) \<and>
     (\<forall>w h name t bs e w'. RegSetValueEx api w h name t bs = (e, w') \<longrightarrow>
        (\<forall>p s. key_of w h = Some (p, s) \<longrightarrow>
           (e = ERROR_SUCCESS \<longrightarrow> val w' = (val w)((p, name) \<mapsto> bs)) \<and>
           (s AND KEY_SET_VALUE = 0 \<longrightarrow> e = ERROR_ACCESS_DENIED \<and> val w' = val w)))"

lemma registry_lawsD:
  assumes "registry_laws api key_of val"
  shows "\<exists>sam. key_of w HKEY_LOCAL_MACHINE = Some (([], []), sam)"
    "RegOpenKeyEx api w h sub sam = ((e, k), w') \<Longrightarrow> val w' = val w"
    "RegOpenKeyEx api w h sub sam = ((ERROR_SUCCESS, k), w') \<Longrightarrow> key_of w h = Some (p, s) \<Longrightarrow>
       key_of w k = None \<and> key_of w' k = Some (below p sub, sam)"
    "RegConnectRegistry api w m HKEY_LOCAL_MACHINE = ((e, k), w') \<Longrightarrow> val w' = val w"
    "RegConnectRegistry api w m HKEY_LOCAL_MACHINE = ((ERROR_SUCCESS, k), w') \<Longrightarrow>
       \<exists>s. key_of w' k = Some ((drop 2 m, []), s)"
    "val (RegCloseKey api w h) = val w" "h' \<noteq> h \<Longrightarrow> key_of (RegCloseKey api w h) h' = key_of w h'"
    "RegQueryValueEx api w h name n = (r, w') \<Longrightarrow> val w' = val w"
    "RegQueryValueEx api w h name n = (r, w') \<Longrightarrow> key_of w h = Some (p, s) \<Longrightarrow> s AND KEY_QUERY_VALUE \<noteq> 0 \<Longrightarrow>
       val w (p, name) = Some bs \<Longrightarrow> length bs \<le> n \<Longrightarrow> r = (ERROR_SUCCESS, bs, length bs)"
    "RegSetValueEx api w h name t bs = (ERROR_SUCCESS, w') \<Longrightarrow> key_of w h = Some (p, s) \<Longrightarrow>
       val w' = (val w)((p, name) \<mapsto> bs)"
    "RegSetValueEx api w h name t bs = (e, w') \<Longrightarrow> key_of w h = Some (p, s) \<Longrightarrow> s AND KEY_SET_VALUE = 0 \<Longrightarrow>
       e = ERROR_ACCESS_DENIED \<and> val w' = val w"
  subgoal using assms [unfolded registry_laws_def, THEN conjunct1] by blast
  subgoal using assms [unfolded registry_laws_def, THEN conjunct2, THEN conjunct1] by blast
  subgoal using assms [unfolded registry_laws_def, THEN conjunct2, THEN conjunct1] by blast
  subgoal using assms [unfolded registry_laws_def, THEN conjunct2, THEN conjunct2, THEN conjunct1] by blast
  subgoal using assms [unfolded registry_laws_def, THEN conjunct2, THEN conjunct2, THEN conjunct1] by blast
  subgoal using assms [unfolded registry_laws_def] by simp
  subgoal using assms [unfolded registry_laws_def] by simp
  using assms [unfolded registry_laws_def, THEN conjunct2, THEN conjunct2, THEN conjunct2, THEN conjunct2] by blast+

definition hklm :: "wstring option \<Rightarrow> wstring \<Rightarrow> regkey" where
  "hklm m sub = (case m of None \<Rightarrow> [] | Some n \<Rightarrow> n, sub)"

lemma error_codes_differ [simp]:
  "ERROR_INSUFFICIENT_BUFFER \<noteq> ERROR_SUCCESS" "ERROR_ACCESS_DENIED \<noteq> ERROR_SUCCESS"
  by (simp_all add: ERROR_INSUFFICIENT_BUFFER_def ERROR_ACCESS_DENIED_def ERROR_SUCCESS_def)

lemma RegHKLMOpenKey_laws:
  assumes r: "registry_laws api key_of val" and o: "RegHKLMOpenKey api sub sam m w = Some ((e, k), w')"
  shows "val w' = val w" "e = ERROR_SUCCESS \<Longrightarrow> key_of w' k = Some (hklm m sub, sam)"
proof -
  note law = registry_lawsD [OF r]
  have "val w' = val w \<and> (e = ERROR_SUCCESS \<longrightarrow> key_of w' k = Some (hklm m sub, sam))"
  proof (cases m)
    case None
    then have "RegOpenKeyEx api w HKEY_LOCAL_MACHINE sub sam = ((e, k), w')" using o by (simp add: RegHKLMOpenKey_def)
    then show ?thesis using law(1) [of w] law(2,3) None by (fastforce simp: below_def hklm_def)
  next
    case (Some n)
    let ?buf = "wide [CHR 0x5C, CHR 0x5C] @ n"
    obtain e1 k1 w1 where c: "RegConnectRegistry api w ?buf HKEY_LOCAL_MACHINE = ((e1, k1), w1)" by (metis surj_pair)
    obtain e2 k2 w2 where p: "RegOpenKeyEx api w1 k1 sub sam = ((e2, k2), w2)" by (metis surj_pair)
    have v: "val w1 = val w" "val (RegCloseKey api w2 k1) = val w" using law(4) [OF c] law(2) [OF p] law(6) by auto
    show ?thesis
    proof (cases "e1 = ERROR_SUCCESS")
      case True
      then obtain s where s: "key_of w1 k1 = Some ((n, []), s)" using law(5) [of w ?buf k1 w1] c by (auto simp: wide_def)
      have k2: "e2 = ERROR_SUCCESS \<Longrightarrow> key_of w1 k2 = None \<and> key_of w2 k2 = Some ((n, sub), sam)"
        using law(3) [of w1 k1 sub sam k2 w2] p s by (simp add: below_def)
      then have "e2 = ERROR_SUCCESS \<Longrightarrow> key_of (RegCloseKey api w2 k1) k2 = Some ((n, sub), sam)"
        using law(7) [of k2 k1 w2] s by (cases "k2 = k1") auto
      then show ?thesis
        using o c p Some True v by (auto simp: RegHKLMOpenKey_def snprintf_def hklm_def wide_def split: if_splits)
    next
      case False
      then show ?thesis
        using o c Some v by (auto simp: RegHKLMOpenKey_def snprintf_def wide_def split: if_splits)
    qed
  qed
  then show "val w' = val w" "e = ERROR_SUCCESS \<Longrightarrow> key_of w' k = Some (hklm m sub, sam)" by auto
qed

lemma RegSetValue_laws:
  assumes r: "registry_laws api key_of val" and o: "RegSetValue api sam sub name t bs m w = Some (e, w')"
  shows "e = ERROR_SUCCESS \<Longrightarrow> val w' = (val w)((hklm m sub, name) \<mapsto> bs)"
    "sam AND KEY_SET_VALUE = 0 \<Longrightarrow> e \<noteq> ERROR_SUCCESS \<and> val w' = val w"
proof -
  note law = registry_lawsD [OF r]
  obtain e1 k1 w1 where h: "RegHKLMOpenKey api sub sam m w = Some ((e1, k1), w1)"
    using o by (auto simp: RegSetValue_def split: bind_splits)
  obtain e2 w2 where s: "RegSetValueEx api w1 k1 name t bs = (e2, w2)" by (metis surj_pair)
  note k = RegHKLMOpenKey_laws [OF r h]
  have "e1 = ERROR_SUCCESS \<Longrightarrow> e2 = ERROR_SUCCESS \<Longrightarrow> val w2 = (val w)((hklm m sub, name) \<mapsto> bs)"
    using law(10) s k by metis
  moreover have "e1 = ERROR_SUCCESS \<Longrightarrow> sam AND KEY_SET_VALUE = 0 \<Longrightarrow> e2 = ERROR_ACCESS_DENIED \<and> val w2 = val w"
    using law(11) [OF s] k by auto
  ultimately show "e = ERROR_SUCCESS \<Longrightarrow> val w' = (val w)((hklm m sub, name) \<mapsto> bs)"
    "sam AND KEY_SET_VALUE = 0 \<Longrightarrow> e \<noteq> ERROR_SUCCESS \<and> val w' = val w"
    using o h s law(6) k
    by (auto simp: RegSetValue_def split: if_splits)
qed

lemma RegQueryString_laws:
  assumes r: "registry_laws api key_of val" and v: "val w (hklm m sub, name) = Some bs" "length bs \<le> n"
    and h: "RegHKLMOpenKey api sub KEY_QUERY_VALUE m w = Some ((ERROR_SUCCESS, k), w1)"
  shows "\<exists>w'. RegQueryString api sub name n m w = Some ((ERROR_SUCCESS, bs, length bs), w') \<and> val w' = val w"
proof -
  note law = registry_lawsD [OF r]
  note k = RegHKLMOpenKey_laws [OF r h]
  obtain x w2 where q: "RegQueryValueEx api w1 k name n = (x, w2)" by (metis surj_pair)
  have "KEY_QUERY_VALUE AND KEY_QUERY_VALUE \<noteq> 0" by (simp add: KEY_QUERY_VALUE_def)
  then have "x = (ERROR_SUCCESS, bs, length bs)" using law(9) [OF q] k v by auto
  then show ?thesis using h q law(6) law(8) [OF q] k by (simp add: RegQueryString_def)
qed

lemma RegQueryDWORD_String:
  assumes "RegQueryString api sub name 4 m w = Some ((ERROR_SUCCESS, bs, n), w')" "length bs = 4"
  shows "RegQueryDWORD api sub name old m b d w = Some ((ERROR_SUCCESS, bytes_dword bs), w')"
  using assms by (auto simp: RegQueryString_def RegQueryDWORD_def ERROR_SUCCESS_def ERROR_FILE_NOT_FOUND_def
      split: bind_splits if_splits prod.splits)

text \<open>
  A number that was written to the registry with success is read back: whenever the key may still be
  opened for reading, \<^verbatim>\<open>RegQueryDWORD\<close> succeeds with the value that \<^verbatim>\<open>RegSetDWORD\<close> wrote, on this machine
  or on another, whatever the variable held before and whatever the default is.
\<close>

theorem RegSetDWORD_RegQueryDWORD:
  assumes r: "registry_laws api key_of val" and s: "RegSetDWORD api sub name v m w = Some (ERROR_SUCCESS, w')"
    and h: "RegHKLMOpenKey api sub KEY_QUERY_VALUE m w' = Some ((ERROR_SUCCESS, k), w1)"
  shows "\<exists>w2. RegQueryDWORD api sub name old m bDefault dwDefault w' = Some ((ERROR_SUCCESS, v), w2)"
proof -
  have "val w' (hklm m sub, name) = Some (dword_bytes v)"
    using RegSetValue_laws(1) [OF r s [unfolded RegSetDWORD_def]] by simp
  from RegQueryString_laws [OF r this _ h, of 4] show ?thesis
    using RegQueryDWORD_String [of api sub name m w' "dword_bytes v"] by fastforce
qed

text \<open>
  The mail root that was written to the registry with success is read back without a backslash at its
  end, when the buffer has room for it and its NUL and the key may be opened for reading.
\<close>

theorem RegSetMailRoot_RegQueryMailRoot:
  assumes r: "registry_laws api key_of val" and s: "RegSetMailRoot api root m w = Some (ERROR_SUCCESS, w')"
    and h: "RegHKLMOpenKey api POP3SERVER_SOFTWARE_SUBKEY KEY_QUERY_VALUE m w' = Some ((ERROR_SUCCESS, k), w1)"
    and z: "0 \<notin> set root" "length root < dwSize"
  shows "\<exists>w2. RegQueryMailRoot api dwSize m w' = Some ((ERROR_SUCCESS, cut_backslash root), w2)"
proof -
  have v: "val w' (hklm m POP3SERVER_SOFTWARE_SUBKEY, VALUENAME_MAILROOT) = Some (wcs_bytes root)"
    using RegSetValue_laws(1) [OF r s [unfolded RegSetMailRoot_def]] by simp
  have "length (wcs_bytes root) \<le> 2 * dwSize" using z(2) by simp
  from RegQueryString_laws [OF r v this h] show ?thesis using z(1) by (auto simp: RegQueryMailRoot_def)
qed

text \<open>
  \<^verbatim>\<open>RegSetString\<close> opens the key with the right to query values only, so it never succeeds and never
  changes a value.
\<close>

theorem RegSetString_stores_nothing:
  assumes "registry_laws api key_of val" "RegSetString api sub name s m w = Some (e, w')"
  shows "e \<noteq> ERROR_SUCCESS \<and> val w' = val w"
  using RegSetValue_laws(2) [OF assms(1) assms(2) [unfolded RegSetString_def]]
  by (simp add: KEY_QUERY_VALUE_def KEY_SET_VALUE_def)

section \<open>The laws hold\<close>

lemma foldr_min_le: "(h :: int) \<in> set hs \<Longrightarrow> foldr min hs 0 \<le> h"
  by (induction hs) (auto simp: min_le_iff_disj)

lemma foldr_min_neg: "foldr min hs 0 \<le> (0 :: int)"
  by (induction hs) (auto simp: min_le_iff_disj)

lemma sim_new_key_fresh:
  assumes "sim_new_key p sam w = ((e, k), w')"
  shows "sim_key_of w k = None" "sim_key_of w' k = Some (p, sam)" "sim_reg w' = sim_reg w"
proof -
  have k: "k = foldr min (map fst (sim_keys w)) 0 - 1" using assms by (auto simp: sim_new_key_def Let_def)
  have "k \<notin> set (map fst (sim_keys w))" using foldr_min_le k by fastforce
  moreover have "k < 0" using foldr_min_neg [of "map fst (sim_keys w)"] k by linarith
  ultimately show "sim_key_of w k = None" "sim_key_of w' k = Some (p, sam)" "sim_reg w' = sim_reg w"
    using assms by (auto simp: sim_key_of_def HKEY_LOCAL_MACHINE_def map_of_eq_None_iff sim_new_key_def Let_def)
qed

lemma map_of_filter_key: "k' \<noteq> k \<Longrightarrow> map_of (filter (\<lambda>e. fst e \<noteq> k) xs) k' = map_of xs k'"
  by (induction xs) auto

lemma sim_registry_laws: "registry_laws sim_api sim_key_of (\<lambda>w. map_of (sim_reg w))"
  unfolding registry_laws_def
proof (intro conjI allI impI)
  show "\<exists>sam. sim_key_of w HKEY_LOCAL_MACHINE = Some (([], []), sam)" for w by (simp add: sim_key_of_def)
  show "sim_key_of (RegCloseKey sim_api w h) h' = sim_key_of w h'" if "h' \<noteq> h" for w h h'
    using map_of_filter_key [OF that, of "sim_keys w"] by (simp add: sim_key_of_def sim_api_def)
qed (auto simp: sim_api_def sim_open_key_def sim_new_key_fresh below_def subkey_def sim_query_value_def
  sim_set_value_def ERROR_INVALID_HANDLE_def ERROR_SUCCESS_def ERROR_ACCESS_DENIED_def
  split: option.splits prod.splits if_splits)

theorem RegSetDWORD_RegQueryDWORD_witness:
  "\<exists>w' w2. RegSetPort sim_api 110 None sim_start = Some (ERROR_SUCCESS, w') \<and>
     RegQueryDWORD sim_api POP3SERVICE_SERVICES_SUBKEY VALUENAME_PORT 7 None False 0 w' = Some ((ERROR_SUCCESS, 110), w2)"
proof -
  obtain w' where s: "RegSetDWORD sim_api POP3SERVICE_SERVICES_SUBKEY VALUENAME_PORT 110 None sim_start = Some (ERROR_SUCCESS, w')"
    by (auto simp: RegSetDWORD_def RegSetValue_def RegHKLMOpenKey_def sim_api_def sim_open_key_def sim_key_of_def
        sim_new_key_def Let_def sim_start_def sim_set_value_def KEY_SET_VALUE_def HKEY_LOCAL_MACHINE_def ERROR_SUCCESS_def)
  obtain k w1 where "RegHKLMOpenKey sim_api POP3SERVICE_SERVICES_SUBKEY KEY_QUERY_VALUE None w' = Some ((ERROR_SUCCESS, k), w1)"
    by (simp add: RegHKLMOpenKey_def sim_api_def sim_open_key_def sim_key_of_def sim_new_key_def Let_def ERROR_SUCCESS_def)
  from RegSetDWORD_RegQueryDWORD [OF sim_registry_laws s this] s show ?thesis by (simp add: RegSetPort_def)
qed

theorem RegSetMailRoot_RegQueryMailRoot_witness:
  "\<exists>w' w2. RegSetMailRoot sim_api (wide (''C:'' @ [CHR 0x5C])) None sim_start = Some (ERROR_SUCCESS, w') \<and>
     RegQueryMailRoot sim_api 255 None w' = Some ((ERROR_SUCCESS, wide ''C:''), w2)"
proof -
  obtain w' where s: "RegSetMailRoot sim_api (wide (''C:'' @ [CHR 0x5C])) None sim_start = Some (ERROR_SUCCESS, w')"
    by (auto simp: RegSetMailRoot_def RegSetValue_def RegHKLMOpenKey_def sim_api_def sim_open_key_def sim_key_of_def
        sim_new_key_def Let_def sim_start_def sim_set_value_def KEY_SET_VALUE_def HKEY_LOCAL_MACHINE_def ERROR_SUCCESS_def)
  obtain k w1 where h: "RegHKLMOpenKey sim_api POP3SERVER_SOFTWARE_SUBKEY KEY_QUERY_VALUE None w' = Some ((ERROR_SUCCESS, k), w1)"
    by (simp add: RegHKLMOpenKey_def sim_api_def sim_open_key_def sim_key_of_def sim_new_key_def Let_def ERROR_SUCCESS_def)
  have "0 \<notin> set (wide (''C:'' @ [CHR 0x5C]))" "length (wide (''C:'' @ [CHR 0x5C])) < 255" by (simp_all add: wide_def)
  from RegSetMailRoot_RegQueryMailRoot [OF sim_registry_laws s h this] s show ?thesis
    by (simp add: cut_backslash_def wide_def)
qed

theorem RegSetString_stores_nothing_witness:
  "\<exists>e w'. RegSetString sim_api POP3SERVER_SOFTWARE_SUBKEY VALUENAME_GREETING (wide ''hi'') None sim_start = Some (e, w') \<and>
     e \<noteq> ERROR_SUCCESS \<and> map_of (sim_reg w') = map_of (sim_reg sim_start)"
proof -
  obtain e w' where "RegSetString sim_api POP3SERVER_SOFTWARE_SUBKEY VALUENAME_GREETING (wide ''hi'') None sim_start = Some (e, w')"
    by (cases "RegSetString sim_api POP3SERVER_SOFTWARE_SUBKEY VALUENAME_GREETING (wide ''hi'') None sim_start")
      (auto simp: RegSetString_def RegSetValue_def RegHKLMOpenKey_def split: prod.splits if_splits)
  from this RegSetString_stores_nothing [OF sim_registry_laws this] show ?thesis by blast
qed

end
