(* ===== verification/Mail_Path.thy ===== *)
theory Mail_Path
  imports Pop3_Reg
begin

text \<open>
  The state of a mailbox object and the paths it computes
  (\<^verbatim>\<open>pop3/shared/mailbox/mailbox.h\<close>, \<^verbatim>\<open>mailbox.cpp\<close>): the class \<^verbatim>\<open>CMailBox\<close> and its static mail
  root, \<^verbatim>\<open>SetMailRoot\<close>, \<^verbatim>\<open>GetMailRoot\<close>, \<^verbatim>\<open>SetMailBoxPath\<close>, \<^verbatim>\<open>BuildFilePath\<close> and
  \<^verbatim>\<open>GetMailboxFromStoreNameW\<close>.  Wide strings are lists of their characters without the
  terminating NUL; a copy into a fixed array that is too short has no value.
\<close>

section \<open>The code\<close>

abbreviation (input) "POP3_MAX_PATH \<equiv> (520 :: nat)"
abbreviation (input) "POP3_MAX_MAILROOT_LENGTH \<equiv> (260 :: nat)"
abbreviation (input) "POP3_MAX_MAILBOX_LENGTH \<equiv> (65 :: nat)"
abbreviation (input) "POP3_MAX_DOMAIN_LENGTH \<equiv> (256 :: nat)"
abbreviation (input) "POP3_MAX_ADDRESS_LENGTH \<equiv> (321 :: nat)"

text \<open>
  A \<^verbatim>\<open>MAIL_ITEM\<close> exists in a mailbox only with an allocated name (\<^verbatim>\<open>EnumerateMailBox\<close> deletes it
  otherwise), so \<^verbatim>\<open>bstrFileName\<close> is a string and never \<^verbatim>\<open>NULL\<close>.
\<close>

record MAIL_ITEM =
  dwStatus :: DWORD
  hFile :: HANDLE
  dwFileSize :: DWORD
  bstrFileName :: wstring

text \<open>The mail vector is \<^verbatim>\<open>NULL\<close> or an array of pointers, each \<^verbatim>\<open>NULL\<close> or to an item of its own.\<close>

record CMailBox =
  m_dwSizeOfMailVector :: DWORD
  m_MailVector :: "MAIL_ITEM option list option"
  m_cMailCount :: DWORD
  m_dwShowMailCount :: DWORD
  m_dwTotalSize :: DWORD
  m_hMailBoxLock :: HANDLE
  m_wszMailBoxPath :: wstring
  m_bMailBoxOpened :: bool

record MailRoot =
  m_lMailRootGuard :: int
  m_wszMailRoot :: wstring

definition MailRoot_init :: MailRoot where
  "MailRoot_init = \<lparr>m_lMailRootGuard = 1, m_wszMailRoot = []\<rparr>"

definition new_CMailBox :: CMailBox where
  "new_CMailBox = \<lparr>m_dwSizeOfMailVector = 0, m_MailVector = None, m_cMailCount = 0,
     m_dwShowMailCount = 0, m_dwTotalSize = 0, m_hMailBoxLock = NULL_HANDLE,
     m_wszMailBoxPath = [], m_bMailBoxOpened = False\<rparr>"

abbreviation BACKSLASH :: char where "BACKSLASH \<equiv> CHR 0x5C"

definition LOCK_FILENAME_W :: wstring where "LOCK_FILENAME_W = wide ''Lock''"
definition MAILBOX_PREFIX_W :: wstring where "MAILBOX_PREFIX_W = wide ''P3_''"
definition MAILBOX_EXTENSION_W :: wstring where "MAILBOX_EXTENSION_W = wide ''.mbx''"

text \<open>\<^verbatim>\<open>L"%s\\%s"\<close>.\<close>

definition path_join :: "wstring \<Rightarrow> wstring \<Rightarrow> wstring" where
  "path_join a b = a @ wide [BACKSLASH] @ b"

definition BuildFilePath :: "CMailBox \<Rightarrow> wstring option \<Rightarrow> nat \<Rightarrow> wstring option" where
  "BuildFilePath box psFileName dwSizeOfFilePathBuffer =
     (case psFileName of
        None \<Rightarrow> None
      | Some name \<Rightarrow>
          if dwSizeOfFilePathBuffer > 1 + length (m_wszMailBoxPath box) + length name
          then Some (path_join (m_wszMailBoxPath box) name)
          else None)"

text \<open>
  \<^verbatim>\<open>SetMailRoot\<close>.  The value copied to \<^verbatim>\<open>sMailRoot\<close> (an array of \<^term>\<open>POP3_MAX_PATH\<close>) is that of
  the argument or of the registry.
\<close>

definition long_path_root :: "wstring \<Rightarrow> wstring option" where
  "long_path_root sMailRoot =
     (if take 2 sMailRoot = wide [BACKSLASH, BACKSLASH]
      then (if POP3_MAX_MAILROOT_LENGTH > length sMailRoot + 7
            then Some (wide (BACKSLASH # BACKSLASH # CHR 0x3F # BACKSLASH # ''UNC'') @ drop 1 sMailRoot)
            else None)
      else (if POP3_MAX_MAILROOT_LENGTH > length sMailRoot + 5
            then Some (wide [BACKSLASH, BACKSLASH, CHR 0x3F, BACKSLASH] @ sMailRoot)
            else None))"

text \<open>
  The branch that waits for another thread returns only after that thread has set the guard; alone,
  the call does not return.  \<^verbatim>\<open>SetMailRoot_resume\<close> is the rest of that branch, on the statics the
  other thread left.
\<close>

definition SetMailRoot :: "'w win32 \<Rightarrow> wstring option \<Rightarrow> MailRoot \<Rightarrow> 'w
    \<Rightarrow> (bool \<times> MailRoot \<times> 'w) option" where
  "SetMailRoot api wszMailRoot st w =
     (let old = m_lMailRootGuard st;
          st = st\<lparr>m_lMailRootGuard := 0\<rparr>
      in if old = 1 then
        do {
          (sMailRoot, w) \<leftarrow>
            (case wszMailRoot of
               Some r \<Rightarrow> Some (if POP3_MAX_PATH > length r then Some r else None, w)
             | None \<Rightarrow> do {
                 ((lRC, r), w) \<leftarrow> RegQueryMailRoot api POP3_MAX_PATH None w;
                 Some (if lRC = ERROR_SUCCESS then Some r else None, w) });
          case sMailRoot of
              None \<Rightarrow> Some (False, st\<lparr>m_lMailRootGuard := 1\<rparr>, w)
            | Some r \<Rightarrow>
                (case long_path_root r of
                   Some p \<Rightarrow> Some (True, st\<lparr>m_wszMailRoot := p, m_lMailRootGuard := 1\<rparr>, w)
                 | None \<Rightarrow> Some (False, st\<lparr>m_lMailRootGuard := 1\<rparr>, w)) }
      else None)"

definition SetMailRoot_resume :: "MailRoot \<Rightarrow> bool option" where
  "SetMailRoot_resume st =
     (if m_lMailRootGuard st = 0 then None else Some (m_wszMailRoot st \<noteq> []))"

definition GetMailRoot :: "'w win32 \<Rightarrow> MailRoot \<Rightarrow> 'w \<Rightarrow> (wstring \<times> MailRoot \<times> 'w) option" where
  "GetMailRoot api st w =
     (if m_wszMailRoot st = []
      then do { (_, st, w) \<leftarrow> SetMailRoot api None st w; Some (m_wszMailRoot st, st, w) }
      else Some (m_wszMailRoot st, st, w))"

text \<open>The characters of \<^verbatim>\<open>wszNotAllowedSet\<close>.\<close>

definition NotAllowedSet :: wstring where
  "NotAllowedSet = wide [BACKSLASH, CHR ''/'', CHR '':'', CHR 0x2A, CHR ''?'', CHR 0x22,
     CHR '','', CHR ''>'', CHR 0x7C]"

definition wcspbrk_null :: "wstring \<Rightarrow> wstring \<Rightarrow> bool" where
  "wcspbrk_null s cs \<longleftrightarrow> set s \<inter> set cs = {}"

definition mailbox_path :: "wstring \<Rightarrow> wstring \<Rightarrow> wstring \<Rightarrow> wstring" where
  "mailbox_path root domain account =
     path_join (path_join root domain) (MAILBOX_PREFIX_W @ account @ MAILBOX_EXTENSION_W)"

definition SetMailBoxPath :: "'w win32 \<Rightarrow> wstring \<Rightarrow> CMailBox \<times> MailRoot \<times> 'w
    \<Rightarrow> (bool \<times> CMailBox \<times> MailRoot \<times> 'w) option" where
  "SetMailBoxPath api wszEmailAddr s = (case s of (box, st, w) \<Rightarrow>
     let addr = dropWhile (iswspace api) wszEmailAddr;
         account = takeWhile (\<lambda>c. c \<noteq> of_char (CHR 0x40)) addr;
         atDomain = drop (length account) addr
     in if atDomain = [] then Some (False, box, st, w)
     else if length atDomain = 1 \<or> length atDomain \<ge> POP3_MAX_DOMAIN_LENGTH
     then Some (False, box, st, w)
     else if length account \<ge> POP3_MAX_ADDRESS_LENGTH then None
     else do {
       let domain = drop 1 atDomain;
       (ok, st, w) \<leftarrow> (if m_wszMailRoot st = [] then SetMailRoot api None st w
                         else Some (True, st, w));
       if \<not> ok then Some (False, box, st, w)
       else if \<not> wcspbrk_null domain NotAllowedSet \<or> \<not> wcspbrk_null account NotAllowedSet
          \<or> POP3_MAX_PATH \<le> length (m_wszMailRoot st) + length domain + length account
              + length MAILBOX_PREFIX_W + length MAILBOX_EXTENSION_W + 3
       then Some (False, box, st, w)
       else (let box = box\<lparr>m_bMailBoxOpened := False\<rparr>
             in case snprintf (POP3_MAX_PATH - 1) (mailbox_path (m_wszMailRoot st) domain account) of
                  None \<Rightarrow> Some (False, box\<lparr>m_wszMailBoxPath := snprintf_trunc (POP3_MAX_PATH - 1)
                             (mailbox_path (m_wszMailRoot st) domain account)\<rparr>, st, w)
                | Some p \<Rightarrow> Some (True, box\<lparr>m_wszMailBoxPath := p\<rparr>, st, w)) })"

text \<open>\<^verbatim>\<open>_wcsnicmp (a, b, wcslen (b)) == 0\<close> in the C locale.\<close>

definition wtolower :: "WCHAR \<Rightarrow> WCHAR" where
  "wtolower c = (if 65 \<le> c \<and> c \<le> 90 then c + 32 else c)"

definition wcsnicmp_eq :: "wstring \<Rightarrow> wstring \<Rightarrow> bool" where
  "wcsnicmp_eq a b \<longleftrightarrow> map wtolower (take (length b) a) = map wtolower b"

text \<open>
  \<^verbatim>\<open>GetMailboxFromStoreNameW\<close>: the result and the modified store name, which it cuts before its
  extension.
\<close>

definition GetMailboxFromStoreNameW :: "wstring option \<Rightarrow> (wstring \<times> wstring) option" where
  "GetMailboxFromStoreNameW psStoreName =
     (case psStoreName of
        None \<Rightarrow> None
      | Some s \<Rightarrow>
          (let p = length MAILBOX_PREFIX_W; e = length MAILBOX_EXTENSION_W
           in if length s \<le> p + e then None
              else if \<not> wcsnicmp_eq s MAILBOX_PREFIX_W then None
              else if \<not> wcsnicmp_eq (drop (length s - e) s) MAILBOX_EXTENSION_W then None
              else (let s' = take (length s - e) s in Some (drop p s', s'))))"

section \<open>Paths\<close>

lemma length_MAILBOX [simp]:
  "length MAILBOX_PREFIX_W = 3" "length MAILBOX_EXTENSION_W = 4"
  by (simp_all add: MAILBOX_PREFIX_W_def MAILBOX_EXTENSION_W_def wide_def)

lemma length_wide [simp]: "length (wide s) = length s"
  by (simp add: wide_def)

lemma length_path_join [simp]: "length (path_join a b) = length a + length b + 1"
  by (simp add: path_join_def)

lemma BuildFilePath_Some_iff:
  "BuildFilePath box (Some name) n = Some p \<longleftrightarrow>
     p = path_join (m_wszMailBoxPath box) name \<and> length p < n"
  by (auto simp: BuildFilePath_def)

lemma path_join_inject:
  assumes "of_char BACKSLASH \<notin> set b" "of_char BACKSLASH \<notin> set d"
    and eq: "path_join a b = path_join c d"
  shows "a = c \<and> b = d"
proof -
  let ?p = "\<lambda>x. x \<noteq> (of_char BACKSLASH :: WCHAR)"
  have tw: "takeWhile ?p (rev b @ of_char BACKSLASH # r) = rev b"
    "takeWhile ?p (rev d @ of_char BACKSLASH # r) = rev d" for r
    using assms(1,2) by (subst takeWhile_append2; force)+
  have "rev b @ of_char BACKSLASH # rev a = rev d @ of_char BACKSLASH # rev c"
    using arg_cong [OF eq, of rev] by (simp add: path_join_def wide_def)
  then have "rev b = rev d" using tw by metis
  then show ?thesis using eq by (simp add: path_join_def)
qed

lemma backslash_not_allowed:
  "wcspbrk_null s NotAllowedSet \<Longrightarrow> of_char BACKSLASH \<notin> set s"
  by (auto simp: wcspbrk_null_def NotAllowedSet_def wide_def)

lemma mailbox_path_inject:
  assumes "wcspbrk_null d NotAllowedSet" "wcspbrk_null d' NotAllowedSet"
    "wcspbrk_null a NotAllowedSet" "wcspbrk_null a' NotAllowedSet"
    and "mailbox_path r d a = mailbox_path r' d' a'"
  shows "r = r' \<and> d = d' \<and> a = a'"
proof -
  have na: "of_char BACKSLASH \<notin> set (MAILBOX_PREFIX_W @ x @ MAILBOX_EXTENSION_W)"
    if "wcspbrk_null x NotAllowedSet" for x
    using backslash_not_allowed [OF that]
    by (simp add: MAILBOX_PREFIX_W_def MAILBOX_EXTENSION_W_def wide_def of_char_eq_iff)
  have "path_join r d = path_join r' d' \<and>
      MAILBOX_PREFIX_W @ a @ MAILBOX_EXTENSION_W = MAILBOX_PREFIX_W @ a' @ MAILBOX_EXTENSION_W"
    using path_join_inject na assms unfolding mailbox_path_def by metis
  moreover have "r = r' \<and> d = d'"
    using path_join_inject [of d d' r r'] backslash_not_allowed assms(1,2) calculation by blast
  ultimately show ?thesis by simp
qed

lemma SetMailRoot_guard:
  "SetMailRoot api r st w = Some (ok, st', w') \<Longrightarrow>
     m_lMailRootGuard st = 1 \<and> m_lMailRootGuard st' = 1 \<and>
     (if ok then m_wszMailRoot st' \<noteq> [] else m_wszMailRoot st' = m_wszMailRoot st)"
  by (auto simp: SetMailRoot_def Let_def long_path_root_def wide_def
      split: if_splits option.splits prod.splits bind_splits)

text \<open>What a successful \<^verbatim>\<open>SetMailBoxPath\<close> leaves: the address split at its first \<^verbatim>\<open>@\<close>.\<close>

definition split_address :: "'w win32 \<Rightarrow> wstring \<Rightarrow> wstring \<times> wstring" where
  "split_address api a =
     (let b = dropWhile (iswspace api) a; acct = takeWhile (\<lambda>c. c \<noteq> of_char (CHR 0x40)) b
      in (acct, drop (Suc (length acct)) b))"

lemma SetMailBoxPath_True:
  assumes "SetMailBoxPath api a (box, st, w) = Some (True, box', st', w')"
    and "split_address api a = (account, domain)"
  shows "wcspbrk_null domain NotAllowedSet" "wcspbrk_null account NotAllowedSet"
    "domain \<noteq> []" "length domain < 255" "length account \<le> 320"
    "m_wszMailRoot st \<noteq> [] \<Longrightarrow> st' = st" "m_wszMailRoot st' \<noteq> []"
    "length (mailbox_path (m_wszMailRoot st') domain account) < POP3_MAX_PATH"
    "box' = box\<lparr>m_bMailBoxOpened := False,
       m_wszMailBoxPath := mailbox_path (m_wszMailRoot st') domain account\<rparr>"
  using assms SetMailRoot_guard [of api None st w True st' w']
  by (auto simp: SetMailBoxPath_def split_address_def Let_def snprintf_def mailbox_path_def
      split: if_splits bind_splits option.splits)

lemma SetMailBoxPath_False:
  assumes "SetMailBoxPath api a (box, st, w) = Some (False, box', st', w')"
  shows "box' = box"
proof -
  have "\<not> POP3_MAX_PATH \<le> length r + length d + length acc + 10 \<Longrightarrow>
      snprintf 519 (mailbox_path r d acc) = Some (mailbox_path r d acc)" for r d acc
    by (simp add: snprintf_def mailbox_path_def)
  with assms show ?thesis
    by (auto simp: SetMailBoxPath_def Let_def split: if_splits bind_splits option.splits)
qed

text \<open>
  C16.  Mailboxes are kept apart: when \<^verbatim>\<open>SetMailBoxPath\<close> accepts two addresses under the same mail
  root and gives both the same directory, the two addresses have the same account and the same
  domain.  No accepted account or domain contains a path separator that could make the paths meet.
\<close>

theorem SetMailBoxPath_separates_mailboxes:
  assumes "m_wszMailRoot st \<noteq> []"
    and "SetMailBoxPath api a1 (box1, st, w1) = Some (True, box1', st1', w1')"
    and "SetMailBoxPath api a2 (box2, st, w2) = Some (True, box2', st2', w2')"
    and "m_wszMailBoxPath box1' = m_wszMailBoxPath box2'"
  shows "split_address api a1 = split_address api a2"
proof -
  obtain c1 d1 c2 d2 where s: "split_address api a1 = (c1, d1)" "split_address api a2 = (c2, d2)"
    by fastforce
  note f1 = SetMailBoxPath_True [OF assms(2) s(1)] and f2 = SetMailBoxPath_True [OF assms(3) s(2)]
  have "mailbox_path (m_wszMailRoot st1') d1 c1 = mailbox_path (m_wszMailRoot st2') d2 c2"
    using assms(4) f1(9) f2(9) by simp
  then show ?thesis
    using mailbox_path_inject [OF f1(1) f2(1) f1(2) f2(2)] s by simp
qed

theorem SetMailBoxPath_separates_mailboxes_witness:
  "split_address sim_api (wide ''u@d'') = split_address sim_api (wide '' u@d'')"
  by (rule SetMailBoxPath_separates_mailboxes [where ?w1.0 = sim_start and ?w2.0 = sim_start
        and ?box1.0 = new_CMailBox and ?box2.0 = new_CMailBox
        and st = "\<lparr>m_lMailRootGuard = 1, m_wszMailRoot = wide ''C:''\<rparr>"])
     (simp_all add: SetMailBoxPath_def sim_api_def wide_def snprintf_def wcspbrk_null_def
        NotAllowedSet_def Let_def mailbox_path_def)

text \<open>The store name of an account leads back to the account.\<close>

lemma GetMailboxFromStoreNameW_roundtrip:
  assumes "account \<noteq> []"
  shows "GetMailboxFromStoreNameW (Some (MAILBOX_PREFIX_W @ account @ MAILBOX_EXTENSION_W))
    = Some (account, MAILBOX_PREFIX_W @ account)"
  using assms by (simp add: GetMailboxFromStoreNameW_def wcsnicmp_eq_def Let_def)

end
