(* ===== verification/Mail_Top.thy ===== *)
theory Mail_Top
  imports Mail_Path
begin

text \<open>
  \<^verbatim>\<open>CMailBox::ReadTopLines\<close> (\<^verbatim>\<open>pop3/shared/mailbox/mailbox.cpp\<close>): how many bytes of a mail file
  hold its headers and the first lines of its body, found by reading the file in blocks of 4096
  bytes; and the same count on the whole text, with which the block-wise search is compared.
\<close>

section \<open>The code\<close>

abbreviation (input) "LOCAL_FILE_BUFFER_SIZE \<equiv> (4096 :: nat)"

text \<open>
  The four bytes that end at \<^verbatim>\<open>szBuffer[dwIndex]\<close>: the \<^verbatim>\<open>do\<close> loop fills \<^verbatim>\<open>szEmpLine\<close> from the
  block, from the right, and returns where it stopped; the \<^verbatim>\<open>for\<close> loop fills what is left from
  the bytes kept of the block before (\<^verbatim>\<open>chLastChr\<close>).
\<close>

fun emp_from_block :: "string \<Rightarrow> nat \<Rightarrow> nat \<Rightarrow> string \<Rightarrow> nat \<times> string" where
  "emp_from_block buf k 0 emp = (0, emp)"
| "emp_from_block buf k (Suc i) emp =
     (let emp = emp[i := buf ! (k + i - 3)]
      in if k + i - 3 > 0 \<and> i > 0 then emp_from_block buf k i emp else (i, emp))"

fun emp_from_last :: "string \<Rightarrow> nat \<Rightarrow> nat \<Rightarrow> string \<Rightarrow> string" where
  "emp_from_last lastc (Suc j) (Suc i) emp = emp_from_last lastc j i (emp[i := lastc ! j])"
| "emp_from_last lastc _ _ emp = emp"

definition szEmpLine :: "string \<Rightarrow> string \<Rightarrow> nat \<Rightarrow> string" where
  "szEmpLine lastc buf k =
     (case emp_from_block buf k 4 (replicate 4 NUL) of (i, emp) \<Rightarrow> emp_from_last lastc 3 i emp)"

text \<open>
  The \<^verbatim>\<open>for\<close> loop over one block: the index where it stops, the lines still wanted, whether the
  headers are done, and \<^verbatim>\<open>chLastChr\<close>.
\<close>

fun scan_block :: "string \<Rightarrow> nat \<Rightarrow> string \<Rightarrow> int \<Rightarrow> bool \<Rightarrow> string \<Rightarrow> nat \<times> int \<times> bool \<times> string" where
  "scan_block buf k [] iLines bHeadersDone lastc = (k, iLines, bHeadersDone, lastc)"
| "scan_block buf k (c # cs) iLines bHeadersDone lastc =
     (if \<not> (\<not> bHeadersDone \<or> iLines > 0) then (k, iLines, bHeadersDone, lastc)
      else if c = LF then
        (if bHeadersDone then
           (if k > 0 then
              (if buf ! (k - 1) = CR then scan_block buf (Suc k) cs (iLines - 1) bHeadersDone lastc
               else scan_block buf (Suc k) cs iLines bHeadersDone lastc)
            else
              (if lastc ! 2 = CR
               then scan_block buf (Suc k) cs (iLines - 1) bHeadersDone (lastc[2 := NUL])
               else scan_block buf (Suc k) cs iLines bHeadersDone lastc))
         else scan_block buf (Suc k) cs iLines (szEmpLine lastc buf k = [CR, LF, CR, LF]) lastc)
      else scan_block buf (Suc k) cs iLines bHeadersDone lastc)"

text \<open>
  The \<^verbatim>\<open>while\<close> loop.  A read of \<^verbatim>\<open>szBuffer\<close> before its first byte (a last block of no byte, or of
  fewer than three while the headers are not done) has no value.
\<close>

partial_function (option) ReadTopLines_loop ::
  "'w win32 \<Rightarrow> HANDLE \<Rightarrow> int \<Rightarrow> bool \<Rightarrow> DWORD \<Rightarrow> string \<Rightarrow> 'w \<Rightarrow> ((bool \<times> int \<times> DWORD) \<times> 'w) option"
  where
  "ReadTopLines_loop api h iLines bHeadersDone bytes lastc w =
     (case ReadFile api w h LOCAL_FILE_BUFFER_SIZE of
        (None, w) \<Rightarrow> Some ((False, iLines, bytes), w)
      | (Some buf, w) \<Rightarrow>
          (case scan_block buf 0 buf iLines bHeadersDone lastc of
             (dwIndex, iLines, bHeadersDone, lastc) \<Rightarrow>
               if iLines = 0 then Some ((True, iLines, bytes + of_nat dwIndex), w)
               else if dwIndex = 0 \<or> (\<not> bHeadersDone \<and> dwIndex < 3) then None
               else (let bytes = bytes + of_nat (length buf);
                         lastc = lastc[2 := buf ! (dwIndex - 1)];
                         lastc = (if bHeadersDone then lastc
                                  else lastc[1 := buf ! (dwIndex - 2), 0 := buf ! (dwIndex - 3)])
                     in if length buf < LOCAL_FILE_BUFFER_SIZE then Some ((True, iLines, bytes), w)
                        else ReadTopLines_loop api h iLines bHeadersDone bytes lastc w)))"

declare ReadTopLines_loop.simps [code]

definition ReadTopLines :: "'w win32 \<Rightarrow> int \<Rightarrow> HANDLE \<Rightarrow> 'w \<Rightarrow> ((bool \<times> DWORD) \<times> 'w) option" where
  "ReadTopLines api iLines h w = do {
     ((ok, iLines, bytes), w) \<leftarrow> ReadTopLines_loop api h iLines False 0 (replicate 3 NUL) w;
     Some ((ok, if ok \<and> iLines > 0 then 0 else bytes), w) }"

section \<open>The count on the whole text\<close>

text \<open>The number of bytes up to the end of the first blank line, and up to the end of the n-th line.\<close>

fun header_end :: "string \<Rightarrow> nat option" where
  "header_end (a # b # c # d # s) =
     (if [a, b, c, d] = [CR, LF, CR, LF] then Some 4 else map_option Suc (header_end (b # c # d # s)))"
| "header_end _ = None"

fun lines_end :: "nat \<Rightarrow> string \<Rightarrow> nat option" where
  "lines_end 0 s = Some 0"
| "lines_end (Suc n) (a # b # s) =
     (if a = CR \<and> b = LF then map_option (\<lambda>k. k + 2) (lines_end n s)
      else map_option Suc (lines_end (Suc n) (b # s)))"
| "lines_end (Suc n) _ = None"

definition top_bytes :: "string \<Rightarrow> nat \<Rightarrow> nat option" where
  "top_bytes f n = do { h \<leftarrow> header_end f; k \<leftarrow> lines_end n (drop h f); Some (h + k) }"

text \<open>The same search one byte at a time, remembering the last three bytes.\<close>

fun top_scan :: "string \<Rightarrow> string \<Rightarrow> int \<Rightarrow> bool \<Rightarrow> nat \<times> int \<times> bool" where
  "top_scan h [] n d = (0, n, d)"
| "top_scan h (c # cs) n d =
     (if d \<and> n \<le> 0 then (0, n, d)
      else (case top_scan (tl h @ [c]) cs (if d \<and> c = LF \<and> h ! 2 = CR then n - 1 else n)
                  (d \<or> h @ [c] = [CR, LF, CR, LF]) of
              (k, n', d') \<Rightarrow> (Suc k, n', d')))"

lemma emp_from_block_4:
  assumes "k < length buf" "length lastc = 3"
  shows "szEmpLine lastc buf k = drop k (lastc @ take (Suc k) buf)"
proof -
  obtain a b c where l: "lastc = [a, b, c]"
    using assms(2) by (auto simp: length_Suc_conv numeral_3_eq_3)
  obtain x xs where buf: "buf = x # xs" using assms(1) by (cases buf) auto
  have "k = 0 \<or> k = 1 \<or> k = 2 \<or> (\<exists>m. k = m + 3)" by presburger
  then consider "k = 0" | "k = 1" | "k = 2" | m where "k = m + 3" by blast
  then show ?thesis
  proof cases
    case (4 m)
    have "drop m buf = buf ! m # buf ! (m+1) # buf ! (m+2) # buf ! (m+3) # drop (m+4) buf"
      using assms(1) 4 by (simp add: Cons_nth_drop_Suc eval_nat_numeral)
    then have "drop k (lastc @ take (Suc k) buf) = [buf ! m, buf ! (m+1), buf ! (m+2), buf ! (m+3)]"
      using 4 by (simp add: l drop_take eval_nat_numeral)
    then show ?thesis
      using 4 by (simp add: szEmpLine_def eval_nat_numeral)
    next
    case 3
    then obtain y ys where "xs = y # ys" using assms(1) buf by (cases xs) auto
    with 3 assms(1) show ?thesis
      by (simp add: l buf szEmpLine_def eval_nat_numeral take_Suc_conv_app_nth)
  qed (use assms in \<open>simp_all add: l buf szEmpLine_def eval_nat_numeral take_Suc_conv_app_nth\<close>)
qed


text \<open>One block: the search by index and the search with remembered bytes agree.\<close>

lemma scan_block_top_scan:
  assumes "cs = drop k buf" "k \<le> length buf" "length lastc = 3" "length h = 3"
    and "\<not> d \<Longrightarrow> h = drop k (lastc @ take k buf)"
    and "h ! 2 = (if k > 0 then buf ! (k - 1) else lastc ! 2)"
  shows "\<exists>lastc'. length lastc' = 3 \<and>
    scan_block buf k cs n d lastc = (case top_scan h cs n d of (j, n', d') \<Rightarrow> (k + j, n', d', lastc'))"
  using assms
proof (induction cs arbitrary: k h n d lastc)
  case Nil
  then show ?case by auto
next
  case (Cons c cs)
  have k: "k < length buf" "buf ! k = c" "cs = drop (Suc k) buf"
    using Cons.prems(1) by (metis drop_eq_Nil2 linorder_not_le list.distinct(1))
      (metis Cons.prems(1) nth_via_drop, metis Cons.prems(1) drop_Suc list.sel(3) tl_drop)
  have h': "length (tl h @ [c]) = 3" "(tl h @ [c]) ! 2 = c"
    using Cons.prems(4) by (auto simp: nth_append)
  have hist: "drop k (lastc @ take (Suc k) buf) = drop k (lastc @ take k buf) @ [c]"
    "drop (Suc k) (lastc @ take (Suc k) buf) = drop (Suc k) (lastc @ take k buf) @ [c]"
    using k(1,2) Cons.prems(3) by (simp_all add: take_Suc_conv_app_nth)
  have emp: "szEmpLine lastc buf k = h @ [c]" "tl h @ [c] = drop (Suc k) (lastc @ take (Suc k) buf)"
    if "\<not> d"
    using emp_from_block_4 [OF k(1) Cons.prems(3)] Cons.prems(5) [OF that] hist
    by (simp_all only: drop_Suc tl_drop)
  have IH: "\<exists>lastc'. length lastc' = 3 \<and>
      scan_block buf (Suc k) cs m e l =
        (case top_scan (tl h @ [c]) cs m e of (j, n', d') \<Rightarrow> (Suc k + j, n', d', lastc'))"
    if "length l = 3" "\<not> e \<Longrightarrow> \<not> d \<and> l = lastc" for m e l
    using Cons.IH [of "Suc k" l "tl h @ [c]" e m] that h' emp k by auto
  show ?case
  proof (cases "d \<and> n \<le> 0")
    case True
    then show ?thesis using Cons.prems(3) by auto
  next
    case False
    show ?thesis
      using False Cons.prems(3,6) k(2) emp(1) 
        IH [of lastc d n] IH [of lastc d "n - 1"] IH [of "lastc[2 := NUL]" d "n - 1"]
        IH [of lastc "h @ [c] = [CR, LF, CR, LF]" n]
      by (cases "c = LF"; cases d) (auto split: prod.splits)
  qed
qed


lemma top_scan_le:
  "top_scan h s n d = (j, n', d') \<Longrightarrow> 0 < n \<or> n = 0 \<and> d \<Longrightarrow>
     j \<le> length s \<and> 0 \<le> n' \<and> (n' = 0 \<longrightarrow> d') \<and> (n' > 0 \<longrightarrow> j = length s)"
proof (induction s arbitrary: h n d j)
  case (Cons c s)
  show ?case
  proof (cases "d \<and> n \<le> 0")
    case False
    define m e where "m = (if d \<and> c = LF \<and> h ! 2 = CR then n - 1 else n)"
      and "e \<longleftrightarrow> d \<or> h @ [c] = [CR, LF, CR, LF]"
    have "top_scan (tl h @ [c]) s m e = (j - 1, n', d') \<and> 0 < j"
      using Cons.prems(1) False by (auto simp: m_def e_def split: prod.splits if_splits)
    moreover have "0 < m \<or> m = 0 \<and> e" using False Cons.prems(2) by (auto simp: m_def e_def)
    ultimately show ?thesis using Cons.IH [of "tl h @ [c]" m e "j - 1"] by auto
  qed (use Cons.prems in auto)
qed auto

lemma top_scan_append:
  assumes "length h = 3"
  shows "top_scan h (a @ b) n d =
    (case top_scan h a n d of (j, n', d') \<Rightarrow>
       if d' \<and> n' \<le> 0 then (j, n', d')
       else (case top_scan (drop (length a) (h @ a)) b n' d' of (k, m, e) \<Rightarrow> (length a + k, m, e)))"
  using assms
proof (induction a arbitrary: h n d)
  case Nil
  then show ?case by (cases b) (auto split: prod.splits)
next
  case (Cons c a)
  have "drop (length a) ((tl h @ [c]) @ a) = drop (length (c # a)) (h @ c # a)"
    using Cons.prems by (cases h) simp_all
  with Cons.IH [of "tl h @ [c]"] Cons.prems show ?case by (auto split: prod.splits)
qed

text \<open>Past the headers only the last remembered byte matters.\<close>

lemma top_scan_done:
  "h ! 2 = h' ! 2 \<Longrightarrow> length h = 3 \<Longrightarrow> length h' = 3 \<Longrightarrow> top_scan h s n True = top_scan h' s n True"
proof (induction s arbitrary: h h' n)
  case (Cons c s)
  have "top_scan (tl h @ [c]) s m True = top_scan (tl h' @ [c]) s m True" for m
    using Cons.prems by (intro Cons.IH) (auto simp: nth_append)
  with Cons.prems show ?case by simp
qed simp

lemma lines_end_skip:
  "0 < n \<Longrightarrow> a \<noteq> CR \<Longrightarrow> lines_end n (a # s) = map_option Suc (lines_end n s)"
  by (cases "(n, s)" rule: lines_end.cases; cases n) (auto simp: option.map_comp o_def)

lemma top_scan_lines:
  assumes "length h = 3" "0 < n"
  shows "case lines_end n (h ! 2 # s) of
      Some k \<Rightarrow> 0 < k \<and> top_scan h s (int n) True = (k - 1, 0, True)
    | None \<Rightarrow> \<exists>n' > 0. top_scan h s (int n) True = (length s, n', True)"
  using assms
proof (induction s arbitrary: h n)
  case Nil
  then show ?case by (cases n) auto
next
  case (Cons c s)
  obtain m where n: "n = Suc m" using Cons.prems(2) by (cases n) auto
  have h': "length (tl h @ [c]) = 3" "(tl h @ [c]) ! 2 = c"
    using Cons.prems(1) by (auto simp: nth_append)
  show ?case
  proof (cases "h ! 2 = CR \<and> c = LF")
    case hit: True
    show ?thesis
    proof (cases m)
      case 0
      then show ?thesis using hit n by (cases s) auto
    next
      case (Suc l)
      then have "lines_end m (LF # s) = map_option Suc (lines_end m s)"
        by (simp add: lines_end_skip)
      moreover note Cons.IH [OF h'(1), of m]
      ultimately show ?thesis
        using hit n h'(2) Suc by (auto split: option.splits)
    qed
  next
    case False
    then have "lines_end n (h ! 2 # c # s) = map_option Suc (lines_end n (c # s))"
      using n by auto
    then show ?thesis
      using Cons.IH [OF h'(1) Cons.prems(2)] False Cons.prems(2) h'(2)
      by (auto split: option.splits)
  qed
qed

lemma header_end_bounds: "header_end s = Some k \<Longrightarrow> 4 \<le> k \<and> k \<le> length s \<and> s ! (k - 1) = LF"
proof (induction s arbitrary: k rule: header_end.induct)
  case (1 a b c d s)
  show ?case
  proof (cases "[a, b, c, d] = [CR, LF, CR, LF]")
    case False
    with "1.prems" obtain j where "header_end (b # c # d # s) = Some j" "k = Suc j" by auto
    with "1.IH" [OF False] show ?thesis by (auto simp: nth_Cons')
  qed (use "1.prems" in auto)
qed simp_all

lemma top_scan_header:
  assumes "length h = 3"
  shows "case header_end (h @ s) of
      Some k \<Rightarrow> top_scan h s n False =
        (case top_scan (drop (k - 3) (h @ take (k - 3) s)) (drop (k - 3) s) n True of
           (j, n', d') \<Rightarrow> (k - 3 + j, n', d'))
    | None \<Rightarrow> top_scan h s n False = (length s, n, False)"
  using assms
proof (induction s arbitrary: h)
  case Nil
  then obtain a b c where "h = [a, b, c]" by (auto simp: length_Suc_conv numeral_3_eq_3)
  then show ?case by simp
next
  case (Cons e s)
  obtain a b c where h: "h = [a, b, c]"
    using Cons.prems by (auto simp: length_Suc_conv numeral_3_eq_3)
  show ?case
  proof (cases "h @ [e] = [CR, LF, CR, LF]")
    case True
    then show ?thesis using h by (auto split: prod.splits)
  next
    case False
    then have he: "header_end (h @ e # s) = map_option Suc (header_end ([b, c, e] @ s))"
      using h by auto
    note IH = Cons.IH [of "[b, c, e]"]
    show ?thesis
    proof (cases "header_end ([b, c, e] @ s)")
      case None
      then show ?thesis using IH he h False by auto
    next
      case (Some k)
      then have "3 \<le> k" using header_end_bounds by fastforce
      then have "Suc k - 3 = Suc (k - 3)" by simp
      then show ?thesis
        using IH Some he h False by (auto split: prod.splits)
    qed
  qed
qed


lemma header_end_pad: "header_end (replicate 3 NUL @ s) = map_option (\<lambda>k. k + 3) (header_end s)"
proof (cases s)
  case (Cons a s')
  then show ?thesis
    by (cases s'; cases "tl s'"; cases "tl (tl s')")
       (auto simp: numeral_3_eq_3 option.map_comp o_def)
qed (simp add: numeral_3_eq_3)

lemma lines_end_le: "lines_end n s = Some k \<Longrightarrow> k \<le> length s"
  by (induction n s arbitrary: k rule: lines_end.induct) (auto split: if_splits)

lemma last_three:
  assumes "length h = 3" "3 \<le> length b"
  shows "drop (length b) (h @ b) = [b ! (length b - 3), b ! (length b - 2), b ! (length b - 1)]"
proof -
  obtain m where m: "length b = m + 3" using assms(2) by (metis add.commute le_Suc_ex)
  have "drop m b = b ! m # b ! (m+1) # b ! (m+2) # drop (m+3) b"
    using m by (simp add: Cons_nth_drop_Suc [symmetric])
  then show ?thesis using assms(1) m by simp
qed

lemma top_scan_spec:
  assumes "0 < n"
  shows "case top_bytes f n of
      Some k \<Rightarrow> top_scan (replicate 3 NUL) f (int n) False = (k, 0, True)
    | None \<Rightarrow> \<exists>n' d'. n' > 0 \<and> top_scan (replicate 3 NUL) f (int n) False = (length f, n', d')"
proof -
  note H = top_scan_header [of "replicate 3 NUL" f "int n", simplified header_end_pad]
  show ?thesis
  proof (cases "header_end f")
    case None
    then show ?thesis using H assms by (auto simp: top_bytes_def)
  next
    case (Some k)
    let ?h = "drop k (replicate 3 NUL @ take k f)"
    have k: "4 \<le> k" "k \<le> length f" "f ! (k - 1) = LF"
      using header_end_bounds [OF Some] by auto
    then have h: "length ?h = 3" "?h ! 2 = LF"
      using last_three [of "replicate 3 NUL" "take k f"] by simp_all
    have "top_scan (replicate 3 NUL) f (int n) False =
        (case top_scan ?h (drop k f) (int n) True of (j, n', d') \<Rightarrow> (k + j, n', d'))"
      using H Some by simp
    moreover note top_scan_lines [OF h(1) assms, of "drop k f"]
    moreover have "lines_end n (?h ! 2 # drop k f) = map_option Suc (lines_end n (drop k f))"
      using assms h(2) by (simp add: lines_end_skip)
    ultimately show ?thesis
      using Some k(2) by (auto simp: top_bytes_def split: option.splits)
  qed
qed


section \<open>Reading in blocks\<close>

text \<open>Successive \<^verbatim>\<open>ReadFile\<close> calls return the blocks \<^term>\<open>bs\<close>.\<close>

fun reads :: "'w win32 \<Rightarrow> HANDLE \<Rightarrow> 'w \<Rightarrow> string list \<Rightarrow> bool" where
  "reads api h w [] \<longleftrightarrow> True"
| "reads api h w (b # bs) \<longleftrightarrow>
     fst (ReadFile api w h LOCAL_FILE_BUFFER_SIZE) = Some b \<and>
     reads api h (snd (ReadFile api w h LOCAL_FILE_BUFFER_SIZE)) bs"

text \<open>A file in blocks: all full but the last, which has at least three bytes.\<close>

fun file_blocks :: "string list \<Rightarrow> bool" where
  "file_blocks [] \<longleftrightarrow> False"
| "file_blocks [b] \<longleftrightarrow> 3 \<le> length b \<and> length b < LOCAL_FILE_BUFFER_SIZE"
| "file_blocks (b # bs) \<longleftrightarrow> length b = LOCAL_FILE_BUFFER_SIZE \<and> file_blocks bs"

lemma ReadTopLines_loop_spec:
  assumes "reads api hf w bs" "file_blocks bs" "0 < n" "length lastc = 3" "length h = 3"
    and "\<not> d \<Longrightarrow> h = lastc" "h ! 2 = lastc ! 2"
    and "top_scan h (concat bs) n d = (j, n', d')"
  shows "\<exists>w'. ReadTopLines_loop api hf n d bytes lastc w =
    Some ((True, n', bytes + of_nat (if n' = 0 then j else length (concat bs))), w')"
  using assms
proof (induction bs arbitrary: w n d lastc h bytes j rule: file_blocks.induct)
  case 1
  then show ?case by simp
next
  case (2 b)
  obtain w' where rd: "ReadFile api w hf 4096 = (Some b, w')"
    using 2 by (cases "ReadFile api w hf 4096") auto
  have len: "3 \<le> length b" "length b < 4096" using "2.prems"(2) by auto
  have ts: "top_scan h b n d = (j, n', d')" using "2.prems"(8) by simp
  obtain l where l: "scan_block b 0 b n d lastc = (j, n', d', l)"
    using scan_block_top_scan [of b 0 b lastc h d n] "2.prems" ts by auto
  have "n' \<noteq> 0 \<Longrightarrow> j = length b" using top_scan_le [OF ts] "2.prems"(3) by auto
  then show ?case
    using len by (subst ReadTopLines_loop.simps) (auto simp: rd l Let_def)
next
  case (3 b b' bs)
  obtain w' where rd: "ReadFile api w hf 4096 = (Some b, w')" "reads api hf w' (b' # bs)"
    using 3 by (cases "ReadFile api w hf 4096") auto
  have len: "length b = 4096" "file_blocks (b' # bs)" using "3.prems"(2) by auto
  obtain j1 n1 d1 where ts: "top_scan h b n d = (j1, n1, d1)" by (metis prod_cases3)
  obtain l where l: "scan_block b 0 b n d lastc = (j1, n1, d1, l)" "length l = 3"
    using scan_block_top_scan [of b 0 b lastc h d n] "3.prems" ts by auto
  note le = top_scan_le [OF ts] and ap = top_scan_append [OF "3.prems"(5), of b "concat (b' # bs)" n d]
  show ?case
  proof (cases "n1 = 0")
    case True
    then have "d1" using le "3.prems"(3) by auto
    then have "n' = 0" "j = j1" using ap ts True "3.prems"(8) by auto
    then show ?thesis
      using True by (subst ReadTopLines_loop.simps) (auto simp: rd l)
  next
    case False
    then have n1: "0 < n1" "j1 = 4096" using le "3.prems"(3) len by auto
    define h2 where "h2 = [b ! 4093, b ! 4094, b ! 4095]"
    define l2 where "l2 = (if d1 then l[2 := b ! 4095] else l[2 := b ! 4095, 1 := b ! 4094, 0 := b ! 4093])"
    have h2: "drop (length b) (h @ b) = h2"
      using last_three [OF "3.prems"(5), of b] len by (simp add: h2_def)
    obtain a1 a2 a3 where l3: "l = [a1, a2, a3]"
      using l(2) by (auto simp: length_Suc_conv numeral_3_eq_3)
    have rel: "length l2 = 3" "length h2 = 3" "\<not> d1 \<Longrightarrow> h2 = l2" "h2 ! 2 = l2 ! 2"
      by (auto simp: l2_def h2_def l3 eval_nat_numeral)
    obtain j2 where ts2: "top_scan h2 (concat (b' # bs)) n1 d1 = (j2, n', d')" "j = 4096 + j2"
      using ap ts h2 n1 len "3.prems"(8) by (auto split: prod.splits)
    obtain w2 where "ReadTopLines_loop api hf n1 d1 (bytes + 4096) l2 w' =
        Some ((True, n', bytes + 4096 + of_nat (if n' = 0 then j2 else length (concat (b' # bs)))), w2)"
      using "3.IH" [OF rd(2) len(2) n1(1) rel ts2(1)] by blast
    then show ?thesis
      using n1 False ts2(2) len
      by (subst ReadTopLines_loop.simps) (auto simp: rd l Let_def l2_def add.assoc)
  qed
qed



definition top_mail :: string where
  "top_mail = [CHR ''A'', CR, LF, CR, LF, CHR ''b'', CR, LF, CHR ''c'', CR, LF]"


text \<open>
  \<^verbatim>\<open>TOP\<close> with no body line: \<^verbatim>\<open>ReadTopLines\<close> reads one block and reports the headers up to and
  including the first blank line of that block, or the whole block when it has no blank line: headers
  longer than one block are cut at its end.
\<close>

theorem ReadTopLines_headers_only:
  assumes "fst (ReadFile api w h LOCAL_FILE_BUFFER_SIZE) = Some b"
  shows "ReadTopLines api 0 h w =
    Some ((True, of_nat (case header_end b of Some k \<Rightarrow> k | None \<Rightarrow> length b)),
          snd (ReadFile api w h LOCAL_FILE_BUFFER_SIZE))"
proof -
  obtain w' where rd: "ReadFile api w h 4096 = (Some b, w')"
    using assms by (cases "ReadFile api w h 4096") auto
  have z: "top_scan x s 0 True = (0, 0, True)" for x s by (cases s) auto
  have ts: "top_scan (replicate 3 NUL) b 0 False =
      (case header_end b of Some k \<Rightarrow> (k, 0, True) | None \<Rightarrow> (length b, 0, False))"
    using top_scan_header [of "replicate 3 NUL" b 0, simplified header_end_pad]
    by (auto simp: z split: option.splits)
  obtain l where "scan_block b 0 b 0 False (replicate 3 NUL) =
      (case header_end b of Some k \<Rightarrow> (k, 0, True, l) | None \<Rightarrow> (length b, 0, False, l))"
    using scan_block_top_scan [of b 0 b "replicate 3 NUL" "replicate 3 NUL" False 0] ts
    by (auto split: option.splits)
  then show ?thesis
    by (subst ReadTopLines_def, subst ReadTopLines_loop.simps) (auto simp: rd split: option.splits)
qed

theorem ReadTopLines_headers_only_witness:
  "ReadTopLines sim_api 0 7
     (sim_start\<lparr>sim_files := [(wide ''m'', top_mail)], sim_open := [(7, wide ''m'', 0)]\<rparr>) =
   Some ((True, of_nat (case header_end top_mail of Some k \<Rightarrow> k | None \<Rightarrow> length top_mail)),
     sim_start\<lparr>sim_files := [(wide ''m'', top_mail)], sim_open := [(7, wide ''m'', 4096)]\<rparr>)
   \<and> header_end top_mail = Some 5"
proof -
  have "header_end top_mail = Some 5" by (simp add: top_mail_def)
  then show ?thesis
    using ReadTopLines_headers_only [of sim_api
      "sim_start\<lparr>sim_files := [(wide ''m'', top_mail)], sim_open := [(7, wide ''m'', 0)]\<rparr>" 7 top_mail]
    by (simp add: sim_api_def sim_read_def sim_start_def top_mail_def)
qed

text \<open>The read before the buffer when a file ends exactly at a block boundary inside the headers.\<close>

lemma ReadTopLines_empty_block:
  assumes "fst (ReadFile api w h LOCAL_FILE_BUFFER_SIZE) = Some []" "0 < n"
  shows "ReadTopLines api n h w = None"
proof -
  obtain w' where rd: "ReadFile api w h 4096 = (Some [], w')"
    using assms(1) by (cases "ReadFile api w h 4096") auto
  show ?thesis
    using assms(2) by (subst ReadTopLines_def, subst ReadTopLines_loop.simps) (simp add: rd)
qed

end
