(* ===== verification/Mail_Box.thy ===== *)
theory Mail_Box
  imports Mail_Top
begin

text \<open>
  The mailbox, \<^verbatim>\<open>CMailBox\<close> of \<^verbatim>\<open>pop3/shared/mailbox/mailbox.cpp\<close>: the vector of mails, opening,
  locking and enumerating the directory, listing, transmitting and deleting mails, and the two ways
  to close (commit and quit); and the files the delivery side creates.  Destructors and frees have
  no effect in the model beyond the pointers the code resets.
\<close>

section \<open>The code\<close>

subsection \<open>Items\<close>

definition NO_PENDING_OP :: DWORD where "NO_PENDING_OP = 0"
definition DEL_PENDING :: DWORD where "DEL_PENDING = 1"
definition ERROR_NO_FILE_ATTR :: DWORD where "ERROR_NO_FILE_ATTR = 0xffffffff"
definition ERR_NO_SUCH_MSG :: DWORD where "ERR_NO_SUCH_MSG = 0xf0000001"
definition ERR_MSG_ALREADY_DELETED :: DWORD where "ERR_MSG_ALREADY_DELETED = 0xf0000002"
definition RESP_END_OF_MULTILINE :: string where
  "RESP_END_OF_MULTILINE = [CR, LF, CHR ''.'', CR, LF]"
abbreviation (input) "DEFAULT_MAIL_VECTOR_SIZE \<equiv> (512 :: DWORD)"

text \<open>\<^verbatim>\<open>m_MailVector[i]\<close> as a pointer, and \<^verbatim>\<open>*m_MailVector[i]\<close>.\<close>

definition slot_at :: "CMailBox \<Rightarrow> nat \<Rightarrow> MAIL_ITEM option option" where
  "slot_at box i = do { v \<leftarrow> m_MailVector box; peek v i }"

definition mail_at :: "CMailBox \<Rightarrow> nat \<Rightarrow> MAIL_ITEM option" where
  "mail_at box i = do { p \<leftarrow> slot_at box i; p }"

definition set_slot :: "nat \<Rightarrow> MAIL_ITEM option \<Rightarrow> CMailBox \<Rightarrow> CMailBox" where
  "set_slot i p box = box\<lparr>m_MailVector := map_option (\<lambda>v. v[i := p]) (m_MailVector box)\<rparr>"

subsection \<open>Opening\<close>

definition CreateMailBox :: "'w win32 \<Rightarrow> wstring \<Rightarrow> CMailBox \<times> MailRoot \<times> 'w
    \<Rightarrow> (bool \<times> CMailBox \<times> MailRoot \<times> 'w) option" where
  "CreateMailBox api wszEmailAddr s = do {
     (bRC, box, st, w) \<leftarrow> SetMailBoxPath api wszEmailAddr s;
     let (bRC, w) = (if bRC then CreateDirectory api w (m_wszMailBoxPath box) else (False, w));
     if \<not> bRC then Some (False, box, st, w)
     else (let
       (bRC, box, w) =
         (case snprintf (POP3_MAX_PATH - 1) (path_join (m_wszMailBoxPath box) LOCK_FILENAME_W) of
            None \<Rightarrow> (False, box, w)
          | Some p \<Rightarrow>
              (let (h, w) = CreateFile api w p GENERIC_WRITE 0 None CREATE_NEW FILE_ATTRIBUTE_HIDDEN
               in if h \<noteq> INVALID_HANDLE_VALUE
                  then (True, box\<lparr>m_hMailBoxLock := NULL_HANDLE\<rparr>, snd (CloseHandle api w h))
                  else (False, box\<lparr>m_hMailBoxLock := h\<rparr>, w)))
       in Some (bRC, box, st,
            if \<not> bRC then snd (RemoveDirectory api w (m_wszMailBoxPath box)) else w)) }"

definition RepairMailBox :: "'w win32 \<Rightarrow> CMailBox \<times> 'w \<Rightarrow> bool \<times> CMailBox \<times> 'w" where
  "RepairMailBox api s = (case s of (box, w) \<Rightarrow>
     case snprintf (POP3_MAX_PATH - 1) (path_join (m_wszMailBoxPath box) LOCK_FILENAME_W) of
       None \<Rightarrow> (False, box, w)
     | Some p \<Rightarrow>
         (let (h, w) = CreateFile api w p GENERIC_WRITE 0 None OPEN_ALWAYS FILE_ATTRIBUTE_HIDDEN
          in if h \<noteq> INVALID_HANDLE_VALUE
             then (True, box\<lparr>m_hMailBoxLock := NULL_HANDLE\<rparr>, snd (CloseHandle api w h))
             else (False, box\<lparr>m_hMailBoxLock := h\<rparr>, w)))"

definition OpenMailBox :: "'w win32 \<Rightarrow> wstring \<Rightarrow> CMailBox \<times> MailRoot \<times> 'w
    \<Rightarrow> (bool \<times> CMailBox \<times> MailRoot \<times> 'w) option" where
  "OpenMailBox api wszEmailAddr s = do {
     (ok, box, st, w) \<leftarrow> SetMailBoxPath api wszEmailAddr s;
     if \<not> ok then Some (False, box, st, w)
     else (case GetFileAttributes api w (m_wszMailBoxPath box) of (attr, w) \<Rightarrow>
       if attr = ERROR_NO_FILE_ATTR then Some (False, box, st, w)
       else Some (True, box\<lparr>m_bMailBoxOpened := True\<rparr>, st, w)) }"

definition LockMailBox :: "'w win32 \<Rightarrow> CMailBox \<times> 'w \<Rightarrow> bool \<times> CMailBox \<times> 'w" where
  "LockMailBox api s = (case s of (box, w) \<Rightarrow>
     case snprintf (POP3_MAX_PATH - 1) (path_join (m_wszMailBoxPath box) LOCK_FILENAME_W) of
       None \<Rightarrow> (False, box, w)
     | Some p \<Rightarrow>
         (let (h, w) = CreateFile api w p (GENERIC_READ OR GENERIC_WRITE)
                (FILE_SHARE_READ OR FILE_SHARE_DELETE) None OPEN_EXISTING FILE_ATTRIBUTE_HIDDEN
          in (h \<noteq> INVALID_HANDLE_VALUE, box\<lparr>m_hMailBoxLock := h\<rparr>, w)))"

definition UnlockMailBox :: "'w win32 \<Rightarrow> CMailBox \<times> 'w \<Rightarrow> CMailBox \<times> 'w" where
  "UnlockMailBox api s = (case s of (box, w) \<Rightarrow>
     if m_hMailBoxLock box \<noteq> NULL_HANDLE
     then (box\<lparr>m_hMailBoxLock := NULL_HANDLE\<rparr>, snd (CloseHandle api w (m_hMailBoxLock box)))
     else (box, w))"

definition isMailboxInUse :: "'w win32 \<Rightarrow> CMailBox \<times> 'w \<Rightarrow> bool \<times> CMailBox \<times> 'w" where
  "isMailboxInUse api s =
     (case LockMailBox api s of (ok, s) \<Rightarrow>
        if ok then (False, UnlockMailBox api s) else (True, s))"

definition CloseMailBox :: "CMailBox \<Rightarrow> CMailBox" where
  "CloseMailBox box = box\<lparr>m_bMailBoxOpened := False\<rparr>"

subsection \<open>Enumerating\<close>

text \<open>\<^verbatim>\<open>memcpy (dst, src, n)\<close> on arrays of pointers.\<close>

definition memcpy :: "'a list \<Rightarrow> 'a list \<Rightarrow> nat \<Rightarrow> 'a list option" where
  "memcpy dst src n = (if n \<le> length src \<and> n \<le> length dst
     then Some (take n src @ drop n dst) else None)"

definition PushMailToVector :: "'w win32 \<Rightarrow> MAIL_ITEM option \<Rightarrow> CMailBox \<times> 'w
    \<Rightarrow> (bool \<times> CMailBox \<times> 'w) option" where
  "PushMailToVector api pMail s = (case s of (box, w) \<Rightarrow>
     let count = unat (m_cMailCount box) in
     if pMail = None then Some (False, box, w)
     else if m_cMailCount box \<ge> m_dwSizeOfMailVector box then
       (case m_MailVector box of
          Some v \<Rightarrow>
            (let dwNew = m_dwSizeOfMailVector box * 2; (ok, w) = alloc api w
             in if ok then do {
                  v1 \<leftarrow> memcpy (replicate (unat dwNew) None) v (unat (m_dwSizeOfMailVector box));
                  v2 \<leftarrow> poke v1 count [pMail];
                  Some (True, box\<lparr>m_MailVector := Some v2, m_dwSizeOfMailVector := dwNew\<rparr>, w) }
                else Some (False, box, w))
        | None \<Rightarrow>
            (let (ok, w) = alloc api w
             in if ok then do {
                  v2 \<leftarrow> poke (replicate (unat DEFAULT_MAIL_VECTOR_SIZE) None) count [pMail];
                  Some (True, box\<lparr>m_MailVector := Some v2,
                                  m_dwSizeOfMailVector := DEFAULT_MAIL_VECTOR_SIZE\<rparr>, w) }
                else Some (False, box, w)))
     else do {
       v \<leftarrow> m_MailVector box;
       v2 \<leftarrow> poke v count [pMail];
       Some (True, box\<lparr>m_MailVector := Some v2\<rparr>, w) })"

text \<open>
  The body of the loop for one directory entry: no result when the function returns \<^verbatim>\<open>FALSE\<close>
  from inside it (\<^verbatim>\<open>Inl\<close>), else the state after the entry (\<^verbatim>\<open>Inr\<close>).
\<close>

definition Enumerate_entry :: "'w win32 \<Rightarrow> WIN32_FIND_DATA \<Rightarrow> CMailBox \<times> 'w
    \<Rightarrow> ((CMailBox \<times> 'w) + (CMailBox \<times> 'w)) option" where
  "Enumerate_entry api FileInfo s = (case s of (box, w) \<Rightarrow>
     if dwFileAttributes FileInfo AND FILE_ATTRIBUTE_HIDDEN \<noteq> 0 then Some (Inr (box, w))
     else (case alloc api w of (ok, w) \<Rightarrow>
       if \<not> ok then Some (Inl (box, w))
       else (case alloc api w of (ok, w) \<Rightarrow>
         if \<not> ok then Some (Inl (box, FindClose api w))
         else do {
           (ok, box, w) \<leftarrow> PushMailToVector api
              (Some \<lparr>dwStatus = NO_PENDING_OP, hFile = NULL_HANDLE,
                     dwFileSize = nFileSizeLow FileInfo, bstrFileName = cFileName FileInfo\<rparr>) (box, w);
           if \<not> ok then Some (Inl (box, w))
           else Some (Inr (box\<lparr>m_cMailCount := m_cMailCount box + 1,
                               m_dwTotalSize := m_dwTotalSize box + nFileSizeLow FileInfo\<rparr>, w)) })))"

fun Enumerate_loop :: "'w win32 \<Rightarrow> DWORD \<Rightarrow> WIN32_FIND_DATA list \<Rightarrow> CMailBox \<times> 'w
    \<Rightarrow> ((CMailBox \<times> 'w) + (CMailBox \<times> 'w)) option" where
  "Enumerate_loop api dwMaxMsg [] (box, w) = Some (Inr (box, FindNextFile api w))"
| "Enumerate_loop api dwMaxMsg (f # fs) s = do {
     r \<leftarrow> Enumerate_entry api f s;
     (case r of
        Inl e \<Rightarrow> Some (Inl e)
      | Inr (box, w) \<Rightarrow>
          if dwMaxMsg = 0 \<or> m_cMailCount box \<noteq> dwMaxMsg then Enumerate_loop api dwMaxMsg fs (box, w)
          else Some (Inr (box, SetLastError api ERROR_NO_MORE_FILES w))) }"

definition EnumerateMailBox :: "'w win32 \<Rightarrow> DWORD \<Rightarrow> CMailBox \<times> 'w \<Rightarrow> (bool \<times> CMailBox \<times> 'w) option" where
  "EnumerateMailBox api dwMaxMsg s = (case s of (box, w) \<Rightarrow>
     case FindFirstFile api w (path_join (m_wszMailBoxPath box) (wide ''*.eml'')) of (entries, w) \<Rightarrow>
       if entries = [] then
         (if GetLastError api w = ERROR_FILE_NOT_FOUND \<or> GetLastError api w = ERROR_SUCCESS
          then Some (True, box\<lparr>m_cMailCount := 0\<rparr>, w)
          else Some (False, box, w))
       else do {
         r \<leftarrow> Enumerate_loop api dwMaxMsg entries (box, w);
         (case r of
            Inl (box, w) \<Rightarrow> Some (False, box, w)
          | Inr (box, w) \<Rightarrow>
              (let box = box\<lparr>m_dwShowMailCount := m_cMailCount box\<rparr>;
                   dwLastErr = GetLastError api w;
                   w = FindClose api w
               in Some (dwLastErr = ERROR_NO_MORE_FILES, box, w))) })"

subsection \<open>Reading and marking mails\<close>

text \<open>\<^verbatim>\<open>iIndex<0 || iIndex >= m_cMailCount\<close>; past the first test the comparison is unsigned.\<close>

definition bad_index :: "int \<Rightarrow> CMailBox \<Rightarrow> bool" where
  "bad_index iIndex box \<longleftrightarrow> iIndex < 0 \<or> nat iIndex \<ge> unat (m_cMailCount box)"

definition GetMailFileName :: "int \<Rightarrow> nat \<Rightarrow> CMailBox \<Rightarrow> (wstring option) option" where
  "GetMailFileName iIndex dwSize box =
     (if bad_index iIndex box then Some None
      else do {
        m \<leftarrow> mail_at box (nat iIndex);
        if dwStatus m = DEL_PENDING then Some None
        else Some (snprintf dwSize (path_join (m_wszMailBoxPath box) (bstrFileName m))) })"

definition GetEncyptedPassword :: "'w win32 \<Rightarrow> bool \<Rightarrow> nat \<Rightarrow> CMailBox \<times> 'w \<Rightarrow> string option \<times> 'w" where
  "GetEncyptedPassword api buffersGiven dwBufferSize s = (case s of (box, w) \<Rightarrow>
     if \<not> buffersGiven \<or> m_hMailBoxLock box = NULL_HANDLE then (None, w)
     else (case ReadFile api w (m_hMailBoxLock box) dwBufferSize of
             (None, w) \<Rightarrow> (None, w)
           | (Some txt, w) \<Rightarrow> (if length txt = dwBufferSize then None else Some txt, w)))"

definition SetEncyptedPassword :: "'w win32 \<Rightarrow> bool \<Rightarrow> string \<Rightarrow> CMailBox \<times> 'w \<Rightarrow> bool \<times> 'w" where
  "SetEncyptedPassword api buffersGiven txt s = (case s of (box, w) \<Rightarrow>
     if \<not> buffersGiven \<or> m_hMailBoxLock box = NULL_HANDLE then (False, w)
     else (case WriteFile api w (m_hMailBoxLock box) txt of
             (None, w) \<Rightarrow> (False, w)
           | (Some _, w) \<Rightarrow> SetEndOfFile api w (m_hMailBoxLock box)))"

fun Reset_loop :: "nat \<Rightarrow> nat \<Rightarrow> CMailBox \<Rightarrow> CMailBox option" where
  "Reset_loop i 0 box = Some box"
| "Reset_loop i (Suc n) box = do {
     m \<leftarrow> mail_at box i;
     Reset_loop (Suc i) n
       (if dwStatus m = DEL_PENDING
        then (set_slot i (Some (m\<lparr>dwStatus := NO_PENDING_OP\<rparr>)) box)
               \<lparr>m_dwTotalSize := m_dwTotalSize box + dwFileSize m\<rparr>
        else box) }"

definition Reset :: "CMailBox \<Rightarrow> CMailBox option" where
  "Reset box = do {
     box \<leftarrow> Reset_loop 0 (unat (m_cMailCount box)) box;
     Some (box\<lparr>m_dwShowMailCount := m_cMailCount box\<rparr>) }"

definition DeleteMail :: "int \<Rightarrow> CMailBox \<Rightarrow> (DWORD \<times> CMailBox) option" where
  "DeleteMail iIndex box =
     (if bad_index iIndex box then Some (ERR_NO_SUCH_MSG, box)
      else do {
        m \<leftarrow> mail_at box (nat iIndex);
        if dwStatus m = DEL_PENDING then Some (ERR_MSG_ALREADY_DELETED, box)
        else Some (ERROR_SUCCESS,
               (set_slot (nat iIndex) (Some (m\<lparr>dwStatus := DEL_PENDING\<rparr>)) box)
                 \<lparr>m_dwShowMailCount := m_dwShowMailCount box - 1,
                  m_dwTotalSize := m_dwTotalSize box - dwFileSize m\<rparr>) })"

text \<open>
  The file handle of a mail, opened on first use and rewound afterwards; \<^verbatim>\<open>Inl\<close> the error that the
  function returns.
\<close>

definition Transmit_open :: "'w win32 \<Rightarrow> DWORD \<Rightarrow> nat \<Rightarrow> MAIL_ITEM \<Rightarrow> CMailBox \<times> 'w
    \<Rightarrow> (DWORD + HANDLE) \<times> CMailBox \<times> 'w" where
  "Transmit_open api flags i m s = (case s of (box, w) \<Rightarrow>
     if hFile m = NULL_HANDLE then
       (case snprintf (POP3_MAX_PATH - 1) (path_join (m_wszMailBoxPath box) (bstrFileName m)) of
          None \<Rightarrow> (Inl E_UNEXPECTED, box, w)
        | Some p \<Rightarrow>
            (case CreateFile api w p GENERIC_READ 0 None OPEN_EXISTING flags of (h, w) \<Rightarrow>
               if h = INVALID_HANDLE_VALUE
               then (Inl (GetLastError api w), set_slot i (Some (m\<lparr>hFile := NULL_HANDLE\<rparr>)) box, w)
               else (Inr h, set_slot i (Some (m\<lparr>hFile := h\<rparr>)) box, w)))
     else
       (case SetFilePointer api w (hFile m) of (r, w) \<Rightarrow>
          if r = INVALID_SET_FILE_POINTER then (Inl (GetLastError api w), box, w)
          else (Inr (hFile m), box, w)))"

definition octets_head :: "MAIL_ITEM \<Rightarrow> string" where
  "octets_head m = ''+OK '' @ fmt_dword_d (dwFileSize m) @ '' octects'' @ [CR, LF]"

definition Transmit_send :: "'w win32 \<Rightarrow> HANDLE \<Rightarrow> HANDLE \<Rightarrow> DWORD \<Rightarrow> string \<Rightarrow> 'w \<Rightarrow> DWORD \<times> 'w" where
  "Transmit_send api sock h bytes head w =
     (case TransmitFile api w sock h bytes head RESP_END_OF_MULTILINE of (ok, w) \<Rightarrow>
        if \<not> ok \<and> WSAGetLastError api w \<noteq> ERROR_IO_PENDING then (WSAGetLastError api w, w)
        else (ERROR_SUCCESS, w))"

definition TransmitMail :: "'w win32 \<Rightarrow> HANDLE \<Rightarrow> int \<Rightarrow> int \<Rightarrow> CMailBox \<times> 'w
    \<Rightarrow> (DWORD \<times> CMailBox \<times> 'w) option" where
  "TransmitMail api sock iIndex iLines s = (case s of (box, w) \<Rightarrow>
     if bad_index iIndex box then Some (ERR_NO_SUCH_MSG, box, w)
     else do {
       m \<leftarrow> mail_at box (nat iIndex);
       if dwStatus m = DEL_PENDING then Some (ERR_MSG_ALREADY_DELETED, box, w)
       else (case Transmit_open api FILE_FLAG_SEQUENTIAL_SCAN (nat iIndex) m (box, w) of
          (Inl e, box, w) \<Rightarrow> Some (e, box, w)
        | (Inr h, box, w) \<Rightarrow>
            if iLines \<ge> 0 then do {
              ((ok, bytes), w) \<leftarrow> ReadTopLines api iLines h w;
              if \<not> ok then Some (GetLastError api w, box, w)
              else (case SetFilePointer api w h of (r, w) \<Rightarrow>
                if r = INVALID_SET_FILE_POINTER then Some (GetLastError api w, box, w)
                else (case Transmit_send api sock h bytes (octets_head m) w of (e, w) \<Rightarrow>
                   Some (e, box, w))) }
            else (case Transmit_send api sock h 0 (octets_head m) w of (e, w) \<Rightarrow> Some (e, box, w))) })"

definition TransmitMailSocket :: "'w win32 \<Rightarrow> HANDLE \<Rightarrow> int \<Rightarrow> CMailBox \<times> 'w
    \<Rightarrow> (DWORD \<times> CMailBox \<times> 'w) option" where
  "TransmitMailSocket api sock iIndex s = (case s of (box, w) \<Rightarrow>
     if bad_index iIndex box then Some (ERR_NO_SUCH_MSG, box, w)
     else do {
       m \<leftarrow> mail_at box (nat iIndex);
       if dwStatus m = DEL_PENDING then Some (ERR_MSG_ALREADY_DELETED, box, w)
       else (case Transmit_open api (FILE_FLAG_OVERLAPPED OR FILE_FLAG_NO_BUFFERING) (nat iIndex) m (box, w) of
          (Inl e, box, w) \<Rightarrow> Some (e, box, w)
        | (Inr h, box, w) \<Rightarrow>
            (case Transmit_send api sock h 0 (octets_head m) w of (e, w) \<Rightarrow> Some (e, box, w))) })"

definition ListMail :: "int \<Rightarrow> nat \<Rightarrow> CMailBox \<Rightarrow> (DWORD \<times> string option) option" where
  "ListMail iIndex dwSize box =
     (if bad_index iIndex box then Some (ERR_NO_SUCH_MSG, None)
      else do {
        m \<leftarrow> mail_at box (nat iIndex);
        if dwStatus m = DEL_PENDING then Some (ERR_MSG_ALREADY_DELETED, None)
        else (case snprintf (dwSize - 1) (fmt_d (iIndex + 1) @ '' '' @ fmt_dword_d (dwFileSize m) @ [CR, LF]) of
           None \<Rightarrow> Some (ERROR_INVALID_DATA, None)
         | Some txt \<Rightarrow> Some (ERROR_SUCCESS, Some txt)) })"

text \<open>
  \<^verbatim>\<open>UidlMail\<close> prints the file name without its first three characters and then overwrites its last
  four by CR LF; a printed text shorter than four characters is written to before its start.
\<close>

definition UidlMail :: "int \<Rightarrow> nat \<Rightarrow> CMailBox \<Rightarrow> (DWORD \<times> string option) option" where
  "UidlMail iIndex dwSize box =
     (if bad_index iIndex box then Some (ERR_NO_SUCH_MSG, None)
      else do {
        m \<leftarrow> mail_at box (nat iIndex);
        if dwStatus m = DEL_PENDING then Some (ERR_MSG_ALREADY_DELETED, None)
        else if length (bstrFileName m) < 3 then None
        else (case snprintf (dwSize - 1) (fmt_d (iIndex + 1) @ '' '' @ narrow (drop 3 (bstrFileName m))) of
           None \<Rightarrow> Some (ERROR_INVALID_DATA, None)
         | Some txt \<Rightarrow>
             if length txt < 4 then None
             else Some (ERROR_SUCCESS, Some (take (length txt - 4) txt @ [CR, LF]))) })"

subsection \<open>Closing\<close>

text \<open>One iteration of \<^verbatim>\<open>CommitAndClose\<close>: the result so far, the box and the world.\<close>

definition Commit_one :: "'w win32 \<Rightarrow> wstring \<Rightarrow> MAIL_ITEM \<Rightarrow> bool \<times> 'w \<Rightarrow> bool \<times> 'w" where
  "Commit_one api path m s = (case s of (ok, w) \<Rightarrow>
     let w = (if hFile m \<noteq> NULL_HANDLE then snd (CloseHandle api w (hFile m)) else w)
     in if dwStatus m = DEL_PENDING then
          (case snprintf (POP3_MAX_PATH - 1) (path_join path (bstrFileName m)) of
             None \<Rightarrow> (False, w)
           | Some p \<Rightarrow> (case DeleteFile api w p of (d, w) \<Rightarrow> (if d then ok else False, w)))
        else (ok, w))"

fun Commit_loop :: "'w win32 \<Rightarrow> nat \<Rightarrow> nat \<Rightarrow> CMailBox \<Rightarrow> bool \<times> 'w \<Rightarrow> ((bool \<times> 'w) \<times> CMailBox) option" where
  "Commit_loop api i 0 box s = Some (s, box)"
| "Commit_loop api i (Suc n) box s = do {
     p \<leftarrow> slot_at box i;
     (case p of
        None \<Rightarrow> Commit_loop api (Suc i) n box s
      | Some m \<Rightarrow> Commit_loop api (Suc i) n (set_slot i None box)
                    (Commit_one api (m_wszMailBoxPath box) m s)) }"

definition CommitAndClose :: "'w win32 \<Rightarrow> CMailBox \<times> 'w \<Rightarrow> (bool \<times> CMailBox \<times> 'w) option" where
  "CommitAndClose api s = (case s of (box, w) \<Rightarrow> do {
     ((ok, w), box) \<leftarrow> Commit_loop api 0 (unat (m_cMailCount box)) box (True, w);
     let box = box\<lparr>m_MailVector := None, m_dwSizeOfMailVector := 0\<rparr>;
     let w = (if m_hMailBoxLock box \<noteq> NULL_HANDLE then snd (CloseHandle api w (m_hMailBoxLock box)) else w);
     Some (ok, box\<lparr>m_hMailBoxLock := NULL_HANDLE, m_cMailCount := 0, m_dwShowMailCount := 0,
                   m_dwTotalSize := 0, m_wszMailBoxPath := []\<rparr>, w) })"

fun Quit_loop :: "'w win32 \<Rightarrow> nat \<Rightarrow> nat \<Rightarrow> CMailBox \<Rightarrow> 'w \<Rightarrow> ('w \<times> CMailBox) option" where
  "Quit_loop api i 0 box w = Some (w, box)"
| "Quit_loop api i (Suc n) box w = do {
     p \<leftarrow> slot_at box i;
     (case p of
        None \<Rightarrow> Quit_loop api (Suc i) n box w
      | Some m \<Rightarrow> Quit_loop api (Suc i) n (set_slot i None box)
                    (if hFile m \<noteq> NULL_HANDLE then snd (CloseHandle api w (hFile m)) else w)) }"

definition QuitAndClose :: "'w win32 \<Rightarrow> CMailBox \<times> 'w \<Rightarrow> (CMailBox \<times> 'w) option" where
  "QuitAndClose api s = (case s of (box, w) \<Rightarrow> do {
     (w, box) \<leftarrow> Quit_loop api 0 (unat (m_cMailCount box)) box w;
     let w = (if m_hMailBoxLock box \<noteq> NULL_HANDLE then snd (CloseHandle api w (m_hMailBoxLock box)) else w);
     Some (box\<lparr>m_hMailBoxLock := NULL_HANDLE, m_MailVector := None, m_dwSizeOfMailVector := 0,
               m_cMailCount := 0, m_dwShowMailCount := 0, m_dwTotalSize := 0, m_wszMailBoxPath := []\<rparr>, w) })"

subsection \<open>Delivery\<close>

definition QUOTA_FILENAME :: wstring where "QUOTA_FILENAME = wide ''Quota''"

text \<open>
  \<^verbatim>\<open>CreateMail\<close>.  The security attributes are \<^verbatim>\<open>NULL\<close> (\<^term>\<open>None\<close>) or name an owner, which is the
  contents of the quota file or, when that could not be sized, \<^verbatim>\<open>NULL\<close>.
\<close>

definition CreateMail_owner :: "'w win32 \<Rightarrow> wstring \<Rightarrow> 'w \<Rightarrow> string option option \<times> 'w" where
  "CreateMail_owner api p w =
     (case CreateFile api w p GENERIC_READ FILE_SHARE_READ None OPEN_EXISTING FILE_ATTRIBUTE_HIDDEN of (hf, w) \<Rightarrow>
        if hf = INVALID_HANDLE_VALUE then (None, w)
        else (case GetFileSize api w hf of (dwSize, w) \<Rightarrow>
          let (sid, w) =
            (if dwSize = INVALID_FILE_SIZE then (None, w)
             else (case alloc api w of (ok, w) \<Rightarrow>
               if ok then (case ReadFile api (SetLastError api ERROR_SUCCESS w) hf (unat dwSize) of
                             (r, w) \<Rightarrow> (Some (case r of Some t \<Rightarrow> t | None \<Rightarrow> []), w))
               else (None, SetLastError api ERROR_OUTOFMEMORY w)));
              w = snd (CloseHandle api w hf)
          in if GetLastError api w = ERROR_SUCCESS then
               (case InitializeSecurityDescriptor api w of (ok, w) \<Rightarrow>
                  if ok then (case SetSecurityDescriptorOwner api w sid of (ok, w) \<Rightarrow>
                     (if ok then Some sid else None, w))
                  else (None, w))
             else (None, w)))"

definition CreateMail :: "'w win32 \<Rightarrow> wstring option \<Rightarrow> DWORD \<Rightarrow> CMailBox \<times> 'w \<Rightarrow> HANDLE \<times> 'w" where
  "CreateMail api wszTargetFileName dwFlagsAndAttributes s = (case s of (box, w) \<Rightarrow>
     if wszTargetFileName = None then (INVALID_HANDLE_VALUE, w)
     else (let
       (psa, w) = (case BuildFilePath box (Some QUOTA_FILENAME) POP3_MAX_PATH of
                     None \<Rightarrow> (None, w)
                   | Some p \<Rightarrow> CreateMail_owner api p w)
       in case BuildFilePath box wszTargetFileName POP3_MAX_PATH of
            None \<Rightarrow> (INVALID_HANDLE_VALUE, w)
          | Some p \<Rightarrow> CreateFile api w p GENERIC_ALL 0 psa CREATE_NEW
                       (dwFlagsAndAttributes OR FILE_ATTRIBUTE_HIDDEN)))"

definition CloseMail :: "'w win32 \<Rightarrow> HANDLE \<Rightarrow> DWORD \<Rightarrow> 'w \<Rightarrow> DWORD \<times> 'w" where
  "CloseMail api hMailFile dwFlagsAndAttributes w =
     (if hMailFile = INVALID_HANDLE_VALUE then (ERROR_INVALID_HANDLE, w)
      else (let
        (dwRC, w) = NtFlushBuffersFile api w hMailFile;
        (dwRC, w) = (if dwRC = ERROR_SUCCESS
                     then NtSetInformationFile api w hMailFile FILE_ATTRIBUTE_NORMAL else (dwRC, w))
        in if FILE_FLAG_OVERLAPPED AND dwFlagsAndAttributes = 0
           then (case CloseHandle api w hMailFile of (ok, w) \<Rightarrow>
                   (if ok then dwRC else GetLastError api w, w))
           else (dwRC, w)))"

definition DeleteMailFile :: "'w win32 \<Rightarrow> wstring option \<Rightarrow> CMailBox \<times> 'w \<Rightarrow> bool \<times> 'w" where
  "DeleteMailFile api wszTargetFileName s = (case s of (box, w) \<Rightarrow>
     case wszTargetFileName of
       None \<Rightarrow> (False, w)
     | Some name \<Rightarrow>
         if name = [] \<or> \<not> m_bMailBoxOpened box then (False, w)
         else (case BuildFilePath box (Some name) POP3_MAX_PATH of
                 None \<Rightarrow> (False, w)
               | Some p \<Rightarrow> DeleteFile api w p))"

section \<open>The invariant of a mailbox\<close>

text \<open>
  The mails of a box are the first \<^verbatim>\<open>m_cMailCount\<close> slots of its vector.  In a well-formed box they
  are inside the vector and not \<^verbatim>\<open>NULL\<close>; in a counted one the two figures that \<^verbatim>\<open>STAT\<close> reports are
  the number and the (32-bit) total size of the mails that are not marked.
\<close>

definition mails :: "CMailBox \<Rightarrow> MAIL_ITEM list" where
  "mails box = (case m_MailVector box of
      None \<Rightarrow> [] | Some v \<Rightarrow> map the (take (unat (m_cMailCount box)) v))"

definition mb_inv :: "CMailBox \<Rightarrow> bool" where
  "mb_inv box \<longleftrightarrow> (case m_MailVector box of
      None \<Rightarrow> m_cMailCount box = 0 \<and> m_dwSizeOfMailVector box = 0
    | Some v \<Rightarrow> length v = unat (m_dwSizeOfMailVector box) \<and> 0 < length v \<and>
        unat (m_cMailCount box) \<le> length v \<and> None \<notin> set (take (unat (m_cMailCount box)) v))"

definition live :: "MAIL_ITEM \<Rightarrow> bool" where
  "live m \<longleftrightarrow> dwStatus m \<noteq> DEL_PENDING"

definition mb_counts :: "CMailBox \<Rightarrow> bool" where
  "mb_counts box \<longleftrightarrow>
     m_dwShowMailCount box = of_nat (length (filter live (mails box))) \<and>
     m_dwTotalSize box = sum_list (map dwFileSize (filter live (mails box)))"

named_theorems box_simps \<open>reading a well-formed mailbox\<close>

lemma length_mails [box_simps, simp]: "mb_inv box \<Longrightarrow> length (mails box) = unat (m_cMailCount box)"
  by (auto simp: mb_inv_def mails_def split: option.splits)

lemma slot_at_mails [box_simps]:
  assumes "mb_inv box" "i < unat (m_cMailCount box)"
  shows "slot_at box i = Some (Some (mails box ! i))"
proof -
  obtain v where v: "m_MailVector box = Some v"
    using assms by (auto simp: mb_inv_def split: option.splits)
  have i: "i < length v" "i < length (take (unat (m_cMailCount box)) v)"
    using assms v by (auto simp: mb_inv_def)
  then have "v ! i \<in> set (take (unat (m_cMailCount box)) v)"
    by (metis nth_mem nth_take assms(2))
  moreover have "None \<notin> set (take (unat (m_cMailCount box)) v)"
    using assms v by (simp add: mb_inv_def)
  ultimately have "v ! i \<noteq> None" by metis
  then show ?thesis
    using v i assms by (auto simp: slot_at_def mails_def)
qed

lemma mail_at_mails [box_simps]:
  "mb_inv box \<Longrightarrow> i < unat (m_cMailCount box) \<Longrightarrow> mail_at box i = Some (mails box ! i)"
  by (simp add: mail_at_def slot_at_mails)

lemma bad_index_iff [box_simps]:
  "mb_inv box \<Longrightarrow> bad_index i box \<longleftrightarrow> i < 0 \<or> nat i \<ge> length (mails box)"
  by (simp add: bad_index_def)

lemma set_slot_fields [simp]:
  "m_cMailCount (set_slot i p box) = m_cMailCount box"
  "m_dwSizeOfMailVector (set_slot i p box) = m_dwSizeOfMailVector box"
  "m_dwShowMailCount (set_slot i p box) = m_dwShowMailCount box"
  "m_dwTotalSize (set_slot i p box) = m_dwTotalSize box"
  "m_hMailBoxLock (set_slot i p box) = m_hMailBoxLock box"
  "m_wszMailBoxPath (set_slot i p box) = m_wszMailBoxPath box"
  "m_bMailBoxOpened (set_slot i p box) = m_bMailBoxOpened box"
  by (simp_all add: set_slot_def)

lemma mb_inv_update [simp]:
  "mb_inv (box\<lparr>m_dwShowMailCount := a\<rparr>) = mb_inv box"
  "mb_inv (box\<lparr>m_dwTotalSize := b\<rparr>) = mb_inv box"
  "mb_inv (box\<lparr>m_hMailBoxLock := c\<rparr>) = mb_inv box"
  "mb_inv (box\<lparr>m_wszMailBoxPath := d\<rparr>) = mb_inv box"
  "mb_inv (box\<lparr>m_bMailBoxOpened := e\<rparr>) = mb_inv box"
  by (simp_all add: mb_inv_def cong: option.case_cong)

lemma mails_update [simp]:
  "mails (box\<lparr>m_dwShowMailCount := a\<rparr>) = mails box"
  "mails (box\<lparr>m_dwTotalSize := b\<rparr>) = mails box"
  "mails (box\<lparr>m_hMailBoxLock := c\<rparr>) = mails box"
  "mails (box\<lparr>m_wszMailBoxPath := d\<rparr>) = mails box"
  "mails (box\<lparr>m_bMailBoxOpened := e\<rparr>) = mails box"
  by (simp_all add: mails_def cong: option.case_cong)

lemma set_slot_inv:
  assumes "mb_inv box" "i < unat (m_cMailCount box)"
  shows "mb_inv (set_slot i (Some m) box)" "mails (set_slot i (Some m) box) = (mails box)[i := m]"
proof -
  obtain v where v: "m_MailVector box = Some v"
    using assms by (auto simp: mb_inv_def split: option.splits)
  show "mb_inv (set_slot i (Some m) box)"
    using assms v by (auto simp: mb_inv_def set_slot_def take_update_swap dest: in_set_takeD
        set_update_subset_insert [THEN subsetD])
  show "mails (set_slot i (Some m) box) = (mails box)[i := m]"
    using assms v by (simp add: mails_def set_slot_def take_update_swap map_update)
qed

lemma new_CMailBox_inv: "mb_inv new_CMailBox" "mb_counts new_CMailBox" "mails new_CMailBox = []"
  by (simp_all add: mb_inv_def mb_counts_def mails_def new_CMailBox_def)

section \<open>Marking\<close>

lemma sum_live_update:
  assumes "i < length ms" "live (ms ! i)" "\<not> live m"
  shows "length (filter live ms) = Suc (length (filter live (ms[i := m]))) \<and>
    sum_list (map dwFileSize (filter live (ms[i := m]))) + dwFileSize (ms ! i)
      = sum_list (map dwFileSize (filter live ms))"
  using assms
proof (induction ms arbitrary: i)
  case (Cons a ms)
  then show ?case by (cases i) (auto simp: algebra_simps)
qed simp

lemma DeleteMail_spec:
  assumes "mb_inv box"
  shows "DeleteMail i box =
    (if i < 0 \<or> nat i \<ge> length (mails box) then Some (ERR_NO_SUCH_MSG, box)
     else if \<not> live (mails box ! nat i) then Some (ERR_MSG_ALREADY_DELETED, box)
     else Some (ERROR_SUCCESS,
       (set_slot (nat i) (Some ((mails box ! nat i)\<lparr>dwStatus := DEL_PENDING\<rparr>)) box)
         \<lparr>m_dwShowMailCount := m_dwShowMailCount box - 1,
          m_dwTotalSize := m_dwTotalSize box - dwFileSize (mails box ! nat i)\<rparr>))"
  using assms by (auto simp: DeleteMail_def box_simps live_def)

lemma DeleteMail_counts:
  assumes "mb_inv box" "mb_counts box" "DeleteMail i box = Some (r, box')"
  shows "mb_inv box' \<and> mb_counts box'"
proof (cases "i < 0 \<or> nat i \<ge> length (mails box) \<or> \<not> live (mails box ! nat i)")
  case True
  then show ?thesis using assms by (auto simp: DeleteMail_spec split: if_splits)
next
  case False
  let ?m = "(mails box ! nat i)\<lparr>dwStatus := DEL_PENDING\<rparr>"
  have nl: "\<not> live ?m" by (simp add: live_def)
  note s = sum_live_update [OF _ _ nl, of "nat i" "mails box"]
  have "box' = (set_slot (nat i) (Some ?m) box)
         \<lparr>m_dwShowMailCount := m_dwShowMailCount box - 1,
          m_dwTotalSize := m_dwTotalSize box - dwFileSize (mails box ! nat i)\<rparr>"
    using assms(1,3) False by (simp add: DeleteMail_spec)
  moreover have "m_dwTotalSize box - dwFileSize (mails box ! nat i) =
      sum_list (map dwFileSize (filter live ((mails box)[nat i := ?m])))"
    "m_dwShowMailCount box - 1 = of_nat (length (filter live ((mails box)[nat i := ?m])))"
    using False assms(1,2) s by (auto simp: mb_counts_def diff_eq_eq)
  ultimately show ?thesis
    using False assms(1) set_slot_inv [OF assms(1), of "nat i" ?m] by (simp add: mb_counts_def)
qed

definition unmark :: "MAIL_ITEM \<Rightarrow> MAIL_ITEM" where
  "unmark m = (if dwStatus m = DEL_PENDING then m\<lparr>dwStatus := NO_PENDING_OP\<rparr> else m)"

lemma live_unmark [simp]: "live (unmark m)" "dwFileSize (unmark m) = dwFileSize m"
  "bstrFileName (unmark m) = bstrFileName m" "hFile (unmark m) = hFile m"
  by (simp_all add: live_def unmark_def NO_PENDING_OP_def DEL_PENDING_def)

lemma Reset_loop_spec:
  assumes "mb_inv box" "i + n = unat (m_cMailCount box)"
  shows "\<exists>v. Reset_loop i n box = Some (box\<lparr>m_MailVector := v,
      m_dwTotalSize := m_dwTotalSize box
        + sum_list (map dwFileSize (filter (\<lambda>m. \<not> live m) (drop i (mails box))))\<rparr>)
    \<and> mb_inv (box\<lparr>m_MailVector := v\<rparr>)
    \<and> mails (box\<lparr>m_MailVector := v\<rparr>) = take i (mails box) @ map unmark (drop i (mails box))"
  using assms
proof (induction n arbitrary: i box)
  case 0
  then show ?case by (intro exI [of _ "m_MailVector box"]) simp
next
  case (Suc n)
  let ?m = "mails box ! i"
  have i: "i < unat (m_cMailCount box)" using Suc.prems by simp
  then have dr: "drop i (mails box) = ?m # drop (Suc i) (mails box)"
    "take (Suc i) (mails box) = take i (mails box) @ [?m]"
    using Suc.prems(1) by (simp_all add: Cons_nth_drop_Suc take_Suc_conv_app_nth)
  show ?case
  proof (cases "live ?m")
    case True
    then have "unmark ?m = ?m" by (simp add: unmark_def live_def)
    then show ?thesis
      using Suc.IH [of box "Suc i"] Suc.prems i dr True by (auto simp: box_simps live_def)
  next
    case False
    let ?b = "(set_slot i (Some (unmark ?m)) box)\<lparr>m_dwTotalSize := m_dwTotalSize box + dwFileSize ?m\<rparr>"
    have u: "unmark ?m = ?m\<lparr>dwStatus := NO_PENDING_OP\<rparr>" using False by (simp add: unmark_def live_def)
    note S = set_slot_inv [OF Suc.prems(1) i, of "unmark ?m"]
    have ms: "mails ?b = (mails box)[i := unmark ?m]" "mb_inv ?b" using S by simp_all
    have tk: "take (Suc i) (mails ?b) = take i (mails box) @ [unmark ?m]"
      "drop (Suc i) (mails ?b) = drop (Suc i) (mails box)"
      using i Suc.prems(1) by (simp_all add: S(2) take_Suc_conv_app_nth)
    obtain v where v: "Reset_loop (Suc i) n ?b = Some (?b\<lparr>m_MailVector := v,
        m_dwTotalSize := m_dwTotalSize ?b
          + sum_list (map dwFileSize (filter (\<lambda>m. \<not> live m) (drop (Suc i) (mails box))))\<rparr>)"
      "mb_inv (?b\<lparr>m_MailVector := v\<rparr>)"
      "mails (?b\<lparr>m_MailVector := v\<rparr>) = (take i (mails box) @ [unmark ?m])
          @ map unmark (drop (Suc i) (mails box))"
      using Suc.IH [of ?b "Suc i"] ms(2) Suc.prems(2) unfolding tk by auto
    have same: "?b\<lparr>m_MailVector := v, m_dwTotalSize := t\<rparr> = box\<lparr>m_MailVector := v, m_dwTotalSize := t\<rparr>" for t
      by (simp add: set_slot_def)
    have eqb: "?b\<lparr>m_MailVector := v\<rparr> = (box\<lparr>m_MailVector := v\<rparr>)\<lparr>m_dwTotalSize := m_dwTotalSize box + dwFileSize ?m\<rparr>"
      by (simp add: set_slot_def)
    have "mb_inv (box\<lparr>m_MailVector := v\<rparr>)" "mails (box\<lparr>m_MailVector := v\<rparr>) = mails (?b\<lparr>m_MailVector := v\<rparr>)"
      using v(2) unfolding eqb by simp_all
    then show ?thesis
      using v(1,3) Suc.prems(1) i dr False u
      by (intro exI [of _ v]) (auto simp: box_simps live_def same algebra_simps)
  qed
qed


lemma sum_live_split:
  "sum_list (map dwFileSize (filter live ms)) + sum_list (map dwFileSize (filter (\<lambda>m. \<not> live m) ms))
     = sum_list (map dwFileSize ms)"
  by (induction ms) (auto simp: algebra_simps)

lemma Reset_spec:
  assumes "mb_inv box" "mb_counts box"
  shows "\<exists>box'. Reset box = Some box' \<and> mb_inv box' \<and> mb_counts box' \<and> mails box' = map unmark (mails box)"
proof -
  obtain v where v: "Reset_loop 0 (unat (m_cMailCount box)) box = Some (box\<lparr>m_MailVector := v,
      m_dwTotalSize := m_dwTotalSize box
        + sum_list (map dwFileSize (filter (\<lambda>m. \<not> live m) (mails box)))\<rparr>)"
    "mb_inv (box\<lparr>m_MailVector := v\<rparr>)"
    "mails (box\<lparr>m_MailVector := v\<rparr>) = map unmark (mails box)"
    using Reset_loop_spec [OF assms(1), of 0] by auto
  have all: "filter live (map unmark ms) = map unmark ms" for ms
    by (induction ms) simp_all
  have "m_dwTotalSize box + sum_list (map dwFileSize (filter (\<lambda>m. \<not> live m) (mails box)))
      = sum_list (map dwFileSize (mails box))"
    using assms(2) sum_live_split [of "mails box"] by (simp add: mb_counts_def)
  moreover have "m_cMailCount box = of_nat (length (mails box))" using assms(1) by simp
  ultimately show ?thesis
    using v by (simp add: Reset_def mb_counts_def all o_def)
qed

section \<open>The maildrop that a session sees\<close>

text \<open>
  The maildrop of RFC 1939 is a list of messages, each with its unique name, its size and a mark.
  \<^verbatim>\<open>DELE\<close> marks one, \<^verbatim>\<open>RSET\<close> unmarks all, and \<^verbatim>\<open>STAT\<close> counts those without a mark.
\<close>

type_synonym message = "wstring \<times> DWORD \<times> bool"

definition dele_code :: "int \<Rightarrow> message list \<Rightarrow> DWORD" where
  "dele_code i d = (if i < 0 \<or> nat i \<ge> length d then ERR_NO_SUCH_MSG
     else if snd (snd (d ! nat i)) then ERR_MSG_ALREADY_DELETED else ERROR_SUCCESS)"

definition dele_spec :: "int \<Rightarrow> message list \<Rightarrow> message list" where
  "dele_spec i d = (if i < 0 \<or> nat i \<ge> length d then d
     else d[nat i := (fst (d ! nat i), fst (snd (d ! nat i)), True)])"

definition rset_spec :: "message list \<Rightarrow> message list" where
  "rset_spec d = map (\<lambda>(n, s, _). (n, s, False)) d"

definition count_spec :: "message list \<Rightarrow> DWORD" where
  "count_spec d = of_nat (length (filter (\<lambda>m. \<not> snd (snd m)) d))"

definition size_spec :: "message list \<Rightarrow> DWORD" where
  "size_spec d = sum_list (map (\<lambda>m. fst (snd m)) (filter (\<lambda>m. \<not> snd (snd m)) d))"

datatype drop_op = Dele int | Rset

fun run_ops :: "(int \<Rightarrow> 'b \<Rightarrow> (DWORD \<times> 'b) option) \<Rightarrow> ('b \<Rightarrow> 'b option) \<Rightarrow> drop_op list \<Rightarrow> 'b \<Rightarrow> 'b option" where
  "run_ops dele rset [] b = Some b"
| "run_ops dele rset (Dele i # ops) b = do { (_, b) \<leftarrow> dele i b; run_ops dele rset ops b }"
| "run_ops dele rset (Rset # ops) b = do { b \<leftarrow> rset b; run_ops dele rset ops b }"

fun run_spec :: "drop_op list \<Rightarrow> message list \<Rightarrow> message list" where
  "run_spec [] d = d"
| "run_spec (Dele i # ops) d = run_spec ops (dele_spec i d)"
| "run_spec (Rset # ops) d = run_spec ops (rset_spec d)"

lemma rset_dele_spec [simp]: "rset_spec (dele_spec i d) = rset_spec d"
  by (auto simp: rset_spec_def dele_spec_def map_update list_update_same_conv split: prod.splits)

lemma rset_rset_spec [simp]: "rset_spec (rset_spec d) = rset_spec d"
  by (simp add: rset_spec_def split_def)

lemma rset_run_spec: "rset_spec (run_spec ops d) = rset_spec d"
  by (induction ops d rule: run_spec.induct) simp_all

text \<open>What the session relies on: every operation returns and acts on the maildrop as specified.\<close>

locale maildrop =
  fixes inv :: "'b \<Rightarrow> bool"
    and drop_of :: "'b \<Rightarrow> message list"
    and dele :: "int \<Rightarrow> 'b \<Rightarrow> (DWORD \<times> 'b) option"
    and rset :: "'b \<Rightarrow> 'b option"
    and cnt :: "'b \<Rightarrow> DWORD"
    and siz :: "'b \<Rightarrow> DWORD"
  assumes dele_law: "inv b \<Longrightarrow> \<exists>b'. dele i b = Some (dele_code i (drop_of b), b') \<and> inv b' \<and>
      drop_of b' = dele_spec i (drop_of b)"
    and rset_law: "inv b \<Longrightarrow> \<exists>b'. rset b = Some b' \<and> inv b' \<and> drop_of b' = rset_spec (drop_of b)"
    and cnt_law: "inv b \<Longrightarrow> cnt b = count_spec (drop_of b)"
    and siz_law: "inv b \<Longrightarrow> siz b = size_spec (drop_of b)"
begin

lemma run_refines:
  "inv b \<Longrightarrow> \<exists>b'. run_ops dele rset ops b = Some b' \<and> inv b' \<and> drop_of b' = run_spec ops (drop_of b)"
proof (induction ops arbitrary: b)
  case (Cons op ops)
  show ?case
  proof (cases op)
    case (Dele i)
    obtain b1 where "dele i b = Some (dele_code i (drop_of b), b1)" "inv b1"
      "drop_of b1 = dele_spec i (drop_of b)" using dele_law [OF Cons.prems] by blast
    with Cons.IH [of b1] Dele show ?thesis by auto
  next
    case Rset
    obtain b1 where "rset b = Some b1" "inv b1" "drop_of b1 = rset_spec (drop_of b)"
      using rset_law [OF Cons.prems] by blast
    with Cons.IH [of b1] Rset show ?thesis by auto
  qed
qed simp

lemma rset_undoes_session:
  assumes "inv b" "rset_spec (drop_of b) = drop_of b"
  shows "\<exists>b'. run_ops dele rset (ops @ [Rset]) b = Some b' \<and> inv b' \<and> drop_of b' = drop_of b \<and>
    cnt b' = cnt b \<and> siz b' = siz b"
proof -
  have "run_spec (ops @ [Rset]) d = rset_spec (run_spec ops d)" for d
    by (induction ops d rule: run_spec.induct) simp_all
  then show ?thesis
    using run_refines [OF assms(1), of "ops @ [Rset]"] assms(2) rset_run_spec [of ops "drop_of b"]
    by (auto simp: cnt_law siz_law assms(1))
qed

end

definition drop_of_box :: "CMailBox \<Rightarrow> message list" where
  "drop_of_box box = map (\<lambda>m. (bstrFileName m, dwFileSize m, \<not> live m)) (mails box)"

lemma drop_of_box_nth:
  "i < length (mails box) \<Longrightarrow>
   drop_of_box box ! i = (bstrFileName (mails box ! i), dwFileSize (mails box ! i), \<not> live (mails box ! i))"
  by (simp add: drop_of_box_def)

lemma length_drop_of_box [simp]: "length (drop_of_box box) = length (mails box)"
  by (simp add: drop_of_box_def)

lemma DeleteMail_refines:
  assumes "mb_inv box" "mb_counts box"
  shows "\<exists>box'. DeleteMail i box = Some (dele_code i (drop_of_box box), box') \<and>
    (mb_inv box' \<and> mb_counts box') \<and> drop_of_box box' = dele_spec i (drop_of_box box)"
proof -
  obtain r box' where r: "DeleteMail i box = Some (r, box')"
    using DeleteMail_spec [OF assms(1), of i] by (auto split: if_splits)
  note inv' = DeleteMail_counts [OF assms r]
  have "r = dele_code i (drop_of_box box) \<and> drop_of_box box' = dele_spec i (drop_of_box box)"
  proof (cases "i < 0 \<or> nat i \<ge> length (mails box)")
    case False
    then have b: "nat i < length (mails box)" by simp
    show ?thesis
    proof (cases "live (mails box ! nat i)")
      case True
      then have "mails box' = (mails box)[nat i := (mails box ! nat i)\<lparr>dwStatus := DEL_PENDING\<rparr>]"
        "r = ERROR_SUCCESS"
        using r b False assms(1) set_slot_inv(2) [OF assms(1), of "nat i"]
        by (auto simp: DeleteMail_spec)
      then show ?thesis
        using True b False
        by (simp add: dele_code_def dele_spec_def drop_of_box_nth)
           (simp add: drop_of_box_def map_update live_def)
    next
      case dead: False
      then have "box' = box" "r = ERR_MSG_ALREADY_DELETED"
        using r False assms(1) by (auto simp: DeleteMail_spec)
      moreover have "(drop_of_box box)[nat i := drop_of_box box ! nat i] = drop_of_box box" by simp
      ultimately show ?thesis
        using dead b False by (simp add: dele_code_def dele_spec_def drop_of_box_nth)
    qed
  qed (use r assms in \<open>auto simp: DeleteMail_spec dele_code_def dele_spec_def\<close>)
  with r inv' show ?thesis by blast
qed

interpretation box: maildrop "\<lambda>b. mb_inv b \<and> mb_counts b" drop_of_box DeleteMail Reset
  m_dwShowMailCount m_dwTotalSize
proof unfold_locales
  fix b :: CMailBox and i
  assume b: "mb_inv b \<and> mb_counts b"
  show "\<exists>b'. DeleteMail i b = Some (dele_code i (drop_of_box b), b') \<and> (mb_inv b' \<and> mb_counts b') \<and>
      drop_of_box b' = dele_spec i (drop_of_box b)"
    using DeleteMail_refines b by blast
  show "\<exists>b'. Reset b = Some b' \<and> (mb_inv b' \<and> mb_counts b') \<and> drop_of_box b' = rset_spec (drop_of_box b)"
    using Reset_spec b by (fastforce simp: drop_of_box_def rset_spec_def)
  show "m_dwShowMailCount b = count_spec (drop_of_box b)" "m_dwTotalSize b = size_spec (drop_of_box b)"
    using b by (simp_all add: mb_counts_def count_spec_def size_spec_def drop_of_box_def filter_map o_def)
qed


text \<open>A box with two mails.\<close>

definition demo_mail :: "string \<Rightarrow> DWORD \<Rightarrow> MAIL_ITEM" where
  "demo_mail name n = \<lparr>dwStatus = NO_PENDING_OP, hFile = NULL_HANDLE, dwFileSize = n, bstrFileName = wide name\<rparr>"

definition demo_box :: CMailBox where
  "demo_box = new_CMailBox\<lparr>m_dwSizeOfMailVector := 3,
     m_MailVector := Some [Some (demo_mail ''P3_a.eml'' 10), Some (demo_mail ''P3_b.eml'' 20), None],
     m_cMailCount := 2, m_dwShowMailCount := 2, m_dwTotalSize := 30, m_wszMailBoxPath := wide ''d''\<rparr>"

lemma demo_box_inv:
  "mb_inv demo_box" "mb_counts demo_box"
  "mails demo_box = [demo_mail ''P3_a.eml'' 10, demo_mail ''P3_b.eml'' 20]"
  by (simp_all add: mb_inv_def mb_counts_def mails_def demo_box_def demo_mail_def live_def
      NO_PENDING_OP_def DEL_PENDING_def)


text \<open>
  \<^verbatim>\<open>RSET\<close> undoes everything: after any sequence of marks and resets from a box without marks, a
  final \<^verbatim>\<open>RSET\<close> restores the messages, their sizes and both figures of \<^verbatim>\<open>STAT\<close>.
\<close>

theorem Reset_restores_maildrop:
  assumes "mb_inv b" "mb_counts b" "\<forall>m \<in> set (mails b). live m"
  shows "\<exists>b'. run_ops DeleteMail Reset (ops @ [Rset]) b = Some b' \<and> drop_of_box b' = drop_of_box b \<and>
    m_dwShowMailCount b' = m_dwShowMailCount b \<and> m_dwTotalSize b' = m_dwTotalSize b"
proof -
  have "rset_spec (drop_of_box b) = drop_of_box b"
    using assms(3) by (simp add: rset_spec_def drop_of_box_def)
  then show ?thesis using box.rset_undoes_session [of b ops] assms(1,2) by blast
qed

theorem Reset_restores_maildrop_witness:
  "\<exists>b'. run_ops DeleteMail Reset ([Dele 1, Dele 0] @ [Rset]) demo_box = Some b' \<and>
    drop_of_box b' = drop_of_box demo_box \<and>
    m_dwShowMailCount b' = m_dwShowMailCount demo_box \<and> m_dwTotalSize b' = m_dwTotalSize demo_box"
  by (rule Reset_restores_maildrop)
     (simp_all add: demo_box_inv demo_mail_def live_def NO_PENDING_OP_def DEL_PENDING_def)

section \<open>Enumerating a directory\<close>

definition visible :: "WIN32_FIND_DATA \<Rightarrow> bool" where
  "visible f \<longleftrightarrow> dwFileAttributes f AND FILE_ATTRIBUTE_HIDDEN = 0"

definition item_of :: "WIN32_FIND_DATA \<Rightarrow> MAIL_ITEM" where
  "item_of f = \<lparr>dwStatus = NO_PENDING_OP, hFile = NULL_HANDLE, dwFileSize = nFileSizeLow f,
     bstrFileName = cFileName f\<rparr>"

text \<open>Pushing in a box with fewer than 2^31 mails: it succeeds or leaves the box as it was.\<close>

definition pushed :: "MAIL_ITEM option list option \<Rightarrow> MAIL_ITEM \<Rightarrow> CMailBox \<Rightarrow> CMailBox \<Rightarrow> bool" where
  "pushed v m box box' \<longleftrightarrow> mb_inv (box'\<lparr>m_cMailCount := m_cMailCount box + 1\<rparr>) \<and>
     mails (box'\<lparr>m_cMailCount := m_cMailCount box + 1\<rparr>) = mails box @ [m] \<and>
     box' = box\<lparr>m_MailVector := v, m_dwSizeOfMailVector := m_dwSizeOfMailVector box'\<rparr>"

lemma poke_at_count:
  assumes "None \<notin> set (take n v)" "n < length v"
  shows "poke v n [Some m] = Some (v[n := Some m])"
    "None \<notin> set (take (Suc n) (v[n := Some m]))"
    "map the (take (Suc n) (v[n := Some m])) = map the (take n v) @ [m]"
  using assms
  by (simp_all add: poke_def upd_conv_take_nth_drop take_Suc_conv_app_nth)

lemma PushMailToVector_spec:
  assumes "mb_inv box" "unat (m_cMailCount box) < 2147483647"
  shows "\<exists>ok box' w'. PushMailToVector api (Some m) (box, w) = Some (ok, box', w') \<and>
    (if ok then \<exists>v. pushed v m box box' else box' = box)"
proof -
  let ?c = "m_cMailCount box" and ?s = "m_dwSizeOfMailVector box"
  have c1: "unat (?c + 1) = Suc (unat ?c)"
    using assms(2) by (simp add: unat_word_ariths)
  show ?thesis
  proof (cases "m_MailVector box")
    case None
    then have c0: "?c = 0" "?s = 0" "mails box = []" using assms(1) by (auto simp: mb_inv_def mails_def)
    show ?thesis
      using None c0 poke_at_count [of 0 "replicate 512 None" m]
      by (cases "alloc api w")
         (auto simp: PushMailToVector_def pushed_def mb_inv_def mails_def)
  next
    case (Some v)
    have v: "length v = unat ?s" "0 < length v" "unat ?c \<le> length v" "None \<notin> set (take (unat ?c) v)"
      using assms(1) Some by (simp_all add: mb_inv_def del: length_greater_0_conv)
    have ms: "mails box = map the (take (unat ?c) v)" using Some by (simp add: mails_def)
    show ?thesis
    proof (cases "?c < ?s")
      case True
      then have lt: "unat ?c < length v" using v(1) by (simp add: word_less_nat_alt)
      note P = poke_at_count [OF v(4) lt, of m]
      have "PushMailToVector api (Some m) (box, w) =
          Some (True, box\<lparr>m_MailVector := Some (v[unat ?c := Some m])\<rparr>, w)"
        using True Some P(1) by (auto simp: PushMailToVector_def Let_def)
      moreover have "pushed (Some (v[unat ?c := Some m])) m box
          (box\<lparr>m_MailVector := Some (v[unat ?c := Some m])\<rparr>)"
        using P(2,3) v lt c1 by (simp add: pushed_def mb_inv_def mails_def Some)
      ultimately show ?thesis by auto
    next
      case False
      then have full: "unat ?c = length v" using v(1,3) by (simp add: word_less_nat_alt not_less)
      then have s2: "unat (?s * 2) = 2 * length v"
        using v(1) assms(2) by (simp add: unat_word_ariths)
      define v1 where "v1 = v @ replicate (length v) (None :: MAIL_ITEM option)"
      have lt: "unat ?c < length v1" "None \<notin> set (take (unat ?c) v1)"
        using full v(2,4) by (simp_all add: v1_def)
      note P = poke_at_count [OF lt(2,1), of m]
      have mc: "memcpy (replicate (unat (?s * 2)) None) v (unat ?s) = Some v1"
        using v(1) s2 by (simp add: memcpy_def v1_def)
      have "take (unat ?c) v1 = v" using full by (simp add: v1_def)
      then have "pushed (Some (v1[unat ?c := Some m])) m box
          (box\<lparr>m_MailVector := Some (v1[unat ?c := Some m]), m_dwSizeOfMailVector := ?s * 2\<rparr>)"
        using P(2,3) lt(1) c1 ms full s2
        by (simp add: pushed_def mb_inv_def mails_def v1_def Suc_le_eq)
      then show ?thesis
        using False Some mc P(1) by (cases "alloc api w") (auto simp: PushMailToVector_def not_less Let_def)
    qed
  qed
qed


text \<open>The fields that enumerating leaves alone.\<close>

definition same_place :: "CMailBox \<Rightarrow> CMailBox \<Rightarrow> bool" where
  "same_place box b \<longleftrightarrow> m_dwShowMailCount b = m_dwShowMailCount box \<and>
     m_hMailBoxLock b = m_hMailBoxLock box \<and> m_wszMailBoxPath b = m_wszMailBoxPath box \<and>
     m_bMailBoxOpened b = m_bMailBoxOpened box"

lemma same_place_refl [simp]: "same_place b b"
  by (simp add: same_place_def)

lemma same_place_trans [trans]: "same_place a b \<Longrightarrow> same_place b c \<Longrightarrow> same_place a c"
  by (simp add: same_place_def)

definition grown :: "WIN32_FIND_DATA list \<Rightarrow> CMailBox \<Rightarrow> CMailBox \<Rightarrow> bool" where
  "grown fs box b \<longleftrightarrow> mb_inv b \<and> same_place box b \<and> mails b = mails box @ map item_of fs \<and>
     m_dwTotalSize b = m_dwTotalSize box + sum_list (map nFileSizeLow fs)"

lemma grown_refl [simp]: "mb_inv b \<Longrightarrow> grown [] b b"
  by (simp add: grown_def)

lemma grown_trans: "grown fs a b \<Longrightarrow> grown gs b c \<Longrightarrow> grown (fs @ gs) a c"
  by (auto simp: grown_def algebra_simps dest: same_place_trans)

lemma Enumerate_entry_spec:
  assumes "mb_inv box" "unat (m_cMailCount box) < 2147483647"
  shows "(\<exists>w'. Enumerate_entry api f (box, w) = Some (Inl (box, w'))) \<or>
    (\<exists>b w'. Enumerate_entry api f (box, w) = Some (Inr (b, w')) \<and> grown (filter visible [f]) box b)"
proof (cases "visible f")
  case False
  then show ?thesis using assms(1) by (auto simp: Enumerate_entry_def visible_def)
next
  case True
  then have v: "dwFileAttributes f AND FILE_ATTRIBUTE_HIDDEN = 0" by (simp add: visible_def)
  obtain o1 w1 o2 w2 where al: "alloc api w = (o1, w1)" "alloc api w1 = (o2, w2)" by fastforce
  obtain ok b w' where P: "PushMailToVector api (Some (item_of f)) (box, w2) = Some (ok, b, w')"
    "if ok then \<exists>v. pushed v (item_of f) box b else b = box"
    using PushMailToVector_spec [OF assms, of api "item_of f" w2] by metis
  have "ok \<Longrightarrow> grown [f] box (b\<lparr>m_cMailCount := m_cMailCount b + 1,
      m_dwTotalSize := m_dwTotalSize b + nFileSizeLow f\<rparr>)"
  proof -
    assume ok
    then obtain x where x: "pushed x (item_of f) box b" using P(2) by auto
    then obtain s where b: "b = box\<lparr>m_MailVector := x, m_dwSizeOfMailVector := s\<rparr>"
      by (auto simp: pushed_def)
    show ?thesis using x unfolding pushed_def b grown_def same_place_def by simp
  qed
  then show ?thesis
    using al P v True by (auto simp: Enumerate_entry_def item_of_def [symmetric])
qed

definition listed :: "DWORD \<Rightarrow> DWORD \<Rightarrow> WIN32_FIND_DATA list \<Rightarrow> WIN32_FIND_DATA list" where
  "listed dwMaxMsg count fs =
     (if dwMaxMsg = 0 then filter visible fs else take (unat dwMaxMsg - unat count) (filter visible fs))"

lemma count_grown: "grown fs a b \<Longrightarrow> mb_inv a \<Longrightarrow> unat (m_cMailCount b) = unat (m_cMailCount a) + length fs"
  using length_mails [of a] length_mails [of b] by (auto simp: grown_def)

lemma Enumerate_loop_spec:
  assumes "mb_inv box" "unat (m_cMailCount box) + length fs < 2147483648"
    and "dwMaxMsg = 0 \<or> unat (m_cMailCount box) < unat dwMaxMsg"
  shows "(\<exists>b w' gs. Enumerate_loop api dwMaxMsg fs (box, w) = Some (Inl (b, w')) \<and> grown gs box b) \<or>
    (\<exists>b w'. Enumerate_loop api dwMaxMsg fs (box, w) = Some (Inr (b, w')) \<and>
       grown (listed dwMaxMsg (m_cMailCount box) fs) box b)"
  using assms
proof (induction fs arbitrary: box w)
  case Nil
  then show ?case by (auto simp: listed_def)
next
  case (Cons f fs)
  consider w1 where "Enumerate_entry api f (box, w) = Some (Inl (box, w1))"
    | b w1 where "Enumerate_entry api f (box, w) = Some (Inr (b, w1))" "grown (filter visible [f]) box b"
    using Enumerate_entry_spec [OF Cons.prems(1), of api f w] Cons.prems(2) by auto
  then show ?case
  proof cases
    case 1
    then show ?thesis using grown_refl [OF Cons.prems(1)] by auto
  next
    case (2 b w1)
    have inv: "mb_inv b" using 2 by (simp add: grown_def)
    have cnt: "unat (m_cMailCount b) = unat (m_cMailCount box) + length (filter visible [f])"
      using count_grown [OF 2(2) Cons.prems(1)] .
    show ?thesis
    proof (cases "dwMaxMsg = 0 \<or> m_cMailCount b \<noteq> dwMaxMsg")
      case True
      then have "dwMaxMsg = 0 \<or> unat (m_cMailCount b) < unat dwMaxMsg"
        using cnt Cons.prems(3) word_unat_eq_iff [of "m_cMailCount b" dwMaxMsg] by (auto split: if_splits)
      moreover have "unat (m_cMailCount b) + length fs < 2147483648"
        using cnt Cons.prems(2) by (auto split: if_splits)
      ultimately have IH:
        "(\<exists>c w' gs. Enumerate_loop api dwMaxMsg fs (b, w1) = Some (Inl (c, w')) \<and> grown gs b c) \<or>
         (\<exists>c w'. Enumerate_loop api dwMaxMsg fs (b, w1) = Some (Inr (c, w')) \<and>
            grown (listed dwMaxMsg (m_cMailCount b) fs) b c)"
        using Cons.IH [OF inv, of w1] by blast
      have l: "filter visible [f] @ listed dwMaxMsg (m_cMailCount b) fs
          = listed dwMaxMsg (m_cMailCount box) (f # fs)"
        using cnt Cons.prems(3) True word_unat_eq_iff [of "m_cMailCount b" dwMaxMsg]
        by (auto simp: listed_def Suc_diff_Suc take_Cons' split: if_splits)
      show ?thesis
        using IH grown_trans [OF 2(2)] l 2(1) True by auto metis+
    next
      case False
      then have "listed dwMaxMsg (m_cMailCount box) (f # fs) = filter visible [f]"
        using cnt Cons.prems(3) by (auto simp: listed_def split: if_splits)
      then show ?thesis using 2 False by auto
    qed
  qed
qed


lemma live_item_of [simp]: "live (item_of f)"
  by (simp add: live_def item_of_def NO_PENDING_OP_def DEL_PENDING_def)

lemma filter_live_items [simp]: "filter live (map item_of fs) = map item_of fs"
  by (induction fs) simp_all

text \<open>
  C13.  A fresh box that enumerates its directory: the call returns; when it reports success the box is
  well-formed and counted, and its mails are exactly the non-hidden entries of the directory in
  directory order (the first \<^verbatim>\<open>dwMaxMsg\<close> of them when a limit is given), none of them marked, with
  their names and sizes; path, lock and open flag are unchanged.  Also when it fails, the box stays
  well-formed.
\<close>

theorem EnumerateMailBox_lists_directory:
  assumes "mb_inv box" "m_cMailCount box = 0" "m_dwShowMailCount box = 0" "m_dwTotalSize box = 0"
    and entries: "length (fst (FindFirstFile api w (path_join (m_wszMailBoxPath box) (wide ''*.eml'')))) < 2147483648"
  shows "\<exists>ok b w'. EnumerateMailBox api dwMaxMsg (box, w) = Some (ok, b, w') \<and> mb_inv b \<and>
    m_hMailBoxLock b = m_hMailBoxLock box \<and> m_wszMailBoxPath b = m_wszMailBoxPath box \<and>
    m_bMailBoxOpened b = m_bMailBoxOpened box \<and>
    (ok \<longrightarrow> mb_counts b \<and>
       mails b = map item_of (listed dwMaxMsg 0
         (fst (FindFirstFile api w (path_join (m_wszMailBoxPath box) (wide ''*.eml''))))))"
proof -
  obtain fs w1 where fs: "FindFirstFile api w (path_join (m_wszMailBoxPath box) (wide ''*.eml'')) = (fs, w1)"
    by fastforce
  have ms: "mails box = []" using length_mails [OF assms(1)] assms(2) by simp
  show ?thesis
  proof (cases "fs = []")
    case True
    have same: "box\<lparr>m_cMailCount := 0\<rparr> = box" using assms(2) by simp
    have "mb_counts box" using ms assms(3,4) by (simp add: mb_counts_def)
    then show ?thesis
      using True fs assms(1) ms same by (auto simp: EnumerateMailBox_def listed_def)
  next
    case False
    have "dwMaxMsg = 0 \<or> unat (m_cMailCount box) < unat dwMaxMsg"
      using assms(2) by (auto simp: unat_gt_0)
    then consider b w' gs where "Enumerate_loop api dwMaxMsg fs (box, w1) = Some (Inl (b, w'))" "grown gs box b"
      | b w' where "Enumerate_loop api dwMaxMsg fs (box, w1) = Some (Inr (b, w'))"
          "grown (listed dwMaxMsg 0 fs) box b"
      using Enumerate_loop_spec [OF assms(1), of fs dwMaxMsg api w1] assms(2) entries fs by auto
    then show ?thesis
    proof cases
      case 1
      then show ?thesis using False fs by (auto simp: EnumerateMailBox_def grown_def same_place_def)
    next
      case (2 b w')
      have "mb_inv b" using 2(2) by (simp add: grown_def)
      then have "m_cMailCount b = of_nat (length (mails b))" by simp
      then have "mb_counts (b\<lparr>m_dwShowMailCount := m_cMailCount b\<rparr>)"
        using 2(2) ms assms(4) by (simp add: grown_def mb_counts_def o_def) (simp add: item_of_def)
      with 2 False fs ms show ?thesis
        by (auto simp: EnumerateMailBox_def grown_def same_place_def Let_def)
    qed
  qed
qed

theorem EnumerateMailBox_lists_directory_witness:
  "\<exists>ok b w'. EnumerateMailBox sim_api 0 (new_CMailBox\<lparr>m_wszMailBoxPath := wide ''d''\<rparr>,
      sim_start\<lparr>sim_files := [(path_join (wide ''d'') (wide ''P3_a.eml''), ''hello'')]\<rparr>) = Some (ok, b, w') \<and>
    mb_inv b \<and>
    m_hMailBoxLock b = m_hMailBoxLock (new_CMailBox\<lparr>m_wszMailBoxPath := wide ''d''\<rparr>) \<and>
    m_wszMailBoxPath b = m_wszMailBoxPath (new_CMailBox\<lparr>m_wszMailBoxPath := wide ''d''\<rparr>) \<and>
    m_bMailBoxOpened b = m_bMailBoxOpened (new_CMailBox\<lparr>m_wszMailBoxPath := wide ''d''\<rparr>) \<and>
    (ok \<longrightarrow> mb_counts b \<and> mails b = map item_of (listed 0 0
       (fst (FindFirstFile sim_api (sim_start\<lparr>sim_files := [(path_join (wide ''d'') (wide ''P3_a.eml''), ''hello'')]\<rparr>)
          (path_join (m_wszMailBoxPath (new_CMailBox\<lparr>m_wszMailBoxPath := wide ''d''\<rparr>)) (wide ''*.eml''))))))"
  by (rule EnumerateMailBox_lists_directory)
     (simp_all add: new_CMailBox_inv new_CMailBox_def sim_api_def sim_find_def sim_start_def
        path_join_def wide_def mb_inv_def sim_fail_def)

section \<open>Closing a mailbox\<close>

text \<open>
  Documented behaviour of the file system that the theorems on closing use: closing a handle removes
  no file, and \<^verbatim>\<open>DeleteFile\<close> removes the named file exactly when it reports success.
\<close>

definition fs_laws :: "'w win32 \<Rightarrow> ('w \<Rightarrow> wstring set) \<Rightarrow> bool" where
  "fs_laws api files \<longleftrightarrow>
     (\<forall>w h. files (snd (CloseHandle api w h)) = files w) \<and>
     (\<forall>w p. files (snd (DeleteFile api w p)) =
        (if fst (DeleteFile api w p) then files w - {p} else files w))"

definition marked_paths :: "wstring \<Rightarrow> MAIL_ITEM list \<Rightarrow> wstring set" where
  "marked_paths path ms = {path_join path (bstrFileName m) | m. m \<in> set ms \<and> \<not> live m}"

lemma marked_paths_Cons:
  "marked_paths path (m # ms) = (if live m then {} else {path_join path (bstrFileName m)}) \<union> marked_paths path ms"
  by (auto simp: marked_paths_def)

lemma marked_paths_Nil [simp]: "marked_paths path [] = {}"
  by (simp add: marked_paths_def)

text \<open>The loop as a fold over the mails.\<close>

lemma slot_at_other: "j \<noteq> i \<Longrightarrow> slot_at (set_slot i p box) j = slot_at box j"
  by (cases "m_MailVector box") (auto simp: slot_at_def set_slot_def peek_def)

lemma Commit_loop_fold:
  assumes "\<And>k. k < n \<Longrightarrow> slot_at box (i + k) = Some (Some (ms ! k))" "length ms = n"
  shows "\<exists>v. Commit_loop api i n box s =
    Some (fold (Commit_one api (m_wszMailBoxPath box)) ms s, box\<lparr>m_MailVector := v\<rparr>)"
  using assms
proof (induction n arbitrary: i box ms s)
  case 0
  then show ?case by (intro exI [of _ "m_MailVector box"]) simp
next
  case (Suc n)
  then obtain m ms' where ms: "ms = m # ms'" by (cases ms) auto
  have here: "slot_at box i = Some (Some m)" using Suc.prems(1) [of 0] ms by simp
  have "slot_at (set_slot i None box) (Suc i + k) = Some (Some (ms' ! k))" if "k < n" for k
    using Suc.prems(1) [of "Suc k"] that ms by (simp add: slot_at_other)
  then obtain v where "Commit_loop api (Suc i) n (set_slot i None box)
      (Commit_one api (m_wszMailBoxPath box) m s) =
    Some (fold (Commit_one api (m_wszMailBoxPath box)) ms' (Commit_one api (m_wszMailBoxPath box) m s),
      (set_slot i None box)\<lparr>m_MailVector := v\<rparr>)"
    using Suc.IH [of "set_slot i None box" "Suc i" ms' "Commit_one api (m_wszMailBoxPath box) m s"]
      Suc.prems(2) ms by auto
  then show ?case
    using here ms by (intro exI [of _ v]) (simp add: set_slot_def)
qed

lemma Commit_one_files:
  assumes "fs_laws api files" "Commit_one api path m (ok, w) = (ok', w')"
  shows "files w - marked_paths path [m] \<subseteq> files w'" "files w' \<subseteq> files w"
    "ok' \<Longrightarrow> ok \<and> files w' = files w - marked_paths path [m]"
proof -
  define w0 where "w0 = (if hFile m \<noteq> NULL_HANDLE then snd (CloseHandle api w (hFile m)) else w)"
  have w0: "files w0 = files w" using assms(1) by (simp add: w0_def fs_laws_def)
  let ?p = "path_join path (bstrFileName m)"
  have d: "files (snd (DeleteFile api w0 ?p)) =
      (if fst (DeleteFile api w0 ?p) then files w - {?p} else files w)"
    using assms(1) w0 unfolding fs_laws_def by metis
  have "files w - marked_paths path [m] \<subseteq> files w' \<and> files w' \<subseteq> files w \<and>
      (ok' \<longrightarrow> ok \<and> files w' = files w - marked_paths path [m])"
    using assms(2) d w0
    by (auto simp: Commit_one_def w0_def [symmetric] marked_paths_Cons live_def snprintf_def
        split: if_splits prod.splits)
  then show "files w - marked_paths path [m] \<subseteq> files w'" "files w' \<subseteq> files w"
    "ok' \<Longrightarrow> ok \<and> files w' = files w - marked_paths path [m]" by blast+
qed

lemma Commit_fold_files:
  assumes "fs_laws api files" "fold (Commit_one api path) ms (ok, w) = (ok', w')"
  shows "files w - marked_paths path ms \<subseteq> files w' \<and> files w' \<subseteq> files w \<and>
    (ok' \<longrightarrow> ok \<and> files w' = files w - marked_paths path ms)"
  using assms(2)
proof (induction ms arbitrary: ok w)
  case (Cons m ms)
  obtain ok1 w1 where one: "Commit_one api path m (ok, w) = (ok1, w1)" by fastforce
  note C = Commit_one_files [OF assms(1) one]
  have rest: "fold (Commit_one api path) ms (ok1, w1) = (ok', w')" using Cons.prems one by simp
  have un: "marked_paths path (m # ms) = marked_paths path [m] \<union> marked_paths path ms"
    by (simp add: marked_paths_Cons)
  show ?case using Cons.IH [OF rest] C unfolding un by blast
qed simp

text \<open>
  C12.  \<^verbatim>\<open>QUIT\<close> deletes exactly what was marked: on a well-formed box \<^verbatim>\<open>CommitAndClose\<close> returns, never
  removes a file that is not the file of a marked mail, and when it reports success the files of all
  marked mails are gone and nothing else is; the box is then empty with no lock held.
\<close>

theorem CommitAndClose_deletes_marked:
  assumes "mb_inv box" "fs_laws api files"
  shows "\<exists>ok b w'. CommitAndClose api (box, w) = Some (ok, b, w') \<and>
    b = new_CMailBox\<lparr>m_bMailBoxOpened := m_bMailBoxOpened box\<rparr> \<and>
    files w - marked_paths (m_wszMailBoxPath box) (mails box) \<subseteq> files w' \<and> files w' \<subseteq> files w \<and>
    (ok \<longrightarrow> files w' = files w - marked_paths (m_wszMailBoxPath box) (mails box))"
proof -
  obtain ok w1 where f: "fold (Commit_one api (m_wszMailBoxPath box)) (mails box) (True, w) = (ok, w1)"
    by fastforce
  obtain v where v: "Commit_loop api 0 (unat (m_cMailCount box)) box (True, w) =
      Some ((ok, w1), box\<lparr>m_MailVector := v\<rparr>)"
    using Commit_loop_fold [of "unat (m_cMailCount box)" box 0 "mails box" api "(True, w)"]
      slot_at_mails [OF assms(1)] assms(1) f by auto
  have cl: "files (snd (CloseHandle api x h)) = files x" for x h
    using assms(2) by (simp add: fs_laws_def)
  show ?thesis
    using Commit_fold_files [OF assms(2) f] v
    by (auto simp: CommitAndClose_def new_CMailBox_def cl Let_def)
qed

lemma sim_fs_laws: "fs_laws sim_api (\<lambda>w. fst ` set (sim_files w))"
  by (auto simp: fs_laws_def sim_api_def sim_close_def sim_delete_def sim_fail_def split: option.splits)

theorem CommitAndClose_deletes_marked_witness:
  "\<exists>ok b w'. CommitAndClose sim_api (set_slot 0 (Some ((demo_mail ''P3_a.eml'' 10)\<lparr>dwStatus := DEL_PENDING\<rparr>)) demo_box,
       sim_start\<lparr>sim_files := [(wide ''dP3_a.eml'', ''x'')]\<rparr>) = Some (ok, b, w') \<and>
    b = new_CMailBox\<lparr>m_bMailBoxOpened := m_bMailBoxOpened
      (set_slot 0 (Some ((demo_mail ''P3_a.eml'' 10)\<lparr>dwStatus := DEL_PENDING\<rparr>)) demo_box)\<rparr> \<and>
    fst ` set (sim_files (sim_start\<lparr>sim_files := [(wide ''dP3_a.eml'', ''x'')]\<rparr>)) -
      marked_paths (m_wszMailBoxPath (set_slot 0 (Some ((demo_mail ''P3_a.eml'' 10)\<lparr>dwStatus := DEL_PENDING\<rparr>)) demo_box))
        (mails (set_slot 0 (Some ((demo_mail ''P3_a.eml'' 10)\<lparr>dwStatus := DEL_PENDING\<rparr>)) demo_box))
      \<subseteq> fst ` set (sim_files w') \<and>
    fst ` set (sim_files w') \<subseteq> fst ` set (sim_files (sim_start\<lparr>sim_files := [(wide ''dP3_a.eml'', ''x'')]\<rparr>)) \<and>
    (ok \<longrightarrow> fst ` set (sim_files w') =
       fst ` set (sim_files (sim_start\<lparr>sim_files := [(wide ''dP3_a.eml'', ''x'')]\<rparr>)) -
       marked_paths (m_wszMailBoxPath (set_slot 0 (Some ((demo_mail ''P3_a.eml'' 10)\<lparr>dwStatus := DEL_PENDING\<rparr>)) demo_box))
        (mails (set_slot 0 (Some ((demo_mail ''P3_a.eml'' 10)\<lparr>dwStatus := DEL_PENDING\<rparr>)) demo_box)))"
  by (rule CommitAndClose_deletes_marked [OF set_slot_inv(1) [OF demo_box_inv(1)] sim_fs_laws])
     (simp add: demo_box_def)

lemma Quit_loop_files:
  assumes "\<And>w h. files (snd (CloseHandle api w h)) = files w"
    and "\<And>k. k < n \<Longrightarrow> slot_at box (i + k) \<noteq> None"
  shows "\<exists>w' v. Quit_loop api i n box w = Some (w', box\<lparr>m_MailVector := v\<rparr>) \<and> files w' = files w"
  using assms(2)
proof (induction n arbitrary: i box w)
  case 0
  then show ?case by (auto intro!: exI [of _ "m_MailVector box"])
next
  case (Suc n)
  obtain p where p: "slot_at box i = Some p" using Suc.prems [of 0] by auto
  have nxt: "slot_at (set_slot i q box) (Suc i + k) \<noteq> None" "slot_at box (Suc i + k) \<noteq> None"
    if "k < n" for k q
    using Suc.prems [of "Suc k"] that by (simp_all add: slot_at_other)
  show ?case
  proof (cases p)
    case None
    then show ?thesis using Suc.IH [of box "Suc i" w] nxt(2) p by auto
  next
    case (Some m)
    let ?w = "if hFile m \<noteq> NULL_HANDLE then snd (CloseHandle api w (hFile m)) else w"
    obtain w' v where "Quit_loop api (Suc i) n (set_slot i None box) ?w =
        Some (w', (set_slot i None box)\<lparr>m_MailVector := v\<rparr>)" "files w' = files ?w"
      using Suc.IH [of "set_slot i None box" "Suc i" ?w] nxt(1) by blast
    then show ?thesis using Some p assms(1) by (auto simp: set_slot_def)
  qed
qed

text \<open>
  A session that ends without \<^verbatim>\<open>QUIT\<close> deletes nothing: on a well-formed box \<^verbatim>\<open>QuitAndClose\<close>
  returns, whatever was marked every file is still there, and the box is empty with no lock held.
\<close>

theorem QuitAndClose_keeps_files:
  assumes "mb_inv box" "\<And>w h. files (snd (CloseHandle api w h)) = files w"
  shows "\<exists>w'. QuitAndClose api (box, w) = Some (new_CMailBox\<lparr>m_bMailBoxOpened := m_bMailBoxOpened box\<rparr>, w') \<and>
    files w' = files w"
proof -
  obtain w1 v where "Quit_loop api 0 (unat (m_cMailCount box)) box w = Some (w1, box\<lparr>m_MailVector := v\<rparr>)"
    "files w1 = files w"
    using Quit_loop_files [OF assms(2), of "unat (m_cMailCount box)" box 0 w] slot_at_mails [OF assms(1)] by auto
  then show ?thesis
    using assms(2) by (auto simp: QuitAndClose_def new_CMailBox_def Let_def)
qed

theorem QuitAndClose_keeps_files_witness:
  "\<exists>w'. QuitAndClose sim_api (demo_box, sim_start) =
     Some (new_CMailBox\<lparr>m_bMailBoxOpened := m_bMailBoxOpened demo_box\<rparr>, w') \<and>
     sim_files w' = sim_files sim_start"
  by (rule QuitAndClose_keeps_files [OF demo_box_inv(1)])
     (simp add: sim_api_def sim_close_def sim_fail_def split: option.split)

end
