(* ===== verification/Uuencode.thy ===== *)
theory Uuencode
  imports Pop3_Prelude
begin

text \<open>
  The printable encoding of authentication tokens, \<^verbatim>\<open>pop3/service/pop3svc/uuencode.cpp\<close>:
  the two tables, \<^verbatim>\<open>CheckBufferSize\<close>, \<^verbatim>\<open>BufferQueryPtr\<close>, \<^verbatim>\<open>uudecode\<close> and \<^verbatim>\<open>uuencode\<close> with their
  buffers, and the RFC 1113 encoding they are compared with.  The tables are indexed by a
  signed \<^verbatim>\<open>char\<close>, so a byte above 127 reads before the table: no value.
\<close>

section \<open>The code\<close>

record BUFFER =
  pBuf :: "BYTE list option"
  cLen :: DWORD

definition pr2six :: "BYTE list" where
  "pr2six = [
     64, 64, 64, 64, 64, 64, 64, 64, 64, 64, 64, 64, 64, 64, 64, 64, 64, 64, 64, 64, 64, 64, 64, 64,
     64, 64, 64, 64, 64, 64, 64, 64, 64, 64, 64, 64, 64, 64, 64, 64, 64, 64, 64, 62, 64, 64, 64, 63,
     52, 53, 54, 55, 56, 57, 58, 59, 60, 61, 64, 64, 64, 64, 64, 64, 64, 0, 1, 2, 3, 4, 5, 6,
     7, 8, 9, 10, 11, 12, 13, 14, 15, 16, 17, 18, 19, 20, 21, 22, 23, 24, 25, 64, 64, 64, 64, 64,
     64, 26, 27, 28, 29, 30, 31, 32, 33, 34, 35, 36, 37, 38, 39, 40, 41, 42, 43, 44, 45, 46, 47, 48,
     49, 50, 51, 64, 64, 64, 64, 64, 64, 64, 64, 64, 64, 64, 64, 64, 64, 64, 64, 64, 64, 64, 64, 64,
     64, 64, 64, 64, 64, 64, 64, 64, 64, 64, 64, 64, 64, 64, 64, 64, 64, 64, 64, 64, 64, 64, 64, 64,
     64, 64, 64, 64, 64, 64, 64, 64, 64, 64, 64, 64, 64, 64, 64, 64, 64, 64, 64, 64, 64, 64, 64, 64,
     64, 64, 64, 64, 64, 64, 64, 64, 64, 64, 64, 64, 64, 64, 64, 64, 64, 64, 64, 64, 64, 64, 64, 64,
     64, 64, 64, 64, 64, 64, 64, 64, 64, 64, 64, 64, 64, 64, 64, 64, 64, 64, 64, 64, 64, 64, 64, 64,
     64, 64, 64, 64, 64, 64, 64, 64, 64, 64, 64, 64, 64, 64, 64, 64]"

definition six2pr :: string where
  "six2pr = ''ABCDEFGHIJKLMNOPQRSTUVWXYZabcdefghijklmnopqrstuvwxyz0123456789+/''"

text \<open>\<^verbatim>\<open>pr2six[c]\<close> for a signed \<^verbatim>\<open>char\<close> index.\<close>

definition pr2six_at :: "char \<Rightarrow> BYTE option" where
  "pr2six_at c = (if (of_char c :: nat) < 128 then Some (pr2six ! of_char c) else None)"

definition BufferQueryPtr :: "BUFFER option \<Rightarrow> BYTE list option" where
  "BufferQueryPtr pB = (case pB of Some b \<Rightarrow> pBuf b | None \<Rightarrow> None)"

definition CheckBufferSize :: "BUFFER option \<Rightarrow> DWORD \<Rightarrow> bool" where
  "CheckBufferSize pB cNewL = (case pB of None \<Rightarrow> False | Some b \<Rightarrow> \<not> cNewL > cLen b)"

text \<open>\<^verbatim>\<open>while (pr2six[*(bufin++)] <= 63);\<close>: how many valid characters lead the text.\<close>

fun count_printable :: "char list \<Rightarrow> nat option" where
  "count_printable [] = None"
| "count_printable (c # s) = do {
     v \<leftarrow> pr2six_at c;
     if v \<le> 63 then do { n \<leftarrow> count_printable s; Some (Suc n) } else Some 0 }"

text \<open>The decoding loop: four characters to three bytes while \<^verbatim>\<open>nprbytes > 0\<close>.\<close>

fun uudecode_loop :: "nat \<Rightarrow> char list \<Rightarrow> BYTE list option" where
  "uudecode_loop 0 s = Some []"
| "uudecode_loop (Suc n) (c0 # c1 # c2 # c3 # s) = do {
     v0 \<leftarrow> pr2six_at c0; v1 \<leftarrow> pr2six_at c1; v2 \<leftarrow> pr2six_at c2; v3 \<leftarrow> pr2six_at c3;
     rest \<leftarrow> uudecode_loop (Suc n - 4) s;
     Some ((push_bit 2 v0 OR drop_bit 4 v1) # (push_bit 4 v1 OR drop_bit 2 v2)
           # (push_bit 6 v2 OR v3) # rest) }"
| "uudecode_loop (Suc n) _ = None"

definition uudecode ::
  "char list option \<Rightarrow> BUFFER option \<Rightarrow> DWORD option \<Rightarrow>
   (bool \<times> BUFFER option \<times> DWORD option) option" where
  "uudecode bufcoded pbuffdecoded pcbDecoded =
     (case (bufcoded, pbuffdecoded, pcbDecoded) of
        (Some coded, Some buff, Some cb) \<Rightarrow> do {
          let bufin = dropWhile (\<lambda>c. c = CHR '' '' \<or> c = CHR 0x09) coded;
          nprbytes \<leftarrow> count_printable bufin;
          let nbytesdecoded = ((nprbytes + 3) div 4) * 3;
          if \<not> CheckBufferSize pbuffdecoded (of_nat (nbytesdecoded + 4))
          then Some (False, pbuffdecoded, pcbDecoded)
          else (case BufferQueryPtr pbuffdecoded of
             None \<Rightarrow> Some (False, pbuffdecoded, pcbDecoded)
           | Some mem \<Rightarrow> do {
               out \<leftarrow> uudecode_loop nprbytes bufin;
               mem1 \<leftarrow> poke mem 0 out;
               n \<leftarrow> (if nprbytes mod 4 \<noteq> 0 then do {
                       c \<leftarrow> peek bufin (4 * ((nprbytes + 3) div 4) - 2);
                       v \<leftarrow> pr2six_at c;
                       Some (if v > 63 then nbytesdecoded - 2 else nbytesdecoded - 1) }
                     else Some nbytesdecoded);
               mem2 \<leftarrow> poke mem1 n [0];
               Some (True, Some (buff\<lparr>pBuf := Some mem2\<rparr>), Some (of_nat n)) }) }
      | _ \<Rightarrow> Some (False, pbuffdecoded, pcbDecoded))"

text \<open>The four output characters of one group of three bytes.\<close>

definition uu_c1 :: "BYTE \<Rightarrow> BYTE" where
  "uu_c1 a = drop_bit 2 a"

definition uu_c2 :: "BYTE \<Rightarrow> BYTE \<Rightarrow> BYTE" where
  "uu_c2 a b = (push_bit 4 a AND 48) OR (drop_bit 4 b AND 15)"

definition uu_c3 :: "BYTE \<Rightarrow> BYTE \<Rightarrow> BYTE" where
  "uu_c3 b c = (push_bit 2 b AND 60) OR (drop_bit 6 c AND 3)"

definition uu_c4 :: "BYTE \<Rightarrow> BYTE" where
  "uu_c4 c = c AND 63"

definition uuencode_group :: "BYTE \<Rightarrow> BYTE \<Rightarrow> BYTE \<Rightarrow> string" where
  "uuencode_group a b c =
     [six2pr ! unat (uu_c1 a), six2pr ! unat (uu_c2 a b),
      six2pr ! unat (uu_c3 b c), six2pr ! unat (uu_c4 c)]"

text \<open>\<^verbatim>\<open>for (i = 0; i < nbytes; i += 3)\<close>: the characters written and the final \<^verbatim>\<open>i\<close>.\<close>

fun uuencode_loop :: "DWORD \<Rightarrow> DWORD \<Rightarrow> BYTE list \<Rightarrow> (string \<times> DWORD) option" where
  "uuencode_loop i nbytes (a # b # c # s) =
     (if i < nbytes then do {
        (out, i') \<leftarrow> uuencode_loop (i + 3) nbytes s;
        Some (uuencode_group a b c @ out, i') }
      else Some ([], i))"
| "uuencode_loop i nbytes _ = (if i < nbytes then None else Some ([], i))"

definition uuencode :: "BYTE list option \<Rightarrow> DWORD \<Rightarrow> BUFFER option \<Rightarrow> (bool \<times> BUFFER option) option" where
  "uuencode bufin nbytes pbuffEncoded =
     (case (bufin, pbuffEncoded) of
        (Some inp, Some buff) \<Rightarrow>
          (if \<not> CheckBufferSize pbuffEncoded (nbytes + ((nbytes + 3) div 3) + 4)
           then Some (False, pbuffEncoded)
           else (case BufferQueryPtr pbuffEncoded of
              None \<Rightarrow> Some (False, pbuffEncoded)
            | Some mem \<Rightarrow> do {
                (out, i) \<leftarrow> uuencode_loop 0 nbytes inp;
                let out' = (if i = nbytes + 1 then take (length out - 1) out @ ''=''
                            else if i = nbytes + 2 then take (length out - 2) out @ ''==''
                            else out);
                mem' \<leftarrow> poke mem 0 (map of_char (out' @ [NUL]));
                Some (True, Some (buff\<lparr>pBuf := Some mem'\<rparr>)) }))
      | _ \<Rightarrow> Some (False, pbuffEncoded))"

section \<open>Bits\<close>

lemma byte_eqI:
  assumes "bit a 0 = bit b 0" "bit a 1 = bit b 1" "bit a 2 = bit b 2" "bit a 3 = bit b 3"
    "bit a 4 = bit b 4" "bit a 5 = bit b 5" "bit a 6 = bit b 6" "bit a 7 = bit b 7"
  shows "(a :: BYTE) = b"
proof (rule bit_word_eqI)
  fix n assume "n < LENGTH(8)"
  then have "n < 8" by simp
  then consider "n = 0" | "n = 1" | "n = 2" | "n = 3" | "n = 4" | "n = 5" | "n = 6" | "n = 7"
    by linarith
  then show "bit a n = bit b n" using assms by cases simp_all
qed

lemma bit_byte_beyond [simp]: "8 \<le> n \<Longrightarrow> \<not> bit (a :: BYTE) n"
  by (auto dest: bit_imp_le_length)

lemma uu_join [simp]:
  "push_bit 2 (uu_c1 a) OR drop_bit 4 (uu_c2 a b) = a"
  "push_bit 4 (uu_c2 a b) OR drop_bit 2 (uu_c3 b c) = b"
  "push_bit 6 (uu_c3 b c) OR uu_c4 c = c"
  unfolding uu_c1_def uu_c2_def uu_c3_def uu_c4_def
  by (rule byte_eqI; simp add: bit_simps)+

lemma uu_bound [simp]:
  "uu_c1 a \<le> 63" "uu_c2 a b \<le> 63" "uu_c3 b c \<le> 63" "uu_c4 c \<le> 63"
proof -
  have le: "v \<le> 63" if "v AND 63 = v" for v :: BYTE
    using that word_and_le1 [of v 63] by simp
  show "uu_c1 a \<le> 63" "uu_c2 a b \<le> 63" "uu_c3 b c \<le> 63" "uu_c4 c \<le> 63"
    unfolding uu_c1_def uu_c2_def uu_c3_def uu_c4_def
    by (rule le, rule byte_eqI; simp add: bit_simps)+
qed

lemma pr2six_six2pr [simp]:
  assumes "v \<le> 63"
  shows "pr2six_at (six2pr ! unat v) = Some v"
proof -
  have all: "\<forall>k\<in>set [0..<64]. pr2six_at (six2pr ! k) = Some (of_nat k)"
    by (simp add: pr2six_at_def six2pr_def pr2six_def upt_conv_Cons)
  have "unat v < 64" using assms by (simp add: word_le_nat_alt)
  then show ?thesis using all by force
qed

lemma pr2six_special [simp]:
  "pr2six_at (CHR ''='') = Some 64" "pr2six_at NUL = Some 64"
  by (simp_all add: pr2six_at_def pr2six_def)

fun rfc1113 :: "BYTE \<Rightarrow> BYTE \<Rightarrow> BYTE list \<Rightarrow> string" where
  "rfc1113 p q [] = []"
| "rfc1113 p q [a] = take 2 (uuencode_group a p q) @ ''==''"
| "rfc1113 p q [a, b] = take 3 (uuencode_group a b p) @ ''=''"
| "rfc1113 p q (a # b # c # s) = uuencode_group a b c @ rfc1113 p q s"

text \<open>The text before the padding characters are put in: whole groups only.\<close>

fun groups :: "BYTE \<Rightarrow> BYTE \<Rightarrow> BYTE list \<Rightarrow> string" where
  "groups p q [] = []"
| "groups p q [a] = uuencode_group a p q"
| "groups p q [a, b] = uuencode_group a b p"
| "groups p q (a # b # c # s) = uuencode_group a b c @ groups p q s"

lemma length_uuencode_group [simp]: "length (uuencode_group a b c) = 4"
  by (simp add: uuencode_group_def)

lemma div3_step [simp]: "(5 + n) div 3 = Suc (Suc (Suc n) div (3::nat))"
  by arith

lemma length_groups: "length (groups p q bs) = 4 * ((length bs + 2) div 3)"
  by (induction p q bs rule: groups.induct) auto

lemma length_rfc1113: "length (rfc1113 p q bs) = 4 * ((length bs + 2) div 3)"
  by (induction p q bs rule: rfc1113.induct) auto

lemma rfc1113_groups:
  "rfc1113 p q bs =
     (if length bs mod 3 = 2 then take (length (groups p q bs) - 1) (groups p q bs) @ ''=''
      else if length bs mod 3 = 1 then take (length (groups p q bs) - 2) (groups p q bs) @ ''==''
      else groups p q bs)"
proof (induction p q bs rule: groups.induct)
  case (4 p q a b c s)
  have "s \<noteq> [] \<Longrightarrow> 4 \<le> length (groups p q s)"
    by (cases s) (simp_all add: length_groups)
  with 4 show ?case
    by (cases "s = []") (auto simp: mod_Suc)
qed (simp_all add: uuencode_group_def)

lemma uuencode_loop_end: "\<not> i < n \<Longrightarrow> uuencode_loop i n s = Some ([], i)"
  by (cases "(i, n, s)" rule: uuencode_loop.cases) auto

lemma uuencode_loop_step:
  "k < n \<Longrightarrow> n < 4294967296 \<Longrightarrow>
   uuencode_loop (of_nat k) (of_nat n) (a # b # c # s) =
     do { (out, i') \<leftarrow> uuencode_loop (of_nat (k + 3)) (of_nat n) s;
          Some (uuencode_group a b c @ out, i') }"
  using dword_of_nat_less [of k n] by (simp add: add.commute)

declare uuencode_loop.simps [simp del]

lemma uuencode_loop_eq:
  "k + length bs + 3 < 4294967296 \<Longrightarrow> n = k + length bs \<Longrightarrow>
   uuencode_loop (of_nat k) (of_nat n) (bs @ p # q # rest)
     = Some (groups p q bs, of_nat (k + 3 * ((length bs + 2) div 3)))"
proof (induction p q bs arbitrary: k rule: groups.induct)
  case (1 p q)
  then show ?case by (simp add: uuencode_loop_end)
next
  case (2 p q a)
  then have "\<not> (of_nat (k + 3) :: DWORD) < of_nat n"
    by (subst dword_of_nat_less) auto
  with 2 show ?case
    by (simp add: uuencode_loop_step uuencode_loop_end del: of_nat_add of_nat_Suc)
next
  case (3 p q a b)
  then have "\<not> (of_nat (k + 3) :: DWORD) < of_nat n"
    by (subst dword_of_nat_less) auto
  with 3 show ?case
    by (simp add: uuencode_loop_step uuencode_loop_end del: of_nat_add of_nat_Suc)
next
  case (4 p q a b c s)
  have "uuencode_loop (of_nat (k + 3)) (of_nat n) (s @ p # q # rest)
     = Some (groups p q s, of_nat (k + 3 + 3 * ((length s + 2) div 3)))"
    by (rule "4.IH") (use "4.prems" in simp_all)
  with "4.prems" show ?case
    by (simp add: uuencode_loop_step add.assoc del: of_nat_add of_nat_Suc of_nat_mult)
qed

lemma uuencode_size_check:
  assumes "n + (n + 3) div 3 + 4 < 4294967296"
  shows "unat (of_nat n + ((of_nat n + 3) div 3) + 4 :: DWORD) = n + (n + 3) div 3 + 4"
proof -
  have "n + 3 < 4294967296" using assms by linarith
  then have u: "unat (of_nat (n + 3) :: DWORD) = n + 3"
    by (rule unat_dword_of_nat)
  have d: "(of_nat n + 3 :: DWORD) div 3 = of_nat ((n + 3) div 3)"
    by (subst word_arith_nat_div) (use u in simp)
  have "(of_nat n + ((of_nat n + 3) div 3) + 4 :: DWORD) = of_nat (n + (n + 3) div 3 + 4)"
    by (simp only: d of_nat_add of_nat_numeral)
  then show ?thesis
    using assms by (simp only: unat_dword_of_nat)
qed

text \<open>
  \<^verbatim>\<open>uuencode\<close> on a buffer that holds the data and at least two more bytes: it refuses when the
  output buffer is declared too small, and else writes the text and its NUL.
\<close>

lemma uuencode_eq:
  assumes small: "length bs + (length bs + 3) div 3 + 4 < 4294967296"
    and mem: "pBuf buff = Some mem" "length mem = unat (cLen buff)"
  shows "uuencode (Some (bs @ p # q # rest)) (of_nat (length bs)) (Some buff) =
    (if length bs + (length bs + 3) div 3 + 4 \<le> length mem
     then Some (True, Some (buff\<lparr>pBuf := Some (map of_char (rfc1113 p q bs @ [NUL])
            @ drop (length (rfc1113 p q bs) + 1) mem)\<rparr>))
     else Some (False, Some buff))"
proof -
  let ?n = "length bs"
  have chk: "CheckBufferSize (Some buff) (of_nat ?n + ((of_nat ?n + 3) div 3) + 4)
       \<longleftrightarrow> ?n + (?n + 3) div 3 + 4 \<le> length mem"
    using uuencode_size_check [OF small] mem
    by (simp add: CheckBufferSize_def word_le_nat_alt not_less)
  have loop: "uuencode_loop 0 (of_nat ?n) (bs @ p # q # rest)
      = Some (groups p q bs, of_nat (3 * ((?n + 2) div 3)))"
    using uuencode_loop_eq [of 0 bs ?n p q rest] small by simp
  have b: "3 * ((?n + 2) div 3) < 4294967296" "?n + 1 < 4294967296" "?n + 2 < 4294967296"
    using small by linarith+
  have "3 * ((?n + 2) div 3) = ?n + 1 \<longleftrightarrow> ?n mod 3 = 2" by presburger
  then have i1: "of_nat (3 * ((?n + 2) div 3)) = (of_nat ?n + 1 :: DWORD) \<longleftrightarrow> ?n mod 3 = 2"
    using dword_of_nat_eq [OF b(1) b(2)] by (simp only: of_nat_add of_nat_1)
  have "3 * ((?n + 2) div 3) = ?n + 2 \<longleftrightarrow> ?n mod 3 = 1" by presburger
  then have i2: "of_nat (3 * ((?n + 2) div 3)) = (of_nat ?n + 2 :: DWORD) \<longleftrightarrow> ?n mod 3 = 1"
    using dword_of_nat_eq [OF b(1) b(3)] by (simp only: of_nat_add of_nat_numeral)
  have fits: "length (rfc1113 p q bs) + 1 \<le> length mem" if "?n + (?n + 3) div 3 + 4 \<le> length mem"
    using that by (simp add: length_rfc1113)
  show ?thesis
    unfolding uuencode_def
    using chk loop i1 i2 fits mem rfc1113_groups [of p q bs]
    by (auto simp: BufferQueryPtr_def poke_Some)
qed


section \<open>Decoding the printable encoding\<close>

lemma count_printable_rfc1113:
  "count_printable (rfc1113 p q bs @ NUL # tail) = Some ((4 * length bs + 2) div 3)"
  by (induction p q bs rule: rfc1113.induct) (simp_all add: uuencode_group_def)

lemma uudecode_loop_pos:
  "0 < n \<Longrightarrow> uudecode_loop n (c0 # c1 # c2 # c3 # s) = do {
     v0 \<leftarrow> pr2six_at c0; v1 \<leftarrow> pr2six_at c1; v2 \<leftarrow> pr2six_at c2; v3 \<leftarrow> pr2six_at c3;
     rest \<leftarrow> uudecode_loop (n - 4) s;
     Some ((push_bit 2 v0 OR drop_bit 4 v1) # (push_bit 4 v1 OR drop_bit 2 v2)
           # (push_bit 6 v2 OR v3) # rest) }"
  by (cases n) simp_all

lemma uudecode_loop_rfc1113:
  "\<exists>junk. uudecode_loop ((4 * length bs + 2) div 3) (rfc1113 p q bs @ tail) = Some (bs @ junk)
     \<and> length bs + length junk = 3 * ((length bs + 2) div 3)"
proof (induction p q bs rule: rfc1113.induct)
  case (4 p q a b c s)
  have n: "(4 * length (a # b # c # s) + 2) div 3 = Suc (Suc (Suc (Suc ((4 * length s + 2) div 3))))"
    by simp
  from "4.IH" obtain junk where j:
    "uudecode_loop ((4 * length s + 2) div 3) (rfc1113 p q s @ tail) = Some (s @ junk)"
    "length s + length junk = 3 * ((length s + 2) div 3)" by blast
  have "uudecode_loop ((4 * length (a # b # c # s) + 2) div 3) (rfc1113 p q (a # b # c # s) @ tail)
      = Some ((a # b # c # s) @ junk)"
    using j(1) unfolding n by (simp add: uuencode_group_def)
  moreover have "length (a # b # c # s) + length junk = 3 * ((length (a # b # c # s) + 2) div 3)"
    using j(2) by simp
  ultimately show ?case by blast
qed (simp_all add: uuencode_group_def uudecode_loop_pos)

lemma rfc1113_third:
  "length bs mod 3 \<noteq> 0 \<Longrightarrow>
   \<exists>v. pr2six_at (rfc1113 p q bs ! (4 * ((length bs + 2) div 3) - 2)) = Some v
     \<and> (v > 63 \<longleftrightarrow> length bs mod 3 = 1)"
proof (induction p q bs rule: rfc1113.induct)
  case (4 p q a b c s)
  then have s: "length s mod 3 \<noteq> 0" by (simp add: mod_Suc split: if_splits)
  then have "1 \<le> (length s + 2) div 3" by (cases s) simp_all
  then have "4 * ((length (a # b # c # s) + 2) div 3) - 2
      = length (uuencode_group a b c) + (4 * ((length s + 2) div 3) - 2)"
    by simp
  then have "rfc1113 p q (a # b # c # s) ! (4 * ((length (a # b # c # s) + 2) div 3) - 2)
      = rfc1113 p q s ! (4 * ((length s + 2) div 3) - 2)"
    by (simp only: rfc1113.simps nth_append_length_plus)
  moreover have "length (a # b # c # s) mod 3 = length s mod 3"
    by (simp add: mod_Suc) presburger
  ultimately show ?case using "4.IH" [OF s] by (simp only:)
qed (simp_all add: uuencode_group_def not_less)

lemma pr2six_blank: "pr2six_at (CHR '' '') = Some 64" "pr2six_at (CHR 0x09) = Some 64"
  by (simp_all add: pr2six_at_def pr2six_def)

lemma six2pr_not_blank:
  assumes "v \<le> (63 :: BYTE)"
  shows "six2pr ! unat v \<noteq> CHR '' '' \<and> six2pr ! unat v \<noteq> CHR 0x09"
proof -
  have "v \<noteq> 64" using assms by auto
  moreover have "pr2six_at (six2pr ! unat v) = Some v" using assms by (rule pr2six_six2pr)
  ultimately show ?thesis using pr2six_blank by (metis option.inject)
qed

lemma rfc1113_no_nul: "NUL \<notin> set (rfc1113 p q bs)"
proof -
  have n: "six2pr ! unat v \<noteq> NUL" if "v \<le> 63" for v :: BYTE
  proof
    assume "six2pr ! unat v = NUL"
    then have "v = 64" using pr2six_six2pr [OF that] pr2six_special(2) by simp
    with that show False by auto
  qed
  show ?thesis
    by (induction p q bs rule: rfc1113.induct) (simp_all add: uuencode_group_def n n [symmetric])
qed

lemma rfc1113_not_blank:
  "dropWhile (\<lambda>c. c = CHR '' '' \<or> c = CHR 0x09) (rfc1113 p q bs @ NUL # tail)
     = rfc1113 p q bs @ NUL # tail"
  by (cases "(p, q, bs)" rule: rfc1113.cases) (simp_all add: uuencode_group_def six2pr_not_blank)

lemma quartet_arith:
  fixes n :: nat
  shows "((4 * n + 2) div 3 + 3) div 4 = (n + 2) div 3
    \<and> ((4 * n + 2) div 3 mod 4 = 0 \<longleftrightarrow> n mod 3 = 0)"
proof -
  define k where "k = n div 3"
  have "n mod 3 < 3" by simp
  then consider "n = 3 * k" | "n = 3 * k + 1" | "n = 3 * k + 2"
    unfolding k_def by linarith
  then show ?thesis
  proof cases
    case 1
    then have "(4 * n + 2) div 3 = 4 * k" by simp
    with 1 show ?thesis by simp
  next
    case 2
    then have "(4 * n + 2) div 3 = 4 * k + 2" by simp
    moreover have "(4 * k + 2) mod 4 = 2" by presburger
    ultimately show ?thesis using 2 by simp
  next
    case 3
    then have "(4 * n + 2) div 3 = 4 * k + 3" by simp
    moreover have "(4 * k + 3) mod 4 = 3" "(3 * k + 2) mod 3 = 2" by presburger+
    ultimately show ?thesis using 3 by simp
  qed
qed

lemma uudecode_eq:
  assumes small: "length bs < 2147483648"
    and mem: "pBuf buff = Some mem" "length mem = unat (cLen buff)"
    and room: "3 * ((length bs + 2) div 3) + 4 \<le> length mem"
  shows "\<exists>mem'. uudecode (Some (rfc1113 p q bs @ NUL # tail)) (Some buff) (Some cb) =
      Some (True, Some (buff\<lparr>pBuf := Some mem'\<rparr>), Some (of_nat (length bs)))
    \<and> take (length bs) mem' = bs \<and> mem' ! length bs = 0 \<and> length mem' = length mem"
proof -
  define n G N coded where "n = length bs" and "G = (n + 2) div 3" and "N = (4 * n + 2) div 3"
    and "coded = rfc1113 p q bs @ NUL # tail"
  have npr: "(N + 3) div 4 = G"
    unfolding N_def G_def by (rule quartet_arith [THEN conjunct1])
  have nmod: "N mod 4 = 0 \<longleftrightarrow> n mod 3 = 0"
    unfolding N_def by (rule quartet_arith [THEN conjunct2])
  have count: "count_printable coded = Some N"
    unfolding coded_def N_def n_def by (rule count_printable_rfc1113)
  have skip: "dropWhile (\<lambda>c. c = CHR '' '' \<or> c = CHR 0x09) coded = coded"
    unfolding coded_def by (rule rfc1113_not_blank)
  have room': "3 * G + 4 \<le> length mem" using room by (simp add: G_def n_def)
  have chk: "CheckBufferSize (Some buff) (of_nat (G * 3 + 4))"
  proof -
    have "G * 3 + 4 < 4294967296" using small by (simp add: G_def n_def)
    then have "unat (of_nat (G * 3 + 4) :: DWORD) = G * 3 + 4" by (rule unat_dword_of_nat)
    then show ?thesis
      using mem room' by (simp add: CheckBufferSize_def word_le_nat_alt not_less mult.commute)
  qed
  obtain junk where junk: "uudecode_loop N coded = Some (bs @ junk)" "n + length junk = 3 * G"
    using uudecode_loop_rfc1113 [of bs p q "NUL # tail"]
    by (auto simp: N_def n_def G_def coded_def)
  define mem1 where "mem1 = bs @ junk @ drop (n + length junk) mem"
  have p1: "poke mem 0 (bs @ junk) = Some mem1" and len1: "length mem1 = length mem"
    using room' junk(2) by (simp_all add: poke_def mem1_def n_def)
  define mem2 where "mem2 = take n mem1 @ [0] @ drop (n + 1) mem1"
  have "n + 1 \<le> length mem1" using room' junk(2) len1 by linarith
  then have p2: "poke mem1 n [0] = Some mem2"
    by (simp add: poke_def mem2_def)
  have cnt: "(if N mod 4 \<noteq> 0 then do {
      c \<leftarrow> peek coded (4 * G - 2); v \<leftarrow> pr2six_at c;
      Some (if v > 63 then G * 3 - 2 else G * 3 - 1) } else Some (G * 3)) = Some n"
  proof (cases "n mod 3 = 0")
    case True
    then have "G * 3 = n" unfolding G_def by presburger
    with True nmod show ?thesis by simp
  next
    case False
    then obtain v where v: "pr2six_at (rfc1113 p q bs ! (4 * G - 2)) = Some v"
      "v > 63 \<longleftrightarrow> n mod 3 = 1" using rfc1113_third [of bs p q] unfolding G_def n_def by blast
    have "0 < G" using False by (cases n) (simp_all add: G_def)
    then have "4 * G - 2 < length (rfc1113 p q bs)"
      by (simp add: length_rfc1113 G_def n_def)
    then have "peek coded (4 * G - 2) = Some (rfc1113 p q bs ! (4 * G - 2))"
      by (simp add: coded_def nth_append)
    moreover have "n mod 3 = 1 \<Longrightarrow> G * 3 - 2 = n"
      "n mod 3 \<noteq> 1 \<Longrightarrow> n mod 3 \<noteq> 0 \<Longrightarrow> G * 3 - 1 = n" unfolding G_def by presburger+
    ultimately show ?thesis using v False nmod by (cases "n mod 3 = 1") simp_all
  qed
  have "uudecode (Some coded) (Some buff) (Some cb) =
      Some (True, Some (buff\<lparr>pBuf := Some mem2\<rparr>), Some (of_nat n))"
    unfolding uudecode_def prod.case option.case Let_def skip count bind.bind_lunit npr
    using chk mem(1) junk(1) p1 p2 cnt by (simp add: BufferQueryPtr_def)
  moreover have "take n mem2 = bs" "mem2 ! n = 0" "length mem2 = length mem"
    using \<open>n + 1 \<le> length mem1\<close> len1 by (simp_all add: mem2_def mem1_def n_def nth_append)
  ultimately show ?thesis unfolding coded_def n_def by blast
qed


section \<open>What the codec promises\<close>

text \<open>The bytes of a buffer read as characters, as the other side of the socket does.\<close>

definition text_of :: "BYTE list \<Rightarrow> string" where
  "text_of bs = map (\<lambda>b. char_of (unat b)) bs"

lemma text_of_of_char [simp]: "text_of (map of_char s) = s"
  by (induction s) (simp_all add: text_of_def)

lemma text_of_append [simp]: "text_of (a @ b) = text_of a @ text_of b"
  by (simp add: text_of_def)

text \<open>
  C4.  Encoding any token and decoding the text gives the token back: \<^verbatim>\<open>uudecode\<close> on the contents
  of the buffer that \<^verbatim>\<open>uuencode\<close> filled reports success, the original length and the original
  bytes followed by a NUL, whatever the two bytes behind the token are and whatever the buffers held,
  as long as both buffers have the size the code asks for.
\<close>

theorem uuencode_uudecode_roundtrip:
  assumes small: "length bs < 2147483648"
    and enc: "pBuf ebuf = Some emem" "length emem = unat (cLen ebuf)"
      "length bs + (length bs + 3) div 3 + 4 \<le> length emem"
    and dec: "pBuf dbuf = Some dmem" "length dmem = unat (cLen dbuf)"
      "3 * ((length bs + 2) div 3) + 4 \<le> length dmem"
  shows "\<exists>coded decoded.
     uuencode (Some (bs @ p # q # rest)) (of_nat (length bs)) (Some ebuf)
       = Some (True, Some (ebuf\<lparr>pBuf := Some coded\<rparr>)) \<and>
     uudecode (Some (text_of coded)) (Some dbuf) (Some cb)
       = Some (True, Some (dbuf\<lparr>pBuf := Some decoded\<rparr>), Some (of_nat (length bs))) \<and>
     take (length bs) decoded = bs \<and> decoded ! length bs = 0 \<and> length decoded = length dmem"
proof -
  define coded where "coded = map of_char (rfc1113 p q bs @ [NUL])
    @ drop (length (rfc1113 p q bs) + 1) emem"
  have "uuencode (Some (bs @ p # q # rest)) (of_nat (length bs)) (Some ebuf)
       = Some (True, Some (ebuf\<lparr>pBuf := Some coded\<rparr>))"
    using uuencode_eq [OF _ enc(1,2), of bs p q rest] small enc(3) by (simp add: coded_def)
  moreover have "text_of coded = rfc1113 p q bs @ NUL # text_of (drop (length (rfc1113 p q bs) + 1) emem)"
    by (simp only: coded_def text_of_append text_of_of_char append_assoc append_Cons append_Nil)
  ultimately show ?thesis
    using uudecode_eq [OF small dec] by metis
qed

theorem uuencode_uudecode_roundtrip_witness:
  "\<exists>coded decoded.
     uuencode (Some ([1, 2, 255, 7] @ 9 # 8 # [])) (of_nat (length [1, 2, 255, 7 :: BYTE]))
         (Some \<lparr>pBuf = Some (replicate 16 0), cLen = 16\<rparr>)
       = Some (True, Some \<lparr>pBuf = Some coded, cLen = 16\<rparr>) \<and>
     uudecode (Some (text_of coded)) (Some \<lparr>pBuf = Some (replicate 12 0), cLen = 12\<rparr>) (Some 0)
       = Some (True, Some \<lparr>pBuf = Some decoded, cLen = 12\<rparr>, Some (of_nat (length [1, 2, 255, 7 :: BYTE]))) \<and>
     take (length [1, 2, 255, 7 :: BYTE]) decoded = [1, 2, 255, 7] \<and>
     decoded ! length [1, 2, 255, 7 :: BYTE] = 0 \<and> length decoded = length (replicate 12 (0 :: BYTE))"
  using uuencode_uudecode_roundtrip [of "[1, 2, 255, 7]" "\<lparr>pBuf = Some (replicate 16 0), cLen = 16\<rparr>"
      "replicate 16 0" "\<lparr>pBuf = Some (replicate 12 0), cLen = 12\<rparr>" "replicate 12 0" 9 8 "[]" 0]
  by simp

text \<open>Text that stays inside the first half of the table.\<close>

lemma pr2six_at_ascii: "(of_char c :: nat) < 128 \<Longrightarrow> pr2six_at c = Some (pr2six ! of_char c)"
  by (simp add: pr2six_at_def)

lemma count_printable_ascii:
  assumes "\<forall>c \<in> set s. (of_char c :: nat) < 128"
  shows "\<exists>n \<le> length s. count_printable (s @ NUL # rest) = Some n"
  using assms
proof (induction s)
  case Nil
  then show ?case by simp
next
  case (Cons c s)
  then obtain n where n: "n \<le> length s" "count_printable (s @ NUL # rest) = Some n" by auto
  have "pr2six_at c = Some (pr2six ! of_char c)"
    using Cons.prems by (simp add: pr2six_at_ascii)
  then show ?case
    using n by (cases "pr2six ! of_char c \<le> (63 :: BYTE)") (auto intro: exI [of _ "Suc n"])
qed

lemma uudecode_loop_ascii:
  assumes "\<forall>c \<in> set s. (of_char c :: nat) < 128" "4 * ((n + 3) div 4) \<le> length s"
  shows "\<exists>out. uudecode_loop n s = Some out \<and> length out = 3 * ((n + 3) div 4)"
  using assms
proof (induction n s rule: uudecode_loop.induct)
  case (2 n c0 c1 c2 c3 s)
  have g: "(Suc n + 3) div 4 = Suc ((Suc n - 4 + 3) div 4)" by arith
  then obtain out where "uudecode_loop (Suc n - 4) s = Some out"
    "length out = 3 * ((Suc n - 4 + 3) div 4)"
    using 2 by (auto simp: pr2six_at_ascii) blast
  then show ?case using "2.prems" g by (auto simp: pr2six_at_ascii)
qed (simp; presburger?)+

lemma uudecode_loop_append:
  "uudecode_loop n s = Some out \<Longrightarrow> uudecode_loop n (s @ rest) = Some out"
  by (induction n s arbitrary: out rule: uudecode_loop.induct) (auto split: bind_splits)

lemma decoded_length_ascii:
  assumes ascii: "\<forall>c \<in> set (t @ [NUL, a, b]). (of_char c :: nat) < 128" and N: "N \<le> length t"
  shows "\<exists>n \<le> 3 * ((N + 3) div 4). (if N mod 4 \<noteq> 0 then do {
      c \<leftarrow> peek ((t @ [NUL, a, b]) @ rest) (4 * ((N + 3) div 4) - 2); v \<leftarrow> pr2six_at c;
      Some (if v > 63 then (N + 3) div 4 * 3 - 2 else (N + 3) div 4 * 3 - 1) }
      else Some ((N + 3) div 4 * 3)) = Some n"
proof (cases "N mod 4 = 0")
  case False
  let ?i = "4 * ((N + 3) div 4) - 2" and ?u = "t @ [NUL, a, b]"
  have "0 < N" using False by (cases N) auto
  then have i: "?i < length ?u" using N by simp
  then have "?u ! ?i \<in> set ?u" by (rule nth_mem)
  then have "pr2six_at (?u ! ?i) = Some (pr2six ! of_char (?u ! ?i))"
    using ascii pr2six_at_ascii by blast
  moreover have "peek (?u @ rest) ?i = Some (?u ! ?i)"
    using i unfolding peek_def nth_append by simp
  ultimately show ?thesis using False by auto
qed simp



end
