(* ===== verification/Pop3_State.thy ===== *)
theory Pop3_State
  imports Mail_Box Uuencode
begin

text \<open>
  The state of the service: the objects of \<^verbatim>\<open>iocontext.h\<close>, \<^verbatim>\<open>pop3context.h\<close>, \<^verbatim>\<open>ntauth.h\<close>,
  \<^verbatim>\<open>iolists.h\<close>, \<^verbatim>\<open>sockpool.hxx\<close> and \<^verbatim>\<open>globaldef.h\<close> as records, the global state that the objects
  share, and the performance counters (\<^verbatim>\<open>perfapp.h\<close>).  What leaves the service is appended to a list
  of events.
\<close>

section \<open>Events\<close>

datatype event_id =
    POP3SVR_MAILROOT_ACCESS_DENIED | POP3SVR_MAX_LOGON_FAILURES | POP3SVR_NOT_ENOUGH_MEMORY
  | POP3SVR_FAILED_TO_CREATE_SOCKET | POP3SVR_CALL_ACCEPTEX_FAILED
  | POP3SVR_CREATE_ADDITIONAL_SOCKET_FAILED | POP3SVR_SOCKET_REQUEST_BEFORE_INIT
  | EVENT_POP3_UNEXPECTED_ERROR | EVENT_POP3_NO_CONFIG_DATA | POP3SVR_WINSOCK_FAILED_TO_INIT
  | POP3SVR_UNSUPPORTED_OS | POP3SVR_FAILED_TO_BIND_MAIN_SOCKET
  | POP3SVR_FAILED_TO_LISTEN_ON_MAIN_SOCKET | POP3SVR_WINSOCK_FAILED_TO_CLEANUP
  | POP3SVR_FAIL_TO_CREATE_IO_COMP_PORT | POP3SVR_FAILED_TO_CREATE_THREAD
  | EVENT_POP3_SERVER_STARTED | EVENT_POP3_SERVER_STOPPED | EVENT_POP3_SERVER_STOP_ERROR
  | EVENT_POP3_COM_INIT_FAIL | POP3SVR_START_FAILED_EXCHANGE | POP3SVR_INIT_CREATE_EVENT_FAILED
  | POP3SVR_INIT_AUTH_METHOD_FAILED | POP3SVR_AUTH_METHOD_INVALID | POP3SVR_NO_SECURITY_INIT_FAIL

datatype event =
    Sent HANDLE string
  | Recv HANDLE
  | Closed HANDLE
  | Logged event_id
  | DoSEvent

section \<open>Performance counters\<close>

datatype GLOBAL_CNTR =
    e_gcTotConnection | e_gcConnectionRate | e_gcTotMsgDnldCnt | e_gcMsgDnldRate
  | e_gcFreeThreadCnt | e_gcConnectedSocketCnt | e_gcBytesReceived | e_gcBytesReceiveRate
  | e_gcBytesTransmitted | e_gcBytesTransmitRate | e_gcFailedLogonCnt | e_gcAuthStateCnt
  | e_gcTransStateCnt

record GLOBCNTR =
  m_rgdwPerfData :: "GLOBAL_CNTR \<Rightarrow> DWORD"
  m_fInit :: bool

definition AddPerfCntr :: "GLOBAL_CNTR \<Rightarrow> DWORD \<Rightarrow> GLOBCNTR \<Rightarrow> GLOBCNTR" where
  "AddPerfCntr cntr dw g = (if m_fInit g
     then g\<lparr>m_rgdwPerfData := (m_rgdwPerfData g)(cntr := m_rgdwPerfData g cntr + dw)\<rparr> else g)"

definition IncPerfCntr :: "GLOBAL_CNTR \<Rightarrow> GLOBCNTR \<Rightarrow> GLOBCNTR" where
  "IncPerfCntr cntr g = (if m_fInit g
     then g\<lparr>m_rgdwPerfData := (m_rgdwPerfData g)(cntr := m_rgdwPerfData g cntr + 1)\<rparr> else g)"

definition DecPerfCntr :: "GLOBAL_CNTR \<Rightarrow> GLOBCNTR \<Rightarrow> GLOBCNTR" where
  "DecPerfCntr cntr g = (if m_fInit g
     then g\<lparr>m_rgdwPerfData := (m_rgdwPerfData g)(cntr := m_rgdwPerfData g cntr - 1)\<rparr> else g)"

definition SetPerfCntr :: "GLOBAL_CNTR \<Rightarrow> DWORD \<Rightarrow> GLOBCNTR \<Rightarrow> GLOBCNTR" where
  "SetPerfCntr cntr dw g = (if m_fInit g
     then g\<lparr>m_rgdwPerfData := (m_rgdwPerfData g)(cntr := dw)\<rparr> else g)"

definition SubPerfCntr :: "GLOBAL_CNTR \<Rightarrow> DWORD \<Rightarrow> GLOBCNTR \<Rightarrow> GLOBCNTR" where
  "SubPerfCntr cntr dw g = (if m_fInit g
     then g\<lparr>m_rgdwPerfData := (m_rgdwPerfData g)(cntr := m_rgdwPerfData g cntr - dw)\<rparr> else g)"

definition LGetPerfCntr :: "GLOBAL_CNTR \<Rightarrow> GLOBCNTR \<Rightarrow> int" where
  "LGetPerfCntr cntr g = (if m_fInit g then sint (m_rgdwPerfData g cntr) else 0)"

section \<open>Objects\<close>

record CAuthServer =
  m_bInit :: bool
  m_bFirstCall :: bool
  m_bHaveSecContext :: bool

definition new_CAuthServer :: CAuthServer where
  "new_CAuthServer = \<lparr>m_bInit = False, m_bFirstCall = True, m_bHaveSecContext = False\<rparr>"

text \<open>The static members of \<^verbatim>\<open>CAuthServer\<close>: whether the function table and the library are loaded.\<close>

record AuthStatics =
  m_glInit :: int
  m_gpFuncs :: bool
  m_ghLib :: bool
  m_gpIConfig :: bool

datatype pop3_state = INIT_STATE | AUTH_STATE | TRANS_STATE | UPDATE_STATE

text \<open>
  \<^verbatim>\<open>m_szCommandBuffer\<close> holds the bytes written to the array since the last complete command; strings
  are without their NUL.
\<close>

record POP3_CONTEXT =
  m_dwCurrentState :: pop3_state
  m_bFileTransmitPending :: bool
  m_bCommandComplete :: bool
  m_dwCommandSize :: nat
  m_szCommandBuffer :: string
  m_wszUserName :: wstring
  m_szDomainName :: string
  m_szPassword :: string
  m_wszGreeting :: wstring
  m_cPswdSize :: int
  m_MailBox :: CMailBox
  m_AuthServer :: CAuthServer
  m_dwAuthStatus :: nat
  m_dwFailedAuthCount :: DWORD

datatype IO_TYPE = LISTEN_SOCKET | CONNECTION_SOCKET | FILE_IO | DELETE_PENDING

definition UNLOCKED :: int where "UNLOCKED = 0"
definition LOCKED_TO_PROCESS_POP3_CMD :: int where "LOCKED_TO_PROCESS_POP3_CMD = 1"
definition LOCKED_FOR_TIMEOUT :: int where "LOCKED_FOR_TIMEOUT = 2"
abbreviation (input) "POP3_REQUEST_BUF_SIZE \<equiv> (1042 :: nat)"
abbreviation (input) "POP3_RESPONSE_BUF_SIZE \<equiv> (1042 :: nat)"
definition DEFAULT_TIME_OUT :: DWORD where "DEFAULT_TIME_OUT = 600000"
definition SHORTENED_TIMEOUT :: DWORD where "SHORTENED_TIMEOUT = 10000"

record IO_CONTEXT =
  m_hAsyncIO :: HANDLE
  m_ConType :: IO_TYPE
  m_dwLastIOTime :: DWORD
  m_dwConnectionTime :: DWORD
  m_lLock :: int
  m_Buffer :: string

text \<open>
  List entries: the heads of the two lists and the entry embedded in each context; \<^verbatim>\<open>links\<close> gives the
  \<^verbatim>\<open>Flink\<close> and \<^verbatim>\<open>Blink\<close> fields of every entry.
\<close>

datatype lref = LNull | LHead bool | LEntry nat

record CIOList =
  m_ListHead :: lref
  m_pCursor :: lref
  m_dwListCount :: DWORD

record links =
  Flink :: "lref \<Rightarrow> lref"
  Blink :: "lref \<Rightarrow> lref"

record CSocketPool =
  m_sMainSocket :: HANDLE
  m_lMaxSocketCount :: int
  m_lMinSocketCount :: int
  m_lThreshold :: int
  m_lTotalSocketCount :: int
  m_lFreeSocketCount :: int
  m_bPoolInit :: bool
  m_lAddThreadToken :: int
  m_csInitGuard :: nat

datatype service_status = SERVICE_STOPPED | SERVICE_START_PENDING | SERVICE_STOP_PENDING
  | SERVICE_RUNNING | SERVICE_PAUSED

record svc_config =
  g_wszComputerName :: wstring
  g_wszGreeting :: wstring
  g_dwRequireSPA :: bool
  g_dwAuthMethod :: nat
  g_dwMaxMsgPerDnld :: DWORD

text \<open>
  The globals.  \<^verbatim>\<open>g_heap\<close> maps the address of an IO context to it and its POP3 context; a context
  that a thread is working on is passed beside the globals.
\<close>

record 'w glob =
  g_SocketPool :: CSocketPool
  g_FreeList :: CIOList
  g_BusyList :: CIOList
  g_links :: links
  g_heap :: "nat \<Rightarrow> (IO_CONTEXT \<times> POP3_CONTEXT) option"
  g_nextAddr :: nat
  g_PerfCounters :: GLOBCNTR
  g_MailRoot :: MailRoot
  g_auth :: AuthStatics
  g_dwServerStatus :: service_status
  g_bThreadPoolInit :: bool
  g_cfg :: svc_config
  g_world :: 'w
  g_out :: "event list"

definition emit :: "event \<Rightarrow> 'w glob \<Rightarrow> 'w glob" where
  "emit e g = g\<lparr>g_out := g_out g @ [e]\<rparr>"

definition LogEvent :: "event_id \<Rightarrow> 'w glob \<Rightarrow> 'w glob" where
  "LogEvent i = emit (Logged i)"

definition perf :: "(GLOBCNTR \<Rightarrow> GLOBCNTR) \<Rightarrow> 'w glob \<Rightarrow> 'w glob" where
  "perf f g = g\<lparr>g_PerfCounters := f (g_PerfCounters g)\<rparr>"

section \<open>Reading back\<close>

lemma perf_fInit [simp]:
  "m_fInit (AddPerfCntr c d g) = m_fInit g" "m_fInit (IncPerfCntr c g) = m_fInit g"
  "m_fInit (DecPerfCntr c g) = m_fInit g" "m_fInit (SubPerfCntr c d g) = m_fInit g"
  by (simp_all add: AddPerfCntr_def IncPerfCntr_def DecPerfCntr_def SubPerfCntr_def)

lemma perf_counters:
  assumes "m_fInit g"
  shows "m_rgdwPerfData (AddPerfCntr c d g) = (m_rgdwPerfData g)(c := m_rgdwPerfData g c + d)"
    "m_rgdwPerfData (IncPerfCntr c g) = (m_rgdwPerfData g)(c := m_rgdwPerfData g c + 1)"
    "m_rgdwPerfData (DecPerfCntr c g) = (m_rgdwPerfData g)(c := m_rgdwPerfData g c - 1)"
  using assms by (simp_all add: AddPerfCntr_def IncPerfCntr_def DecPerfCntr_def)

lemma perf_other:
  "c' \<noteq> c \<Longrightarrow> m_rgdwPerfData (AddPerfCntr c d g) c' = m_rgdwPerfData g c'"
  "c' \<noteq> c \<Longrightarrow> m_rgdwPerfData (IncPerfCntr c g) c' = m_rgdwPerfData g c'"
  "c' \<noteq> c \<Longrightarrow> m_rgdwPerfData (DecPerfCntr c g) c' = m_rgdwPerfData g c'"
  by (simp_all add: AddPerfCntr_def IncPerfCntr_def DecPerfCntr_def)

end
