(* ===== verification/Nt_Auth.thy ===== *)
theory Nt_Auth
  imports Pop3_State
begin

text \<open>
  NTLM authentication, \<^verbatim>\<open>CAuthServer\<close> of \<^verbatim>\<open>pop3/service/pop3svc/ntauth.cpp\<close>: loading and unloading
  the security package, acquiring credentials, the handshake that decodes the client's token, hands it
  to the package and encodes the answer, the name of the authenticated user, and \<^verbatim>\<open>Cleanup\<close>.  A wait
  for another thread that initialises the package does not return by itself: no value.
\<close>

section \<open>The code\<close>

abbreviation (input) "AUTH_BUF_SIZE \<equiv> (4096 :: nat)"
definition SEC_E_OK :: DWORD where "SEC_E_OK = 0"
definition SEC_I_CONTINUE_NEEDED :: DWORD where "SEC_I_CONTINUE_NEEDED = 0x00090312"
definition SEC_I_COMPLETE_NEEDED :: DWORD where "SEC_I_COMPLETE_NEEDED = 0x00090313"
definition SEC_I_COMPLETE_AND_CONTINUE :: DWORD where "SEC_I_COMPLETE_AND_CONTINUE = 0x00090314"
abbreviation (input) "AUTH_OTHER \<equiv> (0 :: nat)"
abbreviation (input) "AUTH_AD \<equiv> (1 :: nat)"
abbreviation (input) "AUTH_LOCAL_SAM \<equiv> (2 :: nat)"

definition SEC_SUCCESS :: "DWORD \<Rightarrow> bool" where
  "SEC_SUCCESS status \<longleftrightarrow> 0 \<le> sint status"

text \<open>A call of the system inside the globals.\<close>

definition sys :: "('w \<Rightarrow> 'a \<times> 'w) \<Rightarrow> 'w glob \<Rightarrow> 'a \<times> 'w glob" where
  "sys f g = (case f (g_world g) of (r, w) \<Rightarrow> (r, g\<lparr>g_world := w\<rparr>))"

definition sysw :: "('w \<Rightarrow> 'w) \<Rightarrow> 'w glob \<Rightarrow> 'w glob" where
  "sysw f g = g\<lparr>g_world := f (g_world g)\<rparr>"

definition set_auth :: "(AuthStatics \<Rightarrow> AuthStatics) \<Rightarrow> 'w glob \<Rightarrow> 'w glob" where
  "set_auth f g = g\<lparr>g_auth := f (g_auth g)\<rparr>"

text \<open>
  \<^verbatim>\<open>GlobalInit\<close>.  A loading call that fails gives the error of \<^verbatim>\<open>GetLastError\<close>, which may be 0; the
  code then goes on and would call through the pointer it did not get: no value.
\<close>

definition load_result :: "'w win32 \<Rightarrow> bool \<Rightarrow> 'w glob \<Rightarrow> HRESULT" where
  "load_result api ok g = (if ok then S_OK else HRESULT_FROM_WIN32 (GetLastError api (g_world g)))"

definition GlobalInit_load :: "'w win32 \<Rightarrow> 'w glob \<Rightarrow> (HRESULT \<times> 'w glob) option" where
  "GlobalInit_load api g = do {
     let (dir, g) = sys (GetWindowsDirectory api) g;
     let (lib, hr, g) = (if dir then (case sys (LoadLibrary api) g of (ok, g) \<Rightarrow> (ok, load_result api ok g, g))
                         else (False, E_FAIL, g));
     let g = set_auth (m_ghLib_update (\<lambda>_. lib)) g;
     let (pInit, hr, g) = (if hr = S_OK then (case sys (GetProcAddress api) g of (ok, g) \<Rightarrow>
                             (ok, load_result api ok g, g)) else (False, hr, g));
     if hr = S_OK \<and> \<not> pInit then None
     else do {
       let (funcs, hr, g) = (if hr = S_OK then (case sys (InitSecurityInterface api) g of (ok, g) \<Rightarrow>
                               (ok, load_result api ok g, set_auth (m_gpFuncs_update (\<lambda>_. ok)) g))
                             else (False, hr, g));
       if hr = S_OK \<and> \<not> funcs then None
       else do {
         let (hr, g) = (if hr = S_OK then (case sys (QuerySecurityPackageInfo api) g of (st, g) \<Rightarrow>
                          (if SEC_SUCCESS st then S_OK else E_FAIL, g)) else (hr, g));
         Some (if hr = S_OK then (case sys (CoCreateP3Config api) g of (hr, g) \<Rightarrow>
                 (hr, set_auth (m_gpIConfig_update (\<lambda>_. SUCCEEDED hr)) g)) else (hr, g)) } } }"

definition GlobalInit :: "'w win32 \<Rightarrow> 'w glob \<Rightarrow> (HRESULT \<times> 'w glob) option" where
  "GlobalInit api g =
     (if m_glInit (g_auth g) = 0 then do {
        (hr, g) \<leftarrow> GlobalInit_load api (set_auth (m_glInit_update (\<lambda>_. 2)) g);
        Some (if hr = S_OK then (hr, set_auth (m_glInit_update (\<lambda>_. 1)) g)
              else (hr, set_auth (\<lambda>a. a\<lparr>m_gpFuncs := False, m_ghLib := False, m_glInit := 0\<rparr>) g)) }
      else if m_glInit (g_auth g) = 1 then Some (S_OK, g)
      else None)"

definition GlobalUninit :: "'w glob \<Rightarrow> 'w glob option" where
  "GlobalUninit g =
     (let lRet = m_glInit (g_auth g);
          unload = set_auth (\<lambda>a. a\<lparr>m_gpFuncs := False, m_ghLib := False, m_gpIConfig := False\<rparr>)
      in if lRet = 1 then Some (unload (set_auth (m_glInit_update (\<lambda>_. -1)) g))
         else if lRet = 2 then None
         else Some g)"

definition Cleanup :: "'w win32 \<Rightarrow> CAuthServer \<times> 'w glob \<Rightarrow> CAuthServer \<times> 'w glob" where
  "Cleanup api s = (case s of (a, g) \<Rightarrow>
     if m_gpFuncs (g_auth g) then
       (if m_bInit a then
          (let a = a\<lparr>m_bInit := False, m_bFirstCall := True\<rparr>;
               g = sysw (FreeCredentialHandle api) g
           in if m_bHaveSecContext a
              then (a\<lparr>m_bHaveSecContext := False\<rparr>, sysw (DeleteSecurityContext api) g)
              else (a, g))
        else (a, g))
     else (a, LogEvent EVENT_POP3_UNEXPECTED_ERROR g))"

definition InitCredential :: "'w win32 \<Rightarrow> CAuthServer \<times> 'w glob
    \<Rightarrow> (HRESULT \<times> CAuthServer \<times> 'w glob) option" where
  "InitCredential api s = (case s of (a, g) \<Rightarrow>
     if m_bInit a then Some (S_OK, a, g)
     else do {
       (hr, g) \<leftarrow> (if m_glInit (g_auth g) \<noteq> 1 then GlobalInit api g else Some (S_OK, g));
       if hr = S_OK then (case sys (AcquireCredentialsHandle api) g of (status, g) \<Rightarrow>
         if status \<noteq> SEC_E_OK then Some (E_FAIL, a, g)
         else Some (S_OK, a\<lparr>m_bInit := True\<rparr>, g))
       else Some (hr, a, g) })"

text \<open>
  \<^verbatim>\<open>AcceptSecurityContext\<close> and the \<^verbatim>\<open>switch\<close> on its status: the result, the answer of the package and
  the new state.
\<close>

definition CompleteToken :: "'w win32 \<Rightarrow> HRESULT \<Rightarrow> 'w glob \<Rightarrow> HRESULT \<times> 'w glob" where
  "CompleteToken api hr g = (case CompleteAuthToken api of
      None \<Rightarrow> (E_FAIL, g)
    | Some f \<Rightarrow> (case sys f g of (status, g) \<Rightarrow> (if SEC_SUCCESS status then hr else E_FAIL, g)))"

definition AcceptToken :: "'w win32 \<Rightarrow> BYTE list \<Rightarrow> CAuthServer \<times> 'w glob
    \<Rightarrow> HRESULT \<times> BYTE list \<times> CAuthServer \<times> 'w glob" where
  "AcceptToken api token s = (case s of (a, g) \<Rightarrow>
     case sys (\<lambda>w. AcceptSecurityContext api w (m_bFirstCall a) token (of_nat AUTH_BUF_SIZE)) g of
       ((status, answer), g) \<Rightarrow>
       (let a = (if SEC_SUCCESS status then a\<lparr>m_bHaveSecContext := True, m_bFirstCall := False\<rparr> else a);
            (hr, g) =
              (if status = SEC_E_OK then (S_OK, g)
               else if status = SEC_I_CONTINUE_NEEDED then (S_FALSE, g)
               else if status = SEC_I_COMPLETE_AND_CONTINUE then CompleteToken api S_FALSE g
               else if status = SEC_I_COMPLETE_NEEDED then CompleteToken api S_OK g
               else (E_FAIL, g))
        in (hr, answer, a, g)))"

text \<open>
  The answer as the line that goes to the client.  \<^verbatim>\<open>pOutBuf\<close> was zeroed by the caller, so zeros follow
  the package's answer in it.
\<close>

definition EncodeAnswer :: "HRESULT \<Rightarrow> BYTE list \<Rightarrow> (HRESULT \<times> string) option" where
  "EncodeAnswer hr answer =
     (if length answer > (AUTH_BUF_SIZE - 5) * 2 div 3 then Some (E_OUTOFMEMORY, [])
      else do {
        (ok, buff) \<leftarrow> uuencode (Some (answer @ replicate (AUTH_BUF_SIZE - length answer) 0))
          (of_nat (length answer)) (Some \<lparr>pBuf = Some (replicate AUTH_BUF_SIZE 0), cLen = of_nat AUTH_BUF_SIZE\<rparr>);
        if ok then do {
          b \<leftarrow> buff;
          mem \<leftarrow> pBuf b;
          (case snprintf (AUTH_BUF_SIZE - 1) (''+ '' @ cstr (text_of mem) @ [CR, LF]) of
             None \<Rightarrow> Some (E_FAIL, [])
           | Some line \<Rightarrow> Some (hr, line)) }
        else Some (E_FAIL, []) })"

definition HandShake :: "'w win32 \<Rightarrow> string \<Rightarrow> CAuthServer \<times> 'w glob
    \<Rightarrow> (HRESULT \<times> string \<times> CAuthServer \<times> 'w glob) option" where
  "HandShake api pInBuf s = do {
     (hr, a, g) \<leftarrow> (if \<not> m_bInit (fst s) then InitCredential api s else Some (S_OK, s));
     (ok, buff, cb) \<leftarrow> uudecode (Some pInBuf)
       (Some \<lparr>pBuf = Some (replicate AUTH_BUF_SIZE 0), cLen = of_nat AUTH_BUF_SIZE\<rparr>) (Some 0);
     let hr = (if ok then hr else E_FAIL);
     (hr, line, a, g) \<leftarrow>
       (if hr = S_OK then do {
          b \<leftarrow> buff; mem \<leftarrow> pBuf b; n \<leftarrow> cb;
          (case AcceptToken api (take (unat n) mem) (a, g) of (hr, answer, a, g) \<Rightarrow>
             if SUCCEEDED hr then do {
               (hr, line) \<leftarrow> EncodeAnswer hr answer;
               Some (hr, line, a, g) }
             else Some (hr, [], a, g)) }
        else Some (hr, [], a, g));
     if \<not> SUCCEEDED hr \<and> m_bHaveSecContext a
     then Some (hr, line, a\<lparr>m_bHaveSecContext := False, m_bFirstCall := True\<rparr>,
                sysw (DeleteSecurityContext api) g)
     else Some (hr, line, a, g) }"

text \<open>\<^verbatim>\<open>GetUserName\<close>: the result and what is then in \<^verbatim>\<open>wszUserName\<close>.\<close>

definition GetUserName :: "'w win32 \<Rightarrow> wstring \<Rightarrow> CAuthServer \<times> 'w glob \<Rightarrow> HRESULT \<times> wstring \<times> 'w glob" where
  "GetUserName api wszUserName s = (case s of (a, g) \<Rightarrow>
     if \<not> m_bHaveSecContext a then (E_FAIL, wszUserName, g)
     else (case sys (QueryContextNames api) g of ((status, sUserName), g) \<Rightarrow>
       if status \<noteq> SEC_E_OK then (E_FAIL, wszUserName, g)
       else if g_dwAuthMethod (g_cfg g) = AUTH_AD then
         (case sys (alloc api) g of (ok, g) \<Rightarrow>
            if \<not> ok then (E_OUTOFMEMORY, wszUserName, g)
            else (case sys (\<lambda>w. AuthGetEmail api w sUserName) g of ((hr, mail), g) \<Rightarrow>
              if SUCCEEDED hr then
                (if length mail < POP3_MAX_ADDRESS_LENGTH then (hr, mail, g) else (E_FAIL, wszUserName, g))
              else (hr, wszUserName, g)))
       else
         (let pUserName = (if of_char BACKSLASH \<in> set sUserName
                           then tl (dropWhile (\<lambda>c. c \<noteq> of_char BACKSLASH) sUserName) else sUserName);
              (hr, g) = sys (CoCreateP3Config api) g;
              (hr, g) = (if hr = S_OK then sys (get_Domains api) g else (hr, g))
          in if hr \<noteq> S_OK then (hr, wszUserName, g)
             else (case sys (\<lambda>w. SearchForMailbox api w pUserName) g of ((hr, domain), g) \<Rightarrow>
               if hr \<noteq> S_OK then (hr, wszUserName, g)
               else (let name = pUserName @ wide ''@'' @ domain
                     in case snprintf (POP3_MAX_ADDRESS_LENGTH - 1) name of
                          None \<Rightarrow> (E_FAIL, snprintf_trunc (POP3_MAX_ADDRESS_LENGTH - 1) name, g)
                        | Some n \<Rightarrow> (hr, n, g))))))"

section \<open>What a handshake shows\<close>

lemma CompleteToken_result: "CompleteToken api hr g = (S_OK, g') \<Longrightarrow> hr = S_OK"
  by (auto simp: CompleteToken_def E_FAIL_def S_OK_def split: option.splits prod.splits if_splits)

lemma hr_distinct [simp]: "S_OK \<noteq> S_FALSE" "S_FALSE \<noteq> S_OK" "E_FAIL \<noteq> S_OK" "S_OK \<noteq> E_FAIL"
  "E_OUTOFMEMORY \<noteq> S_OK" "S_OK \<noteq> E_OUTOFMEMORY"
  by (simp_all add: S_OK_def S_FALSE_def E_FAIL_def E_OUTOFMEMORY_def)

lemma AcceptToken_S_OK:
  assumes "AcceptToken api token (a, g) = (S_OK, answer, a', g')"
  shows "fst (fst (AcceptSecurityContext api (g_world g) (m_bFirstCall a) token (of_nat AUTH_BUF_SIZE)))
      \<in> {SEC_E_OK, SEC_I_COMPLETE_NEEDED} \<and> m_bHaveSecContext a'"
  using assms
  by (auto simp: AcceptToken_def sys_def Let_def SEC_SUCCESS_def SEC_E_OK_def SEC_I_COMPLETE_NEEDED_def
      SEC_I_COMPLETE_AND_CONTINUE_def SEC_I_CONTINUE_NEEDED_def
      dest!: CompleteToken_result split: prod.splits if_splits)

lemma EncodeAnswer_result: "EncodeAnswer hr answer = Some (S_OK, line) \<Longrightarrow> hr = S_OK"
  by (auto simp: EncodeAnswer_def split: if_splits option.splits bind_splits)

text \<open>The line sent back is the encoded answer and fits the buffer; nothing is written outside it.\<close>

lemma EncodeAnswer_line:
  assumes "length answer \<le> 2727"
  shows "EncodeAnswer hr answer =
    Some (hr, ''+ '' @ rfc1113 0 0 answer @ [CR, LF]) \<and> length (rfc1113 0 0 answer) + 5 < AUTH_BUF_SIZE"
proof -
  have rep: "replicate (4096 - length answer) (0 :: BYTE) = 0 # 0 # replicate (4094 - length answer) 0"
    using assms by (simp flip: replicate_Suc add: Suc_diff_le)
  have len: "length (rfc1113 0 0 answer) \<le> 3640"
    using assms by (simp add: length_rfc1113)
  have "uuencode (Some (answer @ replicate (4096 - length answer) 0)) (of_nat (length answer))
      (Some \<lparr>pBuf = Some (replicate 4096 0), cLen = of_nat 4096\<rparr>) =
    Some (True, Some \<lparr>pBuf = Some (map of_char (rfc1113 0 0 answer @ [NUL])
        @ drop (length (rfc1113 0 0 answer) + 1) (replicate 4096 0)), cLen = of_nat 4096\<rparr>)"
    using uuencode_eq [of answer "\<lparr>pBuf = Some (replicate 4096 0), cLen = of_nat 4096\<rparr>" "replicate 4096 0"
        0 0 "replicate (4094 - length answer) 0"] assms by (simp add: rep)
  moreover have "cstr (text_of (map of_char (rfc1113 0 0 answer @ [NUL])
      @ drop (length (rfc1113 0 0 answer) + 1) (replicate 4096 0))) = rfc1113 0 0 answer"
    by (simp only: text_of_append text_of_of_char append_assoc append_Cons append_Nil)
       (simp add: rfc1113_no_nul)
  ultimately show ?thesis
    using assms len by (simp add: EncodeAnswer_def snprintf_def)
qed

text \<open>
  No logon without the security package: a handshake reports \<^verbatim>\<open>S_OK\<close> only if credentials are
  there, the client's text could be decoded, the package accepted exactly the decoded bytes with the
  status "OK" or "complete needed", and a security context exists afterwards, from which the user name
  is then taken.
\<close>

theorem HandShake_ok_needs_package:
  assumes "HandShake api txt (a, g) = Some (S_OK, line, a', g')"
  shows "\<exists>a1 g1 buff n.
    (if m_bInit a then (a1, g1) = (a, g) else InitCredential api (a, g) = Some (S_OK, a1, g1)) \<and>
    uudecode (Some txt) (Some \<lparr>pBuf = Some (replicate AUTH_BUF_SIZE 0), cLen = of_nat AUTH_BUF_SIZE\<rparr>) (Some 0)
      = Some (True, Some buff, Some n) \<and>
    fst (fst (AcceptSecurityContext api (g_world g1) (m_bFirstCall a1) (take (unat n) (the (pBuf buff)))
      (of_nat AUTH_BUF_SIZE))) \<in> {SEC_E_OK, SEC_I_COMPLETE_NEEDED} \<and>
    m_bHaveSecContext a'"
proof -
  obtain hr1 a1 g1 where init: "(if \<not> m_bInit a then InitCredential api (a, g) else Some (S_OK, a, g))
      = Some (hr1, a1, g1)"
    using assms by (auto simp: HandShake_def split: bind_splits)
  obtain ok buff cb where dec: "uudecode (Some txt) (Some \<lparr>pBuf = Some (replicate AUTH_BUF_SIZE 0),
      cLen = of_nat AUTH_BUF_SIZE\<rparr>) (Some 0) = Some (ok, buff, cb)"
    using assms by (auto simp: HandShake_def split: bind_splits)
  have hr1: "hr1 = S_OK" "ok"
    using assms init dec by (auto simp: HandShake_def Let_def split: bind_splits if_splits)
  then obtain b mem n where b: "buff = Some b" "pBuf b = Some mem" "cb = Some n"
    using assms init dec by (auto simp: HandShake_def Let_def split: bind_splits)
  obtain hr2 ans a2 g2 where acc: "AcceptToken api (take (unat n) mem) (a1, g1) = (hr2, ans, a2, g2)"
    by (metis prod_cases4)
  have "hr2 = S_OK \<and> a' = a2"
    using assms init dec hr1 b acc
    by (auto simp: HandShake_def Let_def dest: EncodeAnswer_result split: bind_splits if_splits)
  then show ?thesis
    using AcceptToken_S_OK [of api "take (unat n) mem" a1 g1 ans a2 g2] acc init dec hr1 b
    by (auto split: if_splits)
qed

text \<open>A state of the service for the witnesses.\<close>

definition demo_glob :: "sim glob" where
  "demo_glob = \<lparr>
     g_SocketPool = \<lparr>m_sMainSocket = 3, m_lMaxSocketCount = 5, m_lMinSocketCount = 1, m_lThreshold = 2,
       m_lTotalSocketCount = 2, m_lFreeSocketCount = 1, m_bPoolInit = True, m_lAddThreadToken = 1,
       m_csInitGuard = 0\<rparr>,
     g_FreeList = \<lparr>m_ListHead = LHead True, m_pCursor = LHead True, m_dwListCount = 0\<rparr>,
     g_BusyList = \<lparr>m_ListHead = LHead False, m_pCursor = LHead False, m_dwListCount = 0\<rparr>,
     g_links = \<lparr>Flink = (\<lambda>_. LNull)(LHead True := LHead True, LHead False := LHead False),
       Blink = (\<lambda>_. LNull)(LHead True := LHead True, LHead False := LHead False)\<rparr>,
     g_heap = (\<lambda>_. None), g_nextAddr = 0,
     g_PerfCounters = \<lparr>m_rgdwPerfData = (\<lambda>_. 0), m_fInit = True\<rparr>,
     g_MailRoot = \<lparr>m_lMailRootGuard = 1, m_wszMailRoot = wide ''R''\<rparr>,
     g_auth = \<lparr>m_glInit = 1, m_gpFuncs = True, m_ghLib = True, m_gpIConfig = True\<rparr>,
     g_dwServerStatus = SERVICE_RUNNING, g_bThreadPoolInit = True,
     g_cfg = \<lparr>g_wszComputerName = wide ''pc'', g_wszGreeting = [], g_dwRequireSPA = False,
       g_dwAuthMethod = 1, g_dwMaxMsgPerDnld = 0\<rparr>,
     g_world = sim_start, g_out = []\<rparr>"

lemma demo_HandShake:
  "HandShake sim_api (''TWFu'' @ [NUL, LF, NUL]) (new_CAuthServer, demo_glob) =
     Some (S_OK, ''+ '' @ rfc1113 0 0 [] @ [CR, LF],
       \<lparr>m_bInit = True, m_bFirstCall = False, m_bHaveSecContext = True\<rparr>, demo_glob)"
  by (simp add: HandShake_def InitCredential_def new_CAuthServer_def demo_glob_def sim_api_def sys_def
      SEC_E_OK_def uudecode_def pr2six_at_def pr2six_def CheckBufferSize_def BufferQueryPtr_def poke_def
      AcceptToken_def Let_def SEC_SUCCESS_def EncodeAnswer_line)

theorem HandShake_ok_needs_package_witness:
  "\<exists>a1 g1 buff n.
    (if m_bInit new_CAuthServer then (a1, g1) = (new_CAuthServer, demo_glob)
     else InitCredential sim_api (new_CAuthServer, demo_glob) = Some (S_OK, a1, g1)) \<and>
    uudecode (Some (''TWFu'' @ [NUL, LF, NUL]))
      (Some \<lparr>pBuf = Some (replicate AUTH_BUF_SIZE 0), cLen = of_nat AUTH_BUF_SIZE\<rparr>) (Some 0)
      = Some (True, Some buff, Some n) \<and>
    fst (fst (AcceptSecurityContext sim_api (g_world g1) (m_bFirstCall a1) (take (unat n) (the (pBuf buff)))
      (of_nat AUTH_BUF_SIZE))) \<in> {SEC_E_OK, SEC_I_COMPLETE_NEEDED} \<and>
    m_bHaveSecContext \<lparr>m_bInit = True, m_bFirstCall = False, m_bHaveSecContext = True\<rparr>"
  by (rule HandShake_ok_needs_package [OF demo_HandShake])

end
