(* ===== verification/Io_Lists.thy ===== *)
theory Io_Lists
  imports Pop3_State "HOL-Library.Multiset"
begin

text \<open>
  The lists of connections, \<^verbatim>\<open>CIOList\<close> of \<^verbatim>\<open>pop3/service/pop3svc/iolists.cpp\<close>: \<^verbatim>\<open>AppendToList\<close> and
  \<^verbatim>\<open>RemoveFromList\<close> on doubly linked entries with a head and a cursor, refined to the list of the
  entries they hold.  \<^verbatim>\<open>CheckTimeOut\<close> and \<^verbatim>\<open>Cleanup\<close>, which act on the contexts, are in
  \<^verbatim>\<open>Io_CallBack\<close>.
\<close>

section \<open>The code\<close>

definition new_CIOList :: "bool \<Rightarrow> CIOList" where
  "new_CIOList k = \<lparr>m_ListHead = LHead k, m_pCursor = LHead k, m_dwListCount = 0\<rparr>"

definition init_links :: "bool \<Rightarrow> links \<Rightarrow> links" where
  "init_links k lk = lk\<lparr>Flink := (Flink lk)(LHead k := LHead k), Blink := (Blink lk)(LHead k := LHead k)\<rparr>"

definition set_Flink :: "lref \<Rightarrow> lref \<Rightarrow> links \<Rightarrow> links option" where
  "set_Flink p q lk = (if p = LNull then None else Some (lk\<lparr>Flink := (Flink lk)(p := q)\<rparr>))"

definition set_Blink :: "lref \<Rightarrow> lref \<Rightarrow> links \<Rightarrow> links option" where
  "set_Blink p q lk = (if p = LNull then None else Some (lk\<lparr>Blink := (Blink lk)(p := q)\<rparr>))"

definition AppendToList :: "lref \<Rightarrow> CIOList \<times> links \<Rightarrow> (CIOList \<times> links) option" where
  "AppendToList pListEntry s = (case s of (l, lk) \<Rightarrow> do {
     lk \<leftarrow> set_Flink pListEntry (m_ListHead l) lk;
     lk \<leftarrow> set_Blink pListEntry (Blink lk (m_ListHead l)) lk;
     lk \<leftarrow> set_Flink (Blink lk (m_ListHead l)) pListEntry lk;
     lk \<leftarrow> set_Blink (m_ListHead l) pListEntry lk;
     Some (l\<lparr>m_dwListCount := m_dwListCount l + 1\<rparr>, lk) })"

definition RemoveFromList :: "lref \<Rightarrow> CIOList \<times> links \<Rightarrow> (DWORD \<times> CIOList \<times> links) option" where
  "RemoveFromList pListEntry s = (case s of (l, lk) \<Rightarrow>
     if pListEntry = LNull \<or> Flink lk pListEntry = LNull \<or> Blink lk pListEntry = LNull
        \<or> m_dwListCount l = 0
     then Some (ERROR_INVALID_DATA, l, lk)
     else do {
       lk \<leftarrow> set_Blink (Flink lk pListEntry) (Blink lk pListEntry) lk;
       lk \<leftarrow> set_Flink (Blink lk pListEntry) (Flink lk pListEntry) lk;
       let l = l\<lparr>m_dwListCount := m_dwListCount l - 1\<rparr>;
       let l = (if m_pCursor l = pListEntry then l\<lparr>m_pCursor := Flink lk pListEntry\<rparr> else l);
       lk \<leftarrow> set_Flink pListEntry LNull lk;
       lk \<leftarrow> set_Blink pListEntry LNull lk;
       Some (ERROR_SUCCESS, l, lk) })"

section \<open>Rings\<close>

fun linked :: "links \<Rightarrow> lref list \<Rightarrow> bool" where
  "linked lk (a # b # r) \<longleftrightarrow> Flink lk a = b \<and> Blink lk b = a \<and> linked lk (b # r)"
| "linked lk _ \<longleftrightarrow> True"

definition ring :: "links \<Rightarrow> lref \<Rightarrow> lref list \<Rightarrow> bool" where
  "ring lk h xs \<longleftrightarrow> linked lk (h # xs @ [h]) \<and> distinct (h # xs) \<and> LNull \<notin> set (h # xs)"

lemma linked_append: "linked lk (xs @ a # ys) \<longleftrightarrow> linked lk (xs @ [a]) \<and> linked lk (a # ys)"
proof (induction xs)
  case (Cons x xs)
  then show ?case by (cases xs) auto
qed simp

lemma linked_cong:
  assumes "linked lk xs" "\<forall>a \<in> set (butlast xs). Flink lk' a = Flink lk a"
    "\<forall>b \<in> set (tl xs). Blink lk' b = Blink lk b"
  shows "linked lk' xs"
  using assms
proof (induction lk xs rule: linked.induct)
  case (1 lk a b r)
  then show ?case by (cases r) auto
qed simp_all

text \<open>The list \<^term>\<open>xs\<close> of entries that a list object holds, its count and its cursor.\<close>

definition holds :: "CIOList \<times> links \<Rightarrow> lref list \<Rightarrow> bool" where
  "holds s xs \<longleftrightarrow> (case s of (l, lk) \<Rightarrow>
     ring lk (m_ListHead l) xs \<and> m_dwListCount l = of_nat (length xs) \<and> length xs < 4294967296 \<and>
     m_pCursor l \<in> set (m_ListHead l # xs))"

lemma new_holds: "holds (new_CIOList k, init_links k lk) []"
  by (simp add: holds_def ring_def new_CIOList_def init_links_def)

lemma ring_snoc:
  assumes "ring lk h xs"
  obtains ys t where "h # xs = ys @ [t]" "linked lk (ys @ [t])" "Flink lk t = h" "Blink lk h = t"
    "t \<noteq> LNull" "t \<notin> set ys" "t \<in> set (h # xs)"
proof -
  obtain ys t where s: "h # xs = ys @ [t]" by (metis list.distinct(1) rev_exhaust)
  have "h # xs @ [h] = ys @ t # [h]" using s by (metis append.assoc append_Cons append_Nil)
  then have "linked lk (ys @ t # [h])" using assms unfolding ring_def by metis
  then have l: "linked lk (ys @ [t])" "linked lk [t, h]"
    using linked_append [of lk ys t "[h]"] by blast+
  moreover have d: "distinct (ys @ [t])" "LNull \<notin> set (ys @ [t])"
    using assms s unfolding ring_def by metis+
  moreover have "t \<in> set (h # xs)" using s by simp
  ultimately show ?thesis using that [OF s] by auto
qed

lemma AppendToList_holds:
  assumes "holds (l, lk) xs" "p \<notin> set (m_ListHead l # xs)" "p \<noteq> LNull" "Suc (length xs) < 4294967296"
  shows "\<exists>l' lk'. AppendToList p (l, lk) = Some (l', lk') \<and> holds (l', lk') (xs @ [p]) \<and>
    m_ListHead l' = m_ListHead l \<and> m_pCursor l' = m_pCursor l \<and>
    (\<forall>q. q \<notin> set (m_ListHead l # xs) \<union> {p} \<longrightarrow> Flink lk' q = Flink lk q \<and> Blink lk' q = Blink lk q)"
proof -
  define h where "h = m_ListHead l"
  have r: "ring lk h xs" using assms(1) by (simp add: holds_def h_def)
  obtain ys t where s: "h # xs = ys @ [t]" "linked lk (ys @ [t])" "Blink lk h = t" "t \<noteq> LNull"
    "t \<notin> set ys" "t \<in> set (h # xs)" by (rule ring_snoc [OF r])
  have d: "distinct (h # xs)" "h \<noteq> LNull" using r by (auto simp: ring_def)
  have p: "p \<notin> set (h # xs)" using assms(2) by (simp add: h_def)
  moreover have "set (ys @ [t]) = set (h # xs)" using s(1) by metis
  ultimately have ph: "p \<noteq> h" "p \<noteq> t" "p \<notin> set (ys @ [t])" using s(6) by auto
  define lk' where "lk' = lk\<lparr>Flink := (Flink lk)(p := h, t := p), Blink := (Blink lk)(p := t, h := p)\<rparr>"
  have run: "AppendToList p (l, lk) = Some (l\<lparr>m_dwListCount := m_dwListCount l + 1\<rparr>, lk')"
    using assms(3) s(3,4) ph d(2)
    by (simp add: AppendToList_def set_Flink_def set_Blink_def h_def [symmetric] lk'_def)
  have "linked lk' (ys @ [t])"
  proof (rule linked_cong [OF s(2)])
    show "\<forall>a \<in> set (butlast (ys @ [t])). Flink lk' a = Flink lk a"
      using s(5) ph by (auto simp: lk'_def)
    have "tl (ys @ [t]) = xs" using s(1) by (metis list.sel(3))
    then show "\<forall>b \<in> set (tl (ys @ [t])). Blink lk' b = Blink lk b"
      using p d(1) by (auto simp: lk'_def)
  qed
  moreover have "linked lk' (t # [p, h])" using ph by (simp add: lk'_def)
  ultimately have "linked lk' (ys @ t # [p, h])" using linked_append [of lk' ys t "[p, h]"] by blast
  moreover have "h # (xs @ [p]) @ [h] = ys @ t # [p, h]"
    using s(1) by (metis append.assoc append_Cons append_Nil)
  ultimately have "linked lk' (h # (xs @ [p]) @ [h])" by metis
  then have "ring lk' h (xs @ [p])" using d assms(3) r p unfolding ring_def by auto
  then show ?thesis
    using run assms h_def s(6) by (auto simp: holds_def lk'_def)
qed

lemma RemoveFromList_holds:
  assumes "holds (l, lk) (as @ p # bs)"
  shows "\<exists>l' lk'. RemoveFromList p (l, lk) = Some (ERROR_SUCCESS, l', lk') \<and> holds (l', lk') (as @ bs) \<and>
    m_ListHead l' = m_ListHead l \<and> Flink lk' p = LNull \<and> Blink lk' p = LNull \<and>
    m_pCursor l' = (if m_pCursor l = p then hd (bs @ [m_ListHead l]) else m_pCursor l) \<and>
    (\<forall>q. q \<notin> set (m_ListHead l # as @ p # bs) \<longrightarrow> Flink lk' q = Flink lk q \<and> Blink lk' q = Blink lk q)"
proof -
  define h where "h = m_ListHead l"
  have r: "ring lk h (as @ p # bs)" using assms by (simp add: holds_def h_def)
  have d: "distinct (h # as @ p # bs)" "LNull \<notin> set (h # as @ p # bs)" using r by (auto simp: ring_def)
  have lall: "linked lk ((h # as) @ p # bs @ [h])" using r by (simp add: ring_def)
  obtain ys u where u: "h # as = ys @ [u]" by (metis list.distinct(1) rev_exhaust)
  obtain n zs where n: "bs @ [h] = n # zs" by (cases bs) auto
  have "linked lk ((h # as) @ [p])" "linked lk (p # bs @ [h])"
    using lall linked_append by blast+
  moreover have "(h # as) @ [p] = ys @ u # [p]" using u by (metis append.assoc append_Cons append_Nil)
  ultimately have "linked lk (ys @ u # [p])" "linked lk (p # n # zs)" using n by metis+
  then have L: "linked lk (ys @ [u])" "Flink lk u = p" "Blink lk p = u" "Flink lk p = n" "Blink lk n = p"
    "linked lk (n # zs)" using linked_append [of lk ys u "[p]"] by auto
  have mem: "u \<in> set (h # as)" "n \<in> set (bs @ [h])" using u n by simp_all
  then have ne: "u \<noteq> p" "n \<noteq> p" "u \<noteq> LNull" "n \<noteq> LNull" "p \<noteq> LNull" using d by auto
  define lk' where "lk' = lk\<lparr>Flink := (Flink lk)(u := n, p := LNull), Blink := (Blink lk)(n := u, p := LNull)\<rparr>"
  define l' where "l' = (let l = l\<lparr>m_dwListCount := m_dwListCount l - 1\<rparr> in
    if m_pCursor l = p then l\<lparr>m_pCursor := n\<rparr> else l)"
  have cnt: "m_dwListCount l = of_nat (Suc (length (as @ bs)))" "Suc (length (as @ bs)) < 4294967296"
    using assms by (auto simp: holds_def)
  have "m_dwListCount l \<noteq> 0"
    using dword_of_nat_eq [of "Suc (length (as @ bs))" 0] cnt by (simp del: of_nat_Suc)
  then have run: "RemoveFromList p (l, lk) = Some (ERROR_SUCCESS, l', lk')"
    using L ne d(2)
    by (simp add: RemoveFromList_def set_Flink_def set_Blink_def lk'_def l'_def Let_def)
  have un: "u \<notin> set ys" "u \<notin> set bs" "n \<notin> set as" "p \<notin> set (ys @ [u])" "p \<notin> set (n # zs)"
    "n \<notin> set zs" "distinct (n # zs)"
  proof -
    have sets: "set (ys @ [u]) = set (h # as)" "set (n # zs) = set (bs @ [h])" using u n by metis+
    have "distinct (h # as)" "distinct (bs @ [h])" using d(1) by auto
    then have dys: "distinct (ys @ [u])" "distinct (n # zs)" using u n by metis+
    show "u \<notin> set ys" "distinct (n # zs)" "n \<notin> set zs" using dys n by auto
    show "u \<notin> set bs" "n \<notin> set as" using d(1) mem by auto
    show "p \<notin> set (ys @ [u])" "p \<notin> set (n # zs)" unfolding sets using d(1) by auto
  qed
  have "linked lk' (ys @ [u])"
  proof (rule linked_cong [OF L(1)])
    show "\<forall>a \<in> set (butlast (ys @ [u])). Flink lk' a = Flink lk a"
      using un by (auto simp: lk'_def)
    have "tl (ys @ [u]) = as" using u by (metis list.sel(3))
    then show "\<forall>b \<in> set (tl (ys @ [u])). Blink lk' b = Blink lk b"
      using un(3) d(1) by (auto simp: lk'_def)
  qed
  moreover have "linked lk' (n # zs)"
  proof (rule linked_cong [OF L(6)])
    have "butlast (n # zs) = bs" using n by (metis butlast_snoc)
    then show "\<forall>a \<in> set (butlast (n # zs)). Flink lk' a = Flink lk a"
      using un(2) d(1) by (auto simp: lk'_def)
    show "\<forall>b \<in> set (tl (n # zs)). Blink lk' b = Blink lk b"
      using un by (auto simp: lk'_def)
  qed
  moreover have "Flink lk' u = n" "Blink lk' n = u" using ne by (auto simp: lk'_def)
  ultimately have "linked lk' (ys @ u # n # zs)" using linked_append [of lk' ys u "n # zs"] by simp
  moreover have "h # (as @ bs) @ [h] = ys @ u # n # zs"
    using u n by (metis append.assoc append_Cons append_Nil)
  ultimately have "linked lk' (h # (as @ bs) @ [h])" by metis
  then have ring': "ring lk' h (as @ bs)" using d unfolding ring_def by auto
  have cur: "m_pCursor l' = (if m_pCursor l = p then hd (bs @ [h]) else m_pCursor l)"
    "m_ListHead l' = h" "m_dwListCount l' = of_nat (length (as @ bs))"
    using n cnt(1) by (auto simp: l'_def Let_def h_def)
  have "m_pCursor l' \<in> set (h # as @ bs)"
    using cur(1) mem(2) n assms by (auto simp: holds_def h_def)
  then have "holds (l', lk') (as @ bs)"
    using ring' cur cnt(2) by (simp add: holds_def)
  then show ?thesis
    using run cur mem unfolding h_def by (auto simp: lk'_def)
qed


text \<open>A list of one kind is not touched by changes to entries outside it.\<close>

lemma holds_frame:
  assumes "holds (l, lk) xs" "\<And>q. q \<in> set (m_ListHead l # xs) \<Longrightarrow> Flink lk' q = Flink lk q \<and> Blink lk' q = Blink lk q"
  shows "holds (l, lk') xs"
proof -
  have "linked lk' (m_ListHead l # xs @ [m_ListHead l])"
  proof (rule linked_cong)
    show "linked lk (m_ListHead l # xs @ [m_ListHead l])" using assms(1) by (simp add: holds_def ring_def)
  qed (use assms(2) in \<open>auto dest: in_set_butlastD\<close>)
  then show ?thesis using assms(1) by (auto simp: holds_def ring_def)
qed

section \<open>The list as an interface\<close>

text \<open>
  What the callers rely on: appending puts an entry at the end, removing takes it out wherever it is,
  and both leave the entries outside alone.
\<close>

locale entry_list =
  fixes has :: "'s \<Rightarrow> 'e list \<Rightarrow> bool"
    and fresh :: "'s \<Rightarrow> 'e list \<Rightarrow> 'e \<Rightarrow> bool"
    and append :: "'e \<Rightarrow> 's \<Rightarrow> 's option"
    and remove :: "'e \<Rightarrow> 's \<Rightarrow> (DWORD \<times> 's) option"
  assumes append_law: "has s xs \<Longrightarrow> fresh s xs p \<Longrightarrow> \<exists>s'. append p s = Some s' \<and> has s' (xs @ [p])"
    and remove_law: "has s xs \<Longrightarrow> p \<in> set xs \<Longrightarrow>
      \<exists>s'. remove p s = Some (ERROR_SUCCESS, s') \<and> has s' (remove1 p xs)"
    and fresh_new: "fresh s xs p \<Longrightarrow> p \<notin> set xs"
begin

text \<open>An entry that is put in can be taken out again, which restores the list.\<close>

lemma append_remove:
  assumes "has s xs" "fresh s xs p"
  shows "\<exists>s1 s2. append p s = Some s1 \<and> remove p s1 = Some (ERROR_SUCCESS, s2) \<and> has s2 xs"
proof -
  obtain s1 where s1: "append p s = Some s1" "has s1 (xs @ [p])" using append_law assms by blast
  have "remove1 p (xs @ [p]) = xs" using fresh_new [OF assms(2)] by (simp add: remove1_append)
  then show ?thesis using remove_law [OF s1(2), of p] s1(1) by fastforce
qed

text \<open>Removing all entries one by one, in any order, empties the list.\<close>

fun remove_all :: "'e list \<Rightarrow> 's \<Rightarrow> 's option" where
  "remove_all [] s = Some s"
| "remove_all (p # ps) s = do { (_, s) \<leftarrow> remove p s; remove_all ps s }"

lemma remove_all_empties:
  "has s xs \<Longrightarrow> mset ps = mset xs \<Longrightarrow> \<exists>s'. remove_all ps s = Some s' \<and> has s' []"
proof (induction ps arbitrary: s xs)
  case (Cons p ps)
  have "p \<in> set xs" using Cons.prems(2) by (metis list.set_intros(1) mset_eq_setD)
  moreover have "mset ps = mset (remove1 p xs)"
    using Cons.prems(2) by (metis add_mset_remove_trivial mset.simps(2) mset_remove1)
  ultimately show ?case
    using Cons.IH remove_law [OF Cons.prems(1), of p] by fastforce
qed simp

end

definition io_fresh :: "CIOList \<times> links \<Rightarrow> lref list \<Rightarrow> lref \<Rightarrow> bool" where
  "io_fresh s xs p \<longleftrightarrow> p \<notin> set (m_ListHead (fst s) # xs) \<and> p \<noteq> LNull \<and> Suc (length xs) < 4294967296"

interpretation iol: entry_list holds io_fresh AppendToList RemoveFromList
proof unfold_locales
  fix s :: "CIOList \<times> links" and xs p
  assume s: "holds s xs"
  show "\<exists>s'. AppendToList p s = Some s' \<and> holds s' (xs @ [p])" if "io_fresh s xs p"
    using that s AppendToList_holds [of "fst s" "snd s" xs p] by (fastforce simp: io_fresh_def)
  show "\<exists>s'. RemoveFromList p s = Some (ERROR_SUCCESS, s') \<and> holds s' (remove1 p xs)" if p: "p \<in> set xs"
  proof -
    obtain as bs where x: "xs = as @ p # bs" "p \<notin> set as" using split_list_first [OF p] by blast
    then have "remove1 p xs = as @ bs" by (simp add: remove1_append)
    then show ?thesis using RemoveFromList_holds [of "fst s" "snd s" as p bs] s x(1) by fastforce
  qed
next
  fix s :: "CIOList \<times> links" and xs p
  show "io_fresh s xs p \<Longrightarrow> p \<notin> set xs" by (simp add: io_fresh_def)
qed

text \<open>
  C5.  The pointer manipulation of \<^verbatim>\<open>CIOList\<close> implements a list: removing an entry of a list that holds
  \<^term>\<open>xs\<close> succeeds, leaves the other entries linked in order with the right count, clears the links
  of the removed entry, and moves a cursor that stood on it to its successor, so that a time-out scan
  under way never stands on an entry that has left the list.
\<close>

theorem RemoveFromList_keeps_ring_and_cursor:
  assumes "holds (l, lk) (as @ p # bs)"
  shows "\<exists>l' lk'. RemoveFromList p (l, lk) = Some (ERROR_SUCCESS, l', lk') \<and>
    holds (l', lk') (as @ bs) \<and> Flink lk' p = LNull \<and> Blink lk' p = LNull \<and>
    m_pCursor l' = (if m_pCursor l = p then hd (bs @ [m_ListHead l]) else m_pCursor l) \<and>
    m_pCursor l' \<noteq> p"
proof -
  obtain l' lk' where r: "RemoveFromList p (l, lk) = Some (ERROR_SUCCESS, l', lk')"
    "holds (l', lk') (as @ bs)" "m_ListHead l' = m_ListHead l" "Flink lk' p = LNull" "Blink lk' p = LNull"
    "m_pCursor l' = (if m_pCursor l = p then hd (bs @ [m_ListHead l]) else m_pCursor l)"
    using RemoveFromList_holds [OF assms] by blast
  have "p \<notin> set (m_ListHead l # as @ bs)" using assms by (auto simp: holds_def ring_def)
  moreover have "m_pCursor l' \<in> set (m_ListHead l # as @ bs)" using r(2,3) by (simp add: holds_def)
  ultimately show ?thesis using r by metis
qed

text \<open>A list with two entries and the cursor on the first.\<close>

definition demo_list :: "CIOList \<times> links" where
  "demo_list = (\<lparr>m_ListHead = LHead True, m_pCursor = LEntry 4, m_dwListCount = 2\<rparr>,
     \<lparr>Flink = (\<lambda>_. LNull)(LHead True := LEntry 4, LEntry 4 := LEntry 5, LEntry 5 := LHead True),
      Blink = (\<lambda>_. LNull)(LHead True := LEntry 5, LEntry 5 := LEntry 4, LEntry 4 := LHead True)\<rparr>)"

lemma demo_list_holds: "holds demo_list ([] @ LEntry 4 # [LEntry 5])"
  by (simp add: holds_def demo_list_def ring_def)

theorem RemoveFromList_keeps_ring_and_cursor_witness:
  "\<exists>l' lk'. RemoveFromList (LEntry 4) (fst demo_list, snd demo_list) = Some (ERROR_SUCCESS, l', lk') \<and>
    holds (l', lk') ([] @ [LEntry 5]) \<and> Flink lk' (LEntry 4) = LNull \<and> Blink lk' (LEntry 4) = LNull \<and>
    m_pCursor l' = (if m_pCursor (fst demo_list) = LEntry 4
       then hd ([LEntry 5] @ [m_ListHead (fst demo_list)]) else m_pCursor (fst demo_list)) \<and>
    m_pCursor l' \<noteq> LEntry 4"
  by (rule RemoveFromList_keeps_ring_and_cursor) (use demo_list_holds in simp)

text \<open>
  Whatever is appended can be removed again: appending an entry that is not in the list puts it at the
  end, and removing it then restores the list that was there before.
\<close>

theorem AppendToList_RemoveFromList:
  assumes "holds s xs" "io_fresh s xs p"
  shows "\<exists>s1 s2. AppendToList p s = Some s1 \<and> holds s1 (xs @ [p]) \<and>
    RemoveFromList p s1 = Some (ERROR_SUCCESS, s2) \<and> holds s2 xs"
  using iol.append_remove [OF assms] iol.append_law [OF assms] by fastforce

theorem AppendToList_RemoveFromList_witness:
  "\<exists>s1 s2. AppendToList (LEntry 9) demo_list = Some s1 \<and>
    holds s1 (([] @ LEntry 4 # [LEntry 5]) @ [LEntry 9]) \<and>
    RemoveFromList (LEntry 9) s1 = Some (ERROR_SUCCESS, s2) \<and> holds s2 ([] @ LEntry 4 # [LEntry 5])"
  by (rule AppendToList_RemoveFromList [OF demo_list_holds]) (simp add: io_fresh_def demo_list_def)

text \<open>An entry that is in no list is refused.\<close>

lemma RemoveFromList_twice:
  assumes "Flink lk p = LNull"
  shows "RemoveFromList p (l, lk) = Some (ERROR_INVALID_DATA, l, lk)"
  using assms by (simp add: RemoveFromList_def)

end
