(* ===== verification/Socket_Pool.thy ===== *)
theory Socket_Pool
  imports Nt_Auth Io_Lists
begin

text \<open>
  The socket pool, \<^verbatim>\<open>CSocketPool\<close> of \<^verbatim>\<open>pop3/service/pop3svc/socketpool.cpp\<close>: the main socket, the
  sockets that wait for a connection, the counts that bound them and the reuse of contexts; and
  \<^verbatim>\<open>POP3_CONTEXT::Reset\<close>, which the pool calls.  The counters are \<^verbatim>\<open>LONG\<close>s that stay between 0 and the
  configured maximum, so they are integers here.
\<close>

section \<open>The code\<close>

subsection \<open>Contexts\<close>

definition ResetContext :: "'w win32 \<Rightarrow> POP3_CONTEXT \<times> 'w glob \<Rightarrow> POP3_CONTEXT \<times> 'w glob" where
  "ResetContext api s = (case s of (ctx, g) \<Rightarrow>
     case Cleanup api (m_AuthServer ctx, g) of (a, g) \<Rightarrow>
       (ctx\<lparr>m_dwCurrentState := INIT_STATE, m_bFileTransmitPending := False, m_bCommandComplete := True,
            m_dwCommandSize := 0, m_wszUserName := [], m_szPassword := [], m_szDomainName := [],
            m_szCommandBuffer := [], m_cPswdSize := 0, m_dwAuthStatus := 0, m_dwFailedAuthCount := 0,
            m_AuthServer := a\<rparr>, g))"

text \<open>The members before the constructor's \<^verbatim>\<open>Reset\<close>; what \<^verbatim>\<open>Reset\<close> does not set is set before it is read.\<close>

definition raw_POP3_CONTEXT :: POP3_CONTEXT where
  "raw_POP3_CONTEXT = \<lparr>m_dwCurrentState = INIT_STATE, m_bFileTransmitPending = False,
     m_bCommandComplete = True, m_dwCommandSize = 0, m_szCommandBuffer = [], m_wszUserName = [],
     m_szDomainName = [], m_szPassword = [], m_wszGreeting = [], m_cPswdSize = 0,
     m_MailBox = new_CMailBox, m_AuthServer = new_CAuthServer, m_dwAuthStatus = 0,
     m_dwFailedAuthCount = 0\<rparr>"

definition new_POP3_CONTEXT :: "'w win32 \<Rightarrow> 'w glob \<Rightarrow> POP3_CONTEXT \<times> 'w glob" where
  "new_POP3_CONTEXT api g = ResetContext api (raw_POP3_CONTEXT, g)"

definition raw_IO_CONTEXT :: IO_CONTEXT where
  "raw_IO_CONTEXT = \<lparr>m_hAsyncIO = NULL_HANDLE, m_ConType = FILE_IO, m_dwLastIOTime = 0,
     m_dwConnectionTime = 0, m_lLock = UNLOCKED, m_Buffer = []\<rparr>"

subsection \<open>Lists and counters inside the globals\<close>

definition AppendToFree :: "nat \<Rightarrow> 'w glob \<Rightarrow> 'w glob option" where
  "AppendToFree a g = do {
     (l, lk) \<leftarrow> AppendToList (LEntry a) (g_FreeList g, g_links g);
     Some (g\<lparr>g_FreeList := l, g_links := lk\<rparr>) }"

definition RemoveFromFree :: "nat \<Rightarrow> 'w glob \<Rightarrow> (DWORD \<times> 'w glob) option" where
  "RemoveFromFree a g = do {
     (r, l, lk) \<leftarrow> RemoveFromList (LEntry a) (g_FreeList g, g_links g);
     Some (r, g\<lparr>g_FreeList := l, g_links := lk\<rparr>) }"

definition AppendToBusy :: "nat \<Rightarrow> 'w glob \<Rightarrow> 'w glob option" where
  "AppendToBusy a g = do {
     (l, lk) \<leftarrow> AppendToList (LEntry a) (g_BusyList g, g_links g);
     Some (g\<lparr>g_BusyList := l, g_links := lk\<rparr>) }"

definition RemoveFromBusy :: "nat \<Rightarrow> 'w glob \<Rightarrow> (DWORD \<times> 'w glob) option" where
  "RemoveFromBusy a g = do {
     (r, l, lk) \<leftarrow> RemoveFromList (LEntry a) (g_BusyList g, g_links g);
     Some (r, g\<lparr>g_BusyList := l, g_links := lk\<rparr>) }"

definition on_pool :: "(CSocketPool \<Rightarrow> CSocketPool) \<Rightarrow> 'w glob \<Rightarrow> 'w glob" where
  "on_pool f g = g\<lparr>g_SocketPool := f (g_SocketPool g)\<rparr>"

definition add_total :: "int \<Rightarrow> 'w glob \<Rightarrow> 'w glob" where
  "add_total d = on_pool (\<lambda>p. p\<lparr>m_lTotalSocketCount := m_lTotalSocketCount p + d\<rparr>)"

definition add_free :: "int \<Rightarrow> 'w glob \<Rightarrow> 'w glob" where
  "add_free d = on_pool (\<lambda>p. p\<lparr>m_lFreeSocketCount := m_lFreeSocketCount p + d\<rparr>)"

abbreviation "total_sockets g \<equiv> m_lTotalSocketCount (g_SocketPool g)"
abbreviation "free_sockets g \<equiv> m_lFreeSocketCount (g_SocketPool g)"
abbreviation "max_sockets g \<equiv> m_lMaxSocketCount (g_SocketPool g)"
abbreviation "min_sockets g \<equiv> m_lMinSocketCount (g_SocketPool g)"
abbreviation "threshold g \<equiv> m_lThreshold (g_SocketPool g)"

subsection \<open>The pool\<close>

definition new_CSocketPool :: CSocketPool where
  "new_CSocketPool = \<lparr>m_sMainSocket = INVALID_HANDLE_VALUE, m_lMaxSocketCount = 0, m_lMinSocketCount = 0,
     m_lThreshold = 0, m_lTotalSocketCount = 0, m_lFreeSocketCount = 0, m_bPoolInit = False,
     m_lAddThreadToken = 1, m_csInitGuard = 0\<rparr>"

definition IsMaxSocketUsed :: "'w glob \<Rightarrow> bool" where
  "IsMaxSocketUsed g \<longleftrightarrow> total_sockets g = max_sockets g \<and> free_sockets g = 0"

definition IsMoreSocketsNeeded :: "'w glob \<Rightarrow> bool" where
  "IsMoreSocketsNeeded g =
     (if g_dwServerStatus g \<noteq> SERVICE_RUNNING \<and> g_dwServerStatus g \<noteq> SERVICE_PAUSED then False
      else total_sockets g < min_sockets g \<or>
           free_sockets g < threshold g \<and> total_sockets g < max_sockets g)"

definition MaintainSocketCount :: "'w glob \<Rightarrow> bool" where
  "MaintainSocketCount g =
     (if g_dwServerStatus g \<noteq> SERVICE_RUNNING then False
      else free_sockets g < threshold g \<and> sint (word_of_int (total_sockets g + threshold g) :: DWORD) \<ge> max_sockets g \<or>
           total_sockets g \<le> min_sockets g)"

definition AssociateContext :: "'w win32 \<Rightarrow> IO_CONTEXT \<Rightarrow> 'w glob \<Rightarrow> bool \<times> 'w glob" where
  "AssociateContext api ioc g =
     (if \<not> g_bThreadPoolInit g then (False, g)
      else sys (\<lambda>w. CreateIoCompletionPort api w (m_hAsyncIO ioc)) g)"

definition CreateAcceptSocket :: "'w win32 \<Rightarrow> nat \<Rightarrow> IO_CONTEXT \<times> 'w glob
    \<Rightarrow> (bool \<times> IO_CONTEXT \<times> 'w glob) option" where
  "CreateAcceptSocket api a s = (case s of (ioc, g) \<Rightarrow>
     case sys (WSASocket api) g of (sNew, g) \<Rightarrow>
       if sNew = INVALID_HANDLE_VALUE
       then Some (False, ioc, LogEvent POP3SVR_FAILED_TO_CREATE_SOCKET g)
       else do {
         let ioc = ioc\<lparr>m_hAsyncIO := sNew, m_ConType := CONNECTION_SOCKET, m_lLock := UNLOCKED\<rparr>;
         g \<leftarrow> AppendToFree a g;
         let (ok, g) = AssociateContext api ioc g;
         let (ok, g) =
           (if \<not> ok then (False, g)
            else (case sys (\<lambda>w. AcceptEx api w (m_sMainSocket (g_SocketPool g)) sNew) g of (ok, g) \<Rightarrow>
              if ok then (True, g)
              else if WSAGetLastError api (g_world g) \<noteq> ERROR_IO_PENDING
              then (False, LogEvent POP3SVR_CALL_ACCEPTEX_FAILED g)
              else (True, g)));
         if ok then Some (True, ioc, g)
         else do {
           (_, g) \<leftarrow> RemoveFromFree a (emit (Closed sNew) (sysw (\<lambda>w. closesocket api w sNew) g));
           Some (False, ioc, g) } })"

text \<open>
  The loop of \<^verbatim>\<open>AddSocketsP\<close>.  A new context gets the next address; it is in the heap once its socket
  waits for a connection.
\<close>

fun AddSocketsP :: "'w win32 \<Rightarrow> nat \<Rightarrow> 'w glob \<Rightarrow> (bool \<times> 'w glob) option" where
  "AddSocketsP api 0 g = Some (True, g)"
| "AddSocketsP api (Suc n) g =
     (if g_dwServerStatus g \<noteq> SERVICE_RUNNING \<and> g_dwServerStatus g \<noteq> SERVICE_START_PENDING
      then Some (True, g)
      else (let g = add_total 1 g in
        if max_sockets g < total_sockets g then Some (True, add_total (-1) g)
        else (case sys (alloc api) g of (ok, g) \<Rightarrow>
          if \<not> ok then Some (False, add_total (-1) (LogEvent POP3SVR_NOT_ENOUGH_MEMORY g))
          else (case sys (alloc api) g of (ok, g) \<Rightarrow>
            if \<not> ok then Some (False, add_total (-1) (LogEvent POP3SVR_NOT_ENOUGH_MEMORY g))
            else do {
              let (ctx, g) = new_POP3_CONTEXT api g;
              let a = g_nextAddr g;
              (ok, ioc, g) \<leftarrow> CreateAcceptSocket api a (raw_IO_CONTEXT, g\<lparr>g_nextAddr := Suc a\<rparr>);
              if \<not> ok then Some (False, add_total (-1) g)
              else (let g = add_free 1 (g\<lparr>g_heap := (g_heap g)(a := Some (ioc, ctx))\<rparr>) in
                if total_sockets g \<ge> max_sockets g then Some (True, g)
                else AddSocketsP api n g) }))))"

text \<open>A \<^verbatim>\<open>LONG\<close> passed as a \<^verbatim>\<open>DWORD\<close>.\<close>

definition as_DWORD :: "int \<Rightarrow> nat" where
  "as_DWORD l = unat (word_of_int l :: DWORD)"

definition AddSockets :: "'w win32 \<Rightarrow> 'w glob \<Rightarrow> (bool \<times> 'w glob) option" where
  "AddSockets api g =
     (if g_dwServerStatus g \<noteq> SERVICE_RUNNING then Some (True, g)
      else if m_lAddThreadToken (g_SocketPool g) \<noteq> 0 then do {
        (ok, g) \<leftarrow> AddSocketsP api (as_DWORD (threshold g)) (on_pool (m_lAddThreadToken_update (\<lambda>_. 0)) g);
        Some (ok, on_pool (m_lAddThreadToken_update (\<lambda>_. 1)) g) }
      else Some (True, g))"

definition DecrementFreeSocketCount :: "'w win32 \<Rightarrow> 'w glob \<Rightarrow> 'w glob option" where
  "DecrementFreeSocketCount api g =
     (let g = add_free (-1) g in
      if free_sockets g = 0 then do { (_, g) \<leftarrow> AddSockets api g; Some g } else Some g)"

definition DecrementTotalSocketCount :: "'w win32 \<Rightarrow> 'w glob \<Rightarrow> 'w glob option" where
  "DecrementTotalSocketCount api g =
     (let g = add_total (-1) g in
      if total_sockets g = 0 then do { (_, g) \<leftarrow> AddSockets api g; Some g } else Some g)"

definition ReuseIOContext :: "'w win32 \<Rightarrow> nat \<Rightarrow> (IO_CONTEXT \<times> POP3_CONTEXT) \<times> 'w glob
    \<Rightarrow> (bool \<times> (IO_CONTEXT \<times> POP3_CONTEXT) \<times> 'w glob) option" where
  "ReuseIOContext api a s = (case s of ((ioc, ctx), g) \<Rightarrow>
     let g = add_total 1 g in
     if total_sockets g > max_sockets g then Some (False, (ioc, ctx), add_total (-1) g)
     else (case ResetContext api (ctx, g) of (ctx, g) \<Rightarrow> do {
       (ok, ioc, g) \<leftarrow> CreateAcceptSocket api a (ioc, g);
       Some (if ok then (True, (ioc, ctx), add_free 1 g) else (False, (ioc, ctx), add_total (-1) g)) }))"

subsection \<open>The main socket\<close>

text \<open>
  The further calls of the system that start and stop the pool use: the version of the system, the
  module and its functions, the list of addresses (family, type and protocol of each), and the calls on
  the main socket.
\<close>

record OSVERSIONINFOEX =
  dwMajorVersion :: DWORD
  dwMinorVersion :: DWORD
  wProductType :: nat
  wSuiteMask :: DWORD

record 'w netapi =
  GetVersionEx :: "'w \<Rightarrow> OSVERSIONINFOEX option \<times> 'w"
  GetModuleHandle :: "'w \<Rightarrow> bool \<times> 'w"
  GetAddrInfoProcs :: "'w \<Rightarrow> bool \<times> 'w"
  getaddrinfo :: "'w \<Rightarrow> 16 word \<Rightarrow> nat list option \<times> 'w"
  bind_socket :: "'w \<Rightarrow> HANDLE \<Rightarrow> 16 word \<Rightarrow> bool \<times> 'w"
  listen_socket :: "'w \<Rightarrow> HANDLE \<Rightarrow> int \<Rightarrow> bool \<times> 'w"
  WSAStartup :: "'w \<Rightarrow> DWORD \<times> 'w"
  WSACleanup :: "'w \<Rightarrow> bool \<times> 'w"

abbreviation (input) "VER_NT_DOMAIN_CONTROLLER \<equiv> (2 :: nat)"
abbreviation (input) "VER_NT_SERVER \<equiv> (3 :: nat)"
abbreviation (input) "PF_INET \<equiv> (2 :: nat)"
abbreviation (input) "PF_INET6 \<equiv> (23 :: nat)"
definition VER_SUITE_SMALLBUSINESS :: DWORD where "VER_SUITE_SMALLBUSINESS = 0x1"
definition VER_SUITE_SMALLBUSINESS_RESTRICTED :: DWORD where "VER_SUITE_SMALLBUSINESS_RESTRICTED = 0x20"
definition VER_SUITE_PERSONAL :: DWORD where "VER_SUITE_PERSONAL = 0x200"

definition supported_os :: "OSVERSIONINFOEX \<Rightarrow> bool" where
  "supported_os v \<longleftrightarrow> dwMajorVersion v \<ge> 5 \<and> dwMinorVersion v > 1 \<and>
     (wProductType v = VER_NT_SERVER \<or> wProductType v = VER_NT_DOMAIN_CONTROLLER) \<and>
     wSuiteMask v AND VER_SUITE_SMALLBUSINESS = 0 \<and>
     wSuiteMask v AND VER_SUITE_SMALLBUSINESS_RESTRICTED = 0 \<and>
     wSuiteMask v AND VER_SUITE_PERSONAL = 0"

text \<open>The first address of the wanted family for which a socket can be made.\<close>

fun first_socket :: "'w win32 \<Rightarrow> DWORD \<Rightarrow> nat list \<Rightarrow> 'w glob \<Rightarrow> HANDLE \<times> 'w glob" where
  "first_socket api ipVersion [] g = (INVALID_HANDLE_VALUE, g)"
| "first_socket api ipVersion (family # rest) g =
     (if family = PF_INET \<and> ipVersion \<noteq> 6 \<or> ipVersion = 6 \<and> family = PF_INET6 then
        (case sys (WSASocket api) g of (s, g) \<Rightarrow>
           if s = INVALID_HANDLE_VALUE then first_socket api ipVersion rest g else (s, g))
      else first_socket api ipVersion rest g)"

definition set_main :: "HANDLE \<Rightarrow> 'w glob \<Rightarrow> 'w glob" where
  "set_main s = on_pool (m_sMainSocket_update (\<lambda>_. s))"

text \<open>The code from the label \<^verbatim>\<open>EXIT\<close> on: a failed start closes the main socket.\<close>

definition main_exit :: "'w win32 \<Rightarrow> bool \<Rightarrow> 'w glob \<Rightarrow> bool \<times> 'w glob" where
  "main_exit api ok g =
     (let s = m_sMainSocket (g_SocketPool g)
      in if \<not> ok \<and> s \<noteq> INVALID_HANDLE_VALUE
         then (ok, set_main INVALID_HANDLE_VALUE (emit (Closed s) (sysw (\<lambda>w. closesocket api w s) g)))
         else (ok, g))"

definition open_main :: "'w win32 \<Rightarrow> 'w netapi \<Rightarrow> 16 word \<Rightarrow> int \<Rightarrow> (HANDLE \<times> 'w glob) \<Rightarrow> bool \<times> 'w glob" where
  "open_main api net usPort iBackLog s = (case s of (sock, g) \<Rightarrow>
     if sock = INVALID_HANDLE_VALUE then main_exit api False (LogEvent POP3SVR_FAILED_TO_CREATE_SOCKET g)
     else (let g = set_main sock g; (ok, g) = sys (\<lambda>w. bind_socket net w sock usPort) g in
       if \<not> ok then main_exit api False (LogEvent POP3SVR_FAILED_TO_BIND_MAIN_SOCKET g)
       else (case sys (\<lambda>w. listen_socket net w sock iBackLog) g of (ok, g) \<Rightarrow>
         if \<not> ok then main_exit api False (LogEvent POP3SVR_FAILED_TO_LISTEN_ON_MAIN_SOCKET g)
         else (case AssociateContext api
                 (raw_IO_CONTEXT\<lparr>m_hAsyncIO := sock, m_ConType := LISTEN_SOCKET\<rparr>) g of (ok, g) \<Rightarrow>
           main_exit api ok g))))"

definition CreateMainSocket :: "'w win32 \<Rightarrow> 'w netapi \<Rightarrow> DWORD \<Rightarrow> 16 word \<Rightarrow> int \<Rightarrow> 'w glob \<Rightarrow> bool \<times> 'w glob" where
  "CreateMainSocket api net ipVersion usPort iBackLog g =
     (case sys (GetVersionEx net) g of
        (None, g) \<Rightarrow> (False, g)
      | (Some v, g) \<Rightarrow>
          if \<not> supported_os v then (False, LogEvent POP3SVR_UNSUPPORTED_OS g)
          else if dwMinorVersion v > 0 then
            (case sys (GetModuleHandle net) g of (ok, g) \<Rightarrow>
               if \<not> ok then (False, g)
               else (case sys (GetAddrInfoProcs net) g of (ok, g) \<Rightarrow>
                 if \<not> ok then (False, g)
                 else (case sys (\<lambda>w. getaddrinfo net w usPort) g of
                     (None, g) \<Rightarrow> main_exit api False (LogEvent POP3SVR_FAILED_TO_CREATE_SOCKET g)
                   | (Some l, g) \<Rightarrow> open_main api net usPort iBackLog (first_socket api ipVersion l g))))
          else open_main api net usPort iBackLog (sys (WSASocket api) g))"

text \<open>The sum of the two \<^verbatim>\<open>DWORD\<close>s wraps around; the three values are then read as \<^verbatim>\<open>LONG\<close>s.\<close>

definition Initialize :: "'w win32 \<Rightarrow> 'w netapi \<Rightarrow> DWORD \<Rightarrow> DWORD \<Rightarrow> DWORD \<Rightarrow> DWORD \<Rightarrow> 16 word \<Rightarrow> int \<Rightarrow> 'w glob
    \<Rightarrow> (bool \<times> 'w glob) option" where
  "Initialize api net ipVersion dwMax dwMin dwThreshold usPort iBackLog g =
     (if \<not> (dwMax \<ge> dwMin + dwThreshold \<and> dwMin > 0)
      then Some (False, LogEvent EVENT_POP3_NO_CONFIG_DATA g)
      else if m_bPoolInit (g_SocketPool g) then Some (False, g)
      else (case sys (WSAStartup net) g of (iErr, g) \<Rightarrow>
        if iErr \<noteq> 0 then Some (False, LogEvent POP3SVR_WINSOCK_FAILED_TO_INIT g)
        else (let
          g = on_pool (\<lambda>p. p\<lparr>m_lMaxSocketCount := sint dwMax, m_lMinSocketCount := sint dwMin,
                m_lThreshold := sint dwThreshold, m_lFreeSocketCount := 0, m_lTotalSocketCount := 0\<rparr>) g;
          (ok, g) = CreateMainSocket api net ipVersion usPort iBackLog g
          in do {
            (ok, g) \<leftarrow> (if ok then AddSocketsP api (as_DWORD (min_sockets g)) g else Some (False, g));
            Some (ok, on_pool (m_bPoolInit_update (\<lambda>_. ok)) g) })))"

text \<open>
  \<^verbatim>\<open>Uninitialize\<close> enters the guard, and leaves it on every path but the one where \<^verbatim>\<open>WSACleanup\<close> fails.
\<close>

definition Uninitialize :: "'w win32 \<Rightarrow> 'w netapi \<Rightarrow> 'w glob \<Rightarrow> bool \<times> 'w glob" where
  "Uninitialize api net g =
     (let g = on_pool (\<lambda>p. p\<lparr>m_csInitGuard := Suc (m_csInitGuard p)\<rparr>) g;
          leave = on_pool (\<lambda>p. p\<lparr>m_csInitGuard := m_csInitGuard p - 1\<rparr>)
      in if m_bPoolInit (g_SocketPool g) then
           (let s = m_sMainSocket (g_SocketPool g);
                g = set_main INVALID_HANDLE_VALUE (emit (Closed s) (sysw (\<lambda>w. closesocket api w s) g));
                (ok, g) = sys (WSACleanup net) g
            in if \<not> ok then (False, LogEvent POP3SVR_WINSOCK_FAILED_TO_CLEANUP g)
               else (True, leave (on_pool (m_bPoolInit_update (\<lambda>_. False)) g)))
         else (True, leave g))"

section \<open>What the operations leave alone\<close>

text \<open>The part of the globals that the pool operations never change.\<close>

definition keeps :: "'w glob \<Rightarrow> 'w glob \<Rightarrow> bool" where
  "keeps g g' \<longleftrightarrow> g_PerfCounters g' = g_PerfCounters g \<and> g_MailRoot g' = g_MailRoot g \<and>
     g_dwServerStatus g' = g_dwServerStatus g \<and> g_cfg g' = g_cfg g \<and> g_auth g' = g_auth g \<and>
     max_sockets g' = max_sockets g \<and> min_sockets g' = min_sockets g \<and> threshold g' = threshold g"

lemma keeps_refl [simp]: "keeps g g"
  by (simp add: keeps_def)

lemma keeps_trans [trans]: "keeps a b \<Longrightarrow> keeps b c \<Longrightarrow> keeps a c"
  by (simp add: keeps_def)

lemma keeps_world [simp]: "keeps g (g\<lparr>g_world := w\<rparr>)" "keeps g (g\<lparr>g_nextAddr := n\<rparr>)"
  "keeps g (g\<lparr>g_heap := h\<rparr>)" "keeps g (emit e g)" "keeps g (LogEvent i g)" "keeps g (sysw f g)"
  "keeps g (add_total d g)" "keeps g (add_free d g)" "keeps g (on_pool (m_lAddThreadToken_update f2) g)"
  by (simp_all add: keeps_def emit_def LogEvent_def sysw_def add_total_def add_free_def on_pool_def)

lemma keeps_sys: "sys f g = (r, g') \<Longrightarrow> keeps g g' \<and> g_SocketPool g' = g_SocketPool g \<and>
    g_heap g' = g_heap g \<and> g_nextAddr g' = g_nextAddr g \<and> g_FreeList g' = g_FreeList g \<and>
    g_BusyList g' = g_BusyList g \<and> g_links g' = g_links g \<and> g_out g' = g_out g"
  by (auto simp: sys_def keeps_def split: prod.splits)

lemma pool_simps [simp]:
  "g_SocketPool (emit e g) = g_SocketPool g" "g_SocketPool (LogEvent i g) = g_SocketPool g"
  "g_SocketPool (sysw f g) = g_SocketPool g"
  "total_sockets (add_total d g) = total_sockets g + d" "free_sockets (add_total d g) = free_sockets g"
  "total_sockets (add_free d g) = total_sockets g" "free_sockets (add_free d g) = free_sockets g + d"
  "max_sockets (add_total d g) = max_sockets g" "max_sockets (add_free d g) = max_sockets g"
  "threshold (add_total d g) = threshold g" "threshold (add_free d g) = threshold g"
  "g_dwServerStatus (add_total d g) = g_dwServerStatus g" "g_dwServerStatus (add_free d g) = g_dwServerStatus g"
  by (simp_all add: emit_def LogEvent_def sysw_def add_total_def add_free_def on_pool_def)

lemma free_list_keeps:
  "AppendToFree a g = Some g' \<Longrightarrow> keeps g g' \<and> g_SocketPool g' = g_SocketPool g"
  "RemoveFromFree a g = Some (r, g') \<Longrightarrow> keeps g g' \<and> g_SocketPool g' = g_SocketPool g"
  by (auto simp: AppendToFree_def RemoveFromFree_def keeps_def split: bind_splits)

lemma AssociateContext_keeps:
  "AssociateContext api ioc g = (ok, g') \<Longrightarrow> keeps g g' \<and> g_SocketPool g' = g_SocketPool g"
  by (auto simp: AssociateContext_def split: if_splits dest: keeps_sys)

lemma Cleanup_keeps:
  "Cleanup api (a, g) = (a', g') \<Longrightarrow> keeps g g' \<and> g_SocketPool g' = g_SocketPool g"
  by (auto simp: Cleanup_def Let_def keeps_def sysw_def LogEvent_def emit_def split: if_splits)

lemma ResetContext_keeps:
  "ResetContext api (ctx, g) = (ctx', g') \<Longrightarrow> keeps g g' \<and> g_SocketPool g' = g_SocketPool g"
  by (auto simp: ResetContext_def dest: Cleanup_keeps split: prod.splits)

lemma CreateAcceptSocket_keeps:
  assumes "CreateAcceptSocket api a (ioc, g) = Some (ok, ioc', g')"
  shows "keeps g g' \<and> g_SocketPool g' = g_SocketPool g"
  using assms unfolding CreateAcceptSocket_def
  by (auto simp: Let_def keeps_def emit_def LogEvent_def sysw_def split: prod.splits if_splits bind_splits
      dest!: keeps_sys free_list_keeps AssociateContext_keeps)


section \<open>The bound on sockets\<close>

text \<open>
  What \<^verbatim>\<open>AddSocketsP\<close> does to the counters: every socket it adds counts as free, the maximum is not
  passed, and nothing else of the pool changes.
\<close>

definition grows :: "'w glob \<Rightarrow> 'w glob \<Rightarrow> bool" where
  "grows g g' \<longleftrightarrow> keeps g g' \<and> total_sockets g \<le> total_sockets g' \<and>
     free_sockets g' - free_sockets g = total_sockets g' - total_sockets g \<and>
     (total_sockets g \<le> max_sockets g \<longrightarrow> total_sockets g' \<le> max_sockets g)"

lemma grows_refl [simp]: "grows g g"
  by (simp add: grows_def)

lemma grows_trans: "grows a b \<Longrightarrow> grows b c \<Longrightarrow> grows a c"
  by (auto simp: grows_def keeps_def)

lemma grows_same: "keeps g g' \<Longrightarrow> g_SocketPool g' = g_SocketPool g \<Longrightarrow> grows g g'"
  by (simp add: grows_def)

lemma grows_undo: "keeps (add_total 1 g) g' \<Longrightarrow> g_SocketPool g' = g_SocketPool (add_total 1 g) \<Longrightarrow>
    grows g (add_total (-1) g')"
  by (auto simp: grows_def keeps_def add_total_def on_pool_def)

lemma grows_one:
  assumes "keeps (add_total 1 g) g'" "g_SocketPool g' = g_SocketPool (add_total 1 g)"
    "total_sockets g < max_sockets g"
  shows "grows g (add_free 1 (g'\<lparr>g_heap := h\<rparr>))"
  using assms by (auto simp: grows_def keeps_def add_total_def add_free_def on_pool_def)

lemma AddSocketsP_grows: "AddSocketsP api n g = Some (ok, g') \<Longrightarrow> grows g g'"
proof (induction n arbitrary: g)
  case (Suc n)
  let ?g0 = "add_total 1 g"
  obtain k1 g1 k2 g2 where al: "sys (alloc api) ?g0 = (k1, g1)" "sys (alloc api) g1 = (k2, g2)" by fastforce
  obtain ctx g3 where nc: "new_POP3_CONTEXT api g2 = (ctx, g3)" by fastforce
  have k: "keeps ?g0 g1" "g_SocketPool g1 = g_SocketPool ?g0" "keeps ?g0 g2" "g_SocketPool g2 = g_SocketPool ?g0"
    "keeps ?g0 g3" "g_SocketPool g3 = g_SocketPool ?g0"
    using keeps_sys [OF al(1)] keeps_sys [OF al(2)]
      ResetContext_keeps [OF nc [unfolded new_POP3_CONTEXT_def]] keeps_trans by metis+
  consider "g_dwServerStatus g \<noteq> SERVICE_RUNNING \<and> g_dwServerStatus g \<noteq> SERVICE_START_PENDING"
    | "g_dwServerStatus g = SERVICE_RUNNING \<or> g_dwServerStatus g = SERVICE_START_PENDING"
      "max_sockets g < total_sockets g + 1"
    | "g_dwServerStatus g = SERVICE_RUNNING \<or> g_dwServerStatus g = SERVICE_START_PENDING"
      "total_sockets g < max_sockets g"
    by fastforce
  then show ?case
  proof cases
    case 1
    then show ?thesis using Suc.prems by simp
  next
    case 2
    then show ?thesis using Suc.prems grows_undo [of g ?g0] by auto
  next
    case 3
    let ?a = "g_nextAddr g3"
    show ?thesis
    proof (cases "k1 \<and> k2")
      case False
      then have "g' = add_total (-1) (LogEvent POP3SVR_NOT_ENOUGH_MEMORY g1) \<or>
          g' = add_total (-1) (LogEvent POP3SVR_NOT_ENOUGH_MEMORY g2)"
        using Suc.prems 3 al by (auto simp: Let_def split: if_splits)
      then show ?thesis using grows_undo k by (metis keeps_world(5) keeps_trans pool_simps(2))
    next
      case True
      then obtain r where r: "CreateAcceptSocket api ?a (raw_IO_CONTEXT, g3\<lparr>g_nextAddr := Suc ?a\<rparr>) = Some r"
        using Suc.prems 3 al nc by (auto simp: Let_def split: bind_splits)
      obtain k3 ioc g4 where r3: "r = (k3, ioc, g4)" by (metis prod_cases3)
      have k4: "keeps ?g0 g4" "g_SocketPool g4 = g_SocketPool ?g0"
        using CreateAcceptSocket_keeps [OF r [unfolded r3]] keeps_world(2) [of g3 "Suc ?a"] k(5,6) keeps_trans
        by (metis, simp)
      let ?g5 = "add_free 1 (g4\<lparr>g_heap := (g_heap g4)(?a := Some (ioc, ctx))\<rparr>)"
      have "g' = add_total (-1) g4 \<or> g' = ?g5 \<or> AddSocketsP api n ?g5 = Some (ok, g')"
        using Suc.prems 3 al nc True r r3 by (auto simp: Let_def split: if_splits)
      moreover note grows_undo [OF k4] grows_one [OF k4 3(2), of "(g_heap g4)(?a := Some (ioc, ctx))"]
      ultimately show ?thesis using Suc.IH [of ?g5] grows_trans by blast
    qed
  qed
qed simp

lemma AddSockets_grows:
  assumes "AddSockets api g = Some (ok, g')"
  shows "grows g g'"
proof (cases "g_dwServerStatus g = SERVICE_RUNNING \<and> m_lAddThreadToken (g_SocketPool g) \<noteq> 0")
  case True
  then obtain g1 where g1: "AddSocketsP api (as_DWORD (threshold g)) (on_pool (m_lAddThreadToken_update (\<lambda>_. 0)) g)
      = Some (ok, g1)" "g' = on_pool (m_lAddThreadToken_update (\<lambda>_. 1)) g1"
    using assms by (auto simp: AddSockets_def split: bind_splits)
  show ?thesis
    using AddSocketsP_grows [OF g1(1)] g1(2) by (auto simp: grows_def keeps_def on_pool_def)
qed (use assms in \<open>auto simp: AddSockets_def split: if_splits\<close>)


lemma DecrementFreeSocketCount_grows:
  assumes "DecrementFreeSocketCount api g = Some g'"
  shows "grows (add_free (-1) g) g'"
  using assms AddSockets_grows
  by (fastforce simp: DecrementFreeSocketCount_def Let_def split: if_splits bind_splits)

lemma DecrementTotalSocketCount_grows:
  assumes "DecrementTotalSocketCount api g = Some g'"
  shows "grows (add_total (-1) g) g'"
  using assms AddSockets_grows
  by (fastforce simp: DecrementTotalSocketCount_def Let_def split: if_splits bind_splits)

lemma ReuseIOContext_grows:
  assumes "ReuseIOContext api a ((ioc, ctx), g) = Some (ok, c', g')"
  shows "grows g g' \<and> (ok \<longrightarrow> total_sockets g' = total_sockets g + 1) \<and> (\<not> ok \<longrightarrow> total_sockets g' = total_sockets g)"
proof (cases "total_sockets (add_total 1 g) > max_sockets (add_total 1 g)")
  case True
  then show ?thesis
    using assms grows_undo [of g "add_total 1 g"] by (auto simp: ReuseIOContext_def Let_def)
next
  case False
  obtain ctx1 g1 where r: "ResetContext api (ctx, add_total 1 g) = (ctx1, g1)" by fastforce
  obtain k ioc1 g2 where c: "CreateAcceptSocket api a (ioc, g1) = Some (k, ioc1, g2)"
    using assms False r by (auto simp: ReuseIOContext_def Let_def split: bind_splits)
  have k2: "keeps (add_total 1 g) g2" "g_SocketPool g2 = g_SocketPool (add_total 1 g)"
    using ResetContext_keeps [OF r] CreateAcceptSocket_keeps [OF c] keeps_trans by metis+
  have lt: "total_sockets g < max_sockets g" using False by simp
  have "g2\<lparr>g_heap := g_heap g2\<rparr> = g2" by simp
  then show ?thesis
    using assms False r c grows_undo [OF k2] grows_one [OF k2 lt, of "g_heap g2"] k2(2)
    by (auto simp: ReuseIOContext_def Let_def split: if_splits)
qed

text \<open>
  The pool as a state machine: a connection arrives on a free socket, a socket is closed, the pool is
  refilled, a closed context is reused.
\<close>

inductive pool_step :: "'w win32 \<Rightarrow> 'w glob \<Rightarrow> 'w glob \<Rightarrow> bool" for api where
  accept: "DecrementFreeSocketCount api g = Some g' \<Longrightarrow> pool_step api g g'"
| close: "DecrementTotalSocketCount api g = Some g' \<Longrightarrow> pool_step api g g'"
| refill: "AddSockets api g = Some (ok, g') \<Longrightarrow> pool_step api g g'"
| reuse: "ReuseIOContext api a ((ioc, ctx), g) = Some (ok, c', g') \<Longrightarrow> pool_step api g g'"

lemma grows_bound:
  "grows h g' \<Longrightarrow> total_sockets h \<le> max_sockets h \<Longrightarrow> max_sockets h = max_sockets g \<Longrightarrow>
   total_sockets g' \<le> max_sockets g' \<and> max_sockets g' = max_sockets g"
  by (auto simp: grows_def keeps_def)

lemma pool_step_bound:
  assumes "pool_step api g g'" "total_sockets g \<le> max_sockets g"
  shows "total_sockets g' \<le> max_sockets g' \<and> max_sockets g' = max_sockets g"
  using assms(1)
proof cases
  case accept
  from DecrementFreeSocketCount_grows [OF this] show ?thesis
    by (rule grows_bound) (use assms(2) in simp_all)
next
  case close
  from DecrementTotalSocketCount_grows [OF this] show ?thesis
    by (rule grows_bound) (use assms(2) in simp_all)
next
  case (refill ok)
  from AddSockets_grows [OF this] show ?thesis
    by (rule grows_bound) (use assms(2) in simp_all)
next
  case (reuse a ioc ctx ok c')
  from ReuseIOContext_grows [OF this, THEN conjunct1] show ?thesis
    by (rule grows_bound) (use assms(2) in simp_all)
qed



text \<open>A failed \<^verbatim>\<open>WSACleanup\<close> leaves the guard of the pool entered.\<close>

lemma Uninitialize_failure_keeps_guard:
  assumes "Uninitialize api net g = (False, g')"
  shows "m_csInitGuard (g_SocketPool g') = Suc (m_csInitGuard (g_SocketPool g))"
  using assms
  by (auto simp: Uninitialize_def Let_def on_pool_def set_main_def emit_def sysw_def sys_def LogEvent_def
      split: if_splits prod.splits)

end
