(* ===== verification/Pop3_Parse.thy ===== *)
theory Pop3_Parse
  imports Pop3_State
begin

text \<open>
  Reading a command, from \<^verbatim>\<open>pop3/service/pop3svc/pop3context.cpp\<close>: \<^verbatim>\<open>ParseCommand\<close>,
  \<^verbatim>\<open>GetNextStringParameter\<close>, \<^verbatim>\<open>GetNextNumParameter\<close> and \<^verbatim>\<open>IsEndOfCommand\<close>.  A pointer into the
  command buffer is the rest of the buffer from there on; reading behind the last byte that was written
  has no value.  \<^verbatim>\<open>isprint\<close>, \<^verbatim>\<open>isspace\<close> and \<^verbatim>\<open>isdigit\<close> are those of the C locale, false for bytes above
  126.
\<close>

section \<open>The code\<close>

datatype POP3_CMD = CMD_STAT | CMD_LIST | CMD_RETR | CMD_DELE | CMD_NOOP | CMD_RSET | CMD_QUIT
  | CMD_USER | CMD_PASS | CMD_UIDL | CMD_APOP | CMD_TOP | CMD_AUTH | CMD_UNKNOWN

abbreviation (input) "COMMAND_SIZE \<equiv> (4 :: nat)"
abbreviation (input) "MAX_INT_LEN \<equiv> (9 :: nat)"

text \<open>\<^verbatim>\<open>cszCommands\<close> with \<^verbatim>\<open>ciCommandSize\<close> and the command each entry stands for, in order.\<close>

definition Commands :: "(string \<times> nat \<times> POP3_CMD) list" where
  "Commands = [(''STAT'', 4, CMD_STAT), (''LIST'', 4, CMD_LIST), (''RETR'', 4, CMD_RETR),
     (''DELE'', 4, CMD_DELE), (''NOOP'', 4, CMD_NOOP), (''RSET'', 4, CMD_RSET), (''QUIT'', 4, CMD_QUIT),
     (''USER'', 4, CMD_USER), (''PASS'', 4, CMD_PASS), (''UIDL'', 4, CMD_UIDL), (''APOP'', 4, CMD_APOP),
     (''TOP'', 3, CMD_TOP), (''AUTH'', 4, CMD_AUTH)]"

fun all_printable :: "nat \<Rightarrow> string \<Rightarrow> bool option" where
  "all_printable 0 buf = Some True"
| "all_printable (Suc n) [] = None"
| "all_printable (Suc n) (c # buf) = (if isprint c then all_printable n buf else Some False)"

fun lookup_command :: "string \<Rightarrow> (string \<times> nat \<times> POP3_CMD) list \<Rightarrow> POP3_CMD" where
  "lookup_command buf [] = CMD_UNKNOWN"
| "lookup_command buf ((name, n, cmd) # rest) =
     (if strnicmp_eq buf name n then cmd else lookup_command buf rest)"

definition ParseCommand :: "string \<Rightarrow> nat \<Rightarrow> POP3_CMD option" where
  "ParseCommand buf n =
     (if strlen buf < COMMAND_SIZE - 1 then Some CMD_UNKNOWN
      else do {
        ok \<leftarrow> all_printable n buf;
        if ok then Some (lookup_command buf Commands) else Some CMD_UNKNOWN })"

text \<open>\<^verbatim>\<open>while (isspace (*p)) p++\<close> and \<^verbatim>\<open>while (isdigit (*p)) p++\<close>.\<close>

fun skip :: "(char \<Rightarrow> bool) \<Rightarrow> string \<Rightarrow> string option" where
  "skip p [] = None"
| "skip p (c # s) = (if p c then skip p s else Some (c # s))"

definition IsEndOfCommand :: "string \<Rightarrow> bool option" where
  "IsEndOfCommand szInput = do { s \<leftarrow> skip isspace szInput; Some (hd s = NUL) }"

definition GetNextStringParameter :: "string \<Rightarrow> nat \<Rightarrow> string option option" where
  "GetNextStringParameter szInput dwOutputSize = do {
     c \<leftarrow> peek szInput 0;
     if \<not> isspace c then Some None
     else do {
       s \<leftarrow> skip isspace (tl szInput);
       if hd s = NUL then Some None
       else if strlen s \<ge> dwOutputSize then Some None
       else Some (Some (cstr s)) } }"

text \<open>The number and the rest of the input.\<close>

definition GetNextNumParameter :: "string \<Rightarrow> (int \<times> string) option option" where
  "GetNextNumParameter szInput = do {
     c \<leftarrow> peek szInput 0;
     if \<not> isspace c then Some None
     else do {
       s \<leftarrow> skip isspace (tl szInput);
       if \<not> isdigit (hd s) then Some None
       else do {
         e \<leftarrow> skip isdigit (tl s);
         let digits = take (length s - length e) s;
         if length digits > MAX_INT_LEN then Some None
         else Some (Some (atoi_digits digits, e)) } } }"

section \<open>Total on terminated buffers\<close>

lemma skip_Some:
  assumes "NUL \<in> set s" "\<not> p NUL"
  shows "skip p s = Some (dropWhile p s) \<and> dropWhile p s \<noteq> [] \<and> NUL \<in> set (dropWhile p s)"
  using assms by (induction s) auto

lemma IsEndOfCommand_terminated:
  "NUL \<in> set s \<Longrightarrow> IsEndOfCommand s = Some (hd (dropWhile isspace s) = NUL)"
  using skip_Some [of s isspace] by (simp add: IsEndOfCommand_def)

lemma GetNextStringParameter_terminated:
  assumes "NUL \<in> set s"
  shows "GetNextStringParameter s n =
    Some (let t = dropWhile isspace (tl s) in
      if isspace (hd s) \<and> hd t \<noteq> NUL \<and> strlen t < n then Some (cstr t) else None)"
proof (cases s)
  case (Cons c t)
  show ?thesis
  proof (cases "isspace c")
    case True
    then have "NUL \<in> set t" using assms Cons isspace_not_nul by auto
    then show ?thesis
      using True Cons skip_Some [of t isspace] by (auto simp: GetNextStringParameter_def peek_def Let_def)
  qed (auto simp: GetNextStringParameter_def peek_def Cons)
qed (use assms in simp)

lemma GetNextNumParameter_terminated:
  assumes "NUL \<in> set s"
  shows "GetNextNumParameter s =
    Some (let t = dropWhile isspace (tl s); d = takeWhile isdigit t in
      if isspace (hd s) \<and> d \<noteq> [] \<and> length d \<le> MAX_INT_LEN
      then Some (atoi_digits d, dropWhile isdigit t) else None)"
proof (cases s)
  case (Cons c s')
  show ?thesis
  proof (cases "isspace c")
    case True
    then have n1: "NUL \<in> set s'" using assms Cons isspace_not_nul by auto
    define t where "t = dropWhile isspace s'"
    have t: "skip isspace s' = Some t" "t \<noteq> []" "NUL \<in> set t"
      using skip_Some [OF n1, of isspace] by (simp_all add: t_def)
    obtain x t' where xt: "t = x # t'" using t(2) by (cases t) auto
    show ?thesis
    proof (cases "isdigit x")
      case dig: True
      then have "NUL \<in> set t'" using t(3) xt isdigit_not_nul by auto
      then have e: "skip isdigit t' = Some (dropWhile isdigit t')" using skip_Some [of t' isdigit] by simp
      have "dropWhile isdigit t = dropWhile isdigit t'" using dig xt by simp
      moreover have "take (length t - length (dropWhile isdigit t)) t = takeWhile isdigit t"
        by (metis append_eq_conv_conj length_append takeWhile_dropWhile_id diff_add_inverse2)
      moreover have "length t' = length (takeWhile isdigit t') + length (dropWhile isdigit t')"
        by (metis length_append takeWhile_dropWhile_id)
      ultimately show ?thesis
        using True dig xt t e Cons
        by (auto simp: GetNextNumParameter_def peek_def Let_def t_def [symmetric])
    qed (use True xt t Cons in \<open>auto simp: GetNextNumParameter_def peek_def Let_def t_def [symmetric]\<close>)
  qed (auto simp: GetNextNumParameter_def peek_def Cons)
qed (use assms in simp)

section \<open>Numbers\<close>

lemma atoi_digits_bounds:
  assumes "\<forall>c \<in> set d. isdigit c"
  shows "0 \<le> atoi_digits d \<and> atoi_digits d < 10 ^ length d"
  using assms
proof (induction d rule: rev_induct)
  case (snoc c d)
  have "(of_char c :: int) = int (of_char c)" by (metis of_nat_of_char)
  then have "0 \<le> digit_val c \<and> digit_val c \<le> 9"
    using snoc.prems by (simp add: digit_val_def isdigit_def)
  with snoc show ?case by (simp add: atoi_digits_snoc)
qed (simp add: atoi_digits_def)

text \<open>
  Message numbers round-trip: \<^verbatim>\<open>GetNextNumParameter\<close> reads back every number below 10^9 that is
  printed in decimal behind at least one blank, and leaves the input at the character behind it.
\<close>

theorem GetNextNumParameter_roundtrip:
  assumes "n < 10 ^ 9" "\<forall>c \<in> set blanks. isspace c" "blanks \<noteq> []" "NUL \<in> set rest" "\<not> isdigit (hd rest)"
  shows "GetNextNumParameter (blanks @ fmt_u n @ rest) = Some (Some (int n, rest))"
proof -
  obtain b bl where b: "blanks = b # bl" using assms(3) by (cases blanks) auto
  obtain x xs where x: "fmt_u n = x # xs" using fmt_u_nonempty by (cases "fmt_u n") auto
  have dig: "\<forall>c \<in> set (fmt_u n). isdigit c" using fmt_u_digits by blast
  then have "\<not> isspace x" using x isdigit_not_space by auto
  then have sp: "dropWhile isspace (bl @ fmt_u n @ rest) = fmt_u n @ rest"
    using assms(2) b x by (simp add: dropWhile_append2)
  have "rest \<noteq> []" using assms(4) by auto
  then have tw: "takeWhile isdigit (fmt_u n @ rest) = fmt_u n" "dropWhile isdigit (fmt_u n @ rest) = rest"
    using dig assms(5) by (cases rest; simp add: takeWhile_append2 dropWhile_append2)+
  have "length (fmt_u n) \<le> 9" using fmt_u_length assms(1) by simp
  moreover have "isspace b" using assms(2) b by simp
  ultimately show ?thesis
    using GetNextNumParameter_terminated [of "blanks @ fmt_u n @ rest"] assms(4) b sp tw x
    by (simp add: Let_def atoi_fmt_u [symmetric])
qed

theorem GetNextNumParameter_roundtrip_witness:
  "GetNextNumParameter ('' '' @ fmt_u 42 @ [NUL, LF, NUL]) = Some (Some (int 42, [NUL, LF, NUL]))"
  by (rule GetNextNumParameter_roundtrip) (simp_all add: isspace_def)

text \<open>
  A number the service accepts is between 0 and 10^9 - 1, so that subtracting 1 for the index of a
  message cannot overflow an \<^verbatim>\<open>int\<close>; and the rest of the input still ends in the same NUL.
\<close>

theorem GetNextNumParameter_bounds:
  assumes "GetNextNumParameter s = Some (Some (v, rest))" "NUL \<in> set s"
  shows "0 \<le> v \<and> v < 10 ^ 9 \<and> NUL \<in> set rest \<and> (\<exists>pre. s = pre @ rest)"
proof -
  define t d where "t = dropWhile isspace (tl s)" and "d = takeWhile isdigit t"
  have r: "isspace (hd s)" "d \<noteq> []" "length d \<le> 9" "v = atoi_digits d" "rest = dropWhile isdigit t"
    using assms GetNextNumParameter_terminated [OF assms(2)]
    by (auto simp: t_def d_def Let_def split: if_splits)
  obtain c s' where s: "s = c # s'" using assms(2) by (cases s) auto
  have d: "\<forall>c \<in> set d. isdigit c" unfolding d_def by (auto dest: set_takeWhileD)
  have "(10::int) ^ length d \<le> 10 ^ 9" using r(3) by (intro power_increasing) simp_all
  then have "0 \<le> v \<and> v < 10 ^ 9" using atoi_digits_bounds [OF d] r(4) by simp
  moreover have "NUL \<in> set s'" using assms(2) r(1) s isspace_not_nul by auto
  then have "NUL \<in> set rest"
    using skip_Some [of s' isspace] skip_Some [of t isdigit] r(5) s by (simp add: t_def)
  moreover have "s = (c # takeWhile isspace s' @ takeWhile isdigit t) @ rest"
    using r(5) s by (simp add: t_def)
  ultimately show ?thesis by blast
qed

theorem GetNextNumParameter_bounds_witness:
  "0 \<le> (7 :: int) \<and> (7 :: int) < 10 ^ 9 \<and> NUL \<in> set [NUL] \<and> (\<exists>pre. '' 7'' @ [NUL] = pre @ [NUL])"
  by (rule GetNextNumParameter_bounds)
     (simp_all add: GetNextNumParameter_def peek_def isspace_def isdigit_def atoi_digits_def digit_val_def)

section \<open>Commands\<close>

lemma all_printable_append:
  "n = length s \<Longrightarrow> all_printable n (s @ rest) = Some (\<forall>c \<in> set s. isprint c)"
  by (induction s arbitrary: n) auto

lemma all_printable_True:
  "all_printable n buf = Some True \<Longrightarrow> n \<le> length buf \<and> (\<forall>c \<in> set (take n buf). isprint c)"
  by (induction n buf rule: all_printable.induct) (auto split: if_splits)

text \<open>No text begins with two commands.\<close>

lemma first_three:
  assumes "strnicmp_eq buf name n" "(name, n, cmd) \<in> set Commands"
  shows "map tolower (take 3 (cstr buf)) = map tolower (take 3 name)"
proof -
  have "3 \<le> n" using assms(2) by (auto simp: Commands_def)
  then have "take 3 (take n (cstr buf)) = take 3 (cstr buf)" "take 3 (take n name) = take 3 name" by simp_all
  then show ?thesis using assms(1) unfolding strnicmp_eq_def by (metis take_map)
qed

lemma Commands_keys: "distinct (map (\<lambda>(a, n, c). map tolower (take 3 a)) Commands)"
  by (simp add: Commands_def tolower_def)

lemma Commands_distinct:
  assumes "(a, n, c) \<in> set Commands" "(b, m, d) \<in> set Commands"
    "map tolower (take 3 a) = map tolower (take 3 b)"
  shows "(a, n, c) = (b, m, d)"
proof -
  have "inj_on (\<lambda>(a, n, c). map tolower (take 3 a)) (set Commands)"
    using Commands_keys by (simp only: distinct_map)
  from inj_onD [OF this _ assms(1,2)] show ?thesis using assms(3) by simp
qed

lemma lookup_command_unique:
  assumes "(name, n, cmd) \<in> set cs" "set cs \<subseteq> set Commands" "strnicmp_eq buf name n"
  shows "lookup_command buf cs = cmd"
  using assms(1,2)
proof (induction cs)
  case (Cons e cs)
  obtain name' n' cmd' where e: "e = (name', n', cmd')" by (metis prod_cases3)
  show ?case
  proof (cases "strnicmp_eq buf name' n'")
    case True
    have mem: "(name, n, cmd) \<in> set Commands" "(name', n', cmd') \<in> set Commands"
      using Cons.prems e by auto
    have "map tolower (take 3 name) = map tolower (take 3 name')"
      using first_three [OF assms(3) mem(1)] first_three [OF True mem(2)] by simp
    then have "(name, n, cmd) = (name', n', cmd')" by (rule Commands_distinct [OF mem])
    then show ?thesis using True e by simp
  next
    case False
    then have "(name, n, cmd) \<in> set cs" using Cons.prems(1) e assms(3) by auto
    then show ?thesis using Cons.IH Cons.prems(2) False e by simp
  qed
qed simp

lemma lookup_command_known:
  assumes "lookup_command buf cs = cmd" "cmd \<noteq> CMD_UNKNOWN"
  shows "\<exists>name n. (name, n, cmd) \<in> set cs \<and> strnicmp_eq buf name n"
  using assms by (induction buf cs rule: lookup_command.induct) (auto split: if_splits)

text \<open>
  C17.  Command recognition is exact: a terminated line of printable characters is recognised as a command
  if and only if it begins with that command's name in any mixture of cases; no line matches two commands.
\<close>

theorem ParseCommand_iff:
  assumes "\<forall>c \<in> set ln. isprint c" "3 \<le> length ln" "cmd \<noteq> CMD_UNKNOWN"
  shows "ParseCommand (ln @ NUL # rest) (length ln) = Some cmd \<longleftrightarrow>
    (\<exists>name n. (name, n, cmd) \<in> set Commands \<and> map tolower (take n ln) = map tolower name)"
proof -
  have nul: "NUL \<notin> set ln" using assms(1) isprint_not_nul by blast
  then have cs: "cstr (ln @ NUL # rest) = ln" by simp
  have pc: "ParseCommand (ln @ NUL # rest) (length ln) = Some (lookup_command (ln @ NUL # rest) Commands)"
    using assms(1,2) all_printable_append [of "length ln" ln "NUL # rest"]
    by (simp add: ParseCommand_def strlen_def cs)
  have m: "strnicmp_eq (ln @ NUL # rest) name n \<longleftrightarrow> map tolower (take n ln) = map tolower name"
    if "(name, n, c) \<in> set Commands" for name n c
    using that by (auto simp: strnicmp_eq_def cs Commands_def)
  show ?thesis
  proof
    assume "ParseCommand (ln @ NUL # rest) (length ln) = Some cmd"
    then have "lookup_command (ln @ NUL # rest) Commands = cmd" using pc by simp
    then obtain name n where "(name, n, cmd) \<in> set Commands" "strnicmp_eq (ln @ NUL # rest) name n"
      using lookup_command_known assms(3) by blast
    then show "\<exists>name n. (name, n, cmd) \<in> set Commands \<and> map tolower (take n ln) = map tolower name"
      using m by blast
  next
    assume "\<exists>name n. (name, n, cmd) \<in> set Commands \<and> map tolower (take n ln) = map tolower name"
    then show "ParseCommand (ln @ NUL # rest) (length ln) = Some cmd"
      using pc lookup_command_unique m by fastforce
  qed
qed

theorem ParseCommand_iff_witness:
  "ParseCommand (''rEtR 1'' @ NUL # [LF, NUL]) (length ''rEtR 1'') = Some CMD_RETR \<longleftrightarrow>
    (\<exists>name n. (name, n, CMD_RETR) \<in> set Commands \<and>
       map tolower (take n ''rEtR 1'') = map tolower name)"
  by (rule ParseCommand_iff) (simp_all add: isprint_def)

end
