(* ===== verification/Pop3_Context.thy ===== *)
theory Pop3_Context
  imports Socket_Pool Pop3_Parse
begin

text \<open>
  The protocol engine, \<^verbatim>\<open>POP3_CONTEXT\<close> of \<^verbatim>\<open>pop3/service/pop3svc/pop3context.cpp\<close>: assembling a command
  from received bytes, the commands of the authorization and of the transaction state, responses, and
  the end of a connection.  Each \<^verbatim>\<open>case\<close> of the two command switches is a definition of its own.  The
  state of a call is the POP3 context, the IO context it works on and the globals.
\<close>

section \<open>Responses\<close>

definition crlf :: "string \<Rightarrow> string" where "crlf s = s @ [CR, LF]"

definition RESP_INVALID_MAIL_NUMBER :: string where "RESP_INVALID_MAIL_NUMBER = crlf ''-ERR No such message''"
definition RESP_SERVER_NOT_AVAILABLE :: string where
  "RESP_SERVER_NOT_AVAILABLE = crlf ''-ERR Service is not available''"
definition RESP_UNKNOWN_COMMAND :: string where "RESP_UNKNOWN_COMMAND = crlf ''-ERR Unacceptable command''"
definition RESP_OK :: string where "RESP_OK = crlf ''+OK''"
definition RESP_SERVER_ERROR :: string where "RESP_SERVER_ERROR = crlf ''-ERR server error''"
definition RESP_ACCOUNT_ERROR :: string where "RESP_ACCOUNT_ERROR = crlf ''-ERR Logon Failure''"
definition RESP_END_OF_LIST :: string where "RESP_END_OF_LIST = crlf ''.''"
definition RESP_MSG_MARKED_DELETED :: string where
  "RESP_MSG_MARKED_DELETED = crlf ''+OK Message marked as deleted''"
definition RESP_AUTH_DONE :: string where "RESP_AUTH_DONE = crlf ''+OK User successfully logged on''"
definition RESP_AUTH_METHODS :: string where
  "RESP_AUTH_METHODS = crlf ''+OK'' @ ''NTLM'' @ RESP_END_OF_MULTILINE"
definition RESP_CMD_NOT_VALID :: string where "RESP_CMD_NOT_VALID = crlf ''-ERR Command not valid''"
definition RESP_CMD_NOT_SUPPORTED :: string where
  "RESP_CMD_NOT_SUPPORTED = crlf ''-ERR Command is not valid in this state''"
definition RESP_RESET :: string where "RESP_RESET = crlf ''+OK Messages unmarked as deleted''"
definition RESP_SPA_REQUIRED :: string where "RESP_SPA_REQUIRED = crlf ''-ERR SPA Required, use AUTH or APOP''"
definition RESP_SERVER_GREETING :: wstring where
  "RESP_SERVER_GREETING = wide ''Microsoft Windows POP3 Service Version 1.0''"

abbreviation (input) "MAX_FAILED_AUTH \<equiv> (3 :: DWORD)"
abbreviation (input) "MD5_HASH_SIZE \<equiv> (32 :: nat)"

section \<open>The state of a call\<close>

record 'w conn =
  this :: POP3_CONTEXT
  io :: IO_CONTEXT
  gl :: "'w glob"

definition on_this :: "(POP3_CONTEXT \<Rightarrow> POP3_CONTEXT) \<Rightarrow> 'w conn \<Rightarrow> 'w conn" where
  "on_this f s = s\<lparr>this := f (this s)\<rparr>"

definition on_io :: "(IO_CONTEXT \<Rightarrow> IO_CONTEXT) \<Rightarrow> 'w conn \<Rightarrow> 'w conn" where
  "on_io f s = s\<lparr>io := f (io s)\<rparr>"

definition on_gl :: "('w glob \<Rightarrow> 'w glob) \<Rightarrow> 'w conn \<Rightarrow> 'w conn" where
  "on_gl f s = s\<lparr>gl := f (gl s)\<rparr>"

definition call :: "('w \<Rightarrow> 'a \<times> 'w) \<Rightarrow> 'w conn \<Rightarrow> 'a \<times> 'w conn" where
  "call f s = (case sys f (gl s) of (r, g) \<Rightarrow> (r, s\<lparr>gl := g\<rparr>))"

abbreviation "count_up c \<equiv> on_gl (perf (IncPerfCntr c))"
abbreviation "count_down c \<equiv> on_gl (perf (DecPerfCntr c))"
abbreviation "count_add c d \<equiv> on_gl (perf (AddPerfCntr c d))"
abbreviation "log i \<equiv> on_gl (LogEvent i)"
abbreviation "cmd_buf s \<equiv> m_szCommandBuffer (this s)"
abbreviation "max_used s \<equiv> IsMaxSocketUsed (gl s)"

text \<open>A call of the mailbox with the world, and with the world and the mail root.\<close>

definition box_call :: "(CMailBox \<times> 'w \<Rightarrow> 'a \<times> CMailBox \<times> 'w) \<Rightarrow> 'w conn \<Rightarrow> 'a \<times> 'w conn" where
  "box_call f s = (case f (m_MailBox (this s), g_world (gl s)) of (r, box, w) \<Rightarrow>
     (r, s\<lparr>this := (this s)\<lparr>m_MailBox := box\<rparr>, gl := (gl s)\<lparr>g_world := w\<rparr>\<rparr>))"

definition box_call_opt :: "(CMailBox \<times> 'w \<Rightarrow> ('a \<times> CMailBox \<times> 'w) option) \<Rightarrow> 'w conn \<Rightarrow> ('a \<times> 'w conn) option" where
  "box_call_opt f s = do {
     (r, box, w) \<leftarrow> f (m_MailBox (this s), g_world (gl s));
     Some (r, s\<lparr>this := (this s)\<lparr>m_MailBox := box\<rparr>, gl := (gl s)\<lparr>g_world := w\<rparr>\<rparr>) }"

definition open_call :: "'w win32 \<Rightarrow> 'w conn \<Rightarrow> (bool \<times> 'w conn) option" where
  "open_call api s = do {
     (r, box, root, w) \<leftarrow> OpenMailBox api (m_wszUserName (this s))
        (m_MailBox (this s), g_MailRoot (gl s), g_world (gl s));
     Some (r, s\<lparr>this := (this s)\<lparr>m_MailBox := box\<rparr>, gl := (gl s)\<lparr>g_MailRoot := root, g_world := w\<rparr>\<rparr>) }"

section \<open>Sending and ending\<close>

definition SendResponse :: "string \<Rightarrow> 'w conn \<Rightarrow> 'w conn" where
  "SendResponse szBuf s = on_gl (emit (Sent (m_hAsyncIO (io s)) szBuf)) s"

definition SendResult :: "DWORD \<Rightarrow> string option \<Rightarrow> 'w conn \<Rightarrow> 'w conn" where
  "SendResult dwResult szBuf s =
     (if dwResult = ERROR_SUCCESS then
        (case snprintf (POP3_RESPONSE_BUF_SIZE - 1) (''+OK '' @ (case szBuf of Some t \<Rightarrow> t | None \<Rightarrow> [])) of
           None \<Rightarrow> SendResponse RESP_SERVER_ERROR s
         | Some t \<Rightarrow> SendResponse t s)
      else SendResponse RESP_INVALID_MAIL_NUMBER s)"

definition TerminateConnection :: "'w win32 \<Rightarrow> 'w conn \<Rightarrow> 'w conn option" where
  "TerminateConnection api s =
     (if m_ConType (io s) = DELETE_PENDING then Some s
      else do {
        (_, s) \<leftarrow> box_call_opt (\<lambda>b. do { b \<leftarrow> QuitAndClose api b; Some ((), b) }) s;
        let hSocket = m_hAsyncIO (io s);
        let s = on_io (m_hAsyncIO_update (\<lambda>_. NULL_HANDLE)) s;
        s \<leftarrow> (if hSocket \<noteq> NULL_HANDLE then do {
               let s = on_gl (\<lambda>g. emit (Closed hSocket) (sysw (\<lambda>w. closesocket api w hSocket) g)) s;
               g \<leftarrow> DecrementTotalSocketCount api (gl s);
               let s = s\<lparr>gl := g\<rparr>;
               let s = (case m_dwCurrentState (this s) of
                          TRANS_STATE \<Rightarrow> count_down e_gcTransStateCnt s
                        | AUTH_STATE \<Rightarrow> count_down e_gcAuthStateCnt s
                        | _ \<Rightarrow> s);
               Some (count_down e_gcConnectedSocketCnt s) }
             else Some s);
        Some (if m_bFileTransmitPending (this s) then s
              else on_io (m_ConType_update (\<lambda>_. DELETE_PENDING)) s) })"

definition TimeOut :: "'w win32 \<Rightarrow> 'w conn \<Rightarrow> 'w conn option" where
  "TimeOut api s = TerminateConnection api s"

definition WaitForCommand :: "'w win32 \<Rightarrow> 'w conn \<Rightarrow> 'w conn option" where
  "WaitForCommand api s =
     (if m_hAsyncIO (io s) = NULL_HANDLE then TerminateConnection api s
      else (case call (\<lambda>w. WSARecv api w (m_hAsyncIO (io s))) s of (ok, s) \<Rightarrow>
        if \<not> ok \<and> WSAGetLastError api (g_world (gl s)) \<noteq> ERROR_IO_PENDING
        then TerminateConnection api s
        else Some (on_gl (emit (Recv (m_hAsyncIO (io s)))) s)))"

definition Unauthenticated :: "POP3_CONTEXT \<Rightarrow> bool" where
  "Unauthenticated ctx \<longleftrightarrow> m_dwCurrentState ctx = AUTH_STATE"

section \<open>Logging on\<close>

text \<open>Open, lock and enumerate the mailbox of the user; the same code after each way to authenticate.\<close>

definition LogonMailbox :: "'w win32 \<Rightarrow> bool \<Rightarrow> 'w conn \<Rightarrow> (bool \<times> 'w conn) option" where
  "LogonMailbox api bRetVal s = do {
     (bRetVal, s) \<leftarrow> (if bRetVal then open_call api s else Some (False, s));
     if bRetVal then
       (case box_call (LockMailBox api) s of (ok, s) \<Rightarrow>
          if \<not> ok then Some (False, s)
          else do {
            (ok, s) \<leftarrow> box_call_opt (EnumerateMailBox api (g_dwMaxMsgPerDnld (g_cfg (gl s)))) s;
            if ok then Some (True, s)
            else (case box_call (\<lambda>b. ((), UnlockMailBox api b)) s of (_, s) \<Rightarrow> Some (False, s)) })
     else Some (False,
       if GetLastError api (g_world (gl s)) = ERROR_ACCESS_DENIED
       then log POP3SVR_MAILROOT_ACCESS_DENIED s else s) }"

definition EnterTransaction :: "'w conn \<Rightarrow> 'w conn" where
  "EnterTransaction s = SendResponse RESP_AUTH_DONE
     (count_up e_gcTransStateCnt (count_down e_gcAuthStateCnt
       (on_this (m_dwCurrentState_update (\<lambda>_. TRANS_STATE)) s)))"

definition LogonFailed :: "'w conn \<Rightarrow> bool \<times> 'w conn" where
  "LogonFailed s =
     (let s = count_up e_gcFailedLogonCnt s;
          s = on_this (\<lambda>c. c\<lparr>m_dwFailedAuthCount := m_dwFailedAuthCount c + 1\<rparr>) s;
          (b, s) = (if MAX_FAILED_AUTH \<le> m_dwFailedAuthCount (this s)
                    then (False, log POP3SVR_MAX_LOGON_FAILURES s)
                    else (\<not> max_used s, s))
      in (b, SendResponse RESP_ACCOUNT_ERROR s))"

text \<open>\<^verbatim>\<open>g_pAuthMethod->Authenticate\<close> and the event for a refused mail root.\<close>

definition CheckPassword :: "'w win32 \<Rightarrow> wstring option \<Rightarrow> 'w conn \<Rightarrow> bool \<times> 'w conn" where
  "CheckPassword api vPassword s =
     (case call (\<lambda>w. Authenticate api w (m_wszUserName (this s)) vPassword) s of (hr, s) \<Rightarrow>
        if hr = S_OK then (True, s)
        else (False, if hr = E_ACCESSDENIED then log POP3SVR_MAILROOT_ACCESS_DENIED s else s))"

definition ZeroCommandBuffer :: "'w conn \<Rightarrow> 'w conn" where
  "ZeroCommandBuffer = on_this (\<lambda>c. c\<lparr>m_szCommandBuffer :=
     replicate (m_dwCommandSize c) NUL @ drop (m_dwCommandSize c) (m_szCommandBuffer c)\<rparr>)"

definition ZeroReceiveBuffer :: "'w conn \<Rightarrow> 'w conn" where
  "ZeroReceiveBuffer = on_io (\<lambda>i. i\<lparr>m_Buffer := replicate POP3_REQUEST_BUF_SIZE NUL\<rparr>)"

subsection \<open>Commands of the authorization state\<close>

definition AuthUser :: "'w win32 \<Rightarrow> 'w conn \<Rightarrow> (bool \<times> 'w conn) option" where
  "AuthUser api s = do {
     c \<leftarrow> peek (cmd_buf s) COMMAND_SIZE;
     (bRetVal, s) \<leftarrow>
       (if c \<noteq> CHR '' '' \<and> c \<noteq> NUL then Some (False, SendResponse RESP_UNKNOWN_COMMAND s)
        else if g_dwRequireSPA (g_cfg (gl s)) then Some (True, SendResponse RESP_SPA_REQUIRED s)
        else if m_wszUserName (this s) \<noteq> [] then Some (False, SendResponse RESP_CMD_NOT_SUPPORTED s)
        else do {
          r \<leftarrow> GetNextStringParameter (drop COMMAND_SIZE (cmd_buf s)) POP3_MAX_ADDRESS_LENGTH;
          (case r of
             Some szUserName \<Rightarrow> Some (True, SendResponse RESP_OK
               (on_this (m_wszUserName_update (\<lambda>_. MultiByteToWideChar api szUserName)) s))
           | None \<Rightarrow> Some (False, SendResponse RESP_CMD_NOT_VALID s)) });
     Some (bRetVal \<or> \<not> max_used s, s) }"

text \<open>
  \<^verbatim>\<open>PASS\<close> up to the authentication: \<^verbatim>\<open>Inl\<close> when the command ends there, else the password, \<^verbatim>\<open>NULL\<close> when
  it is empty.
\<close>

definition AuthPass_password :: "'w conn \<Rightarrow> ((bool \<times> 'w conn) + (string \<times> 'w conn)) option" where
  "AuthPass_password s =
     (let n = m_dwCommandSize (this s) in
      if m_wszUserName (this s) = [] then
        Some (Inl (\<not> max_used s, SendResponse RESP_CMD_NOT_SUPPORTED s))
      else do {
        c \<leftarrow> peek (cmd_buf s) COMMAND_SIZE;
        if n = COMMAND_SIZE \<or> n = COMMAND_SIZE + 1 \<and> c = CHR '' ''
        then Some (Inr (m_szPassword (this s), on_this (m_cPswdSize_update (\<lambda>_. 0)) s))
        else (let cPswdSize = int n - int COMMAND_SIZE - 1;
                  s = on_this (m_cPswdSize_update (\<lambda>_. cPswdSize)) s
              in if cPswdSize \<ge> int MAX_PATH \<or> c \<noteq> CHR '' '' then
                   (let s = SendResponse RESP_CMD_NOT_VALID s;
                        s = ZeroCommandBuffer (on_this (m_wszUserName_update (\<lambda>_. [])) s)
                    in Some (Inl (\<not> max_used s, s)))
                 else (let pswd = strncpy_term (drop (COMMAND_SIZE + 1) (cmd_buf s)) (MAX_PATH - 1)
                       in Some (Inr (pswd, ZeroCommandBuffer s)))) })"

definition AuthPass_check :: "'w win32 \<Rightarrow> string \<Rightarrow> 'w conn \<Rightarrow> bool \<times> 'w conn" where
  "AuthPass_check api pswd s =
     (let (userOk, s) = call (alloc api) s;
          s = on_this (m_szPassword_update (\<lambda>_. [])) s;
          (vPassword, s) =
            (if m_cPswdSize (this s) = 0 then (None, s)
             else (case call (alloc api) s of (ok, s) \<Rightarrow>
               (if ok then Some (MultiByteToWideChar api pswd) else None, s)))
      in if userOk then CheckPassword api vPassword s else (False, s))"

definition AuthPass :: "'w win32 \<Rightarrow> 'w conn \<Rightarrow> (bool \<times> 'w conn) option" where
  "AuthPass api s = do {
     r \<leftarrow> AuthPass_password (ZeroReceiveBuffer s);
     (case r of
        Inl fin \<Rightarrow> Some fin
      | Inr (pswd, s) \<Rightarrow> (case AuthPass_check api pswd s of (bRetVal, s) \<Rightarrow> do {
          (bRetVal, s) \<leftarrow> LogonMailbox api bRetVal s;
          if bRetVal then Some (True, EnterTransaction s)
          else (case LogonFailed s of (b, s) \<Rightarrow>
            Some (b, on_this (m_wszUserName_update (\<lambda>_. [])) s)) })) }"

text \<open>The array that takes the digest and the greeting has \<^verbatim>\<open>2*MAX_PATH+32\<close> characters.\<close>

definition AuthApop_check :: "'w win32 \<Rightarrow> string \<Rightarrow> string \<Rightarrow> 'w conn \<Rightarrow> (bool \<times> 'w conn) option" where
  "AuthApop_check api szUserName pswd s =
     (let s = on_this (m_wszUserName_update (\<lambda>_. MultiByteToWideChar api szUserName)) s;
          (userOk, s) = call (alloc api) s;
          s = on_this (m_szPassword_update (\<lambda>_. [])) s;
          wszPassword = MultiByteToWideChar api pswd @ m_wszGreeting (this s)
      in if length wszPassword \<ge> 2 * MAX_PATH + 32 then None
         else (case call (alloc api) s of (pswdOk, s) \<Rightarrow>
           Some (if userOk \<and> pswdOk then CheckPassword api (Some wszPassword) s else (False, s))))"

definition AuthApop :: "'w win32 \<Rightarrow> 'w conn \<Rightarrow> (bool \<times> 'w conn) option" where
  "AuthApop api s =
     (let s = ZeroReceiveBuffer s;
          arg = drop (COMMAND_SIZE + 1) (cmd_buf s)
      in case strchr arg (CHR '' '') of
        None \<Rightarrow> (let s = SendResponse RESP_ACCOUNT_ERROR (ZeroCommandBuffer s) in Some (\<not> max_used s, s))
      | Some p \<Rightarrow>
          (let szUserName = take (POP3_MAX_ADDRESS_LENGTH - 1) (take p arg);
               pswd = strncpy_term (drop (Suc p) arg) (MAX_PATH - 1);
               s = ZeroCommandBuffer s
           in if length pswd \<noteq> MD5_HASH_SIZE then
                (let s = SendResponse RESP_ACCOUNT_ERROR (on_this (m_szPassword_update (\<lambda>_. [])) s)
                 in Some (\<not> max_used s, s))
              else do {
                (bRetVal, s) \<leftarrow> AuthApop_check api szUserName pswd s;
                (bRetVal, s) \<leftarrow> LogonMailbox api bRetVal s;
                if bRetVal then Some (True, EnterTransaction s) else Some (LogonFailed s) }))"

definition AuthAuth_first :: "'w conn \<Rightarrow> (bool \<times> 'w conn) option" where
  "AuthAuth_first s =
     (if g_dwAuthMethod (g_cfg (gl s)) = AUTH_OTHER then Some (True, SendResponse RESP_CMD_NOT_SUPPORTED s)
      else do {
        e \<leftarrow> IsEndOfCommand (drop COMMAND_SIZE (cmd_buf s));
        if e then Some (True, SendResponse RESP_AUTH_METHODS s)
        else do {
          r \<leftarrow> GetNextStringParameter (drop COMMAND_SIZE (cmd_buf s)) POP3_RESPONSE_BUF_SIZE;
          if (case r of Some szBuf \<Rightarrow> stricmp_eq szBuf ''NTLM'' | None \<Rightarrow> False)
          then Some (True, on_this (m_dwAuthStatus_update (\<lambda>_. 1)) (SendResponse RESP_OK s))
          else Some (False, SendResponse RESP_CMD_NOT_VALID s) } })"

text \<open>A failed handshake or logon: back to the first stage, with the given answer.\<close>

definition AuthAuth_failed :: "'w win32 \<Rightarrow> string \<Rightarrow> 'w conn \<Rightarrow> bool \<times> 'w conn" where
  "AuthAuth_failed api resp s =
     (let s = on_this (m_dwAuthStatus_update (\<lambda>_. 0)) s;
          (a, g) = Cleanup api (m_AuthServer (this s), gl s);
          s = s\<lparr>this := (this s)\<lparr>m_AuthServer := a\<rparr>, gl := g\<rparr>;
          s = count_up e_gcFailedLogonCnt s;
          s = on_this (\<lambda>c. c\<lparr>m_dwFailedAuthCount := m_dwFailedAuthCount c + 1\<rparr>) s;
          s = SendResponse resp s
      in (MAX_FAILED_AUTH > m_dwFailedAuthCount (this s) \<and> \<not> max_used s, s))"

definition AuthAuth :: "'w win32 \<Rightarrow> 'w conn \<Rightarrow> (bool \<times> 'w conn) option" where
  "AuthAuth api s =
     (if m_dwAuthStatus (this s) = 0 then AuthAuth_first s
      else do {
        (hr, line, a, g) \<leftarrow> HandShake api (cmd_buf s) (m_AuthServer (this s), gl s);
        let s = s\<lparr>this := (this s)\<lparr>m_AuthServer := a\<rparr>, gl := g\<rparr>;
        if hr = S_FALSE then Some (True, SendResponse line s)
        else if hr = S_OK then do {
          let s = on_this (m_dwAuthStatus_update (\<lambda>_. 0)) s;
          let (hr, name, g) = GetUserName api (m_wszUserName (this s)) (m_AuthServer (this s), gl s);
          let s = s\<lparr>this := (this s)\<lparr>m_wszUserName := name\<rparr>, gl := g\<rparr>;
          (bRetVal, s) \<leftarrow> LogonMailbox api (hr = S_OK) s;
          if bRetVal then Some (True, EnterTransaction s)
          else Some (AuthAuth_failed api RESP_ACCOUNT_ERROR s) }
        else Some (AuthAuth_failed api RESP_CMD_NOT_VALID s) })"

definition signing_off :: "'w conn \<Rightarrow> string" where
  "signing_off s =
     (let greet = g_wszGreeting (g_cfg (gl s));
          name = (if greet \<noteq> [] then greet else RESP_SERVER_GREETING)
      in snprintf_trunc (POP3_RESPONSE_BUF_SIZE - 1)
           (''+OK '' @ narrow name @ '' '' @ narrow (m_wszGreeting (this s)) @ crlf '' signing off.''))"

definition AuthQuit :: "'w conn \<Rightarrow> (bool \<times> 'w conn) option" where
  "AuthQuit s = do {
     e \<leftarrow> IsEndOfCommand (drop COMMAND_SIZE (cmd_buf s));
     if e then (let s = on_this (m_dwCurrentState_update (\<lambda>_. UPDATE_STATE)) (count_down e_gcAuthStateCnt s)
                in Some (False, SendResponse (signing_off s) s))
     else (let s = SendResponse RESP_CMD_NOT_VALID s in Some (\<not> max_used s, s)) }"

definition ProcessAuthStateCommands :: "'w win32 \<Rightarrow> POP3_CMD \<Rightarrow> 'w conn \<Rightarrow> (bool \<times> 'w conn) option" where
  "ProcessAuthStateCommands api cmd s = do {
     (bRetVal, s) \<leftarrow> (case cmd of
        CMD_USER \<Rightarrow> AuthUser api s
      | CMD_PASS \<Rightarrow> AuthPass api s
      | CMD_APOP \<Rightarrow> AuthApop api s
      | CMD_AUTH \<Rightarrow> AuthAuth api s
      | CMD_QUIT \<Rightarrow> AuthQuit s
      | CMD_NOOP \<Rightarrow> (let s = SendResponse RESP_UNKNOWN_COMMAND s in Some (\<not> max_used s, s))
      | CMD_UNKNOWN \<Rightarrow> (let s = SendResponse RESP_UNKNOWN_COMMAND s in Some (\<not> max_used s, s))
      | _ \<Rightarrow> (let s = SendResponse RESP_CMD_NOT_SUPPORTED s in Some (\<not> max_used s, s)));
     s \<leftarrow> (if bRetVal then WaitForCommand api s else Some s);
     Some (bRetVal, s) }"

subsection \<open>Commands of the transaction state\<close>

definition summary :: "string \<Rightarrow> string \<Rightarrow> string \<Rightarrow> 'w conn \<Rightarrow> string" where
  "summary a b c s = a @ fmt_dword_d (m_dwShowMailCount (m_MailBox (this s))) @ b
     @ fmt_dword_d (m_dwTotalSize (m_MailBox (this s))) @ c"

definition TransStat :: "'w conn \<Rightarrow> 'w conn option" where
  "TransStat s = do {
     e \<leftarrow> IsEndOfCommand (drop COMMAND_SIZE (cmd_buf s));
     Some (if \<not> e then SendResponse RESP_CMD_NOT_VALID s
           else (case snprintf (POP3_RESPONSE_BUF_SIZE - 1) (summary ''+OK '' '' '' (crlf []) s) of
                   None \<Rightarrow> SendResponse RESP_SERVER_ERROR s
                 | Some t \<Rightarrow> SendResponse t s)) }"

text \<open>
  The multi-line answer of \<^verbatim>\<open>LIST\<close> and \<^verbatim>\<open>UIDL\<close>: lines are collected in \<^verbatim>\<open>szReBuf\<close>, which is sent when the
  next line does not fit.
\<close>

fun list_loop :: "(int \<Rightarrow> CMailBox \<Rightarrow> (DWORD \<times> string option) option) \<Rightarrow> nat \<Rightarrow> int \<Rightarrow> string \<Rightarrow> 'w conn
    \<Rightarrow> (string \<times> 'w conn) option" where
  "list_loop item 0 iArg szReBuf s = Some (szReBuf, s)"
| "list_loop item (Suc n) iArg szReBuf s = do {
     (r, l) \<leftarrow> item iArg (m_MailBox (this s));
     if r = ERROR_SUCCESS then do {
       line \<leftarrow> l;
       if length szReBuf + length line < POP3_RESPONSE_BUF_SIZE
       then list_loop item n (iArg + 1) (szReBuf @ line) s
       else list_loop item n (iArg + 1) line (SendResponse szReBuf s) }
     else list_loop item n (iArg + 1) szReBuf s }"

definition list_end :: "string \<Rightarrow> 'w conn \<Rightarrow> 'w conn" where
  "list_end szReBuf s =
     (if length szReBuf + 4 < POP3_RESPONSE_BUF_SIZE then SendResponse (szReBuf @ RESP_END_OF_LIST) s
      else SendResponse RESP_END_OF_LIST (if szReBuf \<noteq> [] then SendResponse szReBuf s else s))"

definition TransList :: "(int \<Rightarrow> CMailBox \<Rightarrow> (DWORD \<times> string option) option) \<Rightarrow> 'w conn \<Rightarrow> 'w conn option" where
  "TransList item s = do {
     let pCur = drop COMMAND_SIZE (cmd_buf s);
     e \<leftarrow> IsEndOfCommand pCur;
     if \<not> e then do {
       r \<leftarrow> GetNextNumParameter pCur;
       (case r of
          None \<Rightarrow> Some (SendResponse RESP_CMD_NOT_VALID s)
        | Some (iArg, rest) \<Rightarrow> do {
            e \<leftarrow> IsEndOfCommand rest;
            if e then do {
              (dwResult, l) \<leftarrow> item (iArg - 1) (m_MailBox (this s));
              Some (SendResult dwResult l s) }
            else Some (SendResponse RESP_CMD_NOT_VALID s) }) }
     else (case snprintf (POP3_RESPONSE_BUF_SIZE - 1)
                  (summary ''+OK '' '' messages ('' (crlf '' octets)'') s) of
        None \<Rightarrow> Some (SendResponse RESP_SERVER_ERROR s)
      | Some head \<Rightarrow> do {
          (szReBuf, s) \<leftarrow> list_loop item (unat (m_cMailCount (m_MailBox (this s)))) 0 head s;
          Some (list_end szReBuf s) }) }"

definition list_item :: "int \<Rightarrow> CMailBox \<Rightarrow> (DWORD \<times> string option) option" where
  "list_item i box = ListMail i POP3_RESPONSE_BUF_SIZE box"

definition uidl_item :: "int \<Rightarrow> CMailBox \<Rightarrow> (DWORD \<times> string option) option" where
  "uidl_item i box = UidlMail i POP3_RESPONSE_BUF_SIZE box"

text \<open>\<^verbatim>\<open>RETR\<close> and \<^verbatim>\<open>TOP\<close>: whether a transmission is now under way.\<close>

definition Transmit :: "'w win32 \<Rightarrow> int \<Rightarrow> int \<Rightarrow> 'w conn \<Rightarrow> (bool \<times> 'w conn) option" where
  "Transmit api iIndex iLines s = do {
     let s = on_this (m_bFileTransmitPending_update (\<lambda>_. True)) s;
     (dwResult, s) \<leftarrow> box_call_opt (TransmitMail api (m_hAsyncIO (io s)) iIndex iLines) s;
     if dwResult \<noteq> ERROR_SUCCESS
     then Some (False, SendResponse RESP_INVALID_MAIL_NUMBER
                  (on_this (m_bFileTransmitPending_update (\<lambda>_. False)) s))
     else Some (True, count_up e_gcMsgDnldRate (count_up e_gcTotMsgDnldCnt s)) }"

definition TransRetr :: "'w win32 \<Rightarrow> 'w conn \<Rightarrow> (bool \<times> 'w conn) option" where
  "TransRetr api s = do {
     r \<leftarrow> GetNextNumParameter (drop COMMAND_SIZE (cmd_buf s));
     (case r of
        None \<Rightarrow> Some (False, SendResponse RESP_CMD_NOT_VALID s)
      | Some (iArg, rest) \<Rightarrow> do {
          e \<leftarrow> IsEndOfCommand rest;
          if e then Transmit api (iArg - 1) (-1) s
          else Some (False, SendResponse RESP_CMD_NOT_VALID s) }) }"

definition TransTop :: "'w win32 \<Rightarrow> 'w conn \<Rightarrow> (bool \<times> 'w conn) option" where
  "TransTop api s = do {
     let pCur = drop (COMMAND_SIZE - 1) (cmd_buf s);
     let bad = Some (False, SendResponse RESP_CMD_NOT_VALID s);
     e \<leftarrow> IsEndOfCommand pCur;
     if e then bad
     else do {
       r \<leftarrow> GetNextNumParameter pCur;
       (case r of
          None \<Rightarrow> bad
        | Some (iArg, rest) \<Rightarrow> do {
            e \<leftarrow> IsEndOfCommand rest;
            if e then bad
            else do {
              r \<leftarrow> GetNextNumParameter rest;
              (case r of
                 None \<Rightarrow> bad
               | Some (iArg2, rest) \<Rightarrow> do {
                   e \<leftarrow> IsEndOfCommand rest;
                   if e then Transmit api (iArg - 1) iArg2 s else bad }) } }) } }"

definition TransDele :: "'w conn \<Rightarrow> 'w conn option" where
  "TransDele s = do {
     r \<leftarrow> GetNextNumParameter (drop COMMAND_SIZE (cmd_buf s));
     (case r of
        None \<Rightarrow> Some (SendResponse RESP_CMD_NOT_VALID s)
      | Some (iArg, rest) \<Rightarrow> do {
          e \<leftarrow> IsEndOfCommand rest;
          if e then do {
            (dwResult, box) \<leftarrow> DeleteMail (iArg - 1) (m_MailBox (this s));
            let s = on_this (m_MailBox_update (\<lambda>_. box)) s;
            Some (SendResponse (if dwResult = ERROR_SUCCESS then RESP_MSG_MARKED_DELETED
                                else RESP_INVALID_MAIL_NUMBER) s) }
          else Some (SendResponse RESP_CMD_NOT_VALID s) }) }"

definition TransNoop :: "'w conn \<Rightarrow> 'w conn option" where
  "TransNoop s = do {
     e \<leftarrow> IsEndOfCommand (drop COMMAND_SIZE (cmd_buf s));
     Some (SendResponse (if e then RESP_OK else RESP_CMD_NOT_VALID) s) }"

definition TransRset :: "'w conn \<Rightarrow> 'w conn option" where
  "TransRset s = do {
     e \<leftarrow> IsEndOfCommand (drop COMMAND_SIZE (cmd_buf s));
     if \<not> e then Some (SendResponse RESP_CMD_NOT_VALID s)
     else do {
       box \<leftarrow> Reset (m_MailBox (this s));
       Some (SendResponse RESP_RESET (on_this (m_MailBox_update (\<lambda>_. box)) s)) } }"

definition TransQuit :: "'w win32 \<Rightarrow> 'w conn \<Rightarrow> 'w conn option" where
  "TransQuit api s = do {
     (ok, s) \<leftarrow> box_call_opt (CommitAndClose api) s;
     Some (if ok
           then (let s = on_this (m_dwCurrentState_update (\<lambda>_. UPDATE_STATE)) (count_down e_gcTransStateCnt s)
                 in SendResponse (signing_off s) s)
           else SendResponse RESP_SERVER_ERROR s) }"

text \<open>The commands that end by waiting for the next one, and those that may leave a transmission under way.\<close>

definition and_wait :: "'w win32 \<Rightarrow> 'w conn option \<Rightarrow> (bool \<times> 'w conn) option" where
  "and_wait api r = do { s \<leftarrow> r; s \<leftarrow> WaitForCommand api s; Some (True, s) }"

definition unless_pending :: "'w win32 \<Rightarrow> (bool \<times> 'w conn) option \<Rightarrow> (bool \<times> 'w conn) option" where
  "unless_pending api r = do {
     (pending, s) \<leftarrow> r;
     if pending then Some (True, s) else and_wait api (Some s) }"

definition ProcessTransStateCommands :: "'w win32 \<Rightarrow> POP3_CMD \<Rightarrow> 'w conn \<Rightarrow> (bool \<times> 'w conn) option" where
  "ProcessTransStateCommands api cmd s =
     (case cmd of
        CMD_STAT \<Rightarrow> and_wait api (TransStat s)
      | CMD_LIST \<Rightarrow> and_wait api (TransList list_item s)
      | CMD_UIDL \<Rightarrow> and_wait api (TransList uidl_item s)
      | CMD_RETR \<Rightarrow> unless_pending api (TransRetr api s)
      | CMD_TOP \<Rightarrow> unless_pending api (TransTop api s)
      | CMD_DELE \<Rightarrow> and_wait api (TransDele s)
      | CMD_NOOP \<Rightarrow> and_wait api (TransNoop s)
      | CMD_RSET \<Rightarrow> and_wait api (TransRset s)
      | CMD_QUIT \<Rightarrow> do { s \<leftarrow> TransQuit api s; Some (False, s) }
      | CMD_UNKNOWN \<Rightarrow> and_wait api (Some (SendResponse RESP_UNKNOWN_COMMAND s))
      | _ \<Rightarrow> and_wait api (Some (SendResponse RESP_CMD_NOT_SUPPORTED s)))"

section \<open>A request\<close>

text \<open>
  The greeting \<^verbatim>\<open><ticks@computer>\<close> in an array of \<^verbatim>\<open>MAX_PATH+64\<close> characters: cut when it is longer, and
  without a terminator when it fills the array exactly.
\<close>

definition greeting :: "DWORD \<Rightarrow> wstring \<Rightarrow> wstring option" where
  "greeting ticks name =
     (let t = wide ''<'' @ wide (fmt_u (unat ticks)) @ wide ''@'' @ name @ wide ''>'';
          n = MAX_PATH + 64
      in if length t < n then Some t
         else if length t = n then None
         else Some (take (n - 2) t @ wide ''>''))"

definition SendGreeting :: "'w win32 \<Rightarrow> 'w conn \<Rightarrow> 'w conn option" where
  "SendGreeting api s = (case call (GetTickCount api) s of (ticks, s) \<Rightarrow> do {
     stamp \<leftarrow> greeting ticks (g_wszComputerName (g_cfg (gl s)));
     let greet = g_wszGreeting (g_cfg (gl s));
     let name = (if greet \<noteq> [] then greet else RESP_SERVER_GREETING);
     let line = snprintf_trunc (2 * MAX_PATH - 1)
           (''+OK '' @ narrow name @ '' '' @ narrow stamp @ crlf '' ready.'');
     Some (SendResponse line (count_up e_gcAuthStateCnt
        (on_this (\<lambda>c. c\<lparr>m_wszGreeting := stamp, m_dwCurrentState := AUTH_STATE\<rparr>) s))) })"

text \<open>
  The received bytes in the command buffer: \<^verbatim>\<open>Inl\<close> when the request ends there (the buffer would overflow
  or the line is not complete), else the state with a complete line.
\<close>

definition AssembleCommand :: "'w win32 \<Rightarrow> nat \<Rightarrow> 'w conn \<Rightarrow> ('w conn + 'w conn) option" where
  "AssembleCommand api n s =
     (let c = this s;
          old = (if m_bCommandComplete c then [] else take (m_dwCommandSize c) (m_szCommandBuffer c))
      in if length (m_Buffer (io s)) < n then None
      else if \<not> m_bCommandComplete c \<and> m_dwCommandSize c + n \<ge> POP3_REQUEST_BUF_SIZE
      then do { s \<leftarrow> TerminateConnection api s; Some (Inl s) }
      else (let
        sz = (if m_bCommandComplete c then n else m_dwCommandSize c + n);
        buf = old @ take n (m_Buffer (io s)) @ [NUL]
        in case strstr_crlf buf of
             None \<Rightarrow> do {
               s \<leftarrow> WaitForCommand api (on_this (\<lambda>c. c\<lparr>m_szCommandBuffer := buf, m_dwCommandSize := sz,
                      m_bCommandComplete := False\<rparr>) s);
               Some (Inl s) }
           | Some k \<Rightarrow> Some (Inr (on_this (\<lambda>c. c\<lparr>m_szCommandBuffer := buf[k := NUL],
                      m_dwCommandSize := sz - 2, m_bCommandComplete := True\<rparr>) s))))"

definition DispatchCommand :: "'w win32 \<Rightarrow> 'w conn \<Rightarrow> 'w conn option" where
  "DispatchCommand api s = do {
     cmd \<leftarrow> (if m_dwAuthStatus (this s) \<noteq> 1 then ParseCommand (cmd_buf s) (m_dwCommandSize (this s))
             else Some CMD_AUTH);
     if cmd = CMD_UNKNOWN then
       (let s = SendResponse RESP_UNKNOWN_COMMAND s in
        if \<not> max_used s then WaitForCommand api s else TerminateConnection api s)
     else do {
       (ok, s) \<leftarrow> (if m_dwCurrentState (this s) = AUTH_STATE then ProcessAuthStateCommands api cmd s
                   else ProcessTransStateCommands api cmd s);
       if ok then Some s else TerminateConnection api s } }"

text \<open>
  A request after the greeting: the size of what was received, the shortened timeout when all sockets
  are in use, the counters, and the line.
\<close>

definition ReceiveCommand :: "'w win32 \<Rightarrow> DWORD \<Rightarrow> 'w conn \<Rightarrow> 'w conn option" where
  "ReceiveCommand api dwBytesRcvd s =
     (if unat dwBytesRcvd \<ge> POP3_REQUEST_BUF_SIZE \<or> dwBytesRcvd = 0 then TerminateConnection api s
      else (let
        (slow, s) = (if max_used s then
            (case call (GetTickCount api) s of (dwTime, s) \<Rightarrow>
               (m_dwCurrentState (this s) = AUTH_STATE \<and>
                dwTime > m_dwConnectionTime (io s) + SHORTENED_TIMEOUT, s))
          else (False, s))
        in if slow then TerminateConnection api s
           else do {
             let s = count_add e_gcBytesReceiveRate dwBytesRcvd (count_add e_gcBytesReceived dwBytesRcvd s);
             r \<leftarrow> AssembleCommand api (unat dwBytesRcvd) s;
             (case r of Inl s \<Rightarrow> Some s | Inr s \<Rightarrow> DispatchCommand api s) }))"

definition ProcessRequest :: "'w win32 \<Rightarrow> DWORD \<Rightarrow> 'w conn \<Rightarrow> 'w conn option" where
  "ProcessRequest api dwBytesRcvd s =
     (if m_hAsyncIO (io s) = NULL_HANDLE then Some (on_io (m_ConType_update (\<lambda>_. DELETE_PENDING)) s)
      else if m_bFileTransmitPending (this s) then
        WaitForCommand api (count_add e_gcBytesTransmitRate dwBytesRcvd
          (count_add e_gcBytesTransmitted dwBytesRcvd
            (on_this (m_bFileTransmitPending_update (\<lambda>_. False)) s)))
      else if m_dwCurrentState (this s) = INIT_STATE \<and> g_dwServerStatus (gl s) \<noteq> SERVICE_RUNNING then
        TerminateConnection api (SendResponse RESP_SERVER_NOT_AVAILABLE s)
      else if m_dwCurrentState (this s) = INIT_STATE then do {
        s \<leftarrow> SendGreeting api s;
        if dwBytesRcvd = 0 then WaitForCommand api s else ReceiveCommand api dwBytesRcvd s }
      else ReceiveCommand api dwBytesRcvd s)"

end
