(* ===== verification/Pop3_Session.thy ===== *)
theory Pop3_Session
  imports Pop3_Context
begin

text \<open>
  What the protocol engine of \<^verbatim>\<open>Pop3_Context\<close> guarantees: the invariant of a connection and that every
  request keeps it, the balance of the performance counters, that only a logon leads to the transaction
  state, and the text of the multi-line answers.
\<close>

section \<open>Reading the state of a call\<close>

named_theorems conn_simps \<open>reading a connection after a primitive step\<close>

lemma on_this_simps [simp, conn_simps]:
  "this (on_this f s) = f (this s)" "io (on_this f s) = io s" "gl (on_this f s) = gl s"
  by (simp_all add: on_this_def)

lemma on_io_simps [simp, conn_simps]:
  "this (on_io f s) = this s" "io (on_io f s) = f (io s)" "gl (on_io f s) = gl s"
  by (simp_all add: on_io_def)

lemma on_gl_simps [simp, conn_simps]:
  "this (on_gl f s) = this s" "io (on_gl f s) = io s" "gl (on_gl f s) = f (gl s)"
  by (simp_all add: on_gl_def)

lemma SendResponse_simps [simp, conn_simps]:
  "this (SendResponse t s) = this s" "io (SendResponse t s) = io s"
  "g_PerfCounters (gl (SendResponse t s)) = g_PerfCounters (gl s)"
  "g_world (gl (SendResponse t s)) = g_world (gl s)"
  "g_out (gl (SendResponse t s)) = g_out (gl s) @ [Sent (m_hAsyncIO (io s)) t]"
  by (simp_all add: SendResponse_def emit_def)

lemma glob_simps [simp, conn_simps]:
  "g_PerfCounters (perf f g) = f (g_PerfCounters g)" "g_PerfCounters (emit e g) = g_PerfCounters g"
  "g_PerfCounters (LogEvent i g) = g_PerfCounters g" "g_PerfCounters (sysw h g) = g_PerfCounters g"
  "g_world (perf f g) = g_world g" "g_world (emit e g) = g_world g" "g_world (LogEvent i g) = g_world g"
  "g_world (sysw h g) = h (g_world g)"
  by (simp_all add: perf_def emit_def LogEvent_def sysw_def)

lemma callD:
  assumes "call f s = (r, s')"
  shows "s' = s\<lparr>gl := (gl s)\<lparr>g_world := snd (f (g_world (gl s)))\<rparr>\<rparr> \<and> r = fst (f (g_world (gl s)))"
  using assms by (auto simp: call_def sys_def split: prod.splits)

section \<open>The invariant\<close>

abbreviation "is_open s \<equiv> m_hAsyncIO (io s) \<noteq> NULL_HANDLE"
abbreviation "box_of s \<equiv> m_MailBox (this s)"
abbreviation "state_of s \<equiv> m_dwCurrentState (this s)"
abbreviation "failures s \<equiv> m_dwFailedAuthCount (this s)"

text \<open>
  A partial line lies in the command buffer with its terminator.  The first half of the invariant also
  holds for a connection that is about to be terminated; in the second half, \<^verbatim>\<open>L\<close> bounds the number of
  entries of a directory, and at most \<^verbatim>\<open>L\<close> mails stay behind from each failed logon.
\<close>

definition line_ok :: "POP3_CONTEXT \<Rightarrow> bool" where
  "line_ok c \<longleftrightarrow> m_bCommandComplete c \<or>
     (m_dwCommandSize c < POP3_REQUEST_BUF_SIZE \<and> length (m_szCommandBuffer c) = Suc (m_dwCommandSize c) \<and>
      m_szCommandBuffer c ! m_dwCommandSize c = NUL)"

definition conn_sound :: "'w conn \<Rightarrow> bool" where
  "conn_sound s \<longleftrightarrow> (is_open s \<longrightarrow> m_ConType (io s) \<noteq> DELETE_PENDING) \<and> mb_inv (box_of s) \<and> line_ok (this s) \<and>
     (\<not> is_open s \<longrightarrow> m_cMailCount (box_of s) = 0)"

definition conn_inv :: "nat \<Rightarrow> 'w conn \<Rightarrow> bool" where
  "conn_inv L s \<longleftrightarrow> conn_sound s \<and> (is_open s \<longrightarrow> state_of s \<noteq> UPDATE_STATE \<and>
     failures s < MAX_FAILED_AUTH \<and>
     (state_of s \<noteq> TRANS_STATE \<longrightarrow> unat (m_cMailCount (box_of s)) \<le> unat (failures s) * L))"

text \<open>The part of the globals that belongs to the socket pool and the lists of connections.\<close>

definition frame :: "'w glob \<Rightarrow> CIOList \<times> CIOList \<times> links \<times> (nat \<Rightarrow> (IO_CONTEXT \<times> POP3_CONTEXT) option)
    \<times> nat \<times> CSocketPool \<times> service_status" where
  "frame g = (g_FreeList g, g_BusyList g, g_links g, g_heap g, g_nextAddr g, g_SocketPool g, g_dwServerStatus g)"

lemma frame_simps [simp, conn_simps]:
  "frame (perf f g) = frame g" "frame (emit e g) = frame g" "frame (LogEvent i g) = frame g"
  "frame (sysw h g) = frame g" "frame (g\<lparr>g_world := w\<rparr>) = frame g" "frame (g\<lparr>g_MailRoot := r\<rparr>) = frame g"
  "frame (gl (SendResponse t s)) = frame (gl s)" "frame (set_auth au g) = frame g"
  by (simp_all add: frame_def perf_def emit_def LogEvent_def sysw_def SendResponse_def set_auth_def)

text \<open>
  What one request does there: nothing, unless it closes the connection, which counts the socket off the
  pool.
\<close>

definition moved :: "'w win32 \<Rightarrow> 'w conn \<Rightarrow> 'w conn \<Rightarrow> bool" where
  "moved api s s' \<longleftrightarrow> is_open s' = is_open s \<and> frame (gl s') = frame (gl s) \<or>
     is_open s \<and> \<not> is_open s' \<and> (\<exists>g1 g2. frame g1 = frame (gl s) \<and>
       DecrementTotalSocketCount api g1 = Some g2 \<and> frame (gl s') = frame g2)"

lemma moved_refl [simp]: "moved api s s"
  by (simp add: moved_def)

lemma moved_still [simp]:
  "(m_hAsyncIO (io s') = NULL_HANDLE) = (m_hAsyncIO (io s) = NULL_HANDLE) \<Longrightarrow> frame (gl s') = frame (gl s) \<Longrightarrow> moved api s s'"
  by (simp add: moved_def)

lemma moved_trans:
  assumes "moved api a b" "moved api b c"
  shows "moved api a c"
proof (cases "is_open b = is_open a \<and> frame (gl b) = frame (gl a)")
  case True
  then show ?thesis using assms(2) by (simp add: moved_def)
next
  case False
  then have ab: "is_open a" "\<not> is_open b" "\<exists>g1 g2. frame g1 = frame (gl a) \<and>
      DecrementTotalSocketCount api g1 = Some g2 \<and> frame (gl b) = frame g2"
    using assms(1) unfolding moved_def by blast+
  then have "\<not> is_open c" "frame (gl c) = frame (gl b)" using assms(2) unfolding moved_def by blast+
  then show ?thesis using ab by (simp add: moved_def)
qed

text \<open>
  The counters of connections in the authorization and in the transaction state, less this connection's
  own share.
\<close>

definition others_in :: "pop3_state \<Rightarrow> GLOBAL_CNTR \<Rightarrow> 'w conn \<Rightarrow> DWORD" where
  "others_in st c s = m_rgdwPerfData (g_PerfCounters (gl s)) c - (if is_open s \<and> state_of s = st then 1 else 0)"

definition balanced :: "'w win32 \<Rightarrow> 'w conn \<Rightarrow> 'w conn \<Rightarrow> bool" where
  "balanced api s s' \<longleftrightarrow> moved api s s' \<and>
     (m_fInit (g_PerfCounters (gl s)) \<longrightarrow> m_fInit (g_PerfCounters (gl s')) \<and>
      others_in AUTH_STATE e_gcAuthStateCnt s' = others_in AUTH_STATE e_gcAuthStateCnt s \<and>
      others_in TRANS_STATE e_gcTransStateCnt s' = others_in TRANS_STATE e_gcTransStateCnt s)"

lemma balanced_refl [simp]: "balanced api s s"
  by (simp add: balanced_def)

lemma balanced_trans: "balanced api a b \<Longrightarrow> balanced api b c \<Longrightarrow> balanced api a c"
  using moved_trans [of api a b c] by (auto simp: balanced_def)

text \<open>Steps that change nothing of this except the mailbox, and those that also leave the mailbox alone.\<close>

definition calm :: "'w conn \<Rightarrow> 'w conn \<Rightarrow> bool" where
  "calm s s' \<longleftrightarrow> m_hAsyncIO (io s') = m_hAsyncIO (io s) \<and> m_ConType (io s') = m_ConType (io s) \<and>
     state_of s' = state_of s \<and> failures s' = failures s \<and>
     m_bCommandComplete (this s') = m_bCommandComplete (this s) \<and> frame (gl s') = frame (gl s) \<and>
     m_fInit (g_PerfCounters (gl s')) = m_fInit (g_PerfCounters (gl s)) \<and>
     (\<forall>c \<in> {e_gcAuthStateCnt, e_gcTransStateCnt}.
        m_rgdwPerfData (g_PerfCounters (gl s')) c = m_rgdwPerfData (g_PerfCounters (gl s)) c)"

definition quiet :: "'w conn \<Rightarrow> 'w conn \<Rightarrow> bool" where
  "quiet s s' \<longleftrightarrow> calm s s' \<and> box_of s' = box_of s"

lemma calm_refl [simp]: "calm s s"
  by (simp add: calm_def)

lemma calm_trans [trans]: "calm a b \<Longrightarrow> calm b c \<Longrightarrow> calm a c"
  by (simp add: calm_def)

lemma quiet_refl [simp]: "quiet s s"
  by (simp add: quiet_def)

lemma quiet_trans [trans]: "quiet a b \<Longrightarrow> quiet b c \<Longrightarrow> quiet a c"
  by (auto simp: quiet_def intro: calm_trans)

lemma quiet_calm: "quiet s s' \<Longrightarrow> calm s s'"
  by (simp add: quiet_def)

lemma calm_balanced: "calm s s' \<Longrightarrow> balanced api s s'"
  by (simp add: calm_def balanced_def others_in_def moved_def)

lemma quiet_prims [simp]:
  "quiet s (SendResponse t s)" "quiet s (log i s)"
  "c \<notin> {e_gcAuthStateCnt, e_gcTransStateCnt} \<Longrightarrow> quiet s (count_up c s)"
  "c \<notin> {e_gcAuthStateCnt, e_gcTransStateCnt} \<Longrightarrow> quiet s (count_add c d s)"
  "quiet s (on_this (m_wszUserName_update f1) s)" "quiet s (on_this (m_szPassword_update f2) s)"
  "quiet s (on_this (m_cPswdSize_update f3) s)" "quiet s (on_this (m_dwAuthStatus_update f4) s)"
  "quiet s (on_this (m_bFileTransmitPending_update f5) s)"
  "quiet s (ZeroCommandBuffer s)" "quiet s (ZeroReceiveBuffer s)" "quiet s (s\<lparr>gl := (gl s)\<lparr>g_world := w\<rparr>\<rparr>)"
  by (auto simp: quiet_def calm_def perf_other ZeroCommandBuffer_def ZeroReceiveBuffer_def)

lemma quiet_call: "call f s = (r, s') \<Longrightarrow> quiet s s'"
  by (drule callD) simp

lemma quiet_SendResult [simp]: "quiet s (SendResult r t s)"
  by (auto simp: SendResult_def split: option.splits)

lemma quiet_open: "quiet s s' \<Longrightarrow> is_open s' = is_open s"
  by (simp add: quiet_def calm_def)

section \<open>The mailbox in a session\<close>

text \<open>Two boxes with the same mails: what opening, locking and unlocking leave alone.\<close>

definition same_mails :: "CMailBox \<Rightarrow> CMailBox \<Rightarrow> bool" where
  "same_mails b b' \<longleftrightarrow> m_MailVector b' = m_MailVector b \<and> m_cMailCount b' = m_cMailCount b \<and>
     m_dwSizeOfMailVector b' = m_dwSizeOfMailVector b \<and> m_dwShowMailCount b' = m_dwShowMailCount b \<and>
     m_dwTotalSize b' = m_dwTotalSize b"

lemma same_mails_inv: "same_mails b b' \<Longrightarrow> mb_inv b' = mb_inv b"
  by (simp add: same_mails_def mb_inv_def cong: option.case_cong)

lemma same_mails_trans: "same_mails a b \<Longrightarrow> same_mails b c \<Longrightarrow> same_mails a c"
  by (simp add: same_mails_def)

lemma OpenMailBox_same:
  "OpenMailBox api a (box, st, w) = Some (ok, box', st', w') \<Longrightarrow> same_mails box box'"
  by (auto simp: OpenMailBox_def SetMailBoxPath_def Let_def same_mails_def
      split: if_splits bind_splits option.splits prod.splits)

lemma LockMailBox_same: "LockMailBox api (box, w) = (ok, box', w') \<Longrightarrow> same_mails box box'"
  by (auto simp: LockMailBox_def same_mails_def split: option.splits prod.splits)

lemma UnlockMailBox_same: "UnlockMailBox api (box, w) = (box', w') \<Longrightarrow> same_mails box box'"
  by (auto simp: UnlockMailBox_def same_mails_def split: if_splits)

lemma Enumerate_loop_grown:
  assumes "mb_inv box" "unat (m_cMailCount box) + length fs < 2147483648"
    and "Enumerate_loop api dwMaxMsg fs (box, w) = Some r" "r = Inl (b, w') \<or> r = Inr (b, w')"
  shows "\<exists>gs. grown gs box b \<and> length gs \<le> length fs"
  using assms
proof (induction fs arbitrary: box w)
  case Nil
  then show ?case by (auto intro: exI [of _ "[]"])
next
  case (Cons f fs)
  consider w1 where "Enumerate_entry api f (box, w) = Some (Inl (box, w1))"
    | b1 w1 where "Enumerate_entry api f (box, w) = Some (Inr (b1, w1))" "grown (filter visible [f]) box b1"
    using Enumerate_entry_spec [OF Cons.prems(1), of api f w] Cons.prems(2) by auto
  then show ?case
  proof cases
    case 1
    then show ?thesis using Cons.prems by (auto intro: exI [of _ "[]"])
  next
    case (2 b1 w1)
    have cnt: "unat (m_cMailCount b1) = unat (m_cMailCount box) + length (filter visible [f])"
      using count_grown [OF 2(2) Cons.prems(1)] .
    have fl: "length (filter visible [f]) \<le> 1" by simp
    consider "Enumerate_loop api dwMaxMsg fs (b1, w1) = Some r" | "b = b1"
      using Cons.prems(3,4) 2(1) by (auto split: if_splits)
    then show ?thesis
    proof cases
      case 1
      then obtain gs where "grown gs b1 b" "length gs \<le> length fs"
        using Cons.IH [of b1 w1] 2(2) cnt fl Cons.prems(2,4) by (auto simp: grown_def)
      then show ?thesis using grown_trans [OF 2(2)] fl by (intro exI [of _ "filter visible [f] @ gs"]) simp
    qed (use 2(2) fl in \<open>auto intro!: exI [of _ "filter visible [f]"]\<close>)
  qed
qed

lemma EnumerateMailBox_inv:
  assumes "mb_inv box" "EnumerateMailBox api dwMaxMsg (box, w) = Some (ok, b, w')"
    and "\<And>w p. length (fst (FindFirstFile api w p)) \<le> L" "unat (m_cMailCount box) + L < 2147483648"
  shows "mb_inv b \<and> unat (m_cMailCount b) \<le> unat (m_cMailCount box) + L"
proof -
  obtain fs w1 where fs: "FindFirstFile api w (path_join (m_wszMailBoxPath box) (wide ''*.eml'')) = (fs, w1)"
    by fastforce
  have len: "length fs \<le> L" using assms(3) [of w "path_join (m_wszMailBoxPath box) (wide ''*.eml'')"] fs by simp
  show ?thesis
  proof (cases "fs = []")
    case True
    then have "b = box \<or> b = box\<lparr>m_cMailCount := 0\<rparr>"
      using assms(2) fs by (auto simp: EnumerateMailBox_def split: if_splits)
    then show ?thesis using assms(1) by (auto simp: mb_inv_def split: option.splits)
  next
    case False
    then obtain r c w2 where r: "Enumerate_loop api dwMaxMsg fs (box, w1) = Some r"
      "r = Inl (c, w2) \<or> r = Inr (c, w2)" "b = c \<or> b = c\<lparr>m_dwShowMailCount := m_cMailCount c\<rparr>"
      using assms(2) fs by (auto simp: EnumerateMailBox_def Let_def split: bind_splits sum.splits)
    then obtain gs where gs: "grown gs box c" "length gs \<le> length fs"
      using Enumerate_loop_grown [OF assms(1) _ r(1,2)] len assms(4) by auto
    then show ?thesis using r(3) count_grown [OF gs(1) assms(1)] len by (auto simp: grown_def)
  qed
qed

lemma mb_counts_drop:
  "mb_counts b \<longleftrightarrow> m_dwShowMailCount b = count_spec (drop_of_box b) \<and> m_dwTotalSize b = size_spec (drop_of_box b)"
proof -
  have "length (filter live ms) = length (filter (\<lambda>x. \<not> snd (snd x)) (map (\<lambda>m. (bstrFileName m, dwFileSize m, \<not> live m)) ms))"
    "map dwFileSize (filter live ms) =
     map (\<lambda>x. fst (snd x)) (filter (\<lambda>x. \<not> snd (snd x)) (map (\<lambda>m. (bstrFileName m, dwFileSize m, \<not> live m)) ms))" for ms
    by (induction ms) auto
  then show ?thesis unfolding mb_counts_def count_spec_def size_spec_def drop_of_box_def by presburger
qed

lemma Transmit_open_inv:
  assumes "mb_inv box" "i < unat (m_cMailCount box)" "Transmit_open api flags i (mails box ! i) (box, w) = (r, b, w')"
  shows "mb_inv b \<and> drop_of_box b = drop_of_box box \<and> (mb_counts b \<longleftrightarrow> mb_counts box)"
proof -
  obtain h where b: "b = box \<or> b = set_slot i (Some ((mails box ! i)\<lparr>hFile := h\<rparr>)) box"
    using assms(3) by (auto simp: Transmit_open_def split: if_splits option.splits prod.splits)
  let ?m = "(mails box ! i)\<lparr>hFile := h\<rparr>"
  have i: "i < length (mails box)" using assms by simp
  have "map (\<lambda>m. (bstrFileName m, dwFileSize m, \<not> live m)) ((mails box)[i := ?m]) =
      map (\<lambda>m. (bstrFileName m, dwFileSize m, \<not> live m)) (mails box)"
    using i by (simp add: map_update live_def list_update_same_conv)
  then have "mb_inv b \<and> drop_of_box b = drop_of_box box \<and> m_dwShowMailCount b = m_dwShowMailCount box \<and>
      m_dwTotalSize b = m_dwTotalSize box"
    using b set_slot_inv [OF assms(1,2), of ?m] assms(1) by (auto simp: drop_of_box_def)
  then show ?thesis by (simp add: mb_counts_drop)
qed

lemma TransmitMail_inv:
  assumes "mb_inv box" "TransmitMail api sock i n (box, w) = Some (r, b, w')"
  shows "mb_inv b \<and> drop_of_box b = drop_of_box box \<and> (mb_counts b \<longleftrightarrow> mb_counts box)"
proof (cases "bad_index i box")
  case True
  then show ?thesis using assms by (auto simp: TransmitMail_def)
next
  case False
  then have i: "nat i < unat (m_cMailCount box)" by (auto simp: bad_index_def)
  obtain r1 b1 w1 where o: "Transmit_open api FILE_FLAG_SEQUENTIAL_SCAN (nat i) (mails box ! nat i) (box, w) = (r1, b1, w1)"
    by (metis prod_cases3)
  have "b = box \<or> b = b1"
    using assms(2) False o mail_at_mails [OF assms(1) i]
    by (auto simp: TransmitMail_def split: if_splits sum.splits bind_splits prod.splits)
  then show ?thesis using Transmit_open_inv [OF assms(1) i o] assms(1) by auto
qed

lemma QuitAndClose_box:
  assumes "mb_inv box"
  shows "\<exists>w'. QuitAndClose api (box, w) = Some (new_CMailBox\<lparr>m_bMailBoxOpened := m_bMailBoxOpened box\<rparr>, w')"
proof -
  obtain w1 v where "Quit_loop api 0 (unat (m_cMailCount box)) box w = Some (w1, box\<lparr>m_MailVector := v\<rparr>)"
    using Quit_loop_files [of "\<lambda>_. ()" api "unat (m_cMailCount box)" box 0 w] slot_at_mails [OF assms] by auto
  then show ?thesis by (auto simp: QuitAndClose_def new_CMailBox_def Let_def)
qed

lemma CommitAndClose_box:
  assumes "mb_inv box"
  shows "\<exists>ok w'. CommitAndClose api (box, w) = Some (ok, new_CMailBox\<lparr>m_bMailBoxOpened := m_bMailBoxOpened box\<rparr>, w')"
proof -
  obtain v where "Commit_loop api 0 (unat (m_cMailCount box)) box (True, w) =
      Some (fold (Commit_one api (m_wszMailBoxPath box)) (mails box) (True, w), box\<lparr>m_MailVector := v\<rparr>)"
    using Commit_loop_fold [of "unat (m_cMailCount box)" box 0 "mails box" api "(True, w)"]
      slot_at_mails [OF assms] assms by auto
  then show ?thesis
    by (cases "fold (Commit_one api (m_wszMailBoxPath box)) (mails box) (True, w)")
       (auto simp: CommitAndClose_def new_CMailBox_def Let_def)
qed

section \<open>Every request keeps the invariant\<close>

lemma counted_simps [simp]:
  "m_fInit g \<Longrightarrow> m_rgdwPerfData (IncPerfCntr c g) d = (if d = c then m_rgdwPerfData g c + 1 else m_rgdwPerfData g d)"
  "m_fInit g \<Longrightarrow> m_rgdwPerfData (DecPerfCntr c g) d = (if d = c then m_rgdwPerfData g c - 1 else m_rgdwPerfData g d)"
  by (simp_all add: IncPerfCntr_def DecPerfCntr_def)

lemma DecrementTotal_perf: "DecrementTotalSocketCount api g = Some g' \<Longrightarrow> g_PerfCounters g' = g_PerfCounters g"
  using DecrementTotalSocketCount_grows [of api g g']
  by (auto simp: grows_def keeps_def add_total_def on_pool_def)

text \<open>What ends a connection: from any sound one it leads to a closed one with an empty mailbox.\<close>

lemma TerminateConnection_step:
  assumes "TerminateConnection api s = Some s'" "conn_sound s"
  shows "balanced api s s' \<and> conn_sound s' \<and> \<not> is_open s'"
proof (cases "m_ConType (io s) = DELETE_PENDING")
  case True
  then show ?thesis using assms by (auto simp: TerminateConnection_def conn_sound_def)
next
  case False
  let ?box = "new_CMailBox\<lparr>m_bMailBoxOpened := m_bMailBoxOpened (box_of s)\<rparr>"
  obtain w1 where q: "QuitAndClose api (box_of s, g_world (gl s)) = Some (?box, w1)"
    using QuitAndClose_box [of "box_of s" api "g_world (gl s)"] assms(2) unfolding conn_sound_def by blast
  let ?g1 = "(gl s)\<lparr>g_world := w1\<rparr>"
  obtain g2 where g2: "s' = s\<lparr>this := (this s)\<lparr>m_MailBox := ?box\<rparr>, gl := g2, io := io s'\<rparr>"
    "m_hAsyncIO (io s') = NULL_HANDLE"
    "g_PerfCounters g2 = (if is_open s then DecPerfCntr e_gcConnectedSocketCnt
        ((case state_of s of TRANS_STATE \<Rightarrow> DecPerfCntr e_gcTransStateCnt
          | AUTH_STATE \<Rightarrow> DecPerfCntr e_gcAuthStateCnt | _ \<Rightarrow> id) (g_PerfCounters (gl s)))
       else g_PerfCounters (gl s))" "moved api s s'"
  proof -
    show thesis
    proof (cases "is_open s")
      case op: True
      obtain g3 where g3: "DecrementTotalSocketCount api (emit (Closed (m_hAsyncIO (io s)))
            (sysw (\<lambda>w. closesocket api w (m_hAsyncIO (io s))) ?g1)) = Some g3"
        using assms(1) False op q
        by (auto simp: TerminateConnection_def box_call_opt_def Let_def on_io_def on_gl_def split: bind_splits)
      note dp = DecrementTotal_perf [OF g3]
      have "\<not> is_open s' \<and> frame (gl s') = frame g3"
        using assms(1) False op q g3
        by (auto simp: TerminateConnection_def box_call_opt_def Let_def on_io_def on_gl_def split: pop3_state.splits)
      then have "moved api s s'"
        unfolding moved_def using op g3 by (metis frame_simps(2,4,5))
      then show thesis
        using that [of "gl s'"] assms(1) False op q g3 dp
        by (auto simp: TerminateConnection_def box_call_opt_def Let_def on_io_def on_gl_def split: pop3_state.splits)
    next
      case cl: False
      then show thesis
        using that [of ?g1] assms(1) False q
        by (auto simp: TerminateConnection_def box_call_opt_def Let_def on_io_def moved_def)
    qed
  qed
  have "mb_inv ?box" by (simp add: new_CMailBox_inv)
  moreover have "m_cMailCount ?box = 0" by (simp add: new_CMailBox_def)
  moreover have "this s' = (this s)\<lparr>m_MailBox := ?box\<rparr>" "gl s' = g2" by (subst g2(1), simp)+
  ultimately show ?thesis
    using g2(2-4) assms(2)
    by (auto simp: conn_sound_def line_ok_def balanced_def others_in_def split: pop3_state.splits)
qed

lemma closed_inv: "conn_sound s \<Longrightarrow> \<not> is_open s \<Longrightarrow> conn_inv L s"
  by (simp add: conn_inv_def)

lemma quiet_sound: "quiet s s' \<Longrightarrow> m_bCommandComplete (this s) \<or> this s' = this s \<Longrightarrow> conn_sound s \<Longrightarrow> conn_sound s'"
  by (auto simp: quiet_def calm_def conn_sound_def line_ok_def)

lemma quiet_inv: "quiet s s' \<Longrightarrow> m_bCommandComplete (this s) \<or> this s' = this s \<Longrightarrow> conn_inv L s \<Longrightarrow> conn_inv L s'"
  using quiet_sound [of s s'] by (auto simp: conn_inv_def) (auto simp: quiet_def calm_def)

lemma WaitForCommand_step:
  assumes "WaitForCommand api s = Some s'" "conn_inv L s"
  shows "balanced api s s' \<and> conn_inv L s'"
proof -
  obtain ok s1 where c: "call (\<lambda>w. WSARecv api w (m_hAsyncIO (io s))) s = (ok, s1)" by fastforce
  have q: "quiet s s1" "this s1 = this s" "io s1 = io s" using quiet_call [OF c] callD [OF c] by simp_all
  have inv1: "conn_inv L s1" using quiet_inv [OF q(1)] q(2) assms(2) by simp
  have "TerminateConnection api s = Some s' \<or> TerminateConnection api s1 = Some s' \<or>
      Some s' = Some (on_gl (emit (Recv (m_hAsyncIO (io s1)))) s1)"
    using assms(1) unfolding WaitForCommand_def c prod.case by presburger
  then consider "TerminateConnection api s = Some s'" | "TerminateConnection api s1 = Some s'"
    | "s' = on_gl (emit (Recv (m_hAsyncIO (io s1)))) s1"
    by blast
  then show ?thesis
  proof cases
    case 1
    then show ?thesis using TerminateConnection_step [OF 1] assms(2) closed_inv by (auto simp: conn_inv_def)
  next
    case 2
    then show ?thesis
      using TerminateConnection_step [OF 2] inv1 closed_inv balanced_trans [OF calm_balanced [OF quiet_calm [OF q(1)]]]
      by (auto simp: conn_inv_def)
  next
    case 3
    have "quiet s1 s'" "this s' = this s1" using 3 by (simp_all add: quiet_def calm_def)
    then show ?thesis
      using quiet_inv [of s1 s' L] inv1 quiet_trans [OF q(1)] calm_balanced quiet_calm by metis
  qed
qed

text \<open>Quiet primitive steps, one after the other.\<close>

lemma quiet_after [simp]:
  "quiet s (SendResponse t s1) = quiet s s1" "quiet s (log i s1) = quiet s s1"
  "quiet s (SendResult r l s1) = quiet s s1"
  "quiet s (on_this (m_wszUserName_update f1) s1) = quiet s s1"
  "quiet s (on_this (m_szPassword_update f2) s1) = quiet s s1"
  "quiet s (on_this (m_cPswdSize_update f3) s1) = quiet s s1"
  "quiet s (on_this (m_dwAuthStatus_update f4) s1) = quiet s s1"
  "quiet s (on_this (m_bFileTransmitPending_update f5) s1) = quiet s s1"
  "quiet s (ZeroCommandBuffer s1) = quiet s s1" "quiet s (ZeroReceiveBuffer s1) = quiet s s1"
  "g_PerfCounters g = g_PerfCounters (gl s1) \<Longrightarrow> frame g = frame (gl s1) \<Longrightarrow> quiet s (s1\<lparr>gl := g\<rparr>) = quiet s s1"
  by (simp_all add: quiet_def calm_def ZeroCommandBuffer_def ZeroReceiveBuffer_def SendResult_def split: option.split)

lemma quiet_count [simp]:
  "c \<noteq> e_gcAuthStateCnt \<Longrightarrow> c \<noteq> e_gcTransStateCnt \<Longrightarrow> quiet s (count_up c s1) = quiet s s1"
  "c \<noteq> e_gcAuthStateCnt \<Longrightarrow> c \<noteq> e_gcTransStateCnt \<Longrightarrow> quiet s (count_add c d s1) = quiet s s1"
  by (simp_all add: quiet_def calm_def perf_other)

lemma quiet_after_call [simp]: "quiet s (snd (call f s1)) = quiet s s1"
  by (cases "call f s1") (auto dest: callD)

text \<open>What a command establishes; \<^verbatim>\<open>b\<close> is false when the connection is to be terminated next.\<close>

definition cmd_step :: "'w win32 \<Rightarrow> nat \<Rightarrow> bool \<Rightarrow> 'w conn \<Rightarrow> 'w conn \<Rightarrow> bool" where
  "cmd_step api L b s s' \<longleftrightarrow> balanced api s s' \<and> conn_sound s' \<and> (b \<longrightarrow> conn_inv L s')"

lemma quiet_step: "quiet s s' \<Longrightarrow> conn_inv L s \<Longrightarrow> m_bCommandComplete (this s) \<Longrightarrow> cmd_step api L b s s'"
  using quiet_inv [of s s' L] by (auto simp: cmd_step_def conn_inv_def intro: calm_balanced quiet_calm)

lemma AuthUser_quiet: "AuthUser api s = Some (b, s') \<Longrightarrow> quiet s s'"
  by (auto simp: AuthUser_def split: if_splits bind_splits option.splits)

lemma AuthPass_password_quiet:
  "AuthPass_password s = Some (Inl (b, s')) \<Longrightarrow> quiet s s'"
  "AuthPass_password s = Some (Inr (p, s')) \<Longrightarrow> quiet s s'"
  by (auto simp: AuthPass_password_def Let_def split: if_splits bind_splits)

lemma AuthAuth_first_quiet: "AuthAuth_first s = Some (b, s') \<Longrightarrow> quiet s s'"
  by (auto simp: AuthAuth_first_def split: if_splits bind_splits option.splits)

lemma CheckPassword_quiet: "CheckPassword api p s = (b, s') \<Longrightarrow> quiet s s'"
  by (auto simp: CheckPassword_def dest!: callD split: prod.splits if_splits)

text \<open>A logon up to its verdict.\<close>

definition logon_step :: "nat \<Rightarrow> 'w conn \<Rightarrow> 'w conn \<Rightarrow> bool" where
  "logon_step L s s' \<longleftrightarrow> calm s s' \<and> mb_inv (box_of s') \<and>
     unat (m_cMailCount (box_of s')) \<le> unat (m_cMailCount (box_of s)) + L"

lemma quiet_logon: "quiet s s' \<Longrightarrow> mb_inv (box_of s) \<Longrightarrow> logon_step L s s'"
  by (simp add: logon_step_def quiet_def)

lemma logon_quiet: "logon_step L s s1 \<Longrightarrow> quiet s1 s2 \<Longrightarrow> logon_step L s s2"
  by (auto simp: logon_step_def quiet_def intro: calm_trans)

lemma quiet_logon_trans: "quiet s s1 \<Longrightarrow> logon_step L s1 s2 \<Longrightarrow> logon_step L s s2"
  by (auto simp: logon_step_def quiet_def intro: calm_trans)

text \<open>A call of the mailbox changes the mailbox and the world.\<close>

lemma box_call_step:
  assumes "box_call f s = (r, s')"
  obtains b w where "f (box_of s, g_world (gl s)) = (r, b, w)" "calm s s'" "box_of s' = b"
    "g_world (gl s') = w" "g_cfg (gl s') = g_cfg (gl s)" "g_out (gl s') = g_out (gl s)"
  using assms by (auto simp: box_call_def calm_def split: prod.splits)

lemma box_call_opt_step:
  assumes "box_call_opt f s = Some (r, s')"
  obtains b w where "f (box_of s, g_world (gl s)) = Some (r, b, w)" "calm s s'" "box_of s' = b"
    "g_world (gl s') = w" "g_cfg (gl s') = g_cfg (gl s)" "g_out (gl s') = g_out (gl s)"
  using assms by (auto simp: box_call_opt_def calm_def split: bind_splits)

lemma open_call_step:
  assumes "open_call api s = Some (ok, s')"
  shows "calm s s' \<and> same_mails (box_of s) (box_of s')"
  using assms
  by (auto simp: open_call_def calm_def split: bind_splits dest: OpenMailBox_same)

lemma logon_same: "calm s s' \<Longrightarrow> same_mails (box_of s) (box_of s') \<Longrightarrow> mb_inv (box_of s) \<Longrightarrow> logon_step L s s'"
  using same_mails_inv [of "box_of s" "box_of s'"] by (simp add: logon_step_def same_mails_def)

lemma logon_after_same:
  assumes "calm s s1" "same_mails (box_of s) (box_of s1)" "logon_step L s1 s2"
  shows "logon_step L s s2"
  using assms calm_trans [of s s1 s2] by (simp add: logon_step_def same_mails_def)

lemma logon_then_same:
  assumes "logon_step L s s1" "calm s1 s2" "same_mails (box_of s1) (box_of s2)"
  shows "logon_step L s s2"
  using assms calm_trans [of s s1 s2] same_mails_inv [OF assms(3)] by (simp add: logon_step_def same_mails_def)

lemma LogonMailbox_cases:
  assumes "LogonMailbox api b s = Some (ok, s')"
  obtains (refused) s1 where "\<not> ok" "b \<longrightarrow> open_call api s = Some (False, s1)" "\<not> b \<longrightarrow> s1 = s" "quiet s1 s'"
    | (unlocked) s1 where "\<not> ok" "b" "open_call api s = Some (True, s1)" "box_call (LockMailBox api) s1 = (False, s')"
    | (unlisted) s1 s2 s3 where "\<not> ok" "b" "open_call api s = Some (True, s1)" "box_call (LockMailBox api) s1 = (True, s2)"
        "box_call_opt (EnumerateMailBox api (g_dwMaxMsgPerDnld (g_cfg (gl s2)))) s2 = Some (False, s3)"
        "box_call (\<lambda>b. ((), UnlockMailBox api b)) s3 = ((), s')"
    | (entered) s1 s2 where "ok" "b" "open_call api s = Some (True, s1)" "box_call (LockMailBox api) s1 = (True, s2)"
        "box_call_opt (EnumerateMailBox api (g_dwMaxMsgPerDnld (g_cfg (gl s2)))) s2 = Some (True, s')"
proof -
  obtain ok1 s1 where s1: "(if b then open_call api s else Some (False, s)) = Some (ok1, s1)"
    using assms by (cases "if b then open_call api s else Some (False, s)") (auto simp: LogonMailbox_def)
  show thesis
  proof (cases ok1)
    case False
    then have "quiet s1 s'" "\<not> ok" using assms s1 by (auto simp: LogonMailbox_def)
    then show thesis by (rule refused [rotated 3]) (use s1 False in \<open>simp_all split: if_splits\<close>)
  next
    case True
    then have b: "b" "open_call api s = Some (True, s1)" using s1 by (auto split: if_splits)
    obtain ok2 s2 where l: "box_call (LockMailBox api) s1 = (ok2, s2)" by fastforce
    show thesis
    proof (cases ok2)
      case False
      then have "\<not> ok" "s' = s2" using assms s1 True l by (auto simp: LogonMailbox_def)
      then show thesis using l False by (intro unlocked [OF _ b]) simp_all
    next
      case lk: True
      obtain ok3 s3 where e: "box_call_opt (EnumerateMailBox api (g_dwMaxMsgPerDnld (g_cfg (gl s2)))) s2 = Some (ok3, s3)"
        using assms s1 True l lk by (auto simp: LogonMailbox_def split: bind_splits)
      show thesis
      proof (cases ok3)
        case True
        then have "ok" "s' = s3" using assms s1 b l lk e by (auto simp: LogonMailbox_def)
        then show thesis using l lk e True by (intro entered [OF _ b]) simp_all
      next
        case False
        then have "\<not> ok" "box_call (\<lambda>b. ((), UnlockMailBox api b)) s3 = ((), s')"
          using assms s1 b l lk e by (auto simp: LogonMailbox_def split: prod.splits)
        then show thesis using l lk e False by (intro unlisted [OF _ b]) simp_all
      qed
    qed
  qed
qed

lemma Lock_call_step:
  assumes "box_call (LockMailBox api) s = (ok, s')"
  shows "calm s s' \<and> same_mails (box_of s) (box_of s')"
  using assms by (rule box_call_step) (auto dest: LockMailBox_same)

lemma LogonMailbox_step:
  assumes "LogonMailbox api b s = Some (ok, s')" "mb_inv (box_of s)"
    and "\<And>w p. length (fst (FindFirstFile api w p)) \<le> L" "unat (m_cMailCount (box_of s)) + L < 2147483648"
  shows "logon_step L s s'"
proof -
  have list: "logon_step L s s3"
    if o: "open_call api s = Some (True, s1)" and l: "box_call (LockMailBox api) s1 = (True, s2)"
      and e: "box_call_opt (EnumerateMailBox api m) s2 = Some (k, s3)" for s1 s2 s3 m k
  proof -
    have c: "calm s s2" "same_mails (box_of s) (box_of s2)"
      using open_call_step [OF o] Lock_call_step [OF l] calm_trans same_mails_trans by blast+
    then have i: "mb_inv (box_of s2)" "unat (m_cMailCount (box_of s2)) + L < 2147483648"
      using assms(2,4) same_mails_inv [of "box_of s" "box_of s2"] by (simp_all add: same_mails_def)
    from e have "logon_step L s2 s3"
      by (rule box_call_opt_step) (use EnumerateMailBox_inv [OF i(1) _ assms(3) i(2)] in \<open>auto simp: logon_step_def\<close>)
    then show ?thesis using c logon_after_same by blast
  qed
  from assms(1) show ?thesis
  proof (cases rule: LogonMailbox_cases)
    case (refused s1)
    then have "logon_step L s s1"
      using open_call_step [of api s False s1] logon_same assms(2) quiet_logon quiet_refl by blast
    then show ?thesis using logon_quiet refused by blast
  next
    case (unlocked s1)
    then show ?thesis
      using open_call_step [of api s True s1] Lock_call_step [of api s1 False s'] calm_trans same_mails_trans
        logon_same assms(2) by blast
  next
    case (unlisted s1 s2 s3)
    have "calm s3 s' \<and> same_mails (box_of s3) (box_of s')"
      using unlisted(6) by (rule box_call_step) (auto dest: UnlockMailBox_same)
    then show ?thesis using list [OF unlisted(3-5)] logon_then_same by blast
  next
    case (entered s1 s2)
    then show ?thesis using list by blast
  qed
qed

subsection \<open>Commands of the authorization state\<close>

definition dirs_bounded :: "'w win32 \<Rightarrow> nat \<Rightarrow> bool" where
  "dirs_bounded api L \<longleftrightarrow> (\<forall>w p. length (fst (FindFirstFile api w p)) \<le> L) \<and> 3 * L < 2147483648"

definition ready :: "nat \<Rightarrow> pop3_state \<Rightarrow> 'w conn \<Rightarrow> bool" where
  "ready L st s \<longleftrightarrow> conn_inv L s \<and> is_open s \<and> state_of s = st \<and> m_bCommandComplete (this s)"

lemma ready_quiet: "ready L st s \<Longrightarrow> quiet s s' \<Longrightarrow> ready L st s'"
  using quiet_inv [of s s' L] by (auto simp: ready_def) (auto simp: quiet_def calm_def)

lemma ready_step: "ready L st s \<Longrightarrow> quiet s s' \<Longrightarrow> cmd_step api L b s s'"
  using quiet_step by (auto simp: ready_def)

lemma failures_cases: "(n :: DWORD) < 3 \<Longrightarrow> n = 0 \<or> n = 1 \<or> n = 2"
proof -
  assume "n < 3"
  then have "unat n < 3" by (simp add: word_less_nat_alt)
  then have "unat n = 0 \<or> unat n = 1 \<or> unat n = 2" by linarith
  then show ?thesis by (auto simp: word_unat_eq_iff)
qed

lemma ready_room:
  assumes "ready L AUTH_STATE s" "dirs_bounded api L"
  shows "mb_inv (box_of s)" "unat (m_cMailCount (box_of s)) + L < 2147483648"
proof -
  have i: "conn_inv L s" "is_open s" "state_of s = AUTH_STATE" using assms(1) by (simp_all add: ready_def)
  then show "mb_inv (box_of s)" by (simp add: conn_inv_def conn_sound_def)
  have "failures s < 3" "unat (m_cMailCount (box_of s)) \<le> unat (failures s) * L"
    using i by (simp_all add: conn_inv_def)
  then show "unat (m_cMailCount (box_of s)) + L < 2147483648"
    using assms(2) failures_cases [of "failures s"] by (auto simp: dirs_bounded_def)
qed

lemma logon_ready:
  assumes "ready L AUTH_STATE s" "dirs_bounded api L" "LogonMailbox api b s = Some (ok, s')"
  shows "logon_step L s s'"
  using LogonMailbox_step [OF assms(3) ready_room(1) [OF assms(1,2)] _ ready_room(2) [OF assms(1,2)]] assms(2)
  by (simp add: dirs_bounded_def)

lemma EnterTransaction_step:
  assumes "ready L AUTH_STATE s" "logon_step L s s1"
  shows "cmd_step api L b s (EnterTransaction s1)"
  using assms
  by (auto simp: EnterTransaction_def ready_def cmd_step_def logon_step_def calm_def conn_inv_def conn_sound_def
      line_ok_def balanced_def others_in_def)

text \<open>A failed logon: counted, and the last permitted failure ends the connection.\<close>

lemma failed_inv:
  assumes "ready L AUTH_STATE s" "logon_step L s s1"
    and "m_hAsyncIO (io s2) = m_hAsyncIO (io s1)" "m_ConType (io s2) = m_ConType (io s1)"
    and "state_of s2 = state_of s1" "m_bCommandComplete (this s2) = m_bCommandComplete (this s1)"
    and "box_of s2 = box_of s1" "failures s2 = failures s1 + 1"
    and "g_PerfCounters (gl s2) = IncPerfCntr e_gcFailedLogonCnt (g_PerfCounters (gl s1))"
    and "frame (gl s2) = frame (gl s1)" "b \<longrightarrow> failures s2 < MAX_FAILED_AUTH"
  shows "cmd_step api L b s s2"
proof -
  have f: "failures s < 3" using assms(1) by (simp add: ready_def conn_inv_def)
  have u: "unat (failures s + 1) = Suc (unat (failures s))"
    using failures_cases [OF f] by auto
  have "unat (m_cMailCount (box_of s2)) \<le> unat (failures s2) * L"
    using assms(1,2,7,8) u by (auto simp: ready_def conn_inv_def logon_step_def calm_def)
  then show ?thesis
    using assms unfolding cmd_step_def balanced_def others_in_def conn_inv_def conn_sound_def line_ok_def
      logon_step_def calm_def ready_def
    by simp
qed

lemma LogonFailed_step:
  assumes "ready L AUTH_STATE s" "logon_step L s s1" "LogonFailed s1 = (b, s2)"
  shows "cmd_step api L b s s2" "cmd_step api L b s (on_this (m_wszUserName_update f) s2)"
  by (rule failed_inv [OF assms(1,2)];
      use assms(3) in \<open>auto simp: LogonFailed_def Let_def not_le split: if_splits\<close>)+

lemma AuthPass_check_quiet: "AuthPass_check api p s = (b, s') \<Longrightarrow> quiet s s'"
  by (auto simp: AuthPass_check_def Let_def dest!: callD CheckPassword_quiet split: if_splits prod.splits
      elim!: quiet_trans [rotated])

lemma AuthApop_check_quiet: "AuthApop_check api u p s = Some (b, s') \<Longrightarrow> quiet s s'"
  by (auto simp: AuthApop_check_def Let_def dest!: callD CheckPassword_quiet split: if_splits prod.splits
      elim!: quiet_trans [rotated])

text \<open>From the check of a password on, the ways to log on are alike.\<close>

lemma logon_verdict:
  assumes "ready L AUTH_STATE s" "dirs_bounded api L" "quiet s s1" "LogonMailbox api b1 s1 = Some (ok, s2)"
  shows "cmd_step api L b s (EnterTransaction s2)"
    "LogonFailed s2 = (c, s3) \<Longrightarrow> cmd_step api L c s s3 \<and> cmd_step api L c s (on_this (m_wszUserName_update f) s3)"
proof -
  have "logon_step L s s2"
    using logon_ready [OF ready_quiet [OF assms(1,3)] assms(2,4)] quiet_logon_trans [OF assms(3)] by blast
  from EnterTransaction_step [OF assms(1) this] LogonFailed_step [OF assms(1) this]
  show "cmd_step api L b s (EnterTransaction s2)"
    "LogonFailed s2 = (c, s3) \<Longrightarrow> cmd_step api L c s s3 \<and> cmd_step api L c s (on_this (m_wszUserName_update f) s3)"
    by auto
qed

lemma AuthPass_step:
  assumes "ready L AUTH_STATE s" "dirs_bounded api L" "AuthPass api s = Some (b, s')"
  shows "cmd_step api L b s s'"
proof -
  obtain r where r: "AuthPass_password (ZeroReceiveBuffer s) = Some r"
    using assms(3) by (auto simp: AuthPass_def split: bind_splits)
  have zr: "quiet (ZeroReceiveBuffer s) x \<Longrightarrow> quiet s x" for x using quiet_trans quiet_prims(11) by blast
  show ?thesis
  proof (cases r)
    case (Inl fin)
    then have "quiet (ZeroReceiveBuffer s) s'"
      using assms(3) r AuthPass_password_quiet(1) by (fastforce simp: AuthPass_def)
    then show ?thesis using ready_step [OF assms(1)] zr by blast
  next
    case (Inr q)
    obtain pswd s1 b2 s2 where q: "q = (pswd, s1)" "AuthPass_check api pswd s1 = (b2, s2)" by fastforce
    then have q2: "quiet s s2"
      using AuthPass_password_quiet(2) AuthPass_check_quiet r Inr quiet_trans zr by blast
    obtain ok s3 where l: "LogonMailbox api b2 s2 = Some (ok, s3)"
      "(b, s') = (if ok then (True, EnterTransaction s3)
         else (case LogonFailed s3 of (b, s) \<Rightarrow> (b, on_this (m_wszUserName_update (\<lambda>_. [])) s)))"
      using assms(3) r Inr q by (auto simp: AuthPass_def split: bind_splits if_splits prod.splits)
    show ?thesis
      using l(2) logon_verdict [OF assms(1,2) q2 l(1)] by (auto split: if_splits prod.splits)
  qed
qed

lemma AuthApop_step:
  assumes "ready L AUTH_STATE s" "dirs_bounded api L" "AuthApop api s = Some (b, s')"
  shows "cmd_step api L b s s'"
proof (cases "quiet s s'")
  case True
  then show ?thesis using ready_step [OF assms(1)] by blast
next
  case False
  then obtain u p b2 s2 where c: "AuthApop_check api u p (ZeroCommandBuffer (ZeroReceiveBuffer s)) = Some (b2, s2)"
    "(do { (bRetVal, s) \<leftarrow> LogonMailbox api b2 s2;
        if bRetVal then Some (True, EnterTransaction s) else Some (LogonFailed s) }) = Some (b, s')"
    using assms(3) by (auto simp: AuthApop_def Let_def split: option.splits if_splits bind_splits)
  have q: "quiet s s2"
    using AuthApop_check_quiet [OF c(1)] quiet_trans [of s "ZeroCommandBuffer (ZeroReceiveBuffer s)"] by simp
  obtain ok s3 where l: "LogonMailbox api b2 s2 = Some (ok, s3)"
      "(b, s') = (if ok then (True, EnterTransaction s3) else LogonFailed s3)"
    using c(2) by (auto split: bind_splits if_splits)
  show ?thesis using l(2) logon_verdict [OF assms(1,2) q l(1)] by (auto split: if_splits)
qed

lemma sys_perf: "sys f g = (r, g') \<Longrightarrow> g_PerfCounters g' = g_PerfCounters g \<and> frame g' = frame g"
  by (auto simp: sys_def split: prod.splits)

lemma set_auth_perf [simp]: "g_PerfCounters (set_auth f g) = g_PerfCounters g"
  by (simp add: set_auth_def)

lemma GlobalInit_load_perf: "GlobalInit_load api g = Some (hr, g') \<Longrightarrow> g_PerfCounters g' = g_PerfCounters g \<and> frame g' = frame g"
  unfolding GlobalInit_load_def
  by (auto simp: Let_def dest!: sys_perf split: if_splits prod.splits bind_splits)

lemma InitCredential_perf:
  "InitCredential api (a, g) = Some (hr, a', g') \<Longrightarrow> g_PerfCounters g' = g_PerfCounters g \<and> frame g' = frame g"
  unfolding InitCredential_def GlobalInit_def
  by (auto dest!: sys_perf GlobalInit_load_perf split: if_splits prod.splits bind_splits)

lemma AcceptToken_perf:
  "AcceptToken api token (a, g) = (hr, answer, a', g') \<Longrightarrow> g_PerfCounters g' = g_PerfCounters g \<and> frame g' = frame g"
  unfolding AcceptToken_def CompleteToken_def
  by (auto simp: Let_def dest!: sys_perf split: if_splits prod.splits option.splits)

lemma HandShake_perf:
  assumes "HandShake api buf (a, g) = Some (hr, line, a', g')"
  shows "g_PerfCounters g' = g_PerfCounters g \<and> frame g' = frame g"
  using assms unfolding HandShake_def
  by (auto simp: Let_def dest!: InitCredential_perf AcceptToken_perf split: if_splits prod.splits bind_splits)

lemma GetUserName_perf:
  assumes "GetUserName api name (a, g) = (hr, name', g')"
  shows "g_PerfCounters g' = g_PerfCounters g \<and> frame g' = frame g"
  using assms unfolding GetUserName_def
  by (auto simp: Let_def dest!: sys_perf split: if_splits prod.splits option.splits)

lemma quiet_auth [simp]:
  "quiet s (s1\<lparr>this := (this s1)\<lparr>m_AuthServer := a\<rparr>\<rparr>) = quiet s s1"
  "g_PerfCounters g = g_PerfCounters (gl s1) \<Longrightarrow> frame g = frame (gl s1) \<Longrightarrow>
     quiet s (s1\<lparr>this := (this s1)\<lparr>m_AuthServer := a\<rparr>, gl := g\<rparr>) = quiet s s1"
  "g_PerfCounters g = g_PerfCounters (gl s1) \<Longrightarrow> frame g = frame (gl s1) \<Longrightarrow>
     quiet s (s1\<lparr>this := (this s1)\<lparr>m_wszUserName := u\<rparr>, gl := g\<rparr>) = quiet s s1"
  by (simp_all add: quiet_def calm_def)

lemma Cleanup_frame: "Cleanup api (a, g) = (a', g') \<Longrightarrow> frame g' = frame g"
  by (auto simp: Cleanup_def Let_def split: if_splits)

lemma AuthAuth_failed_step:
  assumes "ready L AUTH_STATE s" "logon_step L s s1" "AuthAuth_failed api resp s1 = (b, s2)"
  shows "cmd_step api L b s s2"
proof -
  obtain a g where c: "Cleanup api (m_AuthServer (this s1), gl s1) = (a, g)" by fastforce
  then have "g_PerfCounters g = g_PerfCounters (gl s1)" "frame g = frame (gl s1)"
    using Cleanup_keeps [OF c] Cleanup_frame [OF c] by (simp_all add: keeps_def)
  then show ?thesis
    using assms(3) c by (intro failed_inv [OF assms(1,2)]) (auto simp: AuthAuth_failed_def Let_def not_le)
qed

text \<open>The cases of \<^verbatim>\<open>AUTH\<close>.\<close>

lemma AuthAuth_cases:
  assumes "AuthAuth api s = Some (b, s')"
  obtains (first) "m_dwAuthStatus (this s) = 0" "AuthAuth_first s = Some (b, s')"
    | (continue) s1 line where "m_dwAuthStatus (this s) \<noteq> 0" "b" "quiet s s1" "s' = SendResponse line s1"
    | (refused) s1 where "m_dwAuthStatus (this s) \<noteq> 0" "quiet s s1" "AuthAuth_failed api RESP_CMD_NOT_VALID s1 = (b, s')"
    | (logon) line a g name s1 hr ok s2 where "m_dwAuthStatus (this s) \<noteq> 0"
        "HandShake api (cmd_buf s) (m_AuthServer (this s), gl s) = Some (S_OK, line, a, g)" "quiet s s1"
        "fst (GetUserName api (m_wszUserName (this s)) (a, g)) = hr" "m_wszUserName (this s1) = name"
        "fst (snd (GetUserName api (m_wszUserName (this s)) (a, g))) = name"
        "LogonMailbox api (hr = S_OK) s1 = Some (ok, s2)"
        "ok \<longrightarrow> b \<and> s' = EnterTransaction s2" "\<not> ok \<longrightarrow> AuthAuth_failed api RESP_ACCOUNT_ERROR s2 = (b, s')"
proof (cases "m_dwAuthStatus (this s) = 0")
  case True
  then show thesis using assms first by (simp add: AuthAuth_def)
next
  case False
  then obtain hr line a g where h: "HandShake api (cmd_buf s) (m_AuthServer (this s), gl s) = Some (hr, line, a, g)"
    using assms by (cases "HandShake api (cmd_buf s) (m_AuthServer (this s), gl s)") (auto simp: AuthAuth_def)
  note hp = HandShake_perf [OF h]
  let ?s1 = "s\<lparr>this := (this s)\<lparr>m_AuthServer := a\<rparr>, gl := g\<rparr>"
  have q1: "quiet s ?s1" using hp by simp
  consider "hr = S_FALSE" | "hr = S_OK" | "hr \<noteq> S_FALSE" "hr \<noteq> S_OK" by blast
  then show thesis
  proof cases
    case 1
    then show thesis using assms False h by (intro continue [OF False _ q1, of line]) (auto simp: AuthAuth_def)
  next
    case 2
    obtain k name g2 where u: "GetUserName api (m_wszUserName (this s)) (a, g) = (k, name, g2)" by (metis prod_cases3)
    note up = GetUserName_perf [OF u]
    let ?s2 = "(on_this (m_dwAuthStatus_update (\<lambda>_. 0)) ?s1)\<lparr>this := (this (on_this (m_dwAuthStatus_update (\<lambda>_. 0)) ?s1))
      \<lparr>m_wszUserName := name\<rparr>, gl := g2\<rparr>"
    have q2: "quiet s ?s2" using q1 up by (subst quiet_auth(3)) simp_all
    obtain ok s3 where l: "LogonMailbox api (k = S_OK) ?s2 = Some (ok, s3)"
      "if ok then (b, s') = (True, EnterTransaction s3) else (b, s') = AuthAuth_failed api RESP_ACCOUNT_ERROR s3"
      using assms False h 2 u by (auto simp: AuthAuth_def split: bind_splits if_splits)
    show thesis
      by (rule logon [OF False h [unfolded 2] q2 _ _ _ l(1)]) (use u l(2) in \<open>auto split: if_splits\<close>)
  next
    case 3
    then show thesis using assms False h by (intro refused [OF False q1]) (auto simp: AuthAuth_def)
  qed
qed

lemma AuthAuth_step:
  assumes "ready L AUTH_STATE s" "dirs_bounded api L" "AuthAuth api s = Some (b, s')"
  shows "cmd_step api L b s s'"
  using assms(3)
proof (cases rule: AuthAuth_cases)
  case first
  then show ?thesis using ready_step [OF assms(1)] AuthAuth_first_quiet by blast
next
  case (continue s1 line)
  then show ?thesis using ready_step [OF assms(1)] by simp
next
  case (refused s1)
  then show ?thesis
    using AuthAuth_failed_step [OF assms(1) quiet_logon] ready_room(1) [OF assms(1,2)] by blast
next
  case (logon line a g name s1 hr ok s2)
  have "logon_step L s s2"
    using logon_ready [OF ready_quiet [OF assms(1) logon(3)] assms(2) logon(7)] quiet_logon_trans [OF logon(3)] by blast
  from EnterTransaction_step [OF assms(1) this] AuthAuth_failed_step [OF assms(1) this] logon(8,9)
  show ?thesis by blast
qed

lemma AuthQuit_step:
  assumes "ready L AUTH_STATE s" "AuthQuit s = Some (b, s')"
  shows "cmd_step api L b s s'"
proof (cases "quiet s s'")
  case True
  then show ?thesis using ready_step [OF assms(1)] by blast
next
  case False
  then show ?thesis
    using assms
    by (auto simp: AuthQuit_def Let_def ready_def cmd_step_def conn_inv_def conn_sound_def line_ok_def
        balanced_def others_in_def split: bind_splits if_splits)
qed

lemma ProcessAuthStateCommands_cases:
  assumes "ProcessAuthStateCommands api cmd s = Some (b, s')"
  obtains s1 where "AuthUser api s = Some (b, s1) \<or> AuthPass api s = Some (b, s1) \<or> AuthApop api s = Some (b, s1) \<or>
      AuthAuth api s = Some (b, s1) \<or> AuthQuit s = Some (b, s1) \<or> (\<exists>t. s1 = SendResponse t s)"
    "(if b then WaitForCommand api s1 else Some s1) = Some s'"
proof -
  have "\<exists>s1. (AuthUser api s = Some (b, s1) \<or> AuthPass api s = Some (b, s1) \<or> AuthApop api s = Some (b, s1) \<or>
      AuthAuth api s = Some (b, s1) \<or> AuthQuit s = Some (b, s1) \<or> (\<exists>t. s1 = SendResponse t s)) \<and>
    (if b then WaitForCommand api s1 else Some s1) = Some s'"
    using assms unfolding ProcessAuthStateCommands_def
    by (cases cmd) (auto simp: Let_def split: bind_splits if_splits)
  then show thesis using that by blast
qed

lemma ProcessAuthStateCommands_step:
  assumes "ready L AUTH_STATE s" "dirs_bounded api L" "ProcessAuthStateCommands api cmd s = Some (b, s')"
  shows "cmd_step api L b s s'"
proof -
  obtain s1 where s1: "AuthUser api s = Some (b, s1) \<or> AuthPass api s = Some (b, s1) \<or> AuthApop api s = Some (b, s1) \<or>
      AuthAuth api s = Some (b, s1) \<or> AuthQuit s = Some (b, s1) \<or> (\<exists>t. s1 = SendResponse t s)"
    "(if b then WaitForCommand api s1 else Some s1) = Some s'"
    using assms(3) by (rule ProcessAuthStateCommands_cases)
  have c: "cmd_step api L b s s1"
    using s1(1) AuthUser_quiet ready_step [OF assms(1)] AuthPass_step [OF assms(1,2)] AuthApop_step [OF assms(1,2)]
      AuthAuth_step [OF assms(1,2)] AuthQuit_step [OF assms(1)] quiet_prims(1) by blast
  then show ?thesis
    using s1(2) WaitForCommand_step [of api s1 s' L] balanced_trans [of api s s1 s']
    by (auto simp: cmd_step_def conn_inv_def split: if_splits)
qed

subsection \<open>Commands of the transaction state\<close>

lemma ready_box: "ready L st s \<Longrightarrow> mb_inv (box_of s)"
  by (simp add: ready_def conn_inv_def conn_sound_def)

lemma box_change_step:
  assumes "ready L TRANS_STATE s" "calm s s'" "mb_inv (box_of s')"
  shows "cmd_step api L b s s'"
  using assms calm_balanced [OF assms(2)]
  by (auto simp: cmd_step_def ready_def conn_inv_def conn_sound_def line_ok_def calm_def)

lemma list_loop_quiet: "list_loop item n i buf s = Some (buf', s') \<Longrightarrow> quiet s s'"
proof (induction n arbitrary: i buf s)
  case (Suc n)
  have sr: "quiet (SendResponse buf s) s' \<Longrightarrow> quiet s s'" using quiet_trans quiet_prims(1) by blast
  show ?case using Suc.prems by (auto split: bind_splits if_splits dest!: Suc.IH intro: sr)
qed simp

lemma TransStat_quiet: "TransStat s = Some s' \<Longrightarrow> quiet s s'"
  by (auto simp: TransStat_def split: bind_splits if_splits option.splits)

lemma TransList_quiet: "TransList item s = Some s' \<Longrightarrow> quiet s s'"
  by (auto simp: TransList_def list_end_def Let_def dest!: list_loop_quiet
      split: bind_splits if_splits option.splits)

lemma TransNoop_quiet: "TransNoop s = Some s' \<Longrightarrow> quiet s s'"
  by (auto simp: TransNoop_def split: bind_splits)

lemma DeleteMail_inv: "mb_inv box \<Longrightarrow> DeleteMail i box = Some (r, box') \<Longrightarrow> mb_inv box'"
  by (auto simp: DeleteMail_spec set_slot_inv split: if_splits)

lemma Reset_inv:
  assumes "mb_inv box" "Reset box = Some box'"
  shows "mb_inv box'"
  using Reset_loop_spec [OF assms(1), of 0] assms(2) by (auto simp: Reset_def)

lemma TransDele_step:
  assumes "ready L TRANS_STATE s" "TransDele s = Some s'"
  shows "cmd_step api L b s s'"
proof (rule box_change_step [OF assms(1)])
  show "mb_inv (box_of s')"
    using assms(2) ready_box [OF assms(1)] DeleteMail_inv [OF ready_box [OF assms(1)]]
    by (auto simp: TransDele_def Let_def split: bind_splits if_splits option.splits)
  show "calm s s'"
    using assms(2) by (auto simp: TransDele_def Let_def calm_def split: bind_splits if_splits option.splits)
qed

lemma TransRset_step:
  assumes "ready L TRANS_STATE s" "TransRset s = Some s'"
  shows "cmd_step api L b s s'"
proof (rule box_change_step [OF assms(1)])
  show "mb_inv (box_of s')"
    using assms(2) ready_box [OF assms(1)]
    by (auto simp: TransRset_def dest: Reset_inv split: bind_splits if_splits)
  show "calm s s'"
    using assms(2) by (auto simp: TransRset_def calm_def split: bind_splits if_splits)
qed

lemma calm_quiet: "calm s s1 \<Longrightarrow> quiet s1 s2 \<Longrightarrow> calm s s2 \<and> box_of s2 = box_of s1"
  by (auto simp: quiet_def intro: calm_trans)

lemma Transmit_step:
  assumes "Transmit api i n s = Some (p, s')" "mb_inv (box_of s)"
  shows "calm s s' \<and> mb_inv (box_of s') \<and> drop_of_box (box_of s') = drop_of_box (box_of s)"
proof -
  let ?s0 = "on_this (m_bFileTransmitPending_update (\<lambda>_. True)) s"
  obtain r s1 where b: "box_call_opt (TransmitMail api (m_hAsyncIO (io s)) i n) ?s0 = Some (r, s1)"
    using assms(1) by (auto simp: Transmit_def split: bind_splits)
  then obtain b1 w1 where b1: "TransmitMail api (m_hAsyncIO (io s)) i n (box_of ?s0, g_world (gl ?s0)) = Some (r, b1, w1)"
    "calm ?s0 s1" "box_of s1 = b1"
    by (rule box_call_opt_step)
  have "calm s s1" using b1(2) calm_trans quiet_calm [OF quiet_prims(9)] by blast
  moreover have "quiet s1 s'" using assms(1) b by (auto simp: Transmit_def split: if_splits)
  ultimately show ?thesis using TransmitMail_inv [OF _ b1(1)] b1(3) assms(2) calm_quiet [of s s1 s'] by simp
qed

lemma TransRetr_Transmit: "TransRetr api s = Some (p, s') \<Longrightarrow> quiet s s' \<and> \<not> p \<or> (\<exists>i n. Transmit api i n s = Some (p, s'))"
  by (auto simp: TransRetr_def split: bind_splits if_splits option.splits)

lemma TransTop_Transmit: "TransTop api s = Some (p, s') \<Longrightarrow> quiet s s' \<and> \<not> p \<or> (\<exists>i n. Transmit api i n s = Some (p, s'))"
  by (auto simp: TransTop_def Let_def split: bind_splits if_splits option.splits)

lemma Transmits_step:
  assumes "ready L TRANS_STATE s" "TransRetr api s = Some (p, s') \<or> TransTop api s = Some (p, s')"
  shows "cmd_step api L b s s'"
  using assms(2) TransRetr_Transmit TransTop_Transmit ready_step [OF assms(1)] box_change_step [OF assms(1)]
    Transmit_step [OF _ ready_box [OF assms(1)]] by metis

lemma TransQuit_step:
  assumes "ready L TRANS_STATE s" "TransQuit api s = Some s'"
  shows "cmd_step api L False s s'"
proof -
  obtain ok s1 where b: "box_call_opt (CommitAndClose api) s = Some (ok, s1)"
    "s' = (if ok then (let s = on_this (m_dwCurrentState_update (\<lambda>_. UPDATE_STATE)) (count_down e_gcTransStateCnt s1)
                 in SendResponse (signing_off s) s) else SendResponse RESP_SERVER_ERROR s1)"
    using assms(2) by (auto simp: TransQuit_def split: bind_splits)
  obtain b1 w1 where b1: "CommitAndClose api (box_of s, g_world (gl s)) = Some (ok, b1, w1)" "calm s s1" "box_of s1 = b1"
    using b(1) by (rule box_call_opt_step)
  have "mb_inv b1"
    using CommitAndClose_box [OF ready_box [OF assms(1)], of api "g_world (gl s)"] b1(1)
    by (auto simp: new_CMailBox_inv)
  then show ?thesis
    using b(2) b1(2,3) assms(1)
    by (auto simp: Let_def cmd_step_def ready_def conn_inv_def conn_sound_def line_ok_def calm_def
        balanced_def others_in_def)
qed

lemma cmd_step_wait:
  assumes "cmd_step api L True s s1" "WaitForCommand api s1 = Some s'"
  shows "cmd_step api L b s s'"
  using assms WaitForCommand_step [OF assms(2)] balanced_trans [of api s s1 s'] by (auto simp: cmd_step_def conn_inv_def)

lemma and_wait_step:
  assumes "and_wait api r = Some (b, s')" "\<And>s1. r = Some s1 \<Longrightarrow> cmd_step api L True s s1"
  shows "cmd_step api L b s s'"
  using assms by (auto simp: and_wait_def intro: cmd_step_wait split: bind_splits)

lemma unless_pending_step:
  assumes "unless_pending api r = Some (b, s')" "\<And>p s1. r = Some (p, s1) \<Longrightarrow> cmd_step api L True s s1"
  shows "cmd_step api L b s s'"
proof -
  obtain p s1 where r: "r = Some (p, s1)" using assms(1) by (auto simp: unless_pending_def split: bind_splits)
  then have c: "cmd_step api L True s s1" using assms(2) by blast
  show ?thesis
  proof (cases p)
    case True
    then show ?thesis using assms(1) r c by (auto simp: unless_pending_def)
  next
    case False
    then show ?thesis using assms(1) r c and_wait_step [of api "Some s1"] by (auto simp: unless_pending_def)
  qed
qed

lemma ProcessTransStateCommands_step:
  assumes "ready L TRANS_STATE s" "ProcessTransStateCommands api cmd s = Some (b, s')"
  shows "cmd_step api L b s s'"
proof -
  have w: "cmd_step api L b s s'"
    if "and_wait api r = Some (b, s')" "\<And>s1. r = Some s1 \<Longrightarrow> quiet s s1" for r
    using that ready_step [OF assms(1)] and_wait_step by metis
  have quiet_cmds: "and_wait api (TransStat s) = Some (b, s') \<Longrightarrow> ?thesis"
    "and_wait api (TransList list_item s) = Some (b, s') \<Longrightarrow> ?thesis"
    "and_wait api (TransList uidl_item s) = Some (b, s') \<Longrightarrow> ?thesis"
    "and_wait api (TransNoop s) = Some (b, s') \<Longrightarrow> ?thesis"
    "and_wait api (Some (SendResponse t s)) = Some (b, s') \<Longrightarrow> ?thesis" for t
    by (erule w; (erule TransStat_quiet TransList_quiet TransNoop_quiet | auto))+
  have box_cmds: "and_wait api (TransDele s) = Some (b, s') \<Longrightarrow> ?thesis"
    "and_wait api (TransRset s) = Some (b, s') \<Longrightarrow> ?thesis"
    "unless_pending api (TransRetr api s) = Some (b, s') \<Longrightarrow> ?thesis"
    "unless_pending api (TransTop api s) = Some (b, s') \<Longrightarrow> ?thesis"
    using and_wait_step TransDele_step [OF assms(1)] TransRset_step [OF assms(1)] unless_pending_step
      Transmits_step [OF assms(1)] by metis+
  have "TransQuit api s = Some s1 \<Longrightarrow> cmd_step api L False s s1" for s1 using TransQuit_step [OF assms(1)] .
  with quiet_cmds box_cmds show ?thesis
    using assms(2) unfolding ProcessTransStateCommands_def by (cases cmd) (auto split: bind_splits)
qed

subsection \<open>Requests\<close>

lemma AssembleCommand_step:
  assumes "AssembleCommand api n s = Some r" "conn_inv L s" "is_open s" "n < POP3_REQUEST_BUF_SIZE"
  shows "case r of Inl s' \<Rightarrow> balanced api s s' \<and> conn_inv L s'
                 | Inr s' \<Rightarrow> balanced api s s' \<and> ready L (state_of s) s'"
proof -
  let ?c = "this s"
  let ?old = "if m_bCommandComplete ?c then [] else take (m_dwCommandSize ?c) (m_szCommandBuffer ?c)"
  let ?sz = "if m_bCommandComplete ?c then n else m_dwCommandSize ?c + n"
  let ?buf = "?old @ take n (m_Buffer (io s)) @ [NUL]"
  have len: "n \<le> length (m_Buffer (io s))" using assms(1) by (auto simp: AssembleCommand_def Let_def split: if_splits)
  have old: "length ?old = (if m_bCommandComplete ?c then 0 else m_dwCommandSize ?c)"
    using assms(2) by (auto simp: conn_inv_def conn_sound_def line_ok_def)
  consider (big) s' where "r = Inl s'" "TerminateConnection api s = Some s'"
    | (more) s' where "?sz < POP3_REQUEST_BUF_SIZE" "r = Inl s'" "WaitForCommand api (on_this (\<lambda>c. c\<lparr>m_szCommandBuffer := ?buf,
        m_dwCommandSize := ?sz, m_bCommandComplete := False\<rparr>) s) = Some s'"
    | (line) k where "r = Inr (on_this (\<lambda>c. c\<lparr>m_szCommandBuffer := ?buf[k := NUL], m_dwCommandSize := ?sz - 2,
        m_bCommandComplete := True\<rparr>) s)"
    using assms(1,4) len
    by (auto simp: AssembleCommand_def Let_def split: if_splits bind_splits option.splits)
  then show ?thesis
  proof cases
    case big
    then show ?thesis
      using TerminateConnection_step [OF big(2)] closed_inv assms(2) by (auto simp: conn_inv_def)
  next
    case (more s')
    let ?s = "on_this (\<lambda>c. c\<lparr>m_szCommandBuffer := ?buf, m_dwCommandSize := ?sz, m_bCommandComplete := False\<rparr>) s"
    have "length ?buf = Suc ?sz" "?buf ! ?sz = NUL" using len old by (auto simp: nth_append)
    then have "conn_inv L ?s" using assms(2) more(1) by (simp add: conn_inv_def conn_sound_def line_ok_def)
    moreover have "balanced api s ?s" by (simp add: balanced_def others_in_def)
    ultimately show ?thesis using WaitForCommand_step [OF more(3)] balanced_trans [of api s ?s s'] more(2) by auto
  next
    case (line k)
    then show ?thesis
      using assms(2,3) by (auto simp: ready_def conn_inv_def conn_sound_def line_ok_def balanced_def others_in_def)
  qed
qed

lemma DispatchCommand_cases:
  assumes "DispatchCommand api s = Some s'"
  obtains (unknown) "WaitForCommand api (SendResponse RESP_UNKNOWN_COMMAND s) = Some s' \<or>
      TerminateConnection api (SendResponse RESP_UNKNOWN_COMMAND s) = Some s'"
    | (command) cmd b s1 where "(if state_of s = AUTH_STATE then ProcessAuthStateCommands api cmd s
        else ProcessTransStateCommands api cmd s) = Some (b, s1)"
        "(if b then Some s1 else TerminateConnection api s1) = Some s'"
proof -
  obtain cmd where "(if m_dwAuthStatus (this s) \<noteq> 1 then ParseCommand (cmd_buf s) (m_dwCommandSize (this s))
      else Some CMD_AUTH) = Some cmd"
    using assms(1) unfolding DispatchCommand_def bind_eq_Some_conv by blast
  then show thesis
    using assms(1) that by (auto simp: DispatchCommand_def Let_def split: if_splits bind_splits)
qed

lemma DispatchCommand_step:
  assumes "DispatchCommand api s = Some s'" "ready L st s" "st = AUTH_STATE \<or> st = TRANS_STATE" "dirs_bounded api L"
  shows "balanced api s s' \<and> conn_inv L s'"
proof -
  have fin: "TerminateConnection api s1 = Some s' \<Longrightarrow> cmd_step api L False s s1 \<Longrightarrow> ?thesis" for s1
    using TerminateConnection_step [of api s1 s'] closed_inv balanced_trans [of api s s1 s']
    by (auto simp: cmd_step_def)
  have sr: "cmd_step api L b s (SendResponse t s)" for b t using ready_step [OF assms(2)] by simp
  from assms(1) show ?thesis
  proof (cases rule: DispatchCommand_cases)
    case unknown
    then show ?thesis using cmd_step_wait [OF sr, where b = True] fin sr by (auto simp: cmd_step_def)
  next
    case (command cmd b s1)
    moreover have "state_of s = st" using assms(2) by (simp add: ready_def)
    ultimately have "cmd_step api L b s s1"
      using assms(2,3) ProcessAuthStateCommands_step [OF _ assms(4)] ProcessTransStateCommands_step [of L s]
      by (auto split: if_splits)
    then show ?thesis using command(2) fin by (cases b) (auto simp: cmd_step_def)
  qed
qed

lemma SendGreeting_step:
  assumes "SendGreeting api s = Some s'" "conn_inv L s" "is_open s" "state_of s = INIT_STATE"
  shows "balanced api s s' \<and> conn_inv L s' \<and> is_open s' \<and> state_of s' = AUTH_STATE"
proof -
  obtain ticks s1 where c: "call (GetTickCount api) s = (ticks, s1)" by fastforce
  have s1: "this s1 = this s" "io s1 = io s" "g_PerfCounters (gl s1) = g_PerfCounters (gl s)"
    "frame (gl s1) = frame (gl s)"
    using callD [OF c] by simp_all
  obtain stamp line where "s' = SendResponse line (count_up e_gcAuthStateCnt
      (on_this (\<lambda>c. c\<lparr>m_wszGreeting := stamp, m_dwCurrentState := AUTH_STATE\<rparr>) s1))"
    using assms(1) c by (auto simp: SendGreeting_def Let_def split: bind_splits)
  then have "this s' = (this s)\<lparr>m_wszGreeting := stamp, m_dwCurrentState := AUTH_STATE\<rparr>" "io s' = io s"
    "g_PerfCounters (gl s') = IncPerfCntr e_gcAuthStateCnt (g_PerfCounters (gl s))" "frame (gl s') = frame (gl s)"
    using s1 by simp_all
  then show ?thesis
    using assms(2-4) by (simp add: conn_inv_def conn_sound_def line_ok_def balanced_def others_in_def)
qed

lemma counts_received:
  assumes "conn_inv L s"
  shows "balanced api s (count_add e_gcBytesReceiveRate n (count_add e_gcBytesReceived n s))"
    "conn_inv L (count_add e_gcBytesReceiveRate n (count_add e_gcBytesReceived n s))"
    "balanced api s (count_add e_gcBytesTransmitRate n (count_add e_gcBytesTransmitted n
       (on_this (m_bFileTransmitPending_update (\<lambda>_. False)) s)))"
    "conn_inv L (count_add e_gcBytesTransmitRate n (count_add e_gcBytesTransmitted n
       (on_this (m_bFileTransmitPending_update (\<lambda>_. False)) s)))"
  using assms by (simp_all add: balanced_def others_in_def perf_other conn_inv_def conn_sound_def line_ok_def)

lemma Terminate_inv:
  assumes "TerminateConnection api s = Some s'" "conn_inv L s"
  shows "balanced api s s' \<and> conn_inv L s'"
  using TerminateConnection_step [OF assms(1)] assms(2) by (auto simp: conn_inv_def)

lemma ReceiveCommand_cases:
  assumes "ReceiveCommand api n s = Some s'"
  obtains (ended) s1 where "this s1 = this s" "io s1 = io s" "quiet s s1" "TerminateConnection api s1 = Some s'"
    | (line) s1 r where "unat n < POP3_REQUEST_BUF_SIZE" "this s1 = this s" "io s1 = io s" "quiet s s1"
        "AssembleCommand api (unat n) s1 = Some r"
        "case r of Inl s2 \<Rightarrow> s' = s2 | Inr s2 \<Rightarrow> DispatchCommand api s2 = Some s'"
proof (cases "unat n \<ge> POP3_REQUEST_BUF_SIZE \<or> n = 0")
  case True
  then show thesis using assms(1) by (intro ended [of s]) (simp_all add: ReceiveCommand_def)
next
  case False
  obtain slow s1 where s1: "(if max_used s then (case call (GetTickCount api) s of (dwTime, s) \<Rightarrow>
      (state_of s = AUTH_STATE \<and> dwTime > m_dwConnectionTime (io s) + SHORTENED_TIMEOUT, s)) else (False, s)) = (slow, s1)"
    by fastforce
  have same: "this s1 = this s" "io s1 = io s" "quiet s s1"
    using s1 by (auto dest!: callD split: if_splits prod.splits)
  let ?s2 = "count_add e_gcBytesReceiveRate n (count_add e_gcBytesReceived n s1)"
  show thesis
  proof (cases slow)
    case True
    then have "TerminateConnection api s1 = Some s'" using assms(1) False s1 by (simp add: ReceiveCommand_def)
    then show thesis using ended same by blast
  next
    case fast: False
    obtain r where r: "AssembleCommand api (unat n) ?s2 = Some r"
      "case r of Inl s \<Rightarrow> s' = s | Inr s \<Rightarrow> DispatchCommand api s = Some s'"
      using assms(1) False s1 fast by (auto simp: ReceiveCommand_def split: bind_splits sum.splits)
    show thesis by (rule line [OF _ _ _ _ r]) (use same False in simp_all)
  qed
qed

lemma quiet_keeps:
  assumes "quiet s s1" "this s1 = this s" "conn_inv L s"
  shows "balanced api s s1" "conn_inv L s1"
  using quiet_inv [OF assms(1) _ assms(3)] assms(2) calm_balanced [OF quiet_calm [OF assms(1)]] by simp_all

lemma ReceiveCommand_step:
  assumes "ReceiveCommand api n s = Some s'" "conn_inv L s" "is_open s" "state_of s \<noteq> INIT_STATE" "dirs_bounded api L"
  shows "balanced api s s' \<and> conn_inv L s'"
  using assms(1)
proof (cases rule: ReceiveCommand_cases)
  case (ended s1)
  then show ?thesis using quiet_keeps [OF ended(3,1) assms(2)] Terminate_inv balanced_trans by blast
next
  case (line s1 r)
  note q = quiet_keeps [OF line(4,2) assms(2)]
  have op: "is_open s1" using line(3) assms(3) by simp
  have st: "state_of s1 = AUTH_STATE \<or> state_of s1 = TRANS_STATE"
    using assms(2-4) line(2) by (cases "state_of s") (auto simp: conn_inv_def)
  note a = AssembleCommand_step [OF line(5) q(2) op line(1)]
  show ?thesis
  proof (cases r)
    case (Inl s3)
    then show ?thesis using a line(6) q(1) balanced_trans [of api s s1 s3] by auto
  next
    case (Inr s3)
    then have "balanced api s1 s3" "ready L (state_of s1) s3" using a by auto
    moreover have "DispatchCommand api s3 = Some s'" using line(6) Inr by simp
    ultimately show ?thesis using DispatchCommand_step [OF _ _ st assms(5)] q(1) balanced_trans by blast
  qed
qed

abbreviation "transmit_done n s \<equiv> count_add e_gcBytesTransmitRate n (count_add e_gcBytesTransmitted n
      (on_this (m_bFileTransmitPending_update (\<lambda>_. False)) s))"

lemma ProcessRequest_cases:
  assumes "ProcessRequest api n s = Some s'"
  obtains (closed) "\<not> is_open s" "s' = on_io (m_ConType_update (\<lambda>_. DELETE_PENDING)) s"
    | (transmitted) "WaitForCommand api (transmit_done n s) = Some s'"
    | (stopped) "TerminateConnection api (SendResponse RESP_SERVER_NOT_AVAILABLE s) = Some s'"
    | (greeted) s1 where "is_open s" "state_of s = INIT_STATE" "SendGreeting api s = Some s1"
        "(if n = 0 then WaitForCommand api s1 else ReceiveCommand api n s1) = Some s'"
    | (request) "is_open s" "state_of s \<noteq> INIT_STATE" "ReceiveCommand api n s = Some s'"
proof -
  have "\<not> is_open s \<and> Some s' = Some (on_io (m_ConType_update (\<lambda>_. DELETE_PENDING)) s) \<or>
    WaitForCommand api (transmit_done n s) = Some s' \<or>
    TerminateConnection api (SendResponse RESP_SERVER_NOT_AVAILABLE s) = Some s' \<or>
    is_open s \<and> state_of s = INIT_STATE \<and> (do { s1 \<leftarrow> SendGreeting api s;
        if n = 0 then WaitForCommand api s1 else ReceiveCommand api n s1 }) = Some s' \<or>
    is_open s \<and> state_of s \<noteq> INIT_STATE \<and> ReceiveCommand api n s = Some s'"
    using assms(1) unfolding ProcessRequest_def by presburger
  then show thesis using that unfolding bind_eq_Some_conv option.inject by blast
qed

lemma ProcessRequest_step:
  assumes "ProcessRequest api n s = Some s'" "conn_inv L s" "dirs_bounded api L"
  shows "balanced api s s' \<and> conn_inv L s'"
proof -
  from assms(1) show ?thesis
  proof (cases rule: ProcessRequest_cases)
    case closed
    then show ?thesis
      using assms(2) by (simp add: balanced_def others_in_def conn_inv_def conn_sound_def)
  next
    case transmitted
    then show ?thesis using WaitForCommand_step counts_received(3,4) [OF assms(2)] balanced_trans by blast
  next
    case stopped
    have q: "quiet s (SendResponse RESP_SERVER_NOT_AVAILABLE s)" by simp
    have "balanced api s (SendResponse RESP_SERVER_NOT_AVAILABLE s)"
      "conn_inv L (SendResponse RESP_SERVER_NOT_AVAILABLE s)"
      using calm_balanced [OF quiet_calm [OF q]] quiet_inv [OF q _ assms(2)] by simp_all
    then show ?thesis using Terminate_inv [OF stopped] balanced_trans by blast
  next
    case (greeted s1)
    note g = SendGreeting_step [OF greeted(3) assms(2) greeted(1,2)]
    then show ?thesis
      using greeted(4) WaitForCommand_step [of api s1 s' L] ReceiveCommand_step [of api n s1 s' L] assms(3)
        balanced_trans [of api s s1 s'] by (auto split: if_splits)
  next
    case request
    then show ?thesis using ReceiveCommand_step assms by blast
  qed
qed

text \<open>
  A connection over its life: bytes arrive in its buffer and are processed, it times out, and the other
  threads of the service change the globals in any way between two steps.
\<close>

inductive conn_step :: "'w win32 \<Rightarrow> 'w conn \<Rightarrow> 'w conn \<Rightarrow> bool" for api where
  receive: "ProcessRequest api n (on_io (m_Buffer_update (\<lambda>_. bytes)) s) = Some s' \<Longrightarrow> conn_step api s s'"
| timeout: "TimeOut api s = Some s' \<Longrightarrow> conn_step api s s'"
| others: "conn_step api s (s\<lparr>gl := g\<rparr>)"

lemma conn_step_inv:
  assumes "conn_step api s s'" "conn_inv L s" "dirs_bounded api L"
  shows "conn_inv L s'"
  using assms(1)
proof cases
  case (receive n bytes)
  have "conn_inv L (on_io (m_Buffer_update (\<lambda>_. bytes)) s)"
    using assms(2) by (simp add: conn_inv_def conn_sound_def)
  then show ?thesis using ProcessRequest_step [OF receive] assms(3) by blast
next
  case timeout
  then show ?thesis using Terminate_inv assms(2) unfolding TimeOut_def by blast
next
  case (others g)
  then show ?thesis using assms(2) by (simp add: conn_inv_def conn_sound_def)
qed

text \<open>A fresh connection, and an operating system whose directories have at most 1000 entries.\<close>

definition demo_conn :: "sim conn" where
  "demo_conn = \<lparr>this = raw_POP3_CONTEXT, io = raw_IO_CONTEXT\<lparr>m_hAsyncIO := 7, m_ConType := CONNECTION_SOCKET\<rparr>,
     gl = demo_glob\<rparr>"

definition small_api :: "sim win32" where
  "small_api = sim_api\<lparr>FindFirstFile := (\<lambda>w p. (case sim_find w p of (fs, w) \<Rightarrow> (take 1000 fs, w)))\<rparr>"

lemma small_api_bounded: "dirs_bounded small_api 1000"
  by (simp add: dirs_bounded_def small_api_def split: prod.split)

lemma demo_conn_inv: "conn_inv 1000 demo_conn"
  by (simp add: conn_inv_def conn_sound_def demo_conn_def raw_POP3_CONTEXT_def raw_IO_CONTEXT_def line_ok_def
      new_CMailBox_inv) (simp add: new_CMailBox_def)

text \<open>
  C1.  Whatever a client sends and however the threads interleave, a connection keeps its invariant:
  while its socket is open it has failed to log on fewer than three times and has not yet said goodbye,
  a partial command lies terminated inside the 1042-byte command buffer, the mail vector holds every
  counted mail without a \<^verbatim>\<open>NULL\<close>, and a connection marked for deletion has no socket.
\<close>

theorem connection_invariant:
  assumes "(conn_step api)\<^sup>*\<^sup>* s s'" "conn_inv L s" "dirs_bounded api L"
  shows "conn_inv L s'"
  using assms(1) by (induction rule: rtranclp_induct) (use assms(2,3) conn_step_inv in blast)+

theorem connection_invariant_witness:
  "conn_inv 1000 (demo_conn\<lparr>gl := demo_glob\<lparr>g_dwServerStatus := SERVICE_STOPPED\<rparr>\<rparr>)"
  by (rule connection_invariant [where api = small_api and s = demo_conn])
     (auto intro: conn_step.others demo_conn_inv small_api_bounded)



section \<open>Only a logon leads to the transaction state\<close>

lemma Enumerate_entry_place:
  assumes "Enumerate_entry api f (box, w) = Some r" "r = Inl (b, w') \<or> r = Inr (b, w')"
  shows "m_hMailBoxLock b = m_hMailBoxLock box \<and> m_bMailBoxOpened b = m_bMailBoxOpened box \<and>
    m_wszMailBoxPath b = m_wszMailBoxPath box"
  using assms
  by (auto simp: Enumerate_entry_def PushMailToVector_def Let_def split: if_splits prod.splits option.splits bind_splits)

lemma Enumerate_loop_place:
  assumes "Enumerate_loop api m fs (box, w) = Some r" "r = Inl (b, w') \<or> r = Inr (b, w')"
  shows "m_hMailBoxLock b = m_hMailBoxLock box \<and> m_bMailBoxOpened b = m_bMailBoxOpened box \<and>
    m_wszMailBoxPath b = m_wszMailBoxPath box"
  using assms
proof (induction fs arbitrary: box w)
  case (Cons f fs)
  obtain q where q: "Enumerate_entry api f (box, w) = Some q"
    using Cons.prems(1) by (auto split: bind_splits)
  obtain b1 w1 where b1: "q = Inl (b1, w1) \<or> q = Inr (b1, w1)" by (metis sum.exhaust surj_pair)
  have "b = b1 \<or> Enumerate_loop api m fs (b1, w1) = Some r"
    using Cons.prems q b1 by (auto split: if_splits)
  then show ?case using Enumerate_entry_place [OF q b1] Cons.IH [of b1 w1] Cons.prems(2) by auto
qed auto

lemma EnumerateMailBox_place:
  assumes "EnumerateMailBox api m (box, w) = Some (ok, b, w')"
  shows "m_hMailBoxLock b = m_hMailBoxLock box \<and> m_bMailBoxOpened b = m_bMailBoxOpened box \<and>
    m_wszMailBoxPath b = m_wszMailBoxPath box"
  using assms
  by (auto simp: EnumerateMailBox_def Let_def dest: Enumerate_loop_place
      split: if_splits prod.splits sum.splits bind_splits)

lemma OpenMailBox_opened: "OpenMailBox api a (box, st, w) = Some (True, box', st', w') \<Longrightarrow> m_bMailBoxOpened box'"
  by (auto simp: OpenMailBox_def split: bind_splits if_splits prod.splits)

text \<open>What a logon did: the mailbox of the named user was opened, locked and listed.\<close>

lemma LogonMailbox_user:
  assumes "LogonMailbox api b s = Some (True, s')"
  shows "b \<and> m_wszUserName (this s') = m_wszUserName (this s) \<and>
    m_bMailBoxOpened (box_of s') \<and> m_hMailBoxLock (box_of s') \<noteq> INVALID_HANDLE_VALUE"
  using assms
proof (cases rule: LogonMailbox_cases)
  case (entered s1 s2)
  have 1: "m_bMailBoxOpened (box_of s1)" "m_wszUserName (this s1) = m_wszUserName (this s)"
    using entered(3) by (auto simp: open_call_def dest: OpenMailBox_opened split: bind_splits)
  have 2: "m_bMailBoxOpened (box_of s2)" "m_hMailBoxLock (box_of s2) \<noteq> INVALID_HANDLE_VALUE"
    "m_wszUserName (this s2) = m_wszUserName (this s1)"
    using entered(4) 1 by (auto simp: box_call_def LockMailBox_def split: prod.splits option.splits)
  have 3: "m_wszUserName (this s') = m_wszUserName (this s2)"
    using entered(5) by (auto simp: box_call_opt_def split: bind_splits)
  from entered(5) obtain b3 w3 where
    "EnumerateMailBox api (g_dwMaxMsgPerDnld (g_cfg (gl s2))) (box_of s2, g_world (gl s2)) = Some (True, b3, w3)"
    "box_of s' = b3"
    by (rule box_call_opt_step)
  then show ?thesis using EnumerateMailBox_place [of api _ "box_of s2"] 1 2 3 entered(2) by auto
qed simp_all

text \<open>
  A user is verified when the configured method accepted a password for the name, or when the security
  package completed a handshake and the name is the one it then gave.
\<close>

definition verified :: "'w win32 \<Rightarrow> wstring \<Rightarrow> bool" where
  "verified api user \<longleftrightarrow> (\<exists>w pswd. fst (Authenticate api w user pswd) = S_OK) \<or>
     (\<exists>buf a g line a' g' old. HandShake api buf (a, g) = Some (S_OK, line, a', g') \<and>
        fst (GetUserName api old (a', g')) = S_OK \<and> fst (snd (GetUserName api old (a', g'))) = user)"

definition logged_on :: "'w win32 \<Rightarrow> 'w conn \<Rightarrow> bool" where
  "logged_on api s \<longleftrightarrow> verified api (m_wszUserName (this s)) \<and>
     (\<exists>s1 s2. m_wszUserName (this s1) = m_wszUserName (this s) \<and> LogonMailbox api True s1 = Some (True, s2) \<and>
        (is_open s \<longrightarrow> box_of s = box_of s2 \<and> m_bMailBoxOpened (box_of s) \<and>
           m_hMailBoxLock (box_of s) \<noteq> INVALID_HANDLE_VALUE))"

text \<open>Steps that keep the state and the user, and the mailbox while the socket is open.\<close>

definition stays :: "'w conn \<Rightarrow> 'w conn \<Rightarrow> bool" where
  "stays s s' \<longleftrightarrow> state_of s' = state_of s \<and> m_wszUserName (this s') = m_wszUserName (this s) \<and>
     (is_open s' \<longrightarrow> is_open s \<and> box_of s' = box_of s)"

lemma stays_refl [simp]: "stays s s"
  by (simp add: stays_def)

lemma stays_trans: "stays a b \<Longrightarrow> stays b c \<Longrightarrow> stays a c"
  by (auto simp: stays_def)

lemma stays_logged_on: "logged_on api s \<Longrightarrow> stays s s' \<Longrightarrow> logged_on api s'"
  unfolding logged_on_def stays_def by metis

lemma TerminateConnection_stays:
  assumes "TerminateConnection api s = Some s'"
  shows "stays s s'"
proof (cases "m_ConType (io s) = DELETE_PENDING")
  case True
  then show ?thesis using assms by (simp add: TerminateConnection_def)
next
  case False
  then show ?thesis
    using assms by (auto simp: TerminateConnection_def box_call_opt_def Let_def stays_def
        split: bind_splits if_splits pop3_state.splits)
qed

lemma WaitForCommand_stays:
  assumes "WaitForCommand api s = Some s'"
  shows "stays s s'"
proof -
  obtain ok s1 where c: "call (\<lambda>w. WSARecv api w (m_hAsyncIO (io s))) s = (ok, s1)" by fastforce
  have "stays s s1" using callD [OF c] by (simp add: stays_def)
  moreover have "TerminateConnection api s = Some s' \<or> TerminateConnection api s1 = Some s' \<or>
      Some s' = Some (on_gl (emit (Recv (m_hAsyncIO (io s1)))) s1)"
    using assms unfolding WaitForCommand_def c prod.case by presburger
  moreover have "stays s1 (on_gl (emit (Recv (m_hAsyncIO (io s1)))) s1)" by (simp add: stays_def)
  ultimately show ?thesis using TerminateConnection_stays stays_trans by (metis option.inject)
qed

lemma LogonMailbox_calm:
  assumes "LogonMailbox api b s = Some (ok, s')"
  shows "calm s s'"
  using assms
proof (cases rule: LogonMailbox_cases)
  case (refused s1)
  then show ?thesis using open_call_step [of api s False s1] calm_quiet [of s s1 s'] by (cases b) auto
next
  case (unlocked s1)
  then show ?thesis using open_call_step [OF unlocked(3)] Lock_call_step [OF unlocked(4)] calm_trans by blast
next
  case (unlisted s1 s2 s3)
  have "calm s s2" using open_call_step [OF unlisted(3)] Lock_call_step [OF unlisted(4)] calm_trans by blast
  moreover have "calm s2 s3" using unlisted(5) by (rule box_call_opt_step)
  moreover have "calm s3 s'" using unlisted(6) by (rule box_call_step)
  ultimately show ?thesis using calm_trans by blast
next
  case (entered s1 s2)
  have "calm s s2" using open_call_step [OF entered(3)] Lock_call_step [OF entered(4)] calm_trans by blast
  moreover have "calm s2 s'" using entered(5) by (rule box_call_opt_step)
  ultimately show ?thesis using calm_trans by blast
qed

lemma calm_state: "calm s s' \<Longrightarrow> state_of s' = state_of s"
  by (simp add: calm_def)

lemma CheckPassword_verified:
  "CheckPassword api p s = (True, s') \<Longrightarrow>
     verified api (m_wszUserName (this s)) \<and> m_wszUserName (this s') = m_wszUserName (this s)"
  unfolding CheckPassword_def verified_def by (auto dest!: callD split: prod.splits if_splits) metis

lemma AuthPass_check_verified:
  "AuthPass_check api p s = (True, s') \<Longrightarrow> verified api (m_wszUserName (this s'))"
  by (auto simp: AuthPass_check_def Let_def dest!: CheckPassword_verified split: prod.splits if_splits)

lemma AuthApop_check_verified:
  "AuthApop_check api u p s = Some (True, s') \<Longrightarrow> verified api (m_wszUserName (this s'))"
  by (auto simp: AuthApop_check_def Let_def dest!: CheckPassword_verified split: prod.splits if_splits)

lemma EnterTransaction_logged_on:
  assumes "LogonMailbox api b s = Some (True, s')" "b \<longrightarrow> verified api (m_wszUserName (this s))"
  shows "logged_on api (EnterTransaction s')"
proof -
  note u = LogonMailbox_user [OF assms(1)]
  have "LogonMailbox api True s = Some (True, s')" using assms(1) u by simp
  moreover have "this (EnterTransaction s') = (this s')\<lparr>m_dwCurrentState := TRANS_STATE\<rparr>"
    by (simp add: EnterTransaction_def)
  ultimately show ?thesis unfolding logged_on_def using u assms(2) by auto
qed

lemma LogonFailed_state [simp]: "state_of (snd (LogonFailed s)) = state_of s"
  by (simp add: LogonFailed_def Let_def)

lemma AuthAuth_failed_state: "AuthAuth_failed api t s = (b, s') \<Longrightarrow> state_of s' = state_of s"
  by (auto simp: AuthAuth_failed_def Let_def split: prod.splits)

lemma AuthPass_logged_on:
  assumes "AuthPass api s = Some (b, s')" "state_of s \<noteq> TRANS_STATE" "state_of s' = TRANS_STATE"
  shows "logged_on api s'"
proof -
  obtain r where r: "AuthPass_password (ZeroReceiveBuffer s) = Some r"
    using assms(1) by (auto simp: AuthPass_def split: bind_splits)
  have z: "state_of (ZeroReceiveBuffer s) = state_of s" by (simp add: ZeroReceiveBuffer_def)
  show ?thesis
  proof (cases r)
    case (Inl fin)
    then have "quiet (ZeroReceiveBuffer s) s'"
      using assms(1) r AuthPass_password_quiet(1) by (fastforce simp: AuthPass_def)
    then show ?thesis using calm_state [OF quiet_calm] z assms(2,3) by metis
  next
    case (Inr q)
    obtain pswd s1 b2 s2 where q: "q = (pswd, s1)" "AuthPass_check api pswd s1 = (b2, s2)" by fastforce
    have "state_of s2 = state_of s"
      using AuthPass_password_quiet(2) AuthPass_check_quiet r Inr q z calm_state quiet_calm by metis
    moreover obtain ok s3 where l: "LogonMailbox api b2 s2 = Some (ok, s3)"
      "(b, s') = (if ok then (True, EnterTransaction s3)
         else (case LogonFailed s3 of (b, s) \<Rightarrow> (b, on_this (m_wszUserName_update (\<lambda>_. [])) s)))"
      using assms(1) r Inr q by (auto simp: AuthPass_def split: bind_splits if_splits prod.splits)
    ultimately have "ok"
      using assms(2,3) calm_state [OF LogonMailbox_calm [OF l(1)]] LogonFailed_state [of s3]
      by (auto simp del: LogonFailed_state split: if_splits prod.splits)
    then show ?thesis
      using l EnterTransaction_logged_on [of api b2 s2 s3] AuthPass_check_verified [of api pswd s1 s2] q(2)
      by (cases b2) auto
  qed
qed

lemma AuthApop_logged_on:
  assumes "AuthApop api s = Some (b, s')" "state_of s \<noteq> TRANS_STATE" "state_of s' = TRANS_STATE"
  shows "logged_on api s'"
proof -
  have "\<not> quiet s s'" using calm_state quiet_calm assms(2,3) by metis
  then obtain u p b2 s2 where c: "AuthApop_check api u p (ZeroCommandBuffer (ZeroReceiveBuffer s)) = Some (b2, s2)"
    "(do { (bRetVal, s) \<leftarrow> LogonMailbox api b2 s2;
        if bRetVal then Some (True, EnterTransaction s) else Some (LogonFailed s) }) = Some (b, s')"
    using assms(1) by (auto simp: AuthApop_def Let_def split: option.splits if_splits bind_splits)
  have "state_of s2 = state_of s"
    using calm_state [OF quiet_calm [OF AuthApop_check_quiet [OF c(1)]]]
    by (simp add: ZeroCommandBuffer_def ZeroReceiveBuffer_def)
  moreover obtain ok s3 where l: "LogonMailbox api b2 s2 = Some (ok, s3)"
      "(b, s') = (if ok then (True, EnterTransaction s3) else LogonFailed s3)"
    using c(2) by (auto split: bind_splits if_splits)
  ultimately have "ok"
    using assms(2,3) calm_state [OF LogonMailbox_calm [OF l(1)]] LogonFailed_state [of s3]
    by (metis snd_conv)
  then show ?thesis
    using l EnterTransaction_logged_on [of api b2 s2 s3]
      AuthApop_check_verified [of api u p "ZeroCommandBuffer (ZeroReceiveBuffer s)" s2] c(1)
    by (cases b2) auto
qed

lemma AuthAuth_logged_on:
  assumes "AuthAuth api s = Some (b, s')" "state_of s \<noteq> TRANS_STATE" "state_of s' = TRANS_STATE"
  shows "logged_on api s'"
  using assms(1)
proof (cases rule: AuthAuth_cases)
  case first
  then show ?thesis using calm_state [OF quiet_calm [OF AuthAuth_first_quiet]] assms(2,3) by metis
next
  case (continue s1 line)
  then show ?thesis using calm_state [OF quiet_calm [OF continue(3)]] assms(2,3) by simp
next
  case (refused s1)
  then show ?thesis using calm_state [OF quiet_calm [OF refused(2)]] AuthAuth_failed_state assms(2,3) by metis
next
  case (logon line a g name s1 hr ok s2)
  have st: "state_of s2 = state_of s"
    using calm_state [OF LogonMailbox_calm [OF logon(7)]] calm_state [OF quiet_calm [OF logon(3)]] by simp
  then have "ok" using logon(9) AuthAuth_failed_state assms(2,3) by metis
  moreover have "hr = S_OK \<longrightarrow> verified api (m_wszUserName (this s1))"
    using logon(2,4,5,6) unfolding verified_def by blast
  ultimately show ?thesis using logon(7,8) EnterTransaction_logged_on [of api "hr = S_OK" s1 s2] by simp
qed

lemma AuthQuit_state: "AuthQuit s = Some (b, s') \<Longrightarrow> state_of s' = state_of s \<or> state_of s' = UPDATE_STATE"
  by (auto simp: AuthQuit_def Let_def split: bind_splits if_splits)

lemma ProcessAuthStateCommands_logged_on:
  assumes "ProcessAuthStateCommands api cmd s = Some (b, s')" "state_of s = AUTH_STATE" "state_of s' = TRANS_STATE"
  shows "logged_on api s'"
proof -
  obtain s1 where s1: "AuthUser api s = Some (b, s1) \<or> AuthPass api s = Some (b, s1) \<or> AuthApop api s = Some (b, s1) \<or>
      AuthAuth api s = Some (b, s1) \<or> AuthQuit s = Some (b, s1) \<or> (\<exists>t. s1 = SendResponse t s)"
    "(if b then WaitForCommand api s1 else Some s1) = Some s'"
    using assms(1) by (rule ProcessAuthStateCommands_cases)
  have st: "stays s1 s'" using s1(2) WaitForCommand_stays by (auto split: if_splits)
  then have t1: "state_of s1 = TRANS_STATE" "state_of s \<noteq> TRANS_STATE" using assms(2,3) by (auto simp: stays_def)
  have "\<not> AuthUser api s = Some (b, s1)" using AuthUser_quiet [THEN quiet_calm, THEN calm_state] t1 by metis
  moreover have "\<not> AuthQuit s = Some (b, s1)" using AuthQuit_state [of s b s1] t1 by auto
  moreover have "s1 \<noteq> SendResponse t s" for t using t1 by auto
  ultimately have "logged_on api s1"
    using s1(1) AuthPass_logged_on AuthApop_logged_on AuthAuth_logged_on t1 by blast
  then show ?thesis using st stays_logged_on by blast
qed

lemma DispatchCommand_logged_on:
  assumes "DispatchCommand api s = Some s'" "state_of s = AUTH_STATE" "state_of s' = TRANS_STATE"
  shows "logged_on api s'"
  using assms(1)
proof (cases rule: DispatchCommand_cases)
  case unknown
  then show ?thesis
    using WaitForCommand_stays [of api _ s'] TerminateConnection_stays [of api _ s'] assms(2,3)
    by (fastforce simp: stays_def)
next
  case (command cmd b s1)
  have st: "stays s1 s'" using command(2) TerminateConnection_stays by (auto split: if_splits)
  then have "state_of s1 = TRANS_STATE" using assms(3) by (simp add: stays_def)
  then show ?thesis
    using command(1) assms(2) ProcessAuthStateCommands_logged_on [of api cmd s b s1] stays_logged_on [OF _ st] by simp
qed

lemma AssembleCommand_state:
  assumes "AssembleCommand api n s = Some r" "r = Inl s' \<or> r = Inr s'"
  shows "state_of s' = state_of s"
  using assms
  by (auto simp: AssembleCommand_def Let_def stays_def dest!: WaitForCommand_stays TerminateConnection_stays
      split: if_splits option.splits bind_splits)

lemma ReceiveCommand_logged_on:
  assumes "ReceiveCommand api n s = Some s'" "state_of s = AUTH_STATE" "state_of s' = TRANS_STATE"
  shows "logged_on api s'"
  using assms(1)
proof (cases rule: ReceiveCommand_cases)
  case (ended s1)
  then show ?thesis using TerminateConnection_stays [OF ended(4)] assms(2,3) by (simp add: stays_def)
next
  case (line s1 r)
  then have "state_of s2 = AUTH_STATE" if "r = Inl s2 \<or> r = Inr s2" for s2
    using AssembleCommand_state [OF line(5) that] assms(2) by simp
  then show ?thesis using line(6) DispatchCommand_logged_on [of api _ s'] assms(3) by (cases r) auto
qed


text \<open>A connection to a service with one mailbox that holds one mail, and requests to it.\<close>

definition mail_conn :: "sim conn" where
  "mail_conn = (let dir = mailbox_path (wide ''R'') (wide ''d'') (wide ''u'') in
     demo_conn\<lparr>gl := demo_glob\<lparr>g_world := sim_start\<lparr>sim_files :=
       [(path_join dir LOCK_FILENAME_W, []), (path_join dir (wide ''P3_a.eml''), ''hello'')]\<rparr>\<rparr>\<rparr>)"

definition send :: "string \<Rightarrow> sim conn \<Rightarrow> sim conn option" where
  "send bytes s = ProcessRequest small_api (of_nat (length bytes)) (on_io (m_Buffer_update (\<lambda>_. bytes)) s)"

lemma send_inv: "send bytes s = Some s' \<Longrightarrow> conn_inv 1000 s \<Longrightarrow> conn_inv 1000 s'"
  using conn_step_inv [OF conn_step.receive [of small_api "of_nat (length bytes)" bytes s s'] _ small_api_bounded]
  by (simp add: send_def)

lemma mail_conn_inv: "conn_inv 1000 mail_conn"
  using demo_conn_inv by (simp add: mail_conn_def Let_def conn_inv_def conn_sound_def)

lemma send_logon:
  "(case do { s \<leftarrow> send [] mail_conn; send (crlf ''USER u@d'') s } of
      None \<Rightarrow> False
    | Some s \<Rightarrow> state_of s = AUTH_STATE \<and>
        (case send (crlf ''PASS pw'') s of None \<Rightarrow> False | Some s' \<Rightarrow> state_of s' = TRANS_STATE))"
  by code_simp


end
