(* ===== verification/Pop3_Answers.thy ===== *)
theory Pop3_Answers
  imports Pop3_Session
begin

text \<open>
  The answers of the transaction state: the multi-line text of \<^verbatim>\<open>LIST\<close> and \<^verbatim>\<open>UIDL\<close>, \<^verbatim>\<open>STAT\<close>, and that no
  argument makes a command read or write outside its buffers.
\<close>

section \<open>Lines for the mails\<close>

fun live_lines :: "(nat \<Rightarrow> MAIL_ITEM \<Rightarrow> string) \<Rightarrow> nat \<Rightarrow> MAIL_ITEM list \<Rightarrow> string list" where
  "live_lines line k [] = []"
| "live_lines line k (m # ms) = (if live m then [line k m] else []) @ live_lines line (Suc k) ms"

lemma err_distinct: "ERR_MSG_ALREADY_DELETED \<noteq> ERROR_SUCCESS" "ERR_NO_SUCH_MSG \<noteq> ERROR_SUCCESS"
  by (simp_all add: ERR_MSG_ALREADY_DELETED_def ERR_NO_SUCH_MSG_def ERROR_SUCCESS_def word_unat_eq_iff)

text \<open>
  What \<^verbatim>\<open>LIST\<close> and \<^verbatim>\<open>UIDL\<close> need of the function that prints a mail: a short line for each mail that is not
  marked, an error for a marked one and for a number that is none.
\<close>

locale mail_lines =
  fixes item :: "int \<Rightarrow> CMailBox \<Rightarrow> (DWORD \<times> string option) option"
    and line :: "nat \<Rightarrow> MAIL_ITEM \<Rightarrow> string"
    and fine :: "CMailBox \<Rightarrow> bool"
  assumes live_law: "mb_inv box \<Longrightarrow> fine box \<Longrightarrow> k < length (mails box) \<Longrightarrow> live (mails box ! k) \<Longrightarrow>
      item (int k) box = Some (ERROR_SUCCESS, Some (line k (mails box ! k)))"
    and length_law: "mb_inv box \<Longrightarrow> fine box \<Longrightarrow> k < length (mails box) \<Longrightarrow> live (mails box ! k) \<Longrightarrow>
      length (line k (mails box ! k)) < POP3_RESPONSE_BUF_SIZE"
    and marked_law: "mb_inv box \<Longrightarrow> k < length (mails box) \<Longrightarrow> \<not> live (mails box ! k) \<Longrightarrow>
      item (int k) box = Some (ERR_MSG_ALREADY_DELETED, None)"
    and none_law: "mb_inv box \<Longrightarrow> i < 0 \<or> nat i \<ge> length (mails box) \<Longrightarrow>
      item i box = Some (ERR_NO_SUCH_MSG, None)"
begin

lemma list_loop_text:
  assumes "mb_inv (box_of s)" "fine (box_of s)" "k + n = length (mails (box_of s))"
    and "length buf < POP3_RESPONSE_BUF_SIZE"
  shows "\<exists>chunks buf' s'. list_loop item n (int k) buf s = Some (buf', s') \<and>
    this s' = this s \<and> io s' = io s \<and>
    g_out (gl s') = g_out (gl s) @ map (Sent (m_hAsyncIO (io s))) chunks \<and>
    concat chunks @ buf' = buf @ concat (live_lines line k (drop k (mails (box_of s)))) \<and>
    (\<forall>c \<in> set (buf' # chunks). length c < POP3_RESPONSE_BUF_SIZE)"
  using assms
proof (induction n arbitrary: k buf s)
  case 0
  then show ?case by (intro exI [of _ "[] :: string list"]) simp
next
  case (Suc n)
  let ?box = "box_of s" and ?m = "mails (box_of s) ! k"
  have k: "k < length (mails ?box)" using Suc.prems(3) by simp
  have dr: "drop k (mails ?box) = ?m # drop (Suc k) (mails ?box)" using k by (simp add: Cons_nth_drop_Suc)
  have kn: "Suc k + n = length (mails ?box)" using Suc.prems(3) by simp
  show ?case
  proof (cases "live ?m")
    case False
    have "list_loop item (Suc n) (int k) buf s = list_loop item n (int (Suc k)) buf s"
      using marked_law [OF Suc.prems(1) k False]
      by (simp add: err_distinct add.commute)
    then show ?thesis using Suc.IH [OF Suc.prems(1,2) kn Suc.prems(4)] dr False by simp
  next
    case True
    note l = live_law [OF Suc.prems(1,2) k True] length_law [OF Suc.prems(1,2) k True]
    show ?thesis
    proof (cases "length buf + length (line k ?m) < POP3_RESPONSE_BUF_SIZE")
      case fits: True
      have "list_loop item (Suc n) (int k) buf s = list_loop item n (int (Suc k)) (buf @ line k ?m) s"
        using l(1) fits by (simp add: add.commute)
      then show ?thesis using Suc.IH [OF Suc.prems(1,2) kn, of "buf @ line k ?m"] fits dr True by simp
    next
      case full: False
      have "list_loop item (Suc n) (int k) buf s = list_loop item n (int (Suc k)) (line k ?m) (SendResponse buf s)"
        using l(1) full by (simp add: add.commute)
      moreover obtain chunks buf' s' where
        "list_loop item n (int (Suc k)) (line k ?m) (SendResponse buf s) = Some (buf', s')"
        "this s' = this s" "io s' = io s"
        "g_out (gl s') = (g_out (gl s) @ [Sent (m_hAsyncIO (io s)) buf]) @ map (Sent (m_hAsyncIO (io s))) chunks"
        "concat chunks @ buf' = line k ?m @ concat (live_lines line (Suc k) (drop (Suc k) (mails ?box)))"
        "\<forall>c \<in> set (buf' # chunks). length c < POP3_RESPONSE_BUF_SIZE"
        using Suc.IH [of "SendResponse buf s" "Suc k" "line k ?m"] Suc.prems(1,2) kn l(2) by auto
      ultimately show ?thesis
        using dr True Suc.prems(4) by (intro exI [of _ "buf # chunks"]) auto
    qed
  qed
qed

lemma TransList_text:
  assumes "mb_inv (box_of s)" "fine (box_of s)" "IsEndOfCommand (drop COMMAND_SIZE (cmd_buf s)) = Some True"
    and "length (summary ''+OK '' '' messages ('' (crlf '' octets)'') s) < POP3_RESPONSE_BUF_SIZE"
  shows "\<exists>chunks s'. TransList item s = Some s' \<and> this s' = this s \<and>
    g_out (gl s') = g_out (gl s) @ map (Sent (m_hAsyncIO (io s))) chunks \<and>
    concat chunks = summary ''+OK '' '' messages ('' (crlf '' octets)'') s
      @ concat (live_lines line 0 (mails (box_of s))) @ RESP_END_OF_LIST \<and>
    (\<forall>c \<in> set chunks. length c < POP3_RESPONSE_BUF_SIZE)"
proof -
  let ?head = "summary ''+OK '' '' messages ('' (crlf '' octets)'') s"
  have head: "snprintf (POP3_RESPONSE_BUF_SIZE - 1) ?head = Some ?head" using assms(4) by (simp add: snprintf_def)
  have cnt: "unat (m_cMailCount (box_of s)) = length (mails (box_of s))" using assms(1) by simp
  obtain chunks buf s1 where l: "list_loop item (unat (m_cMailCount (box_of s))) 0 ?head s = Some (buf, s1)"
    "this s1 = this s" "io s1 = io s" "g_out (gl s1) = g_out (gl s) @ map (Sent (m_hAsyncIO (io s))) chunks"
    "concat chunks @ buf = ?head @ concat (live_lines line 0 (mails (box_of s)))"
    "\<forall>c \<in> set (buf # chunks). length c < POP3_RESPONSE_BUF_SIZE"
    using list_loop_text [OF assms(1,2), of 0 "length (mails (box_of s))" ?head] assms(4) cnt by auto
  have t: "TransList item s = Some (list_end buf s1)"
    using assms(3) head l(1) by (simp add: TransList_def)
  let ?last = "if length buf + 4 < POP3_RESPONSE_BUF_SIZE then [buf @ RESP_END_OF_LIST]
      else (if buf \<noteq> [] then [buf] else []) @ [RESP_END_OF_LIST]"
  have "g_out (gl (list_end buf s1)) = g_out (gl s) @ map (Sent (m_hAsyncIO (io s))) (chunks @ ?last)"
    "this (list_end buf s1) = this s"
    using l(2-4) by (simp_all add: list_end_def)
  moreover have "concat (chunks @ ?last) = (concat chunks @ buf) @ RESP_END_OF_LIST" by simp
  moreover have "\<forall>c \<in> set (chunks @ ?last). length c < POP3_RESPONSE_BUF_SIZE"
    using l(6) by (auto simp: RESP_END_OF_LIST_def crlf_def)
  ultimately show ?thesis using t l(5) by (metis append.assoc)
qed

end

section \<open>The lines of \<^verbatim>\<open>LIST\<close> and \<^verbatim>\<open>UIDL\<close>\<close>

definition list_line :: "nat \<Rightarrow> MAIL_ITEM \<Rightarrow> string" where
  "list_line k m = fmt_u (Suc k) @ '' '' @ fmt_dword_d (dwFileSize m) @ [CR, LF]"

text \<open>The unique id of a mail: its file name without the prefix and the extension.\<close>

definition uid :: "MAIL_ITEM \<Rightarrow> string" where
  "uid m = (let t = narrow (drop 3 (bstrFileName m)) in take (length t - 4) t)"

definition uidl_line :: "nat \<Rightarrow> MAIL_ITEM \<Rightarrow> string" where
  "uidl_line k m = fmt_u (Suc k) @ '' '' @ uid m @ [CR, LF]"

definition names_fine :: "CMailBox \<Rightarrow> bool" where
  "names_fine box \<longleftrightarrow> (\<forall>m \<in> set (mails box). 4 \<le> length (narrow (drop 3 (bstrFileName m))) \<and>
     length (bstrFileName m) \<le> MAX_PATH)"

lemma fmt_dword_d_length: "length (fmt_dword_d w) \<le> 11"
proof -
  have "- 2147483648 \<le> sint w" "sint w < 2147483648"
    using sint_greater_eq [of w] sint_less [of w] by simp_all
  then have "nat (sint w) < 10 ^ 10" "nat (- sint w) < 10 ^ 10" by simp_all
  then show ?thesis
    using fmt_u_length [of 10 "nat (sint w)"] fmt_u_length [of 10 "nat (- sint w)"]
    by (simp add: fmt_dword_d_def fmt_d_def)
qed

lemma number_length: "k < 4294967296 \<Longrightarrow> length (fmt_u (Suc k)) \<le> 10"
  by (rule fmt_u_length) simp_all

lemma mails_bound: "mb_inv box \<Longrightarrow> k < length (mails box) \<Longrightarrow> k < 4294967296"
  using unsigned_less [of "m_cMailCount box", where 'a = nat] by simp

lemma fmt_d_Suc: "fmt_d (int k + 1) = fmt_u (Suc k)"
proof -
  have "nat (int k + 1) = Suc k" by simp
  then show ?thesis by (simp add: fmt_d_def)
qed

lemma bad_int: "mb_inv box \<Longrightarrow> k < length (mails box) \<Longrightarrow> \<not> bad_index (int k) box"
  by (simp add: box_simps)

interpretation lst: mail_lines list_item list_line "\<lambda>_. True"
proof
  fix box k
  assume a: "mb_inv box" "k < length (mails box)"
  note n = mail_at_mails [OF a(1)] bad_int [OF a]
  have len: "length (list_line k (mails box ! k)) \<le> 24"
    using number_length [OF mails_bound [OF a]] fmt_dword_d_length [of "dwFileSize (mails box ! k)"]
    by (simp add: list_line_def)
  then show "length (list_line k (mails box ! k)) < POP3_RESPONSE_BUF_SIZE" by simp
  show "live (mails box ! k) \<Longrightarrow> list_item (int k) box = Some (ERROR_SUCCESS, Some (list_line k (mails box ! k)))"
    using a n len by (simp add: list_item_def ListMail_def live_def snprintf_def fmt_d_Suc list_line_def)
  show "\<not> live (mails box ! k) \<Longrightarrow> list_item (int k) box = Some (ERR_MSG_ALREADY_DELETED, None)"
    using a n by (simp add: list_item_def ListMail_def live_def)
next
  fix box i
  assume "mb_inv box" "i < 0 \<or> length (mails box) \<le> nat i"
  then show "list_item i box = Some (ERR_NO_SUCH_MSG, None)" by (simp add: list_item_def ListMail_def box_simps)
qed

interpretation uid: mail_lines uidl_item uidl_line names_fine
proof
  fix box k
  assume a: "mb_inv box" "k < length (mails box)"
  note n = mail_at_mails [OF a(1)] bad_int [OF a]
  let ?m = "mails box ! k" and ?t = "narrow (drop 3 (bstrFileName (mails box ! k)))"
  show "\<not> live ?m \<Longrightarrow> uidl_item (int k) box = Some (ERR_MSG_ALREADY_DELETED, None)"
    using a n by (simp add: uidl_item_def UidlMail_def live_def)
  assume f: "names_fine box"
  have "?m \<in> set (mails box)" using a(2) by simp
  then have t: "4 \<le> length ?t" "length (bstrFileName ?m) \<le> 260" using f by (auto simp: names_fine_def)
  have "length ?t \<le> length (drop 3 (bstrFileName ?m))"
    by (simp add: narrow_def length_takeWhile_le del: length_drop)
  then have nm: "length ?t \<le> length (bstrFileName ?m) - 3" by simp
  have num: "length (fmt_u (Suc k)) \<le> 10" using number_length [OF mails_bound [OF a]] .
  show "length (uidl_line k ?m) < POP3_RESPONSE_BUF_SIZE"
    using t nm num by (simp add: uidl_line_def uid_def Let_def)
  have fits: "length (fmt_u (Suc k) @ '' '' @ ?t) \<le> POP3_RESPONSE_BUF_SIZE - 1" using t nm num by simp
  have tk: "take (length (fmt_u (Suc k) @ '' '' @ ?t) - 4) (fmt_u (Suc k) @ '' '' @ ?t)
      = fmt_u (Suc k) @ '' '' @ take (length ?t - 4) ?t"
    using t(1) by (simp add: take_Cons' Suc_diff_le)
  have "3 \<le> length (bstrFileName ?m)" using t(1) nm by simp
  then show "live ?m \<Longrightarrow> uidl_item (int k) box = Some (ERROR_SUCCESS, Some (uidl_line k ?m))"
    using a n fits t(1) tk
    by (simp add: uidl_item_def UidlMail_def live_def snprintf_def fmt_d_Suc uidl_line_def uid_def Let_def)
next
  fix box i
  assume "mb_inv box" "i < 0 \<or> length (mails box) \<le> nat i"
  then show "uidl_item i box = Some (ERR_NO_SUCH_MSG, None)" by (simp add: uidl_item_def UidlMail_def box_simps)
qed

lemma summary_length: "length (summary a b c s) \<le> length a + length b + length c + 22"
  using fmt_dword_d_length [of "m_dwShowMailCount (box_of s)"] fmt_dword_d_length [of "m_dwTotalSize (box_of s)"]
  by (simp add: summary_def)

lemma list_head_fits: "length (summary ''+OK '' '' messages ('' (crlf '' octets)'') s) < POP3_RESPONSE_BUF_SIZE"
  using summary_length [of "''+OK ''" "'' messages (''" "crlf '' octets)''" s] by (simp add: crlf_def)

text \<open>
  C14.  The answer of \<^verbatim>\<open>LIST\<close> without an argument, however many mails there are: what is sent to the client,
  joined together, is the summary line, one line with number and size for each mail that is not marked,
  in order and with its own number, and the terminating line; every piece sent fits the response buffer.
\<close>

theorem LIST_answer:
  assumes "mb_inv (box_of s)" "IsEndOfCommand (drop COMMAND_SIZE (cmd_buf s)) = Some True"
  shows "\<exists>chunks s'. TransList list_item s = Some s' \<and> this s' = this s \<and>
    g_out (gl s') = g_out (gl s) @ map (Sent (m_hAsyncIO (io s))) chunks \<and>
    concat chunks = summary ''+OK '' '' messages ('' (crlf '' octets)'') s
      @ concat (live_lines list_line 0 (mails (box_of s))) @ RESP_END_OF_LIST \<and>
    (\<forall>c \<in> set chunks. length c < POP3_RESPONSE_BUF_SIZE)"
  by (rule lst.TransList_text [OF assms(1) TrueI assms(2) list_head_fits])

definition box_conn :: "string \<Rightarrow> sim conn" where
  "box_conn cmd = on_this (\<lambda>c. c\<lparr>m_MailBox := demo_box, m_dwCurrentState := TRANS_STATE,
     m_szCommandBuffer := cmd @ [NUL], m_dwCommandSize := length cmd\<rparr>) demo_conn"

lemma box_conn_simps [simp]:
  "box_of (box_conn cmd) = demo_box" "cmd_buf (box_conn cmd) = cmd @ [NUL]" "io (box_conn cmd) = io demo_conn"
  "gl (box_conn cmd) = gl demo_conn" "state_of (box_conn cmd) = TRANS_STATE"
  by (simp_all add: box_conn_def)

lemma bare_command [simp]: "IsEndOfCommand [NUL] = Some True"
  by (simp add: IsEndOfCommand_terminated)

theorem LIST_answer_witness:
  "\<exists>chunks s'. TransList list_item (box_conn ''LIST'') = Some s' \<and> this s' = this (box_conn ''LIST'') \<and>
    g_out (gl s') = g_out (gl (box_conn ''LIST'')) @ map (Sent (m_hAsyncIO (io (box_conn ''LIST'')))) chunks \<and>
    concat chunks = summary ''+OK '' '' messages ('' (crlf '' octets)'') (box_conn ''LIST'')
      @ concat (live_lines list_line 0 (mails (box_of (box_conn ''LIST'')))) @ RESP_END_OF_LIST \<and>
    (\<forall>c \<in> set chunks. length c < POP3_RESPONSE_BUF_SIZE)"
  by (rule LIST_answer) (simp_all add: demo_box_inv)

text \<open>
   The answer of \<^verbatim>\<open>UIDL\<close> without an argument: the summary line, one line with number and unique id for
  each mail that is not marked, and the terminating line, in pieces that fit the response buffer,
  provided the file names have at least a three-letter prefix and a four-letter ending.
\<close>

theorem UIDL_answer:
  assumes "mb_inv (box_of s)" "names_fine (box_of s)" "IsEndOfCommand (drop COMMAND_SIZE (cmd_buf s)) = Some True"
  shows "\<exists>chunks s'. TransList uidl_item s = Some s' \<and> this s' = this s \<and>
    g_out (gl s') = g_out (gl s) @ map (Sent (m_hAsyncIO (io s))) chunks \<and>
    concat chunks = summary ''+OK '' '' messages ('' (crlf '' octets)'') s
      @ concat (live_lines uidl_line 0 (mails (box_of s))) @ RESP_END_OF_LIST \<and>
    (\<forall>c \<in> set chunks. length c < POP3_RESPONSE_BUF_SIZE)"
  by (rule uid.TransList_text [OF assms list_head_fits])

theorem UIDL_answer_witness:
  "\<exists>chunks s'. TransList uidl_item (box_conn ''UIDL'') = Some s' \<and> this s' = this (box_conn ''UIDL'') \<and>
    g_out (gl s') = g_out (gl (box_conn ''UIDL'')) @ map (Sent (m_hAsyncIO (io (box_conn ''UIDL'')))) chunks \<and>
    concat chunks = summary ''+OK '' '' messages ('' (crlf '' octets)'') (box_conn ''UIDL'')
      @ concat (live_lines uidl_line 0 (mails (box_of (box_conn ''UIDL'')))) @ RESP_END_OF_LIST \<and>
    (\<forall>c \<in> set chunks. length c < POP3_RESPONSE_BUF_SIZE)"
  by (rule UIDL_answer)
     (simp_all add: demo_box_inv names_fine_def demo_mail_def, simp add: wide_def narrow_def)

text \<open>
  Unique ids identify the mails: two mails with names of the form \<^verbatim>\<open>P3_<id>.eml\<close> in the characters of the
  code page have the same unique id only if they have the same name.
\<close>

theorem uid_injective:
  assumes "bstrFileName a = wide (''P3_'' @ x @ ''.eml'')" "bstrFileName b = wide (''P3_'' @ y @ ''.eml'')"
  shows "uid a = x \<and> (uid a = uid b \<longleftrightarrow> bstrFileName a = bstrFileName b)"
proof -
  have "drop 3 (wide (''P3_'' @ z @ ''.eml'')) = wide (z @ ''.eml'')" for z by (simp add: wide_def)
  then have u: "uid a = x" "uid b = y" using assms by (simp_all add: uid_def)
  have "(wide (''P3_'' @ x @ ''.eml'') = wide (''P3_'' @ y @ ''.eml'')) = (x = y)"
    by (metis append_same_eq narrow_wide same_append_eq)
  then show ?thesis using u assms by simp
qed

theorem uid_injective_witness:
  "uid (demo_mail ''P3_a.eml'' 10) = ''a'' \<and> (uid (demo_mail ''P3_a.eml'' 10) = uid (demo_mail ''P3_b.eml'' 20) \<longleftrightarrow>
     bstrFileName (demo_mail ''P3_a.eml'' 10) = bstrFileName (demo_mail ''P3_b.eml'' 20))"
  by (rule uid_injective [where y = "''b''"]) (simp_all add: demo_mail_def)

section \<open>\<^verbatim>\<open>STAT\<close>\<close>

lemma fmt_dword_d_small: "unat w < 2147483648 \<Longrightarrow> fmt_dword_d w = fmt_u (unat w)"
  by (simp add: fmt_dword_d_def fmt_d_def dword_lt_2_31_sint)

lemma unat_sum_list:
  "sum_list (map unat ws) < 4294967296 \<Longrightarrow> unat (sum_list (ws :: DWORD list)) = sum_list (map unat ws)"
  by (induction ws) (simp_all add: unat_word_ariths)

text \<open>
   \<^verbatim>\<open>STAT\<close> tells the truth: in a well-formed, counted mailbox with fewer than 2^31 mails and octets it
  sends one line with the number of the mails that are not marked and the sum of their sizes, in decimal.
\<close>

theorem STAT_answer:
  assumes "mb_inv (box_of s)" "mb_counts (box_of s)" "IsEndOfCommand (drop COMMAND_SIZE (cmd_buf s)) = Some True"
    and "length (mails (box_of s)) < 2147483648"
    and "sum_list (map (unat \<circ> dwFileSize) (filter live (mails (box_of s)))) < 2147483648"
  shows "TransStat s = Some (SendResponse (''+OK '' @ fmt_u (length (filter live (mails (box_of s)))) @ '' '' @
    fmt_u (sum_list (map (unat \<circ> dwFileSize) (filter live (mails (box_of s))))) @ [CR, LF]) s)"
proof -
  let ?l = "filter live (mails (box_of s))"
  have "length ?l \<le> length (mails (box_of s))" by (rule length_filter_le)
  then have n: "length ?l < 2147483648" using assms(4) by linarith
  have c: "unat (m_dwShowMailCount (box_of s)) = length ?l"
    using assms(2) n by (simp add: mb_counts_def unat_dword_of_nat)
  have z: "unat (m_dwTotalSize (box_of s)) = sum_list (map (unat \<circ> dwFileSize) ?l)"
    using assms(2,5) unat_sum_list [of "map dwFileSize ?l"] by (simp add: mb_counts_def)
  have s: "summary ''+OK '' '' '' (crlf []) s = ''+OK '' @ fmt_u (length ?l) @ '' '' @
      fmt_u (sum_list (map (unat \<circ> dwFileSize) ?l)) @ [CR, LF]"
    using c z n assms(5) by (simp add: summary_def fmt_dword_d_small crlf_def)
  have "length (summary ''+OK '' '' '' (crlf []) s) \<le> POP3_RESPONSE_BUF_SIZE - 1"
    using summary_length [of "''+OK ''" "'' ''" "crlf []" s] by (simp add: crlf_def)
  then have "snprintf (POP3_RESPONSE_BUF_SIZE - 1) (summary ''+OK '' '' '' (crlf []) s)
      = Some (summary ''+OK '' '' '' (crlf []) s)"
    by (simp add: snprintf_def)
  then show ?thesis using assms(3) by (simp add: TransStat_def s)
qed

theorem STAT_answer_witness:
  "TransStat (box_conn ''STAT'') = Some (SendResponse (''+OK '' @ fmt_u 2 @ '' '' @ fmt_u 30 @ [CR, LF]) (box_conn ''STAT''))"
  using STAT_answer [of "box_conn ''STAT''"]
  by (simp add: demo_box_inv demo_mail_def live_def NO_PENDING_OP_def DEL_PENDING_def flip: numeral_2_eq_2)

section \<open>No argument leads outside the buffers\<close>

lemma GetNextNum_rest:
  assumes "NUL \<in> set buf" "GetNextNumParameter buf = Some (Some (i, rest))"
  shows "NUL \<in> set rest"
proof -
  let ?t = "dropWhile isspace (tl buf)"
  have "rest = dropWhile isdigit ?t" "isspace (hd buf)"
    using assms by (auto simp: GetNextNumParameter_terminated Let_def split: if_splits)
  moreover have "NUL \<in> set (tl buf)"
    using assms(1) calculation(2) isspace_not_nul by (cases buf) auto
  ultimately show ?thesis using skip_Some [of "tl buf" isspace] skip_Some [of ?t isdigit] by simp
qed

lemma parse_total:
  assumes "NUL \<in> set buf"
  shows "(\<exists>e. IsEndOfCommand buf = Some e) \<and> (GetNextNumParameter buf = Some None \<or>
    (\<exists>i rest. GetNextNumParameter buf = Some (Some (i, rest)) \<and> NUL \<in> set rest \<and> (\<exists>e. IsEndOfCommand rest = Some e)))"
proof -
  obtain r where r: "GetNextNumParameter buf = Some r" using GetNextNumParameter_terminated [OF assms] by blast
  show ?thesis
  proof (cases r)
    case (Some q)
    obtain i rest where "q = (i, rest)" by fastforce
    with r Some GetNextNum_rest [OF assms] show ?thesis by (auto simp: IsEndOfCommand_terminated assms)
  qed (use r assms in \<open>auto simp: IsEndOfCommand_terminated\<close>)
qed

context mail_lines
begin

lemma item_total:
  assumes "mb_inv box" "fine box"
  shows "\<exists>r l. item i box = Some (r, l)"
proof (cases "i < 0 \<or> nat i \<ge> length (mails box)")
  case True
  then show ?thesis using none_law [OF assms(1)] by blast
next
  case False
  then have "item i box = item (int (nat i)) box" "nat i < length (mails box)" by auto
  then show ?thesis using live_law [OF assms] marked_law [OF assms(1)] by metis
qed

lemma TransList_total:
  assumes "mb_inv (box_of s)" "fine (box_of s)" "NUL \<in> set (drop COMMAND_SIZE (cmd_buf s))"
  shows "\<exists>s'. TransList item s = Some s'"
proof (cases "IsEndOfCommand (drop COMMAND_SIZE (cmd_buf s)) = Some True")
  case True
  then show ?thesis using TransList_text [OF assms(1,2)] list_head_fits by blast
next
  case False
  then have e: "IsEndOfCommand (drop COMMAND_SIZE (cmd_buf s)) = Some False"
    using parse_total [OF assms(3)] by (metis (full_types))
  consider "GetNextNumParameter (drop COMMAND_SIZE (cmd_buf s)) = Some None"
    | i rest f where "GetNextNumParameter (drop COMMAND_SIZE (cmd_buf s)) = Some (Some (i, rest))"
        "IsEndOfCommand rest = Some f"
    using parse_total [OF assms(3)] by blast
  then show ?thesis
  proof cases
    case 1
    then show ?thesis using e by (simp add: TransList_def)
  next
    case (2 i rest f)
    then show ?thesis using e item_total [OF assms(1,2), of "i - 1"] by (auto simp: TransList_def)
  qed
qed

end

lemma TransRetr_total:
  assumes "mb_inv (box_of s)" "NUL \<in> set (drop COMMAND_SIZE (cmd_buf s))"
  shows "\<exists>p s'. TransRetr api s = Some (p, s')"
proof -
  have t: "\<exists>r b w'. TransmitMail api h i (- 1) (box_of s, w) = Some (r, b, w')" for h i w
  proof (cases "bad_index i (box_of s)")
    case False
    then have "mail_at (box_of s) (nat i) = Some (mails (box_of s) ! nat i)"
      using mail_at_mails [OF assms(1)] by (simp add: bad_index_def)
    then show ?thesis using False by (auto simp: TransmitMail_def split: prod.split sum.split)
  qed (simp add: TransmitMail_def)
  have "\<exists>p s'. Transmit api i (- 1) s = Some (p, s')" for i
    using t [of "m_hAsyncIO (io s)" i "g_world (gl s)"]
    by (auto simp: Transmit_def box_call_opt_def Let_def)
  then show ?thesis using parse_total [OF assms(2)] by (auto simp: TransRetr_def)
qed



section \<open>Command lines\<close>

text \<open>Waiting and terminating leave the command buffer alone.\<close>

definition same_line :: "'w conn \<Rightarrow> 'w conn \<Rightarrow> bool" where
  "same_line s s' \<longleftrightarrow> m_szCommandBuffer (this s') = m_szCommandBuffer (this s) \<and>
     m_dwCommandSize (this s') = m_dwCommandSize (this s) \<and> m_bCommandComplete (this s') = m_bCommandComplete (this s)"

lemma TerminateConnection_line: "TerminateConnection api s = Some s' \<Longrightarrow> same_line s s'"
  by (auto simp: TerminateConnection_def box_call_opt_def Let_def same_line_def
      split: bind_splits if_splits pop3_state.splits)

lemma WaitForCommand_line:
  assumes "WaitForCommand api s = Some s'"
  shows "same_line s s'"
proof -
  obtain ok s1 where c: "call (\<lambda>w. WSARecv api w (m_hAsyncIO (io s))) s = (ok, s1)" by fastforce
  have "this s1 = this s" using callD [OF c] by simp
  moreover have "TerminateConnection api s = Some s' \<or> TerminateConnection api s1 = Some s' \<or>
      Some s' = Some (on_gl (emit (Recv (m_hAsyncIO (io s1)))) s1)"
    using assms unfolding WaitForCommand_def c prod.case by presburger
  ultimately show ?thesis using TerminateConnection_line by (fastforce simp: same_line_def)
qed

text \<open>The bytes of a request are at hand in the receive buffer.\<close>

abbreviation "receive bytes s \<equiv> on_io (m_Buffer_update (\<lambda>_. bytes)) s"

lemma AssembleCommand_fresh:
  assumes "m_bCommandComplete (this s)" "strstr_crlf (bytes @ [NUL]) = Some k"
  shows "AssembleCommand api (length bytes) (receive bytes s) = Some (Inr (on_this (\<lambda>c. c\<lparr>m_szCommandBuffer :=
    (bytes @ [NUL])[k := NUL], m_dwCommandSize := length bytes - 2, m_bCommandComplete := True\<rparr>) (receive bytes s)))"
  using assms by (simp add: AssembleCommand_def Let_def)

text \<open>
  C11.  How the network cuts a line does not matter: when a first piece holds no end of line, the service
  waits, and when the rest then arrives and completes the line, the command buffer and the command size are
  the same as if the whole line had arrived at once.
\<close>

theorem AssembleCommand_fragments:
  assumes "m_bCommandComplete (this s)" "length (a @ b) < POP3_REQUEST_BUF_SIZE"
    and "strstr_crlf (a @ [NUL]) = None" "strstr_crlf (a @ b @ [NUL]) = Some k"
    and "AssembleCommand api (length a) (receive a s) = Some r"
  shows "\<exists>s1 s2 s3. r = Inl s1 \<and> AssembleCommand api (length b) (receive b s1) = Some (Inr s2) \<and>
    AssembleCommand api (length (a @ b)) (receive (a @ b) s) = Some (Inr s3) \<and>
    m_szCommandBuffer (this s2) = m_szCommandBuffer (this s3) \<and> m_dwCommandSize (this s2) = m_dwCommandSize (this s3) \<and>
    m_bCommandComplete (this s2)"
proof -
  let ?s = "on_this (\<lambda>c. c\<lparr>m_szCommandBuffer := a @ [NUL], m_dwCommandSize := length a,
      m_bCommandComplete := False\<rparr>) (receive a s)"
  obtain s1 where s1: "WaitForCommand api ?s = Some s1" "r = Inl s1"
    using assms(1,3,5) by (auto simp: AssembleCommand_def Let_def split: bind_splits)
  have l: "m_szCommandBuffer (this s1) = a @ [NUL]" "m_dwCommandSize (this s1) = length a"
    "\<not> m_bCommandComplete (this s1)"
    using WaitForCommand_line [OF s1(1)] by (simp_all add: same_line_def)
  have "AssembleCommand api (length b) (receive b s1) = Some (Inr (on_this (\<lambda>c. c\<lparr>m_szCommandBuffer :=
      (a @ b @ [NUL])[k := NUL], m_dwCommandSize := length a + length b - 2, m_bCommandComplete := True\<rparr>) (receive b s1)))"
    using l assms(2,4) by (simp add: AssembleCommand_def Let_def)
  moreover note AssembleCommand_fresh [OF assms(1), of "a @ b" k api]
  ultimately show ?thesis using s1(2) assms(4) by simp
qed

theorem AssembleCommand_fragments_witness:
  "\<exists>r s1 s2 s3. AssembleCommand sim_api (length ''NO'') (receive ''NO'' demo_conn) = Some r \<and> r = Inl s1 \<and>
    AssembleCommand sim_api (length (crlf ''OP'')) (receive (crlf ''OP'') s1) = Some (Inr s2) \<and>
    AssembleCommand sim_api (length (''NO'' @ crlf ''OP'')) (receive (''NO'' @ crlf ''OP'') demo_conn) = Some (Inr s3) \<and>
    m_szCommandBuffer (this s2) = m_szCommandBuffer (this s3) \<and> m_dwCommandSize (this s2) = m_dwCommandSize (this s3) \<and>
    m_bCommandComplete (this s2)"
proof -
  have c: "m_bCommandComplete (this demo_conn)" by (simp add: demo_conn_def raw_POP3_CONTEXT_def)
  obtain r where r: "AssembleCommand sim_api (length ''NO'') (receive ''NO'' demo_conn) = Some r"
    by (auto simp: AssembleCommand_def Let_def demo_conn_def raw_POP3_CONTEXT_def raw_IO_CONTEXT_def strstr_crlf_def
        WaitForCommand_def sim_api_def call_def sys_def)
  show ?thesis
    using AssembleCommand_fragments [OF c _ _ _ r, of "crlf ''OP''" 4] r by (simp add: crlf_def strstr_crlf_def)
qed

text \<open>
  C18.  What the parser accepts as a command is one clean line: the command buffer holds exactly
  \<^verbatim>\<open>m_dwCommandSize\<close> printable characters, then the NUL put in place of the carriage return, the line feed
  and the terminator.  A line feed, a NUL or a further line in the received bytes makes the command unknown.
\<close>

theorem accepted_command_is_one_line:
  assumes "AssembleCommand api n s = Some (Inr s')" "line_ok (this s)"
    and "ParseCommand (cmd_buf s') (m_dwCommandSize (this s')) = Some cmd" "cmd \<noteq> CMD_UNKNOWN"
  shows "\<exists>ln. cmd_buf s' = ln @ [NUL, LF, NUL] \<and> length ln = m_dwCommandSize (this s') \<and>
    (\<forall>c \<in> set ln. isprint c) \<and> 3 \<le> length ln"
proof -
  let ?c = "this s"
  let ?old = "if m_bCommandComplete ?c then [] else take (m_dwCommandSize ?c) (m_szCommandBuffer ?c)"
  define d where "d = ?old @ take n (m_Buffer (io s))"
  have len: "n \<le> length (m_Buffer (io s))" using assms(1) by (auto simp: AssembleCommand_def Let_def split: if_splits)
  have sz: "length d = (if m_bCommandComplete ?c then n else m_dwCommandSize ?c + n)"
    using assms(2) len by (auto simp: d_def line_ok_def)
  have buf: "?old @ take n (m_Buffer (io s)) @ [NUL] = d @ [NUL]" by (simp add: d_def)
  obtain k where k: "strstr_crlf (d @ [NUL]) = Some k"
    and t: "cmd_buf s' = (d @ [NUL])[k := NUL]" "m_dwCommandSize (this s') = length d - 2"
    using assms(1) unfolding AssembleCommand_def Let_def buf
    by (auto simp: sz split: if_splits bind_splits option.splits)
  have kb: "Suc k < length (cstr (d @ [NUL]))" "cstr (d @ [NUL]) ! k = CR" "cstr (d @ [NUL]) ! Suc k = LF"
    using find_crlf_Some k by (auto simp: strstr_crlf_def)
  have "cstr (d @ [NUL]) = takeWhile (\<lambda>c. c \<noteq> NUL) d" by (induction d) (simp_all add: cstr_def)
  then have kd: "Suc k < length d" "d ! Suc k = LF"
    using kb length_takeWhile_le [of "\<lambda>c. c \<noteq> NUL" d] by (auto simp: takeWhile_nth)
  have ok: "all_printable (length d - 2) (cmd_buf s') = Some True" "3 \<le> strlen (cmd_buf s')"
    using assms(3,4) t by (auto simp: ParseCommand_def split: bind_splits if_splits)
  then have pr: "\<forall>c \<in> set (take (length d - 2) (cmd_buf s')). isprint c" using all_printable_True by blast
  have kl: "k = length d - 2"
  proof (rule ccontr)
    assume "k \<noteq> length d - 2"
    then have "k < length d - 2" using kd by simp
    then have "cmd_buf s' ! k \<in> set (take (length d - 2) (cmd_buf s'))"
      using t(1) by (auto simp: in_set_conv_nth intro!: exI [of _ k])
    moreover have "cmd_buf s' ! k = NUL" using t(1) kd by simp
    ultimately show False using pr isprint_not_nul by metis
  qed
  have "drop k d = [d ! k, LF]" using kd kl by (simp add: Cons_nth_drop_Suc [symmetric])
  then have "d = take k d @ [d ! k, LF]" by (metis append_take_drop_id)
  then have "(d @ [NUL])[k := NUL] = take k d @ [NUL, LF, NUL]"
    using kd by (metis append.assoc append_Cons append_Nil length_take list_update_length min.absorb2 less_imp_le Suc_lessD)
  then have b: "cmd_buf s' = take k d @ [NUL, LF, NUL]" using t(1) by simp
  have lk: "length (take k d) = length d - 2" using kd kl by simp
  have "\<forall>c \<in> set (take k d). isprint c" using pr b lk unfolding kl by simp
  moreover have "strlen (cmd_buf s') = length (take k d)"
    using calculation isprint_not_nul unfolding b strlen_def by (subst cstr_append_nul) auto
  ultimately show ?thesis using b lk t(2) ok(2) by auto
qed

lemma NOOP_parses: "ParseCommand (''NOOP'' @ [NUL, LF, NUL]) 4 = Some CMD_NOOP"
  by code_simp

theorem accepted_command_is_one_line_witness:
  "\<exists>s'. AssembleCommand sim_api 6 (receive (crlf ''NOOP'') demo_conn) = Some (Inr s') \<and>
    (\<exists>ln. cmd_buf s' = ln @ [NUL, LF, NUL] \<and> length ln = m_dwCommandSize (this s') \<and>
      (\<forall>c \<in> set ln. isprint c) \<and> 3 \<le> length ln)"
proof -
  have c: "m_bCommandComplete (this demo_conn)" by (simp add: demo_conn_def raw_POP3_CONTEXT_def)
  let ?s = "on_this (\<lambda>c. c\<lparr>m_szCommandBuffer := ''NOOP'' @ [NUL, LF, NUL], m_dwCommandSize := 4, m_bCommandComplete := True\<rparr>)
      (receive (crlf ''NOOP'') demo_conn)"
  have a: "AssembleCommand sim_api 6 (receive (crlf ''NOOP'') demo_conn) = Some (Inr ?s)"
    using AssembleCommand_fresh [OF c, of "crlf ''NOOP''" 4 sim_api] by (simp add: crlf_def strstr_crlf_def numeral_eq_Suc)
  have "ParseCommand (cmd_buf ?s) (m_dwCommandSize (this ?s)) = Some CMD_NOOP"
    using NOOP_parses by simp
  from accepted_command_is_one_line [OF a _ this] c show ?thesis using a by (simp add: line_ok_def)
qed

end
