(* ===== verification/Io_CallBack.thy ===== *)
theory Io_CallBack
  imports Pop3_Session
begin

text \<open>
  The callback of the completion port and the walks over the lists of connections
  (\<^verbatim>\<open>pop3/service/pop3svc/socketpool.cpp\<close>, \<^verbatim>\<open>IOCallBack\<close>; \<^verbatim>\<open>iolists.cpp\<close>, \<^verbatim>\<open>CIOList::CheckTimeOut\<close> and
  \<^verbatim>\<open>CIOList::Cleanup\<close>; \<^verbatim>\<open>thdpool.cpp\<close>, one turn of \<^verbatim>\<open>ThreadProc\<close>).  A context lives in \<^verbatim>\<open>g_heap\<close> under its address; a thread takes it out, works on it under its
  lock and puts it back.  A thread that finds a context locked waits: no value.
\<close>

section \<open>Contexts in the heap\<close>

definition conn_at :: "nat \<Rightarrow> 'w glob \<Rightarrow> 'w conn option" where
  "conn_at a g = do { (ioc, ctx) \<leftarrow> g_heap g a; Some \<lparr>this = ctx, io = ioc, gl = g\<rparr> }"

definition put_conn :: "nat \<Rightarrow> 'w conn \<Rightarrow> 'w glob" where
  "put_conn a s = (gl s)\<lparr>g_heap := (g_heap (gl s))(a \<mapsto> (io s, this s))\<rparr>"

text \<open>\<^verbatim>\<open>delete (pIoContext->m_pPop3Context); delete (pIoContext)\<close>: the destructor of the member \<^verbatim>\<open>m_AuthServer\<close> runs.\<close>

definition delete_conn :: "'w win32 \<Rightarrow> nat \<Rightarrow> 'w conn \<Rightarrow> 'w glob" where
  "delete_conn api a s = (case Cleanup api (m_AuthServer (this s), gl s) of (_, g) \<Rightarrow>
     g\<lparr>g_heap := (g_heap g)(a := None)\<rparr>)"

section \<open>\<^verbatim>\<open>IOCallBack\<close>\<close>

text \<open>A context that is to be deleted: reused for a new socket (true) or deleted.\<close>

definition RetireContext :: "'w win32 \<Rightarrow> nat \<Rightarrow> 'w conn \<Rightarrow> (bool \<times> 'w glob) option" where
  "RetireContext api a s = do {
     (_, g) \<leftarrow> RemoveFromBusy a (gl s);
     if IsMoreSocketsNeeded g then do {
       (ok, (ioc, ctx), g) \<leftarrow> ReuseIOContext api a ((io s, this s), g);
       let s = \<lparr>this = ctx, io = ioc, gl = g\<rparr>;
       Some (if ok then (True, put_conn a s) else (False, delete_conn api a s)) }
     else Some (False, delete_conn api a (s\<lparr>gl := g\<rparr>)) }"

definition AddNeededSockets :: "'w win32 \<Rightarrow> 'w glob \<Rightarrow> 'w glob option" where
  "AddNeededSockets api g =
     (if IsMoreSocketsNeeded g then do {
        (ok, g) \<leftarrow> AddSockets api g;
        Some (if ok then g else LogEvent POP3SVR_CREATE_ADDITIONAL_SOCKET_FAILED g) }
      else Some g)"

text \<open>A new connection: the completion of \<^verbatim>\<open>AcceptEx\<close> on the listening socket.\<close>

definition IOCallBack_accept :: "'w win32 \<Rightarrow> nat \<Rightarrow> DWORD \<Rightarrow> 'w glob \<Rightarrow> 'w glob option" where
  "IOCallBack_accept api a dwBytesRcvd g = do {
     let g = perf (IncPerfCntr e_gcConnectedSocketCnt) (perf (IncPerfCntr e_gcConnectionRate)
               (perf (IncPerfCntr e_gcTotConnection) g));
     (ioc, ctx) \<leftarrow> g_heap g a;
     let (t, g) = sys (GetTickCount api) g;
     let ioc = ioc\<lparr>m_dwLastIOTime := t, m_dwConnectionTime := t, m_lLock := LOCKED_TO_PROCESS_POP3_CMD\<rparr>;
     (r, g) \<leftarrow> RemoveFromFree a g;
     let g = (if r \<noteq> ERROR_SUCCESS then LogEvent POP3SVR_SOCKET_REQUEST_BEFORE_INIT g else g);
     g \<leftarrow> AppendToBusy a g;
     g \<leftarrow> DecrementFreeSocketCount api g;
     let (ctx, g) = ResetContext api (ctx, g);
     s \<leftarrow> ProcessRequest api dwBytesRcvd \<lparr>this = ctx, io = ioc, gl = g\<rparr>;
     (reused, g) \<leftarrow> (if m_ConType (io s) = DELETE_PENDING then RetireContext api a s
                     else Some (False, put_conn a (on_io (m_lLock_update (\<lambda>_. UNLOCKED)) s)));
     if reused then Some g
     else do {
       g \<leftarrow> AddNeededSockets api g;
       Some (if IsMaxSocketUsed g then emit DoSEvent g else g) } }"

text \<open>The completion of a receive or of a transmission on an accepted socket.\<close>

definition IOCallBack_io :: "'w win32 \<Rightarrow> nat \<Rightarrow> DWORD \<Rightarrow> 'w glob \<Rightarrow> 'w glob option" where
  "IOCallBack_io api a dwBytesRcvd g = do {
     s \<leftarrow> conn_at a g;
     if m_lLock (io s) \<noteq> UNLOCKED then None
     else do {
       let s = on_io (m_lLock_update (\<lambda>_. LOCKED_TO_PROCESS_POP3_CMD)) s;
       s \<leftarrow> (if m_ConType (io s) = CONNECTION_SOCKET then ProcessRequest api dwBytesRcvd s else Some s);
       if m_ConType (io s) = DELETE_PENDING then do { (_, g) \<leftarrow> RetireContext api a s; Some g }
       else (case call (GetTickCount api) s of (t, s) \<Rightarrow>
         Some (put_conn a (on_io (\<lambda>i. i\<lparr>m_dwLastIOTime := t, m_lLock := UNLOCKED\<rparr>) s))) } }"

definition IOCallBack :: "'w win32 \<Rightarrow> IO_TYPE \<Rightarrow> nat \<Rightarrow> DWORD \<Rightarrow> 'w glob \<Rightarrow> 'w glob option" where
  "IOCallBack api key a dwBytesRcvd g =
     (if key = LISTEN_SOCKET then IOCallBack_accept api a dwBytesRcvd g
      else IOCallBack_io api a dwBytesRcvd g)"

text \<open>
  One turn of the loop of \<^verbatim>\<open>ThreadProc\<close>: the completion that \<^verbatim>\<open>GetQueuedCompletionStatus\<close> gave, with \<^verbatim>\<open>None\<close> for
  a null key; the result tells whether the thread goes on.
\<close>

definition ThreadProc_turn :: "'w win32 \<Rightarrow> (IO_TYPE \<times> nat \<times> DWORD) option \<Rightarrow> 'w glob \<Rightarrow> (bool \<times> 'w glob) option" where
  "ThreadProc_turn api completion g =
     (case completion of
        None \<Rightarrow> Some (False, perf (DecPerfCntr e_gcFreeThreadCnt) g)
      | Some (key, a, n) \<Rightarrow>
          if g_dwServerStatus g = SERVICE_STOP_PENDING then Some (False, perf (DecPerfCntr e_gcFreeThreadCnt) g)
          else do {
            g \<leftarrow> IOCallBack api key a n (perf (DecPerfCntr e_gcFreeThreadCnt) g);
            Some (True, perf (IncPerfCntr e_gcFreeThreadCnt) g) })"

section \<open>\<^verbatim>\<open>CheckTimeOut\<close>\<close>

definition advance :: "'w glob \<Rightarrow> 'w glob" where
  "advance g = g\<lparr>g_BusyList := (g_BusyList g)\<lparr>m_pCursor := Flink (g_links g) (m_pCursor (g_BusyList g))\<rparr>\<rparr>"

definition idle_time :: "DWORD \<Rightarrow> IO_CONTEXT \<Rightarrow> DWORD" where
  "idle_time dwTime ioc = (if dwTime > m_dwLastIOTime ioc then dwTime - m_dwLastIOTime ioc else 0)"

definition timed_out :: "DWORD \<Rightarrow> DWORD \<Rightarrow> POP3_CONTEXT \<Rightarrow> bool" where
  "timed_out dwTimeOut dwTimeOutInterval ctx \<longleftrightarrow> dwTimeOut \<ge> DEFAULT_TIME_OUT \<or>
     (dwTimeOut \<ge> dwTimeOutInterval \<and> dwTimeOutInterval = SHORTENED_TIMEOUT \<and> Unauthenticated ctx)"

text \<open>
  The body of the loop for the context under the cursor.  A context whose lock is free is locked for the
  check and unlocked after it.
\<close>

definition CheckTimeOut_entry :: "'w win32 \<Rightarrow> DWORD \<Rightarrow> (DWORD \<times> bool) \<times> 'w glob \<Rightarrow> ((DWORD \<times> bool) \<times> 'w glob) option" where
  "CheckTimeOut_entry api dwTimeOutInterval st = (case st of ((dwNextTimeOut, bIsAny), g) \<Rightarrow>
     (case m_pCursor (g_BusyList g) of
        LEntry a \<Rightarrow> do {
          s \<leftarrow> conn_at a g;
          if m_lLock (io s) \<noteq> UNLOCKED then Some ((dwNextTimeOut, bIsAny), advance g)
          else do {
            let s = on_io (m_lLock_update (\<lambda>_. LOCKED_FOR_TIMEOUT)) s;
            (r, s) \<leftarrow> (if m_ConType (io s) \<noteq> DELETE_PENDING then
                (case call (GetTickCount api) s of (dwTime, s) \<Rightarrow>
                   let dwTimeOut = idle_time dwTime (io s)
                   in if timed_out dwTimeOut dwTimeOutInterval (this s) then do {
                        s \<leftarrow> TimeOut api (on_gl advance s);
                        Some ((dwNextTimeOut, True), s) }
                      else Some ((if dwNextTimeOut < dwTimeOut then dwTimeOut else dwNextTimeOut, bIsAny),
                                 on_gl advance s))
              else Some ((dwNextTimeOut, bIsAny), on_gl advance s));
            Some (r, put_conn a (on_io (m_lLock_update (\<lambda>_. UNLOCKED)) s)) } }
      | _ \<Rightarrow> None))"

partial_function (option) CheckTimeOut_loop ::
  "'w win32 \<Rightarrow> DWORD \<Rightarrow> (DWORD \<times> bool) \<times> 'w glob \<Rightarrow> ((DWORD \<times> bool) \<times> 'w glob) option" where
  "CheckTimeOut_loop api dwTimeOutInterval st =
     (if m_pCursor (g_BusyList (snd st)) = m_ListHead (g_BusyList (snd st)) then Some st
      else do { st \<leftarrow> CheckTimeOut_entry api dwTimeOutInterval st; CheckTimeOut_loop api dwTimeOutInterval st })"

declare CheckTimeOut_loop.simps [code]

definition CheckTimeOut :: "'w win32 \<Rightarrow> DWORD \<Rightarrow> bool \<times> 'w glob \<Rightarrow> (DWORD \<times> bool \<times> 'w glob) option" where
  "CheckTimeOut api dwTimeOutInterval s = (case s of (bIsAny, g) \<Rightarrow> do {
     let l = g_BusyList g;
     let g = g\<lparr>g_BusyList := l\<lparr>m_pCursor := Flink (g_links g) (m_ListHead l)\<rparr>\<rparr>;
     ((dwNextTimeOut, bIsAny), g) \<leftarrow> CheckTimeOut_loop api dwTimeOutInterval ((0, bIsAny), g);
     Some (dwNextTimeOut, bIsAny, g) })"

section \<open>\<^verbatim>\<open>Cleanup\<close>\<close>

text \<open>\<^verbatim>\<open>Cleanup\<close> of one of the two lists; \<^verbatim>\<open>k\<close> is true for the free list.\<close>

definition io_list :: "bool \<Rightarrow> 'w glob \<Rightarrow> CIOList" where
  "io_list k g = (if k then g_FreeList g else g_BusyList g)"

definition on_io_list :: "bool \<Rightarrow> (CIOList \<Rightarrow> CIOList) \<Rightarrow> 'w glob \<Rightarrow> 'w glob" where
  "on_io_list k f g = (if k then g\<lparr>g_FreeList := f (g_FreeList g)\<rparr> else g\<lparr>g_BusyList := f (g_BusyList g)\<rparr>)"

partial_function (option) CleanupList_loop :: "'w win32 \<Rightarrow> bool \<Rightarrow> lref \<Rightarrow> 'w glob \<Rightarrow> 'w glob option" where
  "CleanupList_loop api k pCursor g =
     (if pCursor = m_ListHead (io_list k g) then Some g
      else (case pCursor of
        LEntry a \<Rightarrow> do {
          s \<leftarrow> conn_at a g;
          s \<leftarrow> TimeOut api s;
          let g = gl s;
          lk \<leftarrow> set_Blink (Flink (g_links g) pCursor) (Blink (g_links g) pCursor) (g_links g);
          lk \<leftarrow> set_Flink (Blink lk pCursor) (Flink lk pCursor) lk;
          let g = on_io_list k (\<lambda>l. l\<lparr>m_dwListCount := m_dwListCount l - 1\<rparr>) (g\<lparr>g_links := lk\<rparr>);
          let pNext = Flink lk pCursor;
          CleanupList_loop api k pNext (delete_conn api a (s\<lparr>gl := g\<rparr>)) }
      | _ \<Rightarrow> None))"

declare CleanupList_loop.simps [code]

definition CleanupList :: "'w win32 \<Rightarrow> bool \<Rightarrow> 'w glob \<Rightarrow> 'w glob option" where
  "CleanupList api k g = do {
     g \<leftarrow> CleanupList_loop api k (Flink (g_links g) (m_ListHead (io_list k g))) g;
     Some (on_io_list k (\<lambda>l. l\<lparr>m_pCursor := m_ListHead l\<rparr>) g) }"

end
