(* ===== verification/Thread_Pool.thy ===== *)
theory Thread_Pool
  imports Io_CallBack
begin

text \<open>
  The thread pool, \<^verbatim>\<open>CThreadPool\<close> of \<^verbatim>\<open>pop3/service/pop3svc/thdpool.cpp\<close>: making the completion port and
  the threads, and ending them.  \<^verbatim>\<open>AssociateContext\<close> is in \<^verbatim>\<open>Socket_Pool\<close>, the body of a thread in
  \<^verbatim>\<open>Io_CallBack\<close>.  The member \<^verbatim>\<open>m_bInit\<close> is \<^verbatim>\<open>g_bThreadPoolInit\<close> of the globals.  The array of handles is
  the list of the entries that were written; its length is \<^verbatim>\<open>m_dwTdCount\<close> once every thread is made.
\<close>

section \<open>The code\<close>

record CThreadPool =
  m_hIOCompPort :: HANDLE
  m_phTdArray :: "HANDLE list option"
  m_dwTdCount :: DWORD

text \<open>
  The calls of the system for threads: the number of processors, a new completion port, and the calls on
  threads.  \<^verbatim>\<open>WaitForThreads\<close> is \<^verbatim>\<open>WaitForMultipleObjects\<close> for all handles of an array.
\<close>

record 'w threadapi =
  GetSystemInfo :: "'w \<Rightarrow> DWORD \<times> 'w"
  NewCompletionPort :: "'w \<Rightarrow> DWORD \<Rightarrow> HANDLE \<times> 'w"
  CreateThread :: "'w \<Rightarrow> HANDLE \<Rightarrow> HANDLE \<times> 'w"
  TerminateThread :: "'w \<Rightarrow> HANDLE \<Rightarrow> 'w"
  PostQueuedCompletionStatus :: "'w \<Rightarrow> HANDLE \<Rightarrow> 'w"
  WaitForThreads :: "'w \<Rightarrow> HANDLE list \<Rightarrow> DWORD \<Rightarrow> DWORD \<times> 'w"
  GetExitCodeThread :: "'w \<Rightarrow> HANDLE \<Rightarrow> DWORD option \<times> 'w"

definition MAX_THREAD_PER_PROCESSOR :: DWORD where "MAX_THREAD_PER_PROCESSOR = 32"
definition SHUTDOWN_WAIT_TIME :: DWORD where "SHUTDOWN_WAIT_TIME = 30000"
definition WAIT_TIMEOUT :: DWORD where "WAIT_TIMEOUT = 258"
definition WAIT_FAILED :: DWORD where "WAIT_FAILED = 0xFFFFFFFF"
definition STILL_ACTIVE :: DWORD where "STILL_ACTIVE = 259"

definition new_CThreadPool :: CThreadPool where
  "new_CThreadPool = \<lparr>m_hIOCompPort = NULL_HANDLE, m_phTdArray = None, m_dwTdCount = 0\<rparr>"

definition close_handle :: "'w win32 \<Rightarrow> HANDLE \<Rightarrow> 'w glob \<Rightarrow> 'w glob" where
  "close_handle api h = sysw (\<lambda>w. snd (CloseHandle api w h))"

text \<open>The loop that makes the threads; the entry of a thread that cannot be made is \<^verbatim>\<open>NULL\<close> and the last.\<close>

fun create_threads :: "'w threadapi \<Rightarrow> HANDLE \<Rightarrow> nat \<Rightarrow> HANDLE list \<Rightarrow> 'w glob \<Rightarrow> (bool \<times> HANDLE list) \<times> 'w glob" where
  "create_threads th port 0 hs g = ((True, hs), g)"
| "create_threads th port (Suc n) hs g =
     (case sys (\<lambda>w. CreateThread th w port) g of (h, g) \<Rightarrow>
        if h = NULL_HANDLE then ((False, hs @ [h]), LogEvent POP3SVR_FAILED_TO_CREATE_THREAD g)
        else create_threads th port n (hs @ [h]) g)"

text \<open>The code from the label \<^verbatim>\<open>EXIT\<close> on: the threads that were made are terminated and their handles closed.\<close>

fun terminate_threads :: "'w win32 \<Rightarrow> 'w threadapi \<Rightarrow> HANDLE list \<Rightarrow> 'w glob \<Rightarrow> 'w glob" where
  "terminate_threads api th [] g = g"
| "terminate_threads api th (h # hs) g =
     (if h = NULL_HANDLE then g
      else terminate_threads api th hs (close_handle api h (sysw (\<lambda>w. TerminateThread th w h) g)))"

definition close_port :: "'w win32 \<Rightarrow> CThreadPool \<times> 'w glob \<Rightarrow> CThreadPool \<times> 'w glob" where
  "close_port api s = (case s of (tp, g) \<Rightarrow>
     if m_hIOCompPort tp \<noteq> NULL_HANDLE
     then (tp\<lparr>m_hIOCompPort := NULL_HANDLE\<rparr>, close_handle api (m_hIOCompPort tp) g) else (tp, g))"

definition thread_exit :: "'w win32 \<Rightarrow> 'w threadapi \<Rightarrow> CThreadPool \<times> 'w glob \<Rightarrow> bool \<times> CThreadPool \<times> 'w glob" where
  "thread_exit api th s = (case s of (tp, g) \<Rightarrow>
     (False, close_port api
       (case m_phTdArray tp of
          None \<Rightarrow> (tp, g)
        | Some hs \<Rightarrow> (tp\<lparr>m_phTdArray := None\<rparr>, terminate_threads api th hs g))))"

definition ThreadPool_Initialize :: "'w win32 \<Rightarrow> 'w threadapi \<Rightarrow> DWORD \<Rightarrow> CThreadPool \<times> 'w glob
    \<Rightarrow> bool \<times> CThreadPool \<times> 'w glob" where
  "ThreadPool_Initialize api th dwThreadPerProcessor s = (case s of (tp, g) \<Rightarrow>
     if g_bThreadPoolInit g then (True, tp, perf (SetPerfCntr e_gcFreeThreadCnt (m_dwTdCount tp)) g)
     else
       (let (dwNumberOfProcessors, g) = sys (GetSystemInfo th) g;
            per = (if dwThreadPerProcessor = 0 \<or> dwThreadPerProcessor > MAX_THREAD_PER_PROCESSOR then 1
                   else dwThreadPerProcessor);
            n = dwNumberOfProcessors * per;
            (port, g) = sys (\<lambda>w. NewCompletionPort th w n) g;
            tp = tp\<lparr>m_dwTdCount := n, m_hIOCompPort := port\<rparr>
        in if port = NULL_HANDLE
           then thread_exit api th (tp, LogEvent POP3SVR_FAIL_TO_CREATE_IO_COMP_PORT g)
           else (case sys (alloc api) g of (ok, g) \<Rightarrow>
             if \<not> ok then thread_exit api th (tp\<lparr>m_phTdArray := None\<rparr>, LogEvent POP3SVR_NOT_ENOUGH_MEMORY g)
             else (case create_threads th port (unat n) [] g of ((ok, hs), g) \<Rightarrow>
               let tp = tp\<lparr>m_phTdArray := Some hs\<rparr>
               in if \<not> ok then thread_exit api th (tp, g)
                  else (True, tp, perf (SetPerfCntr e_gcFreeThreadCnt n) (g\<lparr>g_bThreadPoolInit := True\<rparr>))))))"

text \<open>
  Ending the pool: one message for each thread, then a wait for all of them.  After a wait that did not
  end well a thread that is still active is terminated; the result is then the code the process exits with.
\<close>

fun post_shutdown :: "'w threadapi \<Rightarrow> HANDLE \<Rightarrow> nat \<Rightarrow> 'w glob \<Rightarrow> 'w glob" where
  "post_shutdown th port 0 g = g"
| "post_shutdown th port (Suc n) g = post_shutdown th port n (sysw (\<lambda>w. PostQueuedCompletionStatus th w port) g)"

fun force_threads :: "'w win32 \<Rightarrow> 'w threadapi \<Rightarrow> HANDLE list \<Rightarrow> bool \<times> 'w glob \<Rightarrow> bool \<times> 'w glob" where
  "force_threads api th [] s = s"
| "force_threads api th (h # hs) s = (case s of (bFailedExit, g) \<Rightarrow>
     force_threads api th hs
       (if h \<noteq> NULL_HANDLE then
          (case sys (\<lambda>w. GetExitCodeThread th w h) g of (code, g) \<Rightarrow>
             if code = None \<or> code = Some STILL_ACTIVE
             then (True, close_handle api h (sysw (\<lambda>w. TerminateThread th w h) g))
             else (bFailedExit, close_handle api h g))
        else (bFailedExit, g)))"

definition close_threads :: "'w win32 \<Rightarrow> HANDLE list \<Rightarrow> 'w glob \<Rightarrow> 'w glob" where
  "close_threads api hs = fold (\<lambda>h g. if h \<noteq> NULL_HANDLE then close_handle api h g else g) hs"

definition end_threads :: "'w win32 \<Rightarrow> 'w threadapi \<Rightarrow> CThreadPool \<Rightarrow> HANDLE list \<Rightarrow> 'w glob \<Rightarrow> bool \<times> 'w glob" where
  "end_threads api th tp hs g =
     (let g = post_shutdown th (m_hIOCompPort tp) (unat (m_dwTdCount tp)) g;
          (dwRt, g) = sys (\<lambda>w. WaitForThreads th w hs SHUTDOWN_WAIT_TIME) g
      in if dwRt = WAIT_TIMEOUT \<or> dwRt = WAIT_FAILED then force_threads api th hs (False, g)
         else (False, close_threads api hs g))"

definition ThreadPool_Uninitialize :: "'w win32 \<Rightarrow> 'w threadapi \<Rightarrow> CThreadPool \<times> 'w glob
    \<Rightarrow> HRESULT option \<times> CThreadPool \<times> 'w glob" where
  "ThreadPool_Uninitialize api th s = (case s of (tp, g) \<Rightarrow>
     if \<not> g_bThreadPoolInit g then (None, tp, g)
     else
       (let ((bFailedExit, g), tp) =
              (case m_phTdArray tp of
                 None \<Rightarrow> ((False, g), tp)
               | Some hs \<Rightarrow> (end_threads api th tp hs g, tp\<lparr>m_phTdArray := None\<rparr>));
            (tp, g) = close_port api (tp, g);
            g = g\<lparr>g_bThreadPoolInit := False\<rparr>
        in if bFailedExit then (Some E_UNEXPECTED, tp, LogEvent EVENT_POP3_SERVER_STOP_ERROR g)
           else (None, tp, g)))"

section \<open>Handles\<close>

text \<open>
  The handles of the process.  A new port and a new thread give a handle that was not open before;
  \<^verbatim>\<open>CloseHandle\<close> ends the handle and no other call here opens or closes one.
\<close>

definition handle_laws :: "'w win32 \<Rightarrow> 'w threadapi \<Rightarrow> ('w \<Rightarrow> HANDLE set) \<Rightarrow> bool" where
  "handle_laws api th hs_of \<longleftrightarrow>
     (\<forall>w n h w'. NewCompletionPort th w n = (h, w') \<longrightarrow>
        (if h = NULL_HANDLE then hs_of w' = hs_of w else h \<notin> hs_of w \<and> hs_of w' = insert h (hs_of w))) \<and>
     (\<forall>w p h w'. CreateThread th w p = (h, w') \<longrightarrow>
        (if h = NULL_HANDLE then hs_of w' = hs_of w else h \<notin> hs_of w \<and> hs_of w' = insert h (hs_of w))) \<and>
     (\<forall>w h. hs_of (snd (CloseHandle api w h)) = hs_of w - {h}) \<and>
     (\<forall>w. hs_of (snd (GetSystemInfo th w)) = hs_of w) \<and> (\<forall>w. hs_of (snd (alloc api w)) = hs_of w) \<and>
     (\<forall>w h. hs_of (TerminateThread th w h) = hs_of w) \<and> (\<forall>w h. hs_of (PostQueuedCompletionStatus th w h) = hs_of w) \<and>
     (\<forall>w hs t. hs_of (snd (WaitForThreads th w hs t)) = hs_of w) \<and>
     (\<forall>w h. hs_of (snd (GetExitCodeThread th w h)) = hs_of w)"

abbreviation (input) "handles_in hs_of g \<equiv> hs_of (g_world g)"

definition pool_empty :: "CThreadPool \<Rightarrow> 'w glob \<Rightarrow> bool" where
  "pool_empty tp g \<longleftrightarrow> m_hIOCompPort tp = NULL_HANDLE \<and> m_phTdArray tp = None \<and> \<not> g_bThreadPoolInit g"

definition owned :: "CThreadPool \<Rightarrow> HANDLE set" where
  "owned tp = ({m_hIOCompPort tp} \<union> set (case m_phTdArray tp of None \<Rightarrow> [] | Some hs \<Rightarrow> hs)) - {NULL_HANDLE}"

lemma sys_live: "sys f g = (r, g') \<Longrightarrow> f (g_world g) = (r, g_world g') \<and> g_bThreadPoolInit g' = g_bThreadPoolInit g"
  by (auto simp: sys_def split: prod.splits)

lemma close_handle_live:
  assumes "handle_laws api th hs_of"
  shows "handles_in hs_of (close_handle api h g) = handles_in hs_of g - {h}"
    "g_bThreadPoolInit (close_handle api h g) = g_bThreadPoolInit g"
  using assms by (simp_all add: handle_laws_def close_handle_def sysw_def)

lemma terminate_threads_live:
  assumes "handle_laws api th hs_of" "NULL_HANDLE \<notin> set hs"
  shows "handles_in hs_of (terminate_threads api th hs g) = handles_in hs_of g - set hs \<and>
    handles_in hs_of (terminate_threads api th (hs @ [NULL_HANDLE]) g) = handles_in hs_of g - set hs \<and>
    g_bThreadPoolInit (terminate_threads api th (hs @ [NULL_HANDLE]) g) = g_bThreadPoolInit g"
  using assms(2)
proof (induction hs arbitrary: g)
  case (Cons h hs)
  let ?g = "close_handle api h (sysw (\<lambda>w. TerminateThread th w h) g)"
  have "handles_in hs_of ?g = handles_in hs_of g - {h}" "g_bThreadPoolInit ?g = g_bThreadPoolInit g"
    using assms(1) close_handle_live [OF assms(1)] by (simp_all add: handle_laws_def sysw_def)
  then show ?case using Cons.IH [of ?g] Cons.prems by auto
qed simp

lemma create_threads_live:
  assumes "handle_laws api th hs_of" "create_threads th port n hs g = ((ok, hs'), g')" "NULL_HANDLE \<notin> set hs"
  shows "\<exists>new. handles_in hs_of g' = handles_in hs_of g \<union> set new \<and> handles_in hs_of g \<inter> set new = {} \<and> distinct new \<and>
    NULL_HANDLE \<notin> set new \<and> g_bThreadPoolInit g' = g_bThreadPoolInit g \<and>
    (if ok then hs' = hs @ new \<and> length new = n else hs' = hs @ new @ [NULL_HANDLE])"
  using assms(2,3)
proof (induction n arbitrary: hs g)
  case 0
  then show ?case by (auto intro!: exI [of _ "[]"])
next
  case (Suc n)
  obtain h g1 where s: "sys (\<lambda>w. CreateThread th w port) g = (h, g1)" by fastforce
  have law: "if h = NULL_HANDLE then handles_in hs_of g1 = handles_in hs_of g
      else h \<notin> handles_in hs_of g \<and> handles_in hs_of g1 = insert h (handles_in hs_of g)"
    using assms(1) sys_live [OF s] unfolding handle_laws_def by metis
  show ?case
  proof (cases "h = NULL_HANDLE")
    case True
    then have "hs' = hs @ [NULL_HANDLE]" "g' = LogEvent POP3SVR_FAILED_TO_CREATE_THREAD g1" "\<not> ok"
      "handles_in hs_of g1 = handles_in hs_of g" using Suc.prems(1) s law by auto
    then show ?thesis using sys_live [OF s] by (intro exI [of _ "[]"]) (simp add: LogEvent_def emit_def)
  next
    case False
    have run: "create_threads th port n (hs @ [h]) g1 = ((ok, hs'), g')" using Suc.prems(1) s False by simp
    have "NULL_HANDLE \<notin> set (hs @ [h])" using Suc.prems(2) False by simp
    from Suc.IH [OF run this] obtain new where new: "handles_in hs_of g' = handles_in hs_of g1 \<union> set new"
      "handles_in hs_of g1 \<inter> set new = {}" "distinct new" "NULL_HANDLE \<notin> set new" "g_bThreadPoolInit g' = g_bThreadPoolInit g1"
      "if ok then hs' = (hs @ [h]) @ new \<and> length new = n else hs' = (hs @ [h]) @ new @ [NULL_HANDLE]"
      by (elim exE conjE)
    have "h \<notin> handles_in hs_of g" "handles_in hs_of g1 = insert h (handles_in hs_of g)" using law False by simp_all
    with new show ?thesis using False sys_live [OF s] by (intro exI [of _ "h # new"] conjI) (auto split: if_splits)
  qed
qed

lemma close_port_live:
  assumes "handle_laws api th hs_of" "close_port api (tp, g) = (tp', g')"
  shows "handles_in hs_of g' = handles_in hs_of g - ({m_hIOCompPort tp} - {NULL_HANDLE})" "m_hIOCompPort tp' = NULL_HANDLE"
    "m_phTdArray tp' = m_phTdArray tp" "g_bThreadPoolInit g' = g_bThreadPoolInit g"
  using assms(2) close_handle_live [OF assms(1)] by (auto simp: close_port_def split: if_splits)

lemma thread_exit_live:
  assumes "handle_laws api th hs_of" "thread_exit api th (tp, g) = (ok, tp', g')" "\<not> g_bThreadPoolInit g"
    "m_phTdArray tp = None \<or> (\<exists>hs. m_phTdArray tp = Some (hs @ [NULL_HANDLE]) \<and> NULL_HANDLE \<notin> set hs)"
  shows "\<not> ok \<and> pool_empty tp' g' \<and> handles_in hs_of g' = handles_in hs_of g - owned tp"
  using assms(4)
proof
  assume "m_phTdArray tp = None"
  then show ?thesis
    using assms close_port_live [OF assms(1)] by (auto simp: thread_exit_def pool_empty_def owned_def)
next
  assume "\<exists>hs. m_phTdArray tp = Some (hs @ [NULL_HANDLE]) \<and> NULL_HANDLE \<notin> set hs"
  then obtain hs where hs: "m_phTdArray tp = Some (hs @ [NULL_HANDLE])" "NULL_HANDLE \<notin> set hs" by blast
  let ?g = "terminate_threads api th (hs @ [NULL_HANDLE]) g"
  have c: "close_port api (tp\<lparr>m_phTdArray := None\<rparr>, ?g) = (tp', g')" and ok: "\<not> ok"
    using assms(2) hs(1) by (auto simp: thread_exit_def)
  note c = close_port_live [OF assms(1) c]
  have t: "handles_in hs_of ?g = handles_in hs_of g - set hs" "\<not> g_bThreadPoolInit ?g"
    using terminate_threads_live [OF assms(1) hs(2), of g] assms(3) by simp_all
  have "pool_empty tp' g'" using c t(2) by (simp add: pool_empty_def)
  moreover have "handles_in hs_of g' = handles_in hs_of g - owned tp" using c(1) t(1) hs by (auto simp: owned_def)
  ultimately show ?thesis using ok by blast
qed

lemma force_threads_live:
  assumes "handle_laws api th hs_of" "force_threads api th hs (b, g) = (b', g')"
  shows "handles_in hs_of g' = handles_in hs_of g - (set hs - {NULL_HANDLE}) \<and> g_bThreadPoolInit g' = g_bThreadPoolInit g"
  using assms(2)
proof (induction hs arbitrary: b g)
  case (Cons h hs)
  obtain b1 g1 where f: "force_threads api th hs (b1, g1) = (b', g')" and
    h: "handles_in hs_of g1 = handles_in hs_of g - ({h} - {NULL_HANDLE})" "g_bThreadPoolInit g1 = g_bThreadPoolInit g"
  proof (cases "h = NULL_HANDLE")
    case True
    then show thesis using Cons.prems that [of b g] by simp
  next
    case False
    obtain code g2 where s: "sys (\<lambda>w. GetExitCodeThread th w h) g = (code, g2)" by fastforce
    have g2: "handles_in hs_of g2 = handles_in hs_of g" "g_bThreadPoolInit g2 = g_bThreadPoolInit g"
      using sys_live [OF s] assms(1) unfolding handle_laws_def by (metis snd_conv, simp)
    let ?t = "sysw (\<lambda>w. TerminateThread th w h) g2"
    have t: "handles_in hs_of ?t = handles_in hs_of g2" "g_bThreadPoolInit ?t = g_bThreadPoolInit g2"
      using assms(1) by (simp_all add: handle_laws_def sysw_def)
    show thesis
      using Cons.prems False s g2 t close_handle_live [OF assms(1)] that [of True "close_handle api h ?t"]
        that [of b "close_handle api h g2"] by (auto split: if_splits)
  qed
  from Cons.IH [OF f] h show ?case by auto
qed simp

lemma close_threads_live:
  assumes "handle_laws api th hs_of"
  shows "handles_in hs_of (close_threads api hs g) = handles_in hs_of g - (set hs - {NULL_HANDLE}) \<and>
    g_bThreadPoolInit (close_threads api hs g) = g_bThreadPoolInit g"
proof (induction hs arbitrary: g)
  case (Cons h hs)
  then show ?case using close_handle_live [OF assms] by (auto simp: close_threads_def)
qed (simp add: close_threads_def)

lemma post_shutdown_live:
  assumes "handle_laws api th hs_of"
  shows "handles_in hs_of (post_shutdown th port n g) = handles_in hs_of g \<and>
    g_bThreadPoolInit (post_shutdown th port n g) = g_bThreadPoolInit g"
  using assms by (induction n arbitrary: g) (simp_all add: handle_laws_def sysw_def)

lemma end_threads_live:
  assumes "handle_laws api th hs_of" "end_threads api th tp hs g = (b, g')"
  shows "handles_in hs_of g' = handles_in hs_of g - (set hs - {NULL_HANDLE}) \<and> g_bThreadPoolInit g' = g_bThreadPoolInit g"
proof -
  let ?g = "post_shutdown th (m_hIOCompPort tp) (unat (m_dwTdCount tp)) g"
  obtain r g1 where s: "sys (\<lambda>w. WaitForThreads th w hs SHUTDOWN_WAIT_TIME) ?g = (r, g1)" by fastforce
  have "handles_in hs_of g1 = handles_in hs_of ?g" "g_bThreadPoolInit g1 = g_bThreadPoolInit ?g"
    using sys_live [OF s] assms(1) unfolding handle_laws_def by (metis snd_conv, simp)
  then show ?thesis
    using assms(2) s post_shutdown_live [OF assms(1), of _ _ g] force_threads_live [OF assms(1)] close_threads_live [OF assms(1)]
    by (auto simp: end_threads_def Let_def split: if_splits)
qed

lemma sys_handles:
  assumes "sys f g = (r, g')" "\<And>w. hs_of (snd (f w)) = hs_of w"
  shows "handles_in hs_of g' = handles_in hs_of g" "g_bThreadPoolInit g' = g_bThreadPoolInit g"
  using sys_live [OF assms(1)] assms(2) [of "g_world g"] by simp_all

lemma LogEvent_handles [simp]:
  "g_world (LogEvent i g) = g_world g" "g_bThreadPoolInit (LogEvent i g) = g_bThreadPoolInit g"
  by (simp_all add: LogEvent_def emit_def)

lemma ThreadPool_Initialize_handles:
  assumes law: "handle_laws api th hs_of" and e: "pool_empty tp g"
    and i: "ThreadPool_Initialize api th per (tp, g) = (ok, tp1, g1)"
  shows "if ok then handles_in hs_of g1 = handles_in hs_of g \<union> owned tp1 \<and> handles_in hs_of g \<inter> owned tp1 = {} \<and>
      g_bThreadPoolInit g1 \<and> (\<exists>hs n. m_phTdArray tp1 = Some hs \<and> distinct (m_hIOCompPort tp1 # hs) \<and>
        length hs = unat (m_dwTdCount tp1) \<and> n = fst (GetSystemInfo th (g_world g)) \<and>
        m_dwTdCount tp1 = (if 1 \<le> per \<and> per \<le> 32 then n * per else n))
    else handles_in hs_of g1 = handles_in hs_of g \<and> pool_empty tp1 g1"
proof -
  let ?per = "if per = 0 \<or> per > MAX_THREAD_PER_PROCESSOR then 1 else per"
  obtain n ga where a: "sys (GetSystemInfo th) g = (n, ga)" by fastforce
  obtain port gb where b: "sys (\<lambda>w. NewCompletionPort th w (n * ?per)) ga = (port, gb)" by fastforce
  obtain room gc where c: "sys (alloc api) gb = (room, gc)" by fastforce
  obtain made hs gd where d: "create_threads th port (unat (n * ?per)) [] gc = ((made, hs), gd)" by (metis surj_pair)
  have h: "handles_in hs_of ga = handles_in hs_of g" "handles_in hs_of gc = handles_in hs_of gb"
    using sys_handles(1) [OF a] sys_handles(1) [OF c] law by (auto simp: handle_laws_def)
  have port: "if port = NULL_HANDLE then handles_in hs_of gb = handles_in hs_of ga
      else port \<notin> handles_in hs_of ga \<and> handles_in hs_of gb = insert port (handles_in hs_of ga)"
    using law sys_live [OF b] unfolding handle_laws_def by metis
  have init: "\<not> g_bThreadPoolInit g" "\<not> g_bThreadPoolInit ga" "\<not> g_bThreadPoolInit gb" "\<not> g_bThreadPoolInit gc"
    using e sys_live [OF a] sys_live [OF b] sys_live [OF c] by (simp_all add: pool_empty_def)
  have n: "n = fst (GetSystemInfo th (g_world g))" using sys_live [OF a] by simp
  let ?tp = "tp\<lparr>m_dwTdCount := n * ?per, m_hIOCompPort := port\<rparr>"
  consider "port = NULL_HANDLE" | "port \<noteq> NULL_HANDLE" "\<not> room" | "port \<noteq> NULL_HANDLE" room by blast
  then show ?thesis
  proof cases
    case 1
    then have x: "thread_exit api th (?tp, LogEvent POP3SVR_FAIL_TO_CREATE_IO_COMP_PORT gb) = (ok, tp1, g1)"
      using i init(1) a b by (simp add: ThreadPool_Initialize_def Let_def)
    have "m_phTdArray ?tp = None" using e by (simp add: pool_empty_def)
    then show ?thesis
      using thread_exit_live [OF law x] init(3) port h 1 by (simp add: owned_def)
  next
    case 2
    then have x: "thread_exit api th (?tp\<lparr>m_phTdArray := None\<rparr>, LogEvent POP3SVR_NOT_ENOUGH_MEMORY gc) = (ok, tp1, g1)"
      using i init(1) a b c by (simp add: ThreadPool_Initialize_def Let_def)
    then show ?thesis
      using thread_exit_live [OF law x] init(4) port h 2 by (simp add: owned_def)
  next
    case 3
    obtain new where new: "handles_in hs_of gd = handles_in hs_of gc \<union> set new" "handles_in hs_of gc \<inter> set new = {}"
      "distinct new" "NULL_HANDLE \<notin> set new" "g_bThreadPoolInit gd = g_bThreadPoolInit gc"
      "if made then hs = [] @ new \<and> length new = unat (n * ?per) else hs = [] @ new @ [NULL_HANDLE]"
      using create_threads_live [OF law d, of] unfolding list.set empty_iff not_False_eq_True by fast
    let ?tq = "?tp\<lparr>m_phTdArray := Some hs\<rparr>"
    have p: "port \<notin> handles_in hs_of g" "handles_in hs_of gc = insert port (handles_in hs_of g)" using port h 3 by simp_all
    show ?thesis
    proof (cases made)
      case True
      then have r: "ok" "tp1 = ?tq" "g1 = perf (SetPerfCntr e_gcFreeThreadCnt (n * ?per)) (gd\<lparr>g_bThreadPoolInit := True\<rparr>)"
        using i init(1) a b c d 3 by (simp_all add: ThreadPool_Initialize_def Let_def)
      have own: "owned tp1 = insert port (set new)" using r(2) new(4,6) True 3(1) by (auto simp: owned_def)
      have w: "handles_in hs_of g1 = handles_in hs_of gd" "g_bThreadPoolInit g1" using r(3) by (simp_all add: perf_def)
      have per: "?per = (if 1 \<le> per \<and> per \<le> 32 then per else 1)"
        by (auto simp: MAX_THREAD_PER_PROCESSOR_def simp flip: linorder_not_less)
      have "m_dwTdCount tp1 = (if 1 \<le> per \<and> per \<le> 32 then n * per else n)"
        unfolding r(2) per by simp
      moreover have "m_phTdArray tp1 = Some new" "distinct (m_hIOCompPort tp1 # new)" "length new = unat (m_dwTdCount tp1)"
        using r(2) new(2,3,6) p(2) True by auto
      moreover have "handles_in hs_of g1 = handles_in hs_of g \<union> owned tp1" "handles_in hs_of g \<inter> owned tp1 = {}"
        using own w(1) new(1,2) p by auto
      ultimately show ?thesis using r(1) w(2) n by (simp only: if_True) blast
    next
      case False
      then have x: "thread_exit api th (?tq, gd) = (ok, tp1, g1)"
        using i init(1) a b c d 3 by (simp add: ThreadPool_Initialize_def Let_def)
      have hs: "hs = new @ [NULL_HANDLE]" using new(6) False by simp
      have own: "owned ?tq = insert port (set new)" using hs new(4) 3(1) by (auto simp: owned_def)
      have "\<not> ok \<and> pool_empty tp1 g1 \<and> handles_in hs_of g1 = handles_in hs_of gd - owned ?tq"
        by (rule thread_exit_live [OF law x]) (use init(4) new(4,5) hs in auto)
      moreover have "handles_in hs_of gd - owned ?tq = handles_in hs_of g" using own p new(1,2) by auto
      ultimately show ?thesis by simp
    qed
  qed
qed

lemma ThreadPool_Uninitialize_handles:
  assumes law: "handle_laws api th hs_of" and u: "ThreadPool_Uninitialize api th (tp, g) = (ex, tp', g')"
    and i: "g_bThreadPoolInit g \<or> pool_empty tp g"
  shows "handles_in hs_of g' = handles_in hs_of g - owned tp \<and> pool_empty tp' g'"
proof (cases "g_bThreadPoolInit g")
  case False
  then show ?thesis using u i by (auto simp: ThreadPool_Uninitialize_def pool_empty_def owned_def)
next
  case True
  obtain hs where hs: "hs = (case m_phTdArray tp of None \<Rightarrow> [] | Some hs \<Rightarrow> hs)" by simp
  define tq where "tq = tp\<lparr>m_phTdArray := None\<rparr>"
  have tq: "m_phTdArray tp = None \<Longrightarrow> tp = tq" by (cases tp) (simp add: tq_def)
  obtain b g1 where e: "(case m_phTdArray tp of None \<Rightarrow> (False, g) | Some hs \<Rightarrow> end_threads api th tp hs g) = (b, g1)" by fastforce
  have g1: "handles_in hs_of g1 = handles_in hs_of g - (set hs - {NULL_HANDLE})"
    using e hs end_threads_live [OF law] by (auto split: option.splits)
  obtain tp2 g2 where c: "close_port api (tq, g1) = (tp2, g2)" by fastforce
  have cN: "m_phTdArray tp = None \<Longrightarrow> close_port api (tp, g1) = (tp2, g2)" using c tq by metis
  have "tp' = tp2 \<and> (g' = g2\<lparr>g_bThreadPoolInit := False\<rparr> \<or> g' = LogEvent EVENT_POP3_SERVER_STOP_ERROR (g2\<lparr>g_bThreadPoolInit := False\<rparr>))"
    using u True e c cN by (cases "m_phTdArray tp") (auto simp: ThreadPool_Uninitialize_def Let_def tq_def split: if_splits)
  then show ?thesis
    using g1 close_port_live [OF law c] hs by (auto simp: pool_empty_def owned_def tq_def)
qed

text \<open>
  C24.  The thread pool leaks no handle.  \<^verbatim>\<open>Initialize\<close> on a pool without threads makes all its threads or
  none: when it succeeds the pool owns new handles, one for the port and one for each of its
  \<^verbatim>\<open>m_dwTdCount\<close> threads, whose number is the number of processors times the configured number, or once
  that number when it is not between 1 and 32; when it fails every handle it made is closed and the pool
  is empty again.  A later \<^verbatim>\<open>Uninitialize\<close>, in whatever state the process is then, closes exactly the handles
  the pool owns and leaves it empty, also when threads had to be terminated by force.
\<close>

theorem ThreadPool_handles:
  assumes "handle_laws api th hs_of" "pool_empty tp g" "ThreadPool_Initialize api th dwThreadPerProcessor (tp, g) = (ok, tp1, g1)"
  shows "(if ok then handles_in hs_of g1 = handles_in hs_of g \<union> owned tp1 \<and> handles_in hs_of g \<inter> owned tp1 = {} \<and>
            g_bThreadPoolInit g1 \<and> (\<exists>hs n. m_phTdArray tp1 = Some hs \<and> distinct (m_hIOCompPort tp1 # hs) \<and>
              length hs = unat (m_dwTdCount tp1) \<and> n = fst (GetSystemInfo th (g_world g)) \<and>
              m_dwTdCount tp1 = (if 1 \<le> dwThreadPerProcessor \<and> dwThreadPerProcessor \<le> 32
                                 then n * dwThreadPerProcessor else n))
          else handles_in hs_of g1 = handles_in hs_of g \<and> pool_empty tp1 g1) \<and>
    (\<forall>g2 ex tp3 g3. g_bThreadPoolInit g2 = ok \<longrightarrow> ThreadPool_Uninitialize api th (tp1, g2) = (ex, tp3, g3) \<longrightarrow>
       handles_in hs_of g3 = handles_in hs_of g2 - owned tp1 \<and> pool_empty tp3 g3)"
  using ThreadPool_Initialize_handles [OF assms] ThreadPool_Uninitialize_handles [OF assms(1), of tp1]
  by (auto split: if_splits simp: pool_empty_def)

section \<open>The laws hold\<close>

definition sim_new_handle :: "sim \<Rightarrow> HANDLE \<times> sim" where
  "sim_new_handle w = (let h = foldr max (map fst (sim_open w)) 0 + 1 in (h, w\<lparr>sim_open := (h, [], 0) # sim_open w\<rparr>))"

definition sim_threads :: "sim threadapi" where
  "sim_threads = \<lparr>GetSystemInfo = Pair 2, NewCompletionPort = (\<lambda>w n. sim_new_handle w),
     CreateThread = (\<lambda>w p. sim_new_handle w), TerminateThread = (\<lambda>w h. w), PostQueuedCompletionStatus = (\<lambda>w h. w),
     WaitForThreads = (\<lambda>w hs t. (WAIT_TIMEOUT, w)), GetExitCodeThread = (\<lambda>w h. (Some STILL_ACTIVE, w))\<rparr>"

definition sim_handles :: "sim \<Rightarrow> HANDLE set" where "sim_handles w = fst ` set (sim_open w)"

lemma foldr_max_ge: "(h :: int) \<in> set hs \<Longrightarrow> h \<le> foldr max hs 0"
  by (induction hs) (auto simp: le_max_iff_disj)

lemma sim_new_handle_laws:
  assumes "sim_new_handle w = (h, w')"
  shows "h \<notin> sim_handles w \<and> sim_handles w' = insert h (sim_handles w)"
proof -
  have h: "h = foldr max (map fst (sim_open w)) 0 + 1" "w' = w\<lparr>sim_open := (h, [], 0) # sim_open w\<rparr>"
    using assms by (auto simp: sim_new_handle_def Let_def)
  have "h \<notin> set (map fst (sim_open w))" using foldr_max_ge h(1) by fastforce
  then show ?thesis using h(2) by (simp add: sim_handles_def)
qed

lemma sim_close_handles: "sim_handles (snd (sim_close w h)) = sim_handles w - {h}"
  by (auto simp: sim_close_def sim_fail_def sim_handles_def map_of_eq_None_iff image_iff split: option.splits)

lemma sim_handle_laws: "handle_laws sim_api sim_threads sim_handles"
proof -
  have "h \<noteq> 0" if "sim_new_handle w = (h, w')" for w h w'
  proof -
    have "0 \<le> foldr max hs (0 :: int)" for hs by (induction hs) auto
    from this [of "map fst (sim_open w)"] show ?thesis using that by (auto simp: sim_new_handle_def Let_def)
  qed
  then show ?thesis
    using sim_new_handle_laws by (simp add: handle_laws_def sim_threads_def sim_close_handles) (simp add: sim_api_def sim_close_handles)
qed

lemma demo_threads:
  "fst (ThreadPool_Initialize sim_api sim_threads 2 (new_CThreadPool, demo_glob\<lparr>g_bThreadPoolInit := False\<rparr>)) = True"
  by code_simp

theorem ThreadPool_handles_witness:
  "\<exists>tp1 g1 ex tp3 g3. ThreadPool_Initialize sim_api sim_threads 2 (new_CThreadPool, demo_glob\<lparr>g_bThreadPoolInit := False\<rparr>) = (True, tp1, g1) \<and>
     m_dwTdCount tp1 = 4 \<and> ThreadPool_Uninitialize sim_api sim_threads (tp1, g1) = (ex, tp3, g3) \<and>
     sim_handles (g_world g3) = sim_handles (g_world demo_glob) \<and> pool_empty tp3 g3"
proof -
  let ?g = "demo_glob\<lparr>g_bThreadPoolInit := False\<rparr>"
  have e: "pool_empty new_CThreadPool ?g" by (simp add: pool_empty_def new_CThreadPool_def)
  obtain tp1 g1 where i: "ThreadPool_Initialize sim_api sim_threads 2 (new_CThreadPool, ?g) = (True, tp1, g1)"
    using demo_threads by (metis prod.collapse)
  obtain ex tp3 g3 where u: "ThreadPool_Uninitialize sim_api sim_threads (tp1, g1) = (ex, tp3, g3)" by (metis surj_pair)
  note t = ThreadPool_handles [OF sim_handle_laws e i]
  then have "m_dwTdCount tp1 = 4" "g_bThreadPoolInit g1" "sim_handles (g_world g1) = sim_handles (g_world ?g) \<union> owned tp1"
    "sim_handles (g_world ?g) \<inter> owned tp1 = {}" by (auto simp: sim_threads_def)
  moreover from this have "sim_handles (g_world g3) = sim_handles (g_world g1) - owned tp1" "pool_empty tp3 g3" using t u by auto
  ultimately show ?thesis using i u by auto
qed

end
