(* ===== verification/Pool_Lists.thy ===== *)
theory Pool_Lists
  imports Pop3_Session
begin

text \<open>
  The two lists of connections and the counters of the socket pool together: the free list and the busy
  list share one heap of links, a context is in at most one of them, and the pool counts what is in them.
  The operations of the pool keep this; they always return.
\<close>

section \<open>Two lists over the same links\<close>

definition two :: "CIOList \<Rightarrow> CIOList \<Rightarrow> links \<Rightarrow> lref list \<Rightarrow> lref list \<Rightarrow> bool" where
  "two l1 l2 lk xs ys \<longleftrightarrow> holds (l1, lk) xs \<and> holds (l2, lk) ys \<and>
     set (m_ListHead l1 # xs) \<inter> set (m_ListHead l2 # ys) = {}"

lemma two_sym: "two l1 l2 lk xs ys \<longleftrightarrow> two l2 l1 lk ys xs"
  by (auto simp: two_def)

lemma two_append:
  assumes "two l1 l2 lk xs ys" "p \<notin> set (m_ListHead l1 # xs)" "p \<notin> set (m_ListHead l2 # ys)" "p \<noteq> LNull"
    "Suc (length xs) < 4294967296"
  shows "\<exists>l1' lk'. AppendToList p (l1, lk) = Some (l1', lk') \<and> two l1' l2 lk' (xs @ [p]) ys \<and>
    m_ListHead l1' = m_ListHead l1"
proof -
  have h: "holds (l1, lk) xs" "holds (l2, lk) ys" using assms(1) by (simp_all add: two_def)
  obtain l' lk' where a: "AppendToList p (l1, lk) = Some (l', lk')" "holds (l', lk') (xs @ [p])"
      "m_ListHead l' = m_ListHead l1"
      "\<forall>q. q \<notin> set (m_ListHead l1 # xs) \<union> {p} \<longrightarrow> Flink lk' q = Flink lk q \<and> Blink lk' q = Blink lk q"
    using AppendToList_holds [OF h(1) assms(2,4,5)] by blast
  have "holds (l2, lk') ys"
    by (rule holds_frame [OF h(2)]) (use a(4) assms(1,3) in \<open>auto simp: two_def\<close>)
  then show ?thesis using a(1-3) assms(1,3) by (auto simp: two_def)
qed

lemma two_remove:
  assumes "two l1 l2 lk xs ys" "p \<in> set xs"
  shows "\<exists>l1' lk'. RemoveFromList p (l1, lk) = Some (ERROR_SUCCESS, l1', lk') \<and>
    two l1' l2 lk' (remove1 p xs) ys \<and> m_ListHead l1' = m_ListHead l1"
proof -
  obtain as bs where x: "xs = as @ p # bs" "p \<notin> set as" using split_list_first [OF assms(2)] by blast
  then have r1: "remove1 p xs = as @ bs" by (simp add: remove1_append)
  have h: "holds (l1, lk) (as @ p # bs)" "holds (l2, lk) ys" using assms(1) x(1) by (simp_all add: two_def)
  obtain l' lk' where a: "RemoveFromList p (l1, lk) = Some (ERROR_SUCCESS, l', lk')" "holds (l', lk') (as @ bs)"
      "m_ListHead l' = m_ListHead l1"
      "\<forall>q. q \<notin> set (m_ListHead l1 # as @ p # bs) \<longrightarrow> Flink lk' q = Flink lk q \<and> Blink lk' q = Blink lk q"
    using RemoveFromList_holds [OF h(1)] by blast
  have "q \<notin> set (m_ListHead l1 # as @ p # bs)" if "q \<in> set (m_ListHead l2 # ys)" for q
    using that assms(1) unfolding two_def x(1) by blast
  then have "holds (l2, lk') ys" using holds_frame [OF h(2)] a(4) by blast
  then show ?thesis using a(1-3) assms(1) x(1) r1 by (auto simp: two_def)
qed

section \<open>The lists of the service\<close>

definition lists_ok :: "nat list \<Rightarrow> nat list \<Rightarrow> 'w glob \<Rightarrow> bool" where
  "lists_ok fs bs g \<longleftrightarrow> m_ListHead (g_FreeList g) = LHead True \<and> m_ListHead (g_BusyList g) = LHead False \<and>
     two (g_FreeList g) (g_BusyList g) (g_links g) (map LEntry fs) (map LEntry bs) \<and>
     (\<forall>a \<in> set (fs @ bs). a < g_nextAddr g)"

lemma lists_ok_frame: "frame g' = frame g \<Longrightarrow> lists_ok fs bs g' = lists_ok fs bs g"
  by (simp add: lists_ok_def frame_def)

lemma lists_ok_distinct: "lists_ok fs bs g \<Longrightarrow> distinct fs \<and> distinct bs \<and> set fs \<inter> set bs = {}"
  by (auto simp: lists_ok_def two_def holds_def ring_def distinct_map)

lemma lists_ok_other [simp]:
  "lists_ok fs bs (g\<lparr>g_SocketPool := p\<rparr>) = lists_ok fs bs g" "lists_ok fs bs (g\<lparr>g_heap := h\<rparr>) = lists_ok fs bs g"
  "lists_ok fs bs (add_total d g) = lists_ok fs bs g" "lists_ok fs bs (add_free d g) = lists_ok fs bs g"
  "lists_ok fs bs (on_pool f g) = lists_ok fs bs g" "lists_ok fs bs (perf q g) = lists_ok fs bs g"
  "lists_ok fs bs (LogEvent i g) = lists_ok fs bs g" "lists_ok fs bs (emit e g) = lists_ok fs bs g"
  "lists_ok fs bs (g\<lparr>g_world := w\<rparr>) = lists_ok fs bs g"
  by (simp_all add: lists_ok_def add_total_def add_free_def on_pool_def perf_def LogEvent_def emit_def)

lemma lists_ok_next: "lists_ok fs bs g \<Longrightarrow> g_nextAddr g \<le> n \<Longrightarrow> lists_ok fs bs (g\<lparr>g_nextAddr := n\<rparr>)"
  unfolding lists_ok_def by (auto dest: order_less_le_trans)

text \<open>What an operation on the lists leaves alone: the contexts, the addresses and the counts.\<close>

definition same_pool :: "'w glob \<Rightarrow> 'w glob \<Rightarrow> bool" where
  "same_pool g g' \<longleftrightarrow> g_heap g' = g_heap g \<and> g_nextAddr g' = g_nextAddr g \<and> g_SocketPool g' = g_SocketPool g \<and>
     g_dwServerStatus g' = g_dwServerStatus g"

lemma same_pool_trans [trans]: "same_pool a b \<Longrightarrow> same_pool b c \<Longrightarrow> same_pool a c"
  by (simp add: same_pool_def)

lemma frame_same_pool: "frame g' = frame g \<Longrightarrow> same_pool g g' \<and> g_BusyList g' = g_BusyList g \<and> lists_ok fs bs g' = lists_ok fs bs g"
  by (simp add: same_pool_def frame_def lists_ok_def)

lemma AppendToFree_ok:
  assumes "lists_ok fs bs g" "a \<notin> set fs" "a \<notin> set bs" "a < g_nextAddr g" "Suc (length fs) < 4294967296"
  shows "\<exists>g'. AppendToFree a g = Some g' \<and> lists_ok (fs @ [a]) bs g' \<and> same_pool g g' \<and> g_BusyList g' = g_BusyList g"
proof -
  have "\<exists>l1' lk'. AppendToList (LEntry a) (g_FreeList g, g_links g) = Some (l1', lk') \<and>
      two l1' (g_BusyList g) lk' (map LEntry fs @ [LEntry a]) (map LEntry bs) \<and> m_ListHead l1' = m_ListHead (g_FreeList g)"
    by (rule two_append) (use assms in \<open>auto simp: lists_ok_def\<close>)
  then show ?thesis using assms(1,4) by (auto simp: AppendToFree_def lists_ok_def same_pool_def)
qed

lemma AppendToBusy_ok:
  assumes "lists_ok fs bs g" "a \<notin> set fs" "a \<notin> set bs" "a < g_nextAddr g" "Suc (length bs) < 4294967296"
  shows "\<exists>g'. AppendToBusy a g = Some g' \<and> lists_ok fs (bs @ [a]) g' \<and> same_pool g g'"
proof -
  have "\<exists>l1' lk'. AppendToList (LEntry a) (g_BusyList g, g_links g) = Some (l1', lk') \<and>
      two l1' (g_FreeList g) lk' (map LEntry bs @ [LEntry a]) (map LEntry fs) \<and> m_ListHead l1' = m_ListHead (g_BusyList g)"
    by (rule two_append) (use assms in \<open>auto simp: lists_ok_def two_sym\<close>)
  then show ?thesis using assms(1,4) by (auto simp: AppendToBusy_def lists_ok_def same_pool_def two_sym)
qed

lemma remove1_LEntry: "remove1 (LEntry a) (map LEntry xs) = map LEntry (remove1 a xs)"
  by (induction xs) auto

lemma RemoveFromFree_ok:
  assumes "lists_ok fs bs g" "a \<in> set fs"
  shows "\<exists>g'. RemoveFromFree a g = Some (ERROR_SUCCESS, g') \<and> lists_ok (remove1 a fs) bs g' \<and> same_pool g g' \<and>
    g_BusyList g' = g_BusyList g"
proof -
  have "\<exists>l1' lk'. RemoveFromList (LEntry a) (g_FreeList g, g_links g) = Some (ERROR_SUCCESS, l1', lk') \<and>
      two l1' (g_BusyList g) lk' (remove1 (LEntry a) (map LEntry fs)) (map LEntry bs) \<and>
      m_ListHead l1' = m_ListHead (g_FreeList g)"
    by (rule two_remove) (use assms in \<open>auto simp: lists_ok_def\<close>)
  then show ?thesis
    using assms(1)
    by (auto dest!: subsetD [OF set_remove1_subset] simp: RemoveFromFree_def lists_ok_def same_pool_def remove1_LEntry)
qed

lemma RemoveFromBusy_ok:
  assumes "lists_ok fs bs g" "a \<in> set bs"
  shows "\<exists>g'. RemoveFromBusy a g = Some (ERROR_SUCCESS, g') \<and> lists_ok fs (remove1 a bs) g' \<and> same_pool g g'"
proof -
  have "\<exists>l1' lk'. RemoveFromList (LEntry a) (g_BusyList g, g_links g) = Some (ERROR_SUCCESS, l1', lk') \<and>
      two l1' (g_FreeList g) lk' (remove1 (LEntry a) (map LEntry bs)) (map LEntry fs) \<and>
      m_ListHead l1' = m_ListHead (g_BusyList g)"
    by (rule two_remove) (use assms in \<open>auto simp: lists_ok_def two_sym\<close>)
  then show ?thesis
    using assms(1)
    by (auto dest!: subsetD [OF set_remove1_subset] simp: RemoveFromBusy_def lists_ok_def same_pool_def remove1_LEntry two_sym)
qed

section \<open>The operations of the pool\<close>

text \<open>A socket is never 0: the one thing the counting of sockets needs of the system.\<close>

definition sockets_valid :: "'w win32 \<Rightarrow> bool" where
  "sockets_valid api \<longleftrightarrow> (\<forall>w. fst (WSASocket api w) \<noteq> NULL_HANDLE)"

definition waiting :: "IO_CONTEXT \<Rightarrow> bool" where
  "waiting ioc \<longleftrightarrow> m_hAsyncIO ioc \<noteq> NULL_HANDLE \<and> m_ConType ioc = CONNECTION_SOCKET \<and> m_lLock ioc = UNLOCKED"

lemma CreateAcceptSocket_lists:
  assumes "lists_ok fs bs g" "a \<notin> set fs" "a \<notin> set bs" "a < g_nextAddr g" "Suc (length fs) < 4294967296"
  shows "\<exists>ok ioc' g'. CreateAcceptSocket api a (ioc, g) = Some (ok, ioc', g') \<and> same_pool g g' \<and>
    lists_ok (if ok then fs @ [a] else fs) bs g' \<and> g_BusyList g' = g_BusyList g \<and>
    (ok \<and> sockets_valid api \<longrightarrow> waiting ioc')"
proof -
  obtain sNew g1 where s: "sys (WSASocket api) g = (sNew, g1)" by fastforce
  have valid: "sockets_valid api \<Longrightarrow> sNew \<noteq> NULL_HANDLE"
    using s by (auto simp: sockets_valid_def sys_def split: prod.splits) (metis fst_conv)
  have f1: "frame g1 = frame g" using sys_perf [OF s] by simp
  note g1 = frame_same_pool [OF f1, of fs bs]
  show ?thesis
  proof (cases "sNew = INVALID_HANDLE_VALUE")
    case True
    then have "CreateAcceptSocket api a (ioc, g) = Some (False, ioc, LogEvent POP3SVR_FAILED_TO_CREATE_SOCKET g1)"
      using s by (simp add: CreateAcceptSocket_def)
    moreover have f: "frame (LogEvent POP3SVR_FAILED_TO_CREATE_SOCKET g1) = frame g" using f1 by simp
    ultimately show ?thesis using frame_same_pool [OF f, of fs bs] assms(1) by auto
  next
    case False
    let ?ioc = "ioc\<lparr>m_hAsyncIO := sNew, m_ConType := CONNECTION_SOCKET, m_lLock := UNLOCKED\<rparr>"
    have "lists_ok fs bs g1" "a < g_nextAddr g1" using assms(1,4) g1 by (simp_all add: same_pool_def)
    from AppendToFree_ok [OF this(1) assms(2,3) this(2) assms(5)]
    obtain g2 where g2: "AppendToFree a g1 = Some g2" "lists_ok (fs @ [a]) bs g2" "same_pool g1 g2"
      "g_BusyList g2 = g_BusyList g1" by blast
    define r where "r = (case AssociateContext api ?ioc g2 of (ok, g) \<Rightarrow>
        if \<not> ok then (False, g)
        else (case sys (\<lambda>w. AcceptEx api w (m_sMainSocket (g_SocketPool g)) sNew) g of (ok, g) \<Rightarrow>
          if ok then (True, g)
          else if WSAGetLastError api (g_world g) \<noteq> ERROR_IO_PENDING
          then (False, LogEvent POP3SVR_CALL_ACCEPTEX_FAILED g)
          else (True, g)))"
    obtain ok g3 where r: "r = (ok, g3)" by fastforce
    have f3: "frame g3 = frame g2"
      using r unfolding r_def AssociateContext_def by (auto split: if_splits prod.splits dest!: sys_perf)
    note g3 = frame_same_pool [OF f3, of "fs @ [a]" bs]
    have run: "CreateAcceptSocket api a (ioc, g) = (if ok then Some (True, ?ioc, g3) else do {
        (_, g) \<leftarrow> RemoveFromFree a (emit (Closed sNew) (sysw (\<lambda>w. closesocket api w sNew) g3));
        Some (False, ?ioc, g) })"
    proof -
      obtain k x where k: "AssociateContext api ?ioc g2 = (k, x)" by fastforce
      obtain k' x' where k': "sys (\<lambda>w. AcceptEx api w (m_sMainSocket (g_SocketPool x)) sNew) x = (k', x')" by fastforce
      have "(if \<not> k then (False, x) else if k' then (True, x')
          else if WSAGetLastError api (g_world x') \<noteq> ERROR_IO_PENDING
          then (False, LogEvent POP3SVR_CALL_ACCEPTEX_FAILED x') else (True, x')) = (ok, g3)"
        using r unfolding r_def k prod.case k' .
      then show ?thesis
        using s False g2(1) by (cases k; cases k') (auto simp: CreateAcceptSocket_def Let_def k k' split: if_splits)
    qed
    show ?thesis
    proof (cases ok)
      case True
      then show ?thesis
        using run g1 g2 g3 valid by (auto simp: waiting_def intro: same_pool_trans)
    next
      case fail: False
      let ?g4 = "emit (Closed sNew) (sysw (\<lambda>w. closesocket api w sNew) g3)"
      have f4: "frame ?g4 = frame g2" using f3 by simp
      note g4 = frame_same_pool [OF f4, of "fs @ [a]" bs]
      have "lists_ok (fs @ [a]) bs ?g4" using g4 g2(2) by blast
      from RemoveFromFree_ok [OF this, of a] obtain g5 where g5: "RemoveFromFree a ?g4 = Some (ERROR_SUCCESS, g5)"
        "lists_ok (remove1 a (fs @ [a])) bs g5" "same_pool ?g4 g5" "g_BusyList g5 = g_BusyList ?g4" by auto
      have "remove1 a (fs @ [a]) = fs" using assms(2) by (simp add: remove1_append)
      moreover have "same_pool g g5" using g1 g2(3) g4 g5(3) same_pool_trans by blast
      ultimately show ?thesis using run fail g5 g1 g2(4) g4 by auto
    qed
  qed
qed

subsection \<open>Adding sockets\<close>

text \<open>A context as \<^verbatim>\<open>Reset\<close> leaves it, with an empty mailbox.\<close>

definition fresh_ctx :: "POP3_CONTEXT \<Rightarrow> bool" where
  "fresh_ctx ctx \<longleftrightarrow> m_dwCurrentState ctx = INIT_STATE \<and> m_bCommandComplete ctx \<and> m_dwFailedAuthCount ctx = 0 \<and>
     mb_inv (m_MailBox ctx) \<and> m_cMailCount (m_MailBox ctx) = 0"

text \<open>
  The contexts at the addresses \<^term>\<open>ns\<close> are new: they are at the end of the free list, counted as free,
  and wait for a connection; everything else is as it was.
\<close>

definition added :: "'w win32 \<Rightarrow> nat list \<Rightarrow> nat list \<Rightarrow> 'w glob \<Rightarrow> nat list \<Rightarrow> 'w glob \<Rightarrow> bool" where
  "added api fs bs g ns g' \<longleftrightarrow> lists_ok (fs @ ns) bs g' \<and> g_BusyList g' = g_BusyList g \<and>
     free_sockets g' = free_sockets g + int (length ns) \<and> total_sockets g' = total_sockets g + int (length ns) \<and>
     max_sockets g' = max_sockets g \<and> g_dwServerStatus g' = g_dwServerStatus g \<and> g_nextAddr g \<le> g_nextAddr g' \<and>
     (total_sockets g \<le> max_sockets g \<longrightarrow> total_sockets g' \<le> max_sockets g) \<and>
     (\<forall>a. a \<notin> set ns \<longrightarrow> g_heap g' a = g_heap g a) \<and>
     (\<forall>a \<in> set ns. g_nextAddr g \<le> a \<and> (\<exists>ioc ctx. g_heap g' a = Some (ioc, ctx) \<and> fresh_ctx ctx \<and>
        (sockets_valid api \<longrightarrow> waiting ioc)))"

lemma added_refl: "lists_ok fs bs g \<Longrightarrow> added api fs bs g [] g"
  by (simp add: added_def)

lemma added_trans:
  assumes "added api fs bs g ns h" "added api (fs @ ns) bs h ms g'"
  shows "added api fs bs g (ns @ ms) g'"
proof -
  have "\<forall>a \<in> set ns. a < g_nextAddr h" using assms(1) by (simp add: added_def lists_ok_def)
  moreover have "\<forall>a \<in> set ms. g_nextAddr h \<le> a" using assms(2) by (simp add: added_def)
  ultimately have "\<forall>a \<in> set ns. a \<notin> set ms" by fastforce
  then show ?thesis using assms unfolding added_def by auto
qed

lemma added_undo:
  assumes "lists_ok fs bs h" "g_heap h = g_heap g" "g_nextAddr g \<le> g_nextAddr h" "g_BusyList h = g_BusyList g"
    "g_SocketPool h = g_SocketPool (add_total 1 g)" "g_dwServerStatus h = g_dwServerStatus g"
  shows "added api fs bs g [] (add_total (-1) h)"
  using assms by (simp add: added_def add_total_def on_pool_def)

lemma added_one:
  assumes "lists_ok (fs @ [a]) bs h" "g_heap h = g_heap g" "g_nextAddr g \<le> g_nextAddr h" "g_BusyList h = g_BusyList g"
    "g_SocketPool h = g_SocketPool (add_total 1 g)" "g_dwServerStatus h = g_dwServerStatus g"
    "total_sockets g < max_sockets g" "g_nextAddr g \<le> a" "fresh_ctx ctx" "sockets_valid api \<longrightarrow> waiting ioc"
  shows "added api fs bs g [a] (add_free 1 (h\<lparr>g_heap := (g_heap h)(a := Some (ioc, ctx))\<rparr>))"
  using assms by (simp add: added_def add_total_def add_free_def on_pool_def)

lemma new_POP3_CONTEXT_fresh:
  assumes "new_POP3_CONTEXT api g = (ctx, g')"
  shows "fresh_ctx ctx \<and> frame g' = frame g"
proof -
  obtain a where "Cleanup api (new_CAuthServer, g) = (a, g')"
    "m_MailBox ctx = new_CMailBox" "m_dwCurrentState ctx = INIT_STATE" "m_bCommandComplete ctx"
    "m_dwFailedAuthCount ctx = 0"
    using assms by (auto simp: new_POP3_CONTEXT_def ResetContext_def raw_POP3_CONTEXT_def split: prod.splits)
  moreover have "mb_inv new_CMailBox" "m_cMailCount new_CMailBox = 0"
    by (simp_all add: new_CMailBox_inv) (simp add: new_CMailBox_def)
  ultimately show ?thesis using Cleanup_frame by (auto simp: fresh_ctx_def)
qed

lemma AddSocketsP_lists:
  assumes "lists_ok fs bs g" "free_sockets g = int (length fs)" "free_sockets g \<le> total_sockets g"
    "max_sockets g < 2147483648"
  shows "\<exists>ok g' ns. AddSocketsP api n g = Some (ok, g') \<and> added api fs bs g ns g'"
  using assms
proof (induction n arbitrary: g fs)
  case 0
  then show ?case using added_refl [OF 0(1)] by auto
next
  case (Suc n)
  let ?g0 = "add_total 1 g"
  obtain k1 g1 k2 g2 where al: "sys (alloc api) ?g0 = (k1, g1)" "sys (alloc api) g1 = (k2, g2)" by fastforce
  obtain ctx g3 where nc: "new_POP3_CONTEXT api g2 = (ctx, g3)" by fastforce
  have fr: "frame g1 = frame ?g0" "frame g2 = frame ?g0" "frame g3 = frame ?g0" "fresh_ctx ctx"
    using sys_perf [OF al(1)] sys_perf [OF al(2)] new_POP3_CONTEXT_fresh [OF nc] by simp_all
  have undo: "added api fs bs g [] (add_total (-1) h)" if "frame h = frame ?g0" for h
    by (rule added_undo) (use that Suc.prems(1) frame_same_pool [OF that, of fs bs] in
      \<open>simp_all add: frame_def same_pool_def add_total_def on_pool_def\<close>)
  consider "g_dwServerStatus g \<noteq> SERVICE_RUNNING \<and> g_dwServerStatus g \<noteq> SERVICE_START_PENDING"
    | "g_dwServerStatus g = SERVICE_RUNNING \<or> g_dwServerStatus g = SERVICE_START_PENDING"
      "max_sockets g < total_sockets g + 1"
    | "g_dwServerStatus g = SERVICE_RUNNING \<or> g_dwServerStatus g = SERVICE_START_PENDING"
      "total_sockets g < max_sockets g"
    by fastforce
  then show ?case
  proof cases
    case 1
    then show ?thesis using added_refl [OF Suc.prems(1)] by auto
  next
    case 2
    then show ?thesis using undo [of ?g0] by auto
  next
    case 3
    show ?thesis
    proof (cases "k1 \<and> k2")
      case False
      let ?log = "LogEvent POP3SVR_NOT_ENOUGH_MEMORY"
      have "AddSocketsP api (Suc n) g = Some (False, add_total (-1) (?log g1)) \<or>
          AddSocketsP api (Suc n) g = Some (False, add_total (-1) (?log g2))"
        using 3 al False by (auto simp: Let_def)
      moreover have "added api fs bs g [] (add_total (-1) (?log g1))" "added api fs bs g [] (add_total (-1) (?log g2))"
        using undo [of "?log g1"] undo [of "?log g2"] fr(1,2) by simp_all
      ultimately show ?thesis by blast
    next
      case True
      let ?a = "g_nextAddr g3"
      let ?g4 = "g3\<lparr>g_nextAddr := Suc ?a\<rparr>"
      have a: "?a = g_nextAddr g" "g_heap g3 = g_heap g" "g_BusyList g3 = g_BusyList g" "lists_ok fs bs g3"
        "g_SocketPool g3 = g_SocketPool ?g0" "g_dwServerStatus g3 = g_dwServerStatus g"
        using fr(3) Suc.prems(1) by (simp_all add: frame_def lists_ok_def add_total_def on_pool_def)
      have l4: "lists_ok fs bs ?g4" using lists_ok_next [OF a(4)] by simp
      have "?a \<notin> set fs" "?a \<notin> set bs" using a(4) by (auto simp: lists_ok_def)
      moreover have "Suc (length fs) < 4294967296" using Suc.prems 3(2) by linarith
      ultimately obtain ok ioc g5 where c: "CreateAcceptSocket api ?a (raw_IO_CONTEXT, ?g4) = Some (ok, ioc, g5)"
        "same_pool ?g4 g5" "lists_ok (if ok then fs @ [?a] else fs) bs g5" "g_BusyList g5 = g_BusyList ?g4"
        "ok \<and> sockets_valid api \<longrightarrow> waiting ioc"
        using CreateAcceptSocket_lists [OF l4, of ?a api raw_IO_CONTEXT] by auto
      have p5: "g_heap g5 = g_heap g" "g_nextAddr g \<le> g_nextAddr g5" "g_BusyList g5 = g_BusyList g"
        "g_SocketPool g5 = g_SocketPool ?g0" "g_dwServerStatus g5 = g_dwServerStatus g"
        using c(2,4) a by (simp_all add: same_pool_def)
      show ?thesis
      proof (cases ok)
        case no: False
        then have "AddSocketsP api (Suc n) g = Some (False, add_total (-1) g5)"
          using 3 al nc True c(1) by (auto simp: Let_def)
        moreover have "added api fs bs g [] (add_total (-1) g5)"
          by (rule added_undo) (use p5 c(3) no in simp_all)
        ultimately show ?thesis by blast
      next
        case ok: True
        let ?g6 = "add_free 1 (g5\<lparr>g_heap := (g_heap g5)(?a := Some (ioc, ctx))\<rparr>)"
        have one: "added api fs bs g [?a] ?g6"
          by (rule added_one) (use p5 c(3,5) ok fr(4) 3(2) a(1) in simp_all)
        have step: "AddSocketsP api (Suc n) g =
            (if total_sockets ?g6 \<ge> max_sockets ?g6 then Some (True, ?g6) else AddSocketsP api n ?g6)"
          using 3 al nc True c(1) ok by (auto simp: Let_def)
        have "\<exists>ok g' ns. AddSocketsP api n ?g6 = Some (ok, g') \<and> added api (fs @ [?a]) bs ?g6 ns g'"
          by (rule Suc.IH) (use one Suc.prems in \<open>auto simp: added_def\<close>)
        then show ?thesis using step one added_trans by (metis (no_types, lifting))
      qed
    qed
  qed
qed

lemma added_on_pool:
  "added api fs bs (on_pool (m_lAddThreadToken_update (\<lambda>_. x)) g) ns g' = added api fs bs g ns g'"
  "added api fs bs g ns (on_pool (m_lAddThreadToken_update (\<lambda>_. x)) g') = added api fs bs g ns g'"
  by (simp_all add: added_def lists_ok_def on_pool_def)

lemma AddSockets_lists:
  assumes "lists_ok fs bs g" "free_sockets g = int (length fs)" "free_sockets g \<le> total_sockets g"
    "max_sockets g < 2147483648"
  shows "\<exists>ok g' ns. AddSockets api g = Some (ok, g') \<and> added api fs bs g ns g'"
proof (cases "g_dwServerStatus g = SERVICE_RUNNING \<and> m_lAddThreadToken (g_SocketPool g) \<noteq> 0")
  case True
  let ?g = "on_pool (m_lAddThreadToken_update (\<lambda>_. 0)) g"
  have "\<exists>ok g' ns. AddSocketsP api (as_DWORD (threshold g)) ?g = Some (ok, g') \<and> added api fs bs ?g ns g'"
    by (rule AddSocketsP_lists) (use assms in \<open>simp_all add: on_pool_def lists_ok_def\<close>)
  then obtain ok g' ns where r: "AddSocketsP api (as_DWORD (threshold g)) ?g = Some (ok, g')" "added api fs bs g ns g'"
    by (auto simp: added_on_pool)
  have "AddSockets api g = Some (ok, on_pool (m_lAddThreadToken_update (\<lambda>_. 1)) g')"
    using True r(1) by (simp add: AddSockets_def)
  then show ?thesis using r(2) added_on_pool(2) by blast
next
  case False
  then show ?thesis using added_refl [OF assms(1)] by (auto simp: AddSockets_def)
qed

text \<open>A socket is closed: the pool counts one less, and fills itself up again when none is left.\<close>

lemma DecrementTotalSocketCount_lists:
  assumes "lists_ok fs bs g" "free_sockets g = int (length fs)" "free_sockets g < total_sockets g"
    "max_sockets g < 2147483648"
  shows "\<exists>g' ns. DecrementTotalSocketCount api g = Some g' \<and> added api fs bs (add_total (-1) g) ns g'"
proof -
  have "\<exists>ok g' ns. AddSockets api (add_total (-1) g) = Some (ok, g') \<and> added api fs bs (add_total (-1) g) ns g'"
    by (rule AddSockets_lists) (use assms in simp_all)
  then show ?thesis
    using added_refl [of fs bs "add_total (-1) g" api] assms(1) by (auto simp: DecrementTotalSocketCount_def Let_def)
qed

lemma DecrementFreeSocketCount_lists:
  assumes "lists_ok fs bs g" "free_sockets g = int (length fs) + 1" "free_sockets g \<le> total_sockets g"
    "max_sockets g < 2147483648"
  shows "\<exists>g' ns. DecrementFreeSocketCount api g = Some g' \<and> added api fs bs (add_free (-1) g) ns g'"
proof -
  have "\<exists>ok g' ns. AddSockets api (add_free (-1) g) = Some (ok, g') \<and> added api fs bs (add_free (-1) g) ns g'"
    by (rule AddSockets_lists) (use assms in simp_all)
  then show ?thesis
    using added_refl [of fs bs "add_free (-1) g" api] assms(1) by (auto simp: DecrementFreeSocketCount_def Let_def)
qed

end
