(* ===== verification/Svc_Invariant.thy ===== *)
theory Svc_Invariant
  imports Pool_Lists Io_CallBack
begin

text \<open>
  The service as a whole: the free and the busy list, the contexts in them and the counts of the pool
  agree, whatever completions, time-out checks and connections come.
\<close>

section \<open>The invariant\<close>

definition open_at :: "'w glob \<Rightarrow> nat \<Rightarrow> bool" where
  "open_at g a = (case g_heap g a of Some (ioc, ctx) \<Rightarrow> m_hAsyncIO ioc \<noteq> NULL_HANDLE | None \<Rightarrow> False)"

definition ctx_inv :: "nat \<Rightarrow> IO_CONTEXT \<times> POP3_CONTEXT \<Rightarrow> bool" where
  "ctx_inv L c \<longleftrightarrow> conn_inv L (\<lparr>this = snd c, io = fst c, gl = demo_glob\<rparr>)"

lemma ctx_inv_conn: "ctx_inv L (io s, this s) = conn_inv L s"
  by (simp add: ctx_inv_def conn_inv_def conn_sound_def)

definition svc_inv :: "nat \<Rightarrow> nat list \<Rightarrow> nat list \<Rightarrow> 'w glob \<Rightarrow> bool" where
  "svc_inv L fs bs g \<longleftrightarrow> lists_ok fs bs g \<and> free_sockets g = int (length fs) \<and>
     total_sockets g = int (length fs) + int (length (filter (open_at g) bs)) \<and>
     total_sockets g \<le> max_sockets g \<and> max_sockets g < 2147483648 \<and>
     (\<forall>a \<in> set fs. \<exists>ioc ctx. g_heap g a = Some (ioc, ctx) \<and> waiting ioc \<and> fresh_ctx ctx) \<and>
     (\<forall>a \<in> set bs. \<exists>c. g_heap g a = Some c \<and> ctx_inv L c)"

lemma svc_inv_frame: "frame g' = frame g \<Longrightarrow> svc_inv L fs bs g' = svc_inv L fs bs g"
  by (simp add: svc_inv_def frame_def lists_ok_def open_at_def [abs_def])

lemma put_conn_simps [simp]:
  "g_heap (put_conn a s) = (g_heap (gl s))(a \<mapsto> (io s, this s))" "lists_ok fs bs (put_conn a s) = lists_ok fs bs (gl s)"
  "g_SocketPool (put_conn a s) = g_SocketPool (gl s)" "g_BusyList (put_conn a s) = g_BusyList (gl s)"
  "g_links (put_conn a s) = g_links (gl s)" "g_dwServerStatus (put_conn a s) = g_dwServerStatus (gl s)"
  by (simp_all add: put_conn_def lists_ok_def)

lemma filter_flip:
  assumes "distinct xs" "a \<in> set xs" "P a" "\<not> Q a" "\<And>b. b \<in> set xs \<Longrightarrow> b \<noteq> a \<Longrightarrow> Q b = P b"
  shows "length (filter P xs) = Suc (length (filter Q xs))"
  using assms
proof (induction xs)
  case (Cons x xs)
  show ?case
  proof (cases "x = a")
    case True
    then have "filter P xs = filter Q xs" using Cons.prems by (intro filter_cong) auto
    then show ?thesis using True Cons.prems by simp
  next
    case False
    then have "length (filter P xs) = Suc (length (filter Q xs))" using Cons by auto
    then show ?thesis using False Cons.prems(5) [of x] by simp
  qed
qed simp

section \<open>A connection that a thread has worked on\<close>

text \<open>
  A thread takes the context at \<^term>\<open>a\<close> of the busy list, works on it, and puts it back: either nothing of
  the pool changed, or the connection was closed and the pool may have new sockets.
\<close>

lemma svc_inv_put_still:
  assumes "svc_inv L fs bs g" "a \<in> set bs" "frame (gl s) = frame g" "conn_inv L s" "is_open s = open_at g a"
  shows "svc_inv L fs bs (put_conn a s)"
proof -
  have h: "g_heap (gl s) = g_heap g" using assms(3) by (simp add: frame_def)
  have "a \<notin> set fs" using assms(1,2) lists_ok_distinct [of fs bs g] by (auto simp: svc_inv_def)
  moreover have "open_at (put_conn a s) = open_at g" "open_at (gl s) = open_at g"
    using assms(5) h by (auto simp: open_at_def fun_eq_iff)
  moreover have "svc_inv L fs bs (gl s)" using assms(1,3) svc_inv_frame by blast
  ultimately show ?thesis
    using assms(2,4) h by (auto simp: svc_inv_def ctx_inv_conn)
qed

lemma svc_inv_put_closed:
  assumes "svc_inv L fs bs g" "a \<in> set bs" "open_at g a" "sockets_valid api"
    "frame g1 = frame g" "DecrementTotalSocketCount api g1 = Some g2" "frame (gl s) = frame g2"
    "conn_inv L s" "\<not> is_open s"
  shows "\<exists>ns. svc_inv L (fs @ ns) bs (put_conn a s) \<and> g_BusyList (gl s) = g_BusyList g \<and>
    (\<forall>b \<in> set bs. b \<noteq> a \<longrightarrow> g_heap (put_conn a s) b = g_heap g b)"
proof -
  have inv: "svc_inv L fs bs g1" using assms(1,5) svc_inv_frame by blast
  have h1: "g_heap g1 = g_heap g" "g_BusyList g1 = g_BusyList g" using assms(5) by (simp_all add: frame_def)
  have dis: "distinct bs" "a \<notin> set fs" using assms(1,2) lists_ok_distinct [of fs bs g] by (auto simp: svc_inv_def)
  have "filter (open_at g) bs \<noteq> []" using assms(2,3) by (auto simp: filter_empty_conv)
  then have pos: "free_sockets g1 < total_sockets g1"
    using inv h1 by (auto simp: svc_inv_def open_at_def [abs_def])
  obtain ns where ad: "added api fs bs (add_total (-1) g1) ns g2"
    using DecrementTotalSocketCount_lists [of fs bs g1 api] inv pos assms(6) by (auto simp: svc_inv_def)
  have ls: "lists_ok (fs @ ns) bs g2" using ad by (simp add: added_def)
  have new: "a \<notin> set ns" "\<And>b. b \<in> set bs \<Longrightarrow> b \<notin> set ns"
    using lists_ok_distinct [OF ls] assms(2) by auto
  have hs: "g_heap (gl s) = g_heap g2" "g_BusyList (gl s) = g_BusyList g2" "g_SocketPool (gl s) = g_SocketPool g2"
    using assms(7) by (simp_all add: frame_def)
  have heap: "g_heap (put_conn a s) b = (if b = a then Some (io s, this s) else if b \<in> set ns then g_heap g2 b else g_heap g b)" for b
    using ad h1 hs by (auto simp: added_def add_total_def on_pool_def)
  have flip: "length (filter (open_at g) bs) = Suc (length (filter (open_at (put_conn a s)) bs))"
  proof (rule filter_flip [OF dis(1) assms(2)])
    show "open_at g a" by (rule assms(3))
    show "\<not> open_at (put_conn a s) a" using assms(9) by (simp add: open_at_def)
    show "open_at (put_conn a s) b = open_at g b" if "b \<in> set bs" "b \<noteq> a" for b
      using that new(2) heap [of b] by (simp add: open_at_def)
  qed
  have fs': "\<exists>ioc ctx. g_heap (put_conn a s) b = Some (ioc, ctx) \<and> waiting ioc \<and> fresh_ctx ctx"
    if "b \<in> set (fs @ ns)" for b
  proof -
    have "b \<noteq> a" using that dis(2) new(1) by auto
    then show ?thesis using that heap [of b] assms(1,4) ad by (fastforce simp: svc_inv_def added_def)
  qed
  have bs': "\<exists>c. g_heap (put_conn a s) b = Some c \<and> ctx_inv L c" if "b \<in> set bs" for b
    using that new(2) heap [of b] assms(1,8) by (auto simp: svc_inv_def ctx_inv_conn)
  have "lists_ok (fs @ ns) bs (put_conn a s)" using ls lists_ok_frame [OF assms(7)] by simp
  moreover have "free_sockets g1 = int (length fs)" "total_sockets g1 \<le> max_sockets g1" "max_sockets g1 < 2147483648"
    "total_sockets g1 = int (length fs) + int (length (filter (open_at g) bs))"
    using inv h1(1) by (simp_all add: svc_inv_def open_at_def [abs_def])
  ultimately have "svc_inv L (fs @ ns) bs (put_conn a s)"
    unfolding svc_inv_def using ad hs(3) flip fs' bs' by (simp add: added_def)
  moreover have "g_BusyList (gl s) = g_BusyList g" using hs(2) ad h1(2) by (simp add: added_def add_total_def on_pool_def)
  moreover have "\<forall>b \<in> set bs. b \<noteq> a \<longrightarrow> g_heap (put_conn a s) b = g_heap g b" by (metis heap new(2))
  ultimately show ?thesis by blast
qed

lemma svc_inv_put:
  assumes "svc_inv L fs bs g" "a \<in> set bs" "frame (gl s) = frame g" "is_open s = open_at g a"
    "moved api s s'" "conn_inv L s'" "sockets_valid api"
  shows "\<exists>ns. svc_inv L (fs @ ns) bs (put_conn a s') \<and> g_BusyList (gl s') = g_BusyList g \<and>
    (\<forall>b \<in> set bs. b \<noteq> a \<longrightarrow> g_heap (put_conn a s') b = g_heap g b)"
proof (cases "is_open s' = is_open s \<and> frame (gl s') = frame (gl s)")
  case True
  then have "frame (gl s') = frame g" "is_open s' = open_at g a" using assms(3,4) by simp_all
  from svc_inv_put_still [OF assms(1,2) this(1) assms(6) this(2)] this(1) show ?thesis
    by (intro exI [of _ "[]"]) (simp add: frame_def)
next
  case False
  then obtain g1 g2 where "is_open s" "\<not> is_open s'" "frame g1 = frame (gl s)"
    "DecrementTotalSocketCount api g1 = Some g2" "frame (gl s') = frame g2"
    using assms(5) unfolding moved_def by blast
  then show ?thesis using svc_inv_put_closed [OF assms(1,2) _ assms(7), of g1 g2 s'] assms(3,4,6) by simp
qed

section \<open>Ending a connection always succeeds\<close>

text \<open>What the end of a connection makes of its context.\<close>

definition ended :: "IO_CONTEXT \<times> POP3_CONTEXT \<Rightarrow> IO_CONTEXT \<times> POP3_CONTEXT \<Rightarrow> bool" where
  "ended c c' \<longleftrightarrow> (\<exists>box. m_cMailCount box = 0 \<and> m_MailVector box = None \<and> snd c' = (snd c)\<lparr>m_MailBox := box\<rparr>) \<and>
     fst c' = (fst c)\<lparr>m_hAsyncIO := NULL_HANDLE, m_ConType := (if m_bFileTransmitPending (snd c) then m_ConType (fst c)
       else DELETE_PENDING)\<rparr>"

lemma TerminateConnection_returns:
  assumes "svc_inv L fs bs g" "a \<in> set bs" "frame (gl s) = frame g" "is_open s = open_at g a" "conn_inv L s"
    "m_ConType (io s) \<noteq> DELETE_PENDING"
  shows "\<exists>s'. TerminateConnection api s = Some s' \<and> ended (io s, this s) (io s', this s')"
proof -
  let ?box = "new_CMailBox\<lparr>m_bMailBoxOpened := m_bMailBoxOpened (box_of s)\<rparr>"
  obtain w where q: "QuitAndClose api (box_of s, g_world (gl s)) = Some (?box, w)"
    using QuitAndClose_box [of "box_of s" api "g_world (gl s)"] assms(5) unfolding conn_inv_def conn_sound_def by blast
  let ?g = "emit (Closed (m_hAsyncIO (io s))) (sysw (\<lambda>w. closesocket api w (m_hAsyncIO (io s))) ((gl s)\<lparr>g_world := w\<rparr>))"
  have fr: "frame ?g = frame g" using assms(3) by simp
  then have inv: "svc_inv L fs bs ?g" using assms(1) svc_inv_frame by blast
  have dec: "\<exists>g'. DecrementTotalSocketCount api ?g = Some g'" if "is_open s"
  proof -
    have "open_at ?g a" using that assms(4) fr by (simp add: open_at_def frame_def)
    then have "filter (open_at ?g) bs \<noteq> []" using assms(2) by (auto simp: filter_empty_conv)
    then have "free_sockets ?g < total_sockets ?g" using inv unfolding svc_inv_def by simp
    then show ?thesis using DecrementTotalSocketCount_lists [of fs bs ?g api] inv unfolding svc_inv_def by auto
  qed
  have box: "m_cMailCount ?box = 0" "m_MailVector ?box = None" by (simp_all add: new_CMailBox_def)
  show ?thesis
  proof (cases "is_open s")
    case True
    then obtain g' where "DecrementTotalSocketCount api ?g = Some g'" using dec by blast
    then show ?thesis
      using True q box assms(6)
      by (auto simp: TerminateConnection_def box_call_opt_def Let_def on_io_def on_gl_def ended_def
          split: pop3_state.splits intro!: exI [of _ ?box])
  next
    case False
    then show ?thesis
      using q box assms(6)
      by (auto simp: TerminateConnection_def box_call_opt_def Let_def on_io_def ended_def intro!: exI [of _ ?box])
  qed
qed

section \<open>The time-out scan\<close>

abbreviation "cursor g \<equiv> m_pCursor (g_BusyList g)"

lemma advance_next:
  assumes "svc_inv L fs (pre @ a # post) g" "cursor g = LEntry a"
  shows "svc_inv L fs (pre @ a # post) (advance g)" "cursor (advance g) = hd (map LEntry post @ [LHead False])"
    "g_heap (advance g) = g_heap g"
proof -
  let ?l = "g_BusyList g" and ?bs = "map LEntry (pre @ a # post)"
  have l: "lists_ok fs (pre @ a # post) g" using assms(1) by (simp add: svc_inv_def)
  then have h: "holds (?l, g_links g) ?bs" "m_ListHead ?l = LHead False" by (simp_all add: lists_ok_def two_def)
  then have "linked (g_links g) ((LHead False # map LEntry pre) @ LEntry a # map LEntry post @ [LHead False])"
    by (simp add: holds_def ring_def)
  then have "linked (g_links g) (LEntry a # map LEntry post @ [LHead False])" using linked_append by blast
  then have n: "Flink (g_links g) (LEntry a) = hd (map LEntry post @ [LHead False])" by (cases post) auto
  then show c: "cursor (advance g) = hd (map LEntry post @ [LHead False])" by (simp add: advance_def assms(2))
  have "hd (map LEntry post @ [LHead False]) \<in> set (LHead False # ?bs)" by (cases post) auto
  then have "holds (g_BusyList (advance g), g_links (advance g)) ?bs"
    using h n by (simp add: holds_def advance_def assms(2))
  then have "lists_ok fs (pre @ a # post) (advance g)" using l by (auto simp: lists_ok_def two_def advance_def)
  then show "svc_inv L fs (pre @ a # post) (advance g)"
    using assms(1) by (simp add: svc_inv_def advance_def open_at_def [abs_def])
  show "g_heap (advance g) = g_heap g" by (simp add: advance_def)
qed

text \<open>What the scan makes of one context, at the time that the system clock shows then.\<close>

definition checked :: "'w win32 \<Rightarrow> DWORD \<Rightarrow> IO_CONTEXT \<times> POP3_CONTEXT \<Rightarrow> IO_CONTEXT \<times> POP3_CONTEXT \<Rightarrow> bool" where
  "checked api interval c c' \<longleftrightarrow>
     (if m_lLock (fst c) \<noteq> UNLOCKED \<or> m_ConType (fst c) = DELETE_PENDING then c' = c
      else \<exists>w. if timed_out (idle_time (fst (GetTickCount api w)) (fst c)) interval (snd c) then ended c c'
               else c' = c)"

text \<open>One turn of the scan, at the context \<^term>\<open>a\<close> of the busy list.\<close>

definition scan_step :: "'w win32 \<Rightarrow> DWORD \<Rightarrow> nat \<Rightarrow> nat list \<Rightarrow> nat list \<Rightarrow> nat \<Rightarrow> nat list \<Rightarrow> 'w glob \<Rightarrow> 'w glob \<Rightarrow> bool" where
  "scan_step api interval L fs pre a post g g' \<longleftrightarrow>
     (\<exists>ns. svc_inv L (fs @ ns) (pre @ a # post) g') \<and> cursor g' = hd (map LEntry post @ [LHead False]) \<and>
     (\<exists>c c'. g_heap g a = Some c \<and> g_heap g' a = Some c' \<and> checked api interval c c') \<and>
     (\<forall>b \<in> set (pre @ post). g_heap g' b = g_heap g b)"

lemma scan_step_still:
  assumes "svc_inv L fs (pre @ a # post) g" "cursor g = LEntry a" "g_heap g a = Some c" "checked api interval c c"
  shows "scan_step api interval L fs pre a post g (advance g)"
  using advance_next [OF assms(1,2)] assms(3,4) unfolding scan_step_def by (metis append_Nil2)

lemma scan_step_put:
  assumes "svc_inv L fs (pre @ a # post) g" "cursor g = LEntry a" "g_heap g a = Some c"
    "frame (gl s) = frame (advance g)" "is_open s = open_at g a" "moved api s s'" "conn_inv L s'" "sockets_valid api"
    "checked api interval c (io s', this s')"
  shows "scan_step api interval L fs pre a post g (put_conn a s')"
proof -
  note adv = advance_next [OF assms(1,2)]
  have op: "is_open s = open_at (advance g) a" using assms(5) adv(3) by (simp add: open_at_def)
  have "a \<in> set (pre @ a # post)" by simp
  then obtain ns where ns: "svc_inv L (fs @ ns) (pre @ a # post) (put_conn a s')"
      "g_BusyList (gl s') = g_BusyList (advance g)"
      "\<forall>b \<in> set (pre @ a # post). b \<noteq> a \<longrightarrow> g_heap (put_conn a s') b = g_heap (advance g) b"
    using svc_inv_put [OF adv(1) _ assms(4) op assms(6-8)] by blast
  have "a \<notin> set (pre @ post)"
    using lists_ok_distinct [of fs "pre @ a # post" g] assms(1) by (simp add: svc_inv_def)
  then have "\<forall>b \<in> set (pre @ post). g_heap (put_conn a s') b = g_heap g b" using ns(3) adv(3) by auto
  moreover have "cursor (put_conn a s') = hd (map LEntry post @ [LHead False])" using ns(2) adv(2) by simp
  ultimately show ?thesis using ns(1) assms(3,9) unfolding scan_step_def by auto
qed

lemma unlock_unlocked [simp]: "m_lLock ioc = UNLOCKED \<Longrightarrow> ioc\<lparr>m_lLock := UNLOCKED\<rparr> = (ioc :: IO_CONTEXT)"
  by (cases ioc) simp

lemma unlock_ended:
  assumes "ended (ioc\<lparr>m_lLock := LOCKED_FOR_TIMEOUT\<rparr>, ctx) (ioc', ctx')" "m_lLock ioc = UNLOCKED"
  shows "ended (ioc, ctx) (ioc'\<lparr>m_lLock := UNLOCKED\<rparr>, ctx')"
  using assms by (cases ioc) (simp add: ended_def)

lemma CheckTimeOut_entry_scans:
  assumes "svc_inv L fs (pre @ a # post) g" "cursor g = LEntry a" "sockets_valid api"
  shows "\<exists>r g'. CheckTimeOut_entry api interval ((nxt, anyone), g) = Some (r, g') \<and> scan_step api interval L fs pre a post g g'"
proof -
  obtain ioc ctx where c: "g_heap g a = Some (ioc, ctx)" "ctx_inv L (ioc, ctx)"
    using assms(1) unfolding svc_inv_def by (metis in_set_conv_decomp surj_pair)
  let ?s0 = "\<lparr>this = ctx, io = ioc, gl = g\<rparr>" and ?lock = "m_lLock_update (\<lambda>_. LOCKED_FOR_TIMEOUT)"
    and ?unlock = "on_io (m_lLock_update (\<lambda>_. UNLOCKED))"
  have at: "conn_at a g = Some ?s0" using c(1) by (simp add: conn_at_def)
  have op: "open_at g a = is_open ?s0" using c(1) by (simp add: open_at_def)
  have inv0: "conn_inv L ?s0" using c(2) ctx_inv_conn [of L ?s0] by simp
  have quiet_put: "scan_step api interval L fs pre a post g (put_conn a (?unlock s))"
    if "m_lLock ioc = UNLOCKED" "checked api interval (ioc, ctx) (ioc, ctx)" "this s = ctx" "io s = ?lock ioc"
      "frame (gl s) = frame (advance g)" for s
    by (rule scan_step_put [OF assms(1,2) c(1), where s = "?unlock s"])
      (use that op inv0 assms(3) in \<open>simp_all add: conn_inv_def conn_sound_def\<close>)
  show ?thesis
  proof (cases "m_lLock ioc = UNLOCKED")
    case False
    then have "CheckTimeOut_entry api interval ((nxt, anyone), g) = Some ((nxt, anyone), advance g)"
      using at assms(2) by (simp add: CheckTimeOut_entry_def)
    moreover have "scan_step api interval L fs pre a post g (advance g)"
      using scan_step_still [OF assms(1,2) c(1)] False by (simp add: checked_def)
    ultimately show ?thesis by blast
  next
    case free: True
    let ?s1 = "on_io ?lock ?s0"
    obtain now s2 where t: "call (GetTickCount api) ?s1 = (now, s2)" by fastforce
    have s2: "this s2 = ctx" "io s2 = ?lock ioc" "frame (gl (on_gl advance s2)) = frame (advance g)"
      "now = fst (GetTickCount api (g_world g))"
      using callD [OF t] by (simp_all add: frame_def advance_def)
    define r where "r = (if m_ConType ioc = DELETE_PENDING then Some ((nxt, anyone), on_gl advance ?s1)
      else if timed_out (idle_time now ioc) interval ctx
      then do { s \<leftarrow> TimeOut api (on_gl advance s2); Some ((nxt, True), s) }
      else Some ((if nxt < idle_time now ioc then idle_time now ioc else nxt, anyone), on_gl advance s2))"
    have run: "CheckTimeOut_entry api interval ((nxt, anyone), g) = do { (r, s) \<leftarrow> r; Some (r, put_conn a (?unlock s)) }"
      using at assms(2) free t s2(1,2)
      by (auto simp: CheckTimeOut_entry_def r_def Let_def idle_time_def split: bind_splits)
    consider "m_ConType ioc = DELETE_PENDING"
      | "m_ConType ioc \<noteq> DELETE_PENDING" "\<not> timed_out (idle_time now ioc) interval ctx"
      | "m_ConType ioc \<noteq> DELETE_PENDING" "timed_out (idle_time now ioc) interval ctx" by blast
    then show ?thesis
    proof cases
      case 1
      have "scan_step api interval L fs pre a post g (put_conn a (?unlock (on_gl advance ?s1)))"
        by (rule quiet_put) (use 1 free in \<open>simp_all add: checked_def\<close>)
      then show ?thesis using run 1 by (simp add: r_def)
    next
      case 2
      have "checked api interval (ioc, ctx) (ioc, ctx)"
        using 2 s2(4) free unfolding checked_def by (auto intro!: exI [of _ "g_world g"])
      then have "scan_step api interval L fs pre a post g (put_conn a (?unlock (on_gl advance s2)))"
        using quiet_put [OF free _ _ _ s2(3)] s2(1,2) by simp
      then show ?thesis using run 2 by (simp add: r_def)
    next
      case 3
      let ?s3 = "on_gl advance s2"
      have inv3: "conn_inv L ?s3" using inv0 s2(1,2) by (simp add: conn_inv_def conn_sound_def)
      note adv = advance_next [OF assms(1,2)]
      have op3: "is_open ?s3 = open_at g a" "is_open ?s3 = open_at (advance g) a"
        using op s2(2) adv(3) by (simp_all add: open_at_def)
      have ct: "m_ConType (io ?s3) \<noteq> DELETE_PENDING" using 3(1) s2(2) by simp
      obtain s4 where s4: "TerminateConnection api ?s3 = Some s4" "ended (io ?s3, this ?s3) (io s4, this s4)"
        using TerminateConnection_returns [OF adv(1) _ s2(3) op3(2) inv3 ct] by auto
      have t4: "balanced api ?s3 s4" "conn_inv L s4" using Terminate_inv [OF s4(1) inv3] by auto
      have "moved api ?s3 (?unlock s4)"
        using t4(1) moved_trans [of api ?s3 s4 "?unlock s4"] by (simp add: balanced_def)
      moreover have "conn_inv L (?unlock s4)" using t4(2) by (simp add: conn_inv_def conn_sound_def)
      moreover have "checked api interval (ioc, ctx) (io (?unlock s4), this (?unlock s4))"
        using 3 free s2 unlock_ended [of ioc ctx "io s4" "this s4"] s4(2) unfolding checked_def
        by (auto intro!: exI [of _ "g_world g"])
      ultimately have "scan_step api interval L fs pre a post g (put_conn a (?unlock s4))"
        using scan_step_put [OF assms(1,2) c(1) s2(3) op3(1) _ _ assms(3)] by blast
      then show ?thesis using run 3 s4(1) by (auto simp: r_def TimeOut_def)
    qed
  qed
qed

lemma CheckTimeOut_loop_scans:
  assumes "svc_inv L fs (pre @ post) g" "cursor g = hd (map LEntry post @ [LHead False])" "sockets_valid api"
  shows "\<exists>r g' ns. CheckTimeOut_loop api interval (st, g) = Some (r, g') \<and> svc_inv L (fs @ ns) (pre @ post) g' \<and>
    cursor g' = LHead False \<and> (\<forall>b \<in> set pre. g_heap g' b = g_heap g b) \<and>
    (\<forall>a \<in> set post. \<exists>c c'. g_heap g a = Some c \<and> g_heap g' a = Some c' \<and> checked api interval c c')"
  using assms
proof (induction post arbitrary: pre fs g st)
  case Nil
  have "m_ListHead (g_BusyList g) = LHead False" using Nil.prems(1) by (simp add: svc_inv_def lists_ok_def)
  then have "CheckTimeOut_loop api interval (st, g) = Some (st, g)"
    using Nil.prems(2) by (simp add: CheckTimeOut_loop.simps)
  then show ?case using Nil.prems by (auto intro!: exI [of _ "[]"])
next
  case (Cons a post)
  have head: "m_ListHead (g_BusyList g) = LHead False" using Cons.prems(1) by (simp add: svc_inv_def lists_ok_def)
  have cur: "cursor g = LEntry a" using Cons.prems(2) by simp
  obtain nxt anyone where st: "st = (nxt, anyone)" by fastforce
  obtain r g1 where e: "CheckTimeOut_entry api interval (st, g) = Some (r, g1)" "scan_step api interval L fs pre a post g g1"
    using CheckTimeOut_entry_scans [OF Cons.prems(1) cur Cons.prems(3)] unfolding st by blast
  then obtain ns c c' where s1: "svc_inv L (fs @ ns) ((pre @ [a]) @ post) g1" "cursor g1 = hd (map LEntry post @ [LHead False])"
    "g_heap g a = Some c" "g_heap g1 a = Some c'" "checked api interval c c'" "\<forall>b \<in> set (pre @ post). g_heap g1 b = g_heap g b"
    unfolding scan_step_def by auto
  obtain r' g' ms where l: "CheckTimeOut_loop api interval (r, g1) = Some (r', g')"
    "svc_inv L ((fs @ ns) @ ms) ((pre @ [a]) @ post) g'" "cursor g' = LHead False"
    "\<forall>b \<in> set (pre @ [a]). g_heap g' b = g_heap g1 b"
    "\<forall>a \<in> set post. \<exists>c c'. g_heap g1 a = Some c \<and> g_heap g' a = Some c' \<and> checked api interval c c'"
    using Cons.IH [OF s1(1,2) Cons.prems(3)] by blast
  have "CheckTimeOut_loop api interval (st, g) = Some (r', g')"
    using cur head e(1) l(1) by (subst CheckTimeOut_loop.simps) simp
  moreover have "svc_inv L (fs @ (ns @ ms)) (pre @ a # post) g'" using l(2) by simp
  moreover have "\<forall>b \<in> set pre. g_heap g' b = g_heap g b" using l(4) s1(6) by simp
  moreover have "\<forall>a' \<in> set (a # post). \<exists>c c'. g_heap g a' = Some c \<and> g_heap g' a' = Some c' \<and> checked api interval c c'"
    using l(4,5) s1(3-6) by (cases c; cases c') auto
  ultimately show ?case using l(3) by blast
qed

lemma CheckTimeOut_scans:
  assumes "svc_inv L fs bs g" "sockets_valid api"
  shows "\<exists>next anyone' g' ns. CheckTimeOut api interval (anyone, g) = Some (next, anyone', g') \<and>
    svc_inv L (fs @ ns) bs g' \<and> cursor g' = LHead False \<and>
    (\<forall>a \<in> set bs. \<exists>c c'. g_heap g a = Some c \<and> g_heap g' a = Some c' \<and> checked api interval c c')"
proof -
  let ?l = "g_BusyList g"
  let ?g = "g\<lparr>g_BusyList := ?l\<lparr>m_pCursor := Flink (g_links g) (m_ListHead ?l)\<rparr>\<rparr>"
  have l: "lists_ok fs bs g" "m_ListHead ?l = LHead False" using assms(1) by (simp_all add: svc_inv_def lists_ok_def)
  then have ring: "linked (g_links g) (LHead False # map LEntry bs @ [LHead False])"
    by (simp add: lists_ok_def two_def holds_def ring_def)
  then have n: "Flink (g_links g) (LHead False) = hd (map LEntry bs @ [LHead False])" by (cases bs) auto
  have "hd (map LEntry bs @ [LHead False]) \<in> set (LHead False # map LEntry bs)" by (cases bs) auto
  then have "lists_ok fs bs ?g" using l n by (auto simp: lists_ok_def two_def holds_def)
  then have "svc_inv L fs ([] @ bs) ?g" using assms(1) by (simp add: svc_inv_def open_at_def [abs_def])
  moreover have "cursor ?g = hd (map LEntry bs @ [LHead False])" using l(2) n by simp
  ultimately obtain r g' ns where "CheckTimeOut_loop api interval ((0, anyone), ?g) = Some (r, g')"
    "svc_inv L (fs @ ns) ([] @ bs) g'" "cursor g' = LHead False"
    "\<forall>a \<in> set bs. \<exists>c c'. g_heap ?g a = Some c \<and> g_heap g' a = Some c' \<and> checked api interval c c'"
    using CheckTimeOut_loop_scans [of L fs "[]" bs ?g api interval "(0, anyone)"] assms(2) by blast
  then show ?thesis by (cases r) (auto simp: CheckTimeOut_def Let_def)
qed


text \<open>A service with one connection and one socket that waits for another.\<close>

definition demo_svc :: "sim glob" where
  "demo_svc = demo_glob\<lparr>
     g_FreeList := \<lparr>m_ListHead = LHead True, m_pCursor = LHead True, m_dwListCount = 1\<rparr>,
     g_BusyList := \<lparr>m_ListHead = LHead False, m_pCursor = LHead False, m_dwListCount = 1\<rparr>,
     g_links := \<lparr>
       Flink = (\<lambda>_. LNull)(LHead True := LEntry 1, LEntry 1 := LHead True, LHead False := LEntry 0, LEntry 0 := LHead False),
       Blink = (\<lambda>_. LNull)(LHead True := LEntry 1, LEntry 1 := LHead True, LHead False := LEntry 0, LEntry 0 := LHead False)\<rparr>,
     g_heap := (\<lambda>_. None)(
       0 := Some (raw_IO_CONTEXT\<lparr>m_hAsyncIO := 7, m_ConType := CONNECTION_SOCKET\<rparr>, raw_POP3_CONTEXT),
       1 := Some (raw_IO_CONTEXT\<lparr>m_hAsyncIO := 8, m_ConType := CONNECTION_SOCKET\<rparr>, raw_POP3_CONTEXT)),
     g_nextAddr := 2\<rparr>"

definition svc_api :: "sim win32" where
  "svc_api = small_api\<lparr>WSASocket := (\<lambda>w. (\<bar>sim_next w\<bar> + 1, w\<lparr>sim_next := \<bar>sim_next w\<bar> + 1\<rparr>))\<rparr>"

lemma svc_api_valid: "sockets_valid svc_api"
proof -
  have "\<bar>x\<bar> + 1 \<noteq> (0 :: int)" for x by linarith
  then show ?thesis by (simp add: sockets_valid_def svc_api_def)
qed

lemma svc_api_bounded: "dirs_bounded svc_api 1000"
  using small_api_bounded by (simp add: dirs_bounded_def svc_api_def)

lemma demo_svc_inv: "svc_inv 1000 [1] [0] demo_svc"
proof -
  have "mb_inv new_CMailBox" "m_cMailCount new_CMailBox = 0"
    by (simp_all add: new_CMailBox_inv) (simp add: new_CMailBox_def)
  then show ?thesis
    by (simp add: svc_inv_def demo_svc_def demo_glob_def lists_ok_def two_def holds_def ring_def open_at_def waiting_def
        fresh_ctx_def ctx_inv_def conn_inv_def conn_sound_def line_ok_def raw_IO_CONTEXT_def raw_POP3_CONTEXT_def)
qed


section \<open>Completions\<close>

lemma svc_inv_added:
  assumes "svc_inv L fs bs g" "added api fs bs g ns g'" "sockets_valid api"
  shows "svc_inv L (fs @ ns) bs g'"
proof -
  have ls: "lists_ok (fs @ ns) bs g'" using assms(2) by (simp add: added_def)
  then have new: "\<And>b. b \<in> set fs \<union> set bs \<Longrightarrow> b \<notin> set ns" using lists_ok_distinct [OF ls] by auto
  have heap: "g_heap g' b = g_heap g b" if "b \<in> set fs \<union> set bs" for b
    using that new assms(2) by (simp add: added_def)
  have "filter (open_at g') bs = filter (open_at g) bs"
    by (rule filter_cong) (simp_all add: open_at_def heap)
  moreover have "\<exists>ioc ctx. g_heap g' b = Some (ioc, ctx) \<and> waiting ioc \<and> fresh_ctx ctx" if "b \<in> set (fs @ ns)" for b
  proof (cases "b \<in> set ns")
    case True
    then show ?thesis using assms(2,3) unfolding added_def by blast
  next
    case False
    then show ?thesis using that heap [of b] assms(1) unfolding svc_inv_def by simp
  qed
  moreover have "\<exists>c. g_heap g' b = Some c \<and> ctx_inv L c" if "b \<in> set bs" for b
    using that heap [of b] assms(1) unfolding svc_inv_def by simp
  ultimately show ?thesis using assms(1,2) ls unfolding svc_inv_def added_def by simp
qed

lemma AddNeededSockets_inv:
  assumes "svc_inv L fs bs g" "sockets_valid api"
  shows "\<exists>g' ns. AddNeededSockets api g = Some g' \<and> svc_inv L (fs @ ns) bs g'"
proof (cases "IsMoreSocketsNeeded g")
  case True
  obtain ok g' ns where a: "AddSockets api g = Some (ok, g')" "added api fs bs g ns g'"
    using AddSockets_lists [of fs bs g api] assms(1) by (auto simp: svc_inv_def)
  have f: "frame (LogEvent POP3SVR_CREATE_ADDITIONAL_SOCKET_FAILED g') = frame g'" by simp
  have "AddNeededSockets api g = Some (if ok then g' else LogEvent POP3SVR_CREATE_ADDITIONAL_SOCKET_FAILED g')"
    using True a(1) by (simp add: AddNeededSockets_def)
  moreover have "svc_inv L (fs @ ns) bs (if ok then g' else LogEvent POP3SVR_CREATE_ADDITIONAL_SOCKET_FAILED g')"
    using svc_inv_added [OF assms(1) a(2) assms(2)] svc_inv_frame [OF f, of L "fs @ ns" bs] by simp
  ultimately show ?thesis by blast
next
  case False
  then show ?thesis using assms(1) by (auto simp: AddNeededSockets_def intro!: exI [of _ "[]"])
qed

text \<open>A closed context leaves the busy list: it is deleted, or goes back to the free list with a new socket.\<close>

lemma filter_remove1_closed: "\<not> P a \<Longrightarrow> filter P (remove1 a xs) = filter P xs"
  by (induction xs) auto

lemma delete_conn_frame: "frame (delete_conn api a s) = frame ((gl s)\<lparr>g_heap := (g_heap (gl s))(a := None)\<rparr>)"
proof -
  obtain x g where c: "Cleanup api (m_AuthServer (this s), gl s) = (x, g)" by fastforce
  then show ?thesis using Cleanup_frame [OF c] by (simp add: delete_conn_def frame_def)
qed

lemma svc_inv_leave:
  assumes "svc_inv L fs bs (put_conn a s)" "a \<in> set bs" "\<not> is_open s" "lists_ok fs (remove1 a bs) g"
    "g_heap g = (g_heap (gl s))(a := x)" "g_SocketPool g = g_SocketPool (gl s)"
  shows "svc_inv L fs (remove1 a bs) g"
proof -
  have dis: "distinct bs" "a \<notin> set fs"
    using lists_ok_distinct [of fs bs "put_conn a s"] assms(1,2) by (auto simp: svc_inv_def)
  have cl: "\<not> open_at (put_conn a s) a" using assms(3) by (simp add: open_at_def)
  have heap: "g_heap g b = g_heap (put_conn a s) b" if "b \<noteq> a" for b using that assms(5) by simp
  have ne: "b \<noteq> a" if "b \<in> set (remove1 a bs)" for b using that dis(1) by auto
  have "filter (open_at g) (remove1 a bs) = filter (open_at (put_conn a s)) (remove1 a bs)"
    by (rule filter_cong) (use heap ne in \<open>auto simp: open_at_def\<close>)
  then have "filter (open_at g) (remove1 a bs) = filter (open_at (put_conn a s)) bs"
    using filter_remove1_closed [of "open_at (put_conn a s)" a bs, OF cl] by simp
  moreover have "\<exists>ioc ctx. g_heap g b = Some (ioc, ctx) \<and> waiting ioc \<and> fresh_ctx ctx" if "b \<in> set fs" for b
    using that dis(2) heap [of b] assms(1) unfolding svc_inv_def by metis
  moreover have "\<exists>c. g_heap g b = Some c \<and> ctx_inv L c" if "b \<in> set (remove1 a bs)" for b
    using ne [OF that] heap [of b] assms(1) notin_set_remove1 [of b bs a] that unfolding svc_inv_def by metis
  ultimately show ?thesis using assms(1,4,6) unfolding svc_inv_def by simp
qed

lemma ResetContext_fresh:
  assumes "ResetContext api (ctx, g) = (ctx', g')" "mb_inv (m_MailBox ctx)" "m_cMailCount (m_MailBox ctx) = 0"
  shows "fresh_ctx ctx' \<and> frame g' = frame g"
  using assms by (auto simp: ResetContext_def fresh_ctx_def dest: Cleanup_frame split: prod.splits)

lemma svc_inv_enter:
  assumes "svc_inv L fs bs g" "lists_ok (fs @ [a]) bs g'" "g_heap g' = (g_heap g)(a \<mapsto> (ioc, ctx))"
    "waiting ioc" "fresh_ctx ctx" "g_SocketPool g' = g_SocketPool (add_free 1 (add_total 1 g))"
    "total_sockets g < max_sockets g"
  shows "svc_inv L (fs @ [a]) bs g'"
proof -
  have na: "a \<notin> set fs" "a \<notin> set bs" using lists_ok_distinct [OF assms(2)] by auto
  have "filter (open_at g') bs = filter (open_at g) bs"
    by (rule filter_cong) (use na assms(3) in \<open>auto simp: open_at_def\<close>)
  then show ?thesis using assms na by (auto simp: svc_inv_def add_total_def add_free_def on_pool_def)
qed

lemma RetireContext_inv:
  assumes "svc_inv L fs bs (put_conn a s)" "a \<in> set bs" "\<not> is_open s" "conn_inv L s" "sockets_valid api"
  shows "\<exists>reused g' fs'. RetireContext api a s = Some (reused, g') \<and> svc_inv L fs' (remove1 a bs) g'"
proof -
  have lb: "lists_ok fs bs (gl s)" using assms(1) by (simp add: svc_inv_def)
  have na: "a \<notin> set fs" "distinct bs" "a < g_nextAddr (gl s)"
    using lists_ok_distinct [OF lb] lb assms(2) by (auto simp: lists_ok_def)
  obtain g1 where g1: "RemoveFromBusy a (gl s) = Some (ERROR_SUCCESS, g1)" "lists_ok fs (remove1 a bs) g1" "same_pool (gl s) g1"
    using RemoveFromBusy_ok [OF lb assms(2)] by blast
  have gone: "svc_inv L fs (remove1 a bs) (delete_conn api a s')"
    if "lists_ok fs (remove1 a bs) (gl s')" "same_pool (gl s) (gl s')" for s'
  proof -
    let ?g = "(gl s')\<lparr>g_heap := (g_heap (gl s'))(a := None)\<rparr>"
    have "svc_inv L fs (remove1 a bs) ?g"
      by (rule svc_inv_leave [OF assms(1-3)]) (use that in \<open>simp_all add: same_pool_def\<close>)
    then show ?thesis using svc_inv_frame [OF delete_conn_frame] by blast
  qed
  show ?thesis
  proof (cases "IsMoreSocketsNeeded g1 \<and> total_sockets g1 < max_sockets g1")
    case False
    let ?s = "\<lparr>this = this s, io = io s, gl = add_total (-1) (add_total 1 g1)\<rparr>"
    have "RetireContext api a s = Some (False, delete_conn api a (s\<lparr>gl := g1\<rparr>)) \<or>
        RetireContext api a s = Some (False, delete_conn api a ?s)"
      using False g1(1) by (auto simp: RetireContext_def ReuseIOContext_def Let_def)
    moreover have "same_pool (gl s) (gl ?s)" using g1(3) by (simp add: same_pool_def add_total_def on_pool_def)
    ultimately show ?thesis using gone [of "s\<lparr>gl := g1\<rparr>"] gone [of ?s] g1(2,3) by auto
  next
    case True
    obtain ctx g2 where r: "ResetContext api (this s, add_total 1 g1) = (ctx, g2)" by fastforce
    have "mb_inv (box_of s)" "m_cMailCount (box_of s) = 0" using assms(3,4) by (simp_all add: conn_inv_def conn_sound_def)
    then have fr: "fresh_ctx ctx" "frame g2 = frame (add_total 1 g1)" using ResetContext_fresh [OF r] by simp_all
    have l2: "lists_ok fs (remove1 a bs) g2" "a < g_nextAddr g2"
      using fr(2) g1(2,3) na(3) lists_ok_frame [OF fr(2)] by (simp_all add: frame_def same_pool_def add_total_def on_pool_def)
    have "a \<notin> set (remove1 a bs)" using na(2) by simp
    moreover have "Suc (length fs) < 4294967296" using assms(1) by (simp add: svc_inv_def)
    ultimately obtain ok ioc g3 where c: "CreateAcceptSocket api a (io s, g2) = Some (ok, ioc, g3)" "same_pool g2 g3"
      "lists_ok (if ok then fs @ [a] else fs) (remove1 a bs) g3" "ok \<and> sockets_valid api \<longrightarrow> waiting ioc"
      using CreateAcceptSocket_lists [OF l2(1) na(1) _ l2(2), of api "io s"] by blast
    have p3: "g_heap g3 = g_heap (gl s)" "g_SocketPool g3 = g_SocketPool (add_total 1 (gl s))" "g_nextAddr g3 = g_nextAddr (gl s)"
      "g_dwServerStatus g3 = g_dwServerStatus (gl s)"
      using c(2) fr(2) g1(3) by (simp_all add: frame_def same_pool_def add_total_def on_pool_def)
    have reuse: "ReuseIOContext api a ((io s, this s), g1) =
        Some (if ok then (True, (ioc, ctx), add_free 1 g3) else (False, (ioc, ctx), add_total (-1) g3))"
      using True r c(1) by (simp add: ReuseIOContext_def Let_def)
    show ?thesis
    proof (cases ok)
      case no: False
      let ?s = "\<lparr>this = ctx, io = ioc, gl = add_total (-1) g3\<rparr>"
      have "RetireContext api a s = Some (False, delete_conn api a ?s)"
        using reuse True no g1(1) by (simp add: RetireContext_def Let_def)
      moreover have "svc_inv L fs (remove1 a bs) (delete_conn api a ?s)"
        using gone [of ?s] c(3) no p3 by (simp add: same_pool_def add_total_def on_pool_def)
      ultimately show ?thesis by blast
    next
      case ok: True
      let ?s = "\<lparr>this = ctx, io = ioc, gl = add_free 1 g3\<rparr>"
      have "RetireContext api a s = Some (True, put_conn a ?s)"
        using reuse True ok g1(1) by (simp add: RetireContext_def Let_def)
      moreover have "svc_inv L (fs @ [a]) (remove1 a bs) (put_conn a ?s)"
      proof (rule svc_inv_enter)
        show "svc_inv L fs (remove1 a bs) (g1\<lparr>g_heap := (g_heap g1)(a := None)\<rparr>)"
          by (rule svc_inv_leave [OF assms(1-3)]) (use g1(2,3) in \<open>simp_all add: same_pool_def\<close>)
        show "lists_ok (fs @ [a]) (remove1 a bs) (put_conn a ?s)" using c(3) ok by simp
      qed (use True ok c(4) assms(5) fr(1) p3 g1(3) in
        \<open>simp_all add: same_pool_def add_total_def add_free_def on_pool_def\<close>)
      ultimately show ?thesis by blast
    qed
  qed
qed

lemma fresh_ctx_inv:
  assumes "waiting ioc" "fresh_ctx ctx" "m_hAsyncIO (io s) = m_hAsyncIO ioc" "m_ConType (io s) = m_ConType ioc" "this s = ctx"
  shows "conn_inv L s"
  using assms by (simp add: conn_inv_def conn_sound_def waiting_def fresh_ctx_def line_ok_def)

text \<open>What a thread does with a context after the request: it is retired or put back.\<close>

lemma put_back:
  fixes s s' s2 :: "'w conn"
  assumes "svc_inv L fs bs g" "a \<in> set bs" "frame (gl s) = frame (g :: 'w glob)" "is_open s = open_at g a"
    "moved api s s'" "conn_inv L s'" "sockets_valid api"
    and "this s2 = this s'" "m_hAsyncIO (io s2) = m_hAsyncIO (io s')" "m_ConType (io s2) = m_ConType (io s')"
    "frame (gl s2) = frame (gl s')"
  shows "\<exists>fs'. svc_inv L fs' bs (put_conn a s2)"
proof -
  have "moved api s s2" using assms(5,9,11) moved_trans [of api s s' s2] by simp
  moreover have "conn_inv L s2" using assms(6,8-10) by (simp add: conn_inv_def conn_sound_def)
  ultimately show ?thesis using svc_inv_put [OF assms(1-4) _ _ assms(7)] by blast
qed

lemma retired:
  fixes s s' :: "'w conn"
  assumes "svc_inv L fs bs g" "a \<in> set bs" "frame (gl s) = frame (g :: 'w glob)" "is_open s = open_at g a"
    "moved api s s'" "conn_inv L s'" "sockets_valid api" "m_ConType (io s') = DELETE_PENDING"
  shows "\<exists>reused g' fs'. RetireContext api a s' = Some (reused, g') \<and> svc_inv L fs' (remove1 a bs) g'"
proof -
  obtain fs' where "svc_inv L fs' bs (put_conn a s')" using put_back [OF assms(1-7), of s'] by blast
  moreover have "\<not> is_open s'" using assms(6,8) by (auto simp: conn_inv_def conn_sound_def)
  ultimately show ?thesis using RetireContext_inv [OF _ assms(2)] assms(6,7) by blast
qed

lemma IOCallBack_io_inv:
  assumes "svc_inv L fs bs g" "a \<in> set bs" "IOCallBack_io api a n g = Some g'" "sockets_valid api" "dirs_bounded api L"
  shows "\<exists>fs' bs'. svc_inv L fs' bs' g' \<and> set bs' \<subseteq> set bs"
proof -
  obtain ioc ctx where c: "g_heap g a = Some (ioc, ctx)" "ctx_inv L (ioc, ctx)"
    using assms(1,2) unfolding svc_inv_def by (metis surj_pair)
  let ?s = "\<lparr>this = ctx, io = ioc\<lparr>m_lLock := LOCKED_TO_PROCESS_POP3_CMD\<rparr>, gl = g\<rparr>"
  have inv: "conn_inv L ?s" using c(2) by (simp add: ctx_inv_def conn_inv_def conn_sound_def)
  have op: "is_open ?s = open_at g a" and fr: "frame (gl ?s) = frame g" using c(1) by (simp_all add: open_at_def)
  obtain s' where s': "(if m_ConType ioc = CONNECTION_SOCKET then ProcessRequest api n ?s else Some ?s) = Some s'"
    and rest: "(if m_ConType (io s') = DELETE_PENDING then do { (_, g) \<leftarrow> RetireContext api a s'; Some g }
       else (case call (GetTickCount api) s' of (t, s) \<Rightarrow>
         Some (put_conn a (on_io (\<lambda>i. i\<lparr>m_dwLastIOTime := t, m_lLock := UNLOCKED\<rparr>) s)))) = Some g'"
    using assms(3) c(1) by (auto simp: IOCallBack_io_def conn_at_def on_io_def Let_def split: if_splits bind_splits)
  have mv: "moved api ?s s'" "conn_inv L s'"
    using s' ProcessRequest_step [of api n ?s s' L] inv assms(5) by (auto simp: balanced_def split: if_splits)
  show ?thesis
  proof (cases "m_ConType (io s') = DELETE_PENDING")
    case True
    then obtain fs' where "svc_inv L fs' (remove1 a bs) g'"
      using retired [OF assms(1,2) fr op mv assms(4) True] rest by auto
    then show ?thesis using set_remove1_subset [of a bs] by blast
  next
    case False
    obtain t s2 where t: "call (GetTickCount api) s' = (t, s2)" by fastforce
    let ?s3 = "on_io (\<lambda>i. i\<lparr>m_dwLastIOTime := t, m_lLock := UNLOCKED\<rparr>) s2"
    have "\<exists>fs'. svc_inv L fs' bs (put_conn a ?s3)"
      by (rule put_back [OF assms(1,2) fr op mv assms(4)]) (use callD [OF t] in simp_all)
    then show ?thesis using rest t False by auto
  qed
qed

lemma remove1_append_count: "a \<in> set fs \<Longrightarrow> length fs = Suc (length (remove1 a fs))"
  by (metis Suc_pred' length_pos_if_in_set length_remove1)

text \<open>The context of a new connection moves from the free list to the busy list.\<close>

lemma accept_moves:
  assumes "svc_inv L fs bs g" "a \<in> set fs" "Suc (length bs) < 4294967296" "sockets_valid api"
  obtains g1 g2 g3 ns where "RemoveFromFree a g = Some (ERROR_SUCCESS, g1)" "AppendToBusy a g1 = Some g2"
    "DecrementFreeSocketCount api g2 = Some g3" "svc_inv L (remove1 a fs @ ns) (bs @ [a]) g3" "g_heap g3 a = g_heap g a"
proof -
  have l: "lists_ok fs bs g" using assms(1) by (simp add: svc_inv_def)
  have na: "a \<notin> set bs" "distinct fs" "a < g_nextAddr g" using lists_ok_distinct [OF l] l assms(2) by (auto simp: lists_ok_def)
  obtain g1 where g1: "RemoveFromFree a g = Some (ERROR_SUCCESS, g1)" "lists_ok (remove1 a fs) bs g1" "same_pool g g1"
    using RemoveFromFree_ok [OF l assms(2)] by blast
  have "a \<notin> set (remove1 a fs)" "a < g_nextAddr g1" using na g1(3) by (simp_all add: same_pool_def)
  then obtain g2 where g2: "AppendToBusy a g1 = Some g2" "lists_ok (remove1 a fs) (bs @ [a]) g2" "same_pool g1 g2"
    using AppendToBusy_ok [OF g1(2) _ na(1) _ assms(3)] by blast
  have p2: "g_heap g2 = g_heap g" "g_SocketPool g2 = g_SocketPool g" using g1(3) g2(3) by (simp_all add: same_pool_def)
  have cnt: "length fs = Suc (length (remove1 a fs))" using remove1_append_count [OF assms(2)] .
  have inv: "free_sockets g = int (length fs)" "free_sockets g \<le> total_sockets g" "max_sockets g < 2147483648"
    using assms(1) by (simp_all add: svc_inv_def)
  obtain g3 ns where g3: "DecrementFreeSocketCount api g2 = Some g3" "added api (remove1 a fs) (bs @ [a]) (add_free (-1) g2) ns g3"
    using DecrementFreeSocketCount_lists [OF g2(2), of api] p2(2) inv cnt by auto
  obtain ioc ctx where c: "g_heap g a = Some (ioc, ctx)" "waiting ioc" "fresh_ctx ctx"
    using assms(1,2) by (auto simp: svc_inv_def)
  have ci: "ctx_inv L (ioc, ctx)"
    using fresh_ctx_inv [OF c(2,3), of "\<lparr>this = ctx, io = ioc, gl = demo_glob\<rparr>" L] by (simp add: ctx_inv_def)
  have "open_at g a" using c(1,2) by (simp add: open_at_def waiting_def)
  moreover have "open_at (add_free (-1) g2) = open_at g"
    using p2(1) by (simp add: open_at_def fun_eq_iff add_free_def on_pool_def)
  ultimately have "svc_inv L (remove1 a fs) (bs @ [a]) (add_free (-1) g2)"
    using assms(1) g2(2) p2 cnt c ci
    by (auto simp: svc_inv_def add_free_def on_pool_def dest: subsetD [OF set_remove1_subset])
  then have "svc_inv L (remove1 a fs @ ns) (bs @ [a]) g3" by (rule svc_inv_added [OF _ g3(2) assms(4)])
  moreover have "g_heap g3 a = g_heap g a"
  proof -
    have "lists_ok (remove1 a fs @ ns) (bs @ [a]) g3" using g3(2) by (simp add: added_def)
    then have "a \<notin> set ns" using lists_ok_distinct by fastforce
    then show ?thesis using g3(2) p2(1) by (simp add: added_def add_free_def on_pool_def)
  qed
  ultimately show thesis using that g1(1) g2(1) g3(1) by blast
qed

lemma IOCallBack_accept_inv:
  assumes "svc_inv L fs bs g" "a \<in> set fs" "Suc (length bs) < 4294967296" "IOCallBack_accept api a n g = Some g'"
    "sockets_valid api" "dirs_bounded api L"
  shows "\<exists>fs' bs'. svc_inv L fs' bs' g' \<and> set bs' \<subseteq> insert a (set bs)"
proof -
  let ?g0 = "perf (IncPerfCntr e_gcConnectedSocketCnt) (perf (IncPerfCntr e_gcConnectionRate)
       (perf (IncPerfCntr e_gcTotConnection) g))"
  obtain t gt where t: "sys (GetTickCount api) ?g0 = (t, gt)" by fastforce
  have ft: "frame gt = frame g" using sys_perf [OF t] by simp
  then have ht: "g_heap gt = g_heap g" by (simp add: frame_def)
  have invt: "svc_inv L fs bs gt" using svc_inv_frame [OF ft] assms(1) by blast
  obtain g1 g2 g3 ns where mv: "RemoveFromFree a gt = Some (ERROR_SUCCESS, g1)" "AppendToBusy a g1 = Some g2"
    "DecrementFreeSocketCount api g2 = Some g3" "svc_inv L (remove1 a fs @ ns) (bs @ [a]) g3" "g_heap g3 a = g_heap gt a"
    by (rule accept_moves [OF invt assms(2,3,5)])
  obtain ioc ctx where c: "g_heap g a = Some (ioc, ctx)" "waiting ioc" "fresh_ctx ctx"
    using assms(1,2) by (auto simp: svc_inv_def)
  let ?ioc = "ioc\<lparr>m_dwLastIOTime := t, m_dwConnectionTime := t, m_lLock := LOCKED_TO_PROCESS_POP3_CMD\<rparr>"
  obtain ctx4 g4 where r: "ResetContext api (ctx, g3) = (ctx4, g4)" by fastforce
  have r4: "fresh_ctx ctx4" "frame g4 = frame g3" using ResetContext_fresh [OF r] c(3) by (simp_all add: fresh_ctx_def)
  let ?s = "\<lparr>this = ctx4, io = ?ioc, gl = g4\<rparr>"
  have inv: "conn_inv L ?s" by (rule fresh_ctx_inv [OF c(2) r4(1)]) simp_all
  have op: "is_open ?s = open_at g3 a" using mv(5) ht c(1) by (simp add: open_at_def)
  have g0a: "g_heap ?g0 a = Some (ioc, ctx)" using c(1) by (simp add: perf_def)
  obtain s' reused g5 where s': "ProcessRequest api n ?s = Some s'"
    and r5: "(if m_ConType (io s') = DELETE_PENDING then RetireContext api a s'
        else Some (False, put_conn a (on_io (m_lLock_update (\<lambda>_. UNLOCKED)) s'))) = Some (reused, g5)"
    and rest: "(if reused then Some g5 else do { g \<leftarrow> AddNeededSockets api g5;
        Some (if IsMaxSocketUsed g then emit DoSEvent g else g) }) = Some g'"
    using assms(4) t g0a mv(1-3) r by (auto simp: IOCallBack_accept_def Let_def split: bind_splits if_splits)
  have m: "moved api ?s s'" "conn_inv L s'" using ProcessRequest_step [OF s' inv assms(6)] by (auto simp: balanced_def)
  have fr: "frame (gl ?s) = frame g3" and ab: "a \<in> set (bs @ [a])" using r4(2) by simp_all
  have "\<exists>fs' bs'. svc_inv L fs' bs' g5 \<and> set bs' \<subseteq> insert a (set bs)"
  proof (cases "m_ConType (io s') = DELETE_PENDING")
    case True
    then obtain fs' where "svc_inv L fs' (remove1 a (bs @ [a])) g5"
      using retired [OF mv(4) ab fr op m assms(5) True] r5 by auto
    then show ?thesis using set_remove1_subset [of a "bs @ [a]"] by auto
  next
    case False
    have "\<exists>fs'. svc_inv L fs' (bs @ [a]) (put_conn a (on_io (m_lLock_update (\<lambda>_. UNLOCKED)) s'))"
      by (rule put_back [OF mv(4) ab fr op m assms(5)]) simp_all
    moreover have "g5 = put_conn a (on_io (m_lLock_update (\<lambda>_. UNLOCKED)) s')" using r5 False by simp
    moreover have "set (bs @ [a]) \<subseteq> insert a (set bs)" by simp
    ultimately show ?thesis by blast
  qed
  then obtain fs' bs' where i5: "svc_inv L fs' bs' g5" "set bs' \<subseteq> insert a (set bs)" by blast
  obtain g6 ms where g6: "AddNeededSockets api g5 = Some g6" "svc_inv L (fs' @ ms) bs' g6"
    using AddNeededSockets_inv [OF i5(1) assms(5)] by blast
  have "svc_inv L (fs' @ ms) bs' (emit DoSEvent g6)" using g6(2) svc_inv_frame [of "emit DoSEvent g6" g6] by simp
  then show ?thesis using rest i5 g6 by (auto split: if_splits)
qed

section \<open>The service over its life\<close>

text \<open>The links determine which contexts are in a list.\<close>

lemma linked_unique:
  "linked lk (a # xs @ [h]) \<Longrightarrow> linked lk (a # ys @ [h]) \<Longrightarrow> h \<notin> set xs \<Longrightarrow> h \<notin> set ys \<Longrightarrow> xs = ys"
proof (induction xs arbitrary: a ys)
  case Nil
  then show ?case by (cases ys) auto
next
  case (Cons x xs)
  then show ?case by (cases ys) auto
qed

lemma lists_ok_unique:
  assumes "lists_ok fs bs g" "lists_ok fs' bs' g"
  shows "fs' = fs \<and> bs' = bs"
proof -
  have inj: "inj LEntry" by (simp add: inj_def)
  have "map LEntry fs' = map LEntry fs"
    by (rule linked_unique [of "g_links g" "LHead True" _ "LHead True"])
      (use assms in \<open>auto simp: lists_ok_def two_def holds_def ring_def\<close>)
  moreover have "map LEntry bs' = map LEntry bs"
    by (rule linked_unique [of "g_links g" "LHead False" _ "LHead False"])
      (use assms in \<open>auto simp: lists_ok_def two_def holds_def ring_def\<close>)
  ultimately show ?thesis using inj by (simp add: inj_map_eq_map)
qed

definition on_free :: "nat \<Rightarrow> 'w glob \<Rightarrow> bool" where
  "on_free a g \<longleftrightarrow> (\<exists>fs bs. lists_ok fs bs g \<and> a \<in> set fs)"

definition on_busy :: "nat \<Rightarrow> 'w glob \<Rightarrow> bool" where
  "on_busy a g \<longleftrightarrow> (\<exists>fs bs. lists_ok fs bs g \<and> a \<in> set bs)"

text \<open>
  A thread of the pool takes a completion: of an accept on a context of the free list (while the count of
  the busy list has room), or of a transfer on a context of the busy list.  Bytes arrive in the buffer of a
  connection, the time-out scan runs, the service control changes the status, and the rest of the system
  goes on.
\<close>

inductive svc_step :: "'w win32 \<Rightarrow> 'w glob \<Rightarrow> 'w glob \<Rightarrow> bool" for api where
  accept: "on_free a g \<Longrightarrow> m_dwListCount (g_BusyList g) + 1 \<noteq> 0 \<Longrightarrow>
    ThreadProc_turn api (Some (LISTEN_SOCKET, a, n)) g = Some (go, g') \<Longrightarrow> svc_step api g g'"
| complete: "on_busy a g \<Longrightarrow> key \<noteq> LISTEN_SOCKET \<Longrightarrow>
    ThreadProc_turn api (Some (key, a, n)) g = Some (go, g') \<Longrightarrow> svc_step api g g'"
| arrive: "on_busy a g \<Longrightarrow> g_heap g a = Some (ioc, ctx) \<Longrightarrow>
    svc_step api g (g\<lparr>g_heap := (g_heap g)(a \<mapsto> (ioc\<lparr>m_Buffer := bytes\<rparr>, ctx))\<rparr>)"
| scan: "CheckTimeOut api interval (x, g) = Some (r, y, g') \<Longrightarrow> svc_step api g g'"
| control: "svc_step api g (g\<lparr>g_dwServerStatus := st\<rparr>)"
| outside: "svc_step api g (g\<lparr>g_world := w\<rparr>)"

lemma busy_room:
  assumes "svc_inv L fs bs g" "m_dwListCount (g_BusyList g) + 1 \<noteq> 0"
  shows "Suc (length bs) < 4294967296"
proof (rule ccontr)
  assume "\<not> Suc (length bs) < 4294967296"
  moreover have h: "length bs < 4294967296" "m_dwListCount (g_BusyList g) = of_nat (length bs)"
    using assms(1) by (simp_all add: svc_inv_def lists_ok_def two_def holds_def)
  ultimately have "length bs = 4294967295" by simp
  then show False using h(2) assms(2) by simp
qed

lemma svc_inv_perf [simp]: "svc_inv L fs bs (perf f g) = svc_inv L fs bs g"
  by (rule svc_inv_frame) simp

lemma ThreadProc_turn_callback:
  assumes "ThreadProc_turn api (Some (key, a, n)) g = Some (go, g')"
  shows "frame g' = frame g \<or> (\<exists>g1. IOCallBack api key a n (perf (DecPerfCntr e_gcFreeThreadCnt) g) = Some g1 \<and> frame g' = frame g1)"
  using assms by (auto simp: ThreadProc_turn_def split: if_splits bind_splits)

lemma svc_step_inv:
  assumes "svc_step api g g'" "svc_inv L fs bs g" "sockets_valid api" "dirs_bounded api L"
  shows "\<exists>fs' bs'. svc_inv L fs' bs' g'"
proof -
  have l: "lists_ok fs bs g" using assms(2) by (simp add: svc_inv_def)
  let ?g = "perf (DecPerfCntr e_gcFreeThreadCnt) g"
  have inv: "svc_inv L fs bs ?g" using assms(2) by simp
  from assms(1) show ?thesis
  proof cases
    case (accept a n go)
    have a: "a \<in> set fs" using accept(1) lists_ok_unique [OF l] by (auto simp: on_free_def)
    have "frame g' = frame g \<or> (\<exists>g1. IOCallBack_accept api a n ?g = Some g1 \<and> frame g' = frame g1)"
      using ThreadProc_turn_callback [OF accept(3)] by (simp add: IOCallBack_def)
    then show ?thesis
      using IOCallBack_accept_inv [OF inv a busy_room [OF assms(2) accept(2)] _ assms(3,4)] svc_inv_frame assms(2) by metis
  next
    case (complete a key n go)
    have a: "a \<in> set bs" using complete(1) lists_ok_unique [OF l] by (auto simp: on_busy_def)
    have "frame g' = frame g \<or> (\<exists>g1. IOCallBack_io api a n ?g = Some g1 \<and> frame g' = frame g1)"
      using ThreadProc_turn_callback [OF complete(3)] complete(2) by (simp add: IOCallBack_def)
    then show ?thesis using IOCallBack_io_inv [OF inv a _ assms(3,4)] svc_inv_frame assms(2) by metis
  next
    case (arrive a ioc ctx bytes)
    have a: "a \<in> set bs" using arrive(2) lists_ok_unique [OF l] by (auto simp: on_busy_def)
    let ?s = "\<lparr>this = ctx, io = ioc\<lparr>m_Buffer := bytes\<rparr>, gl = g\<rparr>"
    have "conn_inv L ?s"
      using assms(2) a arrive(3) by (fastforce simp: svc_inv_def ctx_inv_def conn_inv_def conn_sound_def)
    then have "svc_inv L fs bs (put_conn a ?s)"
      by (intro svc_inv_put_still [OF assms(2) a]) (simp_all add: open_at_def arrive(3))
    then show ?thesis using arrive(1) by (auto simp: put_conn_def)
  next
    case (scan interval x r y)
    then show ?thesis using CheckTimeOut_scans [OF assms(2,3), of interval x] by auto
  next
    case (control st)
    then show ?thesis
      using assms(2) by (intro exI [of _ fs] exI [of _ bs]) (simp add: svc_inv_def lists_ok_def open_at_def [abs_def])
  next
    case (outside w)
    then show ?thesis using assms(2) svc_inv_frame [of g' g] by auto
  qed
qed


lemma demo_accept: "ThreadProc_turn svc_api (Some (LISTEN_SOCKET, 1, 0)) demo_svc \<noteq> None"
  by code_simp


end
