(* ===== verification/Auth_Types.thy ===== *)
theory Auth_Types
  imports Win32_Api
begin

text \<open>
  What the collection of authentication methods and the methods share: the values of COM that they
  exchange, the codes of errors, and the names of \<^verbatim>\<open>authid.h\<close> and \<^verbatim>\<open>pop3auth.idl\<close>.
\<close>

text \<open>The variants the code distinguishes.\<close>

datatype VARIANT = VT_EMPTY | VT_I4 DWORD | VT_BSTR "wstring option" | VT_OTHER

definition SZ_AUTH_ID_DOMAIN_AD :: wstring where "SZ_AUTH_ID_DOMAIN_AD = wide ''ef9d811e-36c5-497f-ade7-2b36df172824''"
definition SZ_AUTH_ID_LOCAL_SAM :: wstring where "SZ_AUTH_ID_LOCAL_SAM = wide ''14f1665c-e3d3-46aa-884f-ed4cf19d7ad5''"
definition SZ_AUTH_ID_MD5_HASH :: wstring where "SZ_AUTH_ID_MD5_HASH = wide ''c395e20c-2236-4af7-b736-54fad07dc526''"

definition SZ_PROPNAME_MAIL_ROOT :: wstring where "SZ_PROPNAME_MAIL_ROOT = wide ''MailRoot''"
definition SZ_SERVER_NAME :: wstring where "SZ_SERVER_NAME = wide ''ServerName''"
definition SZ_EMAILADDR :: wstring where "SZ_EMAILADDR = wide ''EmailAddress''"
definition SZ_USERPRICIPALNAME :: wstring where "SZ_USERPRICIPALNAME = wide ''UserPrincipalName''"
definition SZ_SAMACCOUNT_NAME :: wstring where "SZ_SAMACCOUNT_NAME = wide ''SAMAccountName''"
abbreviation (input) "MAX_USER_NAME_LENGTH \<equiv> (20 :: nat)"

definition wlower :: "WCHAR \<Rightarrow> WCHAR" where
  "wlower c = (if 65 \<le> c \<and> c \<le> 90 then c + 32 else c)"

definition wcsicmp_equal :: "wstring \<Rightarrow> wstring \<Rightarrow> bool" where
  "wcsicmp_equal a b \<longleftrightarrow> map wlower a = map wlower b"

text \<open>The name of a mailbox up to the \<^verbatim>\<open>@\<close>: what a string is as long as its \<^verbatim>\<open>@\<close> is overwritten with a NUL.\<close>

definition cut_at :: "wstring \<Rightarrow> wstring" where
  "cut_at = takeWhile (\<lambda>c. c \<noteq> of_char (CHR 0x40))"

lemma result_codes_differ [simp]: "E_FAIL \<noteq> S_OK" "E_OUTOFMEMORY \<noteq> S_OK" "E_INVALIDARG \<noteq> S_OK"
  by (simp_all add: E_FAIL_def S_OK_def E_OUTOFMEMORY_def E_INVALIDARG_def)

end
