(* ===== verification/Auth_Methods.thy ===== *)
theory Auth_Methods
  imports Pop3_Reg Auth_Types
begin

text \<open>
  The collection of authentication methods, \<^verbatim>\<open>CAuthMethods\<close> of \<^verbatim>\<open>pop3/shared/pop3auth/authmethods.cpp\<close>, and its
  enumerator (\<^verbatim>\<open>authmethodsenum.cpp\<close>).  The methods themselves are objects that the system makes from the
  identifiers in the registry; the collection keeps their list, the positions of the ones that may be
  used on this machine, and which of these is the current one.  \<^verbatim>\<open>None\<close> stands for a call that uses a deleted
  object, a variable that was never set or an element outside a vector, and for a loop that does not end.
\<close>

section \<open>The state\<close>

text \<open>
  A member that is not set by the code that makes the structure has no value until it is set.  \<^verbatim>\<open>bstrName\<close> may
  be \<^verbatim>\<open>NULL\<close>.
\<close>

record AUTH_METHOD_INFO =
  pIAuthMethod :: "HANDLE option"
  bstrGuid :: wstring
  bstrName :: "wstring option"
  bIsValid :: "bool option"

text \<open>The vector holds pointers; one to a structure that was deleted has no value.\<close>

record CAuthMethods =
  m_bIsInitialized :: bool
  m_lCurrentMethodIndex :: int
  m_bstrServerName :: "wstring option"
  m_AuthVector :: "AUTH_METHOD_INFO option list"
  m_Index :: "nat list"
  m_lMachineRole :: nat

definition new_CAuthMethods :: CAuthMethods where
  "new_CAuthMethods = \<lparr>m_bIsInitialized = False, m_lCurrentMethodIndex = -1, m_bstrServerName = None,
     m_AuthVector = [], m_Index = [], m_lMachineRole = 0\<rparr>"

datatype DSROLE_MACHINE_ROLE = DsRole_RoleStandaloneWorkstation | DsRole_RoleMemberWorkstation
  | DsRole_RoleStandaloneServer | DsRole_RoleMemberServer
  | DsRole_RoleBackupDomainController | DsRole_RolePrimaryDomainController

text \<open>
  The calls of the system: the size of a registry value (\<^verbatim>\<open>RegQueryValueEx\<close> without a buffer), the
  role of the machine, the objects of the methods, and the objects of the administration.
\<close>

record 'w authapi =
  RegQueryValueSize :: "'w \<Rightarrow> HANDLE \<Rightarrow> wstring \<Rightarrow> (DWORD \<times> nat) \<times> 'w"
  DsRoleGetPrimaryDomainInformation :: "'w \<Rightarrow> wstring option \<Rightarrow> (DWORD \<times> DSROLE_MACHINE_ROLE) \<times> 'w"
  UuidFromString :: "wstring \<Rightarrow> bool"
  CreateMethod :: "'w \<Rightarrow> wstring \<Rightarrow> (HRESULT \<times> HANDLE) \<times> 'w"
  method_get_Name :: "'w \<Rightarrow> HANDLE \<Rightarrow> (HRESULT \<times> wstring option option) \<times> 'w"
  method_QueryInterface :: "'w \<Rightarrow> HANDLE \<Rightarrow> HRESULT \<times> 'w"
  VariantCopy :: "'w \<Rightarrow> HANDLE \<Rightarrow> HRESULT \<times> 'w"
  method_PutServerName :: "'w \<Rightarrow> HANDLE \<Rightarrow> wstring \<Rightarrow> HRESULT \<times> 'w"
  method_Release :: "'w \<Rightarrow> HANDLE \<Rightarrow> 'w"
  CreateConfig :: "'w \<Rightarrow> HRESULT \<times> 'w"
  config_put_MachineName :: "'w \<Rightarrow> wstring option \<Rightarrow> HRESULT \<times> 'w"
  config_get_Domains :: "'w \<Rightarrow> HRESULT \<times> 'w"
  domains_get_Count :: "'w \<Rightarrow> (HRESULT \<times> int) \<times> 'w"
  IsServiceRunning :: "'w \<Rightarrow> bool \<times> 'w"
  CreateEnum :: "'w \<Rightarrow> HRESULT \<times> 'w"
  enum_QueryInterface :: "'w \<Rightarrow> HRESULT \<times> 'w"
  RestartService :: "'w \<Rightarrow> HRESULT \<times> 'w"

definition NO_DOMAIN :: nat where "NO_DOMAIN = 1"
definition DOMAIN_NONE_DC :: nat where "DOMAIN_NONE_DC = 2"
definition DOMAIN_CONTROLLER :: nat where "DOMAIN_CONTROLLER = 4"

definition ERROR_DS_AUTH_METHOD_NOT_SUPPORTED :: DWORD where "ERROR_DS_AUTH_METHOD_NOT_SUPPORTED = 8231"
definition STG_E_ACCESSDENIED :: HRESULT where "STG_E_ACCESSDENIED = 0x80030005"

section \<open>Reading the list of methods\<close>

fun release_all :: "'w authapi \<Rightarrow> AUTH_METHOD_INFO option list \<Rightarrow> 'w \<Rightarrow> 'w option" where
  "release_all com [] w = Some w"
| "release_all com (e # es) w = do {
     info \<leftarrow> e;
     p \<leftarrow> pIAuthMethod info;
     release_all com es (if p \<noteq> NULL_HANDLE then method_Release com w p else w) }"

text \<open>The current method is not reset.\<close>

definition AuthMethods_CleanUp :: "'w authapi \<Rightarrow> CAuthMethods \<times> 'w \<Rightarrow> (CAuthMethods \<times> 'w) option" where
  "AuthMethods_CleanUp com s = (case s of (m, w) \<Rightarrow> do {
     w \<leftarrow> release_all com (m_AuthVector m) w;
     Some (m\<lparr>m_AuthVector := [], m_Index := [], m_bstrServerName := None, m_bIsInitialized := False\<rparr>, w) })"

definition role_of :: "DSROLE_MACHINE_ROLE \<Rightarrow> nat" where
  "role_of r = (case r of
     DsRole_RoleStandaloneWorkstation \<Rightarrow> NO_DOMAIN | DsRole_RoleStandaloneServer \<Rightarrow> NO_DOMAIN
   | DsRole_RoleMemberWorkstation \<Rightarrow> DOMAIN_NONE_DC | DsRole_RoleMemberServer \<Rightarrow> DOMAIN_NONE_DC
   | DsRole_RoleBackupDomainController \<Rightarrow> DOMAIN_CONTROLLER | DsRole_RolePrimaryDomainController \<Rightarrow> DOMAIN_CONTROLLER)"

definition SetMachineRole :: "'w authapi \<Rightarrow> CAuthMethods \<times> 'w \<Rightarrow> HRESULT \<times> CAuthMethods \<times> 'w" where
  "SetMachineRole com s = (case s of (m, w) \<Rightarrow>
     (case DsRoleGetPrimaryDomainInformation com w (m_bstrServerName m) of ((e, r), w) \<Rightarrow>
        if e = ERROR_SUCCESS then (S_OK, m\<lparr>m_lMachineRole := role_of r\<rparr>, w) else (E_FAIL, m, w)))"

definition VerifyAuthMethod :: "wstring \<Rightarrow> nat \<Rightarrow> HRESULT" where
  "VerifyAuthMethod guid role =
     (if role = NO_DOMAIN \<and> wcsicmp_equal guid SZ_AUTH_ID_DOMAIN_AD then E_FAIL
      else if role = DOMAIN_CONTROLLER \<and> wcsicmp_equal guid SZ_AUTH_ID_LOCAL_SAM then E_FAIL
      else S_OK)"

definition CreateObj :: "'w authapi \<Rightarrow> wstring \<Rightarrow> 'w \<Rightarrow> (HRESULT \<times> HANDLE) \<times> 'w" where
  "CreateObj com guid w = (if \<not> UuidFromString com guid then ((E_INVALIDARG, NULL_HANDLE), w) else CreateMethod com w guid)"

text \<open>
  One entry of the list.  The result is whether to go on.  \<^verbatim>\<open>ZeroMemory (pAuthInfo, sizeof (pAuthInfo))\<close> clears only
  the first member, so the clean-up after a failure frees a name that was never set: no value, unless
  \<^verbatim>\<open>get_Name\<close> stored one before it failed.
\<close>

definition Populate_one :: "'w win32 \<Rightarrow> 'w authapi \<Rightarrow> wstring \<Rightarrow> CAuthMethods \<times> 'w \<Rightarrow> (bool \<times> CAuthMethods \<times> 'w) option" where
  "Populate_one api com guid s = (case s of (m, w) \<Rightarrow>
     (case alloc api w of (ok, w) \<Rightarrow>
        if \<not> ok then Some (False, m, w)
        else (case alloc api w of (ok, w) \<Rightarrow>
          if \<not> ok then None
          else (case CreateObj com guid w of ((hr, p), w) \<Rightarrow>
            if hr \<noteq> S_OK then None
            else if p = NULL_HANDLE then None
            else (case method_get_Name com w p of ((hr, name), w) \<Rightarrow> do {
              name \<leftarrow> name;
              if hr \<noteq> S_OK then Some (False, m, method_Release com w p)
              else (let valid = SUCCEEDED (VerifyAuthMethod guid (m_lMachineRole m));
                        info = \<lparr>pIAuthMethod = Some p, bstrGuid = guid, bstrName = name, bIsValid = Some valid\<rparr>;
                        m = m\<lparr>m_AuthVector := m_AuthVector m @ [Some info]\<rparr>
                    in Some (True, if valid then m\<lparr>m_Index := m_Index m @ [length (m_AuthVector m) - 1]\<rparr> else m, w)) })))))"

definition wcslen :: "wstring \<Rightarrow> nat" where
  "wcslen buf = length (takeWhile (\<lambda>c. c \<noteq> 0) buf)"

text \<open>The loop over the buffer; \<^verbatim>\<open>buf\<close> is its rest from \<^verbatim>\<open>pStart\<close> on, which ends with a NUL.\<close>

function Populate_loop :: "'w win32 \<Rightarrow> 'w authapi \<Rightarrow> wstring \<Rightarrow> CAuthMethods \<times> 'w \<Rightarrow> (bool \<times> CAuthMethods \<times> 'w) option" where
  "Populate_loop api com buf s =
     (if wcslen buf < length buf - 1 then do {
        (ok, s) \<leftarrow> Populate_one api com (take (wcslen buf) buf) s;
        if ok then Populate_loop api com (drop (wcslen buf + 1) buf) s else Some (False, s) }
      else Some (True, s))"
  by auto
termination by (relation "measure (\<lambda>(api, com, buf, s). length buf)") auto

fun bytes_words :: "BYTE list \<Rightarrow> wstring" where
  "bytes_words (lo # hi # bs) = (ucast lo OR push_bit 8 (ucast hi)) # bytes_words bs"
| "bytes_words _ = []"

definition PopulateAuthMethods :: "'w win32 \<Rightarrow> 'w authapi \<Rightarrow> BYTE list \<Rightarrow> nat \<Rightarrow> CAuthMethods \<times> 'w
    \<Rightarrow> (bool \<times> CAuthMethods \<times> 'w) option" where
  "PopulateAuthMethods api com wBuffer cbSize s =
     (let dwSize = cbSize div 2; buf = take dwSize (bytes_words wBuffer) in
      if dwSize = 0 then None
      else do {
        c \<leftarrow> peek buf (dwSize - 1);
        if c \<noteq> 0 then Some (False, s)
        else do {
          (ok, s) \<leftarrow> Populate_loop api com buf s;
          if ok then Some (True, s)
          else do { s \<leftarrow> AuthMethods_CleanUp com s; Some (False, s) } } })"

definition position_of :: "int \<Rightarrow> nat list \<Rightarrow> nat option" where
  "position_of l xs = (case filter (\<lambda>i. int (xs ! i) = l) [0..<length xs] of [] \<Rightarrow> None | i # _ \<Rightarrow> Some i)"

text \<open>The part of \<^verbatim>\<open>Initialize\<close> with the key open.\<close>

definition Initialize_values :: "'w win32 \<Rightarrow> 'w authapi \<Rightarrow> HANDLE \<Rightarrow> CAuthMethods \<times> 'w \<Rightarrow> (bool \<times> CAuthMethods \<times> 'w) option" where
  "Initialize_values api com hPop3Key s = (case s of (m, w) \<Rightarrow>
     (case RegQueryValueEx api w hPop3Key VALUENAME_DEFAULTAUTH 4 of ((e, bs, _), w) \<Rightarrow>
        if e \<noteq> ERROR_SUCCESS then Some (False, m, w)
        else
          (let lCurrent = sint (dword_after 0 bs) in
           case RegQueryValueSize com w hPop3Key VALUENAME_AUTHMETHODS of ((e, cbSize), w) \<Rightarrow>
             if e \<noteq> ERROR_SUCCESS then Some (False, m, w)
             else (case alloc api w of (ok, w) \<Rightarrow>
               if \<not> ok then Some (False, m, w)
               else (case RegQueryValueEx api w hPop3Key VALUENAME_AUTHMETHODS cbSize of ((e, bs, cbRead), w) \<Rightarrow>
                 if e \<noteq> ERROR_SUCCESS then Some (False, m, w)
                 else do {
                   (ok, m, w) \<leftarrow> PopulateAuthMethods api com (stored cbSize (replicate cbSize 0) bs) cbRead (m, w);
                   Some (if \<not> ok then (False, m, w)
                         else (True, m\<lparr>m_lCurrentMethodIndex :=
                                 (case position_of lCurrent (m_Index m) of None \<Rightarrow> m_lCurrentMethodIndex m | Some i \<Rightarrow> int i),
                               m_bIsInitialized := True\<rparr>, w)) })))))"

definition AuthMethods_Initialize :: "'w win32 \<Rightarrow> 'w authapi \<Rightarrow> CAuthMethods \<times> 'w \<Rightarrow> (bool \<times> CAuthMethods \<times> 'w) option" where
  "AuthMethods_Initialize api com s =
     (if m_bIsInitialized (fst s) then Some (False, s)
      else (case SetMachineRole com s of (_, m, w) \<Rightarrow> do {
        ((e, hPop3Key), w) \<leftarrow> RegHKLMOpenKey api POP3SERVER_AUTH_SUBKEY KEY_QUERY_VALUE (m_bstrServerName m) w;
        if e \<noteq> ERROR_SUCCESS then Some (False, m, w)
        else do {
          (ok, m, w) \<leftarrow> Initialize_values api com hPop3Key (m, w);
          Some (ok, m, RegCloseKey api w hPop3Key) } }))"

section \<open>The operations\<close>

text \<open>
  Most methods read the registry first when that was not done yet, and return \<^verbatim>\<open>E_FAIL\<close> if it cannot be.  The
  pointers to results that a caller passes are not \<^verbatim>\<open>NULL\<close>.
\<close>

definition initialized :: "'w win32 \<Rightarrow> 'w authapi \<Rightarrow> CAuthMethods \<times> 'w \<Rightarrow> (bool \<times> CAuthMethods \<times> 'w) option" where
  "initialized api com s = (if m_bIsInitialized (fst s) then Some (True, s) else AuthMethods_Initialize api com s)"

text \<open>\<^verbatim>\<open>m_AuthVector [m_Index [i]]\<close>.\<close>

definition method_at :: "CAuthMethods \<Rightarrow> nat \<Rightarrow> AUTH_METHOD_INFO option" where
  "method_at m i = do { j \<leftarrow> peek (m_Index m) i; p \<leftarrow> peek (m_AuthVector m) j; p }"

fun find_name :: "CAuthMethods \<Rightarrow> wstring option \<Rightarrow> nat \<Rightarrow> nat \<Rightarrow> nat option option" where
  "find_name m bstr i 0 = Some None"
| "find_name m bstr i (Suc n) = do {
     info \<leftarrow> method_at m i;
     name \<leftarrow> bstrName info;
     b \<leftarrow> bstr;
     if name = b then Some (Some i) else find_name m bstr (Suc i) n }"

text \<open>
  The position a \<^verbatim>\<open>VARIANT\<close> stands for: a number, counted from one, or the name of a method.  Subtracting one
  from the number wraps.
\<close>

definition position_of_id :: "CAuthMethods \<Rightarrow> VARIANT \<Rightarrow> nat option option" where
  "position_of_id m vID = (case vID of
     VT_I4 l \<Rightarrow> (let i = sint (l - 1) in Some (if 0 \<le> i \<and> nat i < length (m_Index m) then Some (nat i) else None))
   | VT_BSTR b \<Rightarrow> find_name m b 0 (length (m_Index m))
   | _ \<Rightarrow> Some None)"

definition AuthMethods_get_Count :: "'w win32 \<Rightarrow> 'w authapi \<Rightarrow> CAuthMethods \<times> 'w \<Rightarrow> ((HRESULT \<times> nat) \<times> CAuthMethods \<times> 'w) option" where
  "AuthMethods_get_Count api com s = do {
     (ok, m, w) \<leftarrow> initialized api com s;
     Some (if ok then ((S_OK, length (m_Index m)), m, w) else ((E_FAIL, 0), m, w)) }"

definition AuthMethods_get_Item :: "'w win32 \<Rightarrow> 'w authapi \<Rightarrow> VARIANT \<Rightarrow> CAuthMethods \<times> 'w
    \<Rightarrow> ((HRESULT \<times> HANDLE option) \<times> CAuthMethods \<times> 'w) option" where
  "AuthMethods_get_Item api com vID s = do {
     (ok, m, w) \<leftarrow> initialized api com s;
     if \<not> ok then Some ((E_FAIL, None), m, w)
     else do {
       pos \<leftarrow> position_of_id m vID;
       (case pos of
          None \<Rightarrow> Some ((E_INVALIDARG, None), m, w)
        | Some i \<Rightarrow> do {
            info \<leftarrow> method_at m i;
            p \<leftarrow> pIAuthMethod info;
            if p = NULL_HANDLE then None
            else (case method_QueryInterface com w p of (hr, w) \<Rightarrow>
              if hr \<noteq> S_OK then Some ((hr, None), m, w)
              else (case m_bstrServerName m of
                  None \<Rightarrow> Some ((hr, Some p), m, w)
                | Some server \<Rightarrow> (case method_PutServerName com w p server of (hr, w) \<Rightarrow> Some ((hr, Some p), m, w)))) }) } }"

text \<open>
  A structure that could not be filled is deleted, and its pointer is stored all the same.  The pointer to
  the object and the validity are never set.
\<close>

definition AuthMethods_Add :: "'w win32 \<Rightarrow> wstring option \<Rightarrow> wstring option \<Rightarrow> CAuthMethods \<times> 'w \<Rightarrow> HRESULT \<times> CAuthMethods \<times> 'w" where
  "AuthMethods_Add api name guid s = (case s of (m, w) \<Rightarrow>
     (case (name, guid) of
        (Some name, Some guid) \<Rightarrow>
          (case alloc api w of (ok, w) \<Rightarrow>
             if \<not> ok then (E_OUTOFMEMORY, m, w)
             else (case alloc api w of (okg, w) \<Rightarrow> case alloc api w of (okn, w) \<Rightarrow>
               let info = (if okg \<and> okn
                           then Some \<lparr>pIAuthMethod = None, bstrGuid = guid, bstrName = Some name, bIsValid = None\<rparr> else None)
               in (if okg \<and> okn then S_OK else E_OUTOFMEMORY,
                   m\<lparr>m_AuthVector := m_AuthVector m @ [info], m_Index := m_Index m @ [length (m_AuthVector m)]\<rparr>, w)))
      | _ \<Rightarrow> (E_INVALIDARG, m, w)))"

definition erase_at :: "nat \<Rightarrow> 'a list \<Rightarrow> 'a list" where
  "erase_at i xs = take i xs @ drop (Suc i) xs"

definition remove_at :: "nat \<Rightarrow> CAuthMethods \<Rightarrow> CAuthMethods" where
  "remove_at i m = m\<lparr>m_Index := erase_at i (m_Index m),
     m_lCurrentMethodIndex := (if int i = m_lCurrentMethodIndex m then 0
       else if int i < m_lCurrentMethodIndex m then m_lCurrentMethodIndex m - 1 else m_lCurrentMethodIndex m)\<rparr>"

text \<open>
  \<^verbatim>\<open>Remove\<close> takes its iterator before it reads the registry; when it had to read it the iterator is no longer
  valid.  The result is never \<^verbatim>\<open>S_OK\<close>.
\<close>

definition AuthMethods_Remove :: "'w win32 \<Rightarrow> 'w authapi \<Rightarrow> VARIANT \<Rightarrow> CAuthMethods \<times> 'w \<Rightarrow> (HRESULT \<times> CAuthMethods \<times> 'w) option" where
  "AuthMethods_Remove api com vID s = do {
     (ok, m, w) \<leftarrow> initialized api com s;
     if \<not> ok then Some (E_FAIL, m, w)
     else if length (m_Index m) = 1 then Some (E_FAIL, m, w)
     else do {
       pos \<leftarrow> position_of_id m vID;
       (case pos of
          None \<Rightarrow> Some (E_INVALIDARG, m, w)
        | Some i \<Rightarrow> if m_bIsInitialized (fst s) then Some (E_INVALIDARG, remove_at i m, w) else None) } }"

text \<open>The number of domains, from the objects of the administration.\<close>

definition count_domains :: "'w authapi \<Rightarrow> wstring option \<Rightarrow> 'w \<Rightarrow> (HRESULT \<times> int) \<times> 'w" where
  "count_domains com server w =
     (case CreateConfig com w of (hr, w) \<Rightarrow>
        if hr \<noteq> S_OK then ((hr, 0), w)
        else (case config_put_MachineName com w server of (hr, w) \<Rightarrow>
          if hr \<noteq> S_OK then ((hr, 0), w)
          else (case config_get_Domains com w of (hr, w) \<Rightarrow>
            if hr \<noteq> S_OK then ((hr, 0), w) else domains_get_Count com w)))"

definition Save_restart :: "'w authapi \<Rightarrow> wstring option \<Rightarrow> 'w \<Rightarrow> HRESULT \<times> 'w" where
  "Save_restart com server w =
     (case count_domains com server w of ((hr, lCount), w) \<Rightarrow>
        if hr = S_OK \<and> lCount = 0 then
          (case IsServiceRunning com w of (running, w) \<Rightarrow> if running then RestartService com w else (hr, w))
        else (hr, w))"

fun all_guids :: "AUTH_METHOD_INFO option list \<Rightarrow> wstring list option" where
  "all_guids [] = Some []"
| "all_guids (e # es) = do { info \<leftarrow> e; gs \<leftarrow> all_guids es; Some (bstrGuid info # gs) }"

definition AuthMethods_Save :: "'w win32 \<Rightarrow> 'w authapi \<Rightarrow> CAuthMethods \<times> 'w \<Rightarrow> (HRESULT \<times> CAuthMethods \<times> 'w) option" where
  "AuthMethods_Save api com s = (case s of (m, w) \<Rightarrow>
     if \<not> m_bIsInitialized m then Some (S_OK, m, w)
     else do {
       gs \<leftarrow> all_guids (m_AuthVector m);
       if gs = [] then Some (E_FAIL, m, w)
       else (case alloc api w of (ok, w) \<Rightarrow>
         if \<not> ok then Some (E_OUTOFMEMORY, m, w)
         else do {
           ((e, hPop3Key), w) \<leftarrow> RegHKLMOpenKey api POP3SERVER_AUTH_SUBKEY KEY_SET_VALUE (m_bstrServerName m) w;
           if e \<noteq> ERROR_SUCCESS then Some (E_FAIL, m, w)
           else (case RegSetValueEx api w hPop3Key VALUENAME_AUTHMETHODS REG_MULTI_SZ (multi_sz_bytes gs) of (e, w) \<Rightarrow>
             if e \<noteq> ERROR_SUCCESS then Some (E_FAIL, m, RegCloseKey api w hPop3Key)
             else if m_lCurrentMethodIndex m < 0 then None
             else do {
               j \<leftarrow> peek (m_Index m) (nat (m_lCurrentMethodIndex m));
               (case RegSetValueEx api w hPop3Key VALUENAME_DEFAULTAUTH REG_DWORD (dword_bytes (of_nat j)) of (e, w) \<Rightarrow>
                  if e \<noteq> ERROR_SUCCESS then Some (E_FAIL, m, RegCloseKey api w hPop3Key)
                  else (case Save_restart com (m_bstrServerName m) w of (hr, w) \<Rightarrow>
                    Some (hr, m, RegCloseKey api w hPop3Key))) }) }) })"

text \<open>\<^verbatim>\<open>get_CurrentAuthMethod\<close> for a variable that is empty, as every caller passes it.\<close>

definition AuthMethods_get_CurrentAuthMethod :: "'w win32 \<Rightarrow> 'w authapi \<Rightarrow> VARIANT \<Rightarrow> CAuthMethods \<times> 'w
    \<Rightarrow> ((HRESULT \<times> VARIANT) \<times> CAuthMethods \<times> 'w) option" where
  "AuthMethods_get_CurrentAuthMethod api com v s = do {
     (ok, m, w) \<leftarrow> initialized api com s;
     Some (if \<not> ok then ((E_FAIL, v), m, w)
           else if v \<noteq> VT_EMPTY then ((E_INVALIDARG, v), m, w)
           else if m_lCurrentMethodIndex m < 0 then ((HRESULT_FROM_WIN32 ERROR_DS_AUTH_METHOD_NOT_SUPPORTED, v), m, w)
           else ((S_OK, VT_I4 (word_of_int (m_lCurrentMethodIndex m + 1))), m, w)) }"

definition VerifyCurrentAuthMethod :: "'w win32 \<Rightarrow> 'w authapi \<Rightarrow> int \<Rightarrow> CAuthMethods \<times> 'w \<Rightarrow> (HRESULT \<times> CAuthMethods \<times> 'w) option" where
  "VerifyCurrentAuthMethod api com iIndex s = do {
     (ok, m, w) \<leftarrow> initialized api com s;
     if \<not> ok then Some (E_FAIL, m, w)
     else if iIndex < 0 \<and> m_lCurrentMethodIndex m < 0
       then Some (HRESULT_FROM_WIN32 ERROR_DS_AUTH_METHOD_NOT_SUPPORTED, m, w)
     else do {
       let i = (if iIndex < 0 then m_lCurrentMethodIndex m else iIndex);
       info \<leftarrow> method_at m (nat i);
       if m_lMachineRole m = NO_DOMAIN \<and> wcsicmp_equal (bstrGuid info) SZ_AUTH_ID_DOMAIN_AD then Some (E_INVALIDARG, m, w)
       else if m_lMachineRole m = DOMAIN_CONTROLLER \<and> wcsicmp_equal (bstrGuid info) SZ_AUTH_ID_LOCAL_SAM then Some (E_INVALIDARG, m, w)
       else do {
         (_, w) \<leftarrow> (if wcsicmp_equal (bstrGuid info) SZ_AUTH_ID_MD5_HASH then RegSetSPARequired api 0 None w else Some (0, w));
         if i \<noteq> m_lCurrentMethodIndex m then
           (case count_domains com (m_bstrServerName m) w of ((hr, lCount), w) \<Rightarrow>
              Some (if hr = S_OK \<and> lCount = 0 then S_OK else STG_E_ACCESSDENIED, m, w))
         else Some (S_OK, m, w) } } }"

definition AuthMethods_put_CurrentAuthMethod :: "'w win32 \<Rightarrow> 'w authapi \<Rightarrow> VARIANT \<Rightarrow> CAuthMethods \<times> 'w
    \<Rightarrow> (HRESULT \<times> CAuthMethods \<times> 'w) option" where
  "AuthMethods_put_CurrentAuthMethod api com vID s = do {
     (ok, m, w) \<leftarrow> initialized api com s;
     if \<not> ok then Some (E_FAIL, m, w)
     else do {
       pos \<leftarrow> position_of_id m vID;
       (case pos of
          None \<Rightarrow> Some (E_INVALIDARG, m, w)
        | Some i \<Rightarrow> do {
            (hr, m, w) \<leftarrow> VerifyCurrentAuthMethod api com (int i) (m, w);
            Some (hr, if hr = S_OK then m\<lparr>m_lCurrentMethodIndex := int i\<rparr> else m, w) }) } }"

definition AuthMethods_put_MachineName :: "'w win32 \<Rightarrow> 'w authapi \<Rightarrow> wstring option \<Rightarrow> CAuthMethods \<times> 'w
    \<Rightarrow> (HRESULT \<times> CAuthMethods \<times> 'w) option" where
  "AuthMethods_put_MachineName api com newVal s = (case s of (m, w) \<Rightarrow> do {
     let m = m\<lparr>m_bstrServerName := None\<rparr>;
     (ok, m, w) \<leftarrow>
       (case newVal of
          None \<Rightarrow> Some (True, m, w)
        | Some n \<Rightarrow>
            if n = [] then Some (True, m, w)
            else do {
              (m, w) \<leftarrow> AuthMethods_CleanUp com (m, w);
              (case alloc api w of (ok, w) \<Rightarrow> Some (ok, if ok then m\<lparr>m_bstrServerName := Some n\<rparr> else m, w)) });
     if \<not> ok then Some (E_OUTOFMEMORY, m, w)
     else do {
       ((hr, v), s) \<leftarrow> AuthMethods_get_CurrentAuthMethod api com VT_EMPTY (m, w);
       (hr, s) \<leftarrow> (if hr = S_OK then do { ((hr, _), s) \<leftarrow> AuthMethods_get_Item api com v s; Some (hr, s) } else Some (hr, s));
       if hr \<noteq> S_OK then do { s \<leftarrow> AuthMethods_CleanUp com s; Some (hr, s) } else Some (hr, s) } })"

definition AuthMethods_get_MachineName :: "'w win32 \<Rightarrow> CAuthMethods \<times> 'w \<Rightarrow> (HRESULT \<times> wstring option) \<times> 'w" where
  "AuthMethods_get_MachineName api s = (case s of (m, w) \<Rightarrow>
     (case m_bstrServerName m of
        None \<Rightarrow> ((S_OK, None), w)
      | Some n \<Rightarrow> (case alloc api w of (ok, w) \<Rightarrow> (if ok then (S_OK, Some n) else (E_OUTOFMEMORY, None), w))))"

section \<open>The enumerator\<close>

text \<open>The vector is the one of the collection, to which the enumerator keeps a pointer.\<close>

record CAuthMethodsEnum =
  m_pAuthVector :: bool
  m_ulCurrentMethod :: DWORD

text \<open>The loop that is to skip the methods that are not valid.  It advances only over these.\<close>

partial_function (option) Next_scan :: "AUTH_METHOD_INFO option list \<Rightarrow> DWORD \<Rightarrow> DWORD option" where
  "Next_scan v i =
     (if unat i < length v then do {
        info \<leftarrow> v ! unat i;
        valid \<leftarrow> bIsValid info;
        (if \<not> valid then Next_scan v (i + 1) else Next_scan v i) }
      else Some i)"

definition Enum_Next :: "'w authapi \<Rightarrow> AUTH_METHOD_INFO option list \<Rightarrow> DWORD \<Rightarrow> CAuthMethodsEnum \<times> 'w
    \<Rightarrow> ((HRESULT \<times> HANDLE option) \<times> CAuthMethodsEnum \<times> 'w) option" where
  "Enum_Next com v celt s = (case s of (en, w) \<Rightarrow>
     if \<not> m_pAuthVector en then Some ((E_FAIL, None), en, w)
     else if celt = 0 then Some ((E_INVALIDARG, None), en, w)
     else do {
       i \<leftarrow> Next_scan v (m_ulCurrentMethod en);
       let en = en\<lparr>m_ulCurrentMethod := i\<rparr>;
       if unat i < length v then do {
         info \<leftarrow> v ! unat i;
         p \<leftarrow> pIAuthMethod info;
         if p = NULL_HANDLE then None
         else (case method_QueryInterface com w p of (hr, w) \<Rightarrow>
           if \<not> SUCCEEDED hr then Some ((hr, None), en, w)
           else (case VariantCopy com w p of (hr, w) \<Rightarrow>
             Some (if SUCCEEDED hr
                   then ((if celt > 1 then S_FALSE else hr, Some p), en\<lparr>m_ulCurrentMethod := i + 1\<rparr>, w)
                   else ((hr, None), en, w)))) }
       else Some ((E_FAIL, None), en, w) })"

definition Enum_Skip :: "AUTH_METHOD_INFO option list \<Rightarrow> DWORD \<Rightarrow> CAuthMethodsEnum \<Rightarrow> HRESULT \<times> CAuthMethodsEnum" where
  "Enum_Skip v celt en =
     (if m_pAuthVector en
      then (let ulSize = of_nat (length v) in
            (S_OK, en\<lparr>m_ulCurrentMethod := if ulSize < celt + m_ulCurrentMethod en then m_ulCurrentMethod en + celt else ulSize\<rparr>))
      else (S_OK, en))"

definition Enum_Reset :: "CAuthMethodsEnum \<Rightarrow> HRESULT \<times> CAuthMethodsEnum" where
  "Enum_Reset en = (S_OK, en\<lparr>m_ulCurrentMethod := 0\<rparr>)"

definition Enum_Init :: "CAuthMethodsEnum \<Rightarrow> HRESULT \<times> CAuthMethodsEnum" where
  "Enum_Init en = (S_OK, en\<lparr>m_ulCurrentMethod := 0, m_pAuthVector := True\<rparr>)"

text \<open>
  A new enumerator, of the collection or of another enumerator.  The one that \<^verbatim>\<open>Clone\<close> makes starts at the first method, not where the
  other is, and it is deleted twice when \<^verbatim>\<open>QueryInterface\<close> fails.
\<close>

definition new_CAuthMethodsEnum :: CAuthMethodsEnum where
  "new_CAuthMethodsEnum = \<lparr>m_pAuthVector = False, m_ulCurrentMethod = 0\<rparr>"

definition AuthMethods_get__NewEnum :: "'w win32 \<Rightarrow> 'w authapi \<Rightarrow> CAuthMethods \<times> 'w
    \<Rightarrow> ((HRESULT \<times> CAuthMethodsEnum option) \<times> CAuthMethods \<times> 'w) option" where
  "AuthMethods_get__NewEnum api com s = do {
     (ok, m, w) \<leftarrow> initialized api com s;
     if \<not> ok then Some ((E_FAIL, None), m, w)
     else (case CreateEnum com w of (hr, w) \<Rightarrow>
       if \<not> SUCCEEDED hr then Some ((hr, None), m, w)
       else (case Enum_Init new_CAuthMethodsEnum of (_, en) \<Rightarrow>
         (case enum_QueryInterface com w of (hr, w) \<Rightarrow> Some ((hr, if SUCCEEDED hr then Some en else None), m, w)))) }"

definition Enum_Clone :: "'w authapi \<Rightarrow> CAuthMethodsEnum \<Rightarrow> 'w \<Rightarrow> ((HRESULT \<times> CAuthMethodsEnum option) \<times> 'w) option" where
  "Enum_Clone com en w =
     (if \<not> m_pAuthVector en then Some ((E_FAIL, None), w)
      else (case CreateEnum com w of (hr, w) \<Rightarrow>
        if \<not> SUCCEEDED hr then Some ((hr, None), w)
        else (case Enum_Init new_CAuthMethodsEnum of (_, en) \<Rightarrow>
          (case enum_QueryInterface com w of (hr, w) \<Rightarrow> if SUCCEEDED hr then Some ((hr, Some en), w) else None))))"

section \<open>Removing a method\<close>

text \<open>
  A collection that was read: the index refers to methods that exist and have a name, each once, and the
  current method, if there is one, is in the index.
\<close>

definition methods_ok :: "CAuthMethods \<Rightarrow> bool" where
  "methods_ok m \<longleftrightarrow> m_bIsInitialized m \<and> distinct (m_Index m) \<and> m_lCurrentMethodIndex m < int (length (m_Index m)) \<and>
     (\<forall>j \<in> set (m_Index m). \<exists>info name. peek (m_AuthVector m) j = Some (Some info) \<and> bstrName info = Some name)"

lemma method_at_ok: "methods_ok m \<Longrightarrow> i < length (m_Index m) \<Longrightarrow> \<exists>info name. method_at m i = Some info \<and> bstrName info = Some name"
  unfolding methods_ok_def method_at_def by (metis (no_types, lifting) bind.bind_lunit nth_mem peek_Some)

lemma find_name_ok:
  assumes "methods_ok m" "i + n \<le> length (m_Index m)"
  shows "\<exists>r. find_name m (Some b) i n = Some r \<and> (\<forall>k. r = Some k \<longrightarrow> k < i + n)"
  using assms(2)
proof (induction n arbitrary: i)
  case (Suc n)
  then obtain info name where "method_at m i = Some info" "bstrName info = Some name"
    using method_at_ok [OF assms(1), of i] by auto
  then show ?case using Suc.IH [of "Suc i"] Suc.prems by auto
qed simp

lemma position_of_id_ok:
  assumes "methods_ok m" "vID \<noteq> VT_BSTR None"
  shows "\<exists>r. position_of_id m vID = Some r \<and> (\<forall>k. r = Some k \<longrightarrow> k < length (m_Index m))"
proof (cases vID)
  case (VT_BSTR b)
  then show ?thesis using assms find_name_ok [of m 0 "length (m_Index m)"] by (auto simp: position_of_id_def)
qed (auto simp: position_of_id_def Let_def)

lemma erase_at_nth:
  assumes "i < length xs" "k < length xs" "k \<noteq> i"
  shows "erase_at i xs ! (if i < k then k - 1 else k) = xs ! k"
  using assms by (auto simp: erase_at_def nth_append min_def)

lemma length_erase_at [simp]: "i < length xs \<Longrightarrow> length (erase_at i xs) = length xs - 1"
  by (simp add: erase_at_def)

lemma set_erase_at: "distinct xs \<Longrightarrow> i < length xs \<Longrightarrow> set (erase_at i xs) = set xs - {xs ! i} \<and> distinct (erase_at i xs)"
proof -
  assume d: "distinct xs" "i < length xs"
  then have "xs = take i xs @ xs ! i # drop (Suc i) xs" by (simp add: id_take_nth_drop)
  with d(1) have "distinct (take i xs @ xs ! i # drop (Suc i) xs)" "set xs = set (take i xs @ xs ! i # drop (Suc i) xs)" by metis+
  then show ?thesis unfolding erase_at_def by (auto simp del: append_take_drop_id)
qed

text \<open>The method that is current.\<close>

definition current_method :: "CAuthMethods \<Rightarrow> AUTH_METHOD_INFO option" where
  "current_method m = (if m_lCurrentMethodIndex m < 0 then None else method_at m (nat (m_lCurrentMethodIndex m)))"

lemma remove_at_ok:
  assumes "methods_ok m" "i < length (m_Index m)" "length (m_Index m) \<noteq> 1"
  shows "methods_ok (remove_at i m)"
    "int i \<noteq> m_lCurrentMethodIndex m \<Longrightarrow> current_method (remove_at i m) = current_method m"
    "int i = m_lCurrentMethodIndex m \<Longrightarrow> m_lCurrentMethodIndex (remove_at i m) = 0"
proof -
  have d: "distinct (m_Index m)" "m_lCurrentMethodIndex m < int (length (m_Index m))" using assms(1) by (auto simp: methods_ok_def)
  then show "methods_ok (remove_at i m)"
    using assms set_erase_at [OF d(1) assms(2)] by (auto simp: methods_ok_def remove_at_def)
  show "int i = m_lCurrentMethodIndex m \<Longrightarrow> m_lCurrentMethodIndex (remove_at i m) = 0" by (simp add: remove_at_def)
  assume ne: "int i \<noteq> m_lCurrentMethodIndex m"
  show "current_method (remove_at i m) = current_method m"
  proof (cases "m_lCurrentMethodIndex m < 0")
    case True
    then show ?thesis using ne by (auto simp: current_method_def remove_at_def)
  next
    case False
    define k where "k = nat (m_lCurrentMethodIndex m)"
    have k: "m_lCurrentMethodIndex m = int k" "k < length (m_Index m)" "k \<noteq> i" using False d(2) ne by (auto simp: k_def)
    have "erase_at i (m_Index m) ! (if i < k then k - 1 else k) = m_Index m ! k" by (rule erase_at_nth [OF assms(2) k(2,3)])
    then show ?thesis
      using k assms(2) by (auto simp: current_method_def remove_at_def method_at_def nat_diff_distrib split: if_splits)
  qed
qed

text \<open>
  Removing a method from the collection takes exactly the method named, by its number or by its name,
  off the index; the last one stays.  The current method stays the current one, unless it is the one
  removed: then the first of the others is current.  The object stays well-formed, and the list of all
  methods, which is what is saved, does not change.  The result is an error in every case.
\<close>

theorem Remove_keeps_current:
  assumes "methods_ok m" "vID \<noteq> VT_BSTR None"
  shows "\<exists>pos hr m'. position_of_id m vID = Some pos \<and> AuthMethods_Remove api com vID (m, w) = Some (hr, m', w) \<and>
    \<not> SUCCEEDED hr \<and> methods_ok m' \<and> m_AuthVector m' = m_AuthVector m \<and>
    (if pos = None \<or> length (m_Index m) = 1 then m' = m
     else m_Index m' = erase_at (the pos) (m_Index m) \<and>
       (if int (the pos) = m_lCurrentMethodIndex m then m_lCurrentMethodIndex m' = 0 else current_method m' = current_method m))"
proof -
  obtain pos where pos: "position_of_id m vID = Some pos" "\<And>k. pos = Some k \<Longrightarrow> k < length (m_Index m)"
    using position_of_id_ok [OF assms] by blast
  have i: "initialized api com (m, w) = Some (True, m, w)" using assms(1) by (simp add: initialized_def methods_ok_def)
  have e: "\<not> SUCCEEDED E_FAIL" "\<not> SUCCEEDED E_INVALIDARG" by (simp_all add: SUCCEEDED_def E_FAIL_def E_INVALIDARG_def)
  show ?thesis
  proof (cases "pos = None \<or> length (m_Index m) = 1")
    case True
    then show ?thesis using pos(1) i e assms(1) by (auto simp: AuthMethods_Remove_def)
  next
    case False
    then obtain k where k: "pos = Some k" "k < length (m_Index m)" using pos(2) by auto
    have "AuthMethods_Remove api com vID (m, w) = Some (E_INVALIDARG, remove_at k m, w)"
      using i pos(1) k(1) False assms(1) by (simp add: AuthMethods_Remove_def methods_ok_def)
    then show ?thesis using pos(1) k False e remove_at_ok [OF assms(1) k(2)] by (auto simp: remove_at_def)
  qed
qed

section \<open>The enumerator delivers nothing\<close>

definition valid_at :: "AUTH_METHOD_INFO option list \<Rightarrow> nat \<Rightarrow> bool" where
  "valid_at v j \<longleftrightarrow> (\<exists>info. v ! j = Some info \<and> bIsValid info = Some True)"

lemma unat_succ: "unat (i :: DWORD) < n \<Longrightarrow> n < 4294967296 \<Longrightarrow> unat (i + 1) = unat i + 1"
  by (simp add: unat_word_ariths)

lemma Next_scan_end:
  assumes "Next_scan v i = Some k" "length v < 4294967296"
  shows "length v \<le> unat k \<and> (\<forall>j. unat i \<le> j \<and> j < length v \<longrightarrow> \<not> valid_at v j)"
proof -
  let ?P = "\<lambda>v i k. length v < 4294967296 \<longrightarrow> length v \<le> unat k \<and> (\<forall>j. unat i \<le> j \<and> j < length v \<longrightarrow> \<not> valid_at v j)"
  have "?P v i k"
  proof (rule Next_scan.raw_induct [where P = ?P, OF _ assms(1)])
    fix f and v :: "AUTH_METHOD_INFO option list" and i k :: DWORD
    assume ih: "\<And>v i k. f v i = Some k \<Longrightarrow> ?P v i k"
      and step: "(if unat i < length v then do { info \<leftarrow> v ! unat i; valid \<leftarrow> bIsValid info;
        (if \<not> valid then f v (i + 1) else f v i) } else Some i) = Some k"
    show "?P v i k"
    proof (cases "unat i < length v")
      case True
      then obtain info valid where e: "v ! unat i = Some info" "bIsValid info = Some valid"
        "(if \<not> valid then f v (i + 1) else f v i) = Some k"
        using step by (auto split: bind_splits)
      show ?thesis
      proof (intro impI)
        assume l: "length v < 4294967296"
        show "length v \<le> unat k \<and> (\<forall>j. unat i \<le> j \<and> j < length v \<longrightarrow> \<not> valid_at v j)"
        proof (cases valid)
          case True
          then show ?thesis using ih [of v i k] e l by simp
        next
          case False
          then have n: "length v \<le> unat k" "\<forall>j. unat (i + 1) \<le> j \<and> j < length v \<longrightarrow> \<not> valid_at v j"
            using ih [of v "i + 1" k] e(3) l by simp_all
          have "\<not> valid_at v (unat i)" using e False by (simp add: valid_at_def)
          then have "\<not> valid_at v j" if "unat i \<le> j" "j < length v" for j
            using n(2) unat_succ [OF \<open>unat i < length v\<close> l] that by (cases "j = unat i") auto
          then show ?thesis using n(1) by blast
        qed
      qed
    qed (use step in auto)
  qed
  then show ?thesis using assms(2) by blast
qed

lemma Next_scan_skips:
  assumes "length v < 4294967296" "\<And>j. unat i \<le> j \<Longrightarrow> j < length v \<Longrightarrow> \<exists>info. v ! j = Some info \<and> bIsValid info = Some False"
  shows "\<exists>k. Next_scan v i = Some k"
  using assms(2)
proof (induction "length v - unat i" arbitrary: i)
  case 0
  then show ?case by (simp add: Next_scan.simps)
next
  case (Suc n)
  then have l: "unat i < length v" by simp
  note s = unat_succ [OF l assms(1)]
  obtain info where "v ! unat i = Some info" "bIsValid info = Some False" using Suc.prems [of "unat i"] l by blast
  moreover have "n = length v - unat (i + 1)" using Suc.hyps(2) s by linarith
  then obtain k where "Next_scan v (i + 1) = Some k" using Suc.hyps(1) [of "i + 1"] Suc.prems s by fastforce
  ultimately show ?case using l by (subst Next_scan.simps) simp
qed

text \<open>
  The enumerator of the methods never delivers one.  When a method at its position or behind it is
  valid, \<^verbatim>\<open>Next\<close> does not return: its loop does not leave a valid method.  When none is, it returns \<^verbatim>\<open>E_FAIL\<close>.
\<close>

theorem Next_never_delivers:
  assumes "m_pAuthVector en" "celt \<noteq> 0" "length v < 4294967296"
    "\<forall>j < length v. \<exists>info b. v ! j = Some info \<and> bIsValid info = Some b"
  shows "if \<exists>j. unat (m_ulCurrentMethod en) \<le> j \<and> j < length v \<and> valid_at v j then Enum_Next com v celt (en, w) = None
    else \<exists>en'. Enum_Next com v celt (en, w) = Some ((E_FAIL, None), en', w)"
proof (cases "\<exists>j. unat (m_ulCurrentMethod en) \<le> j \<and> j < length v \<and> valid_at v j")
  case True
  then have "Next_scan v (m_ulCurrentMethod en) = None" using Next_scan_end [OF _ assms(3)] by (metis not_Some_eq)
  then show ?thesis using True assms(1,2) by (simp add: Enum_Next_def)
next
  case False
  have "\<exists>info. v ! j = Some info \<and> bIsValid info = Some False" if j: "unat (m_ulCurrentMethod en) \<le> j" "j < length v" for j
  proof -
    obtain info b where "v ! j = Some info" "bIsValid info = Some b" using assms(4) j(2) by blast
    then show ?thesis using False j by (cases b) (auto simp: valid_at_def)
  qed
  then obtain k where k: "Next_scan v (m_ulCurrentMethod en) = Some k" using Next_scan_skips [OF assms(3)] by blast
  then show ?thesis using False assms(1,2) Next_scan_end [OF k assms(3)] by (simp add: Enum_Next_def Let_def)
qed

section \<open>Saving and reading\<close>

definition multi_text :: "wstring list \<Rightarrow> wstring" where
  "multi_text gs = concat (map (\<lambda>g. g @ [0]) gs) @ [0]"

lemma bytes_words_append: "bytes_words (wcs_bytes g @ bs) = g @ 0 # bytes_words bs"
  by (induction g) (simp_all add: wcs_bytes_def wchar_halves)

lemma bytes_words_multi: "bytes_words (multi_sz_bytes gs) = multi_text gs"
  by (induction gs) (simp_all add: multi_sz_bytes_def multi_text_def bytes_words_append)

lemma length_multi: "length (multi_sz_bytes gs) = 2 * length (multi_text gs)"
  by (induction gs) (simp_all add: multi_sz_bytes_def multi_text_def)

lemma wcslen_append [simp]: "0 \<notin> set g \<Longrightarrow> wcslen (g @ 0 # rest) = length g"
  by (induction g) (auto simp: wcslen_def)

fun valid_positions :: "nat \<Rightarrow> nat \<Rightarrow> wstring list \<Rightarrow> nat list" where
  "valid_positions role k [] = []"
| "valid_positions role k (g # gs) =
     (if SUCCEEDED (VerifyAuthMethod g role) then [k] else []) @ valid_positions role (Suc k) gs"

lemma valid_positions_filter:
  "valid_positions role k gs = map ((+) k) (filter (\<lambda>i. SUCCEEDED (VerifyAuthMethod (gs ! i) role)) [0..<length gs])"
proof (induction gs arbitrary: k)
  case (Cons g gs)
  have "[0..<length (g # gs)] = 0 # map Suc [0..<length gs]" by (simp only: length_Cons map_Suc_upt upt_conv_Cons zero_less_Suc)
  then show ?case using Cons by (simp add: filter_map comp_def)
qed simp

text \<open>
  What saving and reading rely on, beside the laws of the registry: memory and handles are independent of
  the registry, asking for the size of a value gives it, and neither the objects of the administration nor
  the question for the role of the machine changes a value.
\<close>

definition methods_laws :: "'w win32 \<Rightarrow> 'w authapi \<Rightarrow> ('w \<Rightarrow> HANDLE \<Rightarrow> (regkey \<times> DWORD) option)
    \<Rightarrow> ('w \<Rightarrow> regkey \<times> wstring \<Rightarrow> BYTE list option) \<Rightarrow> bool" where
  "methods_laws api com key_of val \<longleftrightarrow> registry_laws api key_of val \<and>
     (\<forall>w. val (snd (alloc api w)) = val w \<and> key_of (snd (alloc api w)) = key_of w) \<and>
     (\<forall>w h name n. key_of (snd (RegQueryValueEx api w h name n)) = key_of w) \<and>
     (\<forall>w h name t bs. key_of (snd (RegSetValueEx api w h name t bs)) = key_of w) \<and>
     (\<forall>w h name. val (snd (RegQueryValueSize com w h name)) = val w \<and> key_of (snd (RegQueryValueSize com w h name)) = key_of w \<and>
        (\<forall>p s bs. key_of w h = Some (p, s) \<longrightarrow> s AND KEY_QUERY_VALUE \<noteq> 0 \<longrightarrow> val w (p, name) = Some bs \<longrightarrow>
           fst (RegQueryValueSize com w h name) = (ERROR_SUCCESS, length bs))) \<and>
     (\<forall>w m. val (snd (DsRoleGetPrimaryDomainInformation com w m)) = val w) \<and>
     (\<forall>w m. val (snd (config_put_MachineName com w m)) = val w) \<and>
     (\<forall>w. val (snd (CreateConfig com w)) = val w \<and> val (snd (config_get_Domains com w)) = val w \<and>
        val (snd (domains_get_Count com w)) = val w \<and> val (snd (IsServiceRunning com w)) = val w \<and>
        val (snd (RestartService com w)) = val w)"

lemma methods_lawsD:
  assumes "methods_laws api com key_of val"
  shows "registry_laws api key_of val"
    "alloc api w = (ok, w') \<Longrightarrow> val w' = val w \<and> key_of w' = key_of w"
    "RegQueryValueEx api w h name n = (r, w') \<Longrightarrow> key_of w' = key_of w"
    "RegSetValueEx api w h name t bs = (e, w') \<Longrightarrow> key_of w' = key_of w"
    "RegQueryValueSize com w h name = (q, w') \<Longrightarrow> val w' = val w \<and> key_of w' = key_of w"
    "RegQueryValueSize com w h name = (q, w') \<Longrightarrow> key_of w h = Some (p, s) \<Longrightarrow> s AND KEY_QUERY_VALUE \<noteq> 0 \<Longrightarrow>
       val w (p, name) = Some bs \<Longrightarrow> q = (ERROR_SUCCESS, length bs)"
    "DsRoleGetPrimaryDomainInformation com w m = (x, w') \<Longrightarrow> val w' = val w"
    "count_domains com m w = (y, w') \<Longrightarrow> val w' = val w"
    "IsServiceRunning com w = (b, w') \<Longrightarrow> val w' = val w" "RestartService com w = (hr, w') \<Longrightarrow> val w' = val w"
proof -
  note l = assms [unfolded methods_laws_def]
  show "registry_laws api key_of val" using l by blast
  show "alloc api w = (ok, w') \<Longrightarrow> val w' = val w \<and> key_of w' = key_of w" using l [THEN conjunct2, THEN conjunct1] by (metis snd_conv)
  show "RegQueryValueEx api w h name n = (r, w') \<Longrightarrow> key_of w' = key_of w"
    using l [THEN conjunct2, THEN conjunct2, THEN conjunct1] by (metis snd_conv)
  show "RegSetValueEx api w h name t bs = (e, w') \<Longrightarrow> key_of w' = key_of w"
    using l [THEN conjunct2, THEN conjunct2, THEN conjunct2, THEN conjunct1] by (metis snd_conv)
  note size = l [THEN conjunct2, THEN conjunct2, THEN conjunct2, THEN conjunct2, THEN conjunct1]
  show "RegQueryValueSize com w h name = (q, w') \<Longrightarrow> val w' = val w \<and> key_of w' = key_of w" using size by (metis snd_conv)
  show "RegQueryValueSize com w h name = (q, w') \<Longrightarrow> key_of w h = Some (p, s) \<Longrightarrow> s AND KEY_QUERY_VALUE \<noteq> 0 \<Longrightarrow>
       val w (p, name) = Some bs \<Longrightarrow> q = (ERROR_SUCCESS, length bs)" using size by (metis fst_conv)
  note rest = l [THEN conjunct2, THEN conjunct2, THEN conjunct2, THEN conjunct2, THEN conjunct2]
  show "DsRoleGetPrimaryDomainInformation com w m = (x, w') \<Longrightarrow> val w' = val w" using rest by (metis snd_conv)
  show "IsServiceRunning com w = (b, w') \<Longrightarrow> val w' = val w" "RestartService com w = (hr, w') \<Longrightarrow> val w' = val w"
    using rest by (metis snd_conv)+
  have k: "CreateConfig com a = (x1, b1) \<Longrightarrow> val b1 = val a" "config_put_MachineName com a m = (x2, b2) \<Longrightarrow> val b2 = val a"
    "config_get_Domains com a = (x3, b3) \<Longrightarrow> val b3 = val a" "domains_get_Count com a = (x4, b4) \<Longrightarrow> val b4 = val a"
    for a b1 b2 b3 b4 x1 x2 x3 x4
    using rest by (metis snd_conv)+
  show "count_domains com m w = (y, w') \<Longrightarrow> val w' = val w"
    by (auto simp: count_domains_def split: prod.splits if_splits dest!: k)
qed

abbreviation auth_key :: "CAuthMethods \<Rightarrow> regkey" where
  "auth_key m \<equiv> hklm (m_bstrServerName m) POP3SERVER_AUTH_SUBKEY"

lemma Save_stores:
  assumes laws: "methods_laws api com key_of val" and save: "AuthMethods_Save api com (m, w) = Some (S_OK, m', w')"
    and init: "m_bIsInitialized m" and gs: "all_guids (m_AuthVector m) = Some gs"
  shows "gs \<noteq> [] \<and> 0 \<le> m_lCurrentMethodIndex m \<and> nat (m_lCurrentMethodIndex m) < length (m_Index m) \<and>
    val w' (auth_key m, VALUENAME_AUTHMETHODS) = Some (multi_sz_bytes gs) \<and>
    val w' (auth_key m, VALUENAME_DEFAULTAUTH) = Some (dword_bytes (of_nat (m_Index m ! nat (m_lCurrentMethodIndex m))))"
proof -
  note law = methods_lawsD [OF laws]
  note reg = registry_lawsD [OF law(1)]
  obtain w1 where 1: "alloc api w = (True, w1)" and ne: "gs \<noteq> []"
    using save init gs by (auto simp: AuthMethods_Save_def split: prod.splits if_splits)
  obtain k w2 where 2: "RegHKLMOpenKey api POP3SERVER_AUTH_SUBKEY KEY_SET_VALUE (m_bstrServerName m) w1 = Some ((ERROR_SUCCESS, k), w2)"
    using save init gs 1 by (auto simp: AuthMethods_Save_def split: prod.splits if_splits bind_splits)
  obtain w3 where 3: "RegSetValueEx api w2 k VALUENAME_AUTHMETHODS REG_MULTI_SZ (multi_sz_bytes gs) = (ERROR_SUCCESS, w3)"
    using save init gs 1 2 by (auto simp: AuthMethods_Save_def split: prod.splits if_splits)
  obtain j w4 where j: "0 \<le> m_lCurrentMethodIndex m" "peek (m_Index m) (nat (m_lCurrentMethodIndex m)) = Some j" and
    4: "RegSetValueEx api w3 k VALUENAME_DEFAULTAUTH REG_DWORD (dword_bytes (of_nat j)) = (ERROR_SUCCESS, w4)"
    using save init gs 1 2 3 by (auto simp: AuthMethods_Save_def not_less split: prod.splits if_splits bind_splits)
  obtain hr w5 where 5: "Save_restart com (m_bstrServerName m) w4 = (hr, w5)" by fastforce
  have w': "w' = RegCloseKey api w5 k"
    using save init gs ne 1 2 3 j 4 5 by (auto simp: AuthMethods_Save_def not_less split: if_splits)
  have key: "key_of w2 k = Some (auth_key m, KEY_SET_VALUE)" using RegHKLMOpenKey_laws(2) [OF law(1) 2] by simp
  have v3: "val w3 = (val w2)((auth_key m, VALUENAME_AUTHMETHODS) \<mapsto> multi_sz_bytes gs)" by (rule reg(10) [OF 3 key])
  have v4: "val w4 = (val w3)((auth_key m, VALUENAME_DEFAULTAUTH) \<mapsto> dword_bytes (of_nat j))"
    using reg(10) [OF 4] key law(4) [OF 3] by simp
  have v5: "val w' = val w4"
    using 5 law(8,9,10) reg(6) w' by (fastforce simp: Save_restart_def split: prod.splits if_splits)
  have "VALUENAME_AUTHMETHODS \<noteq> VALUENAME_DEFAULTAUTH" by (simp add: VALUENAME_AUTHMETHODS_def VALUENAME_DEFAULTAUTH_def wide_def)
  then show ?thesis using ne j v3 v4 v5 by (auto simp: peek_eq_Some_iff)
qed

text \<open>An identifier for which the system makes an object with a name.\<close>

definition creatable :: "'w authapi \<Rightarrow> ('w \<Rightarrow> 'r) \<Rightarrow> wstring \<Rightarrow> bool" where
  "creatable com val g \<longleftrightarrow> 0 \<notin> set g \<and> UuidFromString com g \<and>
     (\<forall>w. \<exists>p w1 name w2. CreateMethod com w g = ((S_OK, p), w1) \<and> p \<noteq> NULL_HANDLE \<and>
        method_get_Name com w1 p = ((S_OK, Some (Some name)), w2) \<and> val w2 = val w)"

lemma Populate_one_adds:
  assumes laws: "methods_laws api com key_of val" and mem: "\<forall>w. fst (alloc api w)" and g: "creatable com val g"
  shows "\<exists>info w'. Populate_one api com g (m, w) = Some (True, m\<lparr>m_AuthVector := m_AuthVector m @ [Some info],
      m_Index := m_Index m @ valid_positions (m_lMachineRole m) (length (m_AuthVector m)) [g]\<rparr>, w') \<and>
    bstrGuid info = g \<and> val w' = val w"
proof -
  obtain w1 w2 where a: "alloc api w = (True, w1)" "alloc api w1 = (True, w2)" using mem by (metis prod.collapse)
  have v: "val w2 = val w" using methods_lawsD(2) [OF laws] a by metis
  obtain p w3 name w4 where c: "CreateMethod com w2 g = ((S_OK, p), w3)" "p \<noteq> NULL_HANDLE"
    "method_get_Name com w3 p = ((S_OK, Some (Some name)), w4)" "val w4 = val w2"
    using g unfolding creatable_def by blast
  have "UuidFromString com g" using g by (simp add: creatable_def)
  then show ?thesis using a c v by (auto simp: Populate_one_def CreateObj_def Let_def)
qed

lemma multi_text_Cons: "multi_text (g # gs) = g @ 0 # multi_text gs"
  by (simp add: multi_text_def)

lemma Populate_loop_adds:
  assumes laws: "methods_laws api com key_of val" and mem: "\<forall>w. fst (alloc api w)" and gs: "\<forall>g \<in> set gs. creatable com val g"
  shows "\<exists>infos w'. Populate_loop api com (multi_text gs) (m, w) = Some (True, m\<lparr>m_AuthVector := m_AuthVector m @ map Some infos,
      m_Index := m_Index m @ valid_positions (m_lMachineRole m) (length (m_AuthVector m)) gs\<rparr>, w') \<and>
    map bstrGuid infos = gs \<and> val w' = val w"
  using gs
proof (induction gs arbitrary: m w)
  case Nil
  have "Populate_loop api com (multi_text []) (m, w) = Some (True, m, w)" by (simp add: multi_text_def wcslen_def)
  then show ?case by (intro exI [of _ "[]"]) simp
next
  case (Cons g gs)
  have z: "0 \<notin> set g" using Cons.prems by (simp add: creatable_def)
  have l: "wcslen (multi_text (g # gs)) = length g" "length (multi_text gs) > 0"
    using z by (simp_all add: multi_text_Cons) (simp add: multi_text_def)
  have cut: "take (length g) (multi_text (g # gs)) = g" "drop (length g + 1) (multi_text (g # gs)) = multi_text gs"
    "length g < length (multi_text (g # gs)) - 1" using l(2) by (simp_all add: multi_text_Cons)
  obtain info w1 where one: "Populate_one api com g (m, w) = Some (True, m\<lparr>m_AuthVector := m_AuthVector m @ [Some info],
      m_Index := m_Index m @ valid_positions (m_lMachineRole m) (length (m_AuthVector m)) [g]\<rparr>, w1)" (is "_ = Some (True, ?m, w1)")
    "bstrGuid info = g" "val w1 = val w"
    using Populate_one_adds [OF laws mem] Cons.prems by (metis list.set_intros(1))
  obtain infos w' where rest: "Populate_loop api com (multi_text gs) (?m, w1) = Some (True, ?m\<lparr>m_AuthVector := m_AuthVector ?m @ map Some infos,
      m_Index := m_Index ?m @ valid_positions (m_lMachineRole ?m) (length (m_AuthVector ?m)) gs\<rparr>, w')"
    "map bstrGuid infos = gs" "val w' = val w1"
    using Cons.IH [of ?m w1] Cons.prems by auto
  have "Populate_loop api com (multi_text (g # gs)) (m, w) = Populate_loop api com (multi_text gs) (?m, w1)"
    by (subst Populate_loop.simps) (simp only: l(1) cut one(1) if_True bind.simps prod.case)
  then show ?case using rest one(2,3) by (intro exI [of _ "info # infos"] exI [of _ w']) (simp del: Populate_loop.simps)
qed

lemma all_guids_map: "all_guids (map Some infos) = Some (map bstrGuid infos)"
  by (induction infos) simp_all

lemma position_of_spec:
  assumes "distinct xs"
  shows "case position_of l xs of None \<Rightarrow> l \<notin> int ` set xs | Some i \<Rightarrow> i < length xs \<and> int (xs ! i) = l"
proof (cases "filter (\<lambda>i. int (xs ! i) = l) [0..<length xs]")
  case Nil
  then show ?thesis by (fastforce simp: position_of_def filter_empty_conv in_set_conv_nth)
next
  case (Cons i rest)
  then have "i \<in> set (filter (\<lambda>i. int (xs ! i) = l) [0..<length xs])" by simp
  then have "i < length xs \<and> int (xs ! i) = l" by simp
  then show ?thesis using Cons by (simp add: position_of_def)
qed

lemma Initialize_values_reads:
  assumes laws: "methods_laws api com key_of val" and mem: "\<forall>w. fst (alloc api w)"
    and gs: "gs \<noteq> []" "\<forall>g \<in> set gs. creatable com val g"
    and key: "key_of w k = Some (key, KEY_QUERY_VALUE)"
    and v: "val w (key, VALUENAME_AUTHMETHODS) = Some (multi_sz_bytes gs)" "val w (key, VALUENAME_DEFAULTAUTH) = Some (dword_bytes d)"
    and m: "m_AuthVector m = []" "m_Index m = []"
  shows "\<exists>m' w'. Initialize_values api com k (m, w) = Some (True, m', w') \<and> all_guids (m_AuthVector m') = Some gs \<and>
    m_Index m' = valid_positions (m_lMachineRole m) 0 gs \<and> m_bIsInitialized m' \<and> m_bstrServerName m' = m_bstrServerName m \<and>
    m_lCurrentMethodIndex m' = (case position_of (sint d) (m_Index m') of None \<Rightarrow> m_lCurrentMethodIndex m | Some i \<Rightarrow> int i)"
proof -
  note law = methods_lawsD [OF laws]
  note reg = registry_lawsD [OF law(1)]
  have q: "KEY_QUERY_VALUE AND KEY_QUERY_VALUE \<noteq> 0" by (simp add: KEY_QUERY_VALUE_def)
  let ?n = "length (multi_sz_bytes gs)"
  obtain r1 w1 where 1: "RegQueryValueEx api w k VALUENAME_DEFAULTAUTH 4 = (r1, w1)" by fastforce
  have r1: "r1 = (ERROR_SUCCESS, dword_bytes d, 4)" using reg(9) [OF 1 key q v(2)] by simp
  have k1: "key_of w1 k = Some (key, KEY_QUERY_VALUE)" "val w1 = val w" using law(3) [OF 1] reg(8) [OF 1] key by auto
  obtain r2 w2 where 2: "RegQueryValueSize com w1 k VALUENAME_AUTHMETHODS = (r2, w2)" by fastforce
  have r2: "r2 = (ERROR_SUCCESS, ?n)" using law(6) [OF 2 k1(1) q] v(1) k1(2) by simp
  obtain w3 where 3: "alloc api w2 = (True, w3)" using mem by (metis prod.collapse)
  have k3: "key_of w3 k = Some (key, KEY_QUERY_VALUE)" "val w3 = val w" using law(2) [OF 3] law(5) [OF 2] k1 by auto
  obtain r4 w4 where 4: "RegQueryValueEx api w3 k VALUENAME_AUTHMETHODS ?n = (r4, w4)" by fastforce
  have r4: "r4 = (ERROR_SUCCESS, multi_sz_bytes gs, ?n)" using reg(9) [OF 4 k3(1) q] v(1) k3(2) by simp
  obtain infos w5 where 5: "Populate_loop api com (multi_text gs) (m, w4) = Some (True, m\<lparr>m_AuthVector := map Some infos,
      m_Index := valid_positions (m_lMachineRole m) 0 gs\<rparr>, w5)" "map bstrGuid infos = gs"
    using Populate_loop_adds [OF laws mem gs(2), of m w4] m by auto
  let ?len = "length (multi_text gs)"
  have l: "0 < ?len" "multi_text gs ! (?len - 1) = 0" by (simp_all add: multi_text_def nth_append)
  have len: "?n div 2 = ?len" "bytes_words (multi_sz_bytes gs) = multi_text gs" by (simp_all add: length_multi bytes_words_multi)
  have "PopulateAuthMethods api com (multi_sz_bytes gs) ?n (m, w4) =
    Some (True, m\<lparr>m_AuthVector := map Some infos, m_Index := valid_positions (m_lMachineRole m) 0 gs\<rparr>, w5)"
    using l 5(1) by (simp add: PopulateAuthMethods_def len Let_def del: Populate_loop.simps)
  moreover have "stored ?n (replicate ?n 0) (multi_sz_bytes gs) = multi_sz_bytes gs" by (simp add: stored_def)
  ultimately show ?thesis
    using 1 r1 2 r2 3 4 r4 5(2) by (simp add: Initialize_values_def Let_def all_guids_map split: option.splits)
qed

text \<open>
  C30.  What \<^verbatim>\<open>Save\<close> wrote is what a new collection reads: when \<^verbatim>\<open>Save\<close> succeeded, \<^verbatim>\<open>Initialize\<close> of a new object for
  the same machine gives the same identifiers in the same order, its index lists exactly the methods that
  may be used in the role the machine has, and the current method is the one that was current, if it is
  among them; otherwise there is none.
\<close>

theorem Save_Initialize:
  assumes laws: "methods_laws api com key_of val" and mem: "\<forall>w. fst (alloc api w)"
    and save: "AuthMethods_Save api com (m, w) = Some (S_OK, m', w1)" "m_bIsInitialized m"
    and gs: "all_guids (m_AuthVector m) = Some gs" "\<forall>g \<in> set gs. creatable com val g"
    and small: "\<forall>j \<in> set (m_Index m). j < 2147483648"
    and role: "DsRoleGetPrimaryDomainInformation com w1 (m_bstrServerName m) = ((ERROR_SUCCESS, r), w2)"
    and key: "RegHKLMOpenKey api POP3SERVER_AUTH_SUBKEY KEY_QUERY_VALUE (m_bstrServerName m) w2 = Some ((ERROR_SUCCESS, k), w3)"
  shows "\<exists>m2 w4. AuthMethods_Initialize api com (new_CAuthMethods\<lparr>m_bstrServerName := m_bstrServerName m\<rparr>, w1) = Some (True, m2, w4) \<and>
    all_guids (m_AuthVector m2) = Some gs \<and>
    m_Index m2 = filter (\<lambda>i. SUCCEEDED (VerifyAuthMethod (gs ! i) (role_of r))) [0..<length gs] \<and>
    (let j = m_Index m ! nat (m_lCurrentMethodIndex m) in
     if j \<in> set (m_Index m2) then 0 \<le> m_lCurrentMethodIndex m2 \<and> m_lCurrentMethodIndex m2 < int (length (m_Index m2)) \<and>
       m_Index m2 ! nat (m_lCurrentMethodIndex m2) = j
     else m_lCurrentMethodIndex m2 = -1)"
proof -
  let ?m = "new_CAuthMethods\<lparr>m_bstrServerName := m_bstrServerName m, m_lMachineRole := role_of r\<rparr>"
  define j where "j = m_Index m ! nat (m_lCurrentMethodIndex m)"
  note law = methods_lawsD [OF laws]
  note st = Save_stores [OF laws save gs(1)]
  have j: "j < 2147483648" "sint (of_nat j :: DWORD) = int j"
  proof -
    show "j < 2147483648" using st small by (auto simp: j_def)
    then show "sint (of_nat j :: DWORD) = int j" by (simp add: signed_of_nat signed_take_bit_int_eq_self)
  qed
  have "val w3 = val w1" using law(7) [OF role] RegHKLMOpenKey_laws(1) [OF law(1) key] by simp
  then have v: "val w3 (auth_key m, VALUENAME_AUTHMETHODS) = Some (multi_sz_bytes gs)"
    "val w3 (auth_key m, VALUENAME_DEFAULTAUTH) = Some (dword_bytes (of_nat j))" using st by (simp_all add: j_def)
  have key3: "key_of w3 k = Some (auth_key m, KEY_QUERY_VALUE)" using RegHKLMOpenKey_laws(2) [OF law(1) key] by simp
  obtain m2 w5 where i: "Initialize_values api com k (?m, w3) = Some (True, m2, w5)" "all_guids (m_AuthVector m2) = Some gs"
    "m_Index m2 = valid_positions (m_lMachineRole ?m) 0 gs"
    "m_lCurrentMethodIndex m2 = (case position_of (sint (of_nat j :: DWORD)) (m_Index m2) of None \<Rightarrow> m_lCurrentMethodIndex ?m | Some i \<Rightarrow> int i)"
    using Initialize_values_reads [OF laws mem _ gs(2) key3 v, of ?m] st by (auto simp: new_CAuthMethods_def)
  have run: "AuthMethods_Initialize api com (new_CAuthMethods\<lparr>m_bstrServerName := m_bstrServerName m\<rparr>, w1) = Some (True, m2, RegCloseKey api w5 k)"
    using role key i(1) by (simp add: AuthMethods_Initialize_def SetMachineRole_def new_CAuthMethods_def)
  have ix: "m_Index m2 = filter (\<lambda>i. SUCCEEDED (VerifyAuthMethod (gs ! i) (role_of r))) [0..<length gs]"
    using i(3) by (simp add: valid_positions_filter map_idI)
  then have d: "distinct (m_Index m2)" by simp
  have "if j \<in> set (m_Index m2) then 0 \<le> m_lCurrentMethodIndex m2 \<and> m_lCurrentMethodIndex m2 < int (length (m_Index m2)) \<and>
       m_Index m2 ! nat (m_lCurrentMethodIndex m2) = j
     else m_lCurrentMethodIndex m2 = -1"
    using position_of_spec [OF d, of "int j"] i(4) j(2) by (auto simp: new_CAuthMethods_def split: option.splits)
  then show ?thesis using run i(2) ix unfolding j_def Let_def by blast
qed

section \<open>A machine with two methods\<close>

text \<open>
  Methods that can all be made, on the small operating system of \<^verbatim>\<open>Sim_Os\<close>: a machine without a domain and with
  no domain of mail yet.
\<close>

definition sim_com :: "sim authapi" where
  "sim_com = \<lparr>
     RegQueryValueSize = (\<lambda>w h name. case sim_query_value w h name 0 of ((e, bs, n), w') \<Rightarrow>
        ((if e = 234 \<or> (e = 0 \<and> n = 0) then ERROR_SUCCESS else e, n), w)),
     DsRoleGetPrimaryDomainInformation = (\<lambda>w m. ((ERROR_SUCCESS, DsRole_RoleStandaloneServer), w)),
     UuidFromString = (\<lambda>g. True),
     CreateMethod = (\<lambda>w g. ((S_OK, 7), w)),
     method_get_Name = (\<lambda>w p. ((S_OK, Some (Some (wide ''name''))), w)),
     method_QueryInterface = (\<lambda>w p. (S_OK, w)),
     VariantCopy = (\<lambda>w p. (S_OK, w)),
     method_PutServerName = (\<lambda>w p n. (S_OK, w)),
     method_Release = (\<lambda>w p. w),
     CreateConfig = (\<lambda>w. (S_OK, w)),
     config_put_MachineName = (\<lambda>w m. (S_OK, w)),
     config_get_Domains = (\<lambda>w. (S_OK, w)),
     domains_get_Count = (\<lambda>w. ((S_OK, 0), w)),
     IsServiceRunning = (\<lambda>w. (False, w)),
     CreateEnum = (\<lambda>w. (S_OK, w)),
     enum_QueryInterface = (\<lambda>w. (S_OK, w)),
     RestartService = (\<lambda>w. (S_OK, w))\<rparr>"

definition two_methods :: CAuthMethods where
  "two_methods = \<lparr>m_bIsInitialized = True, m_lCurrentMethodIndex = 1, m_bstrServerName = None,
     m_AuthVector = [Some \<lparr>pIAuthMethod = Some 7, bstrGuid = SZ_AUTH_ID_LOCAL_SAM, bstrName = Some (wide ''SAM''), bIsValid = Some True\<rparr>,
                     Some \<lparr>pIAuthMethod = Some 8, bstrGuid = SZ_AUTH_ID_MD5_HASH, bstrName = Some (wide ''MD5''), bIsValid = Some True\<rparr>],
     m_Index = [0, 1], m_lMachineRole = NO_DOMAIN\<rparr>"

lemma sim_methods_laws: "methods_laws sim_api sim_com sim_key_of (\<lambda>w. map_of (sim_reg w))"
  unfolding methods_laws_def
  by (intro conjI allI impI sim_registry_laws)
    (auto simp: sim_com_def sim_api_def sim_query_value_def sim_set_value_def ERROR_SUCCESS_def ERROR_INVALID_HANDLE_def
      ERROR_ACCESS_DENIED_def ERROR_FILE_NOT_FOUND_def sim_key_of_def split: option.splits prod.splits if_splits)

lemma sim_creatable: "0 \<notin> set g \<Longrightarrow> creatable sim_com (\<lambda>w. map_of (sim_reg w)) g"
  by (simp add: creatable_def sim_com_def)

lemma two_methods_ok: "methods_ok two_methods"
  by (simp add: methods_ok_def two_methods_def)

theorem Remove_keeps_current_witness:
  "\<exists>m'. AuthMethods_Remove sim_api sim_com (VT_I4 1) (two_methods, sim_start) = Some (E_INVALIDARG, m', sim_start) \<and>
     m_Index m' = [1] \<and> current_method m' = current_method two_methods"
proof -
  have p: "position_of_id two_methods (VT_I4 1) = Some (Some 0)" by (simp add: position_of_id_def two_methods_def)
  have "AuthMethods_Remove sim_api sim_com (VT_I4 1) (two_methods, sim_start) = Some (E_INVALIDARG, remove_at 0 two_methods, sim_start)"
    using p by (simp add: AuthMethods_Remove_def initialized_def) (simp add: two_methods_def)
  with p Remove_keeps_current [OF two_methods_ok, of "VT_I4 1" sim_api sim_com sim_start] show ?thesis
    by (auto simp: two_methods_def erase_at_def)
qed

theorem Next_never_delivers_witness:
  "Enum_Next sim_com (m_AuthVector two_methods) 1 (\<lparr>m_pAuthVector = True, m_ulCurrentMethod = 0\<rparr>, sim_start) = None"
proof -
  let ?v = "m_AuthVector two_methods" and ?en = "\<lparr>m_pAuthVector = True, m_ulCurrentMethod = 0\<rparr>"
  have v: "\<forall>j < length ?v. \<exists>info b. ?v ! j = Some info \<and> bIsValid info = Some b"
    by (auto simp: two_methods_def less_Suc_eq)
  have "unat (m_ulCurrentMethod ?en) \<le> 0 \<and> 0 < length ?v \<and> valid_at ?v 0" by (simp add: two_methods_def valid_at_def)
  then have "\<exists>j. unat (m_ulCurrentMethod ?en) \<le> j \<and> j < length ?v \<and> valid_at ?v j" by blast
  moreover have "length ?v < 4294967296" by (simp add: two_methods_def)
  ultimately show ?thesis using Next_never_delivers [of ?en 1 ?v sim_com sim_start] v by simp
qed

theorem Save_Initialize_witness:
  "\<exists>w1 m2 w4. AuthMethods_Save sim_api sim_com (two_methods, sim_start) = Some (S_OK, two_methods, w1) \<and>
     AuthMethods_Initialize sim_api sim_com (new_CAuthMethods, w1) = Some (True, m2, w4) \<and>
     all_guids (m_AuthVector m2) = Some [SZ_AUTH_ID_LOCAL_SAM, SZ_AUTH_ID_MD5_HASH] \<and>
     m_Index m2 = [0, 1] \<and> m_lCurrentMethodIndex m2 = 1"
proof -
  let ?gs = "[SZ_AUTH_ID_LOCAL_SAM, SZ_AUTH_ID_MD5_HASH]"
  have gs: "all_guids (m_AuthVector two_methods) = Some ?gs" by (simp add: two_methods_def)
  obtain w1 where s: "AuthMethods_Save sim_api sim_com (two_methods, sim_start) = Some (S_OK, two_methods, w1)"
    by (auto simp: AuthMethods_Save_def two_methods_def Save_restart_def count_domains_def sim_com_def RegHKLMOpenKey_def sim_api_def
        sim_open_key_def sim_key_of_def sim_new_key_def Let_def sim_start_def sim_set_value_def KEY_SET_VALUE_def
        HKEY_LOCAL_MACHINE_def ERROR_SUCCESS_def)
  have c: "\<forall>g \<in> set ?gs. creatable sim_com (\<lambda>w. map_of (sim_reg w)) g"
    by (auto intro!: sim_creatable simp: SZ_AUTH_ID_LOCAL_SAM_def SZ_AUTH_ID_MD5_HASH_def wide_def)
  have a: "\<forall>w. fst (alloc sim_api w)" by (simp add: sim_api_def)
  have r: "DsRoleGetPrimaryDomainInformation sim_com w1 (m_bstrServerName two_methods) = ((ERROR_SUCCESS, DsRole_RoleStandaloneServer), w1)"
    by (simp add: sim_com_def)
  obtain k w3 where o: "RegHKLMOpenKey sim_api POP3SERVER_AUTH_SUBKEY KEY_QUERY_VALUE (m_bstrServerName two_methods) w1 = Some ((ERROR_SUCCESS, k), w3)"
    by (simp add: two_methods_def RegHKLMOpenKey_def sim_api_def sim_open_key_def sim_key_of_def sim_new_key_def Let_def ERROR_SUCCESS_def)
  have i: "m_bIsInitialized two_methods" "\<forall>j \<in> set (m_Index two_methods). j < 2147483648" by (simp_all add: two_methods_def)
  have n: "new_CAuthMethods\<lparr>m_bstrServerName := m_bstrServerName two_methods\<rparr> = new_CAuthMethods"
    by (simp add: two_methods_def new_CAuthMethods_def)
  have f: "filter (\<lambda>i. SUCCEEDED (VerifyAuthMethod (?gs ! i) (role_of DsRole_RoleStandaloneServer))) [0..<length ?gs] = [0, 1]"
    by (simp add: upt_rec VerifyAuthMethod_def role_of_def NO_DOMAIN_def DOMAIN_CONTROLLER_def wcsicmp_equal_def
        SZ_AUTH_ID_LOCAL_SAM_def SZ_AUTH_ID_MD5_HASH_def SZ_AUTH_ID_DOMAIN_AD_def wide_def wlower_def SUCCEEDED_def S_OK_def)
  have j: "m_Index two_methods ! nat (m_lCurrentMethodIndex two_methods) = 1" by (simp add: two_methods_def)
  obtain m2 w4 where m2: "AuthMethods_Initialize sim_api sim_com (new_CAuthMethods, w1) = Some (True, m2, w4)"
    "all_guids (m_AuthVector m2) = Some ?gs" "m_Index m2 = [0, 1]"
    "0 \<le> m_lCurrentMethodIndex m2" "m_lCurrentMethodIndex m2 < 2" "[0, 1] ! nat (m_lCurrentMethodIndex m2) = (1 :: nat)"
    using Save_Initialize [OF sim_methods_laws a s i(1) gs c i(2) r o, unfolded n f j Let_def] by auto
  then have "m_lCurrentMethodIndex m2 = 1" by (cases "m_lCurrentMethodIndex m2 = 0") auto
  then show ?thesis using s m2 by blast
qed

end
