(* ===== verification/Svc_Control.thy ===== *)
theory Svc_Control
  imports Thread_Pool Svc_Invariant Auth_Methods
begin

text \<open>
  The service itself: \<^verbatim>\<open>CService\<close> of \<^verbatim>\<open>pop3/service/pop3svc/service.cpp\<close> and \<^verbatim>\<open>CPop3Svc\<close> of \<^verbatim>\<open>pop3svc.cpp\<close>.
  Starting (\<^verbatim>\<open>PreInit\<close>), the loop of the main thread (\<^verbatim>\<open>Run\<close>), the requests of the service control manager
  (\<^verbatim>\<open>HandlerMember\<close>), the watcher thread and stopping (\<^verbatim>\<open>DeInit\<close>, \<^verbatim>\<open>AbortService\<close>).  A call that ends the
  process has the value \<^verbatim>\<open>Exited\<close> with the exit code.  \<^verbatim>\<open>None\<close> stands for a call that does not return: one that
  waits for another thread, reads a variable that was never set, or writes outside an array.
\<close>

section \<open>The state\<close>

record SERVICE_STATUS =
  dwCurrentState :: service_status
  dwControlsAccepted :: DWORD
  dwWin32ExitCode :: DWORD
  dwServiceSpecificExitCode :: DWORD
  dwCheckPoint :: DWORD
  dwWaitHint :: DWORD

text \<open>
  The members of the service object, the globals it uses beside those of the engine, and what was reported
  to the service control manager.  \<^verbatim>\<open>m_dwState\<close> is 0 (\<^verbatim>\<open>None\<close>) before the first report.
\<close>

record 'w svc =
  m_dwState :: "service_status option"
  m_dwControlsAccepted :: DWORD
  m_dwCheckpoint :: DWORD
  m_dwWaitHint :: DWORD
  m_dwRequestedControl :: DWORD
  m_hServiceStatus :: HANDLE
  m_hServiceEvent :: "HANDLE list"
  m_hWatcherThread :: HANDLE
  g_hShutDown :: HANDLE
  g_hDoSEvent :: HANDLE
  g_ThreadPool :: CThreadPool
  g_pAuthMethod :: bool
  g_dwIPVersion :: DWORD
  reported :: "SERVICE_STATUS list"
  sg :: "'w glob"

datatype 'w outcome = Exited DWORD "'w svc" | Goes "'w svc"

text \<open>The calls of the system that only starting and stopping use, beside those of the components.\<close>

record 'w os =
  os_win :: "'w win32"
  os_net :: "'w netapi"
  os_thr :: "'w threadapi"
  os_auth :: "'w authapi"
  CreateEvent :: "'w \<Rightarrow> HANDLE \<times> 'w"
  SetEvent :: "'w \<Rightarrow> HANDLE \<Rightarrow> 'w"
  ResetEvent :: "'w \<Rightarrow> HANDLE \<Rightarrow> 'w"
  WaitForSingleObject :: "'w \<Rightarrow> HANDLE \<Rightarrow> DWORD \<Rightarrow> DWORD \<times> 'w"
  RegisterServiceCtrlHandler :: "'w \<Rightarrow> HANDLE \<times> 'w"
  beginthreadex :: "'w \<Rightarrow> HANDLE \<times> 'w"
  InitEventLog :: "'w \<Rightarrow> DWORD \<Rightarrow> DWORD \<times> 'w"
  IsExchangeInstalled :: "'w \<Rightarrow> bool \<times> 'w"
  OpenPerfMemory :: "'w \<Rightarrow> HRESULT \<times> 'w"
  iswprint :: "WCHAR \<Rightarrow> bool"
  UnicodeToAnsi :: "'w \<Rightarrow> wstring \<Rightarrow> bool \<times> 'w"
  GetComputerNameEx :: "'w \<Rightarrow> wstring option \<times> 'w"
  CoInitializeEx :: "'w \<Rightarrow> HRESULT \<times> 'w"
  CoUninitialize :: "'w \<Rightarrow> 'w"
  CreateAuthMethods :: "'w \<Rightarrow> HRESULT \<times> 'w"
  get_ID :: "'w \<Rightarrow> (HRESULT \<times> wstring) \<times> 'w"
  PutMailRoot :: "'w \<Rightarrow> wstring \<Rightarrow> 'w"

definition on_sg :: "('w glob \<Rightarrow> 'w glob) \<Rightarrow> 'w svc \<Rightarrow> 'w svc" where
  "on_sg f s = s\<lparr>sg := f (sg s)\<rparr>"

definition ask :: "('w \<Rightarrow> 'a \<times> 'w) \<Rightarrow> 'w svc \<Rightarrow> 'a \<times> 'w svc" where
  "ask f s = (case sys f (sg s) of (r, g) \<Rightarrow> (r, s\<lparr>sg := g\<rparr>))"

definition tell :: "('w \<Rightarrow> 'w) \<Rightarrow> 'w svc \<Rightarrow> 'w svc" where
  "tell f = on_sg (sysw f)"

definition svc_log :: "event_id \<Rightarrow> 'w svc \<Rightarrow> 'w svc" where
  "svc_log i = on_sg (LogEvent i)"

definition server_status :: "service_status \<Rightarrow> 'w svc \<Rightarrow> 'w svc" where
  "server_status st = on_sg (g_dwServerStatus_update (\<lambda>_. st))"

section \<open>The service before its start\<close>

text \<open>
  The globals after the constructors ran, and the object that the constructor of \<^verbatim>\<open>CService\<close> makes.  The server
  status is 0 then, which is none of the states; \<^verbatim>\<open>st\<close> stands for it, since it is set before it is read.
\<close>

definition new_globals :: "service_status \<Rightarrow> 'w \<Rightarrow> 'w glob" where
  "new_globals st w = \<lparr>
     g_SocketPool = new_CSocketPool, g_FreeList = new_CIOList True, g_BusyList = new_CIOList False,
     g_links = init_links True (init_links False \<lparr>Flink = (\<lambda>_. LNull), Blink = (\<lambda>_. LNull)\<rparr>),
     g_heap = (\<lambda>_. None), g_nextAddr = 0,
     g_PerfCounters = \<lparr>m_rgdwPerfData = (\<lambda>_. 0), m_fInit = False\<rparr>,
     g_MailRoot = MailRoot_init, g_auth = \<lparr>m_glInit = 0, m_gpFuncs = False, m_ghLib = False, m_gpIConfig = False\<rparr>,
     g_dwServerStatus = st, g_bThreadPoolInit = False,
     g_cfg = \<lparr>g_wszComputerName = [], g_wszGreeting = [], g_dwRequireSPA = False, g_dwAuthMethod = 0, g_dwMaxMsgPerDnld = 0\<rparr>,
     g_world = w, g_out = []\<rparr>"

definition new_CService :: "service_status \<Rightarrow> 'w \<Rightarrow> 'w svc" where
  "new_CService st w = \<lparr>
     m_dwState = None, m_dwControlsAccepted = 0, m_dwCheckpoint = 0, m_dwWaitHint = 0, m_dwRequestedControl = 0,
     m_hServiceStatus = NULL_HANDLE, m_hServiceEvent = replicate 4 NULL_HANDLE, m_hWatcherThread = NULL_HANDLE,
     g_hShutDown = NULL_HANDLE, g_hDoSEvent = NULL_HANDLE, g_ThreadPool = new_CThreadPool, g_pAuthMethod = False,
     g_dwIPVersion = 0, reported = [], sg = new_globals st w\<rparr>"

section \<open>Reporting the status\<close>

definition dwStateNoChange :: DWORD where "dwStateNoChange = 0xFFFFFFFF"

definition pending :: "service_status \<Rightarrow> bool" where
  "pending st \<longleftrightarrow> st \<noteq> SERVICE_STOPPED \<and> st \<noteq> SERVICE_PAUSED \<and> st \<noteq> SERVICE_RUNNING"

text \<open>\<^verbatim>\<open>SetStatus\<close>; \<^verbatim>\<open>None\<close> when it calls \<^verbatim>\<open>AbortService\<close>, for a pending state without hint or checkpoint.\<close>

definition SetStatus :: "service_status \<Rightarrow> DWORD \<Rightarrow> DWORD \<Rightarrow> DWORD \<Rightarrow> DWORD \<Rightarrow> DWORD \<Rightarrow> 'w svc \<Rightarrow> 'w svc option" where
  "SetStatus dwNewState dwNewCheckpoint dwNewHint dwNewControls dwExitCode dwSpecificExit s =
     (let dwExitCode = (if dwNewState \<noteq> SERVICE_STOPPED then S_OK else dwExitCode);
          dwSpecificExit = (if dwNewState \<noteq> SERVICE_STOPPED then 0 else dwSpecificExit);
          dwNewHint = (if pending dwNewState then dwNewHint else 0);
          dwNewCheckpoint = (if pending dwNewState then dwNewCheckpoint else 0)
      in if pending dwNewState \<and> (dwNewHint = 0 \<or> dwNewCheckpoint = 0) then None
         else
           (let s = s\<lparr>m_dwState := Some dwNewState\<rparr>;
                s = (if dwNewCheckpoint \<noteq> dwStateNoChange then s\<lparr>m_dwCheckpoint := dwNewCheckpoint\<rparr> else s);
                s = (if dwNewHint \<noteq> dwStateNoChange then s\<lparr>m_dwWaitHint := dwNewHint\<rparr> else s);
                s = (if dwNewControls \<noteq> dwStateNoChange then s\<lparr>m_dwControlsAccepted := dwNewControls\<rparr> else s);
                ss = \<lparr>dwCurrentState = dwNewState, dwControlsAccepted = m_dwControlsAccepted s,
                      dwWin32ExitCode = dwExitCode, dwServiceSpecificExitCode = dwSpecificExit,
                      dwCheckPoint = m_dwCheckpoint s, dwWaitHint = m_dwWaitHint s\<rparr>
            in Some (s\<lparr>reported := reported s @ [ss]\<rparr>)))"

definition SERVICE_ACCEPT_STOP :: DWORD where "SERVICE_ACCEPT_STOP = 1"
definition SERVICE_ACCEPT_PAUSE_CONTINUE :: DWORD where "SERVICE_ACCEPT_PAUSE_CONTINUE = 2"

abbreviation "SetStatus_default st \<equiv> SetStatus st dwStateNoChange dwStateNoChange dwStateNoChange 0 0"

definition OnStop :: "DWORD \<Rightarrow> 'w svc \<Rightarrow> 'w svc option" where
  "OnStop dwErrorCode s =
     SetStatus_default SERVICE_STOPPED (server_status SERVICE_STOPPED
       (svc_log (if dwErrorCode = 0 then EVENT_POP3_SERVER_STOPPED else EVENT_POP3_SERVER_STOP_ERROR) s))"

definition OnAfterStart :: "'w svc \<Rightarrow> 'w svc option" where
  "OnAfterStart s = do {
     s \<leftarrow> SetStatus SERVICE_RUNNING 0 0 (SERVICE_ACCEPT_STOP OR SERVICE_ACCEPT_PAUSE_CONTINUE) 0 0 s;
     Some (svc_log EVENT_POP3_SERVER_STARTED (server_status SERVICE_RUNNING s)) }"

definition OnStopRequest :: "'w svc \<Rightarrow> 'w svc option" where
  "OnStopRequest s = SetStatus SERVICE_STOP_PENDING 1 30000 dwStateNoChange 0 0 (server_status SERVICE_STOP_PENDING s)"

definition OnPause :: "'w svc \<Rightarrow> 'w svc option" where
  "OnPause s = SetStatus_default SERVICE_PAUSED (server_status SERVICE_PAUSED s)"

text \<open>Sockets that were not made while the service was paused are made now.\<close>

definition OnContinueRequest :: "'w os \<Rightarrow> 'w svc \<Rightarrow> 'w svc option" where
  "OnContinueRequest os s = do {
     s \<leftarrow> SetStatus_default SERVICE_RUNNING (server_status SERVICE_RUNNING s);
     g \<leftarrow> AddNeededSockets (os_win os) (sg s);
     Some (s\<lparr>sg := g\<rparr>) }"

section \<open>Requests of the service control manager\<close>

definition SERVICE_CONTROL_STOP :: DWORD where "SERVICE_CONTROL_STOP = 1"
definition SERVICE_CONTROL_PAUSE :: DWORD where "SERVICE_CONTROL_PAUSE = 2"
definition SERVICE_CONTROL_CONTINUE :: DWORD where "SERVICE_CONTROL_CONTINUE = 3"
definition SERVICE_CONTROL_INTERROGATE :: DWORD where "SERVICE_CONTROL_INTERROGATE = 4"
definition SERVICE_CONTROL_SHUTDOWN :: DWORD where "SERVICE_CONTROL_SHUTDOWN = 5"

datatype SERVICE_EVENTS = STOP | PAUSE | CONTINUE | SHUTDOWN

fun event_index :: "SERVICE_EVENTS \<Rightarrow> nat" where
  "event_index STOP = 0" | "event_index PAUSE = 1" | "event_index CONTINUE = 2" | "event_index SHUTDOWN = 3"

definition event_of :: "SERVICE_EVENTS \<Rightarrow> 'w svc \<Rightarrow> HANDLE" where
  "event_of e s = m_hServiceEvent s ! event_index e"

definition signal :: "'w os \<Rightarrow> SERVICE_EVENTS \<Rightarrow> 'w svc \<Rightarrow> 'w svc" where
  "signal os e s = tell (\<lambda>w. SetEvent os w (event_of e s)) s"

text \<open>
  \<^verbatim>\<open>OnPauseRequest\<close>, \<^verbatim>\<open>OnShutdownRequest\<close> and \<^verbatim>\<open>HandleUserDefined\<close> are the empty ones of \<^verbatim>\<open>CService\<close>.  A request to
  interrogate reports the state as it is; before the first report there is none.
\<close>

definition HandlerMember :: "'w os \<Rightarrow> DWORD \<Rightarrow> 'w svc \<Rightarrow> 'w svc option" where
  "HandlerMember os dwControl s =
     (if m_dwRequestedControl s = dwControl then Some s
      else let note = m_dwRequestedControl_update (\<lambda>_. dwControl) in
        if dwControl = SERVICE_CONTROL_STOP then do { s \<leftarrow> OnStopRequest (note s); Some (signal os STOP s) }
        else if dwControl = SERVICE_CONTROL_PAUSE then Some (signal os PAUSE (note s))
        else if dwControl = SERVICE_CONTROL_CONTINUE then
          (if m_dwState s \<noteq> Some SERVICE_RUNNING
           then do { s \<leftarrow> OnContinueRequest os (note s); Some (signal os CONTINUE s) } else Some s)
        else if dwControl = SERVICE_CONTROL_SHUTDOWN then Some (signal os SHUTDOWN (note s))
        else if dwControl = SERVICE_CONTROL_INTERROGATE then
          (case m_dwState s of None \<Rightarrow> None | Some st \<Rightarrow> SetStatus_default st s)
        else Some (note s))"

text \<open>
  The watcher thread: one turn of its first loop for the event that was signalled (the result tells whether
  the loop goes on), and one turn of the second, which waits for the end of \<^verbatim>\<open>DeInit\<close>.
\<close>

definition Watcher_turn :: "'w os \<Rightarrow> SERVICE_EVENTS \<Rightarrow> 'w svc \<Rightarrow> (bool \<times> 'w svc) option" where
  "Watcher_turn os e s =
     (case e of
        STOP \<Rightarrow> Some (False, s)
      | PAUSE \<Rightarrow> do { s \<leftarrow> OnPause s; Some (True, tell (\<lambda>w. ResetEvent os w (event_of PAUSE s)) s) }
      | CONTINUE \<Rightarrow> Some (True, tell (\<lambda>w. ResetEvent os w (event_of CONTINUE s)) s)
      | SHUTDOWN \<Rightarrow> Some (False, s))"

definition WAIT_OBJECT_0 :: DWORD where "WAIT_OBJECT_0 = 0"
definition WAIT_ABANDONED :: DWORD where "WAIT_ABANDONED = 0x80"

definition Watcher_end_turn :: "DWORD \<Rightarrow> 'w svc \<Rightarrow> (bool \<times> 'w svc) option" where
  "Watcher_end_turn dwWait s =
     (if dwWait = WAIT_OBJECT_0 \<or> dwWait = WAIT_ABANDONED then Some (False, s)
      else if dwWait = WAIT_TIMEOUT then do {
        s \<leftarrow> SetStatus SERVICE_STOP_PENDING 1 10000 dwStateNoChange 0 0 s; Some (True, s) }
      else Some (True, s))"

section \<open>Stopping\<close>

text \<open>\<^verbatim>\<open>GLOBCNTR::HrInit\<close> with the constants of the caller, and \<^verbatim>\<open>Shutdown\<close>.\<close>

definition HrInit :: "'w os \<Rightarrow> 'w glob \<Rightarrow> HRESULT \<times> 'w glob" where
  "HrInit os g =
     (if m_fInit (g_PerfCounters g) then (E_FAIL, g)
      else (case sys (OpenPerfMemory os) g of (hr, g) \<Rightarrow>
        if \<not> SUCCEEDED hr then (hr, g)
        else (hr, g\<lparr>g_PerfCounters := \<lparr>m_rgdwPerfData = (\<lambda>_. 0), m_fInit = True\<rparr>\<rparr>)))"

definition PerfShutdown :: "'w glob \<Rightarrow> 'w glob" where
  "PerfShutdown g = (if m_fInit (g_PerfCounters g)
     then g\<lparr>g_PerfCounters := \<lparr>m_rgdwPerfData = (\<lambda>_. 0), m_fInit = False\<rparr>\<rparr> else g)"

definition svc_close :: "'w os \<Rightarrow> HANDLE \<Rightarrow> 'w svc \<Rightarrow> 'w svc" where
  "svc_close os h = on_sg (close_handle (os_win os) h)"

definition CService_DeInit :: "'w os \<Rightarrow> 'w svc \<Rightarrow> 'w svc" where
  "CService_DeInit os s =
     (let s = (if m_hWatcherThread s \<noteq> NULL_HANDLE
               then svc_close os (m_hWatcherThread s) (snd (ask (\<lambda>w. WaitForSingleObject os w (m_hWatcherThread s) 10000) s))
               else s)
      in fold (\<lambda>h s. if h \<noteq> NULL_HANDLE then svc_close os h s else s) (m_hServiceEvent s) s)"

text \<open>The pools and the lists: the part of \<^verbatim>\<open>DeInit\<close> that ends every connection.\<close>

definition DeInit_connections :: "'w os \<Rightarrow> 'w glob \<Rightarrow> 'w glob option" where
  "DeInit_connections os g = do {
     let (_, g) = Uninitialize (os_win os) (os_net os) g;
     g \<leftarrow> CleanupList (os_win os) False g;
     CleanupList (os_win os) True g }"

definition DeInit :: "'w os \<Rightarrow> 'w svc \<Rightarrow> 'w outcome option" where
  "DeInit os s =
     (case ThreadPool_Uninitialize (os_win os) (os_thr os) (g_ThreadPool s, sg s) of
        (Some code, tp, g) \<Rightarrow> Some (Exited code (s\<lparr>g_ThreadPool := tp, sg := g\<rparr>))
      | (None, tp, g) \<Rightarrow> do {
          g \<leftarrow> DeInit_connections os g;
          g \<leftarrow> GlobalUninit g;
          let s = s\<lparr>g_ThreadPool := tp, g_pAuthMethod := False, sg := PerfShutdown g\<rparr>;
          let s = tell (\<lambda>w. SetEvent os (CoUninitialize os w) (g_hShutDown s)) s;
          let s = svc_close os (g_hDoSEvent s) (svc_close os (g_hShutDown s) (CService_DeInit os s));
          s \<leftarrow> OnStop ERROR_SUCCESS s;
          Some (Goes s) })"

definition AbortService :: "'w os \<Rightarrow> DWORD \<Rightarrow> 'w svc \<Rightarrow> 'w outcome option" where
  "AbortService os dwErrorNum s = do {
     s \<leftarrow> OnStopRequest s;
     r \<leftarrow> DeInit os s;
     (case r of
        Exited code s \<Rightarrow> Some (Exited code s)
      | Goes s \<Rightarrow> do { s \<leftarrow> OnStop dwErrorNum s; Some (Exited dwErrorNum s) }) }"

definition last_error :: "'w os \<Rightarrow> 'w svc \<Rightarrow> DWORD" where
  "last_error os s = GetLastError (os_win os) (g_world (sg s))"

section \<open>The main loop\<close>

text \<open>
  The main thread waits for the stop event, the event of a full pool, or the end of the time to wait.
  \<^verbatim>\<open>others\<close> stands for what the other threads do while it sleeps.
\<close>

fun Run_full :: "'w os \<Rightarrow> ('w svc \<Rightarrow> 'w svc) \<Rightarrow> nat \<Rightarrow> bool \<Rightarrow> DWORD \<Rightarrow> 'w svc \<Rightarrow> (DWORD \<times> 'w svc) option" where
  "Run_full os others 0 bIsAnyTimedOut dwTimeToWait s = Some (dwTimeToWait, s)"
| "Run_full os others (Suc dwRunCount) bIsAnyTimedOut dwTimeToWait s =
     (if \<not> bIsAnyTimedOut \<and> IsMaxSocketUsed (sg s) then do {
        (dwNextTimeOut, bIsAnyTimedOut, g) \<leftarrow> CheckTimeOut (os_win os) SHORTENED_TIMEOUT (bIsAnyTimedOut, sg s);
        Run_full os others dwRunCount bIsAnyTimedOut (DEFAULT_TIME_OUT - dwNextTimeOut) (others (s\<lparr>sg := g\<rparr>)) }
      else Some (dwTimeToWait, s))"

datatype 'w turn = Waits DWORD "'w svc" | Stops "'w svc" | Aborts "'w svc"

definition Run_turn :: "'w os \<Rightarrow> ('w svc \<Rightarrow> 'w svc) \<Rightarrow> DWORD \<Rightarrow> DWORD \<Rightarrow> 'w svc \<Rightarrow> 'w turn option" where
  "Run_turn os others dwWaitResult dwTimeToWait s =
     (if dwWaitResult = WAIT_TIMEOUT then do {
        (dwNextTimeOut, _, g) \<leftarrow> CheckTimeOut (os_win os) DEFAULT_TIME_OUT (False, sg s);
        Some (Waits (DEFAULT_TIME_OUT - dwNextTimeOut) (s\<lparr>sg := g\<rparr>)) }
      else if dwWaitResult = WAIT_OBJECT_0 + 1 then do {
        (dwTimeToWait, s) \<leftarrow> Run_full os others 3 False dwTimeToWait (tell (\<lambda>w. ResetEvent os w (g_hDoSEvent s)) s);
        Some (Waits dwTimeToWait s) }
      else if dwWaitResult = WAIT_OBJECT_0 then Some (Stops s)
      else Some (Aborts (svc_log EVENT_POP3_UNEXPECTED_ERROR s)))"

text \<open>
  The whole loop for a sequence of waits: each gives what the other threads did during the wait and during
  the sleeps after it, and the result of the wait.  When the sequence ends the thread is still waiting.
\<close>

fun Run :: "'w os \<Rightarrow> ((DWORD \<Rightarrow> 'w svc \<Rightarrow> DWORD \<times> 'w svc) \<times> ('w svc \<Rightarrow> 'w svc)) list \<Rightarrow> DWORD \<Rightarrow> 'w svc \<Rightarrow> 'w outcome option" where
  "Run os [] dwTimeToWait s = None"
| "Run os ((wait, others) # rest) dwTimeToWait s =
     (case wait dwTimeToWait s of (dwWaitResult, s) \<Rightarrow> do {
        t \<leftarrow> Run_turn os others dwWaitResult dwTimeToWait s;
        (case t of
           Waits dwTimeToWait s \<Rightarrow> Run os rest dwTimeToWait s
         | Stops s \<Rightarrow> Some (Goes s)
         | Aborts s \<Rightarrow> AbortService os (last_error os s) s) })"

section \<open>Starting\<close>

definition CheckValidGreeting :: "'w os \<Rightarrow> wstring \<Rightarrow> bool" where
  "CheckValidGreeting os wszGreeting \<longleftrightarrow>
     (\<forall>c \<in> set wszGreeting. iswprint os c \<and> c \<noteq> of_char (CHR ''<'') \<and> c \<noteq> of_char (CHR ''>''))"

text \<open>
  A step of the start returns whether to go on; if not, \<^verbatim>\<open>AbortService\<close> is called and nothing after it is done.
\<close>

definition go_on :: "(bool \<times> 'w svc) option \<Rightarrow> ('w svc \<Rightarrow> (bool \<times> 'w svc) option) \<Rightarrow> (bool \<times> 'w svc) option" where
  "go_on m f = do { (ok, s) \<leftarrow> m; if ok then f s else Some (False, s) }"

definition fail_with :: "event_id \<Rightarrow> 'w svc \<Rightarrow> bool \<times> 'w svc" where
  "fail_with i s = (False, svc_log i s)"

fun create_events :: "'w os \<Rightarrow> nat \<Rightarrow> 'w svc \<Rightarrow> bool \<times> 'w svc" where
  "create_events os 0 s = (True, s)"
| "create_events os (Suc n) s =
     (case ask (CreateEvent os) s of (h, s) \<Rightarrow>
        let s = s\<lparr>m_hServiceEvent := (m_hServiceEvent s)[3 - n := h]\<rparr>
        in if h = NULL_HANDLE then (False, s) else create_events os n s)"

definition LOGGING_LEVEL_3 :: DWORD where "LOGGING_LEVEL_3 = 3"

definition PreInit_logging :: "'w os \<Rightarrow> 'w svc \<Rightarrow> (bool \<times> 'w svc) option" where
  "PreInit_logging os s = do {
     let s = server_status SERVICE_START_PENDING s;
     ((rc, level), w) \<leftarrow> RegQueryLoggingLevel (os_win os) LOGGING_LEVEL_3 None (g_world (sg s));
     let level = (if rc = 0 \<and> level > LOGGING_LEVEL_3 then LOGGING_LEVEL_3 else level);
     let (r, s) = ask (\<lambda>w. InitEventLog os w level) (tell (\<lambda>_. w) s);
     Some (r = 0, s) }"

definition PreInit_events :: "'w os \<Rightarrow> 'w svc \<Rightarrow> bool \<times> 'w svc" where
  "PreInit_events os s =
     (case ask (IsExchangeInstalled os) s of (exchange, s) \<Rightarrow>
        if exchange then fail_with POP3SVR_START_FAILED_EXCHANGE s
        else (case HrInit os (sg s) of (hr, g) \<Rightarrow>
          let s = s\<lparr>sg := g\<rparr> in
          if hr \<noteq> S_OK then fail_with EVENT_POP3_NO_CONFIG_DATA s
          else (case ask (CreateEvent os) s of (h, s) \<Rightarrow>
            let s = s\<lparr>g_hShutDown := h\<rparr> in
            if h = NULL_HANDLE then fail_with POP3SVR_INIT_CREATE_EVENT_FAILED s
            else (case ask (CreateEvent os) s of (h, s) \<Rightarrow>
              let s = s\<lparr>g_hDoSEvent := h\<rparr> in
              if h = NULL_HANDLE then fail_with POP3SVR_INIT_CREATE_EVENT_FAILED s
              else (True, s)))))"

subsection \<open>The configuration\<close>

record svc_params =
  dwThreadPerCPU :: DWORD
  dwMaxSockets :: DWORD
  dwMinSockets :: DWORD
  dwThreshold :: DWORD
  dwBacklog :: DWORD
  dwPort :: DWORD
  p_dwIPVersion :: DWORD
  p_dwMaxMsgPerDnld :: DWORD

text \<open>
  \<^verbatim>\<open>RegQueryValueEx\<close> into a \<^verbatim>\<open>DWORD\<close>.  The size passed in is the one the last call left in \<^verbatim>\<open>cbSize\<close>; more than four
  bytes are stored behind the variable: no value.
\<close>

type_synonym 'w query = "DWORD \<times> nat \<times> 'w"

definition query_dword :: "'w win32 \<Rightarrow> HANDLE \<Rightarrow> wstring \<Rightarrow> DWORD \<Rightarrow> 'w query \<Rightarrow> (DWORD \<times> 'w query) option" where
  "query_dword api hKey name old q = (case q of (_, cbSize, w) \<Rightarrow>
     (case RegQueryValueEx api w hKey name cbSize of ((lErr, bs, cbSize), w) \<Rightarrow>
        if length bs > 4 then None else Some (dword_after old bs, (lErr, cbSize, w))))"

text \<open>The values that must be there: each is read when the ones before it were read with success.\<close>

definition query_needed :: "'w win32 \<Rightarrow> HANDLE \<Rightarrow> wstring \<Rightarrow> 'w query \<Rightarrow> (DWORD \<times> 'w query) option" where
  "query_needed api hKey name q = (if fst q = ERROR_SUCCESS then query_dword api hKey name 0 q else Some (0, q))"

text \<open>The values with a default: a failed query gives the default and counts as success.\<close>

definition query_default :: "'w win32 \<Rightarrow> HANDLE \<Rightarrow> wstring \<Rightarrow> DWORD \<Rightarrow> DWORD \<Rightarrow> 'w query \<Rightarrow> (DWORD \<times> 'w query) option" where
  "query_default api hKey name old dflt q = do {
     (x, lErr, cbSize, w) \<leftarrow> query_dword api hKey name old q;
     Some (if lErr = ERROR_SUCCESS then (x, (lErr, cbSize, w)) else (dflt, (ERROR_SUCCESS, cbSize, w))) }"

definition DEFAULT_MAX_MSG_PER_DNLD :: DWORD where "DEFAULT_MAX_MSG_PER_DNLD = 0"

text \<open>The values below the key of the service; the last two are globals, which keep their value after a failure.\<close>

definition PreInit_values :: "'w win32 \<Rightarrow> HANDLE \<Rightarrow> DWORD \<Rightarrow> DWORD \<Rightarrow> 'w \<Rightarrow> (svc_params \<times> 'w query) option" where
  "PreInit_values api hKey ip msgs w = do {
     (threads, q) \<leftarrow> query_dword api hKey VALUENAME_THREADCOUNT 0 (ERROR_SUCCESS, 4, w);
     (maxs, q) \<leftarrow> query_needed api hKey VALUENAME_MAX q;
     (mins, q) \<leftarrow> query_needed api hKey VALUENAME_MIN q;
     (thresh, q) \<leftarrow> query_needed api hKey VALUENAME_THRESHOLD q;
     (back, q) \<leftarrow> query_needed api hKey VALUENAME_BACKLOG q;
     (port, ip, msgs, q) \<leftarrow>
       (if fst q = ERROR_SUCCESS then do {
          (port, q) \<leftarrow> query_default api hKey VALUENAME_PORT 0 110 q;
          (ip, q) \<leftarrow> query_default api hKey VALUENAME_SOCK_VERSION ip 4 q;
          (msgs, q) \<leftarrow> query_default api hKey VALUENAME_MAXMSG_PERDOWNLOAD msgs DEFAULT_MAX_MSG_PER_DNLD q;
          Some (port, ip, msgs, q) }
        else Some (0, ip, msgs, q));
     Some (\<lparr>dwThreadPerCPU = threads, dwMaxSockets = maxs, dwMinSockets = mins, dwThreshold = thresh,
            dwBacklog = back, dwPort = port, p_dwIPVersion = ip, p_dwMaxMsgPerDnld = msgs\<rparr>, q) }"

text \<open>When the key cannot be opened \<^verbatim>\<open>lErr\<close> is read without having been set: no value.\<close>

definition PreInit_registry :: "'w os \<Rightarrow> 'w svc \<Rightarrow> ((DWORD \<times> svc_params) \<times> 'w svc) option" where
  "PreInit_registry os s =
     (case RegOpenKeyEx (os_win os) (g_world (sg s)) HKEY_LOCAL_MACHINE POP3SERVICE_SERVICES_SUBKEY KEY_READ of ((e, hKey), w) \<Rightarrow>
        if e \<noteq> ERROR_SUCCESS then None
        else do {
          (p, lErr, _, w) \<leftarrow> PreInit_values (os_win os) hKey (g_dwIPVersion s) (g_dwMaxMsgPerDnld (g_cfg (sg s))) w;
          let s = s\<lparr>g_dwIPVersion := p_dwIPVersion p\<rparr>;
          let s = on_sg (\<lambda>g. g\<lparr>g_cfg := (g_cfg g)\<lparr>g_dwMaxMsgPerDnld := p_dwMaxMsgPerDnld p\<rparr>\<rparr>) s;
          Some ((lErr, p), tell (\<lambda>_. RegCloseKey (os_win os) w hKey) s) })"

text \<open>
  The mail root, the greeting and the requirement of SPA.  \<^verbatim>\<open>g_wszGreeting\<close> is an array of \<^verbatim>\<open>MAX_PATH\<close> characters
  that are 0 when the process starts.
\<close>

definition PreInit_settings :: "'w os \<Rightarrow> 'w svc \<Rightarrow> ((DWORD \<times> wstring) \<times> 'w svc) option" where
  "PreInit_settings os s = do {
     let api = os_win os;
     ((lErr, wszMailRoot), w) \<leftarrow> RegQueryMailRoot api POP3_MAX_MAILROOT_LENGTH None (g_world (sg s));
     if lErr \<noteq> ERROR_SUCCESS then Some ((lErr, wszMailRoot), tell (\<lambda>_. w) s)
     else do {
       ((lErr, bs, _), w) \<leftarrow> RegQueryGreeting api (2 * MAX_PATH) None w;
       greeting \<leftarrow> (if lErr = ERROR_SUCCESS then do {
                      t \<leftarrow> bytes_wcs (stored (2 * MAX_PATH) (replicate (2 * MAX_PATH) 0) bs);
                      Some (if CheckValidGreeting os t then t else []) }
                    else Some []);
       ((lErr, spa), w) \<leftarrow> RegQuerySPARequired api 0 None w;
       let spa = (if lErr \<noteq> ERROR_SUCCESS then 0 else spa);
       Some ((ERROR_SUCCESS, wszMailRoot),
             tell (\<lambda>_. w) (on_sg (\<lambda>g. g\<lparr>g_cfg := (g_cfg g)\<lparr>g_wszGreeting := greeting, g_dwRequireSPA := spa \<noteq> 0\<rparr>\<rparr>) s)) } }"

definition PreInit_config :: "'w os \<Rightarrow> 'w svc \<Rightarrow> ((DWORD \<times> svc_params \<times> wstring) \<times> 'w svc) option" where
  "PreInit_config os s = do {
     ((lErr, p), s) \<leftarrow> PreInit_registry os s;
     if lErr = ERROR_SUCCESS then do {
       ((lErr, root), s) \<leftarrow> PreInit_settings os s;
       Some ((lErr, p, root), s) }
     else Some ((lErr, p, []), s) }"

definition PreInit_names :: "'w os \<Rightarrow> wstring \<Rightarrow> 'w svc \<Rightarrow> (bool \<times> 'w svc) option" where
  "PreInit_names os wszMailRoot s =
     (case ask (\<lambda>w. UnicodeToAnsi os w wszMailRoot) s of (ok, s) \<Rightarrow>
        if \<not> ok then Some (fail_with EVENT_POP3_NO_CONFIG_DATA s)
        else do {
          (ok, mr, w) \<leftarrow> SetMailRoot (os_win os) (Some wszMailRoot) (g_MailRoot (sg s)) (g_world (sg s));
          let s = on_sg (\<lambda>g. g\<lparr>g_MailRoot := mr, g_world := w\<rparr>) s;
          Some (if \<not> ok then fail_with EVENT_POP3_NO_CONFIG_DATA s
                else (case ask (GetComputerNameEx os) s of
                    (None, s) \<Rightarrow> fail_with EVENT_POP3_NO_CONFIG_DATA s
                  | (Some name, s) \<Rightarrow>
                      (True, on_sg (\<lambda>g. g\<lparr>g_cfg := (g_cfg g)\<lparr>g_wszComputerName := name\<rparr>\<rparr>) s))) })"

subsection \<open>Authentication\<close>

definition auth_method_of :: "wstring \<Rightarrow> nat" where
  "auth_method_of i = (if i = SZ_AUTH_ID_LOCAL_SAM then AUTH_LOCAL_SAM
     else if i = SZ_AUTH_ID_DOMAIN_AD then AUTH_AD else AUTH_OTHER)"

text \<open>
  A call of the collection of methods, an object that lives during the start only.  Releasing it cleans it up; the
  method that was chosen stays.
\<close>

definition with_methods :: "(CAuthMethods \<times> 'w \<Rightarrow> ('a \<times> CAuthMethods \<times> 'w) option) \<Rightarrow> CAuthMethods \<times> 'w svc \<Rightarrow> ('a \<times> CAuthMethods \<times> 'w svc) option" where
  "with_methods f ms = (case ms of (m, s) \<Rightarrow> do {
     (r, m, w) \<leftarrow> f (m, g_world (sg s));
     Some (r, m, tell (\<lambda>_. w) s) })"

definition release_methods :: "'w authapi \<Rightarrow> CAuthMethods \<times> 'w \<Rightarrow> (unit \<times> CAuthMethods \<times> 'w) option" where
  "release_methods com ms = do { ms \<leftarrow> AuthMethods_CleanUp com ms; Some ((), ms) }"

definition PreInit_auth :: "'w os \<Rightarrow> 'w svc \<Rightarrow> (bool \<times> 'w svc) option" where
  "PreInit_auth os s =
     (case ask (CoInitializeEx os) s of (hr, s) \<Rightarrow>
        if \<not> SUCCEEDED hr then Some (fail_with EVENT_POP3_COM_INIT_FAIL s)
        else (case ask (CreateAuthMethods os) s of (hr, s) \<Rightarrow>
          if \<not> SUCCEEDED hr then Some (fail_with POP3SVR_INIT_AUTH_METHOD_FAILED s)
          else do {
            ((hr, vCurAuth), ms) \<leftarrow> with_methods (AuthMethods_get_CurrentAuthMethod (os_win os) (os_auth os) VT_EMPTY) (new_CAuthMethods, s);
            if \<not> SUCCEEDED hr then Some (fail_with POP3SVR_AUTH_METHOD_INVALID (snd ms))
            else do {
              ((hr, method), m, s) \<leftarrow> with_methods (AuthMethods_get_Item (os_win os) (os_auth os) vCurAuth) ms;
              let s = s\<lparr>g_pAuthMethod := (method \<noteq> None)\<rparr>;
              if \<not> SUCCEEDED hr \<or> method = None then Some (fail_with POP3SVR_INIT_AUTH_METHOD_FAILED s)
              else (case ask (get_ID os) s of ((hr, i), s) \<Rightarrow> do {
                let s = (if SUCCEEDED hr
                         then on_sg (\<lambda>g. g\<lparr>g_cfg := (g_cfg g)\<lparr>g_dwAuthMethod := auth_method_of i\<rparr>\<rparr>) s
                         else s);
                (_, m, s) \<leftarrow> with_methods (release_methods (os_auth os)) (m, s);
                Some (True, s) }) } }))"

definition PreInit_put :: "'w os \<Rightarrow> wstring \<Rightarrow> 'w svc \<Rightarrow> bool \<times> 'w svc" where
  "PreInit_put os wszMailRoot s =
     (case ask (alloc (os_win os)) s of (ok, s) \<Rightarrow>
        if \<not> ok then fail_with POP3SVR_NOT_ENOUGH_MEMORY s
        else (True, tell (\<lambda>w. PutMailRoot os w wszMailRoot) s))"

subsection \<open>The pools\<close>

definition PreInit_pools :: "'w os \<Rightarrow> svc_params \<Rightarrow> 'w svc \<Rightarrow> (bool \<times> 'w svc) option" where
  "PreInit_pools os p s = do {
     (hr, g) \<leftarrow> GlobalInit (os_win os) (sg s);
     let s = s\<lparr>sg := g\<rparr>;
     if hr \<noteq> S_OK then Some (fail_with POP3SVR_NO_SECURITY_INIT_FAIL s)
     else
       (case ThreadPool_Initialize (os_win os) (os_thr os) (dwThreadPerCPU p) (g_ThreadPool s, sg s) of (ok, tp, g) \<Rightarrow>
          let s = s\<lparr>g_ThreadPool := tp, sg := g\<rparr> in
          if \<not> ok then Some (False, s)
          else do {
            (ok, g) \<leftarrow> Initialize (os_win os) (os_net os) (g_dwIPVersion s) (dwMaxSockets p) (dwMinSockets p)
                         (dwThreshold p) (ucast (dwPort p)) (sint (dwBacklog p)) (sg s);
            Some (ok, s\<lparr>sg := g\<rparr>) }) }"

definition PreInit_steps :: "'w os \<Rightarrow> 'w svc \<Rightarrow> (bool \<times> 'w svc) option" where
  "PreInit_steps os s =
     go_on (Some (create_events os 4 s)) (\<lambda>s.
     go_on (PreInit_logging os s) (\<lambda>s.
     go_on (Some (PreInit_events os s)) (\<lambda>s. do {
       ((lErr, p, wszMailRoot), s) \<leftarrow> PreInit_config os s;
       if lErr \<noteq> ERROR_SUCCESS then Some (fail_with EVENT_POP3_NO_CONFIG_DATA s)
       else
         go_on (PreInit_names os wszMailRoot s) (\<lambda>s.
         go_on (PreInit_auth os s) (\<lambda>s.
         go_on (Some (PreInit_put os wszMailRoot s)) (\<lambda>s. PreInit_pools os p s))) })))"

definition PreInit :: "'w os \<Rightarrow> 'w svc \<Rightarrow> 'w outcome option" where
  "PreInit os s = do {
     (ok, s) \<leftarrow> PreInit_steps os s;
     if ok then Some (Goes s) else AbortService os (last_error os s) s }"

section \<open>The main thread\<close>

definition and_then :: "'w outcome option \<Rightarrow> ('w svc \<Rightarrow> 'w outcome option) \<Rightarrow> 'w outcome option" where
  "and_then m f = do { r \<leftarrow> m; (case r of Exited e s \<Rightarrow> Some (Exited e s) | Goes s \<Rightarrow> f s) }"

definition SetupHandlerInside :: "'w os \<Rightarrow> 'w svc \<Rightarrow> 'w outcome option" where
  "SetupHandlerInside os s =
     (case ask (RegisterServiceCtrlHandler os) s of (h, s) \<Rightarrow>
        let s = s\<lparr>m_hServiceStatus := h\<rparr> in
        if h = NULL_HANDLE then AbortService os (last_error os s) s
        else do { s \<leftarrow> SetStatus SERVICE_START_PENDING 1 5000 dwStateNoChange 0 0 s; Some (Goes s) })"

definition LaunchWatcherThread :: "'w os \<Rightarrow> 'w svc \<Rightarrow> 'w outcome option" where
  "LaunchWatcherThread os s =
     (case ask (beginthreadex os) s of (h, s) \<Rightarrow>
        let s = s\<lparr>m_hWatcherThread := h\<rparr> in
        if h = NULL_HANDLE then AbortService os (last_error os s) s else Some (Goes s))"

text \<open>\<^verbatim>\<open>OnBeforeStart\<close>, \<^verbatim>\<open>ParseArgs\<close> and \<^verbatim>\<open>Init\<close> are the empty ones of \<^verbatim>\<open>CService\<close>.\<close>

definition ServiceMainMember :: "'w os \<Rightarrow> ((DWORD \<Rightarrow> 'w svc \<Rightarrow> DWORD \<times> 'w svc) \<times> ('w svc \<Rightarrow> 'w svc)) list \<Rightarrow> 'w svc \<Rightarrow> 'w outcome option" where
  "ServiceMainMember os waits s =
     and_then (PreInit os s) (\<lambda>s.
     and_then (SetupHandlerInside os s) (\<lambda>s.
     and_then (LaunchWatcherThread os s) (\<lambda>s. do {
       s \<leftarrow> OnAfterStart s;
       and_then (Run os waits DEFAULT_TIME_OUT s) (\<lambda>s. DeInit os s) })))"

section \<open>A system for the witnesses\<close>

definition demo_os :: "sim os" where
  "demo_os = \<lparr>os_win = svc_api,
     os_net = \<lparr>GetVersionEx = Pair (Some \<lparr>dwMajorVersion = 5, dwMinorVersion = 2, wProductType = VER_NT_SERVER, wSuiteMask = 0\<rparr>),
       GetModuleHandle = Pair True, GetAddrInfoProcs = Pair True, getaddrinfo = (\<lambda>w p. (Some [PF_INET], w)),
       bind_socket = (\<lambda>w s p. (True, w)), listen_socket = (\<lambda>w s n. (True, w)), WSAStartup = Pair 0, WSACleanup = Pair True\<rparr>,
     os_thr = sim_threads, os_auth = sim_com, CreateEvent = sim_new_handle, SetEvent = (\<lambda>w h. w), ResetEvent = (\<lambda>w h. w),
     WaitForSingleObject = (\<lambda>w h t. (WAIT_OBJECT_0, w)), RegisterServiceCtrlHandler = sim_new_handle, beginthreadex = sim_new_handle,
     InitEventLog = (\<lambda>w l. (0, w)), IsExchangeInstalled = Pair False, OpenPerfMemory = Pair S_OK, iswprint = (\<lambda>c. 32 \<le> c \<and> c < 127),
     UnicodeToAnsi = (\<lambda>w t. (True, w)), GetComputerNameEx = Pair (Some (wide ''pc'')), CoInitializeEx = Pair S_OK, CoUninitialize = id,
     CreateAuthMethods = Pair S_OK,
     get_ID = Pair (S_OK, SZ_AUTH_ID_LOCAL_SAM), PutMailRoot = (\<lambda>w r. w)\<rparr>"

end
