(* ===== verification/Svc_Stop.thy ===== *)
theory Svc_Stop
  imports Svc_Control
begin

text \<open>
  Stopping the service: \<^verbatim>\<open>CIOList::Cleanup\<close> of both lists ends every connection and every socket that waits
  for one.
\<close>

section \<open>Taking the first entry off a ring\<close>

lemma ring_unlink:
  assumes "ring lk h (p # xs)"
  defines "n \<equiv> hd (xs @ [h])"
  defines "lk' \<equiv> lk\<lparr>Flink := (Flink lk)(h := n), Blink := (Blink lk)(n := h)\<rparr>"
  shows "ring lk' h xs" "Flink lk p = n" "Blink lk p = h" "n \<noteq> LNull" "n \<noteq> p" "h \<noteq> LNull" "h \<noteq> p"
proof -
  obtain zs where n: "xs @ [h] = n # zs" unfolding n_def by (cases xs) auto
  have d: "distinct (h # p # xs)" "LNull \<notin> set (h # p # xs)" using assms(1) by (simp_all add: ring_def)
  have l: "Flink lk h = p" "Blink lk p = h" "linked lk (p # n # zs)" using assms(1) n by (simp_all add: ring_def)
  then show "Flink lk p = n" "Blink lk p = h" by simp_all
  have "n \<in> set (xs @ [h])" using n by simp
  then show "n \<noteq> LNull" "n \<noteq> p" "h \<noteq> LNull" "h \<noteq> p" using d by auto
  have "distinct (xs @ [h])" using d(1) by auto
  then have dz: "n \<notin> set zs" using n by simp
  have bl: "butlast (n # zs) = xs" using n by (metis butlast_snoc)
  have "linked lk' (n # zs)"
  proof (rule linked_cong)
    show "linked lk (n # zs)" using l(3) by simp
    show "\<forall>a \<in> set (butlast (n # zs)). Flink lk' a = Flink lk a" unfolding bl using d(1) by (auto simp: lk'_def)
    show "\<forall>b \<in> set (tl (n # zs)). Blink lk' b = Blink lk b" using dz by (auto simp: lk'_def)
  qed
  then have "linked lk' (h # xs @ [h])" by (simp add: n lk'_def)
  then show "ring lk' h xs" using d by (simp add: ring_def)
qed

lemma ring_other:
  assumes "ring lk h xs" "a \<notin> set (h # xs)" "b \<notin> set (h # xs)"
  shows "ring (lk\<lparr>Flink := (Flink lk)(a := x), Blink := (Blink lk)(b := y)\<rparr>) h xs"
proof -
  have "linked (lk\<lparr>Flink := (Flink lk)(a := x), Blink := (Blink lk)(b := y)\<rparr>) (h # xs @ [h])"
    by (rule linked_cong [of lk]) (use assms in \<open>auto simp: ring_def butlast_append\<close>)
  then show ?thesis using assms(1) by (simp add: ring_def)
qed

section \<open>Ending a connection of a service that is not running\<close>

definition closable :: "IO_CONTEXT \<times> POP3_CONTEXT \<Rightarrow> bool" where
  "closable c \<longleftrightarrow> (m_hAsyncIO (fst c) \<noteq> NULL_HANDLE \<longrightarrow> m_ConType (fst c) \<noteq> DELETE_PENDING) \<and> mb_inv (m_MailBox (snd c))"

lemma DecrementTotal_stopped:
  "g_dwServerStatus g \<noteq> SERVICE_RUNNING \<Longrightarrow> DecrementTotalSocketCount api g = Some (add_total (-1) g)"
  by (simp add: DecrementTotalSocketCount_def AddSockets_def Let_def)

lemma TerminateConnection_stopped:
  fixes s :: "'w conn"
  assumes "g_dwServerStatus (gl s) \<noteq> SERVICE_RUNNING" "closable (io s, this s)"
  shows "\<exists>s'. TerminateConnection api s = Some s' \<and>
    frame (gl s') = frame (if is_open s then add_total (-1) (gl s) else gl s) \<and>
    g_auth (gl s') = g_auth (gl s) \<and>
    set (g_out (gl s)) \<subseteq> set (g_out (gl s')) \<and> (is_open s \<longrightarrow> Closed (m_hAsyncIO (io s)) \<in> set (g_out (gl s')))"
proof (cases "m_ConType (io s) = DELETE_PENDING")
  case True
  then show ?thesis using assms(2) by (auto simp: TerminateConnection_def closable_def)
next
  case False
  let ?box = "new_CMailBox\<lparr>m_bMailBoxOpened := m_bMailBoxOpened (box_of s)\<rparr>"
  obtain w where q: "QuitAndClose api (box_of s, g_world (gl s)) = Some (?box, w)"
    using QuitAndClose_box [of "box_of s" api "g_world (gl s)"] assms(2) by (auto simp: closable_def)
  show ?thesis
  proof (cases "is_open s")
    case True
    let ?g = "emit (Closed (m_hAsyncIO (io s))) (sysw (\<lambda>w. closesocket api w (m_hAsyncIO (io s))) ((gl s)\<lparr>g_world := w\<rparr>))"
    have "DecrementTotalSocketCount api ?g = Some (add_total (-1) ?g)"
      by (rule DecrementTotal_stopped) (simp add: assms(1) emit_def sysw_def)
    then show ?thesis
      using True False q
      by (auto simp: TerminateConnection_def box_call_opt_def Let_def on_io_def on_gl_def emit_def sysw_def frame_def
          add_total_def on_pool_def perf_def split: pop3_state.splits)
  next
    case closed: False
    then show ?thesis
      using q False by (auto simp: TerminateConnection_def box_call_opt_def Let_def on_io_def frame_def)
  qed
qed

section \<open>Emptying the lists\<close>

text \<open>
  What holds between two turns of \<^verbatim>\<open>Cleanup\<close> of list \<^term>\<open>k\<close>, of which \<^term>\<open>xs\<close> is left, while \<^term>\<open>ys\<close> is the other
  list.  The cursors of the lists play no part: the one of the list that is emptied may point to an entry
  that is gone.
\<close>

definition open_count :: "'w glob \<Rightarrow> nat list \<Rightarrow> int" where
  "open_count g xs = int (length (filter (open_at g) xs))"

definition clearing :: "bool \<Rightarrow> nat list \<Rightarrow> nat list \<Rightarrow> 'w glob \<Rightarrow> bool" where
  "clearing k xs ys g \<longleftrightarrow> g_dwServerStatus g \<noteq> SERVICE_RUNNING \<and>
     (\<forall>k'. m_ListHead (io_list k' g) = LHead k') \<and>
     ring (g_links g) (LHead k) (map LEntry xs) \<and> ring (g_links g) (LHead (\<not> k)) (map LEntry ys) \<and>
     m_dwListCount (io_list k g) = of_nat (length xs) \<and> m_dwListCount (io_list (\<not> k) g) = of_nat (length ys) \<and>
     set xs \<inter> set ys = {} \<and> (\<forall>a \<in> set (xs @ ys). \<exists>c. g_heap g a = Some c \<and> closable c) \<and>
     total_sockets g = open_count g xs + open_count g ys"

text \<open>What emptying a list does: the contexts are gone, and the socket of each that had one is closed.\<close>

definition cleared :: "nat list \<Rightarrow> 'w glob \<Rightarrow> 'w glob \<Rightarrow> bool" where
  "cleared xs g g' \<longleftrightarrow> (\<forall>a. g_heap g' a = (if a \<in> set xs then None else g_heap g a)) \<and>
     g_auth g' = g_auth g \<and> set (g_out g) \<subseteq> set (g_out g') \<and>
     (\<forall>a \<in> set xs. \<forall>ioc ctx. g_heap g a = Some (ioc, ctx) \<longrightarrow> m_hAsyncIO ioc \<noteq> NULL_HANDLE \<longrightarrow>
        Closed (m_hAsyncIO ioc) \<in> set (g_out g'))"

lemma cleared_trans:
  assumes "cleared xs g h" "cleared ys h g'" "set xs \<inter> set ys = {}"
  shows "cleared (xs @ ys) g g'"
  using assms unfolding cleared_def by (auto 0 4)

lemma Cleanup_out: "Cleanup api (a, g) = (a', g') \<Longrightarrow> set (g_out g) \<subseteq> set (g_out g') \<and> g_auth g' = g_auth g"
  by (auto simp: Cleanup_def Let_def sysw_def LogEvent_def emit_def split: if_splits)

lemma delete_conn_out: "set (g_out (gl s)) \<subseteq> set (g_out (delete_conn api a s)) \<and> g_auth (delete_conn api a s) = g_auth (gl s)"
  using Cleanup_out [of api "m_AuthServer (this s)" "gl s"] by (simp add: delete_conn_def split: prod.splits)

lemma clearing_step:
  fixes g :: "'w glob"
  assumes "clearing k (a # xs) ys g"
  obtains g1 where "CleanupList_loop api k (LEntry a) g = CleanupList_loop api k (hd (map LEntry xs @ [LHead k])) g1"
    "clearing k xs ys g1" "cleared [a] g g1" "io_list (\<not> k) g1 = io_list (\<not> k) g"
proof -
  have r: "ring (g_links g) (LHead k) (LEntry a # map LEntry xs)" "ring (g_links g) (LHead (\<not> k)) (map LEntry ys)"
    and hd: "m_ListHead (io_list k g) = LHead k" "\<forall>k'. m_ListHead (io_list k' g) = LHead k'"
    and st: "g_dwServerStatus g \<noteq> SERVICE_RUNNING"
    and dj: "a \<notin> set ys" "set xs \<inter> set ys = {}"
    and tot: "total_sockets g = open_count g (a # xs) + open_count g ys"
    and cnt: "m_dwListCount (io_list k g) = of_nat (Suc (length xs))" "m_dwListCount (io_list (\<not> k) g) = of_nat (length ys)"
    using assms by (simp_all add: clearing_def)
  have dx: "a \<notin> set xs" using r(1) by (auto simp: ring_def)
  obtain ioc ctx where c: "g_heap g a = Some (ioc, ctx)" "closable (ioc, ctx)"
    using assms by (auto simp: clearing_def)
  define s0 where "s0 = \<lparr>this = ctx, io = ioc, gl = g\<rparr>"
  have at: "conn_at a g = Some s0" using c(1) by (simp add: conn_at_def s0_def)
  obtain s where t: "TerminateConnection api s0 = Some s"
    and fs: "frame (gl s) = frame (if is_open s0 then add_total (-1) g else g)"
    and out: "set (g_out g) \<subseteq> set (g_out (gl s))" "is_open s0 \<longrightarrow> Closed (m_hAsyncIO ioc) \<in> set (g_out (gl s))"
      "g_auth (gl s) = g_auth g"
    using TerminateConnection_stopped [of s0 api] st c(2) by (auto simp: s0_def)
  define n where "n = hd (map LEntry xs @ [LHead k])"
  define lk' where "lk' = (g_links g)\<lparr>Flink := (Flink (g_links g))(LHead k := n), Blink := (Blink (g_links g))(n := LHead k)\<rparr>"
  have lk2: "lk' = (g_links g)\<lparr>Blink := (Blink (g_links g))(n := LHead k), Flink := (Flink (g_links g))(LHead k := n)\<rparr>"
    by (cases "g_links g") (simp add: lk'_def)
  note u = ring_unlink [OF r(1), folded n_def, folded lk'_def]
  have lks: "g_links (gl s) = g_links g" using fs by (auto simp: frame_def add_total_def on_pool_def split: if_splits)
  define g2 where "g2 = on_io_list k (\<lambda>l. l\<lparr>m_dwListCount := m_dwListCount l - 1\<rparr>) ((gl s)\<lparr>g_links := lk'\<rparr>)"
  define g1 where "g1 = delete_conn api a (s\<lparr>gl := g2\<rparr>)"
  have run: "CleanupList_loop api k (LEntry a) g = CleanupList_loop api k n g1"
    by (subst CleanupList_loop.simps)
      (use hd(1) at t u in \<open>simp add: TimeOut_def lks set_Blink_def set_Flink_def lk2 g1_def g2_def\<close>)
  have f1: "frame g1 = frame (g2\<lparr>g_heap := (g_heap g2)(a := None)\<rparr>)" using delete_conn_frame [of api a "s\<lparr>gl := g2\<rparr>"] by (simp add: g1_def)
  have heap: "g_heap g1 = (g_heap g)(a := None)" and pool: "g_SocketPool g1 = g_SocketPool (if is_open s0 then add_total (-1) g else g)"
    and status: "g_dwServerStatus g1 = g_dwServerStatus g" and links: "g_links g1 = lk'"
    and lists: "io_list k g1 = (io_list k g)\<lparr>m_dwListCount := m_dwListCount (io_list k g) - 1\<rparr>" "io_list (\<not> k) g1 = io_list (\<not> k) g"
    using f1 fs by (auto simp: frame_def g2_def on_io_list_def io_list_def add_total_def on_pool_def split: if_splits)
  have o1: "set (g_out (gl s)) \<subseteq> set (g_out g1)" "g_auth g1 = g_auth (gl s)"
    using delete_conn_out [of "s\<lparr>gl := g2\<rparr>" api a] by (auto simp: g1_def g2_def on_io_list_def split: if_splits)
  have cl: "cleared [a] g g1" using heap o1 out c(1) by (auto simp: cleared_def s0_def)
  have oth: "LHead k \<notin> set (LHead (\<not> k) # map LEntry ys)" "n \<notin> set (LHead (\<not> k) # map LEntry ys)"
    using dj(2) unfolding n_def by (cases xs; auto)+
  have opens: "filter (open_at g1) xs = filter (open_at g) xs" "filter (open_at g1) ys = filter (open_at g) ys"
    using heap dx dj(1) by (auto intro!: filter_cong simp: open_at_def split: if_splits)
  have "total_sockets g1 = open_count g1 xs + open_count g1 ys"
    using pool tot opens c(1) by (auto simp: open_count_def open_at_def s0_def split: if_splits)
  moreover have "ring (g_links g1) (LHead (\<not> k)) (map LEntry ys)"
    unfolding links lk'_def by (rule ring_other [OF r(2) oth])
  moreover have "\<forall>k'. m_ListHead (io_list k' g1) = LHead k'"
  proof
    fix k' show "m_ListHead (io_list k' g1) = LHead k'" using lists hd by (cases "k' = k") auto
  qed
  moreover have "\<forall>b \<in> set (xs @ ys). \<exists>c. g_heap g1 b = Some c \<and> closable c"
    using assms heap dx dj(1) by (auto simp: clearing_def)
  ultimately have "clearing k xs ys g1"
    using st status u(1) links lists cnt dj(2) by (simp add: clearing_def)
  then show thesis using that run cl lists(2) by (simp add: n_def)
qed

lemma CleanupList_loop_clears:
  assumes "clearing k xs ys g"
  shows "\<exists>g'. CleanupList_loop api k (hd (map LEntry xs @ [LHead k])) g = Some g' \<and> clearing k [] ys g' \<and> cleared xs g g' \<and>
    io_list (\<not> k) g' = io_list (\<not> k) g"
  using assms
proof (induction xs arbitrary: g)
  case Nil
  then have "m_ListHead (io_list k g) = LHead k" by (simp add: clearing_def)
  then have "CleanupList_loop api k (LHead k) g = Some g" by (simp add: CleanupList_loop.simps)
  then show ?case using Nil by (simp add: cleared_def)
next
  case (Cons a xs)
  obtain g1 where g1: "CleanupList_loop api k (LEntry a) g = CleanupList_loop api k (hd (map LEntry xs @ [LHead k])) g1"
    "clearing k xs ys g1" "cleared [a] g g1" "io_list (\<not> k) g1 = io_list (\<not> k) g"
    using clearing_step [OF Cons.prems] by blast
  obtain g' where g': "CleanupList_loop api k (hd (map LEntry xs @ [LHead k])) g1 = Some g'" "clearing k [] ys g'"
    "cleared xs g1 g'" "io_list (\<not> k) g' = io_list (\<not> k) g1" using Cons.IH [OF g1(2)] by blast
  have "set [a] \<inter> set xs = {}" using Cons.prems by (auto simp: clearing_def ring_def)
  then have "cleared (a # xs) g g'" using cleared_trans [OF g1(3) g'(3)] by simp
  then show ?case using g1(1,4) g'(1,2,4) by simp
qed

lemma CleanupList_clears:
  assumes "clearing k xs ys g"
  shows "\<exists>g'. CleanupList api k g = Some g' \<and> clearing k [] ys g' \<and> cleared xs g g' \<and>
    io_list (\<not> k) g' = io_list (\<not> k) g \<and> m_pCursor (io_list k g') = LHead k"
proof -
  have hd: "m_ListHead (io_list k g) = LHead k" "linked (g_links g) (LHead k # map LEntry xs @ [LHead k])"
    using assms by (simp_all add: clearing_def ring_def)
  then have "Flink (g_links g) (LHead k) = hd (map LEntry xs @ [LHead k])" by (cases xs) auto
  then obtain g1 where g1: "CleanupList_loop api k (Flink (g_links g) (LHead k)) g = Some g1"
    "clearing k [] ys g1" "cleared xs g g1" "io_list (\<not> k) g1 = io_list (\<not> k) g"
    using CleanupList_loop_clears [OF assms] by auto
  let ?g = "on_io_list k (\<lambda>l. l\<lparr>m_pCursor := m_ListHead l\<rparr>) g1"
  have hk: "m_ListHead (io_list k g1) = LHead k" using g1(2) by (simp add: clearing_def)
  have l: "io_list k ?g = (io_list k g1)\<lparr>m_pCursor := LHead k\<rparr>" "io_list (\<not> k) ?g = io_list (\<not> k) g1"
    using hk by (cases k; simp add: on_io_list_def io_list_def)+
  have heads: "m_ListHead (io_list k' ?g) = LHead k'" for k'
    using l g1(2) by (cases "k' = k") (auto simp: clearing_def)
  have rest: "g_heap ?g = g_heap g1" "g_auth ?g = g_auth g1" "g_out ?g = g_out g1" "g_links ?g = g_links g1" "g_SocketPool ?g = g_SocketPool g1"
    "g_dwServerStatus ?g = g_dwServerStatus g1" by (simp_all add: on_io_list_def)
  then have o: "open_at ?g = open_at g1" by (auto simp: open_at_def)
  have "clearing k [] ys ?g" using g1(2) rest l o heads by (simp add: clearing_def open_count_def)
  moreover have "cleared xs g ?g" using g1(3) rest by (simp add: cleared_def)
  ultimately show ?thesis using g1(1,4) hd(1) l by (simp add: CleanupList_def)
qed

text \<open>The service that is about to stop, and what is left of the lists afterwards.\<close>

lemma svc_inv_clearing:
  assumes "svc_inv L fs bs g" "g_dwServerStatus g \<noteq> SERVICE_RUNNING"
  shows "clearing False bs fs g"
proof -
  have l: "lists_ok fs bs g" using assms(1) by (simp add: svc_inv_def)
  have inv: "\<forall>a \<in> set fs. \<exists>ioc ctx. g_heap g a = Some (ioc, ctx) \<and> waiting ioc \<and> fresh_ctx ctx"
    "\<forall>a \<in> set bs. \<exists>c. g_heap g a = Some c \<and> ctx_inv L c"
    using assms(1) unfolding svc_inv_def by simp_all
  have "filter (open_at g) fs = fs"
    using assms(1) by (fastforce simp: svc_inv_def open_at_def waiting_def intro!: filter_True)
  moreover have "\<exists>c. g_heap g a = Some c \<and> closable c" if a: "a \<in> set bs" for a
  proof -
    obtain c where "g_heap g a = Some c" "ctx_inv L c" using inv(2) a by blast
    then show ?thesis by (auto simp: ctx_inv_def conn_inv_def conn_sound_def closable_def)
  qed
  moreover have "\<exists>c. g_heap g a = Some c \<and> closable c" if a: "a \<in> set fs" for a
  proof -
    obtain ioc ctx where "g_heap g a = Some (ioc, ctx)" "waiting ioc" "fresh_ctx ctx" using inv(1) a by blast
    then show ?thesis by (auto simp: closable_def waiting_def fresh_ctx_def)
  qed
  moreover have "set bs \<inter> set fs = {}" using lists_ok_distinct [OF l] by auto
  moreover have "\<forall>k. m_ListHead (io_list k g) = LHead k" "ring (g_links g) (LHead False) (map LEntry bs)"
    "ring (g_links g) (LHead True) (map LEntry fs)" "m_dwListCount (g_BusyList g) = of_nat (length bs)"
    "m_dwListCount (g_FreeList g) = of_nat (length fs)"
    using l by (auto simp: lists_ok_def two_def holds_def io_list_def)
  moreover have "total_sockets g = int (length fs) + int (length (filter (open_at g) bs))"
    using assms(1) by (simp add: svc_inv_def)
  ultimately show ?thesis
    using assms(2) unfolding clearing_def by (simp add: io_list_def open_count_def) blast
qed

lemma Uninitialize_keeps:
  assumes "Uninitialize api net g = (ok, g1)"
  shows "svc_inv L fs bs g1 = svc_inv L fs bs g" "g_heap g1 = g_heap g" "set (g_out g) \<subseteq> set (g_out g1)"
    "g_dwServerStatus g1 = g_dwServerStatus g" "g_auth g1 = g_auth g"
    "m_bPoolInit (g_SocketPool g) \<Longrightarrow> Closed (m_sMainSocket (g_SocketPool g)) \<in> set (g_out g1) \<and> m_sMainSocket (g_SocketPool g1) = INVALID_HANDLE_VALUE"
  using assms
  by (auto simp: Uninitialize_def Let_def sys_def on_pool_def set_main_def emit_def sysw_def LogEvent_def svc_inv_def
      lists_ok_def open_at_def [abs_def] split: if_splits prod.splits)

lemma DeInit_connections_clears:
  assumes "svc_inv L fs bs g" "g_dwServerStatus g \<noteq> SERVICE_RUNNING"
  shows "\<exists>g'. DeInit_connections os g = Some g' \<and> g_auth g' = g_auth g \<and> lists_ok [] [] g' \<and> total_sockets g' = 0 \<and>
    (\<forall>a. g_heap g' a = (if a \<in> set (fs @ bs) then None else g_heap g a)) \<and>
    (\<forall>a \<in> set (fs @ bs). \<forall>ioc ctx. g_heap g a = Some (ioc, ctx) \<longrightarrow> m_hAsyncIO ioc \<noteq> NULL_HANDLE \<longrightarrow>
       Closed (m_hAsyncIO ioc) \<in> set (g_out g')) \<and>
    (m_bPoolInit (g_SocketPool g) \<longrightarrow> Closed (m_sMainSocket (g_SocketPool g)) \<in> set (g_out g'))"
proof -
  obtain ok g1 where u: "Uninitialize (os_win os) (os_net os) g = (ok, g1)" by fastforce
  note k = Uninitialize_keeps [OF u]
  have c1: "clearing False bs fs g1" using svc_inv_clearing [of L fs bs g1] assms k(1,4) by simp
  obtain g2 where g2: "CleanupList (os_win os) False g1 = Some g2" "clearing False [] fs g2" "cleared bs g1 g2"
    "m_pCursor (io_list False g2) = LHead False" using CleanupList_clears [OF c1] by blast
  have c2: "clearing True fs [] g2" using g2(2) by (simp add: clearing_def open_count_def)
  obtain g3 where g3: "CleanupList (os_win os) True g2 = Some g3" "clearing True [] [] g3" "cleared fs g2 g3"
    "io_list False g3 = io_list False g2" "m_pCursor (io_list True g3) = LHead True"
    using CleanupList_clears [OF c2] by auto
  have run: "DeInit_connections os g = Some g3" using u g2(1) g3(1) by (simp add: DeInit_connections_def)
  have "lists_ok [] [] g3"
    using g2(4) g3(2,4,5) by (simp add: clearing_def lists_ok_def two_def holds_def io_list_def all_bool_eq)
  moreover have "total_sockets g3 = 0" using g3(2) by (simp add: clearing_def open_count_def)
  moreover have "set bs \<inter> set fs = {}" using c1 by (simp add: clearing_def)
  then have cl: "cleared (bs @ fs) g1 g3" using cleared_trans [OF g2(3) g3(3)] by simp
  have "g_heap g3 a = (if a \<in> set (fs @ bs) then None else g_heap g a)" for a
    using cl k(2) by (auto simp: cleared_def)
  moreover have "g_auth g3 = g_auth g" using cl k(5) by (simp add: cleared_def)
  moreover have "\<forall>a \<in> set (fs @ bs). \<forall>ioc ctx. g_heap g a = Some (ioc, ctx) \<longrightarrow> m_hAsyncIO ioc \<noteq> NULL_HANDLE \<longrightarrow>
      Closed (m_hAsyncIO ioc) \<in> set (g_out g3)"
    using cl unfolding cleared_def k(2) set_append Un_commute [of "set fs"] by blast
  moreover have "m_bPoolInit (g_SocketPool g) \<longrightarrow> Closed (m_sMainSocket (g_SocketPool g)) \<in> set (g_out g3)"
    using cl k(6) by (auto simp: cleared_def)
  ultimately show ?thesis using run by blast
qed

text \<open>
  C23.  Stopping ends every connection.  When the service is no longer running, the part of \<^verbatim>\<open>DeInit\<close> that closes
  the socket pool and empties the lists returns, both lists are empty, every context that was in them is
  deleted and no other, every socket that was open, and the listening socket, was closed, and no socket is
  counted any more.
\<close>

theorem DeInit_ends_connections:
  assumes "svc_inv L fs bs g" "g_dwServerStatus g \<noteq> SERVICE_RUNNING"
  shows "\<exists>g'. DeInit_connections os g = Some g' \<and> lists_ok [] [] g' \<and> total_sockets g' = 0 \<and>
    (\<forall>a. g_heap g' a = (if a \<in> set (fs @ bs) then None else g_heap g a)) \<and>
    (\<forall>a \<in> set (fs @ bs). \<forall>ioc ctx. g_heap g a = Some (ioc, ctx) \<longrightarrow> m_hAsyncIO ioc \<noteq> NULL_HANDLE \<longrightarrow>
       Closed (m_hAsyncIO ioc) \<in> set (g_out g')) \<and>
    (m_bPoolInit (g_SocketPool g) \<longrightarrow> Closed (m_sMainSocket (g_SocketPool g)) \<in> set (g_out g'))"
  using DeInit_connections_clears [OF assms, of os] by blast

theorem DeInit_ends_connections_witness:
  "let g = demo_svc\<lparr>g_dwServerStatus := SERVICE_STOP_PENDING\<rparr> in
     \<exists>g'. DeInit_connections demo_os g = Some g' \<and> lists_ok [] [] g' \<and> total_sockets g' = 0 \<and> g_heap g' 0 = None \<and>
       g_heap g' 1 = None \<and> Closed 7 \<in> set (g_out g') \<and> Closed 8 \<in> set (g_out g')"
proof -
  let ?g = "demo_svc\<lparr>g_dwServerStatus := SERVICE_STOP_PENDING\<rparr>"
  have "svc_inv 1000 [1] [0] ?g"
    using demo_svc_inv by (simp add: svc_inv_def lists_ok_def open_at_def [abs_def])
  from DeInit_ends_connections [OF this, of demo_os] obtain g' where
    "DeInit_connections demo_os ?g = Some g'" "lists_ok [] [] g'" "total_sockets g' = 0"
    "\<forall>a. g_heap g' a = (if a \<in> set ([1] @ [0]) then None else g_heap ?g a)"
    "\<forall>a \<in> set ([1] @ [0]). \<forall>ioc ctx. g_heap ?g a = Some (ioc, ctx) \<longrightarrow> m_hAsyncIO ioc \<noteq> NULL_HANDLE \<longrightarrow>
       Closed (m_hAsyncIO ioc) \<in> set (g_out g')"
    by auto
  then show ?thesis by (auto simp: demo_svc_def)
qed

end
