(* ===== verification/Svc_Main.thy ===== *)
theory Svc_Main
  imports Svc_Stop
begin

text \<open>
  The life of the service: what a successful start leaves, the main loop with its time-out scans, the
  requests of the service control manager, and what a failed start reports.
\<close>

section \<open>The main loop\<close>

lemma CheckTimeOut_entry_next:
  assumes "CheckTimeOut_entry api interval ((nxt, b), g) = Some ((nxt', b'), g')" "nxt < DEFAULT_TIME_OUT"
  shows "nxt' < DEFAULT_TIME_OUT"
  using assms
  by (auto simp: CheckTimeOut_entry_def timed_out_def not_le Let_def split: lref.splits bind_splits if_splits prod.splits)

lemma CheckTimeOut_loop_next:
  assumes "CheckTimeOut_loop (api :: 'a win32) interval st = Some st'" "fst (fst st) < DEFAULT_TIME_OUT"
  shows "fst (fst st') < DEFAULT_TIME_OUT"
proof -
  let ?P = "\<lambda>(api :: 'a win32) (interval :: DWORD) x y. fst (fst x) < DEFAULT_TIME_OUT \<longrightarrow> fst (fst y) < DEFAULT_TIME_OUT"
  have "?P api interval st st'"
  proof (rule CheckTimeOut_loop.raw_induct [where P = ?P, OF _ assms(1)])
    fix f api interval x y
    assume ih: "\<And>api interval x y. f api interval x = Some y \<Longrightarrow> ?P api interval x y"
      and step: "(if m_pCursor (g_BusyList (snd x)) = m_ListHead (g_BusyList (snd x)) then Some x
        else do { x \<leftarrow> CheckTimeOut_entry api interval x; f api interval x }) = Some y"
    show "?P api interval x y"
    proof (cases "m_pCursor (g_BusyList (snd x)) = m_ListHead (g_BusyList (snd x))")
      case True
      then show ?thesis using step by simp
    next
      case False
      then obtain z where z: "CheckTimeOut_entry api interval x = Some z" "f api interval z = Some y"
        using step by (auto split: bind_splits)
      then show ?thesis
        using ih [OF z(2)] CheckTimeOut_entry_next [of api interval "fst (fst x)" "snd (fst x)" "snd x" "fst (fst z)" "snd (fst z)" "snd z"]
        by auto
    qed
  qed
  then show ?thesis using assms(2) by blast
qed

lemma CheckTimeOut_next:
  assumes "CheckTimeOut api interval (b, g) = Some (nxt, b', g')"
  shows "nxt < DEFAULT_TIME_OUT" "0 < DEFAULT_TIME_OUT - nxt" "DEFAULT_TIME_OUT - nxt \<le> DEFAULT_TIME_OUT"
proof -
  have d: "(0 :: DWORD) < DEFAULT_TIME_OUT" by (simp add: DEFAULT_TIME_OUT_def)
  show n: "nxt < DEFAULT_TIME_OUT"
    using assms CheckTimeOut_loop_next [of api interval] d by (fastforce simp: CheckTimeOut_def Let_def split: bind_splits)
  show "0 < DEFAULT_TIME_OUT - nxt" using n by (auto simp: word_gt_0)
  show "DEFAULT_TIME_OUT - nxt \<le> DEFAULT_TIME_OUT" using n by (simp add: word_sub_le order.strict_implies_order)
qed

text \<open>What the other threads do while the main thread waits or sleeps keeps the books.\<close>

definition books :: "nat \<Rightarrow> 'w svc \<Rightarrow> bool" where
  "books L s \<longleftrightarrow> (\<exists>fs bs. svc_inv L fs bs (sg s))"

definition keeps_books :: "nat \<Rightarrow> ('w svc \<Rightarrow> 'w svc) \<Rightarrow> bool" where
  "keeps_books L f \<longleftrightarrow> (\<forall>s. books L s \<longrightarrow> books L (f s))"

definition good_wait :: "DWORD \<Rightarrow> bool" where
  "good_wait d \<longleftrightarrow> 0 < d \<and> d \<le> DEFAULT_TIME_OUT"

lemma CheckTimeOut_books:
  assumes "books L s" "sockets_valid api"
  shows "\<exists>nxt b' g'. CheckTimeOut api interval (b, sg s) = Some (nxt, b', g') \<and> books L (s\<lparr>sg := g'\<rparr>) \<and>
    good_wait (DEFAULT_TIME_OUT - nxt)"
proof -
  obtain fs bs where "svc_inv L fs bs (sg s)" using assms(1) by (auto simp: books_def)
  from CheckTimeOut_scans [OF this assms(2)] obtain nxt b' g' ns where
    c: "CheckTimeOut api interval (b, sg s) = Some (nxt, b', g')" "svc_inv L (fs @ ns) bs g'" by blast
  then show ?thesis using CheckTimeOut_next [OF c(1)] by (auto simp: books_def good_wait_def)
qed

lemma Run_full_books:
  assumes "books L s" "sockets_valid (os_win os)" "keeps_books L others" "good_wait d"
  shows "\<exists>d' s'. Run_full os others n b d s = Some (d', s') \<and> books L s' \<and> good_wait d'"
  using assms(1,4)
proof (induction n arbitrary: b d s)
  case (Suc n)
  show ?case
  proof (cases "\<not> b \<and> IsMaxSocketUsed (sg s)")
    case True
    obtain nxt b' g' where "CheckTimeOut (os_win os) SHORTENED_TIMEOUT (b, sg s) = Some (nxt, b', g')"
      "books L (s\<lparr>sg := g'\<rparr>)" "good_wait (DEFAULT_TIME_OUT - nxt)"
      using CheckTimeOut_books [OF Suc.prems(1) assms(2)] by blast
    then show ?thesis using True Suc.IH assms(3) by (simp add: keeps_books_def)
  qed (use Suc.prems in auto)
qed simp

lemma tell_simps [simp]: "sg (tell f s) = sysw f (sg s)" "sg (svc_log i s) = LogEvent i (sg s)"
  by (simp_all add: tell_def svc_log_def on_sg_def)

lemma books_frame: "frame (sg s') = frame (sg s) \<Longrightarrow> books L s' = books L s"
  by (simp add: books_def svc_inv_frame [of "sg s'" "sg s"])

lemma Run_turn_books:
  assumes "books L s" "sockets_valid (os_win os)" "keeps_books L others" "good_wait d"
  shows "\<exists>t. Run_turn os others r d s = Some t \<and>
    (case t of Waits d' s' \<Rightarrow> good_wait d' \<and> books L s' \<and> r \<noteq> WAIT_OBJECT_0
             | Stops s' \<Rightarrow> s' = s \<and> r = WAIT_OBJECT_0
             | Aborts s' \<Rightarrow> books L s' \<and> r \<notin> {WAIT_OBJECT_0, WAIT_OBJECT_0 + 1, WAIT_TIMEOUT})"
proof -
  let ?s = "tell (\<lambda>w. ResetEvent os w (g_hDoSEvent s)) s"
  have b: "books L ?s" "books L (svc_log EVENT_POP3_UNEXPECTED_ERROR s)"
    using assms(1) books_frame [of ?s s] books_frame [of "svc_log EVENT_POP3_UNEXPECTED_ERROR s" s] by simp_all
  show ?thesis
    using CheckTimeOut_books [OF assms(1,2), of DEFAULT_TIME_OUT False] Run_full_books [OF b(1) assms(2-4), of 3 False] b(2)
    by (auto simp: Run_turn_def WAIT_OBJECT_0_def WAIT_TIMEOUT_def)
qed

text \<open>
  A wait of the main thread that ends with a time-out or with the event of a full pool, or, for the last, with
  the stop event; the other threads keep the books meanwhile.
\<close>

definition wait_ok :: "nat \<Rightarrow> bool \<Rightarrow> (DWORD \<Rightarrow> 'w svc \<Rightarrow> DWORD \<times> 'w svc) \<times> ('w svc \<Rightarrow> 'w svc) \<Rightarrow> bool" where
  "wait_ok L stop e \<longleftrightarrow> keeps_books L (snd e) \<and> (\<forall>d s. good_wait d \<longrightarrow> books L s \<longrightarrow> books L (snd (fst e d s)) \<and>
     (if stop then fst (fst e d s) = WAIT_OBJECT_0 else fst (fst e d s) \<in> {WAIT_TIMEOUT, WAIT_OBJECT_0 + 1}))"

lemma Run_returns_from:
  assumes "books L s" "sockets_valid (os_win os)" "\<forall>e \<in> set waits. wait_ok L False e" "wait_ok L True e" "good_wait d"
  shows "\<exists>s'. Run os (waits @ [e]) d s = Some (Goes s') \<and> books L s'"
  using assms(1,3,5)
proof (induction waits arbitrary: d s)
  case Nil
  obtain wait others where e: "e = (wait, others)" by fastforce
  have "fst (wait d s) = WAIT_OBJECT_0" "books L (snd (wait d s))"
    using assms(4) Nil e by (auto simp: wait_ok_def)
  then show ?case using e by (cases "wait d s") (simp add: Run_turn_def WAIT_OBJECT_0_def WAIT_TIMEOUT_def)
next
  case (Cons x waits)
  obtain wait others where x: "x = (wait, others)" by fastforce
  obtain r s1 where w: "wait d s = (r, s1)" by fastforce
  have k: "keeps_books L others" "r \<in> {WAIT_TIMEOUT, WAIT_OBJECT_0 + 1}" "books L s1"
    using Cons.prems x w by (auto simp: wait_ok_def dest!: spec [of _ d] spec [of _ s])
  then have "r \<noteq> WAIT_OBJECT_0" by (auto simp: WAIT_TIMEOUT_def WAIT_OBJECT_0_def)
  moreover obtain t where t: "Run_turn os others r d s1 = Some t" "case t of Waits d' s' \<Rightarrow> good_wait d' \<and> books L s' \<and> r \<noteq> WAIT_OBJECT_0
      | Stops s' \<Rightarrow> s' = s1 \<and> r = WAIT_OBJECT_0 | Aborts s' \<Rightarrow> books L s' \<and> r \<notin> {WAIT_OBJECT_0, WAIT_OBJECT_0 + 1, WAIT_TIMEOUT}"
    using Run_turn_books [OF k(3) assms(2) k(1) Cons.prems(3), of r] by blast
  ultimately obtain d' s2 where "Run_turn os others r d s1 = Some (Waits d' s2)" "good_wait d'" "books L s2"
    using k(2) by (cases t) auto
  then show ?case using Cons.IH [of s2 d'] Cons.prems(2) x w by simp
qed

text \<open>
  C21.  The main thread returns from \<^verbatim>\<open>Run\<close> when the stop event is signalled: after any sequence of time-outs and
  events of a full pool, each answered by time-out scans that always end, it comes back to its wait, and
  the time it waits is never zero and never above ten minutes; at the stop event it returns, with the
  books of the service in order.
\<close>

theorem Run_returns:
  assumes "books L s" "sockets_valid (os_win os)" "\<forall>e \<in> set waits. wait_ok L False e" "wait_ok L True e"
  shows "\<exists>s'. Run os (waits @ [e]) DEFAULT_TIME_OUT s = Some (Goes s') \<and> books L s'"
  using Run_returns_from [OF assms] by (simp add: good_wait_def DEFAULT_TIME_OUT_def)

definition demo_service :: "sim svc" where
  "demo_service = \<lparr>m_dwState = Some SERVICE_RUNNING, m_dwControlsAccepted = 3, m_dwCheckpoint = 0, m_dwWaitHint = 0,
     m_dwRequestedControl = 0, m_hServiceStatus = 30, m_hServiceEvent = [31, 32, 33, 34], m_hWatcherThread = 35,
     g_hShutDown = 36, g_hDoSEvent = 37, g_ThreadPool = new_CThreadPool, g_pAuthMethod = True, g_dwIPVersion = 4,
     reported = [], sg = demo_svc\<rparr>"

lemma demo_books: "books 1000 demo_service"
  using demo_svc_inv by (auto simp: books_def demo_service_def)

lemma demo_os_sockets: "sockets_valid (os_win demo_os)"
  using svc_api_valid by (simp add: demo_os_def)

theorem Run_returns_witness:
  "\<exists>s'. Run demo_os ([(\<lambda>d s. (WAIT_TIMEOUT, s), id), (\<lambda>d s. (WAIT_OBJECT_0 + 1, s), id)] @ [(\<lambda>d s. (WAIT_OBJECT_0, s), id)])
     DEFAULT_TIME_OUT demo_service = Some (Goes s') \<and> books 1000 s'"
  by (rule Run_returns [OF demo_books demo_os_sockets]) (auto simp: wait_ok_def keeps_books_def)

section \<open>Requests\<close>

text \<open>
  The status reported to the service control manager: the same as the one the threads of the service see,
  with checkpoint and hint exactly in the pending states.
\<close>

definition status_ok :: "'w svc \<Rightarrow> bool" where
  "status_ok s \<longleftrightarrow> m_dwState s = Some (g_dwServerStatus (sg s)) \<and>
     (if pending (g_dwServerStatus (sg s)) then m_dwCheckpoint s \<noteq> 0 \<and> m_dwWaitHint s \<noteq> 0
      else m_dwCheckpoint s = 0 \<and> m_dwWaitHint s = 0)"

definition report_ok :: "'w svc \<Rightarrow> SERVICE_STATUS \<Rightarrow> bool" where
  "report_ok s r \<longleftrightarrow> dwCurrentState r = g_dwServerStatus (sg s) \<and> dwWin32ExitCode r = 0 \<and>
     (pending (dwCurrentState r) \<longleftrightarrow> dwCheckPoint r \<noteq> 0) \<and> (pending (dwCurrentState r) \<longleftrightarrow> dwWaitHint r \<noteq> 0)"

definition answered :: "nat \<Rightarrow> 'w svc \<Rightarrow> 'w svc \<Rightarrow> bool" where
  "answered L s s' \<longleftrightarrow> status_ok s' \<and> books L s' \<and> m_dwControlsAccepted s' = m_dwControlsAccepted s \<and>
     (reported s' = reported s \<or> (\<exists>r. reported s' = reported s @ [r] \<and> report_ok s' r))"

lemma books_status: "books L (server_status st s) = books L s"
  by (simp add: books_def server_status_def on_sg_def svc_inv_def lists_ok_def open_at_def [abs_def])

lemma SetStatus_answered:
  assumes "books L s" "g_dwServerStatus (sg s) = st" "dwExitCode = 0"
    "pending st \<Longrightarrow> hint \<noteq> 0 \<and> chk \<noteq> 0 \<and> (chk = dwStateNoChange \<longrightarrow> m_dwCheckpoint s \<noteq> 0) \<and> (hint = dwStateNoChange \<longrightarrow> m_dwWaitHint s \<noteq> 0)"
  shows "\<exists>s'. SetStatus st chk hint dwStateNoChange dwExitCode spec s = Some s' \<and> answered L s s' \<and> sg s' = sg s \<and>
    m_hServiceEvent s' = m_hServiceEvent s \<and> m_dwRequestedControl s' = m_dwRequestedControl s"
  using assms by (auto simp: SetStatus_def Let_def answered_def status_ok_def report_ok_def books_def S_OK_def dwStateNoChange_def)

lemma answered_trans:
  assumes "status_ok s'" "books L s'" "answered L s s1" "reported s' = reported s1" "m_dwControlsAccepted s' = m_dwControlsAccepted s1"
    "g_dwServerStatus (sg s') = g_dwServerStatus (sg s1)"
  shows "answered L s s'"
  using assms by (auto simp: answered_def report_ok_def)

lemma status_simps [simp]:
  "g_dwServerStatus (sg (server_status st s)) = st" "m_dwState (server_status st s) = m_dwState s"
  "reported (server_status st s) = reported s" "m_dwControlsAccepted (server_status st s) = m_dwControlsAccepted s"
  by (simp_all add: server_status_def on_sg_def)

lemma OnStopRequest_answered:
  assumes "books L s"
  shows "\<exists>s'. OnStopRequest s = Some s' \<and> answered L s s' \<and> g_dwServerStatus (sg s') = SERVICE_STOP_PENDING"
  using SetStatus_answered [of L "server_status SERVICE_STOP_PENDING s" SERVICE_STOP_PENDING 0 30000 1 0] assms
  by (fastforce simp: OnStopRequest_def books_status answered_def dwStateNoChange_def)

lemma OnPause_answered:
  assumes "books L s"
  shows "\<exists>s'. OnPause s = Some s' \<and> answered L s s'"
  using SetStatus_answered [of L "server_status SERVICE_PAUSED s" SERVICE_PAUSED 0 dwStateNoChange dwStateNoChange 0] assms
  by (fastforce simp: OnPause_def books_status answered_def pending_def)

lemma AddNeededSockets_status:
  "AddNeededSockets api g = Some g' \<Longrightarrow> g_dwServerStatus g' = g_dwServerStatus g"
  using AddSockets_grows [of api g]
  by (auto simp: AddNeededSockets_def grows_def keeps_def LogEvent_def emit_def split: if_splits bind_splits)

lemma OnContinueRequest_answered:
  assumes "books L s" "sockets_valid (os_win os)"
  shows "\<exists>s'. OnContinueRequest os s = Some s' \<and> answered L s s'"
proof -
  let ?s = "server_status SERVICE_RUNNING s"
  obtain s1 where s1: "SetStatus_default SERVICE_RUNNING ?s = Some s1" "answered L ?s s1"
    using SetStatus_answered [of L ?s SERVICE_RUNNING 0 dwStateNoChange dwStateNoChange 0] assms(1)
    by (auto simp: books_status pending_def)
  obtain fs bs where i: "svc_inv L fs bs (sg s1)" using s1(2) by (auto simp: answered_def books_def)
  obtain g ns where g: "AddNeededSockets (os_win os) (sg s1) = Some g" "svc_inv L (fs @ ns) bs g"
    using AddNeededSockets_inv [OF i assms(2)] by blast
  have "answered L ?s (s1\<lparr>sg := g\<rparr>)"
    by (rule answered_trans [OF _ _ s1(2)])
      (use s1(2) g AddNeededSockets_status [OF g(1)] in \<open>auto simp: answered_def status_ok_def books_def\<close>)
  then show ?thesis using s1(1) g(1) by (auto simp: OnContinueRequest_def answered_def)
qed

lemma signal_answered:
  assumes "answered L s s'"
  shows "answered L s (signal os e s')" "answered L s (tell f s')"
proof -
  have "answered L s (tell f s')" for f
    by (rule answered_trans [OF _ _ assms])
      (use assms books_frame [of "tell f s'" s'] in \<open>auto simp: answered_def status_ok_def tell_def on_sg_def sysw_def frame_def\<close>)
  then show "answered L s (signal os e s')" "answered L s (tell f s')" by (simp_all add: signal_def)
qed



section \<open>Starting\<close>

text \<open>The part of the globals that holds the lists, the contexts and the counts.\<close>

definition core :: "'w glob \<Rightarrow> CIOList \<times> CIOList \<times> links \<times> (nat \<Rightarrow> (IO_CONTEXT \<times> POP3_CONTEXT) option) \<times> nat \<times> CSocketPool" where
  "core g = (g_FreeList g, g_BusyList g, g_links g, g_heap g, g_nextAddr g, g_SocketPool g)"

lemma core_simps [simp]:
  "core (perf f g) = core g" "core (emit e g) = core g" "core (LogEvent i g) = core g" "core (sysw k g) = core g"
  "core (g\<lparr>g_world := w\<rparr>) = core g" "core (g\<lparr>g_MailRoot := r\<rparr>) = core g" "core (set_auth au g) = core g"
  "core (g\<lparr>g_cfg := c\<rparr>) = core g" "core (g\<lparr>g_dwServerStatus := st\<rparr>) = core g" "core (g\<lparr>g_bThreadPoolInit := b\<rparr>) = core g"
  "core (g\<lparr>g_PerfCounters := p\<rparr>) = core g" "core (close_handle api h2 g) = core g"
  by (simp_all add: core_def perf_def emit_def LogEvent_def sysw_def set_auth_def close_handle_def)

lemma core_sys: "sys f g = (r, g') \<Longrightarrow> core g' = core g"
  by (auto simp: sys_def split: prod.splits)

lemma core_ask: "ask f s = (r, s') \<Longrightarrow> core (sg s') = core (sg s)"
  by (auto simp: ask_def sys_def split: prod.splits)

lemma core_svc [simp]:
  "core (sg (tell f s)) = core (sg s)" "core (sg (server_status st s)) = core (sg s)" "core (sg (svc_log i s)) = core (sg s)"
  by (simp_all add: tell_def on_sg_def server_status_def svc_log_def)

lemma create_events_core: "create_events os n s = (ok, s') \<Longrightarrow> core (sg s') = core (sg s)"
  by (induction n arbitrary: s) (auto simp: Let_def split: prod.splits if_splits dest!: core_ask)

lemma PreInit_logging_core: "PreInit_logging os s = Some (ok, s') \<Longrightarrow> core (sg s') = core (sg s)"
  by (auto simp: PreInit_logging_def Let_def split: prod.splits bind_splits dest!: core_ask)

lemma HrInit_core: "HrInit os g = (hr, g') \<Longrightarrow> core g' = core g"
  by (auto simp: HrInit_def split: prod.splits if_splits dest: core_sys)

lemma PreInit_events_core: "PreInit_events os s = (ok, s') \<Longrightarrow> core (sg s') = core (sg s)"
  by (auto simp: PreInit_events_def fail_with_def Let_def split: prod.splits if_splits dest!: core_ask HrInit_core)

lemma PreInit_registry_core: "PreInit_registry os s = Some (r, s') \<Longrightarrow> core (sg s') = core (sg s)"
  by (auto simp: PreInit_registry_def Let_def on_sg_def split: prod.splits bind_splits if_splits)

lemma PreInit_settings_core: "PreInit_settings os s = Some (r, s') \<Longrightarrow> core (sg s') = core (sg s)"
  by (auto simp: PreInit_settings_def Let_def on_sg_def split: prod.splits bind_splits if_splits)

lemma PreInit_config_core: "PreInit_config os s = Some (r, s') \<Longrightarrow> core (sg s') = core (sg s)"
  by (auto simp: PreInit_config_def dest!: PreInit_registry_core PreInit_settings_core split: bind_splits if_splits)

lemma PreInit_names_core: "PreInit_names os root s = Some (ok, s') \<Longrightarrow> core (sg s') = core (sg s)"
  by (auto simp: PreInit_names_def fail_with_def Let_def on_sg_def core_def ask_def sys_def svc_log_def LogEvent_def emit_def
      split: prod.splits bind_splits if_splits option.splits)

lemma with_methods_core: "with_methods f (m, s) = Some (r, m', s') \<Longrightarrow> core (sg s') = core (sg s)"
  by (auto simp: with_methods_def split: bind_splits)

lemma PreInit_auth_core: "PreInit_auth os s = Some (ok, s') \<Longrightarrow> core (sg s') = core (sg s)"
  by (auto simp: PreInit_auth_def fail_with_def Let_def on_sg_def split: prod.splits bind_splits if_splits
      dest!: core_ask with_methods_core)

lemma PreInit_put_core: "PreInit_put os root s = (ok, s') \<Longrightarrow> core (sg s') = core (sg s)"
  by (auto simp: PreInit_put_def fail_with_def split: prod.splits if_splits dest!: core_ask)

lemma GlobalInit_core: "GlobalInit api g = Some (hr, g') \<Longrightarrow> core g' = core g"
  by (auto simp: GlobalInit_def GlobalInit_load_def Let_def split: prod.splits bind_splits if_splits dest!: core_sys)

lemma create_threads_core: "create_threads th port n hs g = (r, g') \<Longrightarrow> core g' = core g"
  by (induction n arbitrary: hs g) (auto split: prod.splits if_splits dest!: core_sys)

lemma terminate_threads_core: "core (terminate_threads api th hs g) = core g"
  by (induction hs arbitrary: g) simp_all

lemma thread_exit_core: "thread_exit api th (tp, g) = (ok, tp', g') \<Longrightarrow> core g' = core g"
  by (auto simp: thread_exit_def close_port_def terminate_threads_core split: option.splits if_splits)

lemma ThreadPool_Initialize_core: "ThreadPool_Initialize api th n (tp, g) = (ok, tp', g') \<Longrightarrow> core g' = core g"
  by (auto simp: ThreadPool_Initialize_def Let_def split: prod.splits if_splits
      dest!: core_sys thread_exit_core create_threads_core)

lemma main_exit_core: "main_exit api ok g = (ok', g') \<Longrightarrow> \<exists>x. core g' = core (set_main x g)"
  by (auto simp: main_exit_def Let_def core_def set_main_def on_pool_def emit_def sysw_def
      split: if_splits intro: exI [of _ "m_sMainSocket (g_SocketPool g)"])

lemma set_main_core: "core g = core h \<Longrightarrow> core (set_main x g) = core (set_main x h)" "set_main x (set_main y g) = set_main x g"
  "core g = core (set_main (m_sMainSocket (g_SocketPool g)) g)"
  by (simp_all add: core_def set_main_def on_pool_def)

lemma open_main_core: "open_main api net port back (sock, g) = (ok, g') \<Longrightarrow> \<exists>x. core g' = core (set_main x g)"
proof -
  assume o: "open_main api net port back (sock, g) = (ok, g')"
  obtain a g1 where b: "sys (\<lambda>w. bind_socket net w sock port) (set_main sock g) = (a, g1)" by fastforce
  obtain c g2 where l: "sys (\<lambda>w. listen_socket net w sock back) g1 = (c, g2)" by fastforce
  let ?ioc = "raw_IO_CONTEXT\<lparr>m_hAsyncIO := sock, m_ConType := LISTEN_SOCKET\<rparr>"
  obtain d g3 where a: "AssociateContext api ?ioc g2 = (d, g3)" by fastforce
  have c12: "core g1 = core (set_main sock g)" "core g2 = core (set_main sock g)"
    using core_sys [OF b] core_sys [OF l] by simp_all
  moreover have "core g3 = core g2" using a by (auto simp: AssociateContext_def split: if_splits dest: core_sys)
  ultimately have c3: "core g3 = core (set_main sock g)" by simp
  have m: "\<exists>x. core h' = core (set_main x g)" if "main_exit api k h = (k', h')" "core h = core (set_main y g)" for h h' k k' y
    using main_exit_core [OF that(1)] set_main_core(1) [OF that(2)] set_main_core(2) by metis
  have "core (LogEvent POP3SVR_FAILED_TO_CREATE_SOCKET g) = core (set_main (m_sMainSocket (g_SocketPool g)) g)"
    using set_main_core(3) [of g] by simp
  then show ?thesis
    using o b l a c12 c3 m by (auto simp: open_main_def Let_def split: if_splits)
qed

lemma first_socket_core: "first_socket api v l g = (h, g') \<Longrightarrow> core g' = core g"
  by (induction l arbitrary: g) (auto split: prod.splits if_splits dest!: core_sys)

lemma CreateMainSocket_core:
  assumes "CreateMainSocket api net v port back g = (ok, g')"
  shows "\<exists>x. core g' = core (set_main x g)"
proof -
  have same: "\<exists>x. core h = core (set_main x g)" if "core h = core g" for h :: "'a glob"
    using that set_main_core(3) [of g] by auto
  have main: "\<exists>x. core h' = core (set_main x g)" if "main_exit api k h = (k', h')" "core h = core g" for k k' and h h' :: "'a glob"
    using main_exit_core [OF that(1)] set_main_core(1) [OF that(2)] by metis
  have op: "\<exists>x. core h' = core (set_main x g)" if "open_main api net port back (sock, h) = (k', h')" "core h = core g"
    for k' sock and h h' :: "'a glob"
    using open_main_core [OF that(1)] set_main_core(1) [OF that(2)] by metis
  obtain v1 g1 where 1: "sys (GetVersionEx net) g = (v1, g1)" by fastforce
  obtain b2 g2 where 2: "sys (GetModuleHandle net) g1 = (b2, g2)" by fastforce
  obtain b3 g3 where 3: "sys (GetAddrInfoProcs net) g2 = (b3, g3)" by fastforce
  obtain l4 g4 where 4: "sys (\<lambda>w. getaddrinfo net w port) g3 = (l4, g4)" by fastforce
  obtain h5 g5 where 5: "sys (WSASocket api) g1 = (h5, g5)" by fastforce
  have c: "core g1 = core g" "core g2 = core g" "core g3 = core g" "core g4 = core g" "core g5 = core g"
    using core_sys [OF 1] core_sys [OF 2] core_sys [OF 3] core_sys [OF 4] core_sys [OF 5] by simp_all
  have f: "\<exists>x. core g' = core (set_main x g)" if "open_main api net port back (first_socket api v l g4) = (ok, g')" for l
    using that op c(4) first_socket_core [of api v l g4] by (cases "first_socket api v l g4") auto
  show ?thesis
    using assms 1 2 3 4 5 c same main op f
    by (cases v1; cases l4) (auto simp: CreateMainSocket_def split: if_splits)
qed

lemma core_lists:
  assumes "core g' = core (set_main x g)"
  shows "lists_ok fs bs g' = lists_ok fs bs g" "total_sockets g' = total_sockets g" "free_sockets g' = free_sockets g"
    "max_sockets g' = max_sockets g" "g_heap g' = g_heap g"
  using assms by (simp_all add: core_def set_main_def on_pool_def lists_ok_def)

text \<open>The socket pool after a successful \<^verbatim>\<open>Initialize\<close>.\<close>

lemma Initialize_opens_books:
  assumes "Initialize api net v dwMax dwMin dwThr port back g = Some (True, g')" "lists_ok [] [] g" "sockets_valid api"
    "0 \<le> max_sockets g'"
  shows "\<exists>fs. svc_inv L fs [] g' \<and> m_bPoolInit (g_SocketPool g') \<and> max_sockets g' = sint dwMax"
proof -
  obtain e g1 where s: "sys (WSAStartup net) g = (e, g1)" by fastforce
  let ?g = "on_pool (\<lambda>p. p\<lparr>m_lMaxSocketCount := sint dwMax, m_lMinSocketCount := sint dwMin, m_lThreshold := sint dwThr,
    m_lFreeSocketCount := 0, m_lTotalSocketCount := 0\<rparr>) g1"
  obtain ok g2 where m: "CreateMainSocket api net v port back ?g = (ok, g2)" by fastforce
  obtain x where "core g2 = core (set_main x ?g)" using CreateMainSocket_core [OF m] by blast
  note c = core_lists [OF this]
  have "lists_ok [] [] ?g" using assms(2) core_sys [OF s] by (simp add: core_def lists_ok_def on_pool_def)
  then have l: "lists_ok [] [] g2" "total_sockets g2 = 0" "free_sockets g2 = 0" "max_sockets g2 = sint dwMax"
    using c by (simp_all add: on_pool_def)
  have "sint dwMax < 2147483648" using sint_lt [of dwMax] by simp
  then obtain r g3 ns where a: "AddSocketsP api (as_DWORD (min_sockets g2)) g2 = Some (r, g3)" "added api [] [] g2 ns g3"
    using AddSocketsP_lists [OF l(1), of api "as_DWORD (min_sockets g2)"] l by auto
  have g': "g' = on_pool (m_bPoolInit_update (\<lambda>_. True)) g3"
    using assms(1) s m a(1) by (auto simp: Initialize_def Let_def split: if_splits)
  have mx: "max_sockets g' = max_sockets g3" "max_sockets g3 = sint dwMax"
    using g' a(2) l(4) by (simp_all add: added_def on_pool_def)
  have "svc_inv L ns [] g3"
    using a(2) l assms(3,4) mx \<open>sint dwMax < 2147483648\<close> by (auto simp: svc_inv_def added_def)
  then have "svc_inv L ns [] g'" using g' by (simp add: svc_inv_def on_pool_def lists_ok_def open_at_def [abs_def])
  then show ?thesis using g' mx by (auto simp: on_pool_def)
qed

lemma new_globals_lists: "lists_ok [] [] (new_globals st w)"
  by (simp add: lists_ok_def two_def holds_def ring_def new_globals_def new_CIOList_def init_links_def)

lemma lists_ok_core: "core g' = core g \<Longrightarrow> lists_ok fs bs g' = lists_ok fs bs g"
  by (simp add: core_def lists_ok_def)

lemma AbortService_exits: "AbortService os e s = Some r \<Longrightarrow> \<exists>code s'. r = Exited code s'"
  by (auto simp: AbortService_def split: bind_splits outcome.splits)

lemma PreInit_pools_opens_books:
  assumes "PreInit_pools os p s = Some (True, s')" "lists_ok [] [] (sg s)" "sockets_valid (os_win os)" "0 \<le> max_sockets (sg s')"
  shows "\<exists>fs. svc_inv L fs [] (sg s') \<and> m_bPoolInit (g_SocketPool (sg s'))"
proof -
  obtain hr g1 where 1: "GlobalInit (os_win os) (sg s) = Some (hr, g1)"
    using assms(1) by (auto simp: PreInit_pools_def split: bind_splits)
  obtain ok tp g2 where 2: "ThreadPool_Initialize (os_win os) (os_thr os) (dwThreadPerCPU p) (g_ThreadPool s, g1) = (ok, tp, g2)"
    by (metis surj_pair)
  have "lists_ok [] [] g2" using assms(2) GlobalInit_core [OF 1] ThreadPool_Initialize_core [OF 2] lists_ok_core by metis
  moreover have "Initialize (os_win os) (os_net os) (g_dwIPVersion s) (dwMaxSockets p) (dwMinSockets p)
      (dwThreshold p) (ucast (dwPort p)) (sint (dwBacklog p)) g2 = Some (True, sg s')"
    using assms(1) 1 2 by (auto simp: PreInit_pools_def fail_with_def Let_def split: bind_splits if_splits)
  ultimately show ?thesis using Initialize_opens_books assms(3,4) by blast
qed

text \<open>The parts of the object that the steps make: the events and the authentication method.\<close>

definition parts :: "'w svc \<Rightarrow> bool \<times> HANDLE list" where
  "parts s = (g_pAuthMethod s, [g_hShutDown s, g_hDoSEvent s] @ m_hServiceEvent s)"

lemma parts_simps [simp]: "parts (s\<lparr>sg := g\<rparr>) = parts s" "parts (on_sg f s) = parts s" "parts (tell h s) = parts s"
  "parts (server_status st s) = parts s" "parts (svc_log i s) = parts s" "parts (s\<lparr>g_dwIPVersion := v\<rparr>) = parts s"
  "parts (s\<lparr>g_ThreadPool := tp\<rparr>) = parts s"
  by (simp_all add: parts_def on_sg_def tell_def server_status_def svc_log_def)

lemma parts_ask: "ask f s = (r, s') \<Longrightarrow> parts s' = parts s"
  by (auto simp: ask_def split: prod.splits)

lemma PreInit_keeps_parts:
  "PreInit_logging os s = Some (ok, s') \<Longrightarrow> parts s' = parts s"
  "PreInit_config os s = Some (r, s') \<Longrightarrow> parts s' = parts s"
  "PreInit_names os root s = Some (ok, s') \<Longrightarrow> parts s' = parts s"
  "PreInit_put os root s = (ok, s') \<Longrightarrow> parts s' = parts s"
  "PreInit_pools os p s = Some (ok, s') \<Longrightarrow> parts s' = parts s"
  by (auto simp: PreInit_logging_def PreInit_config_def PreInit_registry_def PreInit_settings_def PreInit_names_def PreInit_put_def
      PreInit_pools_def fail_with_def Let_def split: prod.splits bind_splits if_splits option.splits dest!: parts_ask)

lemma go_on_True [simp]: "go_on m f = Some (True, s') \<longleftrightarrow> (\<exists>s. m = Some (True, s) \<and> f s = Some (True, s'))"
  by (auto simp: go_on_def split: bind_splits if_splits)

lemma create_events_makes:
  assumes "create_events os n s = (True, s')" "length (m_hServiceEvent s) = 4" "n \<le> 4"
    "\<forall>h \<in> set (take (4 - n) (m_hServiceEvent s)). h \<noteq> NULL_HANDLE"
  shows "NULL_HANDLE \<notin> set (m_hServiceEvent s') \<and> length (m_hServiceEvent s') = 4"
  using assms
proof (induction n arbitrary: s)
  case 0
  then show ?case by auto
next
  case (Suc n)
  obtain h s1 where a: "ask (CreateEvent os) s = (h, s1)" by fastforce
  let ?s = "s1\<lparr>m_hServiceEvent := (m_hServiceEvent s1)[3 - n := h]\<rparr>"
  have m: "m_hServiceEvent s1 = m_hServiceEvent s" using parts_ask [OF a] by (simp add: parts_def)
  have k: "4 - n = Suc (3 - n)" "4 - Suc n = 3 - n" using Suc.prems(3) by simp_all
  have e: "h \<noteq> NULL_HANDLE" "create_events os n ?s = (True, s')"
    using Suc.prems(1) a by (auto simp: Let_def split: if_splits)
  have "\<forall>x \<in> set (take (4 - n) (m_hServiceEvent ?s)). x \<noteq> NULL_HANDLE"
    using Suc.prems(2,4) e(1) m unfolding k by (simp add: take_Suc_conv_app_nth)
  then show ?case using Suc.IH [OF e(2)] Suc.prems(2,3) m by simp
qed

lemma PreInit_events_makes:
  assumes "PreInit_events os s = (True, s')" "NULL_HANDLE \<notin> set (m_hServiceEvent s) \<and> length (m_hServiceEvent s) = 4"
  shows "NULL_HANDLE \<notin> set (snd (parts s')) \<and> length (snd (parts s')) = 6"
  using assms by (auto simp: PreInit_events_def fail_with_def Let_def parts_def ask_def split: prod.splits if_splits)

lemma PreInit_auth_makes:
  assumes "PreInit_auth os s = Some (True, s')"
  shows "fst (parts s')" "snd (parts s') = snd (parts s)"
  using assms by (auto simp: PreInit_auth_def fail_with_def Let_def parts_def ask_def on_sg_def tell_def with_methods_def
      split: prod.splits bind_splits if_splits)


text \<open>A machine on which the service is configured, for at most five sockets.\<close>

definition demo_machine :: "sim os" where
  "demo_machine = demo_os\<lparr>os_auth := sim_com\<lparr>RegQueryValueSize := (\<lambda>w h name. ((0, 6), w))\<rparr>, os_win := svc_api\<lparr>
     RegOpenKeyEx := (\<lambda>w h sub sam. ((0, 1), w)), RegCloseKey := (\<lambda>w h. w),
     RegQueryValueEx := (\<lambda>w h name n.
       (if hd name = 68 then (0, [0, 0, 0, 0], 4)
        else if n = 4 then (0, [if hd name = 77 \<and> hd (tl name) = 97 then 5 else 2, 0, 0, 0], 4)
        else if hd name = 65 then (0, [97, 0, 0, 0, 0, 0], 6)
        else if hd name = 77 then (0, [67, 0, 58, 0, 0, 0], 6) else (ERROR_FILE_NOT_FOUND, [], n), w))\<rparr>\<rparr>"

lemma demo_start:
  "case PreInit demo_machine (new_CService SERVICE_STOPPED sim_start) of
     Some (Goes s') \<Rightarrow> max_sockets (sg s') = 5 \<and> total_sockets (sg s') = 2 | _ \<Rightarrow> False"
  by code_simp

lemma demo_machine_sockets: "sockets_valid (os_win demo_machine)"
  using svc_api_valid by (simp add: demo_machine_def sockets_valid_def)


section \<open>A failure\<close>

definition kept :: "'w glob \<Rightarrow> (CIOList \<times> CIOList \<times> links \<times> (nat \<Rightarrow> (IO_CONTEXT \<times> POP3_CONTEXT) option) \<times> nat \<times> CSocketPool) \<times>
    AuthStatics \<times> service_status" where
  "kept g = (core g, g_auth g, g_dwServerStatus g)"

lemma svc_inv_core: "core g' = core g \<Longrightarrow> svc_inv L fs bs g' = svc_inv L fs bs g"
  by (simp add: core_def svc_inv_def lists_ok_def open_at_def [abs_def])

lemma kept_simps [simp]: "kept (sysw f g) = kept g" "kept (close_handle api h g) = kept g" "kept (LogEvent i g) = kept g"
  "kept (g\<lparr>g_bThreadPoolInit := b\<rparr>) = kept g"
  by (simp_all add: kept_def sysw_def close_handle_def LogEvent_def emit_def core_def)

lemma kept_sys: "sys f g = (r, g') \<Longrightarrow> kept g' = kept g"
  by (auto simp: kept_def sys_def core_def split: prod.splits)

lemma force_threads_kept: "kept (snd (force_threads api th hs (b, g))) = kept g"
  by (induction hs arbitrary: b g) (auto split: prod.splits if_splits dest: kept_sys)

lemma end_threads_kept: "end_threads api th tp hs g = (b, g') \<Longrightarrow> kept g' = kept g"
proof -
  assume e: "end_threads api th tp hs g = (b, g')"
  have p: "kept (post_shutdown th port n g) = kept g" for port n by (induction n arbitrary: g) simp_all
  have c: "kept (close_threads api hs h) = kept h" for h
    unfolding close_threads_def by (induction hs arbitrary: h) simp_all
  have f: "force_threads api th hs (x, h) = (b, g') \<Longrightarrow> kept g' = kept h" for x h
    using force_threads_kept [of api th hs x h] by simp
  show ?thesis using e c p by (auto simp: end_threads_def Let_def split: prod.splits if_splits dest!: kept_sys f)
qed

lemma ThreadPool_Uninitialize_kept:
  "ThreadPool_Uninitialize api th (tp, g) = (code, tp', g') \<Longrightarrow> kept g' = kept g \<and> code \<in> {None, Some E_UNEXPECTED}"
  by (auto simp: ThreadPool_Uninitialize_def close_port_def Let_def split: prod.splits option.splits if_splits dest!: end_threads_kept)

lemma CService_DeInit_core: "core (sg (CService_DeInit os s)) = core (sg s)" "reported (CService_DeInit os s) = reported s"
proof -
  let ?f = "\<lambda>h s. if h \<noteq> NULL_HANDLE then svc_close os h s else s"
  have f: "core (sg (fold ?f hs s)) = core (sg s) \<and> reported (fold ?f hs s) = reported s" for hs and s :: "'a svc"
    by (induction hs arbitrary: s) (simp_all add: svc_close_def on_sg_def)
  have a: "core (sg (snd (ask k s))) = core (sg s) \<and> reported (snd (ask k s)) = reported s" for k :: "'a \<Rightarrow> 'b \<times> 'a" and s
    by (auto simp: ask_def sys_def split: prod.splits)
  show "core (sg (CService_DeInit os s)) = core (sg s)" "reported (CService_DeInit os s) = reported s"
    using f a by (auto simp: CService_DeInit_def Let_def svc_close_def on_sg_def)
qed

lemma OnStop_reports:
  "\<exists>s' r. OnStop e s = Some s' \<and> reported s' = reported s @ [r] \<and> dwCurrentState r = SERVICE_STOPPED \<and> dwWin32ExitCode r = 0 \<and>
     core (sg s') = core (sg s) \<and>
     g_out (sg s') = g_out (sg s) @ [Logged (if e = 0 then EVENT_POP3_SERVER_STOPPED else EVENT_POP3_SERVER_STOP_ERROR)]"
  by (simp add: OnStop_def SetStatus_def Let_def pending_def svc_log_def server_status_def on_sg_def LogEvent_def emit_def core_def)

lemma DeInit_reports:
  assumes "svc_inv L fs bs (sg s)" "g_dwServerStatus (sg s) = SERVICE_STOP_PENDING" "m_glInit (g_auth (sg s)) \<noteq> 2"
  shows "(\<exists>s'. DeInit os s = Some (Exited E_UNEXPECTED s') \<and> reported s' = reported s) \<or>
    (\<exists>s' r. DeInit os s = Some (Goes s') \<and> lists_ok [] [] (sg s') \<and> total_sockets (sg s') = 0)"
proof -
  obtain code tp g where u: "ThreadPool_Uninitialize (os_win os) (os_thr os) (g_ThreadPool s, sg s) = (code, tp, g)"
    by (metis surj_pair)
  note k = ThreadPool_Uninitialize_kept [OF u, unfolded kept_def, simplified]
  obtain g1 where g1: "DeInit_connections os g = Some g1" "g_auth g1 = g_auth g" "lists_ok [] [] g1" "total_sockets g1 = 0"
    using DeInit_connections_clears [of L fs bs g os] svc_inv_core [of g "sg s" L fs bs] assms k by auto
  obtain g2 where g2: "GlobalUninit g1 = Some g2" "core g2 = core g1"
    using g1(2) assms(3) k by (cases "m_glInit (g_auth g1) = 1") (auto simp: GlobalUninit_def Let_def)
  have p: "core (PerfShutdown g2) = core g1" using g2(2) by (simp add: PerfShutdown_def)
  let ?s = "s\<lparr>g_ThreadPool := tp, g_pAuthMethod := False, sg := PerfShutdown g2\<rparr>"
  let ?t = "tell (\<lambda>w. SetEvent os (CoUninitialize os w) (g_hShutDown ?s)) ?s"
  let ?u = "svc_close os (g_hDoSEvent ?t) (svc_close os (g_hShutDown ?t) (CService_DeInit os ?t))"
  obtain s' where s': "OnStop ERROR_SUCCESS ?u = Some s'" "core (sg s') = core (sg ?u)" using OnStop_reports by blast
  have "core (sg s') = core g1" using s'(2) p CService_DeInit_core [of os ?t] by (simp add: svc_close_def on_sg_def)
  then have "lists_ok [] [] (sg s')" "total_sockets (sg s') = 0" using g1(3,4) lists_ok_core [of "sg s'" g1] by (auto simp: core_def)
  then show ?thesis using u k g1(1) g2(1) s'(1) by (auto simp: DeInit_def)
qed

text \<open>
   Aborting the service ends the process in every state with its books in order: every connection is
  ended and the exit code is the error.  The service control manager is told that the service stopped
  without an error, whatever the error was; only the event log and the exit code of the process show it.
  When a thread had to be ended by force the process exits early, and the last state reported is that
  the service is about to stop.
\<close>

theorem AbortService_reports:
  assumes "books L s" "m_glInit (g_auth (sg s)) \<noteq> 2"
  shows "\<exists>code s'. AbortService os e s = Some (Exited code s') \<and>
    (code = E_UNEXPECTED \<and> dwCurrentState (last (reported s')) = SERVICE_STOP_PENDING \<or>
     code = e \<and> dwCurrentState (last (reported s')) = SERVICE_STOPPED \<and> dwWin32ExitCode (last (reported s')) = 0 \<and>
       last (g_out (sg s')) = Logged (if e = 0 then EVENT_POP3_SERVER_STOPPED else EVENT_POP3_SERVER_STOP_ERROR) \<and>
       lists_ok [] [] (sg s') \<and> total_sockets (sg s') = 0)"
proof -
  obtain fs bs where i: "svc_inv L fs bs (sg s)" using assms(1) by (auto simp: books_def)
  let ?p = "server_status SERVICE_STOP_PENDING s"
  obtain s1 r where s1: "OnStopRequest s = Some s1" "sg s1 = sg ?p" "reported s1 = reported s @ [r]" "dwCurrentState r = SERVICE_STOP_PENDING"
    by (simp add: OnStopRequest_def SetStatus_def Let_def pending_def dwStateNoChange_def server_status_def on_sg_def)
  have "svc_inv L fs bs (sg s1)" using i s1(2) by (simp add: server_status_def on_sg_def svc_inv_def lists_ok_def open_at_def [abs_def])
  from DeInit_reports [OF this, of os] s1(2) assms(2) consider
    s2 where "DeInit os s1 = Some (Exited E_UNEXPECTED s2)" "reported s2 = reported s1"
    | s2 where "DeInit os s1 = Some (Goes s2)" "lists_ok [] [] (sg s2)" "total_sockets (sg s2) = 0"
    by (auto simp: server_status_def on_sg_def)
  then show ?thesis
  proof cases
    case 1
    then show ?thesis using s1 by (auto simp: AbortService_def)
  next
    case 2
    obtain s3 q where s3: "OnStop e s2 = Some s3" "reported s3 = reported s2 @ [q]" "dwCurrentState q = SERVICE_STOPPED"
      "dwWin32ExitCode q = 0" "core (sg s3) = core (sg s2)"
      "g_out (sg s3) = g_out (sg s2) @ [Logged (if e = 0 then EVENT_POP3_SERVER_STOPPED else EVENT_POP3_SERVER_STOP_ERROR)]"
      using OnStop_reports by blast
    have "lists_ok [] [] (sg s3)" "total_sockets (sg s3) = 0" using 2(2,3) s3(5) lists_ok_core [of "sg s3" "sg s2"] by (auto simp: core_def)
    moreover have "AbortService os e s = Some (Exited e s3)" using s1(1) 2(1) s3(1) by (simp add: AbortService_def)
    ultimately show ?thesis using s3 by auto
  qed
qed

theorem AbortService_reports_witness:
  "\<exists>code s'. AbortService demo_os 5 demo_service = Some (Exited code s') \<and>
    (code = E_UNEXPECTED \<and> dwCurrentState (last (reported s')) = SERVICE_STOP_PENDING \<or>
     code = 5 \<and> dwWin32ExitCode (last (reported s')) = 0 \<and> total_sockets (sg s') = 0)"
  using AbortService_reports [OF demo_books, of demo_os 5] by (auto simp: demo_service_def demo_svc_def demo_glob_def)

end
