(* ===== verification/Auth_Local.thy ===== *)
theory Auth_Local
  imports Auth_Types Sim_Os
begin

text \<open>
  The authentication method of the accounts of a machine, \<^verbatim>\<open>CAuthLocalAccount\<close> of
  \<^verbatim>\<open>pop3/shared/pop3auth/authlocalaccount.cpp\<close>.  The accounts and groups are those of the system, which is a
  parameter.  The methods overwrite the \<^verbatim>\<open>@\<close> of the caller's string while they work; they return what the string
  is when they are done.
\<close>

section \<open>The calls of the system\<close>

record USER_INFO_1 =
  usri1_name :: wstring
  usri1_password :: "wstring option"
  usri1_priv :: DWORD
  usri1_home_dir :: "wstring option"
  usri1_comment :: "wstring option"
  usri1_flags :: DWORD
  usri1_script_path :: "wstring option"

record 'w accountapi =
  LogonUser :: "'w \<Rightarrow> wstring \<Rightarrow> wstring option \<Rightarrow> wstring option \<Rightarrow> HANDLE option \<times> 'w"
  LoadString :: "'w \<Rightarrow> nat \<Rightarrow> wstring option \<times> 'w"
  NetUserAdd :: "'w \<Rightarrow> wstring option \<Rightarrow> USER_INFO_1 \<Rightarrow> DWORD \<times> 'w"
  NetUserDel :: "'w \<Rightarrow> wstring option \<Rightarrow> wstring \<Rightarrow> DWORD \<times> 'w"
  NetUserGetInfo :: "'w \<Rightarrow> wstring option \<Rightarrow> wstring \<Rightarrow> (DWORD \<times> USER_INFO_1) \<times> 'w"
  NetUserSetInfo :: "'w \<Rightarrow> wstring option \<Rightarrow> wstring \<Rightarrow> USER_INFO_1 \<Rightarrow> DWORD \<times> 'w"
  NetLocalGroupGetInfo :: "'w \<Rightarrow> wstring option \<Rightarrow> wstring \<Rightarrow> DWORD \<times> 'w"
  NetLocalGroupAdd :: "'w \<Rightarrow> wstring option \<Rightarrow> wstring \<Rightarrow> wstring \<Rightarrow> DWORD \<times> 'w"
  NetLocalGroupDel :: "'w \<Rightarrow> wstring option \<Rightarrow> wstring \<Rightarrow> DWORD \<times> 'w"
  NetLocalGroupAddMembers :: "'w \<Rightarrow> wstring option \<Rightarrow> wstring \<Rightarrow> wstring \<Rightarrow> DWORD \<times> 'w"
  LookupAccountName :: "'w \<Rightarrow> wstring \<Rightarrow> BYTE list option \<times> 'w"
  LsaOpenPolicy :: "'w \<Rightarrow> (DWORD \<times> HANDLE) \<times> 'w"
  LsaAddAccountRights :: "'w \<Rightarrow> HANDLE \<Rightarrow> BYTE list \<Rightarrow> wstring \<Rightarrow> DWORD \<times> 'w"
  LsaClose :: "'w \<Rightarrow> HANDLE \<Rightarrow> 'w"

definition E_NOTIMPL :: HRESULT where "E_NOTIMPL = 0x80004001"
definition NERR_Success :: DWORD where "NERR_Success = 0"
definition NERR_GroupNotFound :: DWORD where "NERR_GroupNotFound = 2220"
definition WSAENAMETOOLONG :: DWORD where "WSAENAMETOOLONG = 10063"
definition USER_PRIV_USER :: DWORD where "USER_PRIV_USER = 1"
definition UF_NORMAL_ACCOUNT :: DWORD where "UF_NORMAL_ACCOUNT = 0x200"
definition SE_DENY_INTERACTIVE_LOGON_NAME :: wstring where
  "SE_DENY_INTERACTIVE_LOGON_NAME = wide ''SeDenyInteractiveLogonRight''"

definition LOCAL_DOMAIN :: wstring where "LOCAL_DOMAIN = wide ''.''"
definition WSZ_POP3_USERS_GROUP :: wstring where "WSZ_POP3_USERS_GROUP = wide ''POP3 Users''"
definition IDS_AUTH_LOCAL_ACCOUNT :: nat where "IDS_AUTH_LOCAL_ACCOUNT = 102"
definition IDS_AUTH_POP3_GROUP :: nat where "IDS_AUTH_POP3_GROUP = 205"

text \<open>The account that is added: a user with the name and the password given, all else empty.\<close>

definition new_user :: "wstring \<Rightarrow> wstring option \<Rightarrow> USER_INFO_1" where
  "new_user name password = \<lparr>usri1_name = name, usri1_password = password, usri1_priv = USER_PRIV_USER,
     usri1_home_dir = None, usri1_comment = None, usri1_flags = UF_NORMAL_ACCOUNT, usri1_script_path = None\<rparr>"

section \<open>The method\<close>

record CAuthLocalAccount =
  m_bstrServerName :: "wstring option"

definition new_CAuthLocalAccount :: CAuthLocalAccount where
  "new_CAuthLocalAccount = \<lparr>m_bstrServerName = None\<rparr>"

definition Local_Authenticate :: "'w win32 \<Rightarrow> 'w accountapi \<Rightarrow> wstring option \<Rightarrow> VARIANT \<Rightarrow> 'w
    \<Rightarrow> (HRESULT \<times> wstring option) \<times> 'w" where
  "Local_Authenticate api net bstrUserName vPassword w =
     (case vPassword of
        VT_BSTR p \<Rightarrow>
          (case bstrUserName of
             None \<Rightarrow> ((E_POINTER, None), w)
           | Some u \<Rightarrow>
               (case LogonUser net w (cut_at u) (Some LOCAL_DOMAIN) p of
                  (Some hToken, w) \<Rightarrow> ((S_OK, Some (cut_at u)), snd (CloseHandle api w hToken))
                | (None, w) \<Rightarrow> ((E_FAIL, Some (cut_at u)), w)))
      | _ \<Rightarrow> ((E_INVALIDARG, bstrUserName), w))"

text \<open>\<^verbatim>\<open>get_Name\<close> and \<^verbatim>\<open>get_ID\<close>; the three methods differ in the constant only.\<close>

definition resource_name :: "'w win32 \<Rightarrow> 'w accountapi \<Rightarrow> nat \<Rightarrow> 'w \<Rightarrow> (HRESULT \<times> wstring option) \<times> 'w" where
  "resource_name api net i w =
     (case LoadString net w i of
        (None, w) \<Rightarrow> ((E_FAIL, None), w)
      | (Some name, w) \<Rightarrow> (case alloc api w of (ok, w) \<Rightarrow> (if ok then (S_OK, Some name) else (E_OUTOFMEMORY, None), w)))"

definition Local_get_Name :: "'w win32 \<Rightarrow> 'w accountapi \<Rightarrow> 'w \<Rightarrow> (HRESULT \<times> wstring option) \<times> 'w" where
  "Local_get_Name api net = resource_name api net IDS_AUTH_LOCAL_ACCOUNT"

definition copy_of :: "'w win32 \<Rightarrow> wstring \<Rightarrow> 'w \<Rightarrow> (HRESULT \<times> wstring option) \<times> 'w" where
  "copy_of api txt w = (case alloc api w of (ok, w) \<Rightarrow> (if ok then (S_OK, Some txt) else (E_OUTOFMEMORY, None), w))"

definition Local_get_ID :: "'w win32 \<Rightarrow> 'w \<Rightarrow> (HRESULT \<times> wstring option) \<times> 'w" where
  "Local_get_ID api = copy_of api SZ_AUTH_ID_LOCAL_SAM"

definition Local_Get :: "wstring option \<Rightarrow> HRESULT" where
  "Local_Get bstrName = E_NOTIMPL"

definition Local_Put :: "'w win32 \<Rightarrow> wstring option \<Rightarrow> VARIANT \<Rightarrow> CAuthLocalAccount \<times> 'w \<Rightarrow> HRESULT \<times> CAuthLocalAccount \<times> 'w" where
  "Local_Put api bstrName vVal s = (case s of (a, w) \<Rightarrow>
     (case bstrName of
        None \<Rightarrow> (E_INVALIDARG, a, w)
      | Some n \<Rightarrow>
          if n = SZ_SERVER_NAME then
            (case vVal of
               VT_BSTR (Some v) \<Rightarrow> (case copy_of api v w of ((hr, b), w) \<Rightarrow> (hr, a\<lparr>m_bstrServerName := b\<rparr>, w))
             | _ \<Rightarrow> (E_INVALIDARG, a, w))
          else (S_FALSE, a, w)))"

text \<open>The right is set on this machine, whatever machine the group is on.\<close>

definition SetLogonPolicy :: "'w win32 \<Rightarrow> 'w accountapi \<Rightarrow> 'w \<Rightarrow> DWORD \<times> 'w" where
  "SetLogonPolicy api net w =
     (case LookupAccountName net w WSZ_POP3_USERS_GROUP of
        (None, w) \<Rightarrow> (GetLastError api w, w)
      | (Some sid, w) \<Rightarrow>
          (case LsaOpenPolicy net w of ((Status, PolicyHandle), w) \<Rightarrow>
             if Status \<noteq> ERROR_SUCCESS then (Status, w)
             else (case LsaAddAccountRights net w PolicyHandle sid SE_DENY_INTERACTIVE_LOGON_NAME of (Status, w) \<Rightarrow>
               (Status, LsaClose net w PolicyHandle))))"

definition CheckPop3UserGroup :: "'w win32 \<Rightarrow> 'w accountapi \<Rightarrow> CAuthLocalAccount \<Rightarrow> 'w \<Rightarrow> DWORD \<times> 'w" where
  "CheckPop3UserGroup api net a w =
     (case NetLocalGroupGetInfo net w (m_bstrServerName a) WSZ_POP3_USERS_GROUP of (dwRt, w) \<Rightarrow>
        if dwRt = NERR_Success then (0, w)
        else if dwRt \<noteq> NERR_GroupNotFound then (dwRt, w)
        else (case LoadString net w IDS_AUTH_POP3_GROUP of
            (None, w) \<Rightarrow> (GetLastError api w, w)
          | (Some txt, w) \<Rightarrow>
              (case NetLocalGroupAdd net w (m_bstrServerName a) WSZ_POP3_USERS_GROUP txt of (dwRt, w) \<Rightarrow>
                 if dwRt \<noteq> NERR_Success then (dwRt, w)
                 else (case SetLogonPolicy api net w of (dwRt, w) \<Rightarrow>
                   (dwRt, if dwRt \<noteq> 0 then snd (NetLocalGroupDel net w (m_bstrServerName a) WSZ_POP3_USERS_GROUP) else w)))))"

text \<open>
  The caller's string is whole again at the end.  When the group refuses the account the account is deleted,
  and the result stays \<^verbatim>\<open>S_OK\<close>.
\<close>

definition Local_CreateUser :: "'w win32 \<Rightarrow> 'w accountapi \<Rightarrow> wstring option \<Rightarrow> VARIANT \<Rightarrow> CAuthLocalAccount \<times> 'w
    \<Rightarrow> (HRESULT \<times> wstring option) \<times> 'w" where
  "Local_CreateUser api net bstrUserName vPassword s = (case s of (a, w) \<Rightarrow>
     (case (bstrUserName, vPassword) of
        (None, _) \<Rightarrow> ((E_POINTER, None), w)
      | (Some u, VT_BSTR p) \<Rightarrow>
          (case CheckPop3UserGroup api net a w of (dwRt, w) \<Rightarrow>
             if dwRt \<noteq> NERR_Success then ((HRESULT_FROM_WIN32 dwRt, Some u), w)
             else if length (cut_at u) > MAX_USER_NAME_LENGTH then ((HRESULT_FROM_WIN32 WSAENAMETOOLONG, Some u), w)
             else (case NetUserAdd net w (m_bstrServerName a) (new_user (cut_at u) p) of (dwRt, w) \<Rightarrow>
               if dwRt \<noteq> NERR_Success then ((HRESULT_FROM_WIN32 dwRt, Some u), w)
               else (case NetLocalGroupAddMembers net w (m_bstrServerName a) WSZ_POP3_USERS_GROUP (cut_at u) of (dwRt, w) \<Rightarrow>
                 ((S_OK, Some u), if dwRt \<noteq> NERR_Success then snd (NetUserDel net w (m_bstrServerName a) (cut_at u)) else w))))
      | _ \<Rightarrow> ((E_INVALIDARG, bstrUserName), w)))"

text \<open>The string stays cut when the account was deleted.\<close>

definition Local_DeleteUser :: "'w accountapi \<Rightarrow> wstring option \<Rightarrow> CAuthLocalAccount \<times> 'w \<Rightarrow> (HRESULT \<times> wstring option) \<times> 'w" where
  "Local_DeleteUser net bstrUserName s = (case s of (a, w) \<Rightarrow>
     (case bstrUserName of
        None \<Rightarrow> ((E_POINTER, None), w)
      | Some u \<Rightarrow>
          (case NetUserDel net w (m_bstrServerName a) (cut_at u) of (dwRt, w) \<Rightarrow>
             (if dwRt = NERR_Success then (S_OK, Some (cut_at u)) else (HRESULT_FROM_WIN32 dwRt, Some u), w))))"

definition set_password :: "'w accountapi \<Rightarrow> wstring option \<Rightarrow> wstring \<Rightarrow> wstring option \<Rightarrow> 'w \<Rightarrow> DWORD \<times> 'w" where
  "set_password net server name password w =
     (case NetUserGetInfo net w server name of ((dwRt, info), w) \<Rightarrow>
        if dwRt \<noteq> NERR_Success then (dwRt, w)
        else NetUserSetInfo net w server name (info\<lparr>usri1_password := password\<rparr>))"

definition Local_ChangePassword :: "'w accountapi \<Rightarrow> wstring option \<Rightarrow> VARIANT \<Rightarrow> CAuthLocalAccount \<times> 'w
    \<Rightarrow> (HRESULT \<times> wstring option) \<times> 'w" where
  "Local_ChangePassword net bstrUserName vNewPassword s = (case s of (a, w) \<Rightarrow>
     (case (bstrUserName, vNewPassword) of
        (None, _) \<Rightarrow> ((E_POINTER, None), w)
      | (Some u, VT_BSTR p) \<Rightarrow>
          (case set_password net (m_bstrServerName a) (cut_at u) p w of (dwRt, w) \<Rightarrow>
             ((if dwRt = NERR_Success then S_OK else HRESULT_FROM_WIN32 dwRt, Some u), w))
      | _ \<Rightarrow> ((E_INVALIDARG, bstrUserName), w)))"

definition Local_AssociateEmailWithUser :: "'w accountapi \<Rightarrow> wstring option \<Rightarrow> CAuthLocalAccount \<times> 'w
    \<Rightarrow> (HRESULT \<times> wstring option) \<times> 'w" where
  "Local_AssociateEmailWithUser net bstrEmailAddr s = (case s of (a, w) \<Rightarrow>
     (case bstrEmailAddr of
        None \<Rightarrow> ((E_POINTER, None), w)
      | Some u \<Rightarrow>
          (case NetUserGetInfo net w (m_bstrServerName a) (cut_at u) of ((dwRt, _), w) \<Rightarrow>
             ((if dwRt = NERR_Success then S_OK else HRESULT_FROM_WIN32 dwRt, Some u), w))))"

definition Local_UnassociateEmailWithUser :: "'w accountapi \<Rightarrow> wstring option \<Rightarrow> CAuthLocalAccount \<times> 'w
    \<Rightarrow> (HRESULT \<times> wstring option) \<times> 'w" where
  "Local_UnassociateEmailWithUser = Local_AssociateEmailWithUser"

section \<open>What the method does to the accounts\<close>

text \<open>
  The documented behaviour of the calls, on a view of the system: \<^verbatim>\<open>acc\<close> gives the accounts of each machine with
  their passwords, by the form of the name (\<^verbatim>\<open>canon\<close>) under which the system knows it, and \<^verbatim>\<open>mem\<close> the members of
  the group of the service.  A call that fails changes no account.  \<^verbatim>\<open>NULL\<close> is the empty password for a new account and
  for a logon, and leaves the password of an existing account as it is.
\<close>

type_synonym accounts = "wstring option \<Rightarrow> wstring \<Rightarrow> wstring option"

abbreviation password_text :: "wstring option \<Rightarrow> wstring" where
  "password_text p \<equiv> (case p of None \<Rightarrow> [] | Some t \<Rightarrow> t)"

definition with_account :: "wstring option \<Rightarrow> wstring \<Rightarrow> wstring option \<Rightarrow> accounts \<Rightarrow> accounts" where
  "with_account s n p acc = acc(s := (acc s)(n := p))"

definition net_laws :: "'w accountapi \<Rightarrow> (wstring \<Rightarrow> wstring) \<Rightarrow> ('w \<Rightarrow> accounts) \<Rightarrow> ('w \<Rightarrow> wstring option \<Rightarrow> wstring set) \<Rightarrow> bool" where
  "net_laws net canon acc mem \<longleftrightarrow>
     (\<forall>w s i e w'. NetUserAdd net w s i = (e, w') \<longrightarrow>
        (if e = NERR_Success then acc w s (canon (usri1_name i)) = None \<and>
           acc w' = with_account s (canon (usri1_name i)) (Some (password_text (usri1_password i))) (acc w) else acc w' = acc w)) \<and>
     (\<forall>w s n e w'. NetUserDel net w s n = (e, w') \<longrightarrow>
        acc w' = (if e = NERR_Success then with_account s (canon n) None (acc w) else acc w)) \<and>
     (\<forall>w s n i e w'. NetUserSetInfo net w s n i = (e, w') \<longrightarrow>
        acc w' = (if e = NERR_Success \<and> usri1_password i \<noteq> None then with_account s (canon n) (usri1_password i) (acc w) else acc w)) \<and>
     (\<forall>w s n e i w'. NetUserGetInfo net w s n = ((e, i), w') \<longrightarrow> acc w' = acc w \<and> (e = NERR_Success \<longrightarrow> acc w s (canon n) \<noteq> None)) \<and>
     (\<forall>w s g n e w'. NetLocalGroupAddMembers net w s g n = (e, w') \<longrightarrow>
        acc w' = acc w \<and> (e = NERR_Success \<longrightarrow> g = WSZ_POP3_USERS_GROUP \<longrightarrow> canon n \<in> mem w' s)) \<and>
     (\<forall>w s g. acc (snd (NetLocalGroupGetInfo net w s g)) = acc w \<and> acc (snd (NetLocalGroupDel net w s g)) = acc w) \<and>
     (\<forall>w s g c. acc (snd (NetLocalGroupAdd net w s g c)) = acc w) \<and>
     (\<forall>w n. acc (snd (LookupAccountName net w n)) = acc w) \<and> (\<forall>w i. acc (snd (LoadString net w i)) = acc w) \<and>
     (\<forall>w. acc (snd (LsaOpenPolicy net w)) = acc w) \<and> (\<forall>w h sid r. acc (snd (LsaAddAccountRights net w h sid r)) = acc w) \<and>
     (\<forall>w h. acc (LsaClose net w h) = acc w) \<and>
     (\<forall>w n p h w'. LogonUser net w n (Some LOCAL_DOMAIN) p = (h, w') \<longrightarrow> (h \<noteq> None \<longleftrightarrow> acc w None (canon n) = Some (password_text p)))"

lemma net_lawsD:
  assumes l: "net_laws net canon acc mem"
  shows "NetUserAdd net w s i = (e, w') \<Longrightarrow> if e = NERR_Success then acc w s (canon (usri1_name i)) = None \<and>
      acc w' = with_account s (canon (usri1_name i)) (Some (password_text (usri1_password i))) (acc w) else acc w' = acc w"
    "NetUserDel net w s n = (e, w') \<Longrightarrow> acc w' = (if e = NERR_Success then with_account s (canon n) None (acc w) else acc w)"
    "NetUserSetInfo net w s n i = (e, w') \<Longrightarrow>
      acc w' = (if e = NERR_Success \<and> usri1_password i \<noteq> None then with_account s (canon n) (usri1_password i) (acc w) else acc w)"
    "NetUserGetInfo net w s n = ((e, i), w') \<Longrightarrow> acc w' = acc w \<and> (e = NERR_Success \<longrightarrow> acc w s (canon n) \<noteq> None)"
    "NetLocalGroupAddMembers net w s g n = (e, w') \<Longrightarrow> acc w' = acc w \<and> (e = NERR_Success \<longrightarrow> g = WSZ_POP3_USERS_GROUP \<longrightarrow> canon n \<in> mem w' s)"
    "LogonUser net w n (Some LOCAL_DOMAIN) p = (h, w') \<Longrightarrow> h \<noteq> None \<longleftrightarrow> acc w None (canon n) = Some (password_text p)"
proof -
  note r = l [unfolded net_laws_def]
  note r1 = r [THEN conjunct2] and add = r [THEN conjunct1]
  note r2 = r1 [THEN conjunct2] and del = r1 [THEN conjunct1]
  note r3 = r2 [THEN conjunct2] and put = r2 [THEN conjunct1]
  note r4 = r3 [THEN conjunct2] and get = r3 [THEN conjunct1]
  note r5 = r4 [THEN conjunct2] and grp = r4 [THEN conjunct1]
  show "NetUserAdd net w s i = (e, w') \<Longrightarrow> if e = NERR_Success then acc w s (canon (usri1_name i)) = None \<and>
      acc w' = with_account s (canon (usri1_name i)) (Some (password_text (usri1_password i))) (acc w) else acc w' = acc w"
    by (rule add [rule_format])
  show "NetUserDel net w s n = (e, w') \<Longrightarrow> acc w' = (if e = NERR_Success then with_account s (canon n) None (acc w) else acc w)"
    by (rule del [rule_format])
  show "NetUserSetInfo net w s n i = (e, w') \<Longrightarrow>
      acc w' = (if e = NERR_Success \<and> usri1_password i \<noteq> None then with_account s (canon n) (usri1_password i) (acc w) else acc w)"
    by (rule put [rule_format])
  show "NetUserGetInfo net w s n = ((e, i), w') \<Longrightarrow> acc w' = acc w \<and> (e = NERR_Success \<longrightarrow> acc w s (canon n) \<noteq> None)"
    using get by blast
  show "NetLocalGroupAddMembers net w s g n = (e, w') \<Longrightarrow> acc w' = acc w \<and> (e = NERR_Success \<longrightarrow> g = WSZ_POP3_USERS_GROUP \<longrightarrow> canon n \<in> mem w' s)"
    using grp by blast
  show "LogonUser net w n (Some LOCAL_DOMAIN) p = (h, w') \<Longrightarrow> h \<noteq> None \<longleftrightarrow> acc w None (canon n) = Some (password_text p)"
    using r5 by blast
qed

lemma net_laws_other:
  assumes "net_laws net canon acc mem"
  shows "NetLocalGroupGetInfo net w s g = (e, w') \<Longrightarrow> acc w' = acc w" "NetLocalGroupDel net w s g = (e, w') \<Longrightarrow> acc w' = acc w"
    "NetLocalGroupAdd net w s g c = (e, w') \<Longrightarrow> acc w' = acc w" "LookupAccountName net w n = (x, w') \<Longrightarrow> acc w' = acc w"
    "LoadString net w i = (y, w') \<Longrightarrow> acc w' = acc w" "LsaOpenPolicy net w = (z, w') \<Longrightarrow> acc w' = acc w"
    "LsaAddAccountRights net w h sid r = (e, w') \<Longrightarrow> acc w' = acc w" "acc (LsaClose net w h) = acc w"
  using assms unfolding net_laws_def by (metis snd_conv)+

lemma CheckPop3UserGroup_accounts:
  assumes "net_laws net canon acc mem" "CheckPop3UserGroup api net a w = (e, w')"
  shows "acc w' = acc w"
proof -
  have del: "acc (snd (NetLocalGroupDel net x s g)) = acc x" for x s g using net_laws_other(2) [OF assms(1)] by (metis prod.collapse)
  show ?thesis using assms(2) del net_laws_other(8) [OF assms(1)]
    by (auto simp: CheckPop3UserGroup_def SetLogonPolicy_def split: prod.splits if_splits option.splits
        dest!: net_laws_other(1,3-7) [OF assms(1)])
qed

lemma with_account_undo: "acc s n = None \<Longrightarrow> with_account s n None (with_account s n p acc) = acc"
  by (rule ext) (auto simp: with_account_def)


text \<open>The case where nothing was done and the result is \<^verbatim>\<open>S_OK\<close> all the same: the group refuses the new account.\<close>

lemma Local_CreateUser_misreports:
  assumes laws: "net_laws net canon acc mem"
    and del: "\<forall>w s n. acc w s (canon n) \<noteq> None \<longrightarrow> fst (NetUserDel net w s n) = NERR_Success"
    and ok: "CheckPop3UserGroup api net a w = (NERR_Success, w1)" "length (cut_at u) \<le> MAX_USER_NAME_LENGTH"
      "NetUserAdd net w1 (m_bstrServerName a) (new_user (cut_at u) p) = (NERR_Success, w2)"
    and refused: "NetLocalGroupAddMembers net w2 (m_bstrServerName a) WSZ_POP3_USERS_GROUP (cut_at u) = (e, w3)" "e \<noteq> NERR_Success"
  shows "\<exists>w'. Local_CreateUser api net (Some u) (VT_BSTR p) (a, w) = ((S_OK, Some u), w') \<and> acc w' = acc w"
proof -
  let ?s = "m_bstrServerName a" and ?n = "cut_at u"
  note law = net_lawsD [OF laws]
  obtain e4 w4 where 4: "NetUserDel net w3 ?s ?n = (e4, w4)" by fastforce
  have v: "acc w1 = acc w" "acc w1 ?s (canon ?n) = None" "acc w3 = with_account ?s (canon ?n) (Some (password_text p)) (acc w1)"
    using CheckPop3UserGroup_accounts [OF laws ok(1)] law(1) [OF ok(3)] law(5) [OF refused(1)] by (simp_all add: new_user_def)
  then have "acc w3 ?s (canon ?n) \<noteq> None" by (simp add: with_account_def)
  then have "e4 = NERR_Success" using del 4 by (metis fst_conv)
  then have "acc w4 = acc w" using law(2) [OF 4] v by (simp add: with_account_undo)
  then show ?thesis using ok refused 4 by (simp add: Local_CreateUser_def)
qed

text \<open>
  A new password works at once and is the only one that works: when \<^verbatim>\<open>ChangePassword\<close> of the method of this machine
  succeeded with a password that is not \<^verbatim>\<open>NULL\<close>, \<^verbatim>\<open>Authenticate\<close> of the same user accepts a
  password if and only if it is the new one.
\<close>

theorem Local_ChangePassword_Authenticate:
  assumes laws: "net_laws net canon acc mem"
    and run: "Local_ChangePassword net (Some u) (VT_BSTR (Some p)) (a, w) = ((S_OK, u'), w')" "m_bstrServerName a = None"
  shows "fst (fst (Local_Authenticate api net u' (VT_BSTR q) w')) = S_OK \<longleftrightarrow> password_text q = p"
proof -
  note law = net_lawsD [OF laws]
  have u': "u' = Some u" using run by (auto simp: Local_ChangePassword_def split: prod.splits)
  obtain e1 i w1 where 1: "NetUserGetInfo net w None (cut_at u) = ((e1, i), w1)" by (metis prod.exhaust)
  obtain e2 w2 where 2: "NetUserSetInfo net w1 None (cut_at u) (i\<lparr>usri1_password := Some p\<rparr>) = (e2, w2)" by fastforce
  have "e1 = NERR_Success \<and> e2 = NERR_Success \<and> w' = w2"
    using run 1 2 by (auto simp: Local_ChangePassword_def set_password_def NERR_Success_def HRESULT_FROM_WIN32_fails split: if_splits)
  then have "acc w' None (canon (cut_at u)) = Some p" using law(3) [OF 2] by (simp add: with_account_def)
  moreover obtain h w3 where 3: "LogonUser net w' (cut_at u) (Some LOCAL_DOMAIN) q = (h, w3)" by fastforce
  ultimately show ?thesis
    using law(6) [OF 3] u' by (cases h) (auto simp: Local_Authenticate_def)
qed

section \<open>A machine with one account\<close>

text \<open>
  The calls on the small operating system of \<^verbatim>\<open>Sim_Os\<close>: one machine, whose group exists and refuses an account named
  \<^verbatim>\<open>bad\<close>.
\<close>

definition sim_net :: "sim accountapi" where
  "sim_net = \<lparr>
     LogonUser = (\<lambda>w n d p. (if map_of (sim_users w) n = Some (password_text p) then Some 9 else None, w)),
     LoadString = (\<lambda>w i. (Some (wide ''text''), w)),
     NetUserAdd = (\<lambda>w s i. if s \<noteq> None \<or> map_of (sim_users w) (usri1_name i) \<noteq> None then (2224, w)
        else (0, w\<lparr>sim_users := (usri1_name i, password_text (usri1_password i)) # sim_users w\<rparr>)),
     NetUserDel = (\<lambda>w s n. if s \<noteq> None \<or> map_of (sim_users w) n = None then (2221, w)
        else (0, w\<lparr>sim_users := filter (\<lambda>e. fst e \<noteq> n) (sim_users w)\<rparr>)),
     NetUserGetInfo = (\<lambda>w s n. ((if s \<noteq> None \<or> map_of (sim_users w) n = None then 2221 else 0, new_user n None), w)),
     NetUserSetInfo = (\<lambda>w s n i. if s \<noteq> None \<or> map_of (sim_users w) n = None then (2221, w)
        else (0, case usri1_password i of None \<Rightarrow> w | Some p \<Rightarrow> w\<lparr>sim_users := (n, p) # sim_users w\<rparr>)),
     NetLocalGroupGetInfo = (\<lambda>w s g. (0, w)),
     NetLocalGroupAdd = (\<lambda>w s g c. (0, w)),
     NetLocalGroupDel = (\<lambda>w s g. (0, w)),
     NetLocalGroupAddMembers = (\<lambda>w s g n. (if n = wide ''bad'' then 5 else 0, w)),
     LookupAccountName = (\<lambda>w n. (Some [], w)),
     LsaOpenPolicy = (\<lambda>w. ((0, 9), w)),
     LsaAddAccountRights = (\<lambda>w h sid r. (0, w)),
     LsaClose = (\<lambda>w h. w)\<rparr>"

definition sim_accounts :: "sim \<Rightarrow> accounts" where
  "sim_accounts w s = (if s = None then map_of (sim_users w) else Map.empty)"

lemma map_of_filter_out: "map_of (filter (\<lambda>e. fst e \<noteq> n) xs) = (map_of xs)(n := None)"
  by (rule ext, induction xs) auto

lemma sim_net_laws: "net_laws sim_net id sim_accounts (\<lambda>w s. {n. n \<noteq> wide ''bad''})"
  unfolding net_laws_def
  by (intro conjI allI impI)
    (auto simp: sim_net_def sim_accounts_def with_account_def NERR_Success_def map_of_filter_out fun_eq_iff
      split: if_splits option.splits)

lemma sim_net_del: "\<forall>w s n. sim_accounts w s (id n) \<noteq> None \<longrightarrow> fst (NetUserDel sim_net w s n) = NERR_Success"
  by (auto simp: sim_net_def sim_accounts_def NERR_Success_def split: if_splits)

abbreviation jo :: wstring where "jo \<equiv> wide ''jo''"

lemma cut_at_wide: "cut_at (wide ''jo@a'') = jo" "cut_at (wide ''bad@a'') = wide ''bad''"
  by (simp_all add: cut_at_def wide_def)


theorem Local_ChangePassword_Authenticate_witness:
  "\<exists>u' w'. Local_ChangePassword sim_net (Some jo) (VT_BSTR (Some (wide ''new'')))
       (new_CAuthLocalAccount, sim_start\<lparr>sim_users := [(jo, wide ''old'')]\<rparr>) = ((S_OK, u'), w') \<and>
     (\<forall>q. fst (fst (Local_Authenticate sim_api sim_net u' (VT_BSTR q) w')) = S_OK \<longleftrightarrow> password_text q = wide ''new'')"
proof -
  have c: "cut_at jo = jo" by (simp add: cut_at_def wide_def)
  obtain u' w' where r: "Local_ChangePassword sim_net (Some jo) (VT_BSTR (Some (wide ''new'')))
       (new_CAuthLocalAccount, sim_start\<lparr>sim_users := [(jo, wide ''old'')]\<rparr>) = ((S_OK, u'), w')"
    by (simp add: Local_ChangePassword_def set_password_def c sim_net_def new_CAuthLocalAccount_def NERR_Success_def)
  moreover have "m_bstrServerName new_CAuthLocalAccount = None" by (simp add: new_CAuthLocalAccount_def)
  ultimately show ?thesis using Local_ChangePassword_Authenticate [OF sim_net_laws] by blast
qed

end
