(* ===== verification/Auth_Domain.thy ===== *)
theory Auth_Domain
  imports Auth_Local Mail_Path
begin

text \<open>
  The authentication method of the accounts of a domain, \<^verbatim>\<open>CAuthDomainAccount\<close> of
  \<^verbatim>\<open>pop3/shared/pop3auth/authdomainaccount.cpp\<close>.  The directory is a parameter.  The object keeps what it knows of the
  domain controller and a binding to the directory.  \<^verbatim>\<open>None\<close> stands for a call that follows a \<^verbatim>\<open>NULL\<close> pointer, reads an
  element that is not there or writes past the end of an array.
\<close>

section \<open>The directory\<close>

record DOMAIN_CONTROLLER_INFO =
  DomainControllerName :: wstring
  DomainName :: wstring

text \<open>
  \<^verbatim>\<open>DsCrackNames\<close> gives a code and, unless the pointer it sets is \<^verbatim>\<open>NULL\<close>, the items with their status and name.
\<close>

record 'w dsapi =
  DsGetDcName :: "'w \<Rightarrow> wstring option \<Rightarrow> (DWORD \<times> DOMAIN_CONTROLLER_INFO) \<times> 'w"
  DsBind :: "'w \<Rightarrow> wstring \<Rightarrow> (DWORD \<times> HANDLE) \<times> 'w"
  DsUnBind :: "'w \<Rightarrow> HANDLE \<Rightarrow> 'w"
  DsCrackNames :: "'w \<Rightarrow> HANDLE \<Rightarrow> nat \<Rightarrow> wstring \<Rightarrow> (DWORD \<times> (DWORD \<times> wstring) list option) \<times> 'w"
  Pathname_Create :: "'w \<Rightarrow> HRESULT \<times> 'w"
  Pathname_Set :: "'w \<Rightarrow> wstring \<Rightarrow> HRESULT \<times> 'w"
  Pathname_put_EscapedMode :: "'w \<Rightarrow> HRESULT \<times> 'w"
  Pathname_Retrieve :: "'w \<Rightarrow> (HRESULT \<times> wstring) \<times> 'w"
  Pathname_Release :: "'w \<Rightarrow> 'w"
  ADsGetObject :: "'w \<Rightarrow> wstring \<Rightarrow> (HRESULT \<times> HANDLE) \<times> 'w"
  IADs_Put :: "'w \<Rightarrow> HANDLE \<Rightarrow> wstring \<Rightarrow> wstring \<Rightarrow> HRESULT \<times> 'w"
  IADs_Clear :: "'w \<Rightarrow> HANDLE \<Rightarrow> wstring \<Rightarrow> HRESULT \<times> 'w"
  IADs_SetInfo :: "'w \<Rightarrow> HANDLE \<Rightarrow> HRESULT \<times> 'w"
  IADs_Get :: "'w \<Rightarrow> HANDLE \<Rightarrow> wstring \<Rightarrow> (HRESULT \<times> VARIANT) \<times> 'w"
  IADs_Release :: "'w \<Rightarrow> HANDLE \<Rightarrow> 'w"
  NetGetJoinInformation :: "'w \<Rightarrow> wstring option \<Rightarrow> (DWORD \<times> wstring \<times> bool) \<times> 'w"

definition DS_NT4_ACCOUNT_NAME :: nat where "DS_NT4_ACCOUNT_NAME = 2"
definition DS_USER_PRINCIPAL_NAME :: nat where "DS_USER_PRINCIPAL_NAME = 8"
definition DS_NAME_NO_ERROR :: DWORD where "DS_NAME_NO_ERROR = 0"
definition NO_ERROR :: DWORD where "NO_ERROR = 0"
definition ERROR_NO_SUCH_USER :: DWORD where "ERROR_NO_SUCH_USER = 1317"
definition ERROR_USER_EXISTS :: DWORD where "ERROR_USER_EXISTS = 1316"
definition NERR_UserNotFound :: DWORD where "NERR_UserNotFound = 2221"
definition IDS_AUTH_DOMAIN_ACCOUNT :: nat where "IDS_AUTH_DOMAIN_ACCOUNT = 101"
definition SZ_LDAP_UPN_NAME :: wstring where "SZ_LDAP_UPN_NAME = wide ''userPrincipalName''"
definition SZ_LDAP_EMAIL :: wstring where "SZ_LDAP_EMAIL = wide ''mail''"
definition SZ_LDAP_SAM_NAME :: wstring where "SZ_LDAP_SAM_NAME = wide ''sAMAccountName''"
abbreviation FAILED :: "HRESULT \<Rightarrow> bool" where "FAILED hr \<equiv> \<not> SUCCEEDED hr"

section \<open>The connection\<close>

record CAuthDomainAccount =
  m_bstrServerName :: "wstring option"
  m_hDS :: HANDLE
  m_pDCInfo :: "DOMAIN_CONTROLLER_INFO option"

definition new_CAuthDomainAccount :: CAuthDomainAccount where
  "new_CAuthDomainAccount = \<lparr>m_bstrServerName = None, m_hDS = NULL_HANDLE, m_pDCInfo = None\<rparr>"

definition CleanDS :: "'w dsapi \<Rightarrow> CAuthDomainAccount \<times> 'w \<Rightarrow> CAuthDomainAccount \<times> 'w" where
  "CleanDS ds s = (case s of (a, w) \<Rightarrow>
     (a\<lparr>m_hDS := NULL_HANDLE, m_pDCInfo := None\<rparr>, if m_hDS a \<noteq> NULL_HANDLE then DsUnBind ds w (m_hDS a) else w))"

text \<open>The domain controller, asked for unless it is known; the first part of \<^verbatim>\<open>ConnectDS\<close> and of four methods.\<close>

definition get_dc :: "'w dsapi \<Rightarrow> CAuthDomainAccount \<times> 'w \<Rightarrow> DWORD \<times> CAuthDomainAccount \<times> 'w" where
  "get_dc ds s = (case s of (a, w) \<Rightarrow>
     (case m_pDCInfo a of
        Some _ \<Rightarrow> (NO_ERROR, a, w)
      | None \<Rightarrow> (case DsGetDcName ds w (m_bstrServerName a) of ((dwRt, info), w) \<Rightarrow>
          (dwRt, if dwRt = NO_ERROR then a\<lparr>m_pDCInfo := Some info\<rparr> else a, w))))"

text \<open>After the call succeeded the domain controller is known.\<close>

definition ConnectDS :: "'w dsapi \<Rightarrow> CAuthDomainAccount \<times> 'w \<Rightarrow> HRESULT \<times> CAuthDomainAccount \<times> 'w" where
  "ConnectDS ds s =
     (case get_dc ds s of (dwRt, a, w) \<Rightarrow>
        if dwRt \<noteq> NO_ERROR then (HRESULT_FROM_WIN32 dwRt, CleanDS ds (a, w))
        else (case m_pDCInfo a of
            None \<Rightarrow> (S_OK, a, w)
          | Some info \<Rightarrow>
              (case DsBind ds w (DomainControllerName info) of ((dwRt, h), w) \<Rightarrow>
                 if dwRt \<noteq> NO_ERROR then (HRESULT_FROM_WIN32 dwRt, CleanDS ds (a\<lparr>m_hDS := h\<rparr>, w))
                 else (S_OK, a\<lparr>m_hDS := h\<rparr>, w))))"

definition CheckDS :: "'w dsapi \<Rightarrow> bool \<Rightarrow> CAuthDomainAccount \<times> 'w \<Rightarrow> HRESULT \<times> CAuthDomainAccount \<times> 'w" where
  "CheckDS ds bForceReconnect s =
     (let s = (if bForceReconnect then CleanDS ds s else s) in
      if m_hDS (fst s) = NULL_HANDLE then ConnectDS ds s else (S_OK, s))"

text \<open>\<^verbatim>\<open>ADGetUserObject\<close>: the name in the directory, by one or two attempts,\<close>

definition crack_name :: "'w dsapi \<Rightarrow> wstring \<Rightarrow> nat \<Rightarrow> CAuthDomainAccount \<times> 'w
    \<Rightarrow> (HRESULT + (DWORD \<times> wstring) list option) \<times> CAuthDomainAccount \<times> 'w" where
  "crack_name ds wszUserName formatUserName s =
     (case CheckDS ds False s of (hr, a, w) \<Rightarrow>
        if FAILED hr then (Inl hr, a, w)
        else (case DsCrackNames ds w (m_hDS a) formatUserName wszUserName of ((code, pDSNR), w) \<Rightarrow>
          if code = DS_NAME_NO_ERROR then (Inr pDSNR, a, w)
          else (case CheckDS ds True (a, w) of (hr, a, w) \<Rightarrow>
            if FAILED hr then (Inl (HRESULT_FROM_WIN32 ERROR_NO_SUCH_USER), a, w)
            else (case DsCrackNames ds w (m_hDS a) formatUserName wszUserName of ((code, pDSNR), w) \<Rightarrow>
              (if code = DS_NAME_NO_ERROR then Inr pDSNR else Inl (HRESULT_FROM_WIN32 ERROR_NO_SUCH_USER), a, w)))))"

text \<open>and the object with that name.\<close>

definition user_object :: "'w dsapi \<Rightarrow> wstring \<Rightarrow> 'w \<Rightarrow> (HRESULT \<times> HANDLE) \<times> 'w" where
  "user_object ds pName w =
     (case Pathname_Create ds w of (hr, w) \<Rightarrow>
        if FAILED hr then ((hr, NULL_HANDLE), w)
        else
          (let (r, w) =
             (case Pathname_Set ds w pName of (hr, w) \<Rightarrow>
                if FAILED hr then ((hr, NULL_HANDLE), w)
                else (case Pathname_put_EscapedMode ds w of (hr, w) \<Rightarrow>
                  if FAILED hr then ((hr, NULL_HANDLE), w)
                  else (case Pathname_Retrieve ds w of ((hr, bstrDN), w) \<Rightarrow>
                    if FAILED hr then ((hr, NULL_HANDLE), w) else ADsGetObject ds w bstrDN)))
           in (r, Pathname_Release ds w)))"

definition ADGetUserObject :: "'w dsapi \<Rightarrow> wstring \<Rightarrow> nat \<Rightarrow> CAuthDomainAccount \<times> 'w
    \<Rightarrow> ((HRESULT \<times> HANDLE) \<times> CAuthDomainAccount \<times> 'w) option" where
  "ADGetUserObject ds wszUserName formatUserName s =
     (case crack_name ds wszUserName formatUserName s of
        (Inl hr, a, w) \<Rightarrow> Some ((hr, NULL_HANDLE), a, w)
      | (Inr None, a, w) \<Rightarrow> Some ((HRESULT_FROM_WIN32 ERROR_NO_SUCH_USER, NULL_HANDLE), a, w)
      | (Inr (Some []), a, w) \<Rightarrow> None
      | (Inr (Some ((status, pName) # items)), a, w) \<Rightarrow>
          if status \<noteq> DS_NAME_NO_ERROR
          then Some ((HRESULT_FROM_WIN32 (if status = ERROR_FILE_NOT_FOUND then ERROR_NO_SUCH_USER else status), NULL_HANDLE), a, w)
          else if items \<noteq> [] then Some ((E_FAIL, NULL_HANDLE), a, w)
          else (case user_object ds pName w of (r, w) \<Rightarrow> Some (r, a, w)))"

section \<open>The properties of an account\<close>

definition write_props :: "'w dsapi \<Rightarrow> HANDLE \<Rightarrow> wstring \<Rightarrow> wstring list \<Rightarrow> 'w \<Rightarrow> HRESULT \<times> 'w" where
  "write_props ds h v names w =
     (case fold (\<lambda>n (hr, w). if SUCCEEDED hr then IADs_Put ds w h n v else (hr, w)) names (S_OK, w) of (hr, w) \<Rightarrow>
        if SUCCEEDED hr then IADs_SetInfo ds w h else (hr, w))"

text \<open>\<^verbatim>\<open>user@domain\<close>, with the name of the AD domain, in an array of \<^verbatim>\<open>POP3_MAX_ADDRESS_LENGTH\<close>.\<close>

definition principal_name :: "wstring \<Rightarrow> DOMAIN_CONTROLLER_INFO \<Rightarrow> wstring option" where
  "principal_name addr info =
     (if length (DomainName info) + length (cut_at addr) + 1 \<ge> POP3_MAX_ADDRESS_LENGTH - 1 then None
      else Some (cut_at addr @ wide [CHR 0x40] @ DomainName info))"

definition no_user_part :: "wstring \<Rightarrow> bool" where
  "no_user_part addr \<longleftrightarrow> cut_at addr = addr \<or> length (cut_at addr) \<ge> POP3_MAX_ADDRESS_LENGTH - 1"

definition ADSetUserProp :: "'w win32 \<Rightarrow> 'w dsapi \<Rightarrow> wstring option \<Rightarrow> wstring \<Rightarrow> CAuthDomainAccount \<times> 'w
    \<Rightarrow> (HRESULT \<times> CAuthDomainAccount \<times> 'w) option" where
  "ADSetUserProp api ds wszValue wszLdapPropName s = (case s of (a, w) \<Rightarrow>
     (case wszValue of
        None \<Rightarrow> Some (E_INVALIDARG, a, w)
      | Some v \<Rightarrow>
          (case alloc api w of (ok, w) \<Rightarrow>
             if \<not> ok then Some (E_OUTOFMEMORY, a, w)
             else if no_user_part v then Some (E_INVALIDARG, a, w)
             else (case CheckDS ds False (a, w) of (hr, a, w) \<Rightarrow>
               (case (if SUCCEEDED hr then m_pDCInfo a else None) of
                  Some info \<Rightarrow>
                    (case principal_name v info of
                       None \<Rightarrow> Some (E_FAIL, a, w)
                     | Some upn \<Rightarrow> do {
                         ((hr, pUserObj), a, w) \<leftarrow> ADGetUserObject ds upn DS_USER_PRINCIPAL_NAME (a, w);
                         (case (if SUCCEEDED hr then write_props ds pUserObj v [wszLdapPropName] w else (hr, w)) of (hr, w) \<Rightarrow>
                            Some (hr, a, if pUserObj \<noteq> NULL_HANDLE then IADs_Release ds w pUserObj else w)) })
                | None \<Rightarrow> Some (hr, a, w))))))"

definition ADGetUserProp :: "'w dsapi \<Rightarrow> wstring \<Rightarrow> wstring \<Rightarrow> CAuthDomainAccount \<times> 'w
    \<Rightarrow> ((HRESULT \<times> VARIANT) \<times> CAuthDomainAccount \<times> 'w) option" where
  "ADGetUserProp ds wszUserName wszPropName s = do {
     ((hr, pUserObj), a, w) \<leftarrow> ADGetUserObject ds wszUserName
        (if cut_at wszUserName = wszUserName then DS_NT4_ACCOUNT_NAME else DS_USER_PRINCIPAL_NAME) s;
     Some (if FAILED hr then ((hr, VT_EMPTY), a, w)
           else (case IADs_Get ds w pUserObj wszPropName of (r, w) \<Rightarrow> (r, a, IADs_Release ds w pUserObj))) }"

section \<open>The method\<close>

definition Domain_Authenticate :: "'w win32 \<Rightarrow> 'w accountapi \<Rightarrow> wstring option \<Rightarrow> VARIANT \<Rightarrow> 'w \<Rightarrow> HRESULT \<times> 'w" where
  "Domain_Authenticate api net bstrUserName vPassword w =
     (case (vPassword, bstrUserName) of
        (VT_BSTR p, Some u) \<Rightarrow>
          (case LogonUser net w u None p of
             (Some hToken, w) \<Rightarrow> (S_OK, snd (CloseHandle api w hToken))
           | (None, w) \<Rightarrow> (E_FAIL, w))
      | (VT_BSTR p, None) \<Rightarrow> (E_POINTER, w)
      | _ \<Rightarrow> (E_INVALIDARG, w))"

definition Domain_get_Name :: "'w win32 \<Rightarrow> 'w accountapi \<Rightarrow> 'w \<Rightarrow> (HRESULT \<times> wstring option) \<times> 'w" where
  "Domain_get_Name api net = resource_name api net IDS_AUTH_DOMAIN_ACCOUNT"

definition Domain_get_ID :: "'w win32 \<Rightarrow> 'w \<Rightarrow> (HRESULT \<times> wstring option) \<times> 'w" where
  "Domain_get_ID api = copy_of api SZ_AUTH_ID_DOMAIN_AD"

text \<open>The copy of a \<^verbatim>\<open>NULL\<close> string is \<^verbatim>\<open>NULL\<close>.\<close>

definition Domain_Get :: "'w win32 \<Rightarrow> 'w dsapi \<Rightarrow> wstring option \<Rightarrow> VARIANT \<Rightarrow> CAuthDomainAccount \<times> 'w
    \<Rightarrow> ((HRESULT \<times> VARIANT) \<times> CAuthDomainAccount \<times> 'w) option" where
  "Domain_Get api ds bstrName pVal s = (case s of (a, w) \<Rightarrow>
     (case bstrName of
        None \<Rightarrow> Some ((E_INVALIDARG, pVal), a, w)
      | Some n \<Rightarrow>
          if n = SZ_EMAILADDR \<or> n = SZ_SAMACCOUNT_NAME then
            (case pVal of
               VT_BSTR None \<Rightarrow> Some ((E_OUTOFMEMORY, pVal), a, w)
             | VT_BSTR (Some u) \<Rightarrow>
                 (case alloc api w of (ok, w) \<Rightarrow>
                    if \<not> ok then Some ((E_OUTOFMEMORY, pVal), a, w)
                    else ADGetUserProp ds u (if n = SZ_EMAILADDR then SZ_LDAP_EMAIL else SZ_LDAP_SAM_NAME) (a, w))
             | _ \<Rightarrow> Some ((E_INVALIDARG, pVal), a, w))
          else Some ((S_FALSE, pVal), a, w)))"

text \<open>This machine and the server must be members of one domain; the name stays in the object if they are not.\<close>

definition same_domain :: "'w dsapi \<Rightarrow> wstring option \<Rightarrow> 'w \<Rightarrow> bool \<times> 'w" where
  "same_domain ds server w =
     (case NetGetJoinInformation ds w server of ((e, remote, joined), w) \<Rightarrow>
        if e = NERR_Success \<and> joined then
          (case NetGetJoinInformation ds w None of ((e, here, joined), w) \<Rightarrow> (e = NERR_Success \<and> joined \<and> here = remote, w))
        else (False, w))"

definition Domain_Put :: "'w win32 \<Rightarrow> 'w dsapi \<Rightarrow> wstring option \<Rightarrow> VARIANT \<Rightarrow> CAuthDomainAccount \<times> 'w
    \<Rightarrow> (HRESULT \<times> CAuthDomainAccount \<times> 'w) option" where
  "Domain_Put api ds bstrName vVal s = (case s of (a, w) \<Rightarrow>
     (case bstrName of
        None \<Rightarrow> Some (E_INVALIDARG, a, w)
      | Some n \<Rightarrow>
          if n = SZ_SERVER_NAME then
            (case vVal of
               VT_BSTR (Some v) \<Rightarrow>
                 (case copy_of api v w of ((hr, b), w) \<Rightarrow>
                    let a = a\<lparr>m_bstrServerName := b\<rparr> in
                    if b = None then Some (E_OUTOFMEMORY, a, w)
                    else (case same_domain ds b w of (same, w) \<Rightarrow> Some (if same then S_OK else E_ACCESSDENIED, a, w)))
             | _ \<Rightarrow> Some (E_INVALIDARG, a, w))
          else if n = SZ_EMAILADDR \<or> n = SZ_USERPRICIPALNAME then
            (case vVal of
               VT_BSTR v \<Rightarrow> ADSetUserProp api ds v (if n = SZ_EMAILADDR then SZ_LDAP_EMAIL else SZ_LDAP_UPN_NAME) (a, w)
             | _ \<Rightarrow> Some (E_INVALIDARG, a, w))
          else Some (S_FALSE, a, w)))"

section \<open>Names of new accounts\<close>

definition digits :: wstring where
  "digits = wide ''0123456789''"

definition digits3 :: "wstring list" where
  "digits3 = [[a, b, c]. a \<leftarrow> digits, b \<leftarrow> digits, c \<leftarrow> digits]"

text \<open>The three loops over the digits: the first name for which the system knows no account.\<close>

fun try_names :: "'w accountapi \<Rightarrow> wstring \<Rightarrow> wstring list \<Rightarrow> 'w \<Rightarrow> wstring option \<times> 'w" where
  "try_names net dc [] w = (None, w)"
| "try_names net dc (n # ns) w =
     (case NetUserGetInfo net w (Some dc) n of ((dwRt, _), w) \<Rightarrow>
        if dwRt = NERR_UserNotFound then (Some n, w) else try_names net dc ns w)"

text \<open>The part of the name that is kept before the digits: at most 17 characters, without dots at its end.\<close>

definition sam_prefix :: "wstring \<Rightarrow> wstring" where
  "sam_prefix name = rev (dropWhile (\<lambda>c. c = of_char (CHR 0x2E)) (rev (take (MAX_USER_NAME_LENGTH - 3) name)))"

definition FindSAMName :: "'w accountapi \<Rightarrow> wstring \<Rightarrow> CAuthDomainAccount \<times> 'w \<Rightarrow> (wstring option \<times> 'w) option" where
  "FindSAMName net wszEmailAddr s = (case s of (a, w) \<Rightarrow> do {
     info \<leftarrow> m_pDCInfo a;
     let dc = DomainControllerName info;
     let name = cut_at (take MAX_USER_NAME_LENGTH wszEmailAddr);
     (case NetUserGetInfo net w (Some dc) name of ((dwRt, _), w) \<Rightarrow>
        if dwRt = NERR_UserNotFound then Some (Some name, w)
        else if sam_prefix name = [] then Some (None, w)
        else Some (try_names net dc (map (\<lambda>d. sam_prefix name @ d) digits3) w)) })"

section \<open>Accounts\<close>

text \<open>The array for \<^verbatim>\<open>user@domain\<close> has \<^verbatim>\<open>MAX_USER_NAME_LENGTH + MAX_PATH + 1\<close> elements.\<close>

definition sam_address :: "wstring \<Rightarrow> DOMAIN_CONTROLLER_INFO \<Rightarrow> wstring option" where
  "sam_address name info =
     (let txt = name @ wide [CHR 0x40] @ DomainName info in
      if length txt < MAX_USER_NAME_LENGTH + MAX_PATH + 1 then Some txt else None)"

definition add_user :: "'w accountapi \<Rightarrow> 'w dsapi \<Rightarrow> wstring \<Rightarrow> wstring \<Rightarrow> wstring option \<Rightarrow> CAuthDomainAccount \<times> 'w
    \<Rightarrow> (HRESULT \<times> CAuthDomainAccount \<times> 'w) option" where
  "add_user net ds bstrUserName name password s = (case s of (a, w) \<Rightarrow> do {
     info \<leftarrow> m_pDCInfo a;
     (case NetUserAdd net w (Some (DomainControllerName info)) (new_user name password) of (dwRt, w) \<Rightarrow>
        if dwRt \<noteq> NERR_Success then Some (HRESULT_FROM_WIN32 dwRt, a, w)
        else do {
          upn \<leftarrow> sam_address name info;
          ((hr, pUserObj), a, w) \<leftarrow> ADGetUserObject ds upn DS_USER_PRINCIPAL_NAME (a, w);
          (case (if SUCCEEDED hr
                 then (case write_props ds pUserObj bstrUserName [SZ_LDAP_EMAIL, SZ_LDAP_UPN_NAME] w of (hr, w) \<Rightarrow>
                   (hr, IADs_Release ds w pUserObj))
                 else (hr, w)) of (hr, w) \<Rightarrow>
             if FAILED hr then do {
               info \<leftarrow> m_pDCInfo a;
               Some (hr, a, snd (NetUserDel net w (Some (DomainControllerName info)) name)) }
             else Some (hr, a, w)) }) })"

definition Domain_CreateUser :: "'w accountapi \<Rightarrow> 'w dsapi \<Rightarrow> wstring option \<Rightarrow> VARIANT \<Rightarrow> CAuthDomainAccount \<times> 'w
    \<Rightarrow> (HRESULT \<times> CAuthDomainAccount \<times> 'w) option" where
  "Domain_CreateUser net ds bstrUserName vPassword s =
     (case (bstrUserName, vPassword) of
        (None, _) \<Rightarrow> Some (E_POINTER, s)
      | (Some u, VT_BSTR p) \<Rightarrow>
          (let known = m_pDCInfo (fst s) \<noteq> None in
           case get_dc ds s of (dwRt, a, w) \<Rightarrow>
             if dwRt \<noteq> NO_ERROR then Some (HRESULT_FROM_WIN32 dwRt, a, w)
             else if \<not> known \<and> (case m_pDCInfo a of None \<Rightarrow> False | Some info \<Rightarrow> length (DomainName info) \<ge> MAX_PATH) then Some (E_FAIL, a, w)
             else do {
               ((hr, pUserObj), a, w) \<leftarrow> ADGetUserObject ds u DS_USER_PRINCIPAL_NAME (a, w);
               if SUCCEEDED hr then Some (HRESULT_FROM_WIN32 ERROR_USER_EXISTS, a, IADs_Release ds w pUserObj)
               else do {
                 (sam, w) \<leftarrow> FindSAMName net u (a, w);
                 (case sam of
                    None \<Rightarrow> Some (S_OK, a, w)
                  | Some name \<Rightarrow> add_user net ds u name p (a, w)) } })
      | _ \<Rightarrow> Some (E_INVALIDARG, s))"

text \<open>The name of an account in the SAM is a string; no other variant is expected.\<close>

definition with_sam_name :: "'w dsapi \<Rightarrow> wstring \<Rightarrow> (DOMAIN_CONTROLLER_INFO \<Rightarrow> wstring \<Rightarrow> 'w \<Rightarrow> DWORD \<times> 'w) \<Rightarrow> CAuthDomainAccount \<times> 'w
    \<Rightarrow> (HRESULT \<times> CAuthDomainAccount \<times> 'w) option" where
  "with_sam_name ds u act s =
     (case get_dc ds s of (dwRt, a, w) \<Rightarrow>
        if dwRt \<noteq> NO_ERROR then Some (HRESULT_FROM_WIN32 dwRt, a, w)
        else do {
          ((hr, var), a, w) \<leftarrow> ADGetUserProp ds u SZ_LDAP_SAM_NAME (a, w);
          if FAILED hr then Some (hr, a, w)
          else do {
            info \<leftarrow> m_pDCInfo a;
            (case var of
               VT_BSTR (Some name) \<Rightarrow> (case act info name w of (dwRt, w) \<Rightarrow> Some (HRESULT_FROM_WIN32 dwRt, a, w))
             | _ \<Rightarrow> None) } })"

definition Domain_DeleteUser :: "'w accountapi \<Rightarrow> 'w dsapi \<Rightarrow> wstring option \<Rightarrow> CAuthDomainAccount \<times> 'w
    \<Rightarrow> (HRESULT \<times> CAuthDomainAccount \<times> 'w) option" where
  "Domain_DeleteUser net ds bstrUserName s =
     (case bstrUserName of
        None \<Rightarrow> Some (E_POINTER, s)
      | Some u \<Rightarrow> with_sam_name ds u (\<lambda>info name w. NetUserDel net w (Some (DomainControllerName info)) name) s)"

definition Domain_ChangePassword :: "'w accountapi \<Rightarrow> 'w dsapi \<Rightarrow> wstring option \<Rightarrow> VARIANT \<Rightarrow> CAuthDomainAccount \<times> 'w
    \<Rightarrow> (HRESULT \<times> CAuthDomainAccount \<times> 'w) option" where
  "Domain_ChangePassword net ds bstrUserName vNewPassword s =
     (case (bstrUserName, vNewPassword) of
        (None, _) \<Rightarrow> Some (E_POINTER, s)
      | (Some u, VT_BSTR p) \<Rightarrow> with_sam_name ds u (\<lambda>info name w. set_password net (Some (DomainControllerName info)) name p w) s
      | _ \<Rightarrow> Some (E_INVALIDARG, s))"

definition Domain_AssociateEmailWithUser :: "'w dsapi \<Rightarrow> wstring option \<Rightarrow> CAuthDomainAccount \<times> 'w
    \<Rightarrow> (HRESULT \<times> CAuthDomainAccount \<times> 'w) option" where
  "Domain_AssociateEmailWithUser ds bstrEmailAddr s =
     (case bstrEmailAddr of
        None \<Rightarrow> Some (E_POINTER, s)
      | Some u \<Rightarrow> do {
          ((hr, pUserObj), a, w) \<leftarrow> ADGetUserObject ds u DS_USER_PRINCIPAL_NAME s;
          if SUCCEEDED hr then
            (case write_props ds pUserObj u [SZ_LDAP_EMAIL] w of (hr, w) \<Rightarrow> Some (hr, a, IADs_Release ds w pUserObj))
          else
            (case get_dc ds (a, w) of (dwRt, a, w) \<Rightarrow>
               if dwRt \<noteq> NO_ERROR then Some (HRESULT_FROM_WIN32 dwRt, a, w)
               else if no_user_part u then Some (E_FAIL, a, w)
               else do {
                 info \<leftarrow> m_pDCInfo a;
                 (case principal_name u info of
                    None \<Rightarrow> Some (E_FAIL, a, w)
                  | Some upn \<Rightarrow> do {
                      ((hr, pUserObj), a, w) \<leftarrow> ADGetUserObject ds upn DS_USER_PRINCIPAL_NAME (a, w);
                      if FAILED hr then Some (hr, a, w)
                      else (case write_props ds pUserObj u [SZ_LDAP_EMAIL, SZ_LDAP_UPN_NAME] w of (hr, w) \<Rightarrow>
                        Some (hr, a, IADs_Release ds w pUserObj)) }) }) })"

definition Domain_UnassociateEmailWithUser :: "'w dsapi \<Rightarrow> wstring option \<Rightarrow> CAuthDomainAccount \<times> 'w
    \<Rightarrow> (HRESULT \<times> CAuthDomainAccount \<times> 'w) option" where
  "Domain_UnassociateEmailWithUser ds bstrEmailAddr s =
     (case bstrEmailAddr of
        None \<Rightarrow> Some (E_POINTER, s)
      | Some u \<Rightarrow> do {
          ((hr, pUserObj), a, w) \<leftarrow> ADGetUserObject ds u DS_USER_PRINCIPAL_NAME s;
          if FAILED hr then Some (hr, a, w)
          else
            (let (hr, w) = IADs_Clear ds w pUserObj SZ_LDAP_EMAIL;
                 (hr, w) = (if SUCCEEDED hr then IADs_Clear ds w pUserObj SZ_LDAP_UPN_NAME else (hr, w));
                 (hr, w) = (if SUCCEEDED hr then IADs_SetInfo ds w pUserObj else (hr, w))
             in Some (hr, a, IADs_Release ds w pUserObj)) })"

section \<open>The object is always usable\<close>

text \<open>While the object is bound to a directory it knows the domain controller.\<close>

definition ds_inv :: "CAuthDomainAccount \<Rightarrow> bool" where
  "ds_inv a \<longleftrightarrow> (m_hDS a \<noteq> NULL_HANDLE \<longrightarrow> m_pDCInfo a \<noteq> None)"

lemma get_dc_spec:
  assumes "get_dc ds (a, w) = (e, a', w')"
  shows "m_hDS a' = m_hDS a" "e = NO_ERROR \<Longrightarrow> m_pDCInfo a' \<noteq> None" "ds_inv a \<Longrightarrow> ds_inv a'"
  using assms by (auto simp: get_dc_def ds_inv_def split: option.splits prod.splits if_splits)

lemma CleanDS_inv: "CleanDS ds s = (a', w') \<Longrightarrow> ds_inv a'"
  by (auto simp: CleanDS_def ds_inv_def split: prod.splits)

lemma ConnectDS_inv:
  assumes "ConnectDS ds (a, w) = (hr, a', w')" "ds_inv a"
  shows "ds_inv a' \<and> (SUCCEEDED hr \<longrightarrow> m_pDCInfo a' \<noteq> None)"
  using assms get_dc_spec CleanDS_inv
  by (fastforce simp: ConnectDS_def ds_inv_def NO_ERROR_def split: prod.splits if_splits option.splits)

lemma CheckDS_inv:
  assumes "CheckDS ds b (a, w) = (hr, a', w')" "ds_inv a"
  shows "ds_inv a' \<and> (SUCCEEDED hr \<longrightarrow> m_pDCInfo a' \<noteq> None)"
proof -
  obtain a1 w1 where s: "(if b then CleanDS ds (a, w) else (a, w)) = (a1, w1)" by fastforce
  then have "ds_inv a1" using assms(2) CleanDS_inv by (auto split: if_splits)
  then show ?thesis using assms(1) s ConnectDS_inv [of ds a1 w1 hr a' w']
    by (auto simp: CheckDS_def Let_def ds_inv_def split: if_splits)
qed

lemma crack_name_inv:
  assumes "crack_name ds n f (a, w) = (r, a', w')" "ds_inv a"
  shows "ds_inv a' \<and> (\<forall>x. r = Inr x \<longrightarrow> m_pDCInfo a' \<noteq> None) \<and> (\<forall>hr. r = Inl hr \<longrightarrow> FAILED hr)"
  using assms
  by (auto simp: crack_name_def ERROR_NO_SUCH_USER_def split: prod.splits if_splits dest!: CheckDS_inv)

lemma ADGetUserObject_inv:
  assumes "ADGetUserObject ds n f (a, w) = Some ((hr, h), a', w')" "ds_inv a"
  shows "ds_inv a'" "SUCCEEDED hr \<Longrightarrow> m_pDCInfo a' \<noteq> None"
proof -
  obtain r a1 w1 where 1: "crack_name ds n f (a, w) = (r, a1, w1)" by (metis prod.exhaust)
  have "a' = a1 \<and> (SUCCEEDED hr \<longrightarrow> (\<exists>x. r = Inr x))"
    using assms(1) 1 crack_name_inv [OF 1 assms(2)]
    by (auto simp: ADGetUserObject_def split: sum.splits option.splits list.splits prod.splits if_splits)
  then show "ds_inv a'" "SUCCEEDED hr \<Longrightarrow> m_pDCInfo a' \<noteq> None" using crack_name_inv [OF 1 assms(2)] by auto
qed

lemma ADGetUserProp_inv:
  assumes "ADGetUserProp ds n p (a, w) = Some ((hr, v), a', w')" "ds_inv a"
  shows "ds_inv a'" "SUCCEEDED hr \<Longrightarrow> m_pDCInfo a' \<noteq> None"
  using assms by (auto simp: ADGetUserProp_def split: bind_splits prod.splits if_splits dest: ADGetUserObject_inv)

text \<open>The calls a client makes on the object, and the states they lead to; between two calls the world may change.\<close>

datatype domain_call =
    GetProp "wstring option" VARIANT | PutProp "wstring option" VARIANT
  | DeleteUser "wstring option" | ChangePassword "wstring option" VARIANT
  | AssociateEmail "wstring option" | UnassociateEmail "wstring option" | CreateUser "wstring option" VARIANT

definition run_call :: "'w win32 \<Rightarrow> 'w accountapi \<Rightarrow> 'w dsapi \<Rightarrow> domain_call \<Rightarrow> CAuthDomainAccount \<times> 'w
    \<Rightarrow> (HRESULT \<times> CAuthDomainAccount \<times> 'w) option" where
  "run_call api net ds c s = (case c of
     GetProp n v \<Rightarrow> do { ((hr, _), s) \<leftarrow> Domain_Get api ds n v s; Some (hr, s) }
   | PutProp n v \<Rightarrow> Domain_Put api ds n v s
   | DeleteUser u \<Rightarrow> Domain_DeleteUser net ds u s
   | ChangePassword u p \<Rightarrow> Domain_ChangePassword net ds u p s
   | AssociateEmail u \<Rightarrow> Domain_AssociateEmailWithUser ds u s
   | UnassociateEmail u \<Rightarrow> Domain_UnassociateEmailWithUser ds u s
   | CreateUser u p \<Rightarrow> Domain_CreateUser net ds u p s)"

inductive domain_object :: "'w win32 \<Rightarrow> 'w accountapi \<Rightarrow> 'w dsapi \<Rightarrow> CAuthDomainAccount \<times> 'w \<Rightarrow> bool"
  for api net ds where
  new: "domain_object api net ds (new_CAuthDomainAccount, w)"
| world: "domain_object api net ds (a, w) \<Longrightarrow> domain_object api net ds (a, w')"
| call: "domain_object api net ds s \<Longrightarrow> run_call api net ds c s = Some (hr, s') \<Longrightarrow> domain_object api net ds s'"

lemma add_user_inv: "add_user net ds u n p (a, w) = Some (hr, a', w') \<Longrightarrow> ds_inv a \<Longrightarrow> ds_inv a'"
  by (auto simp: add_user_def split: bind_splits prod.splits if_splits dest: ADGetUserObject_inv)

lemma with_sam_name_inv:
  assumes "with_sam_name ds u act (a, w) = Some (hr, a', w')" "ds_inv a"
  shows "ds_inv a'"
proof -
  obtain e a1 w1 where 1: "get_dc ds (a, w) = (e, a1, w1)" by (metis prod.exhaust)
  have "ds_inv a1" by (rule get_dc_spec(3) [OF 1 assms(2)])
  then show ?thesis using assms(1) 1
    by (auto simp: with_sam_name_def split: bind_splits prod.splits if_splits VARIANT.splits option.splits dest: ADGetUserProp_inv)
qed

lemma Domain_CreateUser_inv:
  assumes "Domain_CreateUser net ds u p (a, w) = Some (hr, a', w')" "ds_inv a"
  shows "ds_inv a'"
proof -
  obtain e a1 w1 where 1: "get_dc ds (a, w) = (e, a1, w1)" by (metis prod.exhaust)
  have "ds_inv a1" by (rule get_dc_spec(3) [OF 1 assms(2)])
  then show ?thesis using assms 1
    by (auto simp: Domain_CreateUser_def Let_def split: bind_splits prod.splits if_splits VARIANT.splits option.splits
        dest: ADGetUserObject_inv add_user_inv)
qed

lemma Domain_Associate_inv:
  assumes "Domain_AssociateEmailWithUser ds u (a, w) = Some (hr, a', w')" "ds_inv a"
  shows "ds_inv a'"
proof (cases u)
  case None
  then show ?thesis using assms by (simp add: Domain_AssociateEmailWithUser_def)
next
  case (Some v)
  then obtain r a1 w1 where 1: "ADGetUserObject ds v DS_USER_PRINCIPAL_NAME (a, w) = Some (r, a1, w1)"
    using assms(1) by (auto simp: Domain_AssociateEmailWithUser_def split: bind_splits)
  then have i1: "ds_inv a1" using ADGetUserObject_inv(1) assms(2) by (metis prod.collapse)
  obtain e a2 w2 where 2: "get_dc ds (a1, w1) = (e, a2, w2)" by (metis prod.exhaust)
  have i2: "ds_inv a2" by (rule get_dc_spec(3) [OF 2 i1])
  show ?thesis using assms(1) Some 1 2 i1 i2
    by (auto simp: Domain_AssociateEmailWithUser_def split: bind_splits prod.splits if_splits option.splits dest: ADGetUserObject_inv)
qed

lemma Domain_Put_inv:
  assumes "Domain_Put api ds n v (a, w) = Some (hr, a', w')" "ds_inv a"
  shows "ds_inv a'"
proof -
  have "ds_inv a'" if set: "ADSetUserProp api ds x pn (a, w) = Some (hr, a', w')" for x pn
  proof -
    obtain hr1 a1 w1 where 1: "CheckDS ds False (a, snd (alloc api w)) = (hr1, a1, w1)" by (metis prod.exhaust)
    have "ds_inv a1" using CheckDS_inv [OF 1 assms(2)] by simp
    then show ?thesis using set 1 assms(2)
      by (auto simp: ADSetUserProp_def split: bind_splits prod.splits if_splits option.splits dest: ADGetUserObject_inv)
  qed
  moreover have "ds_inv (a\<lparr>m_bstrServerName := b\<rparr>)" for b using assms(2) by (simp add: ds_inv_def)
  ultimately show ?thesis using assms
    by (auto simp: Domain_Put_def Let_def split: prod.splits if_splits option.splits VARIANT.splits)
qed

lemma run_call_inv: "run_call api net ds c (a, w) = Some (hr, a', w') \<Longrightarrow> ds_inv a \<Longrightarrow> ds_inv a'"
  by (cases c)
    (auto simp: run_call_def Domain_Get_def Domain_DeleteUser_def Domain_ChangePassword_def Domain_UnassociateEmailWithUser_def Let_def
      split: bind_splits prod.splits if_splits option.splits VARIANT.splits
      dest: ADGetUserObject_inv ADGetUserProp_inv with_sam_name_inv Domain_CreateUser_inv Domain_Associate_inv Domain_Put_inv)

lemma domain_object_inv: "domain_object api net ds s \<Longrightarrow> ds_inv (fst s)"
proof (induction rule: domain_object.induct)
  case (call s c hr s')
  then show ?case using run_call_inv by (metis prod.collapse)
qed (simp_all add: new_CAuthDomainAccount_def ds_inv_def)

text \<open>
  What the calls rely on: \<^verbatim>\<open>DsCrackNames\<close> gives an item for the name it was given, and the SAM name of an account
  is a string.
\<close>

definition ds_laws :: "'w dsapi \<Rightarrow> bool" where
  "ds_laws ds \<longleftrightarrow>
     (\<forall>w h f n items w'. DsCrackNames ds w h f n = ((DS_NAME_NO_ERROR, Some items), w') \<longrightarrow> items \<noteq> []) \<and>
     (\<forall>w h hr v w'. IADs_Get ds w h SZ_LDAP_SAM_NAME = ((hr, v), w') \<longrightarrow> SUCCEEDED hr \<longrightarrow> (\<exists>n. v = VT_BSTR (Some n)))"

lemma ADGetUserObject_returns: "ds_laws ds \<Longrightarrow> (ADGetUserObject ds n f s = None) = False"
proof -
  assume "ds_laws ds"
  then have "crack_name ds n f s = (Inr (Some items), a, w) \<Longrightarrow> items \<noteq> []" for items a w
    unfolding ds_laws_def crack_name_def by (fastforce split: prod.splits if_splits)
  then show ?thesis unfolding ADGetUserObject_def
    by (auto split: prod.splits sum.splits option.splits list.splits)
qed

lemma ADGetUserProp_returns: "ds_laws ds \<Longrightarrow> (ADGetUserProp ds n p s = None) = False"
  by (auto simp: ADGetUserProp_def ADGetUserObject_returns bind_eq_None_conv simp del: not_None_eq split: prod.splits)

lemma ADSetUserProp_returns: "ds_laws ds \<Longrightarrow> (ADSetUserProp api ds v n s = None) = False"
  by (auto simp: ADSetUserProp_def ADGetUserObject_returns bind_eq_None_conv simp del: not_None_eq split: prod.splits option.splits)

lemma ADGetUserProp_sam:
  assumes laws: "ds_laws ds" and run: "ADGetUserProp ds n SZ_LDAP_SAM_NAME s = Some ((hr, v), s')" "SUCCEEDED hr"
  shows "\<exists>name. v = VT_BSTR (Some name)"
proof -
  obtain w h w' where "IADs_Get ds w h SZ_LDAP_SAM_NAME = ((hr, v), w')"
    using run by (auto simp: ADGetUserProp_def split: bind_splits prod.splits if_splits)
  then show ?thesis using laws run(2) unfolding ds_laws_def by blast
qed

lemma with_sam_name_returns:
  assumes "ds_laws ds" "ds_inv a"
  shows "with_sam_name ds u act (a, w) \<noteq> None"
proof -
  obtain e a1 w1 where 1: "get_dc ds (a, w) = (e, a1, w1)" by (metis prod.exhaust)
  note i = get_dc_spec(3) [OF 1 assms(2)]
  obtain hr v a2 w2 where 2: "ADGetUserProp ds u SZ_LDAP_SAM_NAME (a1, w1) = Some ((hr, v), a2, w2)"
    using ADGetUserProp_returns [OF assms(1)] by (metis option.exhaust prod.exhaust)
  show ?thesis
    using 1 2 ADGetUserProp_inv(2) [OF 2 i] ADGetUserProp_sam [OF assms(1) 2]
    by (cases "e = NO_ERROR"; cases "SUCCEEDED hr") (auto simp: with_sam_name_def split: prod.splits)
qed

lemma Domain_Associate_returns:
  assumes "ds_laws ds"
  shows "Domain_AssociateEmailWithUser ds u (a, w) \<noteq> None"
proof (cases u)
  case (Some v)
  obtain hr h a1 w1 where 1: "ADGetUserObject ds v DS_USER_PRINCIPAL_NAME (a, w) = Some ((hr, h), a1, w1)"
    using ADGetUserObject_returns [OF assms] by (metis option.exhaust prod.exhaust)
  obtain e a2 w2 where 2: "get_dc ds (a1, w1) = (e, a2, w2)" by (metis prod.exhaust)
  show ?thesis using Some 1 2 get_dc_spec(2) [OF 2]
    by (cases "SUCCEEDED hr"; cases "e = NO_ERROR")
      (auto simp: Domain_AssociateEmailWithUser_def ADGetUserObject_returns [OF assms] bind_eq_None_conv simp del: not_None_eq split: prod.splits option.splits)
qed (simp add: Domain_AssociateEmailWithUser_def)

lemma run_call_returns:
  assumes laws: "ds_laws ds" and i: "ds_inv a" and c: "\<And>u p. c \<noteq> CreateUser u p"
  shows "run_call api net ds c (a, w) \<noteq> None"
  using c
proof (cases c)
  case (GetProp n v)
  then show ?thesis
    by (auto simp: run_call_def Domain_Get_def ADGetUserProp_returns [OF laws] bind_eq_None_conv simp del: not_None_eq
        split: option.splits VARIANT.splits prod.splits)
next
  case (PutProp n v)
  then show ?thesis
    by (auto simp: run_call_def Domain_Put_def Let_def ADSetUserProp_returns [OF laws] simp del: not_None_eq split: option.splits VARIANT.splits prod.splits)
next
  case (UnassociateEmail u)
  then show ?thesis
    by (auto simp: run_call_def Domain_UnassociateEmailWithUser_def Let_def ADGetUserObject_returns [OF laws] bind_eq_None_conv simp del: not_None_eq
        split: option.splits prod.splits)
qed (use with_sam_name_returns [OF laws i] Domain_Associate_returns [OF laws] in
  \<open>auto simp: run_call_def Domain_DeleteUser_def Domain_ChangePassword_def simp del: not_None_eq split: option.splits VARIANT.splits\<close>)

text \<open>
  C27.  However a client uses the object, every call except \<^verbatim>\<open>CreateUser\<close> returns: between any sequence of calls that
  returned, whatever happened to the connection, no call reads through the pointer to the domain controller while it is
  \<^verbatim>\<open>NULL\<close>.  While the object is bound to a directory that pointer is set.
\<close>

theorem Domain_calls_return:
  assumes laws: "ds_laws ds" and s: "domain_object api net ds s" and c: "\<And>u p. c \<noteq> CreateUser u p"
  shows "run_call api net ds c s \<noteq> None \<and> (m_hDS (fst s) \<noteq> NULL_HANDLE \<longrightarrow> m_pDCInfo (fst s) \<noteq> None)"
  using run_call_returns [OF laws domain_object_inv [OF s] c, of api net "snd s"] domain_object_inv [OF s] by (simp add: ds_inv_def)

section \<open>The name of a new account\<close>

text \<open>The names that are tried, in their order.\<close>

definition sam_candidates :: "wstring \<Rightarrow> wstring list" where
  "sam_candidates addr =
     (let name = cut_at (take MAX_USER_NAME_LENGTH addr) in
      name # (if sam_prefix name = [] then [] else map (\<lambda>d. sam_prefix name @ d) digits3))"

text \<open>The domain controller answers, and says of an account whether it exists.\<close>

definition lookup_laws :: "'w accountapi \<Rightarrow> (wstring \<Rightarrow> wstring) \<Rightarrow> ('w \<Rightarrow> accounts) \<Rightarrow> bool" where
  "lookup_laws net canon acc \<longleftrightarrow>
     (\<forall>w s n e i w'. NetUserGetInfo net w s n = ((e, i), w') \<longrightarrow>
        acc w' = acc w \<and> (e = NERR_UserNotFound \<longleftrightarrow> acc w s (canon n) = None))"

lemma try_names_find:
  assumes "lookup_laws net canon acc"
  shows "\<exists>w'. try_names net dc ns w = (find (\<lambda>n. acc w (Some dc) (canon n) = None) ns, w') \<and> acc w' = acc w"
proof (induction ns arbitrary: w)
  case (Cons n ns)
  obtain e i w1 where g: "NetUserGetInfo net w (Some dc) n = ((e, i), w1)" by (metis prod.exhaust)
  then have "acc w1 = acc w \<and> (e = NERR_UserNotFound \<longleftrightarrow> acc w (Some dc) (canon n) = None)"
    using assms unfolding lookup_laws_def by blast
  then show ?case using g Cons.IH [of w1] by auto
qed simp

lemma set_digits3: "set digits3 = (\<lambda>(a, b, c). [a, b, c]) ` (set digits \<times> set digits \<times> set digits)"
  by (simp add: digits3_def set_eq_iff image_iff split: prod.splits)

lemma card_digits: "card (set digits) = 10"
  by (simp add: digits_def wide_def)

lemma card_digits3: "card (set digits3) = 1000"
  by (simp add: set_digits3 card_image inj_on_def card_cartesian_product card_digits)

lemma length_sam_prefix: "length (sam_prefix name) \<le> 17"
proof -
  have "length (sam_prefix name) \<le> length (rev (take 17 name))" unfolding sam_prefix_def length_rev [of "dropWhile _ _"]
    by (rule order_trans [OF length_dropWhile_le]) simp
  then show ?thesis by simp
qed


section \<open>Creating a user\<close>

text \<open>When every name is taken, the method returns \<^verbatim>\<open>S_OK\<close> and no account was added.\<close>

lemma Domain_CreateUser_misreports:
  assumes "m_pDCInfo a = Some info"
    and "ADGetUserObject ds u DS_USER_PRINCIPAL_NAME (a, w) = Some ((hr, h), a1, w1)" "FAILED hr"
    and "FindSAMName net u (a1, w1) = Some (None, w2)"
  shows "Domain_CreateUser net ds (Some u) (VT_BSTR p) (a, w) = Some (S_OK, a1, w2)"
  using assms by (simp add: Domain_CreateUser_def get_dc_def NO_ERROR_def)

text \<open>
  The call that does not always return: when the directory does not answer while \<^verbatim>\<open>CreateUser\<close> looks the user up, and
  neither does it when the connection is made again, the object has forgotten the domain controller, and \<^verbatim>\<open>CreateUser\<close>
  goes on and reads its name through the \<^verbatim>\<open>NULL\<close> pointer, in \<^verbatim>\<open>FindSAMName\<close>.
\<close>

theorem Domain_CreateUser_lost_controller:
  assumes dc: "m_pDCInfo a = Some info" "m_hDS a \<noteq> NULL_HANDLE"
    and lost: "\<forall>w h f n. fst (fst (DsCrackNames ds w h f n)) \<noteq> DS_NAME_NO_ERROR" "\<forall>w s. fst (fst (DsGetDcName ds w s)) \<noteq> NO_ERROR"
  shows "Domain_CreateUser net ds (Some u) (VT_BSTR p) (a, w) = None"
proof -
  obtain e r w1 where c: "DsCrackNames ds w (m_hDS a) DS_USER_PRINCIPAL_NAME u = ((e, r), w1)" "e \<noteq> DS_NAME_NO_ERROR"
    using lost(1) by (metis prod.collapse)
  let ?w = "DsUnBind ds w1 (m_hDS a)"
  obtain e2 i w2 where g: "DsGetDcName ds ?w (m_bstrServerName a) = ((e2, i), w2)" "e2 \<noteq> NO_ERROR"
    using lost(2) by (metis prod.collapse)
  have "\<exists>w3. ADGetUserObject ds u DS_USER_PRINCIPAL_NAME (a, w) =
      Some ((HRESULT_FROM_WIN32 ERROR_NO_SUCH_USER, NULL_HANDLE), a\<lparr>m_hDS := NULL_HANDLE, m_pDCInfo := None\<rparr>, w3)"
    using dc c g by (simp add: ADGetUserObject_def crack_name_def CheckDS_def ConnectDS_def CleanDS_def get_dc_def Let_def NO_ERROR_def)
  then show ?thesis
    using dc(1) by (auto simp: Domain_CreateUser_def get_dc_def NO_ERROR_def FindSAMName_def ERROR_NO_SUCH_USER_def)
qed

section \<open>A directory\<close>

text \<open>A directory that knows nobody, and one that does not answer.\<close>

definition sim_ds :: "bool \<Rightarrow> sim dsapi" where
  "sim_ds answers = \<lparr>
     DsGetDcName = (\<lambda>w s. ((if answers then 0 else 1355, \<lparr>DomainControllerName = wide ''dc'', DomainName = wide ''d''\<rparr>), w)),
     DsBind = (\<lambda>w n. ((0, 5), w)),
     DsUnBind = (\<lambda>w h. w),
     DsCrackNames = (\<lambda>w h f n. ((if answers then 0 else 1722, if answers then Some [(2, n)] else None), w)),
     Pathname_Create = (\<lambda>w. (S_OK, w)),
     Pathname_Set = (\<lambda>w n. (S_OK, w)),
     Pathname_put_EscapedMode = (\<lambda>w. (S_OK, w)),
     Pathname_Retrieve = (\<lambda>w. ((S_OK, wide ''x''), w)),
     Pathname_Release = (\<lambda>w. w),
     ADsGetObject = (\<lambda>w n. ((S_OK, 7), w)),
     IADs_Put = (\<lambda>w h n v. (S_OK, w)),
     IADs_Clear = (\<lambda>w h n. (S_OK, w)),
     IADs_SetInfo = (\<lambda>w h. (S_OK, w)),
     IADs_Get = (\<lambda>w h n. ((S_OK, VT_BSTR (Some jo)), w)),
     IADs_Release = (\<lambda>w h. w),
     NetGetJoinInformation = (\<lambda>w s. ((0, wide ''d'', True), w))\<rparr>"

lemma sim_ds_laws: "ds_laws (sim_ds b)"
  by (auto simp: ds_laws_def sim_ds_def split: if_splits)

definition bound_account :: CAuthDomainAccount where
  "bound_account = \<lparr>m_bstrServerName = None, m_hDS = 5, m_pDCInfo = Some \<lparr>DomainControllerName = wide ''dc'', DomainName = wide ''d''\<rparr>\<rparr>"

theorem Domain_calls_return_witness:
  "run_call sim_api sim_net (sim_ds True) (DeleteUser (Some jo)) (bound_account, sim_start) \<noteq> None"
proof -
  have "run_call sim_api sim_net (sim_ds True) (UnassociateEmail (Some jo)) (new_CAuthDomainAccount, sim_start) =
      Some (HRESULT_FROM_WIN32 ERROR_NO_SUCH_USER, bound_account, sim_start)"
    by (simp add: run_call_def Domain_UnassociateEmailWithUser_def ADGetUserObject_def crack_name_def CheckDS_def ConnectDS_def get_dc_def
        new_CAuthDomainAccount_def sim_ds_def NO_ERROR_def DS_NAME_NO_ERROR_def ERROR_FILE_NOT_FOUND_def ERROR_NO_SUCH_USER_def
        bound_account_def)
  then have "domain_object sim_api sim_net (sim_ds True) (bound_account, sim_start)"
    by (rule domain_object.call [OF domain_object.new])
  then show ?thesis using Domain_calls_return [OF sim_ds_laws] by blast
qed

theorem Domain_CreateUser_lost_controller_witness:
  "Domain_CreateUser sim_net (sim_ds False) (Some jo) (VT_BSTR (Some jo)) (bound_account, sim_start) = None"
  by (rule Domain_CreateUser_lost_controller)
    (simp_all add: bound_account_def sim_ds_def DS_NAME_NO_ERROR_def NO_ERROR_def)

lemma sim_lookup_laws: "lookup_laws (sim_net\<lparr>NetUserGetInfo := \<lambda>w s n. ((if map_of (sim_users w) n = None then NERR_UserNotFound else 0, new_user n None), w)\<rparr>)
    id (\<lambda>w s. map_of (sim_users w))"
  by (auto simp: lookup_laws_def NERR_UserNotFound_def split: if_splits)


end
