(* ===== verification/Auth_Md5.thy ===== *)
theory Auth_Md5
  imports Mail_Box Auth_Local
begin

text \<open>
  The authentication method with passwords of the mailbox store, \<^verbatim>\<open>CAuthMD5Hash\<close> of
  \<^verbatim>\<open>pop3/shared/pop3auth/authmd5hash.cpp\<close>, and \<^verbatim>\<open>GetMD5Password\<close> of \<^verbatim>\<open>authutil.h\<close>.  The password of a mailbox is kept, encrypted, in
  its lock file.  The cryptography of the system, the MD5 routine and the conversions to ANSI are parameters.
  \<^verbatim>\<open>None\<close> stands for a call that reads memory that was never set.
\<close>

section \<open>The calls of the system\<close>

text \<open>
  \<^verbatim>\<open>WideCharToMultiByte\<close> gives the whole text that the function converts to, and \<^verbatim>\<open>printf_S\<close> what \<^verbatim>\<open>%S\<close> prints, unless
  a character has no representation.
\<close>

record 'w cryptapi =
  CryptAcquireContext :: "'w \<Rightarrow> HANDLE option \<times> 'w"
  CryptCreateHash :: "'w \<Rightarrow> HANDLE \<Rightarrow> HANDLE option \<times> 'w"
  CryptHashData :: "'w \<Rightarrow> HANDLE \<Rightarrow> BYTE list \<Rightarrow> bool \<times> 'w"
  CryptDeriveKey :: "'w \<Rightarrow> HANDLE \<Rightarrow> HANDLE \<Rightarrow> HANDLE option \<times> 'w"
  CryptEncrypt :: "'w \<Rightarrow> HANDLE \<Rightarrow> BYTE list \<Rightarrow> BYTE list option \<times> 'w"
  CryptDecrypt :: "'w \<Rightarrow> HANDLE \<Rightarrow> BYTE list \<Rightarrow> BYTE list option \<times> 'w"
  CryptDestroyKey :: "'w \<Rightarrow> HANDLE \<Rightarrow> 'w"
  CryptDestroyHash :: "'w \<Rightarrow> HANDLE \<Rightarrow> 'w"
  CryptReleaseContext :: "'w \<Rightarrow> HANDLE \<Rightarrow> 'w"
  WideCharToMultiByte :: "wstring \<Rightarrow> string"
  printf_S :: "wstring \<Rightarrow> string option"
  MD5 :: "string \<Rightarrow> BYTE list"

definition IDS_AUTH_MD5_HASH :: nat where "IDS_AUTH_MD5_HASH = 103"
abbreviation (input) "HASH_BUFFER_SIZE \<equiv> (1024 :: nat)"
abbreviation (input) "MD5_HASH_SIZE \<equiv> (32 :: nat)"

section \<open>The key and the stored password\<close>

text \<open>The handles of \<^verbatim>\<open>hProv\<close>, \<^verbatim>\<open>hHash\<close> and \<^verbatim>\<open>hKey\<close>, \<^verbatim>\<open>NULL\<close> as far as they were not obtained.\<close>

record crypt_handles =
  hProv :: HANDLE
  hHash :: HANDLE
  hKey :: HANDLE

abbreviation no_handles :: crypt_handles where
  "no_handles \<equiv> \<lparr>hProv = NULL_HANDLE, hHash = NULL_HANDLE, hKey = NULL_HANDLE\<rparr>"

definition derive_key :: "'w cryptapi \<Rightarrow> BYTE list \<Rightarrow> 'w \<Rightarrow> (bool \<times> crypt_handles) \<times> 'w" where
  "derive_key cr guid w =
     (case CryptAcquireContext cr w of
        (None, w) \<Rightarrow> ((False, no_handles), w)
      | (Some p, w) \<Rightarrow>
          (case CryptCreateHash cr w p of
             (None, w) \<Rightarrow> ((False, no_handles\<lparr>hProv := p\<rparr>), w)
           | (Some h, w) \<Rightarrow>
               (case CryptHashData cr w h guid of (ok, w) \<Rightarrow>
                  if \<not> ok then ((False, no_handles\<lparr>hProv := p, hHash := h\<rparr>), w)
                  else (case CryptDeriveKey cr w p h of
                      (None, w) \<Rightarrow> ((False, no_handles\<lparr>hProv := p, hHash := h\<rparr>), w)
                    | (Some k, w) \<Rightarrow> ((True, \<lparr>hProv = p, hHash = h, hKey = k\<rparr>), w)))))"

definition release_keys :: "'w cryptapi \<Rightarrow> crypt_handles \<Rightarrow> 'w \<Rightarrow> 'w" where
  "release_keys cr hs w =
     (let w = (if hKey hs \<noteq> NULL_HANDLE then CryptDestroyKey cr w (hKey hs) else w);
          w = (if hHash hs \<noteq> NULL_HANDLE then CryptDestroyHash cr w (hHash hs) else w)
      in if hProv hs \<noteq> NULL_HANDLE then CryptReleaseContext cr w (hProv hs) else w)"

text \<open>
  The password in the decrypted bytes: a wide string up to its NUL, converted.  The output buffer is said to have as
  many bytes as were decrypted; with none the conversion stores nothing, and the text is empty.
\<close>

definition decoded_password :: "'w cryptapi \<Rightarrow> BYTE list \<Rightarrow> string option" where
  "decoded_password cr bs =
     (if bs = [] then Some []
      else do {
        txt \<leftarrow> bytes_wcs bs;
        (let s = WideCharToMultiByte cr txt in if length s < length bs then Some s else None) })"

text \<open>
  The part with the mailbox locked.  The first result is false when the function was left by the \<^verbatim>\<open>goto\<close>, past
  \<^verbatim>\<open>UnlockMailBox\<close>; the second are the handles to release.
\<close>

definition read_password :: "'w win32 \<Rightarrow> 'w cryptapi \<Rightarrow> CMailBox \<Rightarrow> 'w
    \<Rightarrow> ((bool \<times> crypt_handles \<times> HRESULT \<times> string) \<times> 'w) option" where
  "read_password api cr box w =
     (case GetEncyptedPassword api True MAX_PATH (box, w) of
        (None, w) \<Rightarrow> Some ((True, no_handles, E_FAIL, []), w)
      | (Some blob, w) \<Rightarrow> do {
          ((e, guid, n), w) \<leftarrow> RegQueryAuthGuid api MAX_PATH None w;
          if e \<noteq> ERROR_SUCCESS then Some ((True, no_handles, E_FAIL, []), w)
          else if length guid < n then None
          else (case derive_key cr (take n guid) w of ((ok, hs), w) \<Rightarrow>
            if \<not> ok then Some ((False, hs, E_FAIL, []), w)
            else (case CryptDecrypt cr w (hKey hs) (map of_char blob) of
                (None, w) \<Rightarrow> Some ((True, hs, E_FAIL, []), w)
              | (Some bs, w) \<Rightarrow>
                  if length bs \<ge> MAX_PATH - 1 then Some ((True, hs, E_FAIL, []), w)
                  else do {
                    s \<leftarrow> decoded_password cr bs;
                    Some ((True, hs, S_OK, s), w) })) })"

text \<open>The destructor of the mailbox does not unlock it.\<close>

definition unlock_release :: "'w win32 \<Rightarrow> 'w cryptapi \<Rightarrow> CMailBox \<Rightarrow> bool \<Rightarrow> crypt_handles \<Rightarrow> 'w \<Rightarrow> 'w" where
  "unlock_release api cr box unlock hs w =
     release_keys cr hs (if unlock then snd (UnlockMailBox api (box, w)) else w)"

definition GetMD5Password :: "'w win32 \<Rightarrow> 'w cryptapi \<Rightarrow> wstring option \<Rightarrow> MailRoot \<times> 'w
    \<Rightarrow> ((HRESULT \<times> string) \<times> MailRoot \<times> 'w) option" where
  "GetMD5Password api cr bstrUserName s = (case s of (st, w) \<Rightarrow>
     (case bstrUserName of
        None \<Rightarrow> Some ((E_POINTER, []), st, w)
      | Some u \<Rightarrow> do {
          (opened, box, st, w) \<leftarrow> OpenMailBox api u (new_CMailBox, st, w);
          if \<not> opened then Some ((if GetLastError api w = ERROR_ACCESS_DENIED then E_ACCESSDENIED else E_FAIL, []), st, w)
          else (case LockMailBox api (box, w) of (locked, box, w) \<Rightarrow>
            if \<not> locked then Some ((E_FAIL, []), st, w)
            else do {
              ((unlock, hs, r), w) \<leftarrow> read_password api cr box w;
              Some (r, st, unlock_release api cr box unlock hs w) }) }))"

section \<open>The method\<close>

text \<open>
  \<^verbatim>\<open>m_csConfig\<close> counts how often the thread has entered the critical section without leaving it.
\<close>

record CAuthMD5Hash =
  m_csConfig :: nat
  m_wszMailRoot :: wstring
  m_bstrServerName :: "wstring option"

definition new_CAuthMD5Hash :: CAuthMD5Hash where
  "new_CAuthMD5Hash = \<lparr>m_csConfig = 0, m_wszMailRoot = [], m_bstrServerName = None\<rparr>"

definition hex_digit :: "BYTE \<Rightarrow> WCHAR" where
  "hex_digit d = ucast (if d < 10 then 48 + d else 87 + d)"

text \<open>The digest as \<^verbatim>\<open>MD5Hash\<close> prints it, \<^verbatim>\<open>L"%02x"\<close> for each byte.\<close>

definition MD5Hash :: "'w cryptapi \<Rightarrow> string \<Rightarrow> wstring" where
  "MD5Hash cr pOriginal = concat (map (\<lambda>b. [hex_digit (drop_bit 4 b), hex_digit (b AND 15)]) (MD5 cr pOriginal))"

text \<open>The comparison of \<^verbatim>\<open>Authenticate\<close>, for a password given as a string.\<close>

definition check_password :: "'w cryptapi \<Rightarrow> wstring \<Rightarrow> string \<Rightarrow> HRESULT option" where
  "check_password cr bstrPwd szPassword =
     (if HASH_BUFFER_SIZE \<le> length (WideCharToMultiByte cr bstrPwd) then None
      else if WideCharToMultiByte cr bstrPwd = szPassword then Some S_OK
      else if length bstrPwd \<le> MD5_HASH_SIZE then Some E_FAIL
      else if HASH_BUFFER_SIZE \<le> length bstrPwd + length szPassword - MD5_HASH_SIZE then Some E_INVALIDARG
      else (case printf_S cr (drop MD5_HASH_SIZE bstrPwd) of
          None \<Rightarrow> Some E_FAIL
        | Some stamp \<Rightarrow>
            if length (stamp @ szPassword) > HASH_BUFFER_SIZE then Some E_FAIL
            else if length (stamp @ szPassword) = HASH_BUFFER_SIZE then None
            else Some (if take MD5_HASH_SIZE (MD5Hash cr (stamp @ szPassword)) = take MD5_HASH_SIZE bstrPwd then S_OK else E_FAIL)))"

definition Md5_Authenticate :: "'w win32 \<Rightarrow> 'w cryptapi \<Rightarrow> wstring option \<Rightarrow> VARIANT \<Rightarrow> MailRoot \<times> 'w
    \<Rightarrow> (HRESULT \<times> MailRoot \<times> 'w) option" where
  "Md5_Authenticate api cr bstrUserName vPassword s =
     (case vPassword of
        VT_BSTR p \<Rightarrow> do {
          ((hr, szPassword), s) \<leftarrow> GetMD5Password api cr bstrUserName s;
          if hr \<noteq> S_OK then Some (hr, s)
          else do {
            hr \<leftarrow> check_password cr (password_text p) szPassword;
            Some (hr, s) } }
      | _ \<Rightarrow> Some (E_INVALIDARG, s))"

definition Md5_get_Name :: "'w win32 \<Rightarrow> 'w accountapi \<Rightarrow> 'w \<Rightarrow> (HRESULT \<times> wstring option) \<times> 'w" where
  "Md5_get_Name api net = resource_name api net IDS_AUTH_MD5_HASH"

definition Md5_get_ID :: "'w win32 \<Rightarrow> 'w \<Rightarrow> (HRESULT \<times> wstring option) \<times> 'w" where
  "Md5_get_ID api = copy_of api SZ_AUTH_ID_MD5_HASH"

definition Md5_Get :: "wstring option \<Rightarrow> HRESULT" where
  "Md5_Get bstrName = E_NOTIMPL"

text \<open>A mail root that is too long leaves the critical section entered.\<close>

definition Md5_Put :: "'w win32 \<Rightarrow> wstring option \<Rightarrow> VARIANT \<Rightarrow> CAuthMD5Hash \<times> 'w \<Rightarrow> HRESULT \<times> CAuthMD5Hash \<times> 'w" where
  "Md5_Put api bstrName vVal s = (case s of (a, w) \<Rightarrow>
     (case bstrName of
        None \<Rightarrow> (E_INVALIDARG, a, w)
      | Some n \<Rightarrow>
          if n = SZ_SERVER_NAME then
            (case vVal of
               VT_BSTR (Some v) \<Rightarrow> (case copy_of api v w of ((hr, b), w) \<Rightarrow> (hr, a\<lparr>m_bstrServerName := b\<rparr>, w))
             | _ \<Rightarrow> (E_INVALIDARG, a, w))
          else if n = SZ_PROPNAME_MAIL_ROOT then
            (case vVal of
               VT_BSTR (Some v) \<Rightarrow>
                 if m_wszMailRoot a \<noteq> [] then (S_OK, a, w)
                 else if length v \<ge> POP3_MAX_MAILROOT_LENGTH then (E_INVALIDARG, a\<lparr>m_csConfig := m_csConfig a + 1\<rparr>, w)
                 else (S_OK, a\<lparr>m_wszMailRoot := v\<rparr>, w)
             | _ \<Rightarrow> (E_INVALIDARG, a, w))
          else (S_FALSE, a, w)))"

text \<open>
  The mail root of another machine, \<^verbatim>\<open>\\server\drive$\path\<close>, which becomes the root of this process.  An empty value
  leaves the second character of the array unset.
\<close>

definition remote_root :: "'w win32 \<Rightarrow> wstring \<Rightarrow> CAuthMD5Hash \<times> MailRoot \<times> 'w
    \<Rightarrow> (DWORD \<times> CAuthMD5Hash \<times> MailRoot \<times> 'w) option" where
  "remote_root api server s = (case s of (a, st, w) \<Rightarrow> do {
     ((dwRt, root), w) \<leftarrow> RegQueryMailRoot api POP3_MAX_MAILROOT_LENGTH (Some server) w;
     if dwRt \<noteq> ERROR_SUCCESS then Some (dwRt, a, st, w)
     else if root = [] then None
     else if length root = 1 \<or> root ! 1 \<noteq> of_char (CHR '':'') then Some (ERROR_INVALID_DATA, a, st, w)
     else if POP3_MAX_MAILROOT_LENGTH \<le> length root + length server + 3 then Some (ERROR_INSUFFICIENT_BUFFER, a, st, w)
     else do {
       let path = wide [BACKSLASH, BACKSLASH] @ path_join server (root[1 := of_char (CHR ''$'')]);
       (ok, st, w) \<leftarrow> SetMailRoot api (Some path) st w;
       Some (if ok then ERROR_SUCCESS else GetLastError api w, a\<lparr>m_wszMailRoot := path\<rparr>, st, w) } })"

definition store_password :: "'w win32 \<Rightarrow> 'w cryptapi \<Rightarrow> wstring option \<Rightarrow> wstring \<Rightarrow> CMailBox \<Rightarrow> 'w
    \<Rightarrow> ((bool \<times> crypt_handles \<times> HRESULT) \<times> 'w) option" where
  "store_password api cr server password box w = do {
     ((e, guid, n), w) \<leftarrow> RegQueryAuthGuid api MAX_PATH server w;
     if e \<noteq> ERROR_SUCCESS then Some ((True, no_handles, E_FAIL), w)
     else if length guid < n then None
     else (case derive_key cr (take n guid) w of ((ok, hs), w) \<Rightarrow>
       if \<not> ok then Some ((False, hs, E_FAIL), w)
       else if (length password + 1) * 2 > MAX_PATH then Some ((False, hs, E_FAIL), w)
       else (case CryptEncrypt cr w (hKey hs) (wcs_bytes password) of
           (None, w) \<Rightarrow> Some ((True, hs, E_FAIL), w)
         | (Some bs, w) \<Rightarrow>
             (case SetEncyptedPassword api True (map (\<lambda>b. char_of (unat b)) bs) (box, w) of (ok, w) \<Rightarrow>
                Some ((True, hs, if ok then S_OK else E_FAIL), w)))) }"

text \<open>
  With the name of another machine, the function is left as soon as the mail root of that machine was found.
\<close>

definition SetPassword :: "'w win32 \<Rightarrow> 'w cryptapi \<Rightarrow> wstring option \<Rightarrow> VARIANT \<Rightarrow> CAuthMD5Hash \<times> MailRoot \<times> 'w
    \<Rightarrow> (HRESULT \<times> CAuthMD5Hash \<times> MailRoot \<times> 'w) option" where
  "SetPassword api cr bstrUserName vPassword s =
     (case (bstrUserName, vPassword) of
        (Some u, VT_BSTR (Some p)) \<Rightarrow>
          if p = [] then Some (E_INVALIDARG, s)
          else do {
            (found, a, st, w) \<leftarrow>
              (case m_bstrServerName (fst s) of
                 None \<Rightarrow> Some (False, s)
               | Some server \<Rightarrow> do { (dwRt, s) \<leftarrow> remote_root api server s; Some (dwRt = ERROR_SUCCESS, s) });
            if found then Some (HRESULT_FROM_WIN32 ERROR_SUCCESS, a, st, w)
            else do {
              (opened, box, st, w) \<leftarrow> OpenMailBox api u (new_CMailBox, st, w);
              if \<not> opened then Some (E_FAIL, a, st, w)
              else (case LockMailBox api (box, w) of (locked, box, w) \<Rightarrow>
                if \<not> locked then Some (E_FAIL, a, st, w)
                else do {
                  ((unlock, hs, hr), w) \<leftarrow> store_password api cr (m_bstrServerName a) p box w;
                  Some (hr, a, st, unlock_release api cr box unlock hs w) }) } }
      | _ \<Rightarrow> Some (E_INVALIDARG, s))"

definition Md5_CreateUser :: "'w win32 \<Rightarrow> 'w cryptapi \<Rightarrow> wstring option \<Rightarrow> VARIANT \<Rightarrow> CAuthMD5Hash \<times> MailRoot \<times> 'w
    \<Rightarrow> (HRESULT \<times> CAuthMD5Hash \<times> MailRoot \<times> 'w) option" where
  "Md5_CreateUser = SetPassword"

definition Md5_DeleteUser :: "wstring option \<Rightarrow> HRESULT" where
  "Md5_DeleteUser bstrUserName = S_FALSE"

text \<open>The old password is not looked at.\<close>

definition Md5_ChangePassword :: "'w win32 \<Rightarrow> 'w cryptapi \<Rightarrow> wstring option \<Rightarrow> VARIANT \<Rightarrow> VARIANT \<Rightarrow> CAuthMD5Hash \<times> MailRoot \<times> 'w
    \<Rightarrow> (HRESULT \<times> CAuthMD5Hash \<times> MailRoot \<times> 'w) option" where
  "Md5_ChangePassword api cr bstrUserName vNewPassword vOldPassword = SetPassword api cr bstrUserName vNewPassword"

definition Md5_AssociateEmailWithUser :: "'w win32 \<Rightarrow> wstring \<Rightarrow> CAuthMD5Hash \<times> MailRoot \<times> 'w
    \<Rightarrow> (HRESULT \<times> CAuthMD5Hash \<times> MailRoot \<times> 'w) option" where
  "Md5_AssociateEmailWithUser api bstrEmailAddr s = do {
     (dwRt, a, st, w) \<leftarrow> (case m_bstrServerName (fst s) of None \<Rightarrow> Some (ERROR_SUCCESS, s) | Some server \<Rightarrow> remote_root api server s);
     if dwRt \<noteq> ERROR_SUCCESS then Some (HRESULT_FROM_WIN32 dwRt, a, st, w)
     else do {
       (opened, _, st, w) \<leftarrow> OpenMailBox api bstrEmailAddr (new_CMailBox, st, w);
       Some (if opened then S_OK else HRESULT_FROM_WIN32 (GetLastError api w), a, st, w) } }"

definition Md5_UnassociateEmailWithUser :: "'w win32 \<Rightarrow> wstring \<Rightarrow> CAuthMD5Hash \<times> MailRoot \<times> 'w
    \<Rightarrow> (HRESULT \<times> CAuthMD5Hash \<times> MailRoot \<times> 'w) option" where
  "Md5_UnassociateEmailWithUser = Md5_AssociateEmailWithUser"

section \<open>Who is accepted\<close>


section \<open>Storing and reading a password\<close>

text \<open>
  What reading a password back relies on.  The view \<^verbatim>\<open>content\<close> gives the bytes of a file and \<^verbatim>\<open>file_of\<close> the file and the
  position of an open handle.  The GUID of the service is in the registry; the key made from it decrypts with \<^verbatim>\<open>dec\<close> what
  it encrypted with \<^verbatim>\<open>enc\<close>, a stream cipher.
\<close>

definition vault_laws :: "'w win32 \<Rightarrow> 'w cryptapi \<Rightarrow> BYTE list \<Rightarrow> (BYTE list \<Rightarrow> BYTE list) \<Rightarrow> (BYTE list \<Rightarrow> BYTE list)
    \<Rightarrow> ('w \<Rightarrow> wstring \<Rightarrow> string) \<Rightarrow> ('w \<Rightarrow> HANDLE \<Rightarrow> (wstring \<times> nat) option) \<Rightarrow> bool" where
  "vault_laws api cr guid enc dec content file_of \<longleftrightarrow>
     (\<forall>w p a sh sec d f h w'. CreateFile api w p a sh sec d f = (h, w') \<longrightarrow> h \<noteq> INVALID_HANDLE_VALUE \<longrightarrow>
        file_of w' h = Some (p, 0) \<and> content w' = content w) \<and>
     (\<forall>w p. content (snd (GetFileAttributes api w p)) = content w) \<and>
     (\<forall>w h n p. file_of w h = Some (p, 0) \<longrightarrow> fst (ReadFile api w h n) = Some (take n (content w p))) \<and>
     (\<forall>w h s n w' p. WriteFile api w h s = (Some n, w') \<longrightarrow> file_of w h = Some (p, 0) \<longrightarrow>
        file_of w' h = Some (p, length s) \<and> content w' = (content w)(p := s @ drop (length s) (content w p))) \<and>
     (\<forall>w h w' p k. SetEndOfFile api w h = (True, w') \<longrightarrow> file_of w h = Some (p, k) \<longrightarrow>
        content w' = (content w)(p := take k (content w p))) \<and>
     (\<forall>w h. content (snd (CloseHandle api w h)) = content w) \<and>
     (\<forall>w h. content (CryptDestroyKey cr w h) = content w \<and> content (CryptDestroyHash cr w h) = content w \<and>
        content (CryptReleaseContext cr w h) = content w) \<and>
     (\<forall>w. \<exists>w'. RegQueryAuthGuid api MAX_PATH None w = Some ((ERROR_SUCCESS, guid, length guid), w') \<and> file_of w' = file_of w) \<and>
     (\<forall>w. \<exists>hs w'. derive_key cr guid w = ((True, hs), w') \<and> file_of w' = file_of w \<and>
        (\<forall>x y w''. CryptEncrypt cr w' (hKey hs) x = (Some y, w'') \<longrightarrow> y = enc x \<and> file_of w'' = file_of w) \<and>
        (\<forall>y. fst (CryptDecrypt cr w' (hKey hs) y) = Some (dec y))) \<and>
     (\<forall>x. dec (enc x) = x \<and> length (enc x) = length x) \<and>
     (\<forall>x. length (WideCharToMultiByte cr x) \<le> 2 * length x)"

text \<open>The mailbox exists and its lock file can be opened.\<close>

definition lock_free :: "'w win32 \<Rightarrow> bool" where
  "lock_free api \<longleftrightarrow> (\<forall>w p. fst (GetFileAttributes api w p) \<noteq> ERROR_NO_FILE_ATTR) \<and>
     (\<forall>w p. fst (CreateFile api w p (GENERIC_READ OR GENERIC_WRITE) (FILE_SHARE_READ OR FILE_SHARE_DELETE) None OPEN_EXISTING FILE_ATTRIBUTE_HIDDEN)
        \<notin> {INVALID_HANDLE_VALUE, NULL_HANDLE})"

lemma long_path_root_nonempty: "long_path_root r = Some p \<Longrightarrow> p \<noteq> []"
  by (auto simp: long_path_root_def wide_def split: if_splits)

lemma SetMailRoot_nonempty: "SetMailRoot api r st w = Some (True, st', w') \<Longrightarrow> MailRoot.m_wszMailRoot st' \<noteq> []"
  by (auto simp: SetMailRoot_def Let_def long_path_root_nonempty split: if_splits option.splits bind_splits)

lemma SetMailBoxPath_again:
  assumes "SetMailBoxPath api u (new_CMailBox, st, w) = Some (True, box, st', w1)"
  shows "SetMailBoxPath api u (new_CMailBox, st', w2) = Some (True, box, st', w2) \<and> m_bMailBoxOpened box = False"
proof -
  have "MailRoot.m_wszMailRoot st' \<noteq> []"
    using assms
    by (auto simp: SetMailBoxPath_def Let_def split: if_splits option.splits bind_splits dest: SetMailRoot_nonempty)
  then show ?thesis using assms
    by (auto simp: SetMailBoxPath_def Let_def split: if_splits option.splits bind_splits)
qed

lemma OpenMailBox_again:
  assumes open1: "OpenMailBox api u (new_CMailBox, st, w) = Some (True, box, st', w1)" and free: "lock_free api"
  shows "OpenMailBox api u (new_CMailBox, st', w2) = Some (True, box, st', snd (GetFileAttributes api w2 (m_wszMailBoxPath box)))"
proof -
  obtain b w0 where p: "SetMailBoxPath api u (new_CMailBox, st, w) = Some (True, b, st', w0)" "box = b\<lparr>m_bMailBoxOpened := True\<rparr>"
    using open1 by (auto simp: OpenMailBox_def split: bind_splits if_splits prod.splits)
  then show ?thesis
    using SetMailBoxPath_again [OF p(1), of w2] free
    by (auto simp: OpenMailBox_def lock_free_def split: prod.splits) (metis fst_conv)
qed

lemma bytes_of_chars [simp]: "map of_char (map (\<lambda>b. char_of (unat b)) bs) = (bs :: BYTE list)"
proof -
  have "of_char (char_of (unat b) :: char) = b" for b :: BYTE
  proof -
    have "(of_char (char_of (unat b) :: char) :: nat) = unat b" using unsigned_less [of b, where 'a = nat] by (simp add: of_char_of take_bit_nat_eq_self)
    then have "(of_nat (of_char (char_of (unat b) :: char) :: nat) :: BYTE) = of_nat (unat b)" by (simp only:)
    moreover have "(of_nat (of_char c :: nat) :: BYTE) = of_char c" for c :: char by (rule of_nat_of_char)
    ultimately show ?thesis by (metis of_nat_unat ucast_id)
  qed
  then show ?thesis by (simp add: comp_def)
qed

lemma vault_lawsD:
  assumes "vault_laws api cr guid enc dec content file_of"
  shows "CreateFile api w p a sh sec d f = (h, w') \<Longrightarrow> h \<noteq> INVALID_HANDLE_VALUE \<Longrightarrow> file_of w' h = Some (p, 0) \<and> content w' = content w"
    "content (snd (GetFileAttributes api w p)) = content w"
    "file_of w h = Some (p, 0) \<Longrightarrow> fst (ReadFile api w h n) = Some (take n (content w p))"
    "WriteFile api w h s = (Some k, w') \<Longrightarrow> file_of w h = Some (p, 0) \<Longrightarrow>
       file_of w' h = Some (p, length s) \<and> content w' = (content w)(p := s @ drop (length s) (content w p))"
    "SetEndOfFile api w h = (True, w') \<Longrightarrow> file_of w h = Some (p, n) \<Longrightarrow> content w' = (content w)(p := take n (content w p))"
    "content (snd (CloseHandle api w h)) = content w"
    "content (release_keys cr hs w) = content w"
    "\<exists>w'. RegQueryAuthGuid api MAX_PATH None w = Some ((ERROR_SUCCESS, guid, length guid), w') \<and> file_of w' = file_of w"
    "\<exists>hs w'. derive_key cr guid w = ((True, hs), w') \<and> file_of w' = file_of w \<and>
        (\<forall>x y w''. CryptEncrypt cr w' (hKey hs) x = (Some y, w'') \<longrightarrow> y = enc x \<and> file_of w'' = file_of w) \<and>
        (\<forall>y. fst (CryptDecrypt cr w' (hKey hs) y) = Some (dec y))"
    "dec (enc x) = x" "length (enc x) = length x" "length (WideCharToMultiByte cr v) \<le> 2 * length v"
  using assms unfolding vault_laws_def by (simp_all add: release_keys_def Let_def)

lemma store_password_content:
  assumes laws: "vault_laws api cr guid enc dec content file_of"
    and run: "store_password api cr None p box w = Some ((unlock, hs, S_OK), w')"
    and lock: "file_of w (m_hMailBoxLock box) = Some (lp, 0)"
  shows "content w' lp = map (\<lambda>b. char_of (unat b)) (enc (wcs_bytes p)) \<and> length p \<le> 129"
proof -
  note law = vault_lawsD [OF laws]
  obtain w1 where 1: "RegQueryAuthGuid api 260 None w = Some ((ERROR_SUCCESS, guid, length guid), w1)" "file_of w1 = file_of w"
    using law(8) by blast
  obtain ks w2 where 2: "derive_key cr guid w1 = ((True, ks), w2)" "file_of w2 = file_of w1"
    and enc: "\<And>x y w''. CryptEncrypt cr w2 (hKey ks) x = (Some y, w'') \<Longrightarrow> y = enc x \<and> file_of w'' = file_of w1"
    using law(9) [of w1] by blast
  have len: "length p \<le> 129" using run 1 2 by (auto simp: store_password_def not_less split: if_splits)
  obtain y w3 where 3: "CryptEncrypt cr w2 (hKey ks) (wcs_bytes p) = (Some y, w3)"
    using run 1 2 by (auto simp: store_password_def split: if_splits option.splits prod.splits)
  let ?bs = "map (\<lambda>b. char_of (unat b)) y"
  have f3: "y = enc (wcs_bytes p)" "file_of w3 (m_hMailBoxLock box) = Some (lp, 0)" using enc [OF 3] 1(2) lock by auto
  have "SetEncyptedPassword api True ?bs (box, w3) = (True, w')"
    using run 1 2 3 len by (auto simp: store_password_def split: if_splits prod.splits)
  then obtain n w4 where 4: "WriteFile api w3 (m_hMailBoxLock box) ?bs = (Some n, w4)" "SetEndOfFile api w4 (m_hMailBoxLock box) = (True, w')"
    by (auto simp: SetEncyptedPassword_def split: if_splits option.splits prod.splits)
  have "file_of w4 (m_hMailBoxLock box) = Some (lp, length ?bs)" "content w4 lp = ?bs @ drop (length ?bs) (content w3 lp)"
    using law(4) [OF 4(1) f3(2)] by simp_all
  then show ?thesis using law(5) [OF 4(2)] f3(1) len by simp
qed

lemma read_password_content:
  assumes laws: "vault_laws api cr guid enc dec content file_of"
    and lock: "file_of w (m_hMailBoxLock box) = Some (lp, 0)" "m_hMailBoxLock box \<noteq> NULL_HANDLE"
    and c: "content w lp = map (\<lambda>b. char_of (unat b)) (enc (wcs_bytes p))" "0 \<notin> set p" "length p \<le> 129"
  shows "\<exists>hs w'. read_password api cr box w = Some ((True, hs, if length p \<le> 128 then (S_OK, WideCharToMultiByte cr p) else (E_FAIL, [])), w')"
proof -
  note law = vault_lawsD [OF laws]
  have n: "length (wcs_bytes p) = 2 * length p + 2" by (simp add: wcs_bytes_def length_concat comp_def sum_list_triv)
  obtain w1 where 1: "ReadFile api w (m_hMailBoxLock box) 260 = (Some (take 260 (content w lp)), w1)"
    using law(3) [OF lock(1), of 260] by (metis prod.collapse)
  show ?thesis
  proof (cases "length p \<le> 128")
    case False
    then show ?thesis using 1 lock(2) c n law(11)
      by (auto simp: read_password_def GetEncyptedPassword_def)
  next
    case True
    then have g: "GetEncyptedPassword api True 260 (box, w) = (Some (content w lp), w1)"
      using 1 lock(2) c n law(11) by (simp add: GetEncyptedPassword_def)
    obtain w2 where 2: "RegQueryAuthGuid api 260 None w1 = Some ((ERROR_SUCCESS, guid, length guid), w2)" using law(8) by blast
    obtain hs w3 where 3: "derive_key cr guid w2 = ((True, hs), w3)" "\<And>y. fst (CryptDecrypt cr w3 (hKey hs) y) = Some (dec y)"
      using law(9) [of w2] by blast
    obtain w4 where 4: "CryptDecrypt cr w3 (hKey hs) (map of_char (content w lp)) = (Some (wcs_bytes p), w4)"
      using 3(2) [of "map of_char (content w lp)"] c(1) law(10) by (metis bytes_of_chars prod.collapse)
    have "wcs_bytes p \<noteq> []" by (simp add: wcs_bytes_def)
    then have "decoded_password cr (wcs_bytes p) = Some (WideCharToMultiByte cr p)"
      using n c(2) law(12) [of p] by (auto simp: decoded_password_def)
    then show ?thesis using g 2 3(1) 4 n True by (auto simp: read_password_def)
  qed
qed


text \<open>
  A mailbox whose lock file is empty, as \<^verbatim>\<open>CreateMailBox\<close> makes it, has the empty password, when the system decrypts nothing
  to nothing.
\<close>

lemma empty_lock_file:
  assumes "GetEncyptedPassword api True MAX_PATH (box, w) = (Some [], w1)"
    and "RegQueryAuthGuid api MAX_PATH None w1 = Some ((ERROR_SUCCESS, guid, length guid), w2)"
    and "derive_key cr guid w2 = ((True, hs), w3)" "CryptDecrypt cr w3 (hKey hs) [] = (Some [], w4)"
    and "WideCharToMultiByte cr [] = []"
  shows "read_password api cr box w = Some ((True, hs, S_OK, []), w4)" "check_password cr (password_text None) [] = Some S_OK"
  using assms by (simp_all add: read_password_def decoded_password_def check_password_def)

text \<open>With the name of another machine whose mail root can be used, nothing is stored and the result is \<^verbatim>\<open>S_OK\<close>.\<close>

lemma SetPassword_remote_stores_nothing:
  assumes "m_bstrServerName a = Some server" "remote_root api server (a, st, w) = Some (ERROR_SUCCESS, a', st', w')" "p \<noteq> []"
  shows "SetPassword api cr (Some u) (VT_BSTR (Some p)) (a, st, w) = Some (S_OK, a', st', w')"
  using assms by (simp add: SetPassword_def ERROR_SUCCESS_def S_OK_def)

section \<open>A store with one mailbox\<close>

text \<open>The small operating system of \<^verbatim>\<open>Sim_Os\<close> with files that can be written, and a cipher.\<close>

definition vault_api :: "sim win32" where
  "vault_api = sim_api\<lparr>
     RegQueryValueEx := (\<lambda>w h name n. ((0, [1, 2], 2), w)),
     RegOpenKeyEx := (\<lambda>w h sub sam. ((0, 3), w)),
     RegCloseKey := (\<lambda>w h. w),
     CreateFile := (\<lambda>w p a sh sec d f. (4, w\<lparr>sim_open := (4, p, 0) # sim_open w\<rparr>)),
     CloseHandle := (\<lambda>w h. (True, w)),
     ReadFile := (\<lambda>w h n. (case map_of (sim_open w) h of None \<Rightarrow> None
        | Some (p, k) \<Rightarrow> Some (take n (drop k (case map_of (sim_files w) p of None \<Rightarrow> [] | Some t \<Rightarrow> t))), w)),
     WriteFile := (\<lambda>w h s. (case map_of (sim_open w) h of None \<Rightarrow> (None, w)
        | Some (p, k) \<Rightarrow> (Some (of_nat (length s)), w\<lparr>sim_open := (h, p, length s) # sim_open w,
            sim_files := (p, s @ drop (length s) (case map_of (sim_files w) p of None \<Rightarrow> [] | Some t \<Rightarrow> t)) # sim_files w\<rparr>))),
     SetEndOfFile := (\<lambda>w h. (case map_of (sim_open w) h of None \<Rightarrow> (False, w)
        | Some (p, k) \<Rightarrow> (True, w\<lparr>sim_files := (p, take k (case map_of (sim_files w) p of None \<Rightarrow> [] | Some t \<Rightarrow> t)) # sim_files w\<rparr>)))\<rparr>"

definition vault_crypt :: "sim cryptapi" where
  "vault_crypt = \<lparr>
     CryptAcquireContext = (\<lambda>w. (Some 1, w)), CryptCreateHash = (\<lambda>w p. (Some 2, w)), CryptHashData = (\<lambda>w h b. (True, w)),
     CryptDeriveKey = (\<lambda>w p h. (Some 3, w)), CryptEncrypt = (\<lambda>w k x. (Some (map NOT x), w)), CryptDecrypt = (\<lambda>w k x. (Some (map NOT x), w)),
     CryptDestroyKey = (\<lambda>w h. w), CryptDestroyHash = (\<lambda>w h. w), CryptReleaseContext = (\<lambda>w h. w),
     WideCharToMultiByte = map (\<lambda>c. char_of (unat c)), printf_S = (\<lambda>s. Some (map (\<lambda>c. char_of (unat c)) s)), MD5 = (\<lambda>s. replicate 16 (of_nat (length s)))\<rparr>"

abbreviation vault_content :: "sim \<Rightarrow> wstring \<Rightarrow> string" where
  "vault_content w p \<equiv> (case map_of (sim_files w) p of None \<Rightarrow> [] | Some t \<Rightarrow> t)"

abbreviation vault_root :: MailRoot where
  "vault_root \<equiv> \<lparr>m_lMailRootGuard = 1, m_wszMailRoot = wide ''r''\<rparr>"

lemma vault_guid: "RegQueryAuthGuid vault_api 260 None w = Some ((ERROR_SUCCESS, [1, 2], length [1, 2 :: BYTE]), w)"
  by (simp add: vault_api_def RegQueryAuthGuid_def RegQueryString_def RegHKLMOpenKey_def ERROR_SUCCESS_def)

lemma vault_key: "derive_key vault_crypt g w = ((True, \<lparr>hProv = 1, hHash = 2, hKey = 3\<rparr>), w)"
  by (simp add: derive_key_def vault_crypt_def)

lemma vault_ok: "vault_laws vault_api vault_crypt [1, 2] (map NOT) (map NOT) vault_content (\<lambda>w h. map_of (sim_open w) h)"
  unfolding vault_laws_def vault_guid vault_key
  by (intro conjI allI impI)
    (auto simp: vault_api_def sim_api_def vault_crypt_def comp_def split: option.splits)

abbreviation vault_user :: wstring where "vault_user \<equiv> wide ''u@d''"

abbreviation vault_box :: CMailBox where
  "vault_box \<equiv> new_CMailBox\<lparr>m_wszMailBoxPath := mailbox_path (wide ''r'') (wide ''d'') (wide ''u''), m_bMailBoxOpened := True\<rparr>"

abbreviation vault_lock :: wstring where
  "vault_lock \<equiv> path_join (mailbox_path (wide ''r'') (wide ''d'') (wide ''u'')) LOCK_FILENAME_W"

lemma vault_open: "OpenMailBox vault_api vault_user (new_CMailBox, vault_root, w) = Some (True, vault_box, vault_root, w)"
  by (simp add: OpenMailBox_def SetMailBoxPath_def Let_def vault_api_def sim_api_def wide_def wcspbrk_null_def NotAllowedSet_def
      MAILBOX_PREFIX_W_def MAILBOX_EXTENSION_W_def mailbox_path_def path_join_def snprintf_def ERROR_NO_FILE_ATTR_def new_CMailBox_def)

lemma vault_locked: "LockMailBox vault_api (vault_box, w) =
    (True, vault_box\<lparr>m_hMailBoxLock := 4\<rparr>, w\<lparr>sim_open := (4, vault_lock, 0) # sim_open w\<rparr>)"
  by (simp add: LockMailBox_def vault_api_def snprintf_def mailbox_path_def path_join_def wide_def MAILBOX_PREFIX_W_def
      MAILBOX_EXTENSION_W_def LOCK_FILENAME_W_def)

lemma vault_writes: "\<exists>w'. SetEncyptedPassword vault_api True bs (vault_box\<lparr>m_hMailBoxLock := 4\<rparr>, w\<lparr>sim_open := (4, q, 0) # fs\<rparr>) = (True, w')"
  by (simp add: SetEncyptedPassword_def) (simp add: vault_api_def)

lemma vault_encrypts: "CryptEncrypt vault_crypt w k x = (Some (map NOT x), w)"
  by (simp add: vault_crypt_def)

lemma vault_free: "lock_free vault_api"
  by (simp add: lock_free_def vault_api_def sim_api_def ERROR_NO_FILE_ATTR_def)

lemma vault_reads:
  assumes "sim_files w = [(vault_lock, map (\<lambda>b. char_of (unat b)) (map NOT (wcs_bytes p)))]" "0 \<notin> set p" "length p \<le> 128"
  shows "\<exists>s'. GetMD5Password vault_api vault_crypt (Some vault_user) (vault_root, w) = Some ((S_OK, WideCharToMultiByte vault_crypt p), s')"
  using read_password_content [OF vault_ok, of "w\<lparr>sim_open := (4, vault_lock, 0) # sim_open w\<rparr>" "vault_box\<lparr>m_hMailBoxLock := 4\<rparr>" vault_lock p] assms
  by (auto simp: GetMD5Password_def vault_open vault_locked)



end
