(* ===== verification/Dot_Stuff.thy ===== *)
theory Dot_Stuff
  imports Pop3_Prelude
begin

text \<open>
  Dot stuffing on delivery, \<^verbatim>\<open>CPOP3DropDir::DotStuffBuffer\<close> of
  \<^verbatim>\<open>pop3/smtp/storedriver/pop3dropdir.cpp\<close>.  The block just read lies at the start of the buffer; the
  code scans it backwards, looking at every third character, and moves what follows a stuffed dot to
  the end of the buffer.  The state that one block hands to the next is \<^verbatim>\<open>m_enumBWS\<close>.

  Pointers into \<^verbatim>\<open>m_sBuffer\<close> are indices.  Reads outside the buffer and moves of a negative length
  give no result, except for the byte just before the buffer, which the code reads for a block of
  one byte: it belongs to the object (the end of \<^verbatim>\<open>m_sStoreFileName\<close>) and is an argument.
\<close>

section \<open>The code\<close>

datatype BufferWrapSequence = NA | BWS_CR | BWS_CRLF

abbreviation DOT :: char where "DOT \<equiv> CHR ''.''"

abbreviation "PRIVATE_OPTIMAL_BUFFER_SIZE \<equiv> (64 * 1024 :: nat)"
abbreviation "OPTIMAL_BUFFER_W_DOTSTUFFING_PAD \<equiv> (64 * 1024 * 4 div 3 + 1 :: nat)"

definition g_Matrix :: "char \<Rightarrow> nat" where
  "g_Matrix c = (if c = LF then 2 else if c = CR then 3 else if c = DOT then 1 else 0)"

definition memmove :: "nat \<Rightarrow> nat \<Rightarrow> nat \<Rightarrow> 'a list \<Rightarrow> 'a list option" where
  "memmove dst src n buf = (if dst + n \<le> length buf \<and> src + n \<le> length buf
     then Some (take dst buf @ take n (drop src buf) @ drop (dst + n) buf) else None)"

text \<open>The local variables of \<^verbatim>\<open>DotStuffBuffer\<close> that its loop changes, and the buffer.\<close>

record stuffing =
  sBuffer :: "char list"
  stuff_size :: nat
  pFromStart :: "nat option"
  pFromEnd :: nat
  pToEnd :: nat

text \<open>The statements under \<^verbatim>\<open>// Stuff Required\<close> and, the same again, \<^verbatim>\<open>// 1 more stuff required\<close>.\<close>

definition Stuff_one :: "nat \<Rightarrow> stuffing \<Rightarrow> stuffing option" where
  "Stuff_one p s =
     (let n = pFromEnd s - p in
      if pFromEnd s < p \<or> pToEnd s \<le> n then None
      else do {
        buf \<leftarrow> memmove (pToEnd s - n) p n (sBuffer s);
        buf \<leftarrow> poke buf (pToEnd s - n - 1) [DOT];
        Some (s\<lparr>sBuffer := buf, stuff_size := stuff_size s + 1, pFromStart := Some p,
                pFromEnd := p, pToEnd := pToEnd s - n - 1\<rparr>) })"

text \<open>\<^verbatim>\<open>(0xd == *(pChar-2)) && (0xa == *(pChar-1)) && (0x2e == *(pChar))\<close>.\<close>

definition crlf_dot_at :: "char list \<Rightarrow> nat \<Rightarrow> bool option" where
  "crlf_dot_at buf p = do {
     a \<leftarrow> peek buf (p - 2);
     if a \<noteq> CR then Some False
     else do {
       b \<leftarrow> peek buf (p - 1);
       if b \<noteq> LF then Some False
       else do { c \<leftarrow> peek buf p; Some (c = DOT) } } }"

lemma g_Matrix_le: "g_Matrix c \<le> 3"
  by (simp add: g_Matrix_def)

function Stuff_loop :: "nat \<Rightarrow> nat \<Rightarrow> stuffing \<Rightarrow> stuffing option" where
  "Stuff_loop pb pChar s =
     (if pChar \<le> pb + 2 then Some s
      else do {
        c \<leftarrow> peek (sBuffer s) pChar;
        if g_Matrix c = 0 then Stuff_loop pb (pChar - 3) s
        else (let pChar = pChar + (g_Matrix c - 1) in do {
          m \<leftarrow> crlf_dot_at (sBuffer s) pChar;
          s \<leftarrow> (if m then Stuff_one pChar s else Some s);
          Stuff_loop pb (pChar - 3) s }) })"
  by auto
termination
proof (relation "measure (\<lambda>(pb, pChar, s). pChar)")
  fix pb pChar :: nat and c :: char
  assume h: "\<not> pChar \<le> pb + 2"
  then show "((pb, pChar - 3, s), pb, pChar, s) \<in> measure (\<lambda>(pb, pChar, s). pChar)" for s :: stuffing by auto
  show "((pb, q - 3, t), pb, pChar, s) \<in> measure (\<lambda>(pb, pChar, s). pChar)"
    if "q = pChar + (g_Matrix c - 1)" for q and s t :: stuffing
    using h that g_Matrix_le [of c] by auto
qed simp

declare Stuff_loop.simps [simp del]

text \<open>Where the first line of the block wants a dot: the continuation of the previous block, or its own CR LF.\<close>

definition first_dot :: "BufferWrapSequence \<Rightarrow> nat \<Rightarrow> char list \<Rightarrow> nat option option" where
  "first_dot bws pb buf = do {
     c \<leftarrow> peek buf pb;
     if g_Matrix c = 0 then Some None
     else do {
       d \<leftarrow> (if bws = BWS_CR \<and> c = LF then peek buf (pb + 1) else Some NUL);
       if d = DOT then Some (Some (pb + 1))
       else if bws = BWS_CRLF \<and> c = DOT then Some (Some pb)
       else if c \<noteq> CR then Some None
       else do {
         m \<leftarrow> crlf_dot_at buf (pb + 2);
         Some (if m then Some (pb + 2) else None) } } }"

definition next_BWS :: "char \<Rightarrow> char list \<Rightarrow> nat \<Rightarrow> nat \<Rightarrow> BufferWrapSequence option" where
  "next_BWS prior buf pb n = do {
     l \<leftarrow> peek buf (pb + n - 1);
     if l = CR then Some BWS_CR
     else do {
       k \<leftarrow> (if pb + n < 2 then Some prior else peek buf (pb + n - 2));
       Some (if k = CR \<and> l = LF then BWS_CRLF else NA) } }"

definition move_beginning :: "nat \<Rightarrow> nat \<Rightarrow> stuffing \<Rightarrow> (char list \<times> nat) option" where
  "move_beginning pb p s =
     (let n = p - pb in
      if n = 0 then Some (sBuffer s, pToEnd s)
      else if pToEnd s < n then None
      else do { buf \<leftarrow> memmove (pToEnd s - n) pb n (sBuffer s); Some (buf, pToEnd s - n) })"

text \<open>
  \<^verbatim>\<open>DotStuffBuffer\<close> on the block of \<^term>\<open>n\<close> bytes at \<^term>\<open>pb\<close>: the buffer, \<^verbatim>\<open>*ppbBuffer\<close>, \<^verbatim>\<open>*pdwSize\<close> and
  \<^verbatim>\<open>m_enumBWS\<close> afterwards, or \<^verbatim>\<open>E_INVALIDARG\<close> (\<^verbatim>\<open>Inl\<close>).
\<close>

definition DotStuffBuffer :: "char \<Rightarrow> BufferWrapSequence \<Rightarrow> nat \<Rightarrow> nat \<Rightarrow> char list
    \<Rightarrow> (unit + (char list \<times> nat \<times> nat \<times> BufferWrapSequence)) option" where
  "DotStuffBuffer prior bws pb n m_sBuffer =
     (if n = 0 then Some (Inl ())
      else do {
        s \<leftarrow> Stuff_loop pb (pb + n - 3)
               \<lparr>sBuffer = m_sBuffer, stuff_size = n, pFromStart = None, pFromEnd = pb + n,
                pToEnd = length m_sBuffer\<rparr>;
        buf \<leftarrow> (case pFromStart s of None \<Rightarrow> Some (sBuffer s) | Some p \<Rightarrow> poke (sBuffer s) p [NUL]);
        let s = s\<lparr>sBuffer := buf\<rparr>;
        d \<leftarrow> first_dot bws pb (sBuffer s);
        s \<leftarrow> (case d of None \<Rightarrow> Some s | Some p \<Rightarrow> Stuff_one p s);
        (buf, pb, n) \<leftarrow>
          (case pFromStart s of
             None \<Rightarrow> Some (sBuffer s, pb, n)
           | Some p \<Rightarrow> do { (buf, q) \<leftarrow> move_beginning pb p s; Some (buf, q, stuff_size s) });
        bws \<leftarrow> next_BWS prior buf pb n;
        Some (Inr (buf, pb, n, bws)) })"

section \<open>What it computes\<close>

text \<open>The reference: a dot at the start of a line, that is after CR LF, is doubled.\<close>

fun wrap_next :: "BufferWrapSequence \<Rightarrow> char \<Rightarrow> BufferWrapSequence" where
  "wrap_next st c = (if c = CR then BWS_CR else if st = BWS_CR \<and> c = LF then BWS_CRLF else NA)"

fun dot_stuff :: "BufferWrapSequence \<Rightarrow> string \<Rightarrow> string" where
  "dot_stuff st [] = []"
| "dot_stuff st (c # s) =
     (if st = BWS_CRLF \<and> c = DOT then [DOT, DOT] else [c]) @ dot_stuff (wrap_next st c) s"

definition wrap_after :: "BufferWrapSequence \<Rightarrow> string \<Rightarrow> BufferWrapSequence" where
  "wrap_after st s = fold (\<lambda>c st. wrap_next st c) s st"

lemma dot_stuff_append: "dot_stuff st (s @ t) = dot_stuff st s @ dot_stuff (wrap_after st s) t"
  by (induction s arbitrary: st) (auto simp: wrap_after_def)

text \<open>The positions of a block that want a dot, and what the block from a position on is sent as.\<close>

definition wants :: "BufferWrapSequence \<Rightarrow> string \<Rightarrow> nat \<Rightarrow> bool" where
  "wants st s j \<longleftrightarrow> j < length s \<and> s ! j = DOT \<and> wrap_after st (take j s) = BWS_CRLF"

definition stuffed :: "BufferWrapSequence \<Rightarrow> string \<Rightarrow> nat \<Rightarrow> string" where
  "stuffed st s i = dot_stuff (wrap_after st (take i s)) (drop i s)"

lemma wrap_after_snoc [simp]: "wrap_after st (s @ [c]) = wrap_next (wrap_after st s) c"
  by (simp add: wrap_after_def)

lemma wrap_after_Nil [simp]: "wrap_after st [] = st"
  by (simp add: wrap_after_def)

lemma wrap_after_take_Suc:
  "j < length s \<Longrightarrow> wrap_after st (take (Suc j) s) = wrap_next (wrap_after st (take j s)) (s ! j)"
  by (simp add: take_Suc_conv_app_nth)

lemma wants_0: "wants st s 0 \<longleftrightarrow> s \<noteq> [] \<and> st = BWS_CRLF \<and> s ! 0 = DOT"
  by (auto simp: wants_def)

lemma wants_1: "wants st s 1 \<longleftrightarrow> 1 < length s \<and> st = BWS_CR \<and> s ! 0 = LF \<and> s ! 1 = DOT"
proof (cases "1 < length s")
  case True
  then show ?thesis using wrap_after_take_Suc [of 0 s st] by (cases "s = []") (auto simp: wants_def)
qed (simp add: wants_def)

lemma wants_Suc_Suc:
  "wants st s (Suc (Suc j)) \<longleftrightarrow>
     Suc (Suc j) < length s \<and> s ! j = CR \<and> s ! Suc j = LF \<and> s ! Suc (Suc j) = DOT"
proof (cases "Suc (Suc j) < length s")
  case True
  then show ?thesis
    using wrap_after_take_Suc [of "Suc j" s st] wrap_after_take_Suc [of j s st] by (auto simp: wants_def)
qed (simp add: wants_def)

lemma wants_ge_2:
  "2 \<le> j \<Longrightarrow> wants st s j \<longleftrightarrow> j < length s \<and> s ! (j - 2) = CR \<and> s ! (j - 1) = LF \<and> s ! j = DOT"
  by (cases j; cases "j - 1") (auto simp: wants_Suc_Suc numeral_2_eq_2)

lemma wants_apart:
  assumes p: "wants st s p" and f: "wants st s f" and lt: "p < f" "2 \<le> f"
  shows "p + 3 \<le> f"
proof -
  have "s ! p = DOT" using p by (simp add: wants_def)
  moreover have "s ! (f - 2) = CR" "s ! (f - 1) = LF" using f lt(2) by (simp_all add: wants_ge_2)
  ultimately have "p \<noteq> f - 2" "p \<noteq> f - 1" by auto
  then show ?thesis using lt by linarith
qed

lemma stuffed_Cons:
  "j < length s \<Longrightarrow> stuffed st s j = (if wants st s j then [DOT, DOT] else [s ! j]) @ stuffed st s (Suc j)"
  by (auto simp: stuffed_def wants_def wrap_after_take_Suc Cons_nth_drop_Suc [symmetric])

lemma stuffed_end [simp]: "stuffed st s (length s) = []"
  by (simp add: stuffed_def)

lemma stuffed_0: "stuffed st s 0 = dot_stuff st s"
  by (simp add: stuffed_def)

lemma stuffed_skip:
  assumes "i \<le> k" "k \<le> length s" "\<forall>j. i \<le> j \<and> j < k \<longrightarrow> \<not> wants st s j"
  shows "stuffed st s i = take (k - i) (drop i s) @ stuffed st s k"
  using assms
proof (induction rule: inc_induct)
  case (step n)
  then have "take (k - n) (drop n s) = s ! n # take (k - Suc n) (drop (Suc n) s)"
    by (simp add: Cons_nth_drop_Suc [symmetric] take_Cons' )
  then show ?case using step by (simp add: stuffed_Cons)
qed simp

lemma stuffed_dot:
  assumes p: "wants st s p" and lt: "p < f" "f \<le> length s" and no: "\<forall>j. p < j \<and> j < f \<longrightarrow> \<not> wants st s j"
  shows "stuffed st s p = DOT # take (f - p) (drop p s) @ stuffed st s f"
proof -
  have d: "s ! p = DOT" using p by (simp add: wants_def)
  have "take (f - p) (drop p s) = DOT # take (f - Suc p) (drop (Suc p) s)"
    using lt d by (simp add: Cons_nth_drop_Suc [symmetric] take_Cons')
  moreover have "stuffed st s (Suc p) = take (f - Suc p) (drop (Suc p) s) @ stuffed st s f"
    using lt no by (intro stuffed_skip) auto
  ultimately show ?thesis using p lt by (simp add: stuffed_Cons)
qed

section \<open>The scan\<close>

text \<open>
  The state of the scan: the block is intact below \<^term>\<open>pFromEnd\<close>, what follows is stuffed at the
  end of the buffer, and the bytes added so far leave room between the two.
\<close>

definition scanned :: "BufferWrapSequence \<Rightarrow> string \<Rightarrow> stuffing \<Rightarrow> bool" where
  "scanned st s t \<longleftrightarrow>
     length (sBuffer t) = OPTIMAL_BUFFER_W_DOTSTUFFING_PAD \<and> pFromEnd t \<le> length s
     \<and> pToEnd t \<le> length (sBuffer t)
     \<and> take (pFromEnd t) (sBuffer t) = take (pFromEnd t) s
     \<and> drop (pToEnd t) (sBuffer t) = stuffed st s (pFromEnd t)
     \<and> stuff_size t = pFromEnd t + length (stuffed st s (pFromEnd t))
     \<and> 3 * (length (sBuffer t) - pToEnd t) \<le> 4 * (length s - pFromEnd t) + 2
     \<and> (case pFromStart t of
          None \<Rightarrow> pFromEnd t = length s \<and> pToEnd t = length (sBuffer t)
        | Some p \<Rightarrow> p = pFromEnd t \<and> wants st s p)"

lemma scanned_room:
  assumes "scanned st s t" "length s \<le> PRIVATE_OPTIMAL_BUFFER_SIZE"
  shows "pFromEnd t \<le> pToEnd t" and "3 \<le> pFromEnd t \<Longrightarrow> pFromEnd t < pToEnd t"
proof -
  have "3 * (87382 - pToEnd t) \<le> 4 * (length s - pFromEnd t) + 2" "pFromEnd t \<le> length s"
    using assms(1) by (auto simp: scanned_def)
  then show "pFromEnd t \<le> pToEnd t" and "3 \<le> pFromEnd t \<Longrightarrow> pFromEnd t < pToEnd t"
    using assms(2) by linarith+
qed

lemma Stuff_one_moves:
  fixes t :: stuffing and p :: nat
  defines "n \<equiv> pFromEnd t - p"
  assumes "p < pFromEnd t" "pFromEnd t < pToEnd t" "pToEnd t \<le> length (sBuffer t)"
  shows "\<exists>buf. Stuff_one p t = Some (t\<lparr>sBuffer := buf, stuff_size := stuff_size t + 1,
             pFromStart := Some p, pFromEnd := p, pToEnd := pToEnd t - n - 1\<rparr>)
    \<and> length buf = length (sBuffer t) \<and> take p buf = take p (sBuffer t)
    \<and> drop (pToEnd t - n - 1) buf = DOT # take n (drop p (sBuffer t)) @ drop (pToEnd t) (sBuffer t)"
proof -
  let ?e = "pToEnd t" and ?b = "sBuffer t"
  let ?buf = "take (?e - n - 1) ?b @ DOT # take n (drop p ?b) @ drop ?e ?b"
  have n: "\<not> (pFromEnd t < p \<or> ?e \<le> n)" "?e - n + n \<le> length ?b" "p + n \<le> length ?b" "Suc (?e - n - 1) = ?e - n"
    "p \<le> ?e - n - 1" "?e - n - 1 \<le> length ?b"
    "length (take (?e - n) ?b @ take n (drop p ?b) @ drop ?e ?b) = length ?b"
    using assms(2-4) by (auto simp: n_def)
  then have "Stuff_one p t = Some (t\<lparr>sBuffer := ?buf, stuff_size := stuff_size t + 1,
             pFromStart := Some p, pFromEnd := p, pToEnd := pToEnd t - n - 1\<rparr>)"
    by (simp add: Stuff_one_def memmove_def poke_def Let_def n_def [symmetric])
  moreover have "length (take (?e - n - 1) ?b) = ?e - n - 1" "length (take n (drop p ?b)) = n"
    using n(3,6) by simp_all
  then have "length ?buf = length ?b" "take p ?buf = take p ?b"
    "drop (?e - n - 1) ?buf = DOT # take n (drop p ?b) @ drop ?e ?b"
    using n(1-3,5) assms(3,4) by (simp_all add: min_absorb1 min_absorb2)
  ultimately show ?thesis by blast
qed

lemma Stuff_one_scanned:
  assumes t: "scanned st s t" and s: "length s \<le> PRIVATE_OPTIMAL_BUFFER_SIZE"
    and f: "2 \<le> pFromEnd t" "pFromEnd t < pToEnd t"
    and p: "wants st s p" "p < pFromEnd t" and no: "\<forall>j. p < j \<and> j < pFromEnd t \<longrightarrow> \<not> wants st s j"
  shows "\<exists>t'. Stuff_one p t = Some t' \<and> scanned st s t' \<and> pFromEnd t' = p \<and> pFromStart t' = Some p"
proof -
  let ?f = "pFromEnd t" and ?e = "pToEnd t" and ?b = "sBuffer t"
  let ?n = "?f - p"
  have len: "length ?b = OPTIMAL_BUFFER_W_DOTSTUFFING_PAD" "?f \<le> length s" "?e \<le> length ?b"
    and low: "take ?f ?b = take ?f s" and high: "drop ?e ?b = stuffed st s ?f"
    and size: "stuff_size t = ?f + length (stuffed st s ?f)"
    and room: "3 * (length ?b - ?e) \<le> 4 * (length s - ?f) + 2"
    using t by (auto simp: scanned_def)
  obtain buf where one: "Stuff_one p t = Some (t\<lparr>sBuffer := buf, stuff_size := stuff_size t + 1,
               pFromStart := Some p, pFromEnd := p, pToEnd := ?e - ?n - 1\<rparr>)"
    and buf: "length buf = length ?b" "take p buf = take p ?b"
      "drop (?e - ?n - 1) buf = DOT # take ?n (drop p ?b) @ drop ?e ?b"
    using Stuff_one_moves [OF p(2) f(2) len(3)] by blast
  have "take ?n (drop p ?b) = take ?n (drop p s)" "take p ?b = take p s"
    using low p(2) by (metis drop_take, metis take_take min.absorb1 less_imp_le)
  then have parts: "take p buf = take p s" "drop (?e - ?n - 1) buf = stuffed st s p"
    using buf high stuffed_dot [OF p len(2) no] by simp_all
  have "3 \<le> ?n \<or> (1 \<le> ?n \<and> ?f = length s \<and> ?e = length ?b)"
  proof (cases "pFromStart t")
    case (Some q)
    then show ?thesis using t wants_apart [OF p(1) _ p(2) f(1)] by (auto simp: scanned_def)
  qed (use t p(2) in \<open>auto simp: scanned_def\<close>)
  then have "3 * (length buf - (?e - ?n - 1)) \<le> 4 * (length s - p) + 2"
    using room f len p(2) buf(1) by linarith
  moreover have "stuff_size t + 1 = p + length (stuffed st s p)"
    using len p(2) size stuffed_dot [OF p len(2) no] by simp
  ultimately show ?thesis
    unfolding one scanned_def using parts len buf(1) p by simp
qed

lemma scanned_nth: "scanned st s t \<Longrightarrow> j < pFromEnd t \<Longrightarrow> sBuffer t ! j = s ! j"
  unfolding scanned_def by (metis nth_take)

lemma crlf_dot_at_wants:
  assumes "scanned st s t" "2 \<le> j" "j < pFromEnd t"
  shows "crlf_dot_at (sBuffer t) j = Some (wants st s j)"
proof -
  have "j < length (sBuffer t)" "j < length s" using assms by (auto simp: scanned_def dest!: arg_cong [of _ _ length])
  then show ?thesis using assms(2,3) scanned_nth [OF assms(1)] wants_ge_2 [OF assms(2), of st s]
    by (auto simp: crlf_dot_at_def)
qed

text \<open>
  A character that is none of CR, LF and the dot rules out the three positions from it on; the others
  leave one position to look at.
\<close>

lemma stride:
  assumes j: "p \<le> j" "j < p + 3" "2 \<le> p" and w: "wants st s j"
  shows "g_Matrix (s ! p) \<noteq> 0 \<and> j = p + (g_Matrix (s ! p) - 1)"
proof -
  have "s ! (j - 2) = CR" "s ! (j - 1) = LF" "s ! j = DOT"
    using w j(1,3) by (simp_all add: wants_ge_2)
  moreover have "j = p \<or> j = p + 1 \<or> j = p + 2" using j by linarith
  ultimately show ?thesis by (auto simp: g_Matrix_def)
qed

lemma Stuff_loop_scanned:
  assumes "scanned st s t" "length s \<le> PRIVATE_OPTIMAL_BUFFER_SIZE"
    and "p + 3 \<le> pFromEnd t" "\<forall>j. p + 3 \<le> j \<and> j < pFromEnd t \<longrightarrow> \<not> wants st s j"
  shows "\<exists>t'. Stuff_loop 0 p t = Some t' \<and> scanned st s t' \<and> 3 \<le> pFromEnd t'
    \<and> (\<forall>j. 5 \<le> j \<and> j < pFromEnd t' \<longrightarrow> \<not> wants st s j)"
  using assms
proof (induction p arbitrary: t rule: less_induct)
  case (less p)
  show ?case
  proof (cases "p \<le> 2")
    case True
    then show ?thesis using less.prems by (auto simp: Stuff_loop.simps [of 0 p])
  next
    case False
    let ?c = "g_Matrix (s ! p)"
    define q where "q = p + (?c - 1)"
    have c: "sBuffer t ! p = s ! p" and lt: "p < length (sBuffer t)" "pFromEnd t \<le> length s"
      using less.prems(1,3) scanned_nth [OF less.prems(1), of p]
      by (auto simp: scanned_def dest!: arg_cong [of _ _ length])
    have q: "p \<le> q" "q < p + 3" using g_Matrix_le [of "s ! p"] by (auto simp: q_def)
    have no: "\<not> wants st s j" if "q < j" "j < pFromEnd t" "?c \<noteq> 0" for j
      using that less.prems(4) stride [of p j st s] False q q_def by (cases "p + 3 \<le> j") auto
    show ?thesis
    proof (cases "?c = 0")
      case True
      have "\<not> wants st s j" if "p \<le> j" "j < pFromEnd t" for j
        using that less.prems(4) stride [of p j st s] False True by (cases "p + 3 \<le> j") auto
      then show ?thesis
        using less.IH [of "p - 3" t] less.prems(1-3) False True c lt
        by (simp add: Stuff_loop.simps [of 0 p])
    next
      case nz: False
      have at: "crlf_dot_at (sBuffer t) q = Some (wants st s q)"
        using less.prems(3) False q by (intro crlf_dot_at_wants less.prems(1)) auto
      have "\<exists>t'. (if wants st s q then Stuff_one q t else Some t) = Some t' \<and> scanned st s t'
        \<and> q \<le> pFromEnd t' \<and> (\<forall>j. q \<le> j \<and> j < pFromEnd t' \<longrightarrow> \<not> wants st s j)"
      proof (cases "wants st s q")
        case True
        then show ?thesis
          using Stuff_one_scanned [OF less.prems(1,2) _ _ True] scanned_room(2) [OF less.prems(1,2)]
            less.prems(3) False q no nz by fastforce
      next
        case wf: False
        then have "\<forall>j. q \<le> j \<and> j < pFromEnd t \<longrightarrow> \<not> wants st s j" using no nz by (metis le_neq_implies_less)
        then show ?thesis using wf less.prems(1,3) q by auto
      qed
      then obtain t' where t': "(if wants st s q then Stuff_one q t else Some t) = Some t'" "scanned st s t'"
        "q \<le> pFromEnd t'" "\<forall>j. q \<le> j \<and> j < pFromEnd t' \<longrightarrow> \<not> wants st s j" by blast
      moreover have "Stuff_loop 0 p t = do { t \<leftarrow> (if wants st s q then Stuff_one q t else Some t); Stuff_loop 0 (q - 3) t }"
        using at nz c lt False by (subst Stuff_loop.simps) (simp add: q_def Let_def)
      ultimately show ?thesis using less.IH [of "q - 3" t'] less.prems(2) False q by simp
    qed
  qed
qed

section \<open>The whole block\<close>

lemma first_dot_wants:
  assumes s: "3 \<le> length s" and b: "take 3 buf = take 3 s" "3 \<le> length buf"
  shows "first_dot st 0 buf = Some (if wants st s 0 then Some 0 else if wants st s 1 then Some 1
           else if wants st s 2 then Some 2 else None)"
proof -
  have cons3: "\<exists>a b c u. l = a # b # c # u" if "3 \<le> length l" for l :: string
    using that by (cases l; cases "tl l"; cases "tl (tl l)") auto
  obtain a b c u where "s = a # b # c # u" using cons3 [OF s] by blast
  moreover obtain a' b' c' v where "buf = a' # b' # c' # v" using cons3 [OF b(2)] by blast
  ultimately have e: "s = a # b # c # u" "buf = a # b # c # v" using b(1) by simp_all
  have w: "wants st s 0 \<longleftrightarrow> st = BWS_CRLF \<and> a = DOT" "wants st s 1 \<longleftrightarrow> st = BWS_CR \<and> a = LF \<and> b = DOT"
    "wants st s 2 \<longleftrightarrow> a = CR \<and> b = LF \<and> c = DOT"
    using wants_Suc_Suc [of st s 0] by (simp_all add: wants_0 wants_1 numeral_2_eq_2 e del: One_nat_def)
  have p: "peek buf 0 = Some a" "peek buf 1 = Some b" "peek buf (Suc 0) = Some b" "peek buf 2 = Some c"
    "peek buf (Suc (Suc 0)) = Some c"
    by (simp_all add: e peek_def)
  show ?thesis
    by (cases "a = CR"; cases "a = LF"; cases "a = DOT")
      (simp_all add: first_dot_def crlf_dot_at_def g_Matrix_def w p del: One_nat_def)
qed

lemma last_dot_stuff:
  assumes "2 \<le> length s"
  shows "2 \<le> length (dot_stuff st s)" and "dot_stuff st s ! (length (dot_stuff st s) - 1) = s ! (length s - 1)"
    and "s ! (length s - 1) \<noteq> DOT \<Longrightarrow> dot_stuff st s ! (length (dot_stuff st s) - 2) = s ! (length s - 2)"
proof -
  obtain v b where v: "s = v @ [b]" using assms by (cases s rule: rev_cases) auto
  obtain u a where "v = u @ [a]" using assms v by (cases v rule: rev_cases) auto
  then have s: "s = u @ [a, b]" using v by simp
  show "2 \<le> length (dot_stuff st s)" "dot_stuff st s ! (length (dot_stuff st s) - 1) = s ! (length s - 1)"
    "s ! (length s - 1) \<noteq> DOT \<Longrightarrow> dot_stuff st s ! (length (dot_stuff st s) - 2) = s ! (length s - 2)"
    by (auto simp: s dot_stuff_append nth_append)
qed

lemma wrap_after_last_two:
  assumes "2 \<le> length s"
  shows "wrap_after st s = (if s ! (length s - 1) = CR then BWS_CR
    else if s ! (length s - 2) = CR \<and> s ! (length s - 1) = LF then BWS_CRLF else NA)"
proof -
  have "wrap_after st (take (Suc (length s - 1)) s) = wrap_next (wrap_next (wrap_after st (take (length s - 2) s))
     (s ! (length s - 2))) (s ! (length s - 1))"
    using assms wrap_after_take_Suc [of "length s - 1" s st] wrap_after_take_Suc [of "length s - 2" s st]
    by (simp add: Suc_diff_Suc numeral_2_eq_2)
  then show ?thesis using assms by auto
qed

lemma next_BWS_wrap:
  assumes "2 \<le> length s" and "q + length (dot_stuff st s) \<le> length buf"
    and "take (length (dot_stuff st s)) (drop q buf) = dot_stuff st s"
  shows "next_BWS prior buf q (length (dot_stuff st s)) = Some (wrap_after st s)"
proof -
  let ?o = "dot_stuff st s" and ?n = "length (dot_stuff st s)"
  have "buf ! (q + j) = ?o ! j" if "j < ?n" for j
    using that assms(2,3) by (metis nth_take nth_drop add_leD1)
  from this [of "?n - 1"] this [of "?n - 2"] have
    "buf ! (q + ?n - 1) = s ! (length s - 1)"
    "s ! (length s - 1) \<noteq> DOT \<Longrightarrow> buf ! (q + ?n - 2) = s ! (length s - 2)"
    using last_dot_stuff [OF assms(1), of st] by (simp_all add: Nat.add_diff_assoc)
  moreover have "peek buf (q + ?n - 1) = Some (buf ! (q + ?n - 1))" "peek buf (q + ?n - 2) = Some (buf ! (q + ?n - 2))"
    using last_dot_stuff(1) [OF assms(1), of st] assms(2) by (simp_all del: One_nat_def)
  ultimately show ?thesis
    using last_dot_stuff(1) [OF assms(1), of st] wrap_after_last_two [OF assms(1), of st]
    by (auto simp: next_BWS_def simp del: One_nat_def)
qed

lemma reset_dot_scanned:
  assumes t: "scanned st s t" and s: "length s \<le> PRIVATE_OPTIMAL_BUFFER_SIZE" and f: "3 \<le> pFromEnd t"
  shows "\<exists>buf. (case pFromStart t of None \<Rightarrow> Some (sBuffer t) | Some p \<Rightarrow> poke (sBuffer t) p [NUL]) = Some buf
    \<and> scanned st s (t\<lparr>sBuffer := buf\<rparr>)"
proof (cases "pFromStart t")
  case None
  then show ?thesis using t by simp
next
  case (Some p)
  let ?buf = "take p (sBuffer t) @ NUL # drop (Suc p) (sBuffer t)"
  have p: "p = pFromEnd t" "p < pToEnd t" "pToEnd t \<le> length (sBuffer t)"
    using t Some scanned_room(2) [OF t s f] by (auto simp: scanned_def)
  then have "poke (sBuffer t) p [NUL] = Some ?buf" "drop (pToEnd t) ?buf = drop (pToEnd t) (sBuffer t)"
    "take p ?buf = take p (sBuffer t)" "length ?buf = length (sBuffer t)"
    by (auto simp: poke_def drop_Cons')
  then show ?thesis using t Some p by (auto simp: scanned_def)
qed

text \<open>After the first line of the block has its dot, nothing below \<^term>\<open>pFromEnd\<close> wants one.\<close>

lemma first_dot_scanned:
  assumes t: "scanned st s t" and s: "length s \<le> PRIVATE_OPTIMAL_BUFFER_SIZE" and f: "3 \<le> pFromEnd t"
    and no: "\<forall>j. 3 \<le> j \<and> j < pFromEnd t \<longrightarrow> \<not> wants st s j"
  shows "\<exists>t'. do { d \<leftarrow> first_dot st 0 (sBuffer t); (case d of None \<Rightarrow> Some t | Some p \<Rightarrow> Stuff_one p t) } = Some t'
    \<and> scanned st s t' \<and> (\<forall>j < pFromEnd t'. \<not> wants st s j)"
proof -
  have len: "3 \<le> length s" "3 \<le> length (sBuffer t)" "take 3 (sBuffer t) = take 3 s"
  proof -
    have "take (pFromEnd t) (sBuffer t) = take (pFromEnd t) s" "pFromEnd t \<le> length s"
      using t by (auto simp: scanned_def)
    moreover from this have "length (take (pFromEnd t) (sBuffer t)) = pFromEnd t" by simp
    moreover have "take 3 l = take 3 (take (pFromEnd t) l)" for l :: string using f by (simp add: min_absorb1)
    ultimately show "3 \<le> length s" "3 \<le> length (sBuffer t)" "take 3 (sBuffer t) = take 3 s"
      using f by (simp, metis length_take min.bounded_iff order_refl, metis)
  qed
  have one: "\<exists>t'. Stuff_one p t = Some t' \<and> scanned st s t' \<and> pFromEnd t' = p"
    if "wants st s p" "p < 3" "\<forall>j. p < j \<and> j < 3 \<longrightarrow> \<not> wants st s j" for p
  proof -
    have "2 \<le> pFromEnd t" "p < pFromEnd t" using f that(2) by linarith+
    moreover have "\<forall>j. p < j \<and> j < pFromEnd t \<longrightarrow> \<not> wants st s j" using that(3) no by (metis not_less)
    ultimately show ?thesis using Stuff_one_scanned [OF t s _ scanned_room(2) [OF t s f] that(1)] by blast
  qed
  have three: "j = 0 \<or> j = 1 \<or> j = 2" if "j < 3" for j :: nat using that by linarith
  have w: "wants st s 0 \<Longrightarrow> \<not> wants st s 1 \<and> \<not> wants st s 2" "wants st s 1 \<Longrightarrow> \<not> wants st s 0 \<and> \<not> wants st s 2"
    "wants st s 2 \<Longrightarrow> \<not> wants st s 0 \<and> \<not> wants st s 1"
    using wants_0 [of st s] wants_1 [of st s] wants_ge_2 [of 2 st s] by auto
  consider p where "wants st s p" "p < 3" | "\<forall>j < 3. \<not> wants st s j" by blast
  then show ?thesis
  proof cases
    case 1
    then have "\<forall>j < 3. j \<noteq> p \<longrightarrow> \<not> wants st s j" using three w by metis
    moreover have "first_dot st 0 (sBuffer t) = Some (Some p)"
    proof -
      consider "p = 0" | "p = 1" | "p = 2" using three [OF 1(2)] by blast
      then show ?thesis
      proof cases
        case 1
        then show ?thesis using first_dot_wants [OF len(1,3,2), of st] \<open>wants st s p\<close> by simp
      next
        case 2
        then show ?thesis using first_dot_wants [OF len(1,3,2), of st] \<open>wants st s p\<close> w(2) by simp
      next
        case 3
        then show ?thesis using first_dot_wants [OF len(1,3,2), of st] \<open>wants st s p\<close> w(3) by simp
      qed
    qed
    ultimately show ?thesis using one [OF 1] 1(2) by fastforce
  next
    case 2
    then have "first_dot st 0 (sBuffer t) = Some None" using first_dot_wants [OF len(1,3,2), of st] by simp
    moreover have "\<forall>j < pFromEnd t. \<not> wants st s j" using no 2 by (metis not_less)
    ultimately show ?thesis using t by simp
  qed
qed

lemma move_beginning_scanned:
  assumes t: "scanned st s t" and s: "length s \<le> PRIVATE_OPTIMAL_BUFFER_SIZE"
    and no: "\<forall>j < pFromEnd t. \<not> wants st s j" and N: "length (s @ rest) = OPTIMAL_BUFFER_W_DOTSTUFFING_PAD"
  shows "\<exists>buf q. (case pFromStart t of None \<Rightarrow> Some (sBuffer t, 0, length s)
       | Some p \<Rightarrow> do { (buf, q) \<leftarrow> move_beginning 0 p t; Some (buf, q, stuff_size t) })
      = Some (buf, q, length (dot_stuff st s))
    \<and> length buf = OPTIMAL_BUFFER_W_DOTSTUFFING_PAD \<and> q + length (dot_stuff st s) \<le> length buf
    \<and> take (length (dot_stuff st s)) (drop q buf) = dot_stuff st s"
proof -
  let ?f = "pFromEnd t" and ?e = "pToEnd t" and ?b = "sBuffer t"
  have len: "length ?b = OPTIMAL_BUFFER_W_DOTSTUFFING_PAD" "?f \<le> length s" "?e \<le> length ?b"
    and low: "take ?f ?b = take ?f s" and high: "drop ?e ?b = stuffed st s ?f"
    and size: "stuff_size t = ?f + length (stuffed st s ?f)"
    using t by (auto simp: scanned_def)
  have out: "dot_stuff st s = take ?f s @ stuffed st s ?f"
    using stuffed_skip [of 0 ?f s st] no len(2) by (simp add: stuffed_0)
  show ?thesis
  proof (cases "pFromStart t")
    case None
    then have "?f = length s" using t by (auto simp: scanned_def)
    then show ?thesis using None out low len N s by simp
  next
    case (Some p)
    then have p: "p = ?f" using t by (auto simp: scanned_def)
    have fe: "?f \<le> ?e" using scanned_room(1) [OF t s] .
    let ?buf = "take (?e - ?f) ?b @ take ?f ?b @ drop ?e ?b"
    have "move_beginning 0 p t = Some (if ?f = 0 then (?b, ?e) else (?buf, ?e - ?f))"
      using fe len by (simp add: move_beginning_def memmove_def Let_def p)
    moreover have "drop (?e - ?f) ?buf = dot_stuff st s" "length ?buf = length ?b"
      using fe len by (simp_all add: out low high [symmetric])
    moreover have "drop ?e ?b = dot_stuff st s" if "?f = 0" using that out high by simp
    ultimately show ?thesis
      using Some fe len size out arg_cong [OF high, of length] by (cases "?f = 0") (auto simp del: drop_append)
  qed
qed

text \<open>
  C31. \<^verbatim>\<open>DotStuffBuffer\<close> on a block of at least three bytes, in which no line that starts with a dot has
  that dot at the offset 3 or 4: the backward scan in steps of three, moving the text to the end of the
  buffer, is the dot stuffing of the block after the previous ones.  It stays inside the buffer,
  however many dots the block has, and hands the right state to the next block.
\<close>

theorem DotStuffBuffer_spec:
  assumes s: "3 \<le> length s" "length s \<le> PRIVATE_OPTIMAL_BUFFER_SIZE"
    and N: "length (s @ rest) = OPTIMAL_BUFFER_W_DOTSTUFFING_PAD"
    and no: "\<not> wants st s 3" "\<not> wants st s 4"
  shows "\<exists>buf q. DotStuffBuffer prior st 0 (length s) (s @ rest)
      = Some (Inr (buf, q, length (dot_stuff st s), wrap_after st s))
    \<and> length buf = OPTIMAL_BUFFER_W_DOTSTUFFING_PAD
    \<and> q + length (dot_stuff st s) \<le> length buf
    \<and> take (length (dot_stuff st s)) (drop q buf) = dot_stuff st s"
proof -
  let ?t = "\<lparr>sBuffer = s @ rest, stuff_size = length s, pFromStart = None, pFromEnd = length s,
             pToEnd = length (s @ rest)\<rparr>"
  have "scanned st s ?t" using N by (simp add: scanned_def)
  then have "\<exists>t. Stuff_loop 0 (length s - 3) ?t = Some t \<and> scanned st s t \<and> 3 \<le> pFromEnd t
    \<and> (\<forall>j. 5 \<le> j \<and> j < pFromEnd t \<longrightarrow> \<not> wants st s j)"
    by (rule Stuff_loop_scanned [OF _ s(2)]) (use s(1) in auto)
  then obtain t where t: "Stuff_loop 0 (length s - 3) ?t = Some t" "scanned st s t" "3 \<le> pFromEnd t"
    "\<forall>j. 5 \<le> j \<and> j < pFromEnd t \<longrightarrow> \<not> wants st s j" by blast
  have five: "j = 3 \<or> j = 4 \<or> 5 \<le> j" if "3 \<le> j" for j :: nat using that by linarith
  have no3: "\<forall>j. 3 \<le> j \<and> j < pFromEnd t \<longrightarrow> \<not> wants st s j" using t(4) no five by metis
  obtain buf where b: "(case pFromStart t of None \<Rightarrow> Some (sBuffer t) | Some p \<Rightarrow> poke (sBuffer t) p [NUL]) = Some buf"
    "scanned st s (t\<lparr>sBuffer := buf\<rparr>)" using reset_dot_scanned [OF t(2) s(2) t(3)] by auto
  obtain u where u: "do { d \<leftarrow> first_dot st 0 buf; (case d of None \<Rightarrow> Some (t\<lparr>sBuffer := buf\<rparr>) | Some p \<Rightarrow> Stuff_one p (t\<lparr>sBuffer := buf\<rparr>)) } = Some u"
    "scanned st s u" "\<forall>j < pFromEnd u. \<not> wants st s j"
    using first_dot_scanned [OF b(2) s(2)] t(3) no3 by auto
  obtain buf' q where q: "(case pFromStart u of None \<Rightarrow> Some (sBuffer u, 0, length s)
       | Some p \<Rightarrow> do { (buf, q) \<leftarrow> move_beginning 0 p u; Some (buf, q, stuff_size u) })
      = Some (buf', q, length (dot_stuff st s))" "length buf' = OPTIMAL_BUFFER_W_DOTSTUFFING_PAD"
    "q + length (dot_stuff st s) \<le> length buf'" "take (length (dot_stuff st s)) (drop q buf') = dot_stuff st s"
    using move_beginning_scanned [OF u(2) s(2) u(3) N] by blast
  have "next_BWS prior buf' q (length (dot_stuff st s)) = Some (wrap_after st s)"
    using next_BWS_wrap s(1) q(3,4) by simp
  then have "DotStuffBuffer prior st 0 (length s) (s @ rest)
      = Some (Inr (buf', q, length (dot_stuff st s), wrap_after st s))"
    using s(1) t(1) b(1) u(1) q(1) by (cases "s = []") (auto simp: DotStuffBuffer_def bind_eq_Some_conv)
  then show ?thesis using q by blast
qed

definition demo_block :: string where
  "demo_block = ''To: u'' @ [CR, LF, DOT, CR, LF, DOT, CHR ''x'']"

theorem DotStuffBuffer_spec_witness:
  "\<exists>buf q. DotStuffBuffer NUL NA 0 (length demo_block) (demo_block @ replicate 87370 NUL)
      = Some (Inr (buf, q, 14, NA))
    \<and> take 14 (drop q buf) = ''To: u'' @ [CR, LF, DOT, DOT, CR, LF, DOT, DOT, CHR ''x'']"
proof -
  have "length demo_block = 12" "\<not> wants NA demo_block 3" "\<not> wants NA demo_block 4"
    by (simp_all add: demo_block_def wants_ge_2)
  moreover have w: "dot_stuff NA demo_block = ''To: u'' @ [CR, LF, DOT, DOT, CR, LF, DOT, DOT, CHR ''x'']"
    "wrap_after NA demo_block = NA" "length (dot_stuff NA demo_block) = 14"
    by (simp_all add: demo_block_def wrap_after_def)
  ultimately have "\<exists>buf q. DotStuffBuffer NUL NA 0 (length demo_block) (demo_block @ replicate 87370 NUL)
      = Some (Inr (buf, q, length (dot_stuff NA demo_block), wrap_after NA demo_block))
    \<and> take (length (dot_stuff NA demo_block)) (drop q buf) = dot_stuff NA demo_block"
    using DotStuffBuffer_spec [of demo_block "replicate 87370 NUL" NA NUL] by fastforce
  then show ?thesis unfolding w(2,3) unfolding w(1) .
qed

text \<open>
  The two offsets that the scan may step over: the line that starts with a dot in this block keeps
  it single, and a reader takes the dot away.
\<close>

lemma dot_missed:
  "DotStuffBuffer prior NA 0 8 (''x'' @ [CR, LF, DOT] @ ''abcd'' @ rest)
     = Some (Inr (''x'' @ [CR, LF, DOT] @ ''abcd'' @ rest, 0, 8, NA))"
  "dot_stuff NA (''x'' @ [CR, LF, DOT] @ ''abcd'') = ''x'' @ [CR, LF, DOT, DOT] @ ''abcd''"
  by (simp_all add: DotStuffBuffer_def Stuff_loop.simps [of 0 5] Stuff_loop.simps [of 0 2] peek_def g_Matrix_def
      first_dot_def next_BWS_def nth_Cons')

text \<open>
  A block of one byte: the state that says a line may start is lost after LF, and the bytes of the
  previous block behind it are taken for its continuation.
\<close>

lemma one_byte_block:
  "DotStuffBuffer NUL BWS_CR 0 1 (LF # NUL # NUL # rest) = Some (Inr (LF # NUL # NUL # rest, 0, 1, NA))"
  "DotStuffBuffer prior NA 0 1 (CR # LF # DOT # rest) = None"
  by (simp_all add: DotStuffBuffer_def Stuff_loop.simps [of 0 0] peek_def g_Matrix_def first_dot_def next_BWS_def
      crlf_dot_at_def Stuff_one_def)

section \<open>What a reader gets back\<close>

text \<open>
  A reader of the message looks for the line of one dot that ends it, and takes a leading dot off
  every line.
\<close>

fun find_end :: "string \<Rightarrow> nat option" where
  "find_end s = (if take 5 s = [CR, LF, DOT, CR, LF] then Some 0
     else if s = [] then None else map_option Suc (find_end (tl s)))"

declare find_end.simps [simp del]

fun unstuff :: "BufferWrapSequence \<Rightarrow> string \<Rightarrow> string" where
  "unstuff st [] = []"
| "unstuff st (c # s) = (if st = BWS_CRLF \<and> c = DOT then unstuff NA s else c # unstuff (wrap_next st c) s)"

lemma unstuff_dot_stuff: "unstuff st (dot_stuff st s) = s"
  by (induction s arbitrary: st) auto

lemma unstuff_first:
  "s = [] \<or> hd s \<noteq> DOT \<Longrightarrow> unstuff BWS_CRLF (dot_stuff NA s) = s"
  using unstuff_dot_stuff by (cases s) auto

abbreviation (input) END :: string where "END \<equiv> [CR, LF, DOT, CR, LF]"

lemma find_end_Cons:
  "take 5 (c # s) \<noteq> END \<Longrightarrow> find_end (c # s) = map_option Suc (find_end s)"
  by (subst find_end.simps) (simp only: if_False list.distinct list.sel)

lemma find_end_dot_stuff: "find_end (dot_stuff st s @ END @ rest) = Some (length (dot_stuff st s))"
proof (induction s arbitrary: st)
  case Nil
  show ?case by (subst find_end.simps) simp
next
  case (Cons c s)
  let ?t = "dot_stuff (wrap_next st c) s @ END @ rest"
  have no: "take 5 (c # ?t) \<noteq> END"
  proof (cases "c = CR")
    case True
    show ?thesis
    proof (cases s)
      case s: (Cons d s')
      then show ?thesis using True by (cases "d = LF"; cases s') auto
    qed (simp add: True)
  qed simp
  have IH: "find_end (c # ?t) = Some (Suc (length (dot_stuff (wrap_next st c) s)))"
    using find_end_Cons [OF no] Cons.IH by simp
  show ?case
  proof (cases "st = BWS_CRLF \<and> c = DOT")
    case True
    then show ?thesis using IH find_end_Cons [of DOT "DOT # ?t"] by simp
  next
    case False
    then show ?thesis using IH by auto
  qed
qed

end
