(* ===== verification/Token_Privileges.thy ===== *)
theory Token_Privileges
  imports Win32_Api
begin

text \<open>
  The privileges of the delivery sink, \<^verbatim>\<open>CAdjustTokenPrivileges\<close> of
  \<^verbatim>\<open>pop3/smtp/storedriver/adjusttokenprivileges.cpp\<close>.  The token calls of Windows are a
  parameter, the record \<^verbatim>\<open>token_api\<close> below.  A call that fails leaves its reason to \<^verbatim>\<open>GetLastError\<close>; an output argument that
  the code reads only after success is part of the result.
\<close>

section \<open>The code\<close>

definition ERROR_NO_TOKEN :: DWORD where "ERROR_NO_TOKEN = 1008"
definition SE_PRIVILEGE_ENABLED :: DWORD where "SE_PRIVILEGE_ENABLED = 2"
definition SE_RESTORE_NAME :: wstring where "SE_RESTORE_NAME = wide ''SeRestorePrivilege''"

text \<open>
  \<^verbatim>\<open>SetThreadToken\<close> gets no token for a \<^verbatim>\<open>NULL\<close> handle.  \<^verbatim>\<open>AdjustTokenPrivileges\<close> gives the previous
  attributes of the privilege when it returns \<^verbatim>\<open>TRUE\<close>.
\<close>

record 'w token_api =
  LookupPrivilegeValue :: "'w \<Rightarrow> wstring \<Rightarrow> int option \<times> 'w"
  OpenThreadToken :: "'w \<Rightarrow> HANDLE option \<times> 'w"
  OpenProcessToken :: "'w \<Rightarrow> HANDLE option \<times> 'w"
  DuplicateToken :: "'w \<Rightarrow> HANDLE \<Rightarrow> HANDLE option \<times> 'w"
  ImpersonateSelf :: "'w \<Rightarrow> bool \<times> 'w"
  RevertToSelf :: "'w \<Rightarrow> 'w"
  SetThreadToken :: "'w \<Rightarrow> HANDLE option \<Rightarrow> bool \<times> 'w"
  AdjustTokenPrivileges :: "'w \<Rightarrow> HANDLE \<Rightarrow> int \<Rightarrow> DWORD \<Rightarrow> DWORD option \<times> 'w"

record CAdjustTokenPrivileges =
  m_dwAttributesPrev :: DWORD
  m_bImpersonation :: bool
  m_luid :: int
  m_hToken :: HANDLE
  m_hTokenDuplicate :: HANDLE

definition new_CAdjustTokenPrivileges :: "int \<Rightarrow> CAdjustTokenPrivileges" where
  "new_CAdjustTokenPrivileges luid = \<lparr>m_dwAttributesPrev = 0, m_bImpersonation = False, m_luid = luid,
     m_hToken = INVALID_HANDLE_VALUE, m_hTokenDuplicate = INVALID_HANDLE_VALUE\<rparr>"

definition delete_CAdjustTokenPrivileges :: "'w win32 \<Rightarrow> 'w token_api \<Rightarrow> CAdjustTokenPrivileges \<times> 'w \<Rightarrow> 'w" where
  "delete_CAdjustTokenPrivileges api tok s = (case s of (p, w) \<Rightarrow>
     let w = (if m_bImpersonation p then RevertToSelf tok w
              else if m_hToken p \<noteq> INVALID_HANDLE_VALUE then
                (let dwRC = GetLastError api w;
                     w = snd (AdjustTokenPrivileges tok w (m_hToken p) (m_luid p) (m_dwAttributesPrev p));
                     w = snd (CloseHandle api w (m_hToken p))
                 in if dwRC \<noteq> ERROR_SUCCESS then SetLastError api dwRC w else w)
              else w)
     in if m_hTokenDuplicate p \<noteq> INVALID_HANDLE_VALUE
        then snd (CloseHandle api w (m_hTokenDuplicate p)) else w)"

text \<open>The token to work on: that of the thread, or a copy of the process token made for the thread.\<close>

definition open_own_token :: "'w win32 \<Rightarrow> 'w token_api \<Rightarrow> CAdjustTokenPrivileges \<times> 'w
    \<Rightarrow> DWORD \<times> CAdjustTokenPrivileges \<times> 'w" where
  "open_own_token api tok s = (case s of (p, w) \<Rightarrow>
     case OpenThreadToken tok w of
       (Some h, w) \<Rightarrow> (ERROR_SUCCESS, p\<lparr>m_hToken := h\<rparr>, w)
     | (None, w) \<Rightarrow>
         if GetLastError api w \<noteq> ERROR_NO_TOKEN then (GetLastError api w, p, w)
         else (case ImpersonateSelf tok w of (ok, w) \<Rightarrow>
           if \<not> ok then (GetLastError api w, p, w)
           else (case OpenThreadToken tok w of
                   (Some h, w) \<Rightarrow> (ERROR_SUCCESS, p\<lparr>m_hToken := h, m_bImpersonation := True\<rparr>, w)
                 | (None, w) \<Rightarrow> (GetLastError api w, p, RevertToSelf tok w))))"

definition AdjustPrivileges :: "'w win32 \<Rightarrow> 'w token_api \<Rightarrow> wstring \<Rightarrow> DWORD \<Rightarrow> CAdjustTokenPrivileges \<times> 'w
    \<Rightarrow> DWORD \<times> CAdjustTokenPrivileges \<times> 'w" where
  "AdjustPrivileges api tok name dwAttributes s = (case s of (p, w) \<Rightarrow>
     let (dwRC, p, w) =
           (case LookupPrivilegeValue tok w name of
              (None, w) \<Rightarrow> (GetLastError api w, p, w)
            | (Some luid, w) \<Rightarrow> (ERROR_SUCCESS, p\<lparr>m_luid := luid\<rparr>, w));
         (dwRC, p, w) = (if dwRC = ERROR_SUCCESS then open_own_token api tok (p, w) else (dwRC, p, w));
         (dwRC, p, w) =
           (if dwRC = ERROR_SUCCESS then
              (case AdjustTokenPrivileges tok w (m_hToken p) (m_luid p) dwAttributes of
                 (old, w) \<Rightarrow> (GetLastError api w,
                   (case old of None \<Rightarrow> p | Some a \<Rightarrow> p\<lparr>m_dwAttributesPrev := a\<rparr>), w))
            else (dwRC, p, w))
     in if dwRC \<noteq> ERROR_SUCCESS
        then (dwRC, p\<lparr>m_hToken := INVALID_HANDLE_VALUE\<rparr>, snd (CloseHandle api w (m_hToken p)))
        else (dwRC, p, w))"

text \<open>
  \<^verbatim>\<open>DuplicateProcessToken\<close> in its four parts; the arguments for the privilege are not used, the code
  names \<^verbatim>\<open>SE_RESTORE_NAME\<close> itself.
\<close>

definition duplicate_token :: "'w win32 \<Rightarrow> 'w token_api \<Rightarrow> CAdjustTokenPrivileges \<times> 'w
    \<Rightarrow> DWORD \<times> CAdjustTokenPrivileges \<times> 'w" where
  "duplicate_token api tok s = (case s of (p, w) \<Rightarrow>
     case OpenProcessToken tok w of
       (None, w) \<Rightarrow> (GetLastError api w, p, w)
     | (Some h, w) \<Rightarrow>
         (case DuplicateToken tok w h of
            (None, w) \<Rightarrow> (GetLastError api w, p, snd (CloseHandle api w h))
          | (Some d, w) \<Rightarrow> (ERROR_SUCCESS, p\<lparr>m_hTokenDuplicate := d\<rparr>, snd (CloseHandle api w h))))"

definition own_thread_token :: "'w win32 \<Rightarrow> 'w token_api \<Rightarrow> 'w \<Rightarrow> (DWORD \<times> HANDLE) \<times> 'w" where
  "own_thread_token api tok w =
     (case OpenThreadToken tok w of
        (Some h, w) \<Rightarrow> ((ERROR_SUCCESS, h), w)
      | (None, w) \<Rightarrow> ((if GetLastError api w = ERROR_NO_TOKEN then ERROR_SUCCESS else GetLastError api w,
                       INVALID_HANDLE_VALUE), w))"

definition enable_duplicate :: "'w win32 \<Rightarrow> 'w token_api \<Rightarrow> CAdjustTokenPrivileges \<times> 'w
    \<Rightarrow> DWORD \<times> CAdjustTokenPrivileges \<times> 'w" where
  "enable_duplicate api tok s = (case s of (p, w) \<Rightarrow>
     case SetThreadToken tok w (Some (m_hTokenDuplicate p)) of
       (False, w) \<Rightarrow> (GetLastError api w, p, w)
     | (True, w) \<Rightarrow>
         (case AdjustPrivileges api tok SE_RESTORE_NAME SE_PRIVILEGE_ENABLED (p, w) of (dwRC, p, w) \<Rightarrow>
          case SetThreadToken tok w None of (ok, w) \<Rightarrow>
            (if \<not> ok \<and> dwRC = ERROR_SUCCESS then GetLastError api w else dwRC,
             p\<lparr>m_hToken := INVALID_HANDLE_VALUE\<rparr>, w)))"

definition DuplicateProcessToken :: "'w win32 \<Rightarrow> 'w token_api \<Rightarrow> CAdjustTokenPrivileges \<times> 'w
    \<Rightarrow> DWORD \<times> CAdjustTokenPrivileges \<times> 'w" where
  "DuplicateProcessToken api tok s =
     (let (dwRC, p, w) = duplicate_token api tok s;
          ((dwRC, hTokenThread), w) =
            (if dwRC = ERROR_SUCCESS then own_thread_token api tok w else ((dwRC, INVALID_HANDLE_VALUE), w));
          (dwRC, p, w) = (if dwRC = ERROR_SUCCESS then enable_duplicate api tok (p, w) else (dwRC, p, w))
      in if hTokenThread \<noteq> INVALID_HANDLE_VALUE then
           (case SetThreadToken tok w (Some hTokenThread) of (ok, w) \<Rightarrow>
              (if ok then dwRC else GetLastError api w, p, snd (CloseHandle api w hTokenThread)))
         else (dwRC, p, w))"

definition ResetToken :: "'w win32 \<Rightarrow> 'w token_api \<Rightarrow> CAdjustTokenPrivileges \<times> 'w \<Rightarrow> DWORD \<times> 'w" where
  "ResetToken api tok s = (case s of (p, w) \<Rightarrow>
     if m_hTokenDuplicate p \<noteq> INVALID_HANDLE_VALUE \<and> m_hToken p = INVALID_HANDLE_VALUE
     then (case SetThreadToken tok w None of (ok, w) \<Rightarrow> (if ok then ERROR_SUCCESS else GetLastError api w, w))
     else (ERROR_NO_TOKEN, w))"

definition SetToken :: "'w win32 \<Rightarrow> 'w token_api \<Rightarrow> CAdjustTokenPrivileges \<times> 'w
    \<Rightarrow> DWORD \<times> CAdjustTokenPrivileges \<times> 'w" where
  "SetToken api tok s = (case s of (p, w) \<Rightarrow>
     if m_hTokenDuplicate p = INVALID_HANDLE_VALUE then (ERROR_NO_TOKEN, p, w)
     else (case OpenThreadToken tok w of
       (Some h, w) \<Rightarrow> AdjustPrivileges api tok SE_RESTORE_NAME SE_PRIVILEGE_ENABLED (p, snd (CloseHandle api w h))
     | (None, w) \<Rightarrow>
         if GetLastError api w \<noteq> ERROR_NO_TOKEN then (GetLastError api w, p, w)
         else (case SetThreadToken tok w (Some (m_hTokenDuplicate p)) of (ok, w) \<Rightarrow>
                 (if ok then ERROR_SUCCESS else GetLastError api w, p, w))))"

section \<open>The thread's token around a delivery\<close>

text \<open>
  The calls as documented, on a view of the world that has the token of the thread and the handles
  of tokens: opening it fails with \<^verbatim>\<open>ERROR_NO_TOKEN\<close> exactly when there is none; setting it
  replaces it and fails without effect.
\<close>

definition token_laws :: "'w win32 \<Rightarrow> 'w token_api \<Rightarrow> ('w \<Rightarrow> 'b option) \<Rightarrow> (HANDLE \<Rightarrow> 'b) \<Rightarrow> bool" where
  "token_laws api tok thread token \<longleftrightarrow>
     (\<forall>w h w'. OpenThreadToken tok w = (Some h, w') \<longrightarrow>
        thread w \<noteq> None \<and> thread w' = thread w \<and> h \<noteq> INVALID_HANDLE_VALUE)
   \<and> (\<forall>w w'. OpenThreadToken tok w = (None, w') \<longrightarrow>
        thread w' = thread w \<and> (GetLastError api w' = ERROR_NO_TOKEN \<longleftrightarrow> thread w = None)
        \<and> GetLastError api w' \<noteq> ERROR_SUCCESS)
   \<and> (\<forall>w h ok w'. SetThreadToken tok w h = (ok, w') \<longrightarrow>
        thread w' = (if ok then map_option token h else thread w)
        \<and> (\<not> ok \<longrightarrow> GetLastError api w' \<noteq> ERROR_SUCCESS))"

lemma token_lawsD:
  assumes "token_laws api tok thread token"
  shows "OpenThreadToken tok w = (Some h, w') \<Longrightarrow> thread w \<noteq> None \<and> thread w' = thread w \<and> h \<noteq> INVALID_HANDLE_VALUE"
    and "OpenThreadToken tok w = (None, w') \<Longrightarrow>
      thread w' = thread w \<and> (GetLastError api w' = ERROR_NO_TOKEN \<longleftrightarrow> thread w = None)
      \<and> GetLastError api w' \<noteq> ERROR_SUCCESS"
    and "SetThreadToken tok w k = (ok, w') \<Longrightarrow> thread w' = (if ok then map_option token k else thread w)
      \<and> (\<not> ok \<longrightarrow> GetLastError api w' \<noteq> ERROR_SUCCESS)"
  using assms unfolding token_laws_def by blast+

lemma SetToken_sets:
  assumes laws: "token_laws api tok thread token" and w: "thread w = None"
    and p: "m_hTokenDuplicate p \<noteq> INVALID_HANDLE_VALUE"
    and s: "SetToken api tok (p, w) = (dwRC, p', w')"
  shows "p' = p \<and> thread w' = (if dwRC = ERROR_SUCCESS then Some (token (m_hTokenDuplicate p)) else None)"
proof -
  obtain h w1 where o: "OpenThreadToken tok w = (h, w1)" by fastforce
  moreover have hn: "h = None" using token_lawsD(1) [OF laws, of w _ w1] o w by (cases h) auto
  ultimately have h: "h = None" "thread w1 = None" "GetLastError api w1 = ERROR_NO_TOKEN"
    using token_lawsD(2) [OF laws, of w w1] w by simp_all
  obtain ok w2 where t: "SetThreadToken tok w1 (Some (m_hTokenDuplicate p)) = (ok, w2)" by fastforce
  then show ?thesis
    using token_lawsD(3) [OF laws t] s p o h by (auto simp: SetToken_def split: if_splits)
qed

text \<open>
  The creation of a mail by a thread that has no token, with the duplicate of the process token
  made at the start: in between the thread has the duplicate exactly when \<^verbatim>\<open>SetToken\<close> reports
  success; afterwards it has none again when \<^verbatim>\<open>ResetToken\<close> reports success, and otherwise keeps what
  it had, so that the error the sink logs is the only way the privilege stays on the thread.
\<close>

theorem SetToken_ResetToken:
  assumes laws: "token_laws api tok thread token" and w: "thread w = None"
    and p: "m_hTokenDuplicate p \<noteq> INVALID_HANDLE_VALUE" "m_hToken p = INVALID_HANDLE_VALUE"
    and s: "SetToken api tok (p, w) = (dwRC, p', w')"
    and same: "thread w'' = thread w'"
    and r: "ResetToken api tok (p', w'') = (dwRC', w3)"
  shows "thread w' = (if dwRC = ERROR_SUCCESS then Some (token (m_hTokenDuplicate p)) else None)
    \<and> thread w3 = (if dwRC' = ERROR_SUCCESS then None else thread w')"
proof -
  have set: "p' = p" "thread w' = (if dwRC = ERROR_SUCCESS then Some (token (m_hTokenDuplicate p)) else None)"
    using SetToken_sets [OF laws w p(1) s] by simp_all
  obtain ok w4 where t: "SetThreadToken tok w'' None = (ok, w4)" by fastforce
  then show ?thesis
    using token_lawsD(3) [OF laws t] r p same set by (auto simp: ResetToken_def split: if_splits)
qed

text \<open>
  A thread that already has a token: \<^verbatim>\<open>SetToken\<close> leaves its handle in the object, which no later call
  takes out, and from then on every \<^verbatim>\<open>ResetToken\<close> refuses.
\<close>

lemma SetToken_blocks_ResetToken:
  assumes laws: "token_laws api tok thread token"
    and p: "m_hTokenDuplicate p \<noteq> INVALID_HANDLE_VALUE" 
    and o: "OpenThreadToken tok w = (Some h, w1)" "thread (snd (CloseHandle api w1 h)) \<noteq> None"
    and keep: "\<And>w n. thread (snd (LookupPrivilegeValue tok w n)) = thread w"
    and s: "SetToken api tok (p, w) = (ERROR_SUCCESS, p', w')"
  shows "m_hToken p' \<noteq> INVALID_HANDLE_VALUE \<and> ResetToken api tok (p', u) = (ERROR_NO_TOKEN, u)"
proof -
  let ?w = "snd (CloseHandle api w1 h)"
  obtain l w2 where l: "LookupPrivilegeValue tok ?w SE_RESTORE_NAME = (l, w2)" by fastforce
  then have "thread w2 \<noteq> None" using keep [of ?w SE_RESTORE_NAME] o(2) by simp
  moreover obtain t w3 where t: "OpenThreadToken tok w2 = (t, w3)" by fastforce
  ultimately have tk: "(\<exists>k. t = Some k \<and> k \<noteq> INVALID_HANDLE_VALUE)
      \<or> (t = None \<and> GetLastError api w3 \<noteq> ERROR_NO_TOKEN \<and> GetLastError api w3 \<noteq> ERROR_SUCCESS)"
    using token_lawsD(1) [OF laws, of w2 _ w3] token_lawsD(2) [OF laws, of w2 w3] by (cases t) simp_all
  have a: "AdjustPrivileges api tok SE_RESTORE_NAME SE_PRIVILEGE_ENABLED (p, ?w) = (ERROR_SUCCESS, p', w')"
    using s p o by (auto simp: SetToken_def)
  then have "m_hToken p' \<noteq> INVALID_HANDLE_VALUE"
    using l t tk by (auto simp: AdjustPrivileges_def open_own_token_def Let_def
        split: if_splits option.splits prod.splits)
  then show ?thesis by (simp add: ResetToken_def)
qed

section \<open>An instance\<close>

text \<open>A world with the token of the thread, a last error and one process token, handle 8, duplicated as 12.\<close>

record token_sim =
  ts_thread :: "HANDLE option"
  ts_error :: DWORD

definition token_sim_api :: "token_sim token_api" where
  "token_sim_api = \<lparr>
     LookupPrivilegeValue = (\<lambda>w n. (Some 18, w)),
     OpenThreadToken = (\<lambda>w. case ts_thread w of None \<Rightarrow> (None, w\<lparr>ts_error := ERROR_NO_TOKEN\<rparr>) | Some h \<Rightarrow> (Some 16, w)),
     OpenProcessToken = (\<lambda>w. (Some 8, w)),
     DuplicateToken = (\<lambda>w h. (Some 12, w)),
     ImpersonateSelf = (\<lambda>w. (True, w\<lparr>ts_thread := Some 8\<rparr>)),
     RevertToSelf = ts_thread_update (\<lambda>_. None),
     SetThreadToken = (\<lambda>w h. (True, w\<lparr>ts_thread := h\<rparr>)),
     AdjustTokenPrivileges = (\<lambda>w h l a. (Some 0, w\<lparr>ts_error := 0\<rparr>))\<rparr>"

definition token_sim_win32 :: "token_sim win32 \<Rightarrow> token_sim win32" where
  "token_sim_win32 api = api\<lparr>GetLastError := ts_error, SetLastError := (\<lambda>e w. w\<lparr>ts_error := e\<rparr>),
     CloseHandle := (\<lambda>w h. (True, w))\<rparr>"

lemma token_sim_laws: "token_laws (token_sim_win32 api) token_sim_api ts_thread id"
  by (auto simp: token_laws_def token_sim_api_def token_sim_win32_def option.map_id ERROR_NO_TOKEN_def ERROR_SUCCESS_def split: option.splits)

theorem SetToken_ResetToken_witness:
  "\<forall>api. \<exists>p w w'. DuplicateProcessToken (token_sim_win32 api) token_sim_api
       (new_CAdjustTokenPrivileges 0, \<lparr>ts_thread = None, ts_error = 0\<rparr>) = (ERROR_SUCCESS, p, w)
   \<and> SetToken (token_sim_win32 api) token_sim_api (p, w) = (ERROR_SUCCESS, p, w')
   \<and> ts_thread w' = Some 12
   \<and> ts_thread (snd (ResetToken (token_sim_win32 api) token_sim_api (p, w'))) = None"
proof
  fix api :: "token_sim win32"
  let ?api = "token_sim_win32 api"
  let ?p = "\<lparr>m_dwAttributesPrev = 0, m_bImpersonation = False, m_luid = 18,
     m_hToken = INVALID_HANDLE_VALUE, m_hTokenDuplicate = 12\<rparr>"
  let ?w = "\<lparr>ts_thread = None, ts_error = 0\<rparr>" and ?w' = "\<lparr>ts_thread = Some 12, ts_error = ERROR_NO_TOKEN\<rparr>"
  have d: "DuplicateProcessToken ?api token_sim_api (new_CAdjustTokenPrivileges 0, ?w) = (ERROR_SUCCESS, ?p, ?w)"
    by (simp add: DuplicateProcessToken_def duplicate_token_def own_thread_token_def enable_duplicate_def
      AdjustPrivileges_def open_own_token_def token_sim_api_def token_sim_win32_def
      new_CAdjustTokenPrivileges_def Let_def ERROR_SUCCESS_def)
  have s: "SetToken ?api token_sim_api (?p, ?w) = (ERROR_SUCCESS, ?p, ?w')"
    by (simp add: SetToken_def token_sim_api_def token_sim_win32_def)
  obtain dwRC' w3 where r: "ResetToken ?api token_sim_api (?p, ?w') = (dwRC', w3)" by fastforce
  then have rc: "dwRC' = ERROR_SUCCESS" by (simp add: ResetToken_def token_sim_api_def)
  show "\<exists>p w w'. DuplicateProcessToken ?api token_sim_api (new_CAdjustTokenPrivileges 0, ?w) = (ERROR_SUCCESS, p, w)
   \<and> SetToken ?api token_sim_api (p, w) = (ERROR_SUCCESS, p, w') \<and> ts_thread w' = Some 12
   \<and> ts_thread (snd (ResetToken ?api token_sim_api (p, w'))) = None"
    using SetToken_ResetToken [OF token_sim_laws _ _ _ s refl r] d s r rc by (intro exI conjI) auto
qed

end
