(* ===== verification/Drop_Dir.thy ===== *)
theory Drop_Dir
  imports Dot_Stuff Token_Privileges Mail_Box
begin

text \<open>
  Asynchronous delivery, \<^verbatim>\<open>CPOP3DropDir\<close> of \<^verbatim>\<open>pop3/smtp/storedriver/pop3dropdir.cpp\<close> and
  \<^verbatim>\<open>pop3dropdir.h\<close>: an object per message that copies it, block by block and dot-stuffed, into a new
  mail of each recipient's mailbox.  Every read and write is started by one operation and finished
  by a completion routine, which may start the next one, turn to the next recipient, or delete the
  object.

  The mail message (its recipients, its contents), the file cache that reads and writes, and the
  event log are the parameter \<^verbatim>\<open>sink_api\<close>.  Two fields of the state are traces of calls:
  \<^verbatim>\<open>sk_marks\<close> of \<^verbatim>\<open>MarkRecipient\<close> and \<^verbatim>\<open>sk_notified\<close> of \<^verbatim>\<open>IMailMsgNotify::Notify\<close>.  Interface pointers are
  their being set; reference counts are left out.
\<close>

section \<open>The code\<close>

subsection \<open>The state\<close>

definition ERROR_HANDLE_EOF :: DWORD where "ERROR_HANDLE_EOF = 38"
definition ERROR_BUFFER_OVERFLOW :: DWORD where "ERROR_BUFFER_OVERFLOW = 111"
definition ERROR_DISK_FULL :: DWORD where "ERROR_DISK_FULL = 112"
definition ERROR_INVALID_MESSAGEDEST :: DWORD where "ERROR_INVALID_MESSAGEDEST = 1218"
definition RP_DELIVERED :: DWORD where "RP_DELIVERED = 0x110"
definition RP_FAILED :: DWORD where "RP_FAILED = 0x830"
definition MAILMSG_S_PENDING :: HRESULT where "MAILMSG_S_PENDING = 0x103"

record SYSTEMTIME =
  wYear :: nat
  wMonth :: nat
  wDay :: nat
  wHour :: nat
  wMinute :: nat
  wSecond :: nat
  wMilliseconds :: nat

datatype sink_event = MESSAGEDELIVERY_FAILED | QI_MAILMSGRECIPIENTS_FAILED | SETTHREADTOKEN_FAILED
  | RESETTHREADTOKEN_FAILED | ASSOCIATEFILE_FAILED | MESSAGEDELIERY_FAILED_OUTOFDISK
  | CREATEMAIL_FAILED | GET_RP_ADDRESS_SMTP_FAILED | CLOSEMAIL_FAILED | PUT_RECIPIENT_FLAGS_FAILED
  | GET_RECIPIENT_FLAGS_FAILED | READFILE_FAILED | WRITEFILE_FAILED | SINK_STARTED | SINK_STOPPED
  | DUPLICATEPROCESSTOKEN_FAILED | COPYCONTENTTOFILE_FAILED

text \<open>
  A file context is named by its file handle.  The message's own context is fixed by the binding, so
  that \<^verbatim>\<open>FIOReadFile\<close> gets only the offset and the number of bytes.
\<close>

record 'w sink_api =
  GetLocalTime :: "'w \<Rightarrow> SYSTEMTIME \<times> 'w"
  sink_LogEvent :: "'w \<Rightarrow> sink_event \<Rightarrow> DWORD option \<Rightarrow> 'w"
  sink_tokens :: "'w token_api"
  QueryMailMsgBind :: "'w \<Rightarrow> HRESULT \<times> 'w"
  GetBinding :: "'w \<Rightarrow> HRESULT \<times> 'w"
  ReleaseBinding :: "'w \<Rightarrow> 'w"
  QueryMailMsgRecipients :: "'w \<Rightarrow> HRESULT \<times> 'w"
  GetRecipientAddress :: "'w \<Rightarrow> DWORD \<Rightarrow> nat \<Rightarrow> (HRESULT \<times> string) \<times> 'w"
  GetRecipientFlags :: "'w \<Rightarrow> DWORD \<Rightarrow> (HRESULT \<times> DWORD) \<times> 'w"
  PutRecipientFlags :: "'w \<Rightarrow> DWORD \<Rightarrow> DWORD \<Rightarrow> HRESULT \<times> 'w"
  ToWideChar :: "'w \<Rightarrow> string \<Rightarrow> nat \<Rightarrow> wstring option \<times> 'w"
  AssociateFile :: "'w \<Rightarrow> HANDLE \<Rightarrow> bool \<times> 'w"
  ReleaseContext :: "'w \<Rightarrow> HANDLE \<Rightarrow> 'w"
  FIOReadFile :: "'w \<Rightarrow> 64 word \<Rightarrow> nat \<Rightarrow> bool \<times> 'w"
  FIOWriteFile :: "'w \<Rightarrow> HANDLE \<Rightarrow> 64 word \<Rightarrow> string \<Rightarrow> bool \<times> 'w"
  GetComputerNameA :: "'w \<Rightarrow> string \<times> 'w"
  InitEventLog :: "'w \<Rightarrow> 'w"
  SetLoggingLevel :: "'w \<Rightarrow> DWORD \<Rightarrow> 'w"
  CopyContentToFile :: "'w \<Rightarrow> HANDLE \<Rightarrow> HRESULT \<times> 'w"

record CSimpleDriver =
  m_szComputerName :: string
  m_fInit :: bool
  m_lPrepareForShutdown :: int
  m_AdjustTokenPrivilegesX :: CAdjustTokenPrivileges
  m_cRef :: nat

record 'w sink =
  sk_drivers :: "nat \<Rightarrow> CSimpleDriver option"
  s_pStoreDriver :: "nat option"
  s_dwCounter :: DWORD
  sk_root :: MailRoot
  sk_marks :: "(DWORD \<times> DWORD) list"
  sk_notified :: "HRESULT list"
  sk_os :: 'w

record CPOP3DropDir =
  m_hr :: HRESULT
  m_i64ReadOffset :: "64 word"
  m_i64WriteOffset :: "64 word"
  m_dwRecipCount :: DWORD
  m_dwRecipCurrent :: DWORD
  m_pdwRecipIndexes :: "DWORD list option"
  m_sRecipEmailName :: wstring
  m_sStoreFileName :: wstring
  m_sStoreFileName_end :: char
  m_sBuffer :: "char list"
  m_enumBWS :: BufferWrapSequence
  m_PFIOContextWrite :: "HANDLE option"
  m_mailboxX :: CMailBox
  m_pIMailMsgBind :: bool
  m_pIMailMsgNotify :: bool
  m_pIMailMsgRecipients :: bool

text \<open>\<^verbatim>\<open>CSimpleDriver::s_pStoreDriver->\<close>: no result when there is no driver.\<close>

definition the_driver :: "'w sink \<Rightarrow> (nat \<times> CSimpleDriver) option" where
  "the_driver s = do { i \<leftarrow> s_pStoreDriver s; d \<leftarrow> sk_drivers s i; Some (i, d) }"

definition Driver_LogEvent :: "'w sink_api \<Rightarrow> sink_event \<Rightarrow> DWORD option \<Rightarrow> 'w sink \<Rightarrow> 'w sink option" where
  "Driver_LogEvent sa ev dwError s = do {
     _ \<leftarrow> the_driver s;
     Some (s\<lparr>sk_os := sink_LogEvent sa (sk_os s) ev dwError\<rparr>) }"

definition with_os :: "('w \<Rightarrow> 'a \<times> 'w) \<Rightarrow> 'w sink \<Rightarrow> 'a \<times> 'w sink" where
  "with_os f s = (case f (sk_os s) of (r, w) \<Rightarrow> (r, s\<lparr>sk_os := w\<rparr>))"

text \<open>
  The name of a new mail: \<^verbatim>\<open>%04u%02u%02u%02u%02u%02u%04u%08x.eml\<close> after the prefix, of the time and
  the counter.
\<close>

definition fmt_pad :: "nat \<Rightarrow> nat \<Rightarrow> string" where
  "fmt_pad width n = replicate (width - length (fmt_u n)) (CHR ''0'') @ fmt_u n"

definition fmt_hex_digit :: "DWORD \<Rightarrow> char" where
  "fmt_hex_digit d = (if d < 10 then char_of (48 + unat d) else char_of (87 + unat d))"

definition fmt_08x :: "DWORD \<Rightarrow> string" where
  "fmt_08x x = map (\<lambda>k. fmt_hex_digit (drop_bit (4 * k) x AND 0xF)) [7, 6, 5, 4, 3, 2, 1, 0]"

definition store_name :: "SYSTEMTIME \<Rightarrow> DWORD \<Rightarrow> wstring" where
  "store_name st n = MAILBOX_PREFIX_W @ wide (fmt_pad 4 (wYear st) @ fmt_pad 2 (wMonth st) @ fmt_pad 2 (wDay st)
     @ fmt_pad 2 (wHour st) @ fmt_pad 2 (wMinute st) @ fmt_pad 2 (wSecond st) @ fmt_pad 4 (wMilliseconds st)
     @ fmt_08x n)"

subsection \<open>Construction\<close>

text \<open>
  The constructor, with what a fresh object holds in the members that it leaves unset.  The argument
  \<^term>\<open>ok\<close> is the success of the allocation of the indices.
\<close>

definition new_CPOP3DropDir :: "CPOP3DropDir \<Rightarrow> bool \<Rightarrow> DWORD \<Rightarrow> DWORD list \<Rightarrow> bool \<Rightarrow> 'w sink \<Rightarrow> CPOP3DropDir" where
  "new_CPOP3DropDir raw ok dwRecipCount pdwRecipIndexes pNotify s =
     (let dd = raw\<lparr>m_pIMailMsgNotify := pNotify, m_pIMailMsgBind := False, m_pIMailMsgRecipients := False,
                   m_pdwRecipIndexes := None, m_dwRecipCount := dwRecipCount, m_dwRecipCurrent := 0,
                   m_hr := S_OK, m_enumBWS := NA, m_sStoreFileName := [], m_PFIOContextWrite := None,
                   m_mailboxX := new_CMailBox\<rparr>;
          dd = (if dwRecipCount \<noteq> 0
                then (if ok then dd\<lparr>m_pdwRecipIndexes := Some (take (unat dwRecipCount) pdwRecipIndexes)\<rparr>
                      else dd\<lparr>m_hr := E_OUTOFMEMORY\<rparr>)
                else dd\<lparr>m_hr := E_UNEXPECTED\<rparr>)
      in if s_pStoreDriver s = None then dd\<lparr>m_hr := E_POINTER\<rparr> else dd)"

subsection \<open>Small operations\<close>

definition isAllRecipientsProcessed :: "CPOP3DropDir \<Rightarrow> bool" where
  "isAllRecipientsProcessed dd \<longleftrightarrow> \<not> m_dwRecipCurrent dd < m_dwRecipCount dd"

definition SetHr :: "HRESULT \<Rightarrow> CPOP3DropDir \<Rightarrow> CPOP3DropDir" where
  "SetHr hr dd = (if SUCCEEDED hr then dd else dd\<lparr>m_hr := hr\<rparr>)"

definition current_index :: "CPOP3DropDir \<Rightarrow> DWORD option" where
  "current_index dd = do { v \<leftarrow> m_pdwRecipIndexes dd; peek v (unat (m_dwRecipCurrent dd)) }"

definition MarkRecipient :: "'w sink_api \<Rightarrow> DWORD \<Rightarrow> CPOP3DropDir \<Rightarrow> 'w sink \<Rightarrow> (HRESULT \<times> 'w sink) option" where
  "MarkRecipient sa dwMark dd s =
     (if \<not> m_pIMailMsgRecipients dd then None
      else do {
        i \<leftarrow> current_index dd;
        let s = s\<lparr>sk_marks := sk_marks s @ [(m_dwRecipCurrent dd, dwMark)]\<rparr>;
        (case with_os (\<lambda>w. GetRecipientFlags sa w i) s of ((hr, dwRecipFlags), s) \<Rightarrow>
           if hr = S_OK then
             (case with_os (\<lambda>w. PutRecipientFlags sa w i (dwRecipFlags OR dwMark)) s of (hr, s) \<Rightarrow>
                if hr \<noteq> S_OK
                then do { s \<leftarrow> Driver_LogEvent sa PUT_RECIPIENT_FLAGS_FAILED (Some hr) s; Some (hr, s) }
                else Some (hr, s))
           else do { s \<leftarrow> Driver_LogEvent sa GET_RECIPIENT_FLAGS_FAILED (Some hr) s; Some (hr, s) }) })"

definition MailboxAndContextCleanup :: "'w win32 \<Rightarrow> 'w sink_api \<Rightarrow> bool \<Rightarrow> CPOP3DropDir \<times> 'w sink
    \<Rightarrow> (HRESULT \<times> CPOP3DropDir \<times> 'w sink) option" where
  "MailboxAndContextCleanup api sa bDeleteMailFile t = (case t of (dd, s) \<Rightarrow> do {
     (hr, dd, s) \<leftarrow>
       (case m_PFIOContextWrite dd of
          None \<Rightarrow> Some (S_OK, dd, s)
        | Some h \<Rightarrow> do {
            let (rc, s) = with_os (CloseMail api h FILE_FLAG_OVERLAPPED) s;
            s \<leftarrow> (if rc \<noteq> ERROR_SUCCESS then Driver_LogEvent sa CLOSEMAIL_FAILED None s else Some s);
            Some (if rc \<noteq> ERROR_SUCCESS then E_FAIL else S_OK, dd\<lparr>m_PFIOContextWrite := None\<rparr>,
                  s\<lparr>sk_os := ReleaseContext sa (sk_os s) h\<rparr>) });
     let s = (if bDeleteMailFile \<and> m_sStoreFileName dd \<noteq> []
              then snd (with_os (\<lambda>w. DeleteMailFile api (Some (m_sStoreFileName dd)) (m_mailboxX dd, w)) s)
              else s);
     Some (hr, dd\<lparr>m_mailboxX := CloseMailBox (m_mailboxX dd)\<rparr>, s) })"

text \<open>\<^verbatim>\<open>m_dwRecipCurrent++\<close>, and the three statements that end a recipient's delivery as failed.\<close>

definition next_recipient :: "CPOP3DropDir \<Rightarrow> CPOP3DropDir" where
  "next_recipient dd = dd\<lparr>m_dwRecipCurrent := m_dwRecipCurrent dd + 1\<rparr>"

definition fail_recipient :: "'w win32 \<Rightarrow> 'w sink_api \<Rightarrow> CPOP3DropDir \<times> 'w sink \<Rightarrow> (CPOP3DropDir \<times> 'w sink) option" where
  "fail_recipient api sa t = (case t of (dd, s) \<Rightarrow> do {
     (_, s) \<leftarrow> MarkRecipient sa RP_FAILED dd s;
     (_, dd, s) \<leftarrow> MailboxAndContextCleanup api sa True (dd, s);
     Some (next_recipient dd, s) })"

text \<open>
  The statements at the end of the file, in \<^verbatim>\<open>ReadFile\<close> and in \<^verbatim>\<open>ReadFileCompletion\<close>: only the latter
  deletes the mail when the recipient could not be marked.  Both return the last error, or else
  \<^verbatim>\<open>HRESULT_FROM_WIN32( ERROR_HANDLE_EOF )\<close>.
\<close>

definition deliver_recipient :: "'w win32 \<Rightarrow> 'w sink_api \<Rightarrow> bool \<Rightarrow> CPOP3DropDir \<times> 'w sink
    \<Rightarrow> (HRESULT \<times> CPOP3DropDir \<times> 'w sink) option" where
  "deliver_recipient api sa completion t = (case t of (dd, s) \<Rightarrow> do {
     (hr2, s) \<leftarrow> MarkRecipient sa RP_DELIVERED dd s;
     (hr3, dd, s) \<leftarrow> MailboxAndContextCleanup api sa (completion \<and> hr2 \<noteq> S_OK) (dd, s);
     Some (if hr3 \<noteq> S_OK then hr3 else if hr2 \<noteq> S_OK then hr2 else HRESULT_FROM_WIN32 ERROR_HANDLE_EOF,
           next_recipient dd, s) })"

subsection \<open>Reading and writing\<close>

definition DropDir_ReadFile :: "'w win32 \<Rightarrow> 'w sink_api \<Rightarrow> nat \<Rightarrow> CPOP3DropDir \<times> 'w sink
    \<Rightarrow> (HRESULT \<times> CPOP3DropDir \<times> 'w sink) option" where
  "DropDir_ReadFile api sa cbSize t = (case t of (dd, s) \<Rightarrow>
     if cbSize = 0 then Some (E_INVALIDARG, dd, s)
     else (case with_os (\<lambda>w. FIOReadFile sa w (m_i64ReadOffset dd) cbSize) s of (bRC, s) \<Rightarrow>
       let dwErr = GetLastError api (sk_os s) in
       if bRC \<or> dwErr = ERROR_IO_PENDING then Some (S_OK, dd, s)
       else if dwErr = ERROR_HANDLE_EOF then deliver_recipient api sa False (dd, s)
       else do {
         s \<leftarrow> Driver_LogEvent sa READFILE_FAILED (Some dwErr) s;
         (dd, s) \<leftarrow> fail_recipient api sa (dd, s);
         Some (HRESULT_FROM_WIN32 dwErr, dd, s) }))"

definition write_failed_event :: "DWORD \<Rightarrow> sink_event" where
  "write_failed_event dwErr =
     (if dwErr = ERROR_DISK_FULL then MESSAGEDELIERY_FAILED_OUTOFDISK else WRITEFILE_FAILED)"

definition DropDir_WriteFile :: "'w win32 \<Rightarrow> 'w sink_api \<Rightarrow> nat \<Rightarrow> CPOP3DropDir \<times> 'w sink
    \<Rightarrow> (HRESULT \<times> CPOP3DropDir \<times> 'w sink) option" where
  "DropDir_WriteFile api sa cbSize t = (case t of (dd, s) \<Rightarrow>
     if cbSize = 0 then Some (E_INVALIDARG, dd, s)
     else do {
       r \<leftarrow> DotStuffBuffer (m_sStoreFileName_end dd) (m_enumBWS dd) 0 cbSize (m_sBuffer dd);
       (case r of
          Inl _ \<Rightarrow> Some (E_INVALIDARG, dd, s)
        | Inr (buf, p, n, bws) \<Rightarrow> do {
            let dd = dd\<lparr>m_sBuffer := buf, m_enumBWS := bws\<rparr>;
            h \<leftarrow> m_PFIOContextWrite dd;
            (case with_os (\<lambda>w. FIOWriteFile sa w h (m_i64WriteOffset dd) (take n (drop p buf))) s of (bRC, s) \<Rightarrow>
               let dwErr = GetLastError api (sk_os s) in
               if bRC \<or> dwErr = ERROR_IO_PENDING then Some (S_OK, dd, s)
               else do {
                 s \<leftarrow> Driver_LogEvent sa (write_failed_event dwErr) (Some dwErr) s;
                 (dd, s) \<leftarrow> fail_recipient api sa (dd, s);
                 Some (HRESULT_FROM_WIN32 dwErr, dd, s) }) }) })"

definition ReadFileCompletion :: "'w win32 \<Rightarrow> 'w sink_api \<Rightarrow> nat \<Rightarrow> DWORD \<Rightarrow> CPOP3DropDir \<times> 'w sink
    \<Rightarrow> (HRESULT \<times> CPOP3DropDir \<times> 'w sink) option" where
  "ReadFileCompletion api sa cbSize dwErr t = (case t of (dd, s) \<Rightarrow>
     if dwErr \<noteq> ERROR_SUCCESS \<and> dwErr \<noteq> ERROR_HANDLE_EOF then do {
       s \<leftarrow> Driver_LogEvent sa READFILE_FAILED (Some dwErr) s;
       (dd, s) \<leftarrow> fail_recipient api sa (dd, s);
       Some (HRESULT_FROM_WIN32 dwErr, dd, s) }
     else if dwErr = ERROR_HANDLE_EOF \<and> cbSize = 0 then deliver_recipient api sa True (dd, s)
     else DropDir_WriteFile api sa cbSize
            (dd\<lparr>m_i64ReadOffset := m_i64ReadOffset dd + of_nat cbSize\<rparr>, s))"

definition WriteFileCompletion :: "'w win32 \<Rightarrow> 'w sink_api \<Rightarrow> nat \<Rightarrow> DWORD \<Rightarrow> CPOP3DropDir \<times> 'w sink
    \<Rightarrow> (HRESULT \<times> CPOP3DropDir \<times> 'w sink) option" where
  "WriteFileCompletion api sa cbSize dwErr t = (case t of (dd, s) \<Rightarrow>
     if dwErr \<noteq> ERROR_SUCCESS then do {
       s \<leftarrow> Driver_LogEvent sa (write_failed_event dwErr) (Some dwErr) s;
       (dd, s) \<leftarrow> fail_recipient api sa (dd, s);
       Some (HRESULT_FROM_WIN32 dwErr, dd, s) }
     else DropDir_ReadFile api sa PRIVATE_OPTIMAL_BUFFER_SIZE
            (dd\<lparr>m_i64WriteOffset := m_i64WriteOffset dd + of_nat cbSize\<rparr>, s))"

subsection \<open>One recipient\<close>

text \<open>
  The token around the creation of the file.  A failure of \<^verbatim>\<open>SetToken\<close> is logged and its code assigned
  to \<^verbatim>\<open>hr\<close>, which every path below assigns again; one of \<^verbatim>\<open>ResetToken\<close> goes to \<^verbatim>\<open>m_hr\<close>.
\<close>

definition Driver_SetToken :: "'w win32 \<Rightarrow> 'w sink_api \<Rightarrow> 'w sink \<Rightarrow> 'w sink option" where
  "Driver_SetToken api sa s = do {
     (i, d) \<leftarrow> the_driver s;
     (case SetToken api (sink_tokens sa) (m_AdjustTokenPrivilegesX d, sk_os s) of (dwRC, p, w) \<Rightarrow>
        let s = s\<lparr>sk_drivers := (sk_drivers s)(i \<mapsto> d\<lparr>m_AdjustTokenPrivilegesX := p\<rparr>), sk_os := w\<rparr>
        in if dwRC \<noteq> ERROR_SUCCESS then Driver_LogEvent sa SETTHREADTOKEN_FAILED (Some dwRC) s else Some s) }"

definition Driver_ResetToken :: "'w win32 \<Rightarrow> 'w sink_api \<Rightarrow> CPOP3DropDir \<times> 'w sink \<Rightarrow> (CPOP3DropDir \<times> 'w sink) option" where
  "Driver_ResetToken api sa t = (case t of (dd, s) \<Rightarrow> do {
     (i, d) \<leftarrow> the_driver s;
     (case with_os (\<lambda>w. ResetToken api (sink_tokens sa) (m_AdjustTokenPrivilegesX d, w)) s of (dwRC, s) \<Rightarrow>
        if dwRC \<noteq> ERROR_SUCCESS then do {
          s \<leftarrow> Driver_LogEvent sa RESETTHREADTOKEN_FAILED (Some dwRC) s;
          Some (dd\<lparr>m_hr := HRESULT_FROM_WIN32 dwRC\<rparr>, s) }
        else Some (dd, s)) })"

text \<open>The branch of a mailbox that could be opened: the new mail and the first read.\<close>

definition start_copy :: "'w win32 \<Rightarrow> 'w sink_api \<Rightarrow> SYSTEMTIME \<Rightarrow> CPOP3DropDir \<times> 'w sink
    \<Rightarrow> (HRESULT \<times> CPOP3DropDir \<times> 'w sink) option" where
  "start_copy api sa st t = (case t of (dd, s) \<Rightarrow> do {
     let s = s\<lparr>s_dwCounter := s_dwCounter s + 1\<rparr>;
     let dd = dd\<lparr>m_sStoreFileName := store_name st (s_dwCounter s) @ wide ''.eml''\<rparr>;
     s \<leftarrow> Driver_SetToken api sa s;
     let (hf, s) = with_os (\<lambda>w. CreateMail api (Some (m_sStoreFileName dd))
           (FILE_FLAG_OVERLAPPED OR FILE_FLAG_SEQUENTIAL_SCAN) (m_mailboxX dd, w)) s;
     (dd, s) \<leftarrow> Driver_ResetToken api sa (dd, s);
     if hf \<noteq> INVALID_HANDLE_VALUE then
       (case with_os (\<lambda>w. AssociateFile sa w hf) s of (ok, s) \<Rightarrow>
          if ok then DropDir_ReadFile api sa PRIVATE_OPTIMAL_BUFFER_SIZE
                 (dd\<lparr>m_PFIOContextWrite := Some hf, m_i64ReadOffset := 0, m_i64WriteOffset := 0\<rparr>, s)
          else do {
            s \<leftarrow> Driver_LogEvent sa ASSOCIATEFILE_FAILED None s;
            Some (E_FAIL, dd\<lparr>m_PFIOContextWrite := None\<rparr>, snd (with_os (\<lambda>w. CloseHandle api w hf) s)) })
     else do {
       let hr = HRESULT_FROM_WIN32 (GetLastError api (sk_os s));
       if hr = HRESULT_FROM_WIN32 ERROR_DISK_FULL then do {
         s \<leftarrow> Driver_LogEvent sa MESSAGEDELIERY_FAILED_OUTOFDISK (Some ERROR_DISK_FULL) s;
         Some (ERROR_INVALID_MESSAGEDEST, dd, s) }
       else do {
         let hr = (if hr = S_OK then HRESULT_FROM_WIN32 ERROR_BUFFER_OVERFLOW else hr);
         s \<leftarrow> Driver_LogEvent sa CREATEMAIL_FAILED (Some hr) s;
         Some (hr, dd, s) } } })"

definition open_recipient :: "'w win32 \<Rightarrow> 'w sink_api \<Rightarrow> SYSTEMTIME \<Rightarrow> string \<Rightarrow> CPOP3DropDir \<times> 'w sink
    \<Rightarrow> (HRESULT \<times> CPOP3DropDir \<times> 'w sink) option" where
  "open_recipient api sa st szRecpEmailName t = (case t of (dd, s) \<Rightarrow>
     case with_os (\<lambda>w. ToWideChar sa w szRecpEmailName POP3_MAX_ADDRESS_LENGTH) s of
       (None, s) \<Rightarrow> Some (HRESULT_FROM_WIN32 (GetLastError api (sk_os s)), dd, s)
     | (Some name, s) \<Rightarrow> do {
         (ok, box, root, w) \<leftarrow> OpenMailBox api name (m_mailboxX dd, sk_root s, sk_os s);
         let dd = dd\<lparr>m_sRecipEmailName := name, m_mailboxX := box\<rparr>;
         let s = s\<lparr>sk_root := root, sk_os := w\<rparr>;
         if ok then start_copy api sa st (dd, s) else Some (ERROR_INVALID_MESSAGEDEST, dd, s) })"

definition CopyMailToDropDir :: "'w win32 \<Rightarrow> 'w sink_api \<Rightarrow> CPOP3DropDir \<times> 'w sink
    \<Rightarrow> (HRESULT \<times> CPOP3DropDir \<times> 'w sink) option" where
  "CopyMailToDropDir api sa t = (case t of (dd, s) \<Rightarrow>
     case with_os (GetLocalTime sa) s of (st, s) \<Rightarrow>
     if isAllRecipientsProcessed dd then Some (E_FAIL, dd, s)
     else if \<not> m_pIMailMsgRecipients dd then None
     else do {
       i \<leftarrow> current_index dd;
       (case with_os (\<lambda>w. GetRecipientAddress sa w i POP3_MAX_ADDRESS_LENGTH) s of ((hr, addr), s) \<Rightarrow>
          if hr = S_OK then do {
            (hr, t) \<leftarrow> open_recipient api sa st addr (dd, s);
            if hr \<noteq> S_OK then do {
              (dd, s) \<leftarrow> fail_recipient api sa t;
              Some (if hr = ERROR_INVALID_MESSAGEDEST \<and> isAllRecipientsProcessed dd then S_FALSE else hr, dd, s) }
            else Some (hr, t) }
          else do {
            s \<leftarrow> Driver_LogEvent sa GET_RP_ADDRESS_SMTP_FAILED (Some hr) s;
            Some (hr, dd, s) }) })"

text \<open>The loop of \<^verbatim>\<open>NextRecipientCopyMailToDropDir\<close>, and of \<^verbatim>\<open>DoLocalDelivery\<close>.\<close>

partial_function (option) NextRecipientCopyMailToDropDir :: "'w win32 \<Rightarrow> 'w sink_api \<Rightarrow> CPOP3DropDir \<times> 'w sink
    \<Rightarrow> (HRESULT \<times> CPOP3DropDir \<times> 'w sink) option" where
  "NextRecipientCopyMailToDropDir api sa t = do {
     (hr, t) \<leftarrow> CopyMailToDropDir api sa t;
     if hr = ERROR_INVALID_MESSAGEDEST then NextRecipientCopyMailToDropDir api sa t else Some (hr, t) }"

subsection \<open>The object's life\<close>

definition bind_message :: "'w sink_api \<Rightarrow> CPOP3DropDir \<times> 'w sink \<Rightarrow> HRESULT \<times> CPOP3DropDir \<times> 'w sink" where
  "bind_message sa t = (case t of (dd, s) \<Rightarrow>
     case with_os (QueryMailMsgBind sa) s of (hr, s) \<Rightarrow>
       if hr = S_OK
       then (case with_os (GetBinding sa) s of (hr, s) \<Rightarrow> (hr, dd\<lparr>m_pIMailMsgBind := True\<rparr>, s))
       else (hr, dd, s))"

definition start_recipients :: "'w win32 \<Rightarrow> 'w sink_api \<Rightarrow> CPOP3DropDir \<times> 'w sink
    \<Rightarrow> (HRESULT \<times> CPOP3DropDir \<times> 'w sink) option" where
  "start_recipients api sa t = (case t of (dd, s) \<Rightarrow>
     case with_os (QueryMailMsgRecipients sa) s of (hr, s) \<Rightarrow>
       if hr = S_OK then NextRecipientCopyMailToDropDir api sa (dd\<lparr>m_pIMailMsgRecipients := True\<rparr>, s)
       else do {
         s \<leftarrow> Driver_LogEvent sa QI_MAILMSGRECIPIENTS_FAILED (Some hr) s;
         Some (hr, dd, s) })"

definition DropDir_DoLocalDelivery :: "'w win32 \<Rightarrow> 'w sink_api \<Rightarrow> CPOP3DropDir \<times> 'w sink
    \<Rightarrow> (HRESULT \<times> CPOP3DropDir \<times> 'w sink) option" where
  "DropDir_DoLocalDelivery api sa t = do {
     let hr = m_hr (fst t);
     let (hr, t) = (if hr = S_OK then bind_message sa t else (hr, t));
     (hr, t) \<leftarrow> (if hr = S_OK then start_recipients api sa t else Some (hr, t));
     if hr = S_OK then Some (MAILMSG_S_PENDING, t)
     else Some (hr, (if SUCCEEDED hr then fst t else SetHr hr (fst t))\<lparr>m_pIMailMsgNotify := False\<rparr>, snd t) }"

definition delete_CPOP3DropDir :: "'w win32 \<Rightarrow> 'w sink_api \<Rightarrow> CPOP3DropDir \<times> 'w sink \<Rightarrow> 'w sink option" where
  "delete_CPOP3DropDir api sa t = (case t of (dd, s) \<Rightarrow> do {
     (dd, s) \<leftarrow>
       (if SUCCEEDED (m_hr dd) then do { (_, t) \<leftarrow> MailboxAndContextCleanup api sa False (dd, s); Some t }
        else do {
          (_, dd, s) \<leftarrow> MailboxAndContextCleanup api sa True (dd, s);
          s \<leftarrow> Driver_LogEvent sa MESSAGEDELIVERY_FAILED (Some (m_hr dd)) s;
          Some (dd, s) });
     let s = (if m_pIMailMsgBind dd then s\<lparr>sk_os := ReleaseBinding sa (sk_os s)\<rparr> else s);
     Some (if m_pIMailMsgNotify dd then s\<lparr>sk_notified := sk_notified s @ [m_hr dd]\<rparr> else s) })"

text \<open>
  The completion routines: the object that is left, if it has not been deleted.  A read completes with
  the bytes read, which are then at the start of \<^verbatim>\<open>m_sBuffer\<close>, and a status; a write with the number
  of bytes written and a status.
\<close>

definition unexpected :: "'w win32 \<Rightarrow> 'w sink_api \<Rightarrow> HRESULT \<times> CPOP3DropDir \<times> 'w sink
    \<Rightarrow> (CPOP3DropDir option \<times> 'w sink) option" where
  "unexpected api sa r = (case r of (hr, dd, s) \<Rightarrow>
     if hr \<noteq> S_OK then do { s \<leftarrow> delete_CPOP3DropDir api sa (SetHr hr dd, s); Some (None, s) }
     else Some (Some dd, s))"

definition finish_or_next :: "'w win32 \<Rightarrow> 'w sink_api \<Rightarrow> CPOP3DropDir \<times> 'w sink
    \<Rightarrow> (CPOP3DropDir option \<times> 'w sink) option" where
  "finish_or_next api sa t = (case t of (dd, s) \<Rightarrow>
     if isAllRecipientsProcessed dd
     then do { s \<leftarrow> delete_CPOP3DropDir api sa (dd, s); Some (None, s) }
     else do { r \<leftarrow> NextRecipientCopyMailToDropDir api sa (dd, s); unexpected api sa r })"

definition POP3DropDirReadCompletion :: "'w win32 \<Rightarrow> 'w sink_api \<Rightarrow> string \<Rightarrow> DWORD \<Rightarrow> CPOP3DropDir \<times> 'w sink
    \<Rightarrow> (CPOP3DropDir option \<times> 'w sink) option" where
  "POP3DropDirReadCompletion api sa bytes dwCompletionStatus t = (case t of (dd, s) \<Rightarrow> do {
     (hr, dd, s) \<leftarrow> ReadFileCompletion api sa (length bytes) dwCompletionStatus
        (dd\<lparr>m_sBuffer := bytes @ drop (length bytes) (m_sBuffer dd)\<rparr>, s);
     if hr = HRESULT_FROM_WIN32 ERROR_HANDLE_EOF then finish_or_next api sa (dd, s)
     else unexpected api sa (hr, dd, s) })"

definition POP3DropDirWriteCompletion :: "'w win32 \<Rightarrow> 'w sink_api \<Rightarrow> nat \<Rightarrow> DWORD \<Rightarrow> CPOP3DropDir \<times> 'w sink
    \<Rightarrow> (CPOP3DropDir option \<times> 'w sink) option" where
  "POP3DropDirWriteCompletion api sa cbWritten dwCompletionStatus t = do {
     (hr, dd, s) \<leftarrow> WriteFileCompletion api sa cbWritten dwCompletionStatus t;
     if hr \<noteq> S_OK then finish_or_next api sa (dd, s) else Some (Some dd, s) }"

end
