(* ===== verification/Drop_Life.thy ===== *)
theory Drop_Life
  imports Drop_Dir
begin

text \<open>
  The life of a delivery object (\<^verbatim>\<open>CPOP3DropDir\<close>): its recipients are dealt with in order and each once,
  the caller is notified once, and the loop over recipients ends.
\<close>

section \<open>What the operations leave alone\<close>

text \<open>
  A still change (\<^verbatim>\<open>still\<close>) keeps the recipients, the trace of marks and of notifications, and whether there is
  somebody to notify; a move also marks the recipients it passes, in order.
\<close>

definition sized :: "CPOP3DropDir \<Rightarrow> bool" where
  "sized dd \<longleftrightarrow> (\<exists>v. m_pdwRecipIndexes dd = Some v \<and> length v = unat (m_dwRecipCount dd))
     \<and> m_dwRecipCurrent dd \<le> m_dwRecipCount dd"

definition sink_frame :: "CPOP3DropDir \<times> 'w sink \<Rightarrow> CPOP3DropDir \<times> 'w sink \<Rightarrow> bool" where
  "sink_frame t t' \<longleftrightarrow> m_dwRecipCount (fst t') = m_dwRecipCount (fst t)
     \<and> m_pdwRecipIndexes (fst t') = m_pdwRecipIndexes (fst t)
     \<and> m_pIMailMsgNotify (fst t') = m_pIMailMsgNotify (fst t)
     \<and> m_pIMailMsgRecipients (fst t') = m_pIMailMsgRecipients (fst t)
     \<and> sk_notified (snd t') = sk_notified (snd t)
     \<and> s_pStoreDriver (snd t') = s_pStoreDriver (snd t)
     \<and> dom (sk_drivers (snd t')) = dom (sk_drivers (snd t))"

definition still :: "CPOP3DropDir \<times> 'w sink \<Rightarrow> CPOP3DropDir \<times> 'w sink \<Rightarrow> bool" where
  "still t t' \<longleftrightarrow> sink_frame t t' \<and> m_dwRecipCurrent (fst t') = m_dwRecipCurrent (fst t)
     \<and> sk_marks (snd t') = sk_marks (snd t)"

definition positions :: "nat \<Rightarrow> nat \<Rightarrow> DWORD list" where
  "positions m n = map of_nat [m..<n]"

definition moves :: "CPOP3DropDir \<times> 'w sink \<Rightarrow> CPOP3DropDir \<times> 'w sink \<Rightarrow> bool" where
  "moves t t' \<longleftrightarrow> sink_frame t t' \<and> sized (fst t') \<and> m_dwRecipCurrent (fst t) \<le> m_dwRecipCurrent (fst t')
     \<and> map fst (sk_marks (snd t')) = map fst (sk_marks (snd t))
         @ positions (unat (m_dwRecipCurrent (fst t))) (unat (m_dwRecipCurrent (fst t')))"

lemma positions_append: "m \<le> n \<Longrightarrow> n \<le> k \<Longrightarrow> positions m n @ positions n k = positions m k"
  unfolding positions_def map_append [symmetric] by (metis le_add_diff_inverse upt_add_eq_append)

lemma sink_frame_refl [simp]: "sink_frame t t"
  by (simp add: sink_frame_def)

lemma sink_frame_trans: "sink_frame t u \<Longrightarrow> sink_frame u v \<Longrightarrow> sink_frame t v"
  by (simp add: sink_frame_def)

lemma still_refl [simp]: "still t t"
  by (simp add: still_def)

lemma still_trans: "still t u \<Longrightarrow> still u v \<Longrightarrow> still t v"
  by (auto simp: still_def intro: sink_frame_trans)

lemma still_sized: "still t u \<Longrightarrow> sized (fst u) \<longleftrightarrow> sized (fst t)"
  by (simp add: still_def sink_frame_def sized_def)

lemma still_moves: "still t u \<Longrightarrow> sized (fst t) \<Longrightarrow> moves t u"
  using still_sized [of t u] by (auto simp: still_def moves_def positions_def)

lemma moves_trans: "moves t u \<Longrightarrow> moves u v \<Longrightarrow> moves t v"
  unfolding moves_def using positions_append
  by (smt (verit) append.assoc sink_frame_trans order_trans word_le_nat_alt)

lemma moves_refl: "sized (fst t) \<Longrightarrow> moves t t"
  by (rule still_moves) simp_all

lemma with_os_still [simp]: "with_os f s = (r, s') \<Longrightarrow> still (dd, s) (dd, s')"
  by (auto simp: with_os_def still_def sink_frame_def split: prod.splits)

lemma Driver_LogEvent_still: "Driver_LogEvent sa ev e s = Some s' \<Longrightarrow> still (dd, s) (dd, s')"
  by (auto simp: Driver_LogEvent_def still_def sink_frame_def bind_eq_Some_conv)

lemma MarkRecipient_marks:
  assumes "MarkRecipient sa m dd s = Some (hr, s')"
  shows "sink_frame (dd, s) (dd, s') \<and> sk_marks s' = sk_marks s @ [(m_dwRecipCurrent dd, m)]
    \<and> current_index dd \<noteq> None"
  using assms
  by (auto simp: MarkRecipient_def Driver_LogEvent_def sink_frame_def with_os_def Let_def bind_eq_Some_conv
    split_def split: if_splits)

lemma MailboxAndContextCleanup_still:
  "MailboxAndContextCleanup api sa b t = Some (hr, t') \<Longrightarrow> still t t'"
  by (auto simp: MailboxAndContextCleanup_def Driver_LogEvent_def sink_frame_def still_def with_os_def Let_def
      bind_eq_Some_conv split: prod.splits if_splits option.splits)

text \<open>Marking a recipient and turning to the next one is a move.\<close>

lemma mark_next_moves:
  assumes m: "MarkRecipient sa k dd s = Some (hr, s1)" and q: "still (dd, s1) (dd2, s2)" and z: "sized dd"
  shows "moves (dd, s) (next_recipient dd2, s2)"
proof -
  have f: "sink_frame (dd, s) (dd, s1)" "sk_marks s1 = sk_marks s @ [(m_dwRecipCurrent dd, k)]" "current_index dd \<noteq> None"
    using MarkRecipient_marks [OF m] by auto
  have lt: "m_dwRecipCurrent dd < m_dwRecipCount dd"
    using f(3) z by (auto simp: current_index_def sized_def peek_def word_less_nat_alt bind_eq_None_conv split: if_splits)
  have cur: "m_dwRecipCurrent dd2 = m_dwRecipCurrent dd" using q by (simp add: still_def)
  have suc: "unat (m_dwRecipCurrent dd + 1) = Suc (unat (m_dwRecipCurrent dd))"
    using lt unsigned_less [of "m_dwRecipCount dd", where ?'a = nat] by (simp add: word_less_nat_alt unat_word_ariths)
  have "sized (next_recipient dd2)"
    using z q lt suc by (auto simp: sized_def still_def sink_frame_def next_recipient_def word_le_nat_alt word_less_nat_alt)
  moreover have "positions (unat (m_dwRecipCurrent dd)) (unat (m_dwRecipCurrent dd + 1)) = [m_dwRecipCurrent dd]"
    by (simp add: suc positions_def)
  moreover have "m_dwRecipCurrent dd \<le> m_dwRecipCurrent dd + 1" using suc by (simp add: word_le_nat_alt)
  ultimately show ?thesis
    using f q cur by (auto simp: moves_def still_def sink_frame_def next_recipient_def)
qed

lemma fail_recipient_moves:
  assumes "fail_recipient api sa (dd, s) = Some t'" "sized dd"
  shows "moves (dd, s) t'"
  using assms MailboxAndContextCleanup_still mark_next_moves
  by (fastforce simp: fail_recipient_def bind_eq_Some_conv split: prod.splits)

section \<open>The results of the operations\<close>

text \<open>
  The interfaces of the message return \<^verbatim>\<open>S_OK\<close> or a failure, as the code takes for granted (it
  compares with \<^verbatim>\<open>S_OK\<close> and tests the severity elsewhere).
\<close>

definition plain :: "HRESULT \<Rightarrow> bool" where
  "plain hr \<longleftrightarrow> hr = S_OK \<or> \<not> SUCCEEDED hr"

definition plain_results :: "'w sink_api \<Rightarrow> bool" where
  "plain_results sa \<longleftrightarrow>
     (\<forall>w i n. plain (fst (fst (GetRecipientAddress sa w i n))))
   \<and> (\<forall>w i. plain (fst (fst (GetRecipientFlags sa w i))))
   \<and> (\<forall>w i f. plain (fst (PutRecipientFlags sa w i f)))
   \<and> (\<forall>w. plain (fst (QueryMailMsgBind sa w))) \<and> (\<forall>w. plain (fst (GetBinding sa w)))
   \<and> (\<forall>w. plain (fst (QueryMailMsgRecipients sa w)))"

lemma plain_win32 [simp]: "plain (HRESULT_FROM_WIN32 e)"
  using SUCCEEDED_HRESULT_FROM_WIN32 [of e] HRESULT_FROM_WIN32_fails [of e] by (auto simp: plain_def)

lemma plain_values [simp]: "plain S_OK" "plain E_FAIL" "plain E_INVALIDARG"
  by (simp_all add: plain_def) (simp add: E_INVALIDARG_def SUCCEEDED_def)

lemma MarkRecipient_plain: "plain_results sa \<Longrightarrow> MarkRecipient sa k dd s = Some (hr, s') \<Longrightarrow> plain hr"
  unfolding MarkRecipient_def plain_results_def with_os_def Let_def
  by (auto simp: bind_eq_Some_conv split_def split: if_splits)

lemma MailboxAndContextCleanup_plain: "MailboxAndContextCleanup api sa b t = Some (hr, t') \<Longrightarrow> plain hr"
  by (auto simp: MailboxAndContextCleanup_def Let_def bind_eq_Some_conv split_def split: if_splits option.splits)

text \<open>
  An operation that moves, and whose result and recipient satisfy a condition when the interfaces
  answer plainly.
\<close>

definition does :: "(HRESULT \<Rightarrow> CPOP3DropDir \<Rightarrow> bool) \<Rightarrow> 'w sink_api \<Rightarrow> CPOP3DropDir \<times> 'w sink
    \<Rightarrow> (HRESULT \<times> CPOP3DropDir \<times> 'w sink) option \<Rightarrow> bool" where
  "does P sa t r \<longleftrightarrow> (\<forall>hr t'. r = Some (hr, t') \<longrightarrow> sized (fst t) \<longrightarrow>
     moves t t' \<and> (plain_results sa \<longrightarrow> P hr (fst t')))"

definition plainly :: "HRESULT \<Rightarrow> CPOP3DropDir \<Rightarrow> bool" where
  "plainly hr dd \<longleftrightarrow> plain hr"

definition or_bad_dest :: "HRESULT \<Rightarrow> CPOP3DropDir \<Rightarrow> bool" where
  "or_bad_dest hr dd \<longleftrightarrow> plain hr \<or> hr = ERROR_INVALID_MESSAGEDEST"

lemma doesD:
  assumes "does P sa t r" "r = Some (hr, t')" "sized (fst t)"
  shows "moves t t'" "plain_results sa \<Longrightarrow> P hr (fst t')"
  using assms unfolding does_def by blast+

lemma doesI:
  "(\<And>hr t'. r = Some (hr, t') \<Longrightarrow> sized (fst t) \<Longrightarrow> moves t t') \<Longrightarrow>
   (\<And>hr t'. r = Some (hr, t') \<Longrightarrow> plain_results sa \<Longrightarrow> P hr (fst t')) \<Longrightarrow> does P sa t r"
  unfolding does_def by blast

lemma does_None [simp]: "does P sa t None"
  by (simp add: does_def)

lemma does_weaken: "does plainly sa t r \<Longrightarrow> does or_bad_dest sa t r"
  by (auto simp: does_def plainly_def or_bad_dest_def)

lemma does_still: "still t u \<Longrightarrow> does P sa u r \<Longrightarrow> does P sa t r"
  using still_sized [of t u] still_moves [of t u] moves_trans [of t u] by (auto simp: does_def)

lemma does_return: "P hr (fst u) \<Longrightarrow> still t u \<Longrightarrow> does P sa t (Some (hr, u))"
  using still_moves [of t u] by (auto simp: does_def)

lemma does_fail:
  assumes "still t (dd, s)" "plain hr"
  shows "does plainly sa t (do { (dd, s) \<leftarrow> fail_recipient api sa (dd, s); Some (hr, dd, s) })"
proof (rule does_still [OF assms(1)], rule doesI)
  fix hr' t'
  assume r: "do { (dd, s) \<leftarrow> fail_recipient api sa (dd, s); Some (hr, dd, s) } = Some (hr', t')"
  then show "sized (fst (dd, s)) \<Longrightarrow> moves (dd, s) t'"
    using fail_recipient_moves [of api sa dd s] by (auto simp: bind_eq_Some_conv)
  show "plainly hr' (fst t')" using r assms(2) by (auto simp: bind_eq_Some_conv plainly_def)
qed

lemma deliver_recipient_does:
  assumes "still t u"
  shows "does plainly sa t (deliver_recipient api sa c u)"
proof (rule does_still [OF assms], rule doesI)
  fix hr' t'
  obtain dd s where u: "u = (dd, s)" by (cases u)
  assume "deliver_recipient api sa c u = Some (hr', t')"
  then obtain hr2 s1 hr3 dd2 s2 where m: "MarkRecipient sa RP_DELIVERED dd s = Some (hr2, s1)"
    and c: "MailboxAndContextCleanup api sa (c \<and> hr2 \<noteq> S_OK) (dd, s1) = Some (hr3, dd2, s2)"
    and e: "hr' = (if hr3 \<noteq> S_OK then hr3 else if hr2 \<noteq> S_OK then hr2 else HRESULT_FROM_WIN32 ERROR_HANDLE_EOF)"
      "t' = (next_recipient dd2, s2)"
    by (auto simp: u deliver_recipient_def bind_eq_Some_conv split_def)
  show "sized (fst u) \<Longrightarrow> moves u t'"
    using mark_next_moves [OF m MailboxAndContextCleanup_still [OF c]] e u by simp
  show "plain_results sa \<Longrightarrow> plainly hr' (fst t')"
    using MarkRecipient_plain [OF _ m] MailboxAndContextCleanup_plain [OF c] e by (auto simp: plainly_def)
qed

lemma does_if: "(b \<Longrightarrow> does P sa t r) \<Longrightarrow> (\<not> b \<Longrightarrow> does P sa t r') \<Longrightarrow> does P sa t (if b then r else r')"
  by simp

lemma does_log:
  assumes "still t (dd, s)" "\<And>s'. still t (dd, s') \<Longrightarrow> does P sa t (f s')"
  shows "does P sa t (do { s \<leftarrow> Driver_LogEvent sa ev e s; f s })"
proof (cases "Driver_LogEvent sa ev e s")
  case (Some s')
  then show ?thesis using assms(2) still_trans [OF assms(1) Driver_LogEvent_still [OF Some]] by simp
qed simp

lemma does_os:
  assumes "still t (dd, s)" "\<And>r s'. still t (dd, s') \<Longrightarrow> does P sa t (f r s')"
  shows "does P sa t (case with_os g s of (r, s) \<Rightarrow> f r s)"
proof -
  obtain r s' where w: "with_os g s = (r, s')" by fastforce
  show ?thesis using assms(2) still_trans [OF assms(1) with_os_still [OF w]] w by simp
qed

lemma plainlyI [simp]: "plain hr \<Longrightarrow> plainly hr dd" "plain hr \<Longrightarrow> or_bad_dest hr dd"
  "or_bad_dest ERROR_INVALID_MESSAGEDEST dd"
  by (simp_all add: plainly_def or_bad_dest_def)

lemma still_update:
  "still t (dd, s) \<Longrightarrow> still t (dd\<lparr>m_sBuffer := b, m_enumBWS := w\<rparr>, s)"
  "still t (dd, s) \<Longrightarrow> still t (dd\<lparr>m_sBuffer := b\<rparr>, s)"
  "still t (dd, s) \<Longrightarrow> still t (dd\<lparr>m_i64ReadOffset := n\<rparr>, s)"
  "still t (dd, s) \<Longrightarrow> still t (dd\<lparr>m_i64WriteOffset := n\<rparr>, s)"
  "still t (dd, s) \<Longrightarrow> still t (dd\<lparr>m_PFIOContextWrite := h, m_i64ReadOffset := n, m_i64WriteOffset := k\<rparr>, s)"
  "still t (dd, s) \<Longrightarrow> still t (dd\<lparr>m_PFIOContextWrite := h\<rparr>, s)"
  "still t (dd, s) \<Longrightarrow> still t (dd\<lparr>m_hr := e\<rparr>, s)"
  "still t (dd, s) \<Longrightarrow> still t (dd\<lparr>m_sStoreFileName := f\<rparr>, s\<lparr>s_dwCounter := c\<rparr>)"
  "still t (dd, s) \<Longrightarrow> still t (dd\<lparr>m_sRecipEmailName := a, m_mailboxX := m\<rparr>, s\<lparr>sk_root := r, sk_os := o'\<rparr>)"
  by (simp_all add: still_def sink_frame_def)

lemma still_os: "still t (dd, s) \<Longrightarrow> still t (dd, snd (with_os f s))"
  using still_trans [OF _ with_os_still] by (metis prod.collapse)

lemmas does_intros = does_if does_log does_os does_fail does_return deliver_recipient_does still_update still_os

lemma ReadFile_does: "still t u \<Longrightarrow> does plainly sa t (DropDir_ReadFile api sa n u)"
  unfolding DropDir_ReadFile_def Let_def
  by (cases u) (auto intro!: does_intros)

lemma WriteFile_does: "still t u \<Longrightarrow> does plainly sa t (DropDir_WriteFile api sa n u)"
proof -
  assume q: "still t u"
  obtain dd s where u: "u = (dd, s)" by (cases u)
  show ?thesis
  proof (cases "n = 0 \<or> DotStuffBuffer (m_sStoreFileName_end dd) (m_enumBWS dd) 0 n (m_sBuffer dd) = None")
    case True
    then show ?thesis using q by (auto simp: DropDir_WriteFile_def u intro!: does_intros)
  next
    case False
    then obtain r where r: "DotStuffBuffer (m_sStoreFileName_end dd) (m_enumBWS dd) 0 n (m_sBuffer dd) = Some r" by blast
    show ?thesis
    proof (cases "\<exists>x. r = Inr x \<and> m_PFIOContextWrite dd \<noteq> None")
      case True
      then obtain buf p k bws h where "r = Inr (buf, p, k, bws)" "m_PFIOContextWrite dd = Some h" by auto
      then show ?thesis using q False r unfolding DropDir_WriteFile_def u Let_def
        by (auto intro!: does_intros)
    next
      case f: False
      then show ?thesis using q False r
        by (cases r) (auto simp: DropDir_WriteFile_def u split_def Let_def intro!: does_intros)
    qed
  qed
qed

lemma ReadFileCompletion_does: "still t u \<Longrightarrow> does plainly sa t (ReadFileCompletion api sa n e u)"
  unfolding ReadFileCompletion_def
  by (cases u) (auto intro!: does_intros WriteFile_does)

lemma WriteFileCompletion_does: "still t u \<Longrightarrow> does plainly sa t (WriteFileCompletion api sa n e u)"
  unfolding WriteFileCompletion_def
  by (cases u) (auto intro!: does_intros ReadFile_does)

section \<open>The recipients\<close>

lemma Driver_SetToken_still: "Driver_SetToken api sa s = Some s' \<Longrightarrow> still (dd, s) (dd, s')"
  by (auto simp: Driver_SetToken_def Driver_LogEvent_def the_driver_def still_def sink_frame_def Let_def
    bind_eq_Some_conv split_def split: if_splits)

lemma Driver_ResetToken_still: "Driver_ResetToken api sa t = Some t' \<Longrightarrow> still t t'"
  by (auto simp: Driver_ResetToken_def Driver_LogEvent_def the_driver_def still_def sink_frame_def Let_def with_os_def
    bind_eq_Some_conv split_def split: if_splits)

lemma does_SetToken:
  assumes "still t (dd, s)" "\<And>s'. still t (dd, s') \<Longrightarrow> does P sa t (f s')"
  shows "does P sa t (do { s \<leftarrow> Driver_SetToken api sa s; f s })"
proof (cases "Driver_SetToken api sa s")
  case (Some s')
  then show ?thesis using assms(2) still_trans [OF assms(1) Driver_SetToken_still [OF Some]] by simp
qed simp

lemma does_ResetToken:
  assumes "still t u" "\<And>dd s'. still t (dd, s') \<Longrightarrow> does P sa t (f dd s')"
  shows "does P sa t (do { (dd, s) \<leftarrow> Driver_ResetToken api sa u; f dd s })"
proof (cases "Driver_ResetToken api sa u")
  case (Some u')
  then show ?thesis using assms(2) still_trans [OF assms(1) Driver_ResetToken_still [OF Some]] by (cases u') simp
qed simp

lemma start_copy_does: "still t u \<Longrightarrow> does or_bad_dest sa t (start_copy api sa st u)"
  unfolding start_copy_def Let_def prod.case
  by (cases u) (auto intro!: does_SetToken does_ResetToken does_intros does_weaken [OF ReadFile_does])

lemma open_recipient_does:
  assumes "still t u"
  shows "does or_bad_dest sa t (open_recipient api sa st a u)"
proof -
  obtain dd s where u: "u = (dd, s)" by (cases u)
  obtain n s1 where n: "with_os (\<lambda>w. ToWideChar sa w a POP3_MAX_ADDRESS_LENGTH) s = (n, s1)" by fastforce
  have q: "still t (dd, s1)" using still_trans [OF assms [unfolded u] with_os_still [OF n]] .
  show ?thesis
  proof (cases n)
    case None
    then show ?thesis using n q by (auto simp: open_recipient_def u intro!: does_intros)
  next
    case (Some x)
    then show ?thesis
      using n q by (cases "OpenMailBox api x (m_mailboxX dd, sk_root s1, sk_os s1)")
        (auto simp: open_recipient_def u Let_def intro!: does_intros start_copy_does)
  qed
qed

text \<open>
  One recipient: a plain result, or the recipient was passed over and others follow, or was the last
  one.  The loop turns the second into one of the others.
\<close>

definition one_result :: "HRESULT \<Rightarrow> CPOP3DropDir \<Rightarrow> bool" where
  "one_result hr dd \<longleftrightarrow> plain hr \<or> hr = ERROR_INVALID_MESSAGEDEST \<or> (hr = S_FALSE \<and> isAllRecipientsProcessed dd)"

definition loop_result :: "HRESULT \<Rightarrow> CPOP3DropDir \<Rightarrow> bool" where
  "loop_result hr dd \<longleftrightarrow> plain hr \<or> (hr = S_FALSE \<and> isAllRecipientsProcessed dd)"

lemma does_then:
  assumes "does P sa t r" "\<And>hr u. moves t u \<Longrightarrow> (plain_results sa \<Longrightarrow> P hr (fst u)) \<Longrightarrow> does Q sa u (f hr u)"
  shows "does Q sa t (do { (hr, u) \<leftarrow> r; f hr u })"
proof (cases r)
  case (Some x)
  obtain hr u where x: "x = (hr, u)" by (cases x)
  show ?thesis
  proof (cases "sized (fst t)")
    case True
    then have m: "moves t u" "plain_results sa \<Longrightarrow> P hr (fst u)"
      using doesD [OF assms(1) Some [unfolded x]] by blast+
    have z: "sized (fst u)" using m(1) by (simp add: moves_def)
    show ?thesis
    proof (rule doesI)
      fix hr' t'
      assume "do { (hr, u) \<leftarrow> r; f hr u } = Some (hr', t')"
      then have e: "f hr u = Some (hr', t')" using Some x by simp
      note d = doesD [OF assms(2) [of u hr, OF m] e z]
      show "moves t t'" using moves_trans [OF m(1) d(1)] .
      show "plain_results sa \<Longrightarrow> Q hr' (fst t')" by (rule d(2))
    qed
  qed (simp add: does_def)
qed simp

lemma CopyMailToDropDir_does: "does one_result sa t (CopyMailToDropDir api sa t)"
proof -
  obtain dd s where t: "t = (dd, s)" by (cases t)
  have fail: "does one_result sa u (do { (dd, s) \<leftarrow> fail_recipient api sa u;
      Some (if hr = ERROR_INVALID_MESSAGEDEST \<and> isAllRecipientsProcessed dd then S_FALSE else hr, dd, s) })"
    if "plain_results sa \<Longrightarrow> or_bad_dest hr (fst u)" for hr u
  proof (rule doesI)
    fix hr' t'
    assume r: "do { (dd, s) \<leftarrow> fail_recipient api sa u;
      Some (if hr = ERROR_INVALID_MESSAGEDEST \<and> isAllRecipientsProcessed dd then S_FALSE else hr, dd, s) } = Some (hr', t')"
    then show "sized (fst u) \<Longrightarrow> moves u t'"
      using fail_recipient_moves [of api sa "fst u" "snd u"] by (auto simp: bind_eq_Some_conv)
    show "plain_results sa \<Longrightarrow> one_result hr' (fst t')"
      using r that by (auto simp: bind_eq_Some_conv one_result_def or_bad_dest_def split: if_splits)
  qed
  have rest: "does one_result sa u (do { (hr, u) \<leftarrow> open_recipient api sa st a u;
      if hr \<noteq> S_OK then do { (dd, s) \<leftarrow> fail_recipient api sa u;
        Some (if hr = ERROR_INVALID_MESSAGEDEST \<and> isAllRecipientsProcessed dd then S_FALSE else hr, dd, s) }
      else Some (hr, u) })" for st a and u :: "CPOP3DropDir \<times> 'a sink"
    by (rule does_then [OF open_recipient_does [OF still_refl]])
      (auto simp: one_result_def intro!: fail does_intros)
  have address: "does one_result sa u (if hr = S_OK then do { (hr, u) \<leftarrow> open_recipient api sa st a u;
      if hr \<noteq> S_OK then do { (dd, s) \<leftarrow> fail_recipient api sa u;
        Some (if hr = ERROR_INVALID_MESSAGEDEST \<and> isAllRecipientsProcessed dd then S_FALSE else hr, dd, s) }
      else Some (hr, u) }
    else do { s \<leftarrow> Driver_LogEvent sa GET_RP_ADDRESS_SMTP_FAILED (Some hr) (snd u); Some (hr, fst u, s) })"
    if "plain_results sa \<Longrightarrow> plain hr" for hr st a and u :: "CPOP3DropDir \<times> 'a sink"
  proof (cases "hr = S_OK")
    case True
    then show ?thesis using rest by simp
  next
    case False
    then show ?thesis
      using that Driver_LogEvent_still [of sa GET_RP_ADDRESS_SMTP_FAILED "Some hr" "snd u" _ "fst u"]
        still_moves [of u]
      by (auto simp: bind_eq_Some_conv one_result_def intro!: doesI)
  qed
  show ?thesis
  proof (cases "isAllRecipientsProcessed dd \<or> \<not> m_pIMailMsgRecipients dd \<or> current_index dd = None")
    case True
    then show ?thesis
      unfolding t CopyMailToDropDir_def prod.case
      by (intro does_os [OF still_refl]) (auto simp: one_result_def intro!: does_intros)
  next
    case False
    then obtain i where i: "current_index dd = Some i" by blast
    obtain st s1 where s1: "with_os (GetLocalTime sa) s = (st, s1)" by fastforce
    obtain hr a s2 where s2: "with_os (\<lambda>w. GetRecipientAddress sa w i POP3_MAX_ADDRESS_LENGTH) s1 = ((hr, a), s2)"
      by (metis prod.exhaust)
    have "plain_results sa \<Longrightarrow> plain hr"
      using s2 unfolding plain_results_def with_os_def by (metis (mono_tags, lifting) fst_conv prod.case_eq_if)
    moreover have "still t (dd, s2)" using t still_trans [OF with_os_still [OF s1] with_os_still [OF s2]] by simp
    ultimately show ?thesis
      using does_still [OF _ address [where hr = hr and st = st and a = a and u = "(dd, s2)"], of t] False i s1 s2
      by (cases "hr = S_OK") (simp_all add: t CopyMailToDropDir_def)
  qed
qed

lemma NextRecipient_once:
  "CopyMailToDropDir api sa t = Some (hr, u) \<Longrightarrow> hr \<noteq> ERROR_INVALID_MESSAGEDEST
    \<Longrightarrow> NextRecipientCopyMailToDropDir api sa t = Some (hr, u)"
  by (subst NextRecipientCopyMailToDropDir.simps) simp

lemma NextRecipient_does: "does loop_result sa t (NextRecipientCopyMailToDropDir api sa t)"
proof -
  let ?P = "\<lambda>api sa t r. sized (fst t) \<longrightarrow> moves t (snd r) \<and> (plain_results sa \<longrightarrow> loop_result (fst r) (fst (snd r)))"
  have "?P api sa t r" if "NextRecipientCopyMailToDropDir api sa t = Some r" for r
  proof (rule NextRecipientCopyMailToDropDir.raw_induct [where P = ?P, OF _ that])
    fix loop api sa t r
    assume IH: "\<And>api sa t r. loop api sa t = Some r \<Longrightarrow> ?P api sa t r"
      and body: "do { (hr, t) \<leftarrow> CopyMailToDropDir api sa t;
        if hr = ERROR_INVALID_MESSAGEDEST then loop api sa t else Some (hr, t) } = Some r"
    obtain hr u where c: "CopyMailToDropDir api sa t = Some (hr, u)"
      using body by (auto simp: bind_eq_Some_conv)
    have r: "(if hr = ERROR_INVALID_MESSAGEDEST then loop api sa u else Some (hr, u)) = Some r"
      using body c by simp
    show "?P api sa t r"
    proof
      assume "sized (fst t)"
      note d = doesD [OF CopyMailToDropDir_does c this]
      show "moves t (snd r) \<and> (plain_results sa \<longrightarrow> loop_result (fst r) (fst (snd r)))"
      proof (cases "hr = ERROR_INVALID_MESSAGEDEST")
        case True
        then have "sized (fst u)" "loop api sa u = Some r" using d(1) r by (simp_all add: moves_def)
        then show ?thesis using IH moves_trans [OF d(1)] by blast
      next
        case False
        then show ?thesis using r d by (auto simp: one_result_def loop_result_def)
      qed
    qed
  qed
  then show ?thesis by (auto simp: does_def)
qed

section \<open>The life of an object\<close>

text \<open>
  The states of an object after its delivery was started: completions, in any order and with any
  outcome, and whatever the rest of the process does to the shared state in between.
\<close>

inductive delivery :: "'w win32 \<Rightarrow> 'w sink_api \<Rightarrow> CPOP3DropDir option \<times> 'w sink \<Rightarrow> CPOP3DropDir option \<times> 'w sink \<Rightarrow> bool"
  for api sa c where
  start: "delivery api sa c c"
| read_done: "delivery api sa c (Some dd, s) \<Longrightarrow> POP3DropDirReadCompletion api sa bytes e (dd, s) = Some c'
    \<Longrightarrow> delivery api sa c c'"
| write_done: "delivery api sa c (Some dd, s) \<Longrightarrow> POP3DropDirWriteCompletion api sa n e (dd, s) = Some c'
    \<Longrightarrow> delivery api sa c c'"
| others: "delivery api sa c (Some dd, s) \<Longrightarrow> sk_marks s' = sk_marks s \<Longrightarrow> sk_notified s' = sk_notified s
    \<Longrightarrow> delivery api sa c (Some dd, s')"

text \<open>
  An object alive has marked the recipients before the current one, in order, and notified nobody; a
  deleted one has notified its result, and a success only with every recipient marked.
\<close>

fun life :: "'w sink_api \<Rightarrow> DWORD \<Rightarrow> CPOP3DropDir option \<times> 'w sink \<Rightarrow> bool" where
  "life sa n (Some dd, s) \<longleftrightarrow> sized dd \<and> m_dwRecipCount dd = n \<and> m_pIMailMsgNotify dd \<and> sk_notified s = []
     \<and> map fst (sk_marks s) = positions 0 (unat (m_dwRecipCurrent dd))"
| "life sa n (None, s) \<longleftrightarrow> (\<exists>hr k. sk_notified s = [hr] \<and> k \<le> unat n \<and> map fst (sk_marks s) = positions 0 k
     \<and> (plain_results sa \<and> SUCCEEDED hr \<longrightarrow> k = unat n))"

lemma moves_life:
  assumes "life sa n (Some (fst t), snd t)" "moves t u"
  shows "life sa n (Some (fst u), snd u)"
  using assms positions_append [of 0 "unat (m_dwRecipCurrent (fst t))" "unat (m_dwRecipCurrent (fst u))"]
  by (auto simp: moves_def sink_frame_def word_le_nat_alt)

lemma MailboxAndContextCleanup_hr:
  "MailboxAndContextCleanup api sa b t = Some (h, t') \<Longrightarrow> m_hr (fst t') = m_hr (fst t) \<and> m_pIMailMsgNotify (fst t') = m_pIMailMsgNotify (fst t)"
  by (auto simp: MailboxAndContextCleanup_def bind_eq_Some_conv Let_def split_def split: option.splits if_splits)

lemma delete_result:
  assumes d: "delete_CPOP3DropDir api sa (dd, s) = Some s'"
  shows "sk_notified s' = sk_notified s @ (if m_pIMailMsgNotify dd then [m_hr dd] else [])
    \<and> sk_marks s' = sk_marks s"
proof -
  obtain h dd1 s1 s2 where c: "MailboxAndContextCleanup api sa (\<not> SUCCEEDED (m_hr dd)) (dd, s) = Some (h, dd1, s1)"
    and l: "s2 = s1 \<or> Driver_LogEvent sa MESSAGEDELIVERY_FAILED (Some (m_hr dd1)) s1 = Some s2"
    and s': "s' = (let s = (if m_pIMailMsgBind dd1 then s2\<lparr>sk_os := ReleaseBinding sa (sk_os s2)\<rparr> else s2)
       in if m_pIMailMsgNotify dd1 then s\<lparr>sk_notified := sk_notified s @ [m_hr dd1]\<rparr> else s)"
    using d by (cases "SUCCEEDED (m_hr dd)") (auto simp: delete_CPOP3DropDir_def bind_eq_Some_conv Let_def)
  have "sk_notified s2 = sk_notified s" "sk_marks s2 = sk_marks s"
    using MailboxAndContextCleanup_still [OF c] l by (auto simp: still_def sink_frame_def Driver_LogEvent_def bind_eq_Some_conv)
  then show ?thesis using MailboxAndContextCleanup_hr [OF c] s' by (simp add: Let_def)
qed

lemma delete_life:
  assumes l: "life sa n (Some dd, s)" and d: "delete_CPOP3DropDir api sa (dd, s) = Some s'"
    and all: "plain_results sa \<Longrightarrow> SUCCEEDED (m_hr dd) \<Longrightarrow> isAllRecipientsProcessed dd"
  shows "life sa n (None, s')"
proof -
  have le: "unat (m_dwRecipCurrent dd) \<le> unat n" using l by (auto simp: sized_def word_le_nat_alt)
  have "unat (m_dwRecipCurrent dd) = unat n" if "plain_results sa" "SUCCEEDED (m_hr dd)"
    using all [OF that] l le by (auto simp: isAllRecipientsProcessed_def word_less_nat_alt)
  then show ?thesis using l delete_result [OF d] le by auto
qed

lemma unexpected_life:
  assumes l: "life sa n (Some dd, s)" and u: "unexpected api sa (hr, dd, s) = Some c"
    and r: "plain_results sa \<Longrightarrow> loop_result hr dd"
  shows "life sa n c"
proof (cases "hr = S_OK")
  case False
  obtain s' where d: "delete_CPOP3DropDir api sa (SetHr hr dd, s) = Some s'" and c: "c = (None, s')"
    using u False by (auto simp: unexpected_def bind_eq_Some_conv)
  have "life sa n (Some (SetHr hr dd), s)" using l by (auto simp: SetHr_def sized_def)
  moreover have "isAllRecipientsProcessed (SetHr hr dd)" if "plain_results sa" "SUCCEEDED (m_hr (SetHr hr dd))"
    using that r False by (auto simp: loop_result_def plain_def SetHr_def split: if_splits)
  ultimately show ?thesis using delete_life [OF _ d] c by blast
qed (use l u in \<open>auto simp: unexpected_def\<close>)

lemma finish_or_next_life:
  assumes l: "life sa n (Some dd, s)" and f: "finish_or_next api sa (dd, s) = Some c"
  shows "life sa n c"
proof (cases "isAllRecipientsProcessed dd")
  case True
  then show ?thesis using f delete_life [OF l] by (auto simp: finish_or_next_def bind_eq_Some_conv)
next
  case False
  then obtain hr dd' s' where x: "NextRecipientCopyMailToDropDir api sa (dd, s) = Some (hr, dd', s')"
    and u: "unexpected api sa (hr, dd', s') = Some c"
    using f by (auto simp: finish_or_next_def bind_eq_Some_conv)
  have z: "sized (fst (dd, s))" using l by simp
  note d = doesD [OF NextRecipient_does x z]
  have "life sa n (Some dd', s')" using moves_life [OF _ d(1)] l by simp
  then show ?thesis using unexpected_life [OF _ u] d(2) by simp
qed

lemma ReadCompletion_life:
  assumes l: "life sa n (Some dd, s)" and c: "POP3DropDirReadCompletion api sa b e (dd, s) = Some c"
  shows "life sa n c"
proof -
  let ?u = "(dd\<lparr>m_sBuffer := b @ drop (length b) (m_sBuffer dd)\<rparr>, s)"
  obtain hr dd' s' where r: "ReadFileCompletion api sa (length b) e ?u = Some (hr, dd', s')"
    and rest: "(if hr = HRESULT_FROM_WIN32 ERROR_HANDLE_EOF then finish_or_next api sa (dd', s')
       else unexpected api sa (hr, dd', s')) = Some c"
    using c by (auto simp: POP3DropDirReadCompletion_def bind_eq_Some_conv)
  have z: "sized (fst (dd, s))" and q: "still (dd, s) ?u" using l by (simp_all add: still_def sink_frame_def)
  note d = doesD [OF ReadFileCompletion_does [OF q] r z]
  have "life sa n (Some dd', s')" using moves_life [OF _ d(1)] l by simp
  moreover have "plain_results sa \<Longrightarrow> loop_result hr dd'" using d(2) by (simp add: plainly_def loop_result_def)
  ultimately show ?thesis
    using rest finish_or_next_life [of sa n dd' s' api c] unexpected_life [of sa n dd' s' api hr c] by (simp split: if_splits)
qed

lemma WriteCompletion_life:
  assumes l: "life sa n (Some dd, s)" and c: "POP3DropDirWriteCompletion api sa k e (dd, s) = Some c"
  shows "life sa n c"
proof -
  obtain hr dd' s' where r: "WriteFileCompletion api sa k e (dd, s) = Some (hr, dd', s')"
    and rest: "(if hr \<noteq> S_OK then finish_or_next api sa (dd', s') else Some (Some dd', s')) = Some c"
    using c by (auto simp: POP3DropDirWriteCompletion_def bind_eq_Some_conv)
  have z: "sized (fst (dd, s))" using l by simp
  note d = doesD [OF WriteFileCompletion_does [OF still_refl] r z]
  have "life sa n (Some dd', s')" using moves_life [OF _ d(1)] l by simp
  then show ?thesis using rest finish_or_next_life [of sa n dd' s' api c] by (auto split: if_splits)
qed

lemma delivery_life: "delivery api sa c0 c \<Longrightarrow> life sa n c0 \<Longrightarrow> life sa n c"
  by (induction rule: delivery.induct) (auto intro: ReadCompletion_life WriteCompletion_life)

lemma bind_message_life:
  assumes "life sa n (Some dd, s)" "plain_results sa" "bind_message sa (dd, s) = (hr, dd', s')"
  shows "life sa n (Some dd', s') \<and> plain hr"
  using assms unfolding bind_message_def with_os_def plain_results_def
  by (auto simp: sized_def split_def split: if_splits)

lemma start_recipients_life:
  assumes l: "life sa n (Some dd, s)" and p: "plain_results sa"
    and r: "start_recipients api sa (dd, s) = Some (hr, dd', s')"
  shows "life sa n (Some dd', s') \<and> loop_result hr dd'"
proof -
  obtain hq sq where q: "with_os (QueryMailMsgRecipients sa) s = (hq, sq)" by fastforce
  have pq: "plain hq" using q p unfolding with_os_def plain_results_def by (auto simp: split_def)
  let ?t = "(dd\<lparr>m_pIMailMsgRecipients := True\<rparr>, sq)"
  have lq: "life sa n (Some dd, sq)" "life sa n (Some (fst ?t), snd ?t)"
    using q l unfolding with_os_def by (auto simp: split_def sized_def)
  show ?thesis
  proof (cases "hq = S_OK")
    case True
    then have x: "NextRecipientCopyMailToDropDir api sa ?t = Some (hr, dd', s')"
      using r q by (simp add: start_recipients_def)
    have z: "sized (fst ?t)" using lq(2) by simp
    note m = doesD [OF NextRecipient_does x z]
    show ?thesis using moves_life [OF lq(2) m(1)] m(2) p by simp
  next
    case False
    have r': "do { s \<leftarrow> Driver_LogEvent sa QI_MAILMSGRECIPIENTS_FAILED (Some hq) sq; Some (hq, dd, s) } = Some (hr, dd', s')"
      using r unfolding start_recipients_def q prod.case if_not_P [OF False] .
    then have "sk_marks s' = sk_marks sq \<and> sk_notified s' = sk_notified sq \<and> hr = hq \<and> dd' = dd"
      by (cases "Driver_LogEvent sa QI_MAILMSGRECIPIENTS_FAILED (Some hq) sq")
        (auto simp: Driver_LogEvent_def bind_eq_Some_conv)
    then show ?thesis using lq(1) pq by (simp add: loop_result_def)
  qed
qed

lemma DoLocalDelivery_life:
  assumes l: "life sa n (Some dd, s)" and ok: "m_hr dd = S_OK" and p: "plain_results sa"
    and d: "DropDir_DoLocalDelivery api sa (dd, s) = Some (hr, dd', s')"
  shows "if hr = MAILMSG_S_PENDING then life sa n (Some dd', s')
    else \<not> m_pIMailMsgNotify dd' \<and> sk_notified s' = []"
proof -
  have pend: "\<not> plain MAILMSG_S_PENDING" "MAILMSG_S_PENDING \<noteq> S_FALSE"
    by (simp_all add: plain_def MAILMSG_S_PENDING_def S_OK_def S_FALSE_def SUCCEEDED_def)
  obtain hr1 dd1 s1 where b: "bind_message sa (dd, s) = (hr1, dd1, s1)" by (metis prod.exhaust)
  note l1 = bind_message_life [OF l p b]
  obtain hr2 dd2 s2 where g: "(if hr1 = S_OK then start_recipients api sa (dd1, s1) else Some (hr1, dd1, s1)) = Some (hr2, dd2, s2)"
    and out: "(hr, dd', s') = (if hr2 = S_OK then (MAILMSG_S_PENDING, dd2, s2)
        else (hr2, (if SUCCEEDED hr2 then dd2 else SetHr hr2 dd2)\<lparr>m_pIMailMsgNotify := False\<rparr>, s2))"
  proof (cases "if hr1 = S_OK then start_recipients api sa (dd1, s1) else Some (hr1, dd1, s1)")
    case None
    then show ?thesis using d ok b by (simp add: DropDir_DoLocalDelivery_def Let_def)
  next
    case (Some x)
    obtain hr2 dd2 s2 where "x = (hr2, dd2, s2)" by (cases x)
    then show ?thesis using that [of hr2 dd2 s2] Some d ok b
      by (cases "hr2 = S_OK") (auto simp: DropDir_DoLocalDelivery_def Let_def)
  qed
  have l2: "life sa n (Some dd2, s2) \<and> loop_result hr2 dd2"
  proof (cases "hr1 = S_OK")
    case True
    then show ?thesis using start_recipients_life [OF conjunct1 [OF l1] p, of api hr2 dd2 s2] g by simp
  next
    case False
    then show ?thesis using g l1 by (simp add: loop_result_def)
  qed
  show ?thesis
  proof (cases "hr2 = S_OK")
    case True
    then show ?thesis using out l2 by simp
  next
    case False
    then have "hr = hr2" "\<not> m_pIMailMsgNotify dd'" "s' = s2" using out by simp_all
    moreover have "hr2 \<noteq> MAILMSG_S_PENDING" using l2 pend by (auto simp: loop_result_def)
    ultimately show ?thesis using l2 by simp
  qed
qed

end
