(* ===== verification/Sink_Sim.thy ===== *)
theory Sink_Sim
  imports Drop_Dir Sim_Os
begin

text \<open>
  One instance of the parameter \<^verbatim>\<open>sink_api\<close>, on the world of \<^verbatim>\<open>Sim_Os\<close>, used by the witnesses of the
  delivery sink: one address for every recipient, reads and writes that are always accepted, and
  writes that reach the file store.  No property rests on it.
\<close>

definition sim_tokens :: "sim token_api" where
  "sim_tokens = \<lparr>
     LookupPrivilegeValue = (\<lambda>w n. (Some 18, w)),
     OpenThreadToken = (\<lambda>w. (None, w\<lparr>sim_error := ERROR_NO_TOKEN\<rparr>)),
     OpenProcessToken = (\<lambda>w. (Some 8, w)),
     DuplicateToken = (\<lambda>w h. (Some 12, w)),
     ImpersonateSelf = (\<lambda>w. (True, w)),
     RevertToSelf = id,
     SetThreadToken = (\<lambda>w h. (True, w)),
     AdjustTokenPrivileges = (\<lambda>w h l a. (Some 0, w\<lparr>sim_error := 0\<rparr>))\<rparr>"

definition sim_write_at :: "nat \<Rightarrow> string \<Rightarrow> string \<Rightarrow> string" where
  "sim_write_at off bytes old = take off old @ bytes @ drop (off + length bytes) old"

definition sim_fio_write :: "sim \<Rightarrow> HANDLE \<Rightarrow> 64 word \<Rightarrow> string \<Rightarrow> bool \<times> sim" where
  "sim_fio_write w h off bytes = (case map_of (sim_open w) h of
      None \<Rightarrow> sim_fail ERROR_INVALID_HANDLE False w
    | Some (name, _) \<Rightarrow>
        (True, w\<lparr>sim_files := map (\<lambda>f. if fst f = name then (name, sim_write_at (unat off) bytes (snd f)) else f)
                               (sim_files w)\<rparr>))"

definition demo_time :: SYSTEMTIME where
  "demo_time = \<lparr>wYear = 2003, wMonth = 4, wDay = 24, wHour = 12, wMinute = 30, wSecond = 5, wMilliseconds = 7\<rparr>"

definition sink_sim :: "sim sink_api" where
  "sink_sim = \<lparr>
     GetLocalTime = Pair demo_time,
     sink_LogEvent = (\<lambda>w ev e. w),
     sink_tokens = sim_tokens,
     QueryMailMsgBind = Pair S_OK,
     GetBinding = Pair S_OK,
     ReleaseBinding = id,
     QueryMailMsgRecipients = Pair S_OK,
     GetRecipientAddress = (\<lambda>w i n. ((S_OK, ''u@d''), w)),
     GetRecipientFlags = (\<lambda>w i. ((S_OK, 0), w)),
     PutRecipientFlags = (\<lambda>w i f. (S_OK, w)),
     ToWideChar = (\<lambda>w s n. (if length s < n then Some (wide s) else None, w)),
     AssociateFile = (\<lambda>w h. (True, w)),
     ReleaseContext = (\<lambda>w h. snd (sim_close w h)),
     FIOReadFile = (\<lambda>w off n. (True, w)),
     FIOWriteFile = sim_fio_write,
     GetComputerNameA = Pair ''host'',
     InitEventLog = id,
     SetLoggingLevel = (\<lambda>w l. w),
     CopyContentToFile = (\<lambda>w h. (S_OK, w))\<rparr>"

definition demo_driver :: CSimpleDriver where
  "demo_driver = \<lparr>m_szComputerName = ''host'', m_fInit = True, m_lPrepareForShutdown = 0,
     m_AdjustTokenPrivilegesX = (new_CAdjustTokenPrivileges 18)\<lparr>m_hTokenDuplicate := 12\<rparr>, m_cRef = 1\<rparr>"

definition demo_sink :: "sim sink" where
  "demo_sink = \<lparr>sk_drivers = [0 \<mapsto> demo_driver], s_pStoreDriver = Some 0, s_dwCounter = 0,
     sk_root = MailRoot_init\<lparr>m_wszMailRoot := wide ''C:''\<rparr>, sk_marks = [], sk_notified = [], sk_os = sim_start\<rparr>"

definition demo_object :: "char list \<Rightarrow> CPOP3DropDir" where
  "demo_object buf = \<lparr>m_hr = 0, m_i64ReadOffset = 0, m_i64WriteOffset = 0, m_dwRecipCount = 0, m_dwRecipCurrent = 0,
     m_pdwRecipIndexes = None, m_sRecipEmailName = [], m_sStoreFileName = [], m_sStoreFileName_end = NUL,
     m_sBuffer = buf, m_enumBWS = NA, m_PFIOContextWrite = None,
     m_mailboxX = new_CMailBox, m_pIMailMsgBind = False, m_pIMailMsgNotify = False, m_pIMailMsgRecipients = False\<rparr>"

lemma sink_sim_calls:
  "GetRecipientAddress sink_sim w i n = ((S_OK, ''u@d''), w)"
  "ToWideChar sink_sim w a n = (if length a < n then Some (wide a) else None, w)"
  "AssociateFile sink_sim w h = (True, w)"
  "FIOReadFile sink_sim w off n = (True, w)"
  "GetLocalTime sink_sim w = (demo_time, w)"
  "FIOWriteFile sink_sim = sim_fio_write"
  by (simp_all add: sink_sim_def)

end
