(* ===== verification/Store_Driver.thy ===== *)
theory Store_Driver
  imports Drop_Life Sink_Sim
begin

text \<open>
  The store driver that the SMTP service calls, \<^verbatim>\<open>CSimpleDriver\<close> of
  \<^verbatim>\<open>pop3/smtp/storedriver/csimpledriver.cpp\<close>: initialization, shutdown, and local delivery, which is
  asynchronous (a delivery object, \<^verbatim>\<open>CPOP3DropDir\<close>) when the caller wants to be notified and
  synchronous otherwise.  Several driver objects may exist; they are numbered.  The critical section
  is left out: a call to \<^verbatim>\<open>Init\<close> or to the destructor runs alone.
\<close>

section \<open>The code\<close>

definition ERROR_ALREADY_INITIALIZED :: DWORD where "ERROR_ALREADY_INITIALIZED = 1247"
definition ERROR_SHUTDOWN_IN_PROGRESS :: DWORD where "ERROR_SHUTDOWN_IN_PROGRESS = 1115"
definition FILE_FLAG_WRITE_THROUGH :: DWORD where "FILE_FLAG_WRITE_THROUGH = 0x80000000"
abbreviation (input) "SINK_MAX_PATH \<equiv> (260 :: nat)"

subsection \<open>The driver\<close>

definition new_CSimpleDriver :: "int \<Rightarrow> nat \<Rightarrow> 'w sink \<Rightarrow> 'w sink" where
  "new_CSimpleDriver luid i s = s\<lparr>sk_drivers := (sk_drivers s)(i \<mapsto>
     \<lparr>m_szComputerName = [], m_fInit = False, m_lPrepareForShutdown = 0,
      m_AdjustTokenPrivilegesX = new_CAdjustTokenPrivileges luid, m_cRef = 0\<rparr>)\<rparr>"

text \<open>The destructor, with that of the member \<^verbatim>\<open>m_AdjustTokenPrivilegesX\<close>.\<close>

definition delete_CSimpleDriver :: "'w win32 \<Rightarrow> 'w sink_api \<Rightarrow> nat \<Rightarrow> 'w sink \<Rightarrow> 'w sink option" where
  "delete_CSimpleDriver api sa i s = do {
     d \<leftarrow> sk_drivers s i;
     Some (s\<lparr>s_pStoreDriver := (if s_pStoreDriver s = Some i then None else s_pStoreDriver s),
             sk_drivers := (sk_drivers s)(i := None),
             sk_os := delete_CAdjustTokenPrivileges api (sink_tokens sa) (m_AdjustTokenPrivilegesX d, sk_os s)\<rparr>) }"

definition log_os :: "'w sink_api \<Rightarrow> sink_event \<Rightarrow> DWORD option \<Rightarrow> 'w sink \<Rightarrow> 'w sink" where
  "log_os sa ev e s = s\<lparr>sk_os := sink_LogEvent sa (sk_os s) ev e\<rparr>"

text \<open>The branch of \<^verbatim>\<open>Init\<close> that makes this object the store driver.\<close>

definition become_driver :: "'w win32 \<Rightarrow> 'w sink_api \<Rightarrow> nat \<Rightarrow> CSimpleDriver \<Rightarrow> 'w sink \<Rightarrow> 'w sink option" where
  "become_driver api sa i d s = do {
     (_, root, w) \<leftarrow> SetMailRoot api None (sk_root s) (sk_os s);
     let (name, s) = with_os (GetComputerNameA sa) (s\<lparr>sk_root := root, sk_os := w\<rparr>);
     let s = s\<lparr>s_pStoreDriver := Some i, sk_os := InitEventLog sa (sk_os s)\<rparr>;
     ((rc, level), w) \<leftarrow> RegQueryLoggingLevel api 3 None (sk_os s);
     let s = s\<lparr>sk_os := (if rc = ERROR_SUCCESS then SetLoggingLevel sa w level else w)\<rparr>;
     let s = log_os sa SINK_STARTED None s;
     (case DuplicateProcessToken api (sink_tokens sa) (m_AdjustTokenPrivilegesX d, sk_os s) of (dwRC, p, w) \<Rightarrow>
        let s = s\<lparr>sk_os := w, sk_drivers := (sk_drivers s)(i \<mapsto> d\<lparr>m_szComputerName := name, m_fInit := True,
                   m_AdjustTokenPrivilegesX := p\<rparr>)\<rparr>
        in Some (if dwRC \<noteq> ERROR_SUCCESS then log_os sa DUPLICATEPROCESSTOKEN_FAILED (Some dwRC) s else s)) }"

definition Driver_Init :: "'w win32 \<Rightarrow> 'w sink_api \<Rightarrow> nat \<Rightarrow> 'w sink \<Rightarrow> ((HRESULT \<times> nat option) \<times> 'w sink) option" where
  "Driver_Init api sa i s = do {
     d \<leftarrow> sk_drivers s i;
     if m_fInit d then Some ((HRESULT_FROM_WIN32 ERROR_ALREADY_INITIALIZED, None), s)
     else if m_lPrepareForShutdown d \<noteq> 0 then Some ((HRESULT_FROM_WIN32 ERROR_SHUTDOWN_IN_PROGRESS, None), s)
     else do {
       s \<leftarrow> (if s_pStoreDriver s = None then become_driver api sa i d s else Some s);
       (j, e) \<leftarrow> the_driver s;
       Some ((S_OK, Some j), s\<lparr>sk_drivers := (sk_drivers s)(j \<mapsto> e\<lparr>m_cRef := m_cRef e + 1\<rparr>)\<rparr>) } }"

definition PrepareForShutdown :: "nat \<Rightarrow> 'w sink \<Rightarrow> (HRESULT \<times> 'w sink) option" where
  "PrepareForShutdown i s = do {
     d \<leftarrow> sk_drivers s i;
     Some (S_OK, s\<lparr>sk_drivers := (sk_drivers s)(i \<mapsto> d\<lparr>m_lPrepareForShutdown := 1\<rparr>)\<rparr>) }"

definition Driver_Shutdown :: "'w sink_api \<Rightarrow> nat \<Rightarrow> 'w sink \<Rightarrow> (HRESULT \<times> 'w sink) option" where
  "Driver_Shutdown sa i s = do {
     d \<leftarrow> sk_drivers s i;
     Some (S_OK, log_os sa SINK_STOPPED None (s\<lparr>sk_drivers := (sk_drivers s)(i \<mapsto> d\<lparr>m_fInit := False\<rparr>)\<rparr>)) }"

definition EnumerateAndSubmitMessages :: "'w sink \<Rightarrow> HRESULT \<times> 'w sink" where
  "EnumerateAndSubmitMessages s = (S_OK, s)"

subsection \<open>Synchronous delivery\<close>

text \<open>The statements that mark a recipient; an error is logged and goes no further.\<close>

definition sync_mark :: "'w sink_api \<Rightarrow> DWORD \<Rightarrow> DWORD \<Rightarrow> DWORD \<Rightarrow> 'w sink \<Rightarrow> 'w sink" where
  "sync_mark sa pos i dwMark s =
     (case with_os (\<lambda>w. GetRecipientFlags sa w i) (s\<lparr>sk_marks := sk_marks s @ [(pos, dwMark)]\<rparr>) of ((hr2, flags), s) \<Rightarrow>
        if SUCCEEDED hr2 then
          (case with_os (\<lambda>w. PutRecipientFlags sa w i (flags OR dwMark)) s of (hr2, s) \<Rightarrow>
             if SUCCEEDED hr2 then s else log_os sa PUT_RECIPIENT_FLAGS_FAILED (Some hr2) s)
        else log_os sa GET_RECIPIENT_FLAGS_FAILED (Some hr2) s)"

text \<open>The contents into a mail that was created: \<^verbatim>\<open>CopyContentToFileEx\<close>, then \<^verbatim>\<open>CloseMail\<close> of a \<^verbatim>\<open>NULL\<close> handle.\<close>

definition sync_copy :: "'w win32 \<Rightarrow> 'w sink_api \<Rightarrow> HRESULT \<Rightarrow> HANDLE \<Rightarrow> 'w sink \<Rightarrow> HRESULT \<times> 'w sink" where
  "sync_copy api sa hr hf s =
     (let (hr, s) =
        (case with_os (\<lambda>w. AssociateFile sa w hf) s of (ok, s) \<Rightarrow>
           if ok then
             (case with_os (\<lambda>w. CopyContentToFile sa w hf) s of (hr, s) \<Rightarrow>
                let s = (if SUCCEEDED hr then s else log_os sa COPYCONTENTTOFILE_FAILED (Some hr) s)
                in (hr, s\<lparr>sk_os := ReleaseContext sa (sk_os s) hf\<rparr>))
           else (hr, snd (with_os (\<lambda>w. CloseHandle api w hf)
                  (log_os sa ASSOCIATEFILE_FAILED (Some (GetLastError api (sk_os s))) s))));
          (rc, s) = with_os (CloseMail api NULL_HANDLE FILE_FLAG_OVERLAPPED) s
      in if rc \<noteq> ERROR_SUCCESS
         then (if SUCCEEDED hr then E_FAIL else hr, log_os sa CLOSEMAIL_FAILED None s)
         else (hr, s))"

text \<open>One pass of the loop; the mailbox object is shared by the passes.\<close>

definition sync_recipient :: "'w win32 \<Rightarrow> 'w sink_api \<Rightarrow> SYSTEMTIME \<Rightarrow> DWORD \<Rightarrow> DWORD \<Rightarrow> CMailBox \<times> 'w sink
    \<Rightarrow> (HRESULT \<times> CMailBox \<times> 'w sink) option" where
  "sync_recipient api sa st pos i t = (case t of (box, s) \<Rightarrow>
     case with_os (\<lambda>w. GetRecipientAddress sa w i SINK_MAX_PATH) s of ((hr, szAddress), s) \<Rightarrow>
     if \<not> SUCCEEDED hr then Some (hr, box, log_os sa GET_RP_ADDRESS_SMTP_FAILED (Some hr) s)
     else (case with_os (\<lambda>w. ToWideChar sa w szAddress SINK_MAX_PATH) s of
       (None, s) \<Rightarrow> Some (HRESULT_FROM_WIN32 (GetLastError api (sk_os s)), box, s)
     | (Some addr, s) \<Rightarrow> do {
         (ok, box, root, w) \<leftarrow> OpenMailBox api addr (box, sk_root s, sk_os s);
         let s = s\<lparr>sk_root := root, sk_os := w\<rparr>;
         if \<not> ok then Some (hr, box, sync_mark sa pos i RP_FAILED s)
         else (let
           s = s\<lparr>s_dwCounter := s_dwCounter s + 1\<rparr>;
           (hf, s) = with_os (\<lambda>w. CreateMail api (Some (store_name st (s_dwCounter s)))
             (FILE_FLAG_OVERLAPPED OR FILE_FLAG_WRITE_THROUGH OR FILE_FLAG_SEQUENTIAL_SCAN) (box, w)) s;
           (hr, s) = (if hf \<noteq> INVALID_HANDLE_VALUE then sync_copy api sa hr hf s
                      else (hr, log_os sa CREATEMAIL_FAILED (Some (GetLastError api (sk_os s))) s));
           s = (if SUCCEEDED hr then sync_mark sa pos i RP_DELIVERED s else s)
           in Some (hr, CloseMailBox box, s)) }))"

fun sync_loop :: "'w win32 \<Rightarrow> 'w sink_api \<Rightarrow> SYSTEMTIME \<Rightarrow> DWORD \<Rightarrow> DWORD list \<Rightarrow> HRESULT \<Rightarrow> CMailBox \<times> 'w sink
    \<Rightarrow> (HRESULT \<times> 'w sink) option" where
  "sync_loop api sa st pos [] hr (box, s) = Some (hr, s)"
| "sync_loop api sa st pos (i # idx) hr (box, s) =
     (if \<not> SUCCEEDED hr then Some (hr, s)
      else do {
        (hr, box, s) \<leftarrow> sync_recipient api sa st pos i (box, s);
        sync_loop api sa st (pos + 1) idx hr (box, s) })"

definition Driver_DoLocalDelivery :: "'w win32 \<Rightarrow> 'w sink_api \<Rightarrow> DWORD \<Rightarrow> DWORD list \<Rightarrow> 'w sink
    \<Rightarrow> (HRESULT \<times> 'w sink) option" where
  "Driver_DoLocalDelivery api sa dwRecipCount pdwRecipIndexes s =
     (case with_os (GetLocalTime sa) s of (st, s) \<Rightarrow>
      case with_os (QueryMailMsgRecipients sa) s of (hr, s) \<Rightarrow>
        if SUCCEEDED hr
        then sync_loop api sa st 0 (take (unat dwRecipCount) pdwRecipIndexes) hr (new_CMailBox, s)
        else Some (hr, log_os sa QI_MAILMSGRECIPIENTS_FAILED (Some hr) s))"

subsection \<open>Delivery\<close>

text \<open>
  \<^verbatim>\<open>LocalDelivery\<close>, with the object that is left running, if any.  The arguments \<^term>\<open>raw\<close> and \<^term>\<open>ok\<close>
  describe the memory of a new delivery object: its contents, \<^term>\<open>None\<close> when there is none, and the
  success of the allocation inside its constructor.
\<close>

definition LocalDelivery :: "'w win32 \<Rightarrow> 'w sink_api \<Rightarrow> CPOP3DropDir option \<Rightarrow> bool \<Rightarrow> bool \<Rightarrow> DWORD
    \<Rightarrow> DWORD list option \<Rightarrow> bool \<Rightarrow> 'w sink \<Rightarrow> (HRESULT \<times> CPOP3DropDir option \<times> 'w sink) option" where
  "LocalDelivery api sa raw ok pMsg dwRecipCount pdwRecipIndexes pNotify s =
     (case pdwRecipIndexes of
        None \<Rightarrow> Some (E_INVALIDARG, None, s)
      | Some idx \<Rightarrow>
          if \<not> pMsg then Some (E_INVALIDARG, None, s)
          else if \<not> pNotify then do {
            (hr, s) \<leftarrow> Driver_DoLocalDelivery api sa dwRecipCount idx s;
            Some (hr, None, s) }
          else (case raw of
            None \<Rightarrow> Some (E_OUTOFMEMORY, None, s)
          | Some r \<Rightarrow> do {
              (hr, dd, s) \<leftarrow> DropDir_DoLocalDelivery api sa (new_CPOP3DropDir r ok dwRecipCount idx pNotify s, s);
              if hr \<noteq> MAILMSG_S_PENDING then do {
                s \<leftarrow> delete_CPOP3DropDir api sa (dd, s);
                Some (hr, None, s) }
              else Some (hr, Some dd, s) }))"

section \<open>What the caller learns\<close>

lemma delivery_ended: "delivery api sa c c' \<Longrightarrow> fst c = None \<Longrightarrow> c' = c"
  by (induction rule: delivery.induct) auto

lemma new_CPOP3DropDir_life:
  assumes "n \<noteq> 0" "unat n \<le> length idx" "sk_marks s = []" "sk_notified s = []" "s_pStoreDriver s \<noteq> None"
  shows "life sa n (Some (new_CPOP3DropDir raw True n idx True s), s)
    \<and> m_hr (new_CPOP3DropDir raw True n idx True s) = S_OK"
  using assms by (auto simp: new_CPOP3DropDir_def Let_def sized_def positions_def)


text \<open>
  C40. Synchronous delivery reports the opposite of what happened.  \<^verbatim>\<open>CloseMail\<close> is called with a \<^verbatim>\<open>NULL\<close>
  handle, which the system refuses to flush; so when the mail of a recipient could be created, the
  delivery fails and the recipient is not marked, whatever was copied, and when it could not be
  created the delivery succeeds and the recipient is marked as delivered.
\<close>

theorem sync_delivery_misreports:
  assumes flush: "\<And>w. fst (NtFlushBuffersFile api w NULL_HANDLE) \<noteq> ERROR_SUCCESS"
    and a: "GetRecipientAddress sa (sk_os s) i SINK_MAX_PATH = ((S_OK, addr), w1)"
    and b: "ToWideChar sa w1 addr SINK_MAX_PATH = (Some name, w2)"
    and c: "OpenMailBox api name (box, sk_root s, w2) = Some (True, box1, root, w3)"
    and d: "CreateMail api (Some (store_name st (s_dwCounter s + 1)))
       (FILE_FLAG_OVERLAPPED OR FILE_FLAG_WRITE_THROUGH OR FILE_FLAG_SEQUENTIAL_SCAN) (box1, w3) = (hf, w4)"
  shows "\<exists>hr s'. sync_recipient api sa st pos i (box, s) = Some (hr, CloseMailBox box1, s')
    \<and> (SUCCEEDED hr \<longleftrightarrow> hf = INVALID_HANDLE_VALUE)
    \<and> sk_marks s' = sk_marks s @ (if hf = INVALID_HANDLE_VALUE then [(pos, RP_DELIVERED)] else [])"
proof -
  have close: "fst (CloseMail api NULL_HANDLE FILE_FLAG_OVERLAPPED w) \<noteq> ERROR_SUCCESS" for w
    using flush [of w] by (auto simp: CloseMail_def Let_def split_def FILE_FLAG_OVERLAPPED_def)
  have copy: "\<not> SUCCEEDED (fst (sync_copy api sa hr h t)) \<and> sk_marks (snd (sync_copy api sa hr h t)) = sk_marks t"
    for hr h t
    using close by (auto simp: sync_copy_def with_os_def log_os_def Let_def split_def)
  have mark: "sk_marks (sync_mark sa pos i m t) = sk_marks t @ [(pos, m)]" for m t
    by (simp add: sync_mark_def with_os_def log_os_def split_def)
  show ?thesis
    using copy mark a b c d
    by (cases "hf = INVALID_HANDLE_VALUE")
      (auto simp: sync_recipient_def with_os_def log_os_def Let_def split_def)
qed

section \<open>Instances\<close>

definition demo_started :: CPOP3DropDir where
  "demo_started = (new_CPOP3DropDir (demo_object []) True 1 [7] True demo_sink)
     \<lparr>m_pIMailMsgBind := True, m_pIMailMsgRecipients := True\<rparr>"

lemma demo_mail_created:
  "case OpenMailBox sim_api (wide ''u@d'') (new_CMailBox, sk_root demo_sink, sim_start) of
     Some (ok, box, root, w) \<Rightarrow> ok
       \<and> fst (CreateMail sim_api (Some (store_name demo_time 1 @ wide ''.eml''))
           (FILE_FLAG_OVERLAPPED OR FILE_FLAG_SEQUENTIAL_SCAN) (box, w\<lparr>sim_error := ERROR_NO_TOKEN\<rparr>)) \<noteq> INVALID_HANDLE_VALUE
   | None \<Rightarrow> False"
  by code_simp

lemma demo_driver_tokens:
  "s_pStoreDriver s = Some 0 \<Longrightarrow> sk_drivers s 0 = Some demo_driver \<Longrightarrow>
     Driver_SetToken sim_api sink_sim s = Some (s\<lparr>sk_drivers := (sk_drivers s)(0 \<mapsto> demo_driver),
       sk_os := (sk_os s)\<lparr>sim_error := ERROR_NO_TOKEN\<rparr>\<rparr>)"
  "s_pStoreDriver s = Some 0 \<Longrightarrow> sk_drivers s 0 = Some demo_driver \<Longrightarrow>
     Driver_ResetToken sim_api sink_sim (dd, s) = Some (dd, s)"
  by (simp_all add: Driver_SetToken_def Driver_ResetToken_def the_driver_def SetToken_def ResetToken_def with_os_def
      sink_sim_def sim_tokens_def demo_driver_def new_CAdjustTokenPrivileges_def sim_api_def)

lemma demo_copy_starts:
  "\<exists>h dd s. CopyMailToDropDir sim_api sink_sim (demo_started, demo_sink) = Some (S_OK, dd, s)
     \<and> m_PFIOContextWrite dd = Some h \<and> h \<noteq> INVALID_HANDLE_VALUE
     \<and> m_dwRecipCurrent dd = 0 \<and> m_dwRecipCount dd = 1 \<and> m_pdwRecipIndexes dd = Some [7]
     \<and> m_pIMailMsgRecipients dd \<and> m_pIMailMsgNotify dd \<and> m_hr dd = S_OK \<and> sk_notified s = []"
proof -
  obtain box root w where o: "OpenMailBox sim_api (wide ''u@d'') (new_CMailBox, sk_root demo_sink, sim_start)
      = Some (True, box, root, w)"
    using demo_mail_created by (auto split: option.splits)
  obtain h w' where c: "CreateMail sim_api (Some (store_name demo_time 1 @ wide ''.eml''))
      (FILE_FLAG_OVERLAPPED OR FILE_FLAG_SEQUENTIAL_SCAN) (box, w\<lparr>sim_error := ERROR_NO_TOKEN\<rparr>) = (h, w')"
    by fastforce
  have h: "h \<noteq> INVALID_HANDLE_VALUE" using demo_mail_created o c by simp
  show ?thesis
    using o c h
    by (simp add: CopyMailToDropDir_def open_recipient_def start_copy_def demo_driver_tokens DropDir_ReadFile_def with_os_def
        demo_started_def new_CPOP3DropDir_def demo_sink_def sink_sim_calls
        isAllRecipientsProcessed_def current_index_def peek_def demo_object_def)
qed

lemma demo_read_ends:
  assumes "m_PFIOContextWrite dd = Some h" "h \<noteq> INVALID_HANDLE_VALUE" "m_dwRecipCurrent dd = 0" "m_dwRecipCount dd = 1"
    "m_pdwRecipIndexes dd = Some [7]" "m_pIMailMsgRecipients dd" "m_pIMailMsgNotify dd" "m_hr dd = S_OK" "sk_notified s = []"
  shows "\<exists>s2. POP3DropDirReadCompletion sim_api sink_sim [] ERROR_HANDLE_EOF (dd, s) = Some (None, s2)
     \<and> sk_notified s2 = [S_OK]"
  using assms
  by (simp add: POP3DropDirReadCompletion_def ReadFileCompletion_def deliver_recipient_def MarkRecipient_def
      MailboxAndContextCleanup_def CloseMail_def with_os_def current_index_def peek_def sink_sim_def sim_api_def
      next_recipient_def finish_or_next_def isAllRecipientsProcessed_def delete_CPOP3DropDir_def Let_def
      ERROR_HANDLE_EOF_def ERROR_SUCCESS_def FILE_FLAG_OVERLAPPED_def)

lemma demo_delivery_starts:
  assumes "CopyMailToDropDir sim_api sink_sim (demo_started, demo_sink) = Some (S_OK, dd, s)"
  shows "LocalDelivery sim_api sink_sim (Some (demo_object [])) True True 1 (Some [7]) True demo_sink
    = Some (MAILMSG_S_PENDING, Some dd, s)"
proof -
  let ?o = "new_CPOP3DropDir (demo_object []) True 1 [7] True demo_sink"
  have "NextRecipientCopyMailToDropDir sim_api sink_sim (demo_started, demo_sink) = Some (S_OK, dd, s)"
    using NextRecipient_once [OF assms] by (simp add: S_OK_def ERROR_INVALID_MESSAGEDEST_def)
  moreover have "bind_message sink_sim (?o, demo_sink) = (S_OK, ?o\<lparr>m_pIMailMsgBind := True\<rparr>, demo_sink)"
    by (simp add: bind_message_def with_os_def sink_sim_def)
  moreover have "start_recipients sim_api sink_sim (?o\<lparr>m_pIMailMsgBind := True\<rparr>, demo_sink)
      = NextRecipientCopyMailToDropDir sim_api sink_sim (demo_started, demo_sink)"
    by (simp add: start_recipients_def with_os_def sink_sim_def demo_started_def)
  moreover have "m_hr ?o = S_OK" by (simp add: new_CPOP3DropDir_def demo_sink_def)
  ultimately show ?thesis by (simp add: LocalDelivery_def DropDir_DoLocalDelivery_def)
qed

lemma sink_sim_plain: "plain_results sink_sim"
  by (simp add: plain_results_def sink_sim_def)


text \<open>Synchronous delivery to a mailbox in which the mail can be created: nothing is marked.\<close>

definition sync_sim :: "sim win32" where
  "sync_sim = sim_api\<lparr>NtFlushBuffersFile := (\<lambda>w h. (if h = NULL_HANDLE then 0xC0000008 else 0, w))\<rparr>"

theorem sync_delivery_misreports_witness:
  "\<exists>hr box s'. sync_recipient sync_sim sink_sim demo_time 0 7 (new_CMailBox, demo_sink)
      = Some (hr, box, s') \<and> \<not> SUCCEEDED hr \<and> sk_marks s' = []"
proof -
  let ?st = "demo_time"
  have run: "case OpenMailBox sync_sim (wide ''u@d'') (new_CMailBox, sk_root demo_sink, sim_start) of
      Some (ok, box1, root, w3) \<Rightarrow> ok \<and> fst (CreateMail sync_sim (Some (store_name ?st (s_dwCounter demo_sink + 1)))
       (FILE_FLAG_OVERLAPPED OR FILE_FLAG_WRITE_THROUGH OR FILE_FLAG_SEQUENTIAL_SCAN) (box1, w3)) \<noteq> INVALID_HANDLE_VALUE
    | None \<Rightarrow> False"
    by code_simp
  obtain box1 root w3 where o: "OpenMailBox sync_sim (wide ''u@d'') (new_CMailBox, sk_root demo_sink, sim_start)
      = Some (True, box1, root, w3)"
    using run by (auto split: option.splits)
  obtain hf w4 where c: "CreateMail sync_sim (Some (store_name ?st (s_dwCounter demo_sink + 1)))
       (FILE_FLAG_OVERLAPPED OR FILE_FLAG_WRITE_THROUGH OR FILE_FLAG_SEQUENTIAL_SCAN) (box1, w3) = (hf, w4)"
    by fastforce
  have "hf \<noteq> INVALID_HANDLE_VALUE" using run o c by simp
  then show ?thesis
    using sync_delivery_misreports [of sync_sim sink_sim demo_sink 7 "''u@d''" sim_start "wide ''u@d''" sim_start
        new_CMailBox box1 root w3 ?st hf w4 0] o c
    by (auto simp: sync_sim_def sink_sim_def demo_sink_def ERROR_SUCCESS_def)
qed

end
