(* ===== verification/Drop_Copy.thy ===== *)
theory Drop_Copy
  imports Drop_Life Sink_Sim
begin

text \<open>
  What a delivery writes: the copy of a message into the mail of one recipient is the dot-stuffed
  message; the names of mails are distinct; the loop over the recipients ends.
\<close>

section \<open>The contents of a mail\<close>

text \<open>
  The file cache accepts reads, which leave the files alone, and writes at the end of an open file,
  which append to it.
\<close>

definition fio_laws :: "'w win32 \<Rightarrow> 'w sink_api \<Rightarrow> ('w \<Rightarrow> HANDLE \<Rightarrow> string option) \<Rightarrow> bool" where
  "fio_laws api sa content \<longleftrightarrow>
     (\<forall>w off n ok w'. FIOReadFile sa w off n = (ok, w') \<longrightarrow>
        (ok \<or> GetLastError api w' = ERROR_IO_PENDING) \<and> content w' = content w)
   \<and> (\<forall>w h off bs ok w'. FIOWriteFile sa w h off bs = (ok, w') \<longrightarrow>
        (\<forall>c. content w h = Some c \<and> unat off = length c \<longrightarrow>
          (ok \<or> GetLastError api w' = ERROR_IO_PENDING) \<and> content w' h = Some (c @ bs)))"

definition good_block :: "string \<Rightarrow> bool" where
  "good_block b \<longleftrightarrow> 3 \<le> length b \<and> length b \<le> PRIVATE_OPTIMAL_BUFFER_SIZE \<and> \<not> wants NA b 3 \<and> \<not> wants NA b 4"

text \<open>
  The completions for the blocks of the message: each block is read, and what the object then writes
  is written as a whole.
\<close>

fun copy_blocks :: "'w win32 \<Rightarrow> 'w sink_api \<Rightarrow> string list \<Rightarrow> CPOP3DropDir \<times> 'w sink
    \<Rightarrow> (CPOP3DropDir \<times> 'w sink) option" where
  "copy_blocks api sa [] t = Some t"
| "copy_blocks api sa (b # bs) t = do {
     (c, s) \<leftarrow> POP3DropDirReadCompletion api sa b ERROR_SUCCESS t;
     dd \<leftarrow> c;
     (c, s) \<leftarrow> POP3DropDirWriteCompletion api sa (length (dot_stuff (m_enumBWS (fst t)) b)) ERROR_SUCCESS (dd, s);
     dd \<leftarrow> c;
     copy_blocks api sa bs (dd, s) }"

text \<open>The state between the blocks, after \<^term>\<open>m\<close> of the message.\<close>

definition copied :: "('w \<Rightarrow> HANDLE \<Rightarrow> string option) \<Rightarrow> HANDLE \<Rightarrow> string \<Rightarrow> CPOP3DropDir \<times> 'w sink \<Rightarrow> bool" where
  "copied content h m t \<longleftrightarrow> m_PFIOContextWrite (fst t) = Some h
     \<and> length (m_sBuffer (fst t)) = OPTIMAL_BUFFER_W_DOTSTUFFING_PAD
     \<and> m_enumBWS (fst t) = wrap_after NA m
     \<and> m_i64ReadOffset (fst t) = of_nat (length m)
     \<and> m_i64WriteOffset (fst t) = of_nat (length (dot_stuff NA m))
     \<and> content (sk_os (snd t)) h = Some (dot_stuff NA m)"

lemma wrap_after_append: "wrap_after st (s @ t) = wrap_after (wrap_after st s) t"
  by (simp add: wrap_after_def)

lemma good_block_wants: "good_block b \<Longrightarrow> \<not> wants st b 3 \<and> \<not> wants st b 4"
  by (auto simp: good_block_def wants_ge_2)

lemma read_block:
  assumes laws: "fio_laws api sa content" and c: "copied content h m (dd, s)" and b: "good_block b"
    and fits: "length (dot_stuff NA m) < 2 ^ 64"
  shows "\<exists>dd' s'. POP3DropDirReadCompletion api sa b ERROR_SUCCESS (dd, s) = Some (Some dd', s')
    \<and> m_PFIOContextWrite dd' = Some h \<and> length (m_sBuffer dd') = OPTIMAL_BUFFER_W_DOTSTUFFING_PAD
    \<and> m_enumBWS dd' = wrap_after NA (m @ b) \<and> m_i64ReadOffset dd' = of_nat (length (m @ b))
    \<and> m_i64WriteOffset dd' = of_nat (length (dot_stuff NA m))
    \<and> content (sk_os s') h = Some (dot_stuff NA (m @ b))"
proof -
  let ?st = "wrap_after NA m" and ?rest = "drop (length b) (m_sBuffer dd)"
  have dd: "m_PFIOContextWrite dd = Some h" "m_enumBWS dd = ?st" "m_i64WriteOffset dd = of_nat (length (dot_stuff NA m))"
    "m_i64ReadOffset dd = of_nat (length m)" "content (sk_os s) h = Some (dot_stuff NA m)"
    and buf: "length (m_sBuffer dd) = OPTIMAL_BUFFER_W_DOTSTUFFING_PAD"
    using c by (simp_all add: copied_def)
  have len: "3 \<le> length b" "length b \<le> PRIVATE_OPTIMAL_BUFFER_SIZE" using b by (simp_all add: good_block_def)
  then have "length (b @ ?rest) = OPTIMAL_BUFFER_W_DOTSTUFFING_PAD" using buf by simp
  then obtain buf' q where stuff: "DotStuffBuffer (m_sStoreFileName_end dd) ?st 0 (length b) (b @ ?rest)
      = Some (Inr (buf', q, length (dot_stuff ?st b), wrap_after ?st b))"
    and buf': "length buf' = OPTIMAL_BUFFER_W_DOTSTUFFING_PAD"
    and bytes: "take (length (dot_stuff ?st b)) (drop q buf') = dot_stuff ?st b"
    using DotStuffBuffer_spec [OF len] good_block_wants [OF b] by blast
  obtain ok w where wr: "FIOWriteFile sa (sk_os s) h (of_nat (length (dot_stuff NA m))) (dot_stuff ?st b) = (ok, w)"
    by fastforce
  have unat: "unat (of_nat (length (dot_stuff NA m)) :: 64 word) = length (dot_stuff NA m)"
    using fits by (simp add: unsigned_of_nat take_bit_nat_eq_self)
  have ok: "ok \<or> GetLastError api w = ERROR_IO_PENDING" "content w h = Some (dot_stuff NA m @ dot_stuff ?st b)"
    using laws wr dd(5) unat unfolding fio_laws_def by metis+
  have "b \<noteq> []" using len(1) by auto
  moreover have "ERROR_SUCCESS \<noteq> ERROR_HANDLE_EOF" by (simp add: ERROR_SUCCESS_def ERROR_HANDLE_EOF_def)
  moreover have "S_OK \<noteq> HRESULT_FROM_WIN32 ERROR_HANDLE_EOF"
    using HRESULT_FROM_WIN32_fails [of ERROR_HANDLE_EOF] by (auto simp: ERROR_HANDLE_EOF_def)
  ultimately show ?thesis
    using ok dd stuff bytes wr buf'
    by (auto simp: POP3DropDirReadCompletion_def ReadFileCompletion_def DropDir_WriteFile_def with_os_def
        unexpected_def wrap_after_append dot_stuff_append Let_def)
qed

lemma write_block:
  assumes laws: "fio_laws api sa content"
  shows "\<exists>s'. POP3DropDirWriteCompletion api sa n ERROR_SUCCESS (dd, s)
      = Some (Some (dd\<lparr>m_i64WriteOffset := m_i64WriteOffset dd + of_nat n\<rparr>), s')
    \<and> content (sk_os s') = content (sk_os s)"
proof -
  obtain ok w where r: "FIOReadFile sa (sk_os s) (m_i64ReadOffset dd) PRIVATE_OPTIMAL_BUFFER_SIZE = (ok, w)" by fastforce
  then have "ok \<or> GetLastError api w = ERROR_IO_PENDING" "content w = content (sk_os s)"
    using laws unfolding fio_laws_def by blast+
  then show ?thesis
    using r by (auto simp: POP3DropDirWriteCompletion_def WriteFileCompletion_def DropDir_ReadFile_def with_os_def Let_def)
qed

lemma copy_blocks_copied:
  assumes laws: "fio_laws api sa content" and c: "copied content h [] (dd, s)"
    and good: "\<forall>b \<in> set bs. good_block b" and fits: "length (dot_stuff NA (concat bs)) < 2 ^ 64"
  shows "\<exists>t'. copy_blocks api sa bs (dd, s) = Some t' \<and> copied content h (concat bs) t'"
proof -
  have "\<exists>t'. copy_blocks api sa bs t = Some t' \<and> copied content h (m @ concat bs) t'"
    if "copied content h m t" "length (dot_stuff NA (m @ concat bs)) < 2 ^ 64" for m t
    using that good
  proof (induction bs arbitrary: m t)
    case (Cons b bs)
    obtain dd s where t: "t = (dd, s)" by (cases t)
    have less: "length (dot_stuff NA m) < 2 ^ 64" using Cons.prems(2) by (simp add: dot_stuff_append)
    obtain dd1 s1 where r: "POP3DropDirReadCompletion api sa b ERROR_SUCCESS (dd, s) = Some (Some dd1, s1)"
      and o: "m_PFIOContextWrite dd1 = Some h" "length (m_sBuffer dd1) = OPTIMAL_BUFFER_W_DOTSTUFFING_PAD"
        "m_enumBWS dd1 = wrap_after NA (m @ b)" "m_i64ReadOffset dd1 = of_nat (length (m @ b))"
        "m_i64WriteOffset dd1 = of_nat (length (dot_stuff NA m))" "content (sk_os s1) h = Some (dot_stuff NA (m @ b))"
      using read_block [OF laws Cons.prems(1) [unfolded t] _ less, of b] Cons.prems(3) by auto
    have st: "m_enumBWS dd = wrap_after NA m" using Cons.prems(1) by (simp add: t copied_def)
    let ?n = "length (dot_stuff (wrap_after NA m) b)"
    obtain s2 where w: "POP3DropDirWriteCompletion api sa ?n ERROR_SUCCESS (dd1, s1)
        = Some (Some (dd1\<lparr>m_i64WriteOffset := m_i64WriteOffset dd1 + of_nat ?n\<rparr>), s2)"
      "content (sk_os s2) = content (sk_os s1)"
      using write_block [OF laws] by blast
    have "copied content h (m @ b) (dd1\<lparr>m_i64WriteOffset := m_i64WriteOffset dd1 + of_nat ?n\<rparr>, s2)"
      using o w(2) by (simp add: copied_def dot_stuff_append)
    from Cons.IH [OF this] show ?case using Cons.prems(2,3) r w(1) st t by simp
  qed simp
  from this [of "[]" "(dd, s)"] show ?thesis using c fits by simp
qed



definition sim_content :: "sim \<Rightarrow> HANDLE \<Rightarrow> string option" where
  "sim_content w h = (case map_of (sim_open w) h of None \<Rightarrow> None | Some (n, _) \<Rightarrow> map_of (sim_files w) n)"

lemma map_of_update_key:
  "map_of (map (\<lambda>f. if fst f = n then (n, g (snd f)) else f) xs) n = map_option g (map_of xs n)"
  by (induction xs) auto

lemma sim_fio_laws: "fio_laws sim_api sink_sim sim_content"
  by (auto simp: fio_laws_def sink_sim_calls sim_fio_write_def sim_content_def sim_write_at_def map_of_update_key
      split: option.splits)

definition demo_blocks :: "string list" where
  "demo_blocks = [''To: u'' @ [CR], [LF, DOT, CHR ''a'', CR, LF, DOT, CHR ''x'']]"

abbreviation (input) "demo_copy \<equiv>
  ((demo_object (replicate OPTIMAL_BUFFER_W_DOTSTUFFING_PAD NUL))\<lparr>m_PFIOContextWrite := Some 16\<rparr>,
   demo_sink\<lparr>sk_os := sim_start\<lparr>sim_files := [(wide ''m'', [])], sim_open := [(16, wide ''m'', 0)]\<rparr>\<rparr>)"

lemma demo_copy_start: "copied sim_content 16 [] demo_copy"
  by (simp add: copied_def demo_object_def demo_sink_def sim_content_def sim_start_def)

lemma demo_blocks_good: "\<forall>b \<in> set demo_blocks. good_block b"
  by (simp add: demo_blocks_def good_block_def wants_ge_2)

lemma demo_stuffed:
  "dot_stuff NA (concat demo_blocks) = ''To: u'' @ [CR, LF, DOT, DOT, CHR ''a'', CR, LF, DOT, DOT, CHR ''x'']"
  by (simp add: demo_blocks_def)



section \<open>The names of mails\<close>

text \<open>
  The eight hexadecimal digits of the counter end the name, so names of different counters differ,
  whatever the clock says.
\<close>

lemma fmt_hex_digit_inject:
  assumes "x < 16" "y < 16" "fmt_hex_digit x = fmt_hex_digit y"
  shows "x = y"
proof -
  have "unat x < 16" "unat y < 16" using assms(1,2) by (simp_all add: word_less_nat_alt)
  moreover have "of_char (fmt_hex_digit x) = (of_char (fmt_hex_digit y) :: nat)" using assms(3) by simp
  ultimately have "unat x = unat y"
    by (auto simp: fmt_hex_digit_def word_less_nat_alt take_bit_nat_eq_self split: if_splits)
  then show ?thesis by (rule word_unat_eq_iff [THEN iffD2])
qed

lemma nibble: "x AND 0xF = (take_bit 4 x :: DWORD)"
  by (simp add: take_bit_eq_mask mask_eq_exp_minus_1)

lemma nibble_less: "(x AND 0xF :: DWORD) < 16"
  by (simp add: nibble take_bit_eq_mod word_less_nat_alt unat_word_ariths)

lemma fmt_08x_inject: "fmt_08x x = fmt_08x y \<longleftrightarrow> x = y"
proof
  assume "fmt_08x x = fmt_08x y"
  then have eq: "take_bit 4 (drop_bit (4 * k) x) = take_bit 4 (drop_bit (4 * k) y)"
    if "k \<in> {7, 6, 5, 4, 3, 2, 1, 0}" for k
    using that unfolding fmt_08x_def nibble [symmetric] list.map list.inject
    by (elim conjE insertE emptyE) (simp_all only: fmt_hex_digit_inject nibble_less)
  show "x = y"
  proof (rule bit_word_eqI)
    fix i assume "i < LENGTH(32)"
    then have "i div 4 \<in> {7, 6, 5, 4, 3, 2, 1, 0}" by auto
    from arg_cong [OF eq [OF this], of "\<lambda>w. bit w (i mod 4)"]
    show "bit x i \<longleftrightarrow> bit y i" by (simp add: bit_take_bit_iff bit_drop_bit_eq)
  qed
qed simp

lemma length_fmt_08x [simp]: "length (fmt_08x x) = 8"
  by (simp add: fmt_08x_def)

text \<open>
  No two mails of a process get the same name while the counter has not come round: the names of
  mails with different counters differ, whatever the clock says.
\<close>

theorem store_name_distinct: "n \<noteq> n' \<Longrightarrow> store_name st n \<noteq> store_name st' n'"
proof
  assume n: "n \<noteq> n'" and eq: "store_name st n = store_name st' n'"
  have "drop (length (store_name st n) - 8) (store_name st n) = wide (fmt_08x n)" for st n
    by (simp add: store_name_def wide_def)
  with eq have "wide (fmt_08x n) = wide (fmt_08x n')" by metis
  moreover have "inj (of_char :: char \<Rightarrow> WCHAR)"
    by (rule injI) (metis unat_of_char_wchar of_char_eq_iff)
  ultimately show False using n by (simp add: wide_def fmt_08x_inject)
qed

theorem store_name_distinct_witness: "store_name demo_time 1 \<noteq> store_name demo_time 2"
  by (rule store_name_distinct) simp

section \<open>The loop over the recipients ends\<close>

text \<open>
  A change that is still, keeps the mail root and has a driver.  What the loop relies on: a read
  of the message is accepted, the wide form of an address fits its buffer, and the answers are plain.
\<close>

definition steady :: "CPOP3DropDir \<times> 'w sink \<Rightarrow> CPOP3DropDir \<times> 'w sink \<Rightarrow> bool" where
  "steady t u \<longleftrightarrow> still t u \<and> m_wszMailRoot (sk_root (snd u)) = m_wszMailRoot (sk_root (snd t))
     \<and> the_driver (snd t) \<noteq> None"

definition steadily :: "CPOP3DropDir \<times> 'w sink \<Rightarrow> (HRESULT \<times> CPOP3DropDir \<times> 'w sink) option \<Rightarrow> bool" where
  "steadily t r \<longleftrightarrow> (\<exists>hr u. r = Some (hr, u) \<and> steady t u)"

definition loop_laws :: "'w win32 \<Rightarrow> 'w sink_api \<Rightarrow> bool" where
  "loop_laws api sa \<longleftrightarrow> plain_results sa
   \<and> (\<forall>w off n ok w'. FIOReadFile sa w off n = (ok, w') \<longrightarrow> ok \<or> GetLastError api w' = ERROR_IO_PENDING)
   \<and> (\<forall>w a n x w'. ToWideChar sa w a n = (Some x, w') \<longrightarrow> length x < n)"

lemma driver_set: "the_driver s = None \<longleftrightarrow> (\<forall>i \<in> dom (sk_drivers s). s_pStoreDriver s \<noteq> Some i)"
  by (cases "s_pStoreDriver s") (auto simp: the_driver_def dom_def bind_eq_None_conv)

lemma driver_frame: "sink_frame (dd, s) (dd', s') \<Longrightarrow> the_driver s' = None \<longleftrightarrow> the_driver s = None"
  unfolding driver_set sink_frame_def by simp

lemma steady_driver: "steady t (dd, s) \<Longrightarrow> the_driver s \<noteq> None"
  using driver_frame [of "fst t" "snd t" dd s] by (auto simp: steady_def still_def)

lemma steady_trans: "steady t u \<Longrightarrow> steady u v \<Longrightarrow> steady t v"
  using still_trans [of t u v] by (auto simp: steady_def)

lemma steady_step:
  "steady t (dd, s) \<Longrightarrow> still (dd, s) (dd', s') \<Longrightarrow> sk_root s' = sk_root s \<Longrightarrow> steady t (dd', s')"
  using still_trans [of t "(dd, s)"] by (auto simp: steady_def)

lemma steadily_return: "steady t u \<Longrightarrow> steadily t (Some (hr, u))"
  by (simp add: steadily_def)

lemma steadily_log:
  assumes "steady t (dd, s)" "\<And>s'. steady t (dd, s') \<Longrightarrow> steadily t (f s')"
  shows "steadily t (do { s \<leftarrow> Driver_LogEvent sa ev e s; f s })"
  using steady_driver [OF assms(1)] assms(2) steady_step [OF assms(1) Driver_LogEvent_still [of sa ev e]]
  by (fastforce simp: Driver_LogEvent_def)

lemma steadily_os:
  assumes "steady t (dd, s)" "\<And>r s'. steady t (dd, s') \<Longrightarrow> steadily t (f r s')"
  shows "steadily t (case with_os g s of (r, s) \<Rightarrow> f r s)"
proof -
  obtain r w where w: "g (sk_os s) = (r, w)" by fastforce
  then have "with_os g s = (r, s\<lparr>sk_os := w\<rparr>)" by (simp add: with_os_def)
  with assms(2) steady_step [OF assms(1) with_os_still [OF this]] show ?thesis by simp
qed

lemma Driver_SetToken_returns:
  assumes "the_driver s \<noteq> None"
  shows "\<exists>s'. Driver_SetToken api sa s = Some s' \<and> sk_root s' = sk_root s"
proof -
  obtain i d where d: "s_pStoreDriver s = Some i" "sk_drivers s i = Some d"
    using assms by (auto simp: the_driver_def bind_eq_Some_conv)
  show ?thesis
    using d by (cases "SetToken api (sink_tokens sa) (m_AdjustTokenPrivilegesX d, sk_os s)")
      (simp add: Driver_SetToken_def Driver_LogEvent_def the_driver_def Let_def)
qed

lemma Driver_ResetToken_returns:
  assumes "the_driver s \<noteq> None"
  shows "\<exists>dd' s'. Driver_ResetToken api sa (dd, s) = Some (dd', s') \<and> sk_root s' = sk_root s"
proof -
  obtain i d where d: "s_pStoreDriver s = Some i" "sk_drivers s i = Some d"
    using assms by (auto simp: the_driver_def bind_eq_Some_conv)
  show ?thesis
    using d by (cases "ResetToken api (sink_tokens sa) (m_AdjustTokenPrivilegesX d, sk_os s)")
      (simp add: Driver_ResetToken_def Driver_LogEvent_def the_driver_def with_os_def Let_def)
qed

lemma steadily_SetToken:
  assumes "steady t (dd, s)" "\<And>s'. steady t (dd, s') \<Longrightarrow> steadily t (f s')"
  shows "steadily t (do { s \<leftarrow> Driver_SetToken api sa s; f s })"
proof -
  obtain s' where s': "Driver_SetToken api sa s = Some s'" "sk_root s' = sk_root s"
    using Driver_SetToken_returns [OF steady_driver [OF assms(1)]] by blast
  then show ?thesis using assms(2) steady_step [OF assms(1) Driver_SetToken_still [OF s'(1)]] by simp
qed

lemma steadily_ResetToken:
  assumes "steady t (dd, s)" "\<And>dd s'. steady t (dd, s') \<Longrightarrow> steadily t (f dd s')"
  shows "steadily t (do { (dd, s) \<leftarrow> Driver_ResetToken api sa (dd, s); f dd s })"
proof -
  obtain dd' s' where s': "Driver_ResetToken api sa (dd, s) = Some (dd', s')" "sk_root s' = sk_root s"
    using Driver_ResetToken_returns [OF steady_driver [OF assms(1)]] by blast
  then show ?thesis using assms(2) steady_step [OF assms(1) Driver_ResetToken_still [OF s'(1)]] by simp
qed

lemma ReadFile_accepted:
  assumes "loop_laws api sa" "steady t (dd, s)" "0 < n"
  shows "steadily t (DropDir_ReadFile api sa n (dd, s))"
proof -
  obtain ok w where r: "FIOReadFile sa (sk_os s) (m_i64ReadOffset dd) n = (ok, w)" by fastforce
  then have "ok \<or> GetLastError api w = ERROR_IO_PENDING" using assms(1) unfolding loop_laws_def by blast
  moreover have "steady t (dd, s\<lparr>sk_os := w\<rparr>)"
    using steady_step [OF assms(2)] by (simp add: still_def sink_frame_def)
  ultimately show ?thesis using r assms(3) by (auto simp: DropDir_ReadFile_def with_os_def steadily_def)
qed

lemma steady_update:
  "steady t (dd, s) \<Longrightarrow> steady t (dd\<lparr>m_PFIOContextWrite := h, m_i64ReadOffset := n, m_i64WriteOffset := k\<rparr>, s)"
  "steady t (dd, s) \<Longrightarrow> steady t (dd\<lparr>m_PFIOContextWrite := h\<rparr>, s)"
  "steady t (dd, s) \<Longrightarrow> steady t (dd\<lparr>m_sStoreFileName := f\<rparr>, s\<lparr>s_dwCounter := c\<rparr>)"
  "steady t (dd, s) \<Longrightarrow> steady t (dd, snd (with_os g s))"
  by (simp_all add: steady_def still_def sink_frame_def with_os_def split_def)

lemma steadily_if: "(b \<Longrightarrow> steadily t r) \<Longrightarrow> (\<not> b \<Longrightarrow> steadily t r') \<Longrightarrow> steadily t (if b then r else r')"
  by simp

lemma start_copy_steadily:
  assumes "loop_laws api sa" "steady t u"
  shows "steadily t (start_copy api sa st u)"
  using assms unfolding start_copy_def Let_def prod.case
  by (cases u) (auto intro!: steadily_SetToken steadily_ResetToken steadily_if steadily_log steadily_os steadily_return
      ReadFile_accepted steady_update)

lemma OpenMailBox_returns:
  assumes "m_wszMailRoot root \<noteq> []" "length name < POP3_MAX_ADDRESS_LENGTH"
  shows "\<exists>ok box' w'. OpenMailBox api name (box, root, w) = Some (ok, box', root, w')"
proof -
  have "length (takeWhile (\<lambda>c. c \<noteq> of_char (CHR 0x40)) (dropWhile (iswspace api) name)) < POP3_MAX_ADDRESS_LENGTH"
    using length_takeWhile_le [of "\<lambda>c. c \<noteq> of_char (CHR 0x40)" "dropWhile (iswspace api) name"]
      length_dropWhile_le [of "iswspace api" name] assms(2) by linarith
  then show ?thesis
    using assms(1) by (auto simp: OpenMailBox_def SetMailBoxPath_def Let_def split_def split: option.splits)
qed

lemma open_recipient_steadily:
  assumes laws: "loop_laws api sa" and c: "steady t (dd, s)" and root: "m_wszMailRoot (sk_root s) \<noteq> []"
  shows "steadily t (open_recipient api sa st a (dd, s))"
proof -
  obtain n w where n: "ToWideChar sa (sk_os s) a POP3_MAX_ADDRESS_LENGTH = (n, w)" by fastforce
  have cw: "steady t (dd\<lparr>m_sRecipEmailName := x, m_mailboxX := b\<rparr>, s\<lparr>sk_root := sk_root s, sk_os := w\<rparr>)"
      "steady t (dd, s\<lparr>sk_os := w\<rparr>)" for x b w
    using c by (simp_all add: steady_def still_def sink_frame_def)
  show ?thesis
  proof (cases n)
    case None
    then show ?thesis using n cw by (auto simp: open_recipient_def with_os_def intro!: steadily_return)
  next
    case (Some x)
    then have "length x < POP3_MAX_ADDRESS_LENGTH" using laws n unfolding loop_laws_def by blast
    then obtain ok box w' where "OpenMailBox api x (m_mailboxX dd, sk_root s, w) = Some (ok, box, sk_root s, w')"
      using OpenMailBox_returns [OF root, of x api "m_mailboxX dd" w] by blast
    then show ?thesis
      using n Some start_copy_steadily [OF laws cw(1)] steadily_return [OF cw(1)]
      by (simp add: open_recipient_def with_os_def Let_def)
  qed
qed

lemma MarkRecipient_returns:
  assumes "m_pIMailMsgRecipients dd" "current_index dd = Some i" "the_driver s \<noteq> None"
  shows "\<exists>hr w. MarkRecipient sa k dd s = Some (hr, s\<lparr>sk_marks := sk_marks s @ [(m_dwRecipCurrent dd, k)], sk_os := w\<rparr>)"
proof -
  have log: "\<exists>w. Driver_LogEvent sa ev e (s\<lparr>sk_marks := m, sk_os := v\<rparr>) = Some (s\<lparr>sk_marks := m, sk_os := w\<rparr>)" for ev e m v
    using assms(3) by (auto simp: Driver_LogEvent_def the_driver_def bind_eq_Some_conv)
  show ?thesis
    using assms(1,2) log
    by (fastforce simp: MarkRecipient_def with_os_def Let_def bind_eq_Some_conv split: prod.splits)
qed

lemma MailboxAndContextCleanup_returns:
  assumes "the_driver s \<noteq> None"
  shows "\<exists>hr dd' s'. MailboxAndContextCleanup api sa b (dd, s) = Some (hr, dd', s') \<and> sk_root s' = sk_root s"
proof -
  obtain i d where "s_pStoreDriver s = Some i" "sk_drivers s i = Some d"
    using assms by (auto simp: the_driver_def bind_eq_Some_conv)
  then show ?thesis
    by (cases "m_PFIOContextWrite dd")
      (auto simp: MailboxAndContextCleanup_def Driver_LogEvent_def the_driver_def with_os_def Let_def split_def)
qed

lemma fail_recipient_returns:
  assumes "m_pIMailMsgRecipients dd" "current_index dd = Some i" "the_driver s \<noteq> None"
  shows "\<exists>dd' s'. fail_recipient api sa (dd, s) = Some (dd', s') \<and> sk_root s' = sk_root s
    \<and> m_dwRecipCurrent dd' = m_dwRecipCurrent dd + 1"
proof -
  obtain hr w where m: "MarkRecipient sa RP_FAILED dd s
      = Some (hr, s\<lparr>sk_marks := sk_marks s @ [(m_dwRecipCurrent dd, RP_FAILED)], sk_os := w\<rparr>)" (is "_ = Some (hr, ?s)")
    using MarkRecipient_returns [OF assms] by blast
  have "the_driver ?s \<noteq> None" using assms(3) by (simp add: the_driver_def)
  then obtain hr' dd' s' where c: "MailboxAndContextCleanup api sa True (dd, ?s) = Some (hr', dd', s')" "sk_root s' = sk_root ?s"
    using MailboxAndContextCleanup_returns by blast
  then have "m_dwRecipCurrent dd' = m_dwRecipCurrent dd"
    using MailboxAndContextCleanup_still [OF c(1)] by (simp add: still_def)
  then show ?thesis using m c by (simp add: fail_recipient_def next_recipient_def)
qed

lemma sized_index:
  assumes "sized dd" "\<not> isAllRecipientsProcessed dd"
  shows "\<exists>i. current_index dd = Some i" "m_dwRecipCurrent dd < m_dwRecipCurrent dd + 1"
proof -
  have lt: "m_dwRecipCurrent dd < m_dwRecipCount dd" using assms(2) by (simp add: isAllRecipientsProcessed_def)
  then show "\<exists>i. current_index dd = Some i"
    using assms(1) by (auto simp: sized_def current_index_def peek_def word_less_nat_alt)
  show "m_dwRecipCurrent dd < m_dwRecipCurrent dd + 1"
    using lt unsigned_less [of "m_dwRecipCount dd", where ?'a = nat] by (simp add: word_less_nat_alt unat_word_ariths)
qed

text \<open>One recipient: the operation returns, and where it asks for the next one it has passed this one.\<close>

lemma CopyMailToDropDir_returns:
  assumes laws: "loop_laws api sa" and z: "sized dd" "m_pIMailMsgRecipients dd"
    and s: "the_driver s \<noteq> None" "m_wszMailRoot (sk_root s) \<noteq> []"
  shows "\<exists>hr dd' s'. CopyMailToDropDir api sa (dd, s) = Some (hr, dd', s')
    \<and> m_wszMailRoot (sk_root s') = m_wszMailRoot (sk_root s)
    \<and> (hr = ERROR_INVALID_MESSAGEDEST \<longrightarrow> m_dwRecipCurrent dd < m_dwRecipCurrent dd')"
proof (cases "isAllRecipientsProcessed dd")
  case True
  then show ?thesis by (auto simp: CopyMailToDropDir_def with_os_def ERROR_INVALID_MESSAGEDEST_def E_FAIL_def split: prod.splits)
next
  case False
  obtain i where i: "current_index dd = Some i" using sized_index [OF z(1) False] by blast
  obtain st w1 where t1: "GetLocalTime sa (sk_os s) = (st, w1)" by fastforce
  obtain hr a w2 where t2: "GetRecipientAddress sa w1 i POP3_MAX_ADDRESS_LENGTH = ((hr, a), w2)" by (metis prod.exhaust)
  let ?s = "s\<lparr>sk_os := w2\<rparr>"
  have d: "the_driver ?s \<noteq> None" using s(1) by (simp add: the_driver_def)
  show ?thesis
  proof (cases "hr = S_OK")
    case ok: True
    have "steadily (dd, s) (open_recipient api sa st a (dd, ?s))"
      using s by (intro open_recipient_steadily [OF laws]) (simp_all add: steady_def still_def sink_frame_def)
    then obtain hr' dd' s' where o: "open_recipient api sa st a (dd, ?s) = Some (hr', dd', s')" and c: "steady (dd, s) (dd', s')"
      by (auto simp: steadily_def)
    have cur: "current_index dd' = Some i" "m_pIMailMsgRecipients dd'" "m_dwRecipCurrent dd' = m_dwRecipCurrent dd"
      using c i z(2) by (simp_all add: steady_def still_def sink_frame_def current_index_def)
    obtain dd2 s2 where f: "fail_recipient api sa (dd', s') = Some (dd2, s2)" "sk_root s2 = sk_root s'"
      "m_dwRecipCurrent dd2 = m_dwRecipCurrent dd' + 1"
      using fail_recipient_returns [OF cur(2,1) steady_driver [OF c]] by blast
    then show ?thesis
      using False ok z(2) i t1 t2 o c cur sized_index(2) [OF z(1) False]
      by (auto simp: CopyMailToDropDir_def with_os_def steady_def S_OK_def ERROR_INVALID_MESSAGEDEST_def)
  next
    case bad: False
    have "plain hr" using laws t2 unfolding loop_laws_def plain_results_def by (metis fst_conv)
    then have "hr \<noteq> ERROR_INVALID_MESSAGEDEST"
      by (auto simp: plain_def ERROR_INVALID_MESSAGEDEST_def S_OK_def SUCCEEDED_def)
    then show ?thesis
      using False bad z(2) i t1 t2 d by (auto simp: CopyMailToDropDir_def with_os_def Driver_LogEvent_def)
  qed
qed



end
