(* ===== verification/Admin_Base.thy ===== *)
theory Admin_Base
  imports Mail_Box Auth_Types
begin

text \<open>
  The administration of domains and mailboxes, class \<^verbatim>\<open>CP3AdminWorker\<close> of
  \<^verbatim>\<open>pop3/admin/p3admin/p3adminworker.cpp\<close>: its state, the paths and addresses it builds, the tests for
  the existence of a domain, the names of mailboxes, and the settings in the registry.  Also
  \<^verbatim>\<open>BDeleteDirTree\<close> of \<^verbatim>\<open>pop3/shared/util/util.cpp\<close>.

  The metabase of the SMTP service (ADSI), DNS, the mutexes and the collection of authentication
  methods are calls of the parameter \<^verbatim>\<open>admin_api\<close>.  String arguments are optional, as the pointers are;
  a result that the code returns through a pointer is part of the result.  As in \<^verbatim>\<open>Win32_Api\<close>, a search
  of a directory is the finite sequence of entries that its calls deliver.
\<close>

section \<open>The code\<close>

definition ERROR_PATH_NOT_FOUND :: DWORD where "ERROR_PATH_NOT_FOUND = 3"
definition ERROR_FILE_EXISTS :: DWORD where "ERROR_FILE_EXISTS = 80"
definition ERROR_LOCKED :: DWORD where "ERROR_LOCKED = 212"
definition ERROR_NOT_LOCKED :: DWORD where "ERROR_NOT_LOCKED = 158"
definition ERROR_ALREADY_EXISTS :: DWORD where "ERROR_ALREADY_EXISTS = 183"
definition ERROR_INVALID_DOMAINNAME :: DWORD where "ERROR_INVALID_DOMAINNAME = 1212"
definition ERROR_DOMAIN_EXISTS :: DWORD where "ERROR_DOMAIN_EXISTS = 1356"
definition ERROR_NO_SUCH_DOMAIN :: DWORD where "ERROR_NO_SUCH_DOMAIN = 1355"
definition ERROR_INVALID_DOMAIN_STATE :: DWORD where "ERROR_INVALID_DOMAIN_STATE = 1353"
definition ERROR_USER_EXISTS :: DWORD where "ERROR_USER_EXISTS = 1316"
definition ERROR_NO_SUCH_USER :: DWORD where "ERROR_NO_SUCH_USER = 1317"
definition ERROR_BAD_USERNAME :: DWORD where "ERROR_BAD_USERNAME = 2202"
definition ERROR_DS_RANGE_CONSTRAINT :: DWORD where "ERROR_DS_RANGE_CONSTRAINT = 8322"
definition ERROR_DS_INAPPROPRIATE_AUTH :: DWORD where "ERROR_DS_INAPPROPRIATE_AUTH = 8233"
definition TYPE_E_BUFFERTOOSMALL :: HRESULT where "TYPE_E_BUFFERTOOSMALL = 0x80028016"
definition FILE_ATTRIBUTE_DIRECTORY :: DWORD where "FILE_ATTRIBUTE_DIRECTORY = 0x10"
definition SMTP_DELIVER :: DWORD where "SMTP_DELIVER = 16"
definition LOCKRENAME_FILENAME :: wstring where "LOCKRENAME_FILENAME = wide ''kcoL''"
definition MAILBOX_EXTENSION2_W :: wstring where "MAILBOX_EXTENSION2_W = wide ''.tmp''"
definition DOMAINMUTEX_NAME :: wstring where
  "DOMAINMUTEX_NAME = wide (''Global'' @ [BACKSLASH] @ ''P3AdminWorkerDomain-'')"
definition USERMUTEX_NAME :: wstring where
  "USERMUTEX_NAME = wide (''Global'' @ [BACKSLASH] @ ''P3AdminWorkerUser-'')"
definition ADS_SMTPDOMAIN_PATH_LOCAL :: wstring where
  "ADS_SMTPDOMAIN_PATH_LOCAL = wide ''IIS://LocalHost/SMTPSVC/1/Domain''"
definition ADS_SMTPDOMAIN_PATH_REMOTE :: "wstring \<Rightarrow> wstring" where
  "ADS_SMTPDOMAIN_PATH_REMOTE m = wide ''IIS://'' @ m @ wide ''/SMTPSVC/1/Domain''"

subsection \<open>The state\<close>

text \<open>
  The calls on ADSI objects name the object by the path it was opened with.  \<^verbatim>\<open>FindFirstFileEx\<close> limits
  a search to directories as far as the file system does so.  \<^verbatim>\<open>EnumDomains\<close> stands for the enumeration
  of the domains by \<^verbatim>\<open>IP3Domains\<close>: the names that its calls of \<^verbatim>\<open>Next\<close> deliver and the code of the call
  that delivers none.
\<close>

record 'w admin_api =
  MoveFile :: "'w \<Rightarrow> wstring \<Rightarrow> wstring \<Rightarrow> bool \<times> 'w"
  FindFirstFileEx :: "'w \<Rightarrow> wstring \<Rightarrow> WIN32_FIND_DATA list \<times> 'w"
  DnsValidateName :: "'w \<Rightarrow> wstring \<Rightarrow> DWORD \<times> 'w"
  CreateMutex :: "'w \<Rightarrow> wstring \<Rightarrow> HANDLE \<times> 'w"
  ADsGetObject :: "'w \<Rightarrow> wstring \<Rightarrow> HRESULT \<times> 'w"
  ADsGetContainer :: "'w \<Rightarrow> wstring \<Rightarrow> HRESULT \<times> 'w"
  Container_Create :: "'w \<Rightarrow> wstring \<Rightarrow> wstring \<Rightarrow> HRESULT \<times> 'w"
  Container_Delete :: "'w \<Rightarrow> wstring \<Rightarrow> wstring \<Rightarrow> HRESULT \<times> 'w"
  QueryIADs :: "'w \<Rightarrow> HRESULT \<times> 'w"
  Put_RouteAction :: "'w \<Rightarrow> wstring \<Rightarrow> wstring \<Rightarrow> DWORD \<Rightarrow> HRESULT \<times> 'w"
  SetInfo :: "'w \<Rightarrow> wstring \<Rightarrow> HRESULT \<times> 'w"
  CoCreateAuthMethods :: "'w \<Rightarrow> HRESULT \<times> 'w"
  put_AuthMachineName :: "'w \<Rightarrow> wstring \<Rightarrow> HRESULT \<times> 'w"
  get_CurrentAuth :: "'w \<Rightarrow> HRESULT \<times> 'w"
  get_AuthItem :: "'w \<Rightarrow> HRESULT \<times> 'w"
  get_AuthID :: "'w \<Rightarrow> (HRESULT \<times> wstring) \<times> 'w"
  NewEnumDomains :: "'w \<Rightarrow> HRESULT \<times> 'w"
  EnumDomains :: "'w \<Rightarrow> (wstring list \<times> HRESULT) \<times> 'w"

text \<open>The worker, the static mail root of \<^verbatim>\<open>CMailBox\<close> and the world.\<close>

record 'w admin =
  m_psMachineName :: "wstring option"
  m_psMachineMailRoot :: "wstring option"
  m_isPOP3Installed :: bool
  ad_root :: MailRoot
  ad_os :: 'w

definition ask_os :: "('w \<Rightarrow> 'a \<times> 'w) \<Rightarrow> 'w admin \<Rightarrow> 'a \<times> 'w admin" where
  "ask_os f s = (case f (ad_os s) of (r, w) \<Rightarrow> (r, s\<lparr>ad_os := w\<rparr>))"

definition tell_os :: "('w \<Rightarrow> 'w) \<Rightarrow> 'w admin \<Rightarrow> 'w admin" where
  "tell_os f s = s\<lparr>ad_os := f (ad_os s)\<rparr>"

definition last_error :: "'w win32 \<Rightarrow> 'w admin \<Rightarrow> HRESULT" where
  "last_error api s = HRESULT_FROM_WIN32 (GetLastError api (ad_os s))"

text \<open>\<^verbatim>\<open>if SUCCEEDED( hr ) hr = E_FAIL;\<close> after \<^verbatim>\<open>hr = HRESULT_FROM_WIN32( GetLastError())\<close>.\<close>

definition must_fail :: "'w win32 \<Rightarrow> 'w admin \<Rightarrow> HRESULT" where
  "must_fail api s = (if SUCCEEDED (last_error api s) then E_FAIL else last_error api s)"

text \<open>\<^verbatim>\<open>if ( S_OK == hr ) hr = ...;\<close>\<close>

definition if_ok :: "HRESULT \<times> 'w admin \<Rightarrow> ('w admin \<Rightarrow> HRESULT \<times> 'w admin) \<Rightarrow> HRESULT \<times> 'w admin" where
  "if_ok r f = (case r of (hr, s) \<Rightarrow> if hr = S_OK then f s else (hr, s))"

definition if_succeeded :: "HRESULT \<times> 'w admin \<Rightarrow> ('w admin \<Rightarrow> HRESULT \<times> 'w admin) \<Rightarrow> HRESULT \<times> 'w admin" where
  "if_succeeded r f = (case r of (hr, s) \<Rightarrow> if SUCCEEDED hr then f s else (hr, s))"

subsection \<open>Paths and addresses\<close>

definition GetSMTPDomainPath :: "wstring option \<Rightarrow> nat \<Rightarrow> 'w admin \<Rightarrow> HRESULT \<times> wstring" where
  "GetSMTPDomainPath psSuffix dwBufferSize s =
     (let n = (case psSuffix of None \<Rightarrow> 0 | Some x \<Rightarrow> length x + 1);
          (hr, p) =
            (case m_psMachineName s of
               None \<Rightarrow> if length ADS_SMTPDOMAIN_PATH_LOCAL + n < dwBufferSize
                        then (S_OK, ADS_SMTPDOMAIN_PATH_LOCAL) else (E_FAIL, [])
             | Some m \<Rightarrow> if length (ADS_SMTPDOMAIN_PATH_REMOTE (wide ''%s'')) + length m + n < dwBufferSize
                        then (S_OK, ADS_SMTPDOMAIN_PATH_REMOTE m) else (E_FAIL, []))
      in (hr, if hr = S_OK then (case psSuffix of None \<Rightarrow> p | Some x \<Rightarrow> p @ wide ''/'' @ x) else p))"

text \<open>
  The constructor: the object that is fetched to fill the cache of the directory is not used, and the
  buffer it is built in is long enough.
\<close>

definition new_CP3AdminWorker :: "'w win32 \<Rightarrow> 'w admin_api \<Rightarrow> DWORD \<Rightarrow> MailRoot \<Rightarrow> 'w \<Rightarrow> 'w admin option" where
  "new_CP3AdminWorker api ad dwVersion root w = do {
     let s = \<lparr>m_psMachineName = None, m_psMachineMailRoot = None, m_isPOP3Installed = True, ad_root = root, ad_os = w\<rparr>;
     let (hr, p) = GetSMTPDomainPath (Some []) (2 * MAX_PATH) s;
     let s = (if hr = S_OK then snd (ask_os (\<lambda>w. ADsGetObject ad w (butlast p)) s) else s);
     ((rc, dwVersion), w) \<leftarrow> RegQueryVersion api dwVersion None (ad_os s);
     Some (s\<lparr>m_isPOP3Installed := \<not> (rc = ERROR_SUCCESS \<and> dwVersion = 0), ad_os := w\<rparr>) }"

definition BuildDomainPath :: "'w win32 \<Rightarrow> wstring option \<Rightarrow> nat \<Rightarrow> 'w admin \<Rightarrow> ((HRESULT \<times> wstring) \<times> 'w admin) option" where
  "BuildDomainPath api psDomainName dwBufferSize s =
     (case psDomainName of
        None \<Rightarrow> Some ((E_INVALIDARG, []), s)
      | Some d \<Rightarrow> do {
          (psMailRoot, s) \<leftarrow>
            (case m_psMachineMailRoot s of
               Some r \<Rightarrow> Some (r, s)
             | None \<Rightarrow> do {
                 (r, root, w) \<leftarrow> GetMailRoot api (ad_root s) (ad_os s);
                 Some (r, s\<lparr>ad_root := root, ad_os := w\<rparr>) });
          Some (if 0 < length psMailRoot \<and> length psMailRoot + length d + 1 < dwBufferSize
                then (S_OK, path_join psMailRoot d) else (must_fail api s, []), s) })"

definition BuildEmailAddr :: "wstring option \<Rightarrow> wstring option \<Rightarrow> nat \<Rightarrow> HRESULT \<times> wstring" where
  "BuildEmailAddr psDomainName psUserName dwBufferSize =
     (case (psDomainName, psUserName) of
        (Some d, Some u) \<Rightarrow> if length d + length u + 1 < dwBufferSize then (S_OK, u @ wide ''@'' @ d) else (E_UNEXPECTED, [])
      | _ \<Rightarrow> (E_INVALIDARG, []))"

definition BuildUserPath :: "'w win32 \<Rightarrow> wstring option \<Rightarrow> wstring option \<Rightarrow> nat \<Rightarrow> 'w admin
    \<Rightarrow> ((HRESULT \<times> wstring) \<times> 'w admin) option" where
  "BuildUserPath api psDomainName psUserName dwBufferSize s =
     (case psUserName of
        None \<Rightarrow> Some ((E_INVALIDARG, []), s)
      | Some u \<Rightarrow> do {
          ((hr, p), s) \<leftarrow> BuildDomainPath api psDomainName dwBufferSize s;
          Some (if hr = S_OK
                then (if length p + length MAILBOX_PREFIX_W + length u + length MAILBOX_EXTENSION_W + 1 < dwBufferSize
                      then (S_OK, path_join p (MAILBOX_PREFIX_W @ u @ MAILBOX_EXTENSION_W)) else (E_FAIL, p))
                else (hr, p), s) })"

text \<open>The RFC 821 check of a mailbox name, with the table of the characters it allows.\<close>

definition g_ASCII128 :: "nat list" where
  "g_ASCII128 = [0,0,0,0,0,0,0,0,0,0,0,0,0,0,0,0, 0,0,0,0,0,0,0,0,0,0,0,0,0,0,0,0,
     0,1,0,1,1,1,1,1,0,0,0,1,0,1,1,0, 1,1,1,1,1,1,1,1,1,1,0,0,0,0,0,0,
     0,1,1,1,1,1,1,1,1,1,1,1,1,1,1,1, 1,1,1,1,1,1,1,1,1,1,1,0,0,0,1,1,
     1,1,1,1,1,1,1,1,1,1,1,1,1,1,1,1, 1,1,1,1,1,1,1,1,1,1,1,1,0,1,1,1]"

definition isValidMailboxName :: "wstring option \<Rightarrow> bool" where
  "isValidMailboxName psMailbox = (case psMailbox of
      None \<Rightarrow> False
    | Some u \<Rightarrow> \<not> (POP3_MAX_MAILBOX_LENGTH \<le> length u \<or> length u = 0)
        \<and> (\<forall>c \<in> set u. \<not> (127 < c \<or> g_ASCII128 ! unat c = 0))
        \<and> \<not> (hd u = of_char (CHR ''.'') \<or> last u = of_char (CHR ''.'')))"

subsection \<open>Domains that exist\<close>

definition ExistsSMTPDomain :: "'w admin_api \<Rightarrow> wstring option \<Rightarrow> 'w admin \<Rightarrow> HRESULT \<times> 'w admin" where
  "ExistsSMTPDomain ad psDomainName s =
     (case psDomainName of
        None \<Rightarrow> (E_INVALIDARG, s)
      | Some d \<Rightarrow>
          if \<not> m_isPOP3Installed s then (S_OK, s)
          else (let (hr, p) = GetSMTPDomainPath psDomainName POP3_MAX_PATH s
                in if hr = S_OK then ask_os (\<lambda>w. ADsGetObject ad w p) s else (hr, s)))"

definition is_directory :: "DWORD \<Rightarrow> bool" where
  "is_directory attr \<longleftrightarrow> FILE_ATTRIBUTE_DIRECTORY AND attr = FILE_ATTRIBUTE_DIRECTORY"

definition ExistsStoreDomain :: "'w win32 \<Rightarrow> 'w admin_api \<Rightarrow> wstring option \<Rightarrow> 'w admin \<Rightarrow> (HRESULT \<times> 'w admin) option" where
  "ExistsStoreDomain api ad psDomainName s =
     (case psDomainName of
        None \<Rightarrow> Some (E_INVALIDARG, s)
      | Some d \<Rightarrow>
          (case ask_os (\<lambda>w. DnsValidateName ad w d) s of (dnStatus, s) \<Rightarrow>
             if dnStatus \<noteq> ERROR_SUCCESS then Some (HRESULT_FROM_WIN32 ERROR_INVALID_DOMAINNAME, s)
             else do {
               ((hr, p), s) \<leftarrow> BuildDomainPath api psDomainName POP3_MAX_PATH s;
               Some (if hr = S_OK then
                       (case ask_os (\<lambda>w. GetFileAttributes api w p) s of (a, s) \<Rightarrow>
                          (if a = ERROR_NO_FILE_ATTR \<or> \<not> is_directory a
                           then HRESULT_FROM_WIN32 ERROR_PATH_NOT_FOUND else S_OK, s))
                     else (if SUCCEEDED hr then E_UNEXPECTED else hr, s)) }))"

definition ExistsDomain :: "'w win32 \<Rightarrow> 'w admin_api \<Rightarrow> wstring option \<Rightarrow> 'w admin \<Rightarrow> (bool \<times> 'w admin) option" where
  "ExistsDomain api ad psDomainName s =
     (case ExistsSMTPDomain ad psDomainName s of (hr, s) \<Rightarrow> do {
        (hr, s) \<leftarrow> (if SUCCEEDED hr then ExistsStoreDomain api ad psDomainName s else Some (hr, s));
        Some (SUCCEEDED hr, s) })"

definition ValidateDomain :: "'w win32 \<Rightarrow> 'w admin_api \<Rightarrow> wstring option \<Rightarrow> 'w admin \<Rightarrow> (HRESULT \<times> 'w admin) option" where
  "ValidateDomain api ad psDomainName s =
     (case ExistsSMTPDomain ad psDomainName s of (hr, s) \<Rightarrow>
        let hr = (if hr = HRESULT_FROM_WIN32 ERROR_PATH_NOT_FOUND then HRESULT_FROM_WIN32 ERROR_NO_SUCH_DOMAIN else hr)
        in if hr = S_OK then ExistsStoreDomain api ad psDomainName s else Some (hr, s))"

subsection \<open>Mutexes\<close>

definition create_mutex :: "'w win32 \<Rightarrow> 'w admin_api \<Rightarrow> nat \<Rightarrow> wstring \<Rightarrow> 'w admin \<Rightarrow> (HRESULT \<times> HANDLE) \<times> 'w admin" where
  "create_mutex api ad n name s =
     (let (h, s) = (if n > length name then ask_os (\<lambda>w. CreateMutex ad w name) s else (NULL_HANDLE, s))
      in ((if h = NULL_HANDLE then must_fail api s
           else if GetLastError api (ad_os s) = ERROR_ALREADY_EXISTS then E_ACCESSDENIED else S_OK, h), s))"

definition CreateDomainMutex :: "'w win32 \<Rightarrow> 'w admin_api \<Rightarrow> wstring option \<Rightarrow> 'w admin \<Rightarrow> (HRESULT \<times> HANDLE) \<times> 'w admin" where
  "CreateDomainMutex api ad psDomainName s = (case psDomainName of
      None \<Rightarrow> ((E_INVALIDARG, NULL_HANDLE), s)
    | Some d \<Rightarrow> create_mutex api ad (POP3_MAX_DOMAIN_LENGTH + 64) (DOMAINMUTEX_NAME @ d) s)"

definition CreateUserMutex :: "'w win32 \<Rightarrow> 'w admin_api \<Rightarrow> wstring option \<Rightarrow> wstring option \<Rightarrow> 'w admin
    \<Rightarrow> (HRESULT \<times> HANDLE) \<times> 'w admin" where
  "CreateUserMutex api ad psDomainName psUserName s = (case (psDomainName, psUserName) of
      (Some d, Some u) \<Rightarrow>
        create_mutex api ad (POP3_MAX_ADDRESS_LENGTH + 64) (USERMUTEX_NAME @ u @ wide ''@'' @ d) s
    | _ \<Rightarrow> ((E_INVALIDARG, NULL_HANDLE), s))"

text \<open>\<^verbatim>\<open>if ( NULL != hMutex ) CloseHandle( hMutex );\<close>\<close>

definition close_mutex :: "'w win32 \<Rightarrow> HANDLE \<Rightarrow> 'w admin \<Rightarrow> 'w admin" where
  "close_mutex api h s = (if h \<noteq> NULL_HANDLE then snd (ask_os (\<lambda>w. CloseHandle api w h) s) else s)"

subsection \<open>The mail root of another machine\<close>

definition set_root :: "'w win32 \<Rightarrow> wstring option \<Rightarrow> 'w admin \<Rightarrow> (HRESULT \<times> 'w admin) option" where
  "set_root api r s = do {
     (ok, root, w) \<leftarrow> SetMailRoot api r (ad_root s) (ad_os s);
     Some (if ok then S_OK else E_FAIL, s\<lparr>ad_root := root, ad_os := w\<rparr>) }"

definition MailboxSetRemote :: "'w win32 \<Rightarrow> 'w admin \<Rightarrow> (HRESULT \<times> 'w admin) option" where
  "MailboxSetRemote api s = (if m_psMachineMailRoot s \<noteq> None then set_root api (m_psMachineMailRoot s) s else Some (S_OK, s))"

definition MailboxResetRemote :: "'w win32 \<Rightarrow> 'w admin \<Rightarrow> (HRESULT \<times> 'w admin) option" where
  "MailboxResetRemote api s = (if m_psMachineMailRoot s \<noteq> None then set_root api None s else Some (S_OK, s))"

text \<open>
  \<^verbatim>\<open>GetMailroot\<close> into a buffer of \<^term>\<open>dwSize\<close> characters: on another machine the drive becomes its
  administrative share.
\<close>

definition remote_path :: "nat \<Rightarrow> wstring \<Rightarrow> wstring \<Rightarrow> (DWORD \<times> wstring)" where
  "remote_path dwSize m p =
     (if length p > 1 \<and> p ! 1 = of_char (CHR '':'')
      then (let p = p[1 := of_char (CHR ''$'')]
            in if dwSize > length p + length m + 3
               then (ERROR_SUCCESS, wide [BACKSLASH, BACKSLASH] @ path_join m p)
               else (ERROR_INSUFFICIENT_BUFFER, p))
      else (ERROR_SUCCESS, p))"

definition Admin_GetMailroot :: "'w win32 \<Rightarrow> nat \<Rightarrow> bool \<Rightarrow> 'w admin \<Rightarrow> ((HRESULT \<times> wstring) \<times> 'w admin) option" where
  "Admin_GetMailroot api dwSize bUNC s = do {
     ((lRC, p), w) \<leftarrow> RegQueryMailRoot api dwSize (m_psMachineName s) (ad_os s);
     let s = s\<lparr>ad_os := w\<rparr>;
     (case m_psMachineName s of
        Some m \<Rightarrow>
          if lRC = ERROR_SUCCESS \<and> bUNC then
            (case remote_path dwSize m p of (lRC, p') \<Rightarrow>
               if lRC = ERROR_SUCCESS \<and> p' \<noteq> p then
                 (case ask_os (alloc api) s of (ok, s) \<Rightarrow>
                    Some ((if ok then S_OK else HRESULT_FROM_WIN32 ERROR_OUTOFMEMORY,
                           if ok then p' else p[1 := of_char (CHR ''$'')]), s))
               else Some ((HRESULT_FROM_WIN32 lRC, p'), s))
          else Some ((HRESULT_FROM_WIN32 lRC, p), s)
      | None \<Rightarrow> Some ((HRESULT_FROM_WIN32 lRC, p), s)) }"

definition GetMachineName :: "nat \<Rightarrow> 'w admin \<Rightarrow> HRESULT \<times> wstring" where
  "GetMachineName dwSize s = (case m_psMachineName s of
      None \<Rightarrow> (S_OK, [])
    | Some m \<Rightarrow> if dwSize > length m then (S_OK, m) else (TYPE_E_BUFFERTOOSMALL, []))"

subsection \<open>The authentication method\<close>

definition GetAuthenticationMethods :: "'w admin_api \<Rightarrow> 'w admin \<Rightarrow> HRESULT \<times> 'w admin" where
  "GetAuthenticationMethods ad s = if_ok (ask_os (CoCreateAuthMethods ad) s) (\<lambda>s.
     case m_psMachineName s of Some m \<Rightarrow> ask_os (\<lambda>w. put_AuthMachineName ad w m) s | None \<Rightarrow> (S_OK, s))"

definition GetCurrentAuthentication :: "'w admin_api \<Rightarrow> 'w admin \<Rightarrow> HRESULT \<times> 'w admin" where
  "GetCurrentAuthentication ad s =
     if_ok (if_ok (GetAuthenticationMethods ad s) (ask_os (get_CurrentAuth ad))) (ask_os (get_AuthItem ad))"

text \<open>The identifier of the current method, which two operations ask for.\<close>

definition current_auth_id :: "'w admin_api \<Rightarrow> 'w admin \<Rightarrow> (HRESULT \<times> wstring) \<times> 'w admin" where
  "current_auth_id ad s = (case GetCurrentAuthentication ad s of (hr, s) \<Rightarrow>
     if hr = S_OK then ask_os (get_AuthID ad) s else ((hr, []), s))"

text \<open>
  \<^verbatim>\<open>SetMachineName\<close>.  The arguments \<^term>\<open>ok1\<close> and \<^term>\<open>ok2\<close> are the success of the two allocations; a buffer that
  was allocated and not filled holds \<^term>\<open>junk\<close>.
\<close>

definition SetMachineName :: "'w win32 \<Rightarrow> 'w admin_api \<Rightarrow> bool \<Rightarrow> bool \<Rightarrow> wstring \<Rightarrow> wstring option \<Rightarrow> 'w admin
    \<Rightarrow> (HRESULT \<times> 'w admin) option" where
  "SetMachineName api ad ok1 ok2 junk psMachineName s =
     (if \<not> m_isPOP3Installed s then Some (E_UNEXPECTED, s)
      else (let s = s\<lparr>m_psMachineName := None, m_psMachineMailRoot := None\<rparr> in
        case psMachineName of
          None \<Rightarrow> Some (S_OK, s)
        | Some m \<Rightarrow>
            if length m = 0 then Some (S_OK, s)
            else do {
              (hr, s) \<leftarrow>
                (if ok1 \<and> ok2 then do {
                   ((hr, p), s) \<leftarrow> Admin_GetMailroot api POP3_MAX_MAILROOT_LENGTH True (s\<lparr>m_psMachineName := Some m\<rparr>);
                   Some (hr, s\<lparr>m_psMachineMailRoot := Some (if hr = S_OK then p else junk)\<rparr>) }
                 else Some (E_OUTOFMEMORY, s\<lparr>m_psMachineName := (if ok1 then Some junk else None),
                              m_psMachineMailRoot := (if ok2 then Some junk else None)\<rparr>));
              Some (if hr = S_OK then GetCurrentAuthentication ad s else (hr, s)) }))"

subsection \<open>The settings\<close>

definition get_setting :: "'w win32 \<Rightarrow> 'w query_dword \<Rightarrow> DWORD \<Rightarrow> 'w admin \<Rightarrow> ((HRESULT \<times> DWORD) \<times> 'w admin) option" where
  "get_setting api query dwValue s = do {
     ((lRC, v), w) \<leftarrow> query api dwValue (m_psMachineName s) (ad_os s);
     Some (if lRC = ERROR_SUCCESS then (S_OK, v) else (HRESULT_FROM_WIN32 lRC, dwValue), s\<lparr>ad_os := w\<rparr>) }"

definition set_setting :: "'w win32 \<Rightarrow> 'w set_dword \<Rightarrow> int \<Rightarrow> 'w admin \<Rightarrow> (HRESULT \<times> 'w admin) option" where
  "set_setting api store v s = do {
     (lRC, w) \<leftarrow> store api (of_int v) (m_psMachineName s) (ad_os s);
     Some (HRESULT_FROM_WIN32 lRC, s\<lparr>ad_os := w\<rparr>) }"

definition Admin_GetConfirmAddUser :: "'w win32 \<Rightarrow> DWORD \<Rightarrow> 'w admin \<Rightarrow> ((HRESULT \<times> bool) \<times> 'w admin) option" where
  "Admin_GetConfirmAddUser api v s = do { ((hr, v), s) \<leftarrow> get_setting api RegQueryConfirmAddUser v s; Some ((hr, v \<noteq> 0), s) }"

definition Admin_GetSPARequired :: "'w win32 \<Rightarrow> DWORD \<Rightarrow> 'w admin \<Rightarrow> ((HRESULT \<times> bool) \<times> 'w admin) option" where
  "Admin_GetSPARequired api v s = do { ((hr, v), s) \<leftarrow> get_setting api RegQuerySPARequired v s; Some ((hr, v \<noteq> 0), s) }"

definition Admin_GetLoggingLevel where "Admin_GetLoggingLevel api = get_setting api RegQueryLoggingLevel"
definition Admin_GetPort where "Admin_GetPort api = get_setting api RegQueryPort"
definition Admin_GetSocketBacklog where "Admin_GetSocketBacklog api = get_setting api RegQuerySocketBacklog"
definition Admin_GetSocketMax where "Admin_GetSocketMax api = get_setting api RegQuerySocketMax"
definition Admin_GetSocketMin where "Admin_GetSocketMin api = get_setting api RegQuerySocketMin"
definition Admin_GetSocketThreshold where "Admin_GetSocketThreshold api = get_setting api RegQuerySocketThreshold"
definition Admin_GetThreadCountPerCPU where "Admin_GetThreadCountPerCPU api = get_setting api RegQueryThreadCountPerCPU"

text \<open>A \<^verbatim>\<open>BOOL\<close> is a number; \<^verbatim>\<open>TRUE\<close> is 1.\<close>

definition Admin_SetConfirmAddUser :: "'w win32 \<Rightarrow> int \<Rightarrow> 'w admin \<Rightarrow> (HRESULT \<times> 'w admin) option" where
  "Admin_SetConfirmAddUser api bConfirm s =
     (if bConfirm \<noteq> 1 \<and> bConfirm \<noteq> 0 then Some (HRESULT_FROM_WIN32 ERROR_DS_RANGE_CONSTRAINT, s)
      else set_setting api RegSetConfirmAddUser bConfirm s)"

definition Admin_SetLoggingLevel :: "'w win32 \<Rightarrow> int \<Rightarrow> 'w admin \<Rightarrow> (HRESULT \<times> 'w admin) option" where
  "Admin_SetLoggingLevel api lLoggingLevel s =
     (if 0 > lLoggingLevel \<or> 3 < lLoggingLevel then Some (HRESULT_FROM_WIN32 ERROR_DS_RANGE_CONSTRAINT, s)
      else set_setting api RegSetLoggingLevel lLoggingLevel s)"

definition Admin_SetPort :: "'w win32 \<Rightarrow> int \<Rightarrow> 'w admin \<Rightarrow> (HRESULT \<times> 'w admin) option" where
  "Admin_SetPort api lPort s =
     (if 1 > lPort \<or> 65535 < lPort then Some (HRESULT_FROM_WIN32 ERROR_DS_RANGE_CONSTRAINT, s)
      else set_setting api RegSetPort lPort s)"

definition Admin_SetThreadCountPerCPU :: "'w win32 \<Rightarrow> int \<Rightarrow> 'w admin \<Rightarrow> (HRESULT \<times> 'w admin) option" where
  "Admin_SetThreadCountPerCPU api lCount s =
     (if 1 > lCount \<or> 32 < lCount then Some (HRESULT_FROM_WIN32 ERROR_DS_RANGE_CONSTRAINT, s)
      else set_setting api RegSetThreadCount lCount s)"

text \<open>The four numbers are stored one after the other; the first failure ends it.\<close>

fun set_all :: "'w win32 \<Rightarrow> ('w set_dword \<times> int) list \<Rightarrow> 'w admin \<Rightarrow> (HRESULT \<times> 'w admin) option" where
  "set_all api [] s = Some (S_OK, s)"
| "set_all api ((f, v) # r) s = do {
     (hr, s) \<leftarrow> set_setting api f v s;
     if hr = S_OK then set_all api r s else Some (hr, s) }"

definition SetSockets :: "'w win32 \<Rightarrow> int \<Rightarrow> int \<Rightarrow> int \<Rightarrow> int \<Rightarrow> 'w admin \<Rightarrow> (HRESULT \<times> 'w admin) option" where
  "SetSockets api lMax lMin lThreshold lBacklog s =
     (if (1 > lMax \<or> 32000 < lMax) \<or> (1 > lMin \<or> 32000 < lMin)
         \<or> (0 > lThreshold \<or> 100 < lThreshold) \<or> (0 > lBacklog \<or> 100 < lBacklog)
      then Some (HRESULT_FROM_WIN32 ERROR_DS_RANGE_CONSTRAINT, s)
      else if lMax < lMin \<or> lMax < lMin + lThreshold then Some (E_INVALIDARG, s)
      else if lMin < lThreshold then Some (E_INVALIDARG, s)
      else if 1 > lThreshold \<and> \<not> (lMin = lMax \<and> lThreshold = 0) then Some (E_INVALIDARG, s)
      else set_all api [(RegSetSocketMax, lMax), (RegSetSocketMin, lMin), (RegSetSocketThreshold, lThreshold),
                        (RegSetSocketBacklog, lBacklog)] s)"

definition Admin_SetSPARequired :: "'w win32 \<Rightarrow> 'w admin_api \<Rightarrow> int \<Rightarrow> 'w admin \<Rightarrow> (HRESULT \<times> 'w admin) option" where
  "Admin_SetSPARequired api ad bSPARequired s =
     (if bSPARequired \<noteq> 1 \<and> bSPARequired \<noteq> 0 then Some (HRESULT_FROM_WIN32 ERROR_DS_RANGE_CONSTRAINT, s)
      else (let (hr, s) =
              (if bSPARequired = 1 then
                 (case current_auth_id ad s of ((hr, i), s) \<Rightarrow>
                    (if hr = S_OK \<and> wcsicmp_equal i SZ_AUTH_ID_MD5_HASH
                     then HRESULT_FROM_WIN32 ERROR_DS_INAPPROPRIATE_AUTH else hr, s))
               else (S_OK, s))
            in if hr = S_OK then set_setting api RegSetSPARequired bSPARequired s else Some (hr, s)))"

end
