(* ===== verification/Admin_Domain.thy ===== *)
theory Admin_Domain
  imports Admin_Base
begin

text \<open>
  The domains (\<^verbatim>\<open>pop3/admin/p3admin/p3adminworker.cpp\<close>): a domain is an object in the metabase of the SMTP
  service and a directory of the store.  Locking a domain renames the lock file of every mailbox, so
  that the service cannot open it, and puts a file into the directory of the domain.
\<close>

section \<open>The code\<close>

subsection \<open>The metabase\<close>

definition AddSMTPDomain :: "'w admin_api \<Rightarrow> wstring \<Rightarrow> 'w admin \<Rightarrow> HRESULT \<times> 'w admin" where
  "AddSMTPDomain ad d s =
     (let (hr, p) = GetSMTPDomainPath None POP3_MAX_PATH s;
          r = (if hr = S_OK then ask_os (\<lambda>w. ADsGetContainer ad w p) s else (hr, s));
          r = if_succeeded r (ask_os (\<lambda>w. Container_Create ad w p d));
          r = if_succeeded r (ask_os (QueryIADs ad));
          r = if_succeeded r (ask_os (\<lambda>w. Put_RouteAction ad w p d SMTP_DELIVER))
      in if_succeeded r (ask_os (\<lambda>w. SetInfo ad w (p @ wide ''/'' @ d))))"

definition RemoveSMTPDomain :: "'w admin_api \<Rightarrow> wstring \<Rightarrow> 'w admin \<Rightarrow> HRESULT \<times> 'w admin" where
  "RemoveSMTPDomain ad d s =
     (let (hr, p) = GetSMTPDomainPath None POP3_MAX_PATH s;
          r = (if hr = S_OK then ask_os (\<lambda>w. ADsGetContainer ad w p) s else (hr, s));
          r = if_succeeded r (ask_os (\<lambda>w. Container_Delete ad w p d));
          r = if_succeeded r (ask_os (QueryIADs ad))
      in if_succeeded r (ask_os (\<lambda>w. SetInfo ad w p)))"

subsection \<open>The directory\<close>

definition AddStoreDomain :: "'w win32 \<Rightarrow> 'w admin_api \<Rightarrow> wstring option \<Rightarrow> 'w admin \<Rightarrow> (HRESULT \<times> 'w admin) option" where
  "AddStoreDomain api ad psDomainName s = do {
     (hr, s) \<leftarrow> ExistsStoreDomain api ad psDomainName s;
     let hr = (if SUCCEEDED hr then HRESULT_FROM_WIN32 ERROR_FILE_EXISTS
               else if hr = HRESULT_FROM_WIN32 ERROR_PATH_NOT_FOUND then S_OK else hr);
     if SUCCEEDED hr then do {
       ((hr, p), s) \<leftarrow> BuildDomainPath api psDomainName POP3_MAX_PATH s;
       Some (if hr = S_OK then
               (case ask_os (\<lambda>w. CreateDirectory api w p) s of (ok, s) \<Rightarrow> (if ok then S_OK else must_fail api s, s))
             else (if SUCCEEDED hr then E_UNEXPECTED else hr, s)) }
     else Some (hr, s) }"

text \<open>
  \<^verbatim>\<open>BDeleteDirTree\<close>, with \<^verbatim>\<open>AddBS\<close>.  The recursion follows the directories; \<^term>\<open>k\<close> bounds their depth, and no
  result means that they are deeper.  \<^verbatim>\<open>bFileFound\<close> is not set when the search fails: no result either.
\<close>

definition add_BS :: "wstring \<Rightarrow> wstring" where
  "add_BS d = (if d \<noteq> [] \<and> last d \<noteq> of_char BACKSLASH then d @ wide [BACKSLASH] else d)"

fun delete_items :: "'w win32 \<Rightarrow> (wstring \<Rightarrow> 'w \<Rightarrow> (bool \<times> 'w) option) \<Rightarrow> wstring \<Rightarrow> WIN32_FIND_DATA list \<Rightarrow> 'w
    \<Rightarrow> (bool \<times> 'w) option" where
  "delete_items api del dir [] w = Some (True, w)"
| "delete_items api del dir (e # es) w =
     (if cFileName e = wide ''.'' \<or> cFileName e = wide ''..'' then delete_items api del dir es w
      else (let item = add_BS dir @ cFileName e in do {
        (ok, w) \<leftarrow> (if FILE_ATTRIBUTE_DIRECTORY AND dwFileAttributes e \<noteq> 0 then del item w
                     else Some (DeleteFile api w item));
        if ok then delete_items api del dir es w else Some (False, w) }))"

fun BDeleteDirTree :: "'w win32 \<Rightarrow> nat \<Rightarrow> wstring \<Rightarrow> 'w \<Rightarrow> (bool \<times> 'w) option" where
  "BDeleteDirTree api 0 dir w = None"
| "BDeleteDirTree api (Suc k) dir w =
     (if dir = [] then Some (False, w)
      else (case FindFirstFile api w (add_BS dir @ wide ''*'') of (es, w) \<Rightarrow>
        if es = [] then None
        else do {
          (ok, w) \<leftarrow> delete_items api (BDeleteDirTree api k) dir es w;
          let w = FindClose api (if ok then FindNextFile api w else w);
          Some (if ok then RemoveDirectory api w dir else (False, w)) }))"

definition RemoveStoreDomain :: "'w win32 \<Rightarrow> 'w admin_api \<Rightarrow> nat \<Rightarrow> wstring option \<Rightarrow> 'w admin \<Rightarrow> (HRESULT \<times> 'w admin) option" where
  "RemoveStoreDomain api ad k psDomainName s = do {
     (hr, s) \<leftarrow> ExistsStoreDomain api ad psDomainName s;
     if SUCCEEDED hr then do {
       ((hr, p), s) \<leftarrow> BuildDomainPath api psDomainName POP3_MAX_PATH s;
       if hr = S_OK then do {
         (ok, w) \<leftarrow> BDeleteDirTree api k p (ad_os s);
         let s = s\<lparr>ad_os := w\<rparr>;
         Some (if ok then S_OK else must_fail api s, s) }
       else Some (if SUCCEEDED hr then E_UNEXPECTED else hr, s) }
     else Some (hr, s) }"

subsection \<open>Adding a domain\<close>

text \<open>The tests that come first; no result for an empty name, whose last character is read.\<close>

definition check_domain_name :: "'w admin_api \<Rightarrow> wstring \<Rightarrow> 'w admin \<Rightarrow> (HRESULT \<times> 'w admin) option" where
  "check_domain_name ad d s =
     (case ask_os (\<lambda>w. DnsValidateName ad w d) s of (dnStatus, s) \<Rightarrow>
        if dnStatus \<noteq> ERROR_SUCCESS then Some (HRESULT_FROM_WIN32 ERROR_INVALID_DOMAINNAME, s)
        else if d = [] then None
        else Some (if last d = of_char (CHR ''.'') then HRESULT_FROM_WIN32 ERROR_INVALID_DOMAINNAME else S_OK, s))"

definition AddDomain :: "'w win32 \<Rightarrow> 'w admin_api \<Rightarrow> wstring option \<Rightarrow> 'w admin \<Rightarrow> (HRESULT \<times> 'w admin) option" where
  "AddDomain api ad psDomainName s = (case psDomainName of
      None \<Rightarrow> Some (E_INVALIDARG, s)
    | Some d \<Rightarrow> do {
        (hr, s) \<leftarrow> check_domain_name ad d s;
        let (hr, s) = (if hr = S_OK then ExistsSMTPDomain ad (Some d) s else (hr, s));
        let hr = (if hr = S_OK then HRESULT_FROM_WIN32 ERROR_DOMAIN_EXISTS
                  else if hr = HRESULT_FROM_WIN32 ERROR_PATH_NOT_FOUND then S_OK else hr);
        (hr, s) \<leftarrow> (if hr = S_OK then ExistsStoreDomain api ad (Some d) s else Some (hr, s));
        let hr2 = (if hr = S_OK then ERROR_FILE_EXISTS else S_OK);
        let hr = (if hr = HRESULT_FROM_WIN32 ERROR_PATH_NOT_FOUND then S_OK else hr);
        (hr, s) \<leftarrow>
          (if hr = S_OK then
             (case AddSMTPDomain ad d s of (hr, s) \<Rightarrow>
                if hr = S_OK \<and> hr2 \<noteq> ERROR_FILE_EXISTS then do {
                  (hr, s) \<leftarrow> AddStoreDomain api ad (Some d) s;
                  Some (hr, if hr \<noteq> S_OK then snd (RemoveSMTPDomain ad d s) else s) }
                else Some (hr, s))
           else Some (hr, s));
        Some (if hr = S_OK then hr2 else hr, s) })"

subsection \<open>Locking\<close>

definition lock_file :: "wstring \<Rightarrow> wstring" where "lock_file dir = path_join dir LOCK_FILENAME_W"
definition rename_file :: "wstring \<Rightarrow> wstring" where "rename_file dir = path_join dir LOCKRENAME_FILENAME"

text \<open>\<^verbatim>\<open>sDomainPath\P3_*.mbx\<close>, or the path alone with \<^verbatim>\<open>E_UNEXPECTED\<close> when it does not fit.\<close>

definition mailbox_pattern :: "wstring \<Rightarrow> HRESULT \<times> wstring" where
  "mailbox_pattern p =
     (if POP3_MAX_PATH > length p + length MAILBOX_PREFIX_W + length MAILBOX_EXTENSION_W + 2
      then (S_OK, path_join p (MAILBOX_PREFIX_W @ wide ''*'' @ MAILBOX_EXTENSION_W)) else (E_UNEXPECTED, p))"

definition lock_fits :: "wstring \<Rightarrow> wstring \<Rightarrow> bool" where
  "lock_fits p name \<longleftrightarrow> POP3_MAX_PATH > length p + length name + length LOCK_FILENAME_W + 2
     \<and> POP3_MAX_PATH > length p + length name + length LOCKRENAME_FILENAME + 2"

text \<open>One mailbox: the body of the loop of \<^verbatim>\<open>LockDomain\<close>, and that of \<^verbatim>\<open>UnlockDomain\<close>.\<close>

definition lock_entry :: "'w win32 \<Rightarrow> 'w admin_api \<Rightarrow> bool \<Rightarrow> wstring \<Rightarrow> WIN32_FIND_DATA \<Rightarrow> 'w admin \<Rightarrow> HRESULT \<times> 'w admin" where
  "lock_entry api ad bVerifyNotInUse p e s =
     (if \<not> is_directory (dwFileAttributes e) then (S_OK, s)
      else if \<not> lock_fits p (cFileName e) then (E_FAIL, s)
      else (let dir = path_join p (cFileName e) in
        case ask_os (\<lambda>w. MoveFile ad w (lock_file dir) (rename_file dir)) s of
          (False, s) \<Rightarrow> (if GetLastError api (ad_os s) \<noteq> ERROR_FILE_NOT_FOUND then last_error api s else S_OK, s)
        | (True, s) \<Rightarrow>
            if bVerifyNotInUse then
              (case ask_os (\<lambda>w. CreateFile api w (rename_file dir) (GENERIC_READ OR GENERIC_WRITE) 0 None OPEN_EXISTING
                     FILE_ATTRIBUTE_HIDDEN) s of (hf, s) \<Rightarrow>
                 if hf = INVALID_HANDLE_VALUE then (last_error api s, s)
                 else (S_OK, snd (ask_os (\<lambda>w. CloseHandle api w hf) s)))
            else (S_OK, s)))"

definition unlock_entry :: "'w win32 \<Rightarrow> 'w admin_api \<Rightarrow> wstring \<Rightarrow> WIN32_FIND_DATA \<Rightarrow> 'w admin \<Rightarrow> HRESULT \<times> 'w admin" where
  "unlock_entry api ad p e s =
     (if \<not> is_directory (dwFileAttributes e) \<or> \<not> lock_fits p (cFileName e) then (S_OK, s)
      else (let dir = path_join p (cFileName e) in
        case ask_os (\<lambda>w. MoveFile ad w (rename_file dir) (lock_file dir)) s of
          (False, s) \<Rightarrow> (if GetLastError api (ad_os s) \<noteq> ERROR_FILE_NOT_FOUND then last_error api s else S_OK, s)
        | (True, s) \<Rightarrow> (S_OK, s)))"

text \<open>
  The loops.  After the last entry \<^verbatim>\<open>FindNextFile\<close> fails and its error ends the loop; one without an
  error code would make the code treat the last entry again, and has no result.
\<close>

definition search_end :: "'w win32 \<Rightarrow> 'w admin \<Rightarrow> (HRESULT \<times> 'w admin) option" where
  "search_end api s = (let s = tell_os (FindNextFile api) s in
     if last_error api s = S_OK then None else Some (last_error api s, s))"

fun lock_loop :: "'w win32 \<Rightarrow> 'w admin_api \<Rightarrow> bool \<Rightarrow> wstring \<Rightarrow> WIN32_FIND_DATA list \<Rightarrow> 'w admin \<Rightarrow> (HRESULT \<times> 'w admin) option" where
  "lock_loop api ad v p [] s = search_end api s"
| "lock_loop api ad v p (e # es) s =
     (case lock_entry api ad v p e s of (hr, s) \<Rightarrow>
        if hr = S_OK then lock_loop api ad v p es s else Some (hr, s))"

fun unlock_loop :: "'w win32 \<Rightarrow> 'w admin_api \<Rightarrow> wstring \<Rightarrow> WIN32_FIND_DATA list \<Rightarrow> 'w admin \<Rightarrow> (HRESULT \<times> 'w admin) option" where
  "unlock_loop api ad p [] s = search_end api s"
| "unlock_loop api ad p (e # es) s =
     (case unlock_entry api ad p e s of (hr, s) \<Rightarrow>
        if hr = S_OK \<or> es = [] then unlock_loop api ad p es s else Some (hr, s))"

text \<open>
  The search that the two share: the pattern, the entries, the loop, and the codes that mean its end.
  A pattern that does not fit leaves its error unless the search fails as well.
\<close>

definition each_mailbox :: "'w win32 \<Rightarrow> 'w admin_api \<Rightarrow> (WIN32_FIND_DATA list \<Rightarrow> 'w admin \<Rightarrow> (HRESULT \<times> 'w admin) option)
    \<Rightarrow> wstring \<Rightarrow> 'w admin \<Rightarrow> (HRESULT \<times> 'w admin) option" where
  "each_mailbox api ad loop p s =
     (let (hr, pat) = mailbox_pattern p; (es, s) = ask_os (\<lambda>w. FindFirstFileEx ad w pat) s;
          hr = (if es = [] then last_error api s else hr)
      in do {
        (hr, s) \<leftarrow> (if hr = S_OK then (if es = [] then None else loop es s) else Some (hr, s));
        let hr = (if hr = HRESULT_FROM_WIN32 ERROR_NO_MORE_FILES \<or> hr = HRESULT_FROM_WIN32 ERROR_FILE_NOT_FOUND then S_OK else hr);
        Some (hr, if es \<noteq> [] then tell_os (FindClose api) s else s) })"

definition UnlockDomain :: "'w win32 \<Rightarrow> 'w admin_api \<Rightarrow> wstring option \<Rightarrow> 'w admin \<Rightarrow> (HRESULT \<times> 'w admin) option" where
  "UnlockDomain api ad psDomainName s = do {
     ((hr, p), s) \<leftarrow> BuildDomainPath api psDomainName POP3_MAX_PATH s;
     if hr = S_OK then do {
       (hr, s) \<leftarrow> each_mailbox api ad (unlock_loop api ad p) p s;
       Some (if hr = S_OK \<and> POP3_MAX_PATH > length p + length LOCKRENAME_FILENAME + 1 then
               (case ask_os (\<lambda>w. DeleteFile api w (rename_file p)) s of (ok, s) \<Rightarrow> (if ok then S_OK else last_error api s, s))
             else (hr, s)) }
     else Some (hr, s) }"

text \<open>The file that marks the domain as locked.\<close>

definition mark_domain :: "'w win32 \<Rightarrow> bool \<Rightarrow> wstring \<Rightarrow> 'w admin \<Rightarrow> HRESULT \<times> 'w admin" where
  "mark_domain api bVerifyNotInUse p s =
     (if POP3_MAX_PATH > length p + length LOCKRENAME_FILENAME + 1 then
        (case ask_os (\<lambda>w. CreateFile api w (rename_file p) GENERIC_ALL 0 None CREATE_NEW FILE_ATTRIBUTE_HIDDEN) s of (hf, s) \<Rightarrow>
           if hf \<noteq> INVALID_HANDLE_VALUE then (S_OK, snd (ask_os (\<lambda>w. CloseHandle api w hf) s))
           else (if \<not> (bVerifyNotInUse \<and> GetLastError api (ad_os s) = ERROR_FILE_EXISTS) then last_error api s else S_OK, s))
      else (S_OK, s))"

definition LockDomain :: "'w win32 \<Rightarrow> 'w admin_api \<Rightarrow> wstring option \<Rightarrow> bool \<Rightarrow> 'w admin \<Rightarrow> (HRESULT \<times> 'w admin) option" where
  "LockDomain api ad psDomainName bVerifyNotInUse s = do {
     ((hr, p), s) \<leftarrow> BuildDomainPath api psDomainName POP3_MAX_PATH s;
     if hr = S_OK then do {
       (hr, s) \<leftarrow> each_mailbox api ad (lock_loop api ad bVerifyNotInUse p) p s;
       let (hr, s) = (if hr = S_OK then mark_domain api bVerifyNotInUse p s else (hr, s));
       if hr \<noteq> S_OK then do { (_, s) \<leftarrow> UnlockDomain api ad psDomainName s; Some (hr, s) }
       else Some (hr, s) }
     else Some (hr, s) }"

definition IsDomainLocked :: "'w win32 \<Rightarrow> wstring option \<Rightarrow> 'w admin \<Rightarrow> (bool \<times> 'w admin) option" where
  "IsDomainLocked api psDomainName s = do {
     ((hr, p), s) \<leftarrow> BuildDomainPath api psDomainName POP3_MAX_PATH s;
     Some (if hr = S_OK \<and> POP3_MAX_PATH > length p + length LOCKRENAME_FILENAME + 1
           then (case ask_os (\<lambda>w. GetFileAttributes api w (rename_file p)) s of (a, s) \<Rightarrow> (a \<noteq> ERROR_NO_FILE_ATTR, s))
           else (False, s)) }"

definition GetDomainLock :: "'w win32 \<Rightarrow> 'w admin_api \<Rightarrow> wstring option \<Rightarrow> 'w admin \<Rightarrow> ((HRESULT \<times> bool option) \<times> 'w admin) option" where
  "GetDomainLock api ad psDomainName s =
     (case CreateDomainMutex api ad psDomainName s of ((hr, h), s) \<Rightarrow> do {
        (hr, s) \<leftarrow> (if hr = S_OK then ValidateDomain api ad psDomainName s else Some (hr, s));
        (l, s) \<leftarrow> (if hr = S_OK then do { (b, s) \<leftarrow> IsDomainLocked api psDomainName s; Some (Some b, s) } else Some (None, s));
        Some ((hr, l), close_mutex api h s) })"

definition SetDomainLock :: "'w win32 \<Rightarrow> 'w admin_api \<Rightarrow> wstring option \<Rightarrow> bool \<Rightarrow> 'w admin \<Rightarrow> (HRESULT \<times> 'w admin) option" where
  "SetDomainLock api ad psDomainName bLock s = do {
     (_, s) \<leftarrow> ValidateDomain api ad psDomainName s;
     (case CreateDomainMutex api ad psDomainName s of ((hr, h), s) \<Rightarrow> do {
        (hr, s) \<leftarrow>
          (if hr = S_OK then do {
             (locked, s) \<leftarrow> IsDomainLocked api psDomainName s;
             if bLock then (if \<not> locked then LockDomain api ad psDomainName False s else Some (HRESULT_FROM_WIN32 ERROR_LOCKED, s))
             else (if locked then UnlockDomain api ad psDomainName s else Some (HRESULT_FROM_WIN32 ERROR_NOT_LOCKED, s)) }
           else Some (hr, s));
        Some (hr, close_mutex api h s) }) }"

subsection \<open>Removing and counting\<close>

definition RemoveDomain :: "'w win32 \<Rightarrow> 'w admin_api \<Rightarrow> nat \<Rightarrow> wstring option \<Rightarrow> 'w admin \<Rightarrow> (HRESULT \<times> 'w admin) option" where
  "RemoveDomain api ad k psDomainName s =
     (case CreateDomainMutex api ad psDomainName s of ((hr, h), s) \<Rightarrow> do {
        (hr, s) \<leftarrow>
          (if hr = S_OK then do {
             d \<leftarrow> psDomainName;
             (hr, s) \<leftarrow> ValidateDomain api ad psDomainName s;
             Some (if hr = HRESULT_FROM_WIN32 ERROR_PATH_NOT_FOUND then
                     (case RemoveSMTPDomain ad d s of (hr, s) \<Rightarrow> (if hr = S_OK then ERROR_PATH_NOT_FOUND else hr, s))
                   else (hr, s)) }
           else Some (hr, s));
        (hr, s) \<leftarrow>
          (if hr = S_OK then do {
             d \<leftarrow> psDomainName;
             (hr, s) \<leftarrow> LockDomain api ad psDomainName True s;
             if hr = S_OK then do {
               let (hr, s) = RemoveSMTPDomain ad d s;
               (hr, s) \<leftarrow>
                 (if hr = S_OK then do {
                    (hr, s) \<leftarrow> RemoveStoreDomain api ad k psDomainName s;
                    Some (hr, if \<not> SUCCEEDED hr then snd (AddSMTPDomain ad d s) else s) }
                  else Some (hr, s));
               if hr \<noteq> S_OK then do { (_, s) \<leftarrow> UnlockDomain api ad psDomainName s; Some (hr, s) } else Some (hr, s) }
             else Some (hr, s) }
           else Some (hr, s));
        Some (hr, close_mutex api h s) })"

text \<open>The domains of the store that the SMTP service knows.\<close>

fun count_domains :: "'w win32 \<Rightarrow> 'w admin_api \<Rightarrow> WIN32_FIND_DATA list \<Rightarrow> nat \<Rightarrow> 'w admin \<Rightarrow> ((HRESULT \<times> nat) \<times> 'w admin) option" where
  "count_domains api ad [] n s = do { (hr, s) \<leftarrow> search_end api s; Some ((hr, n), s) }"
| "count_domains api ad (e # es) n s =
     (if is_directory (dwFileAttributes e)
      then (case ExistsSMTPDomain ad (Some (cFileName e)) s of (hr, s) \<Rightarrow>
              count_domains api ad es (if hr = S_OK then n + 1 else n) s)
      else count_domains api ad es n s)"

definition GetDomainCount :: "'w win32 \<Rightarrow> 'w admin_api \<Rightarrow> 'w admin \<Rightarrow> ((HRESULT \<times> nat) \<times> 'w admin) option" where
  "GetDomainCount api ad s = do {
     ((hr, p), s) \<leftarrow> Admin_GetMailroot api POP3_MAX_PATH True s;
     if hr \<noteq> S_OK then Some ((hr, 0), s)
     else if \<not> length p + 2 < POP3_MAX_PATH then Some ((HRESULT_FROM_WIN32 ERROR_INSUFFICIENT_BUFFER, 0), s)
     else (let (es, s) = ask_os (\<lambda>w. FindFirstFileEx ad w (path_join p (wide ''*''))) s;
               hr = (if es = [] then last_error api s else S_OK)
           in do {
             ((hr, n), s) \<leftarrow> (if hr = S_OK then (if es = [] then None else count_domains api ad es 0 s) else Some ((hr, 0), s));
             let hr = (if hr = HRESULT_FROM_WIN32 ERROR_NO_MORE_FILES \<or> hr = HRESULT_FROM_WIN32 ERROR_FILE_NOT_FOUND then S_OK else hr);
             Some ((hr, n), if es \<noteq> [] then tell_os (FindClose api) s else s) }) }"

end
