(* ===== verification/Admin_User.thy ===== *)
theory Admin_User
  imports Admin_Domain
begin

text \<open>
  The mailboxes of a domain (\<^verbatim>\<open>pop3/admin/p3admin/p3adminworker.cpp\<close>): adding, removing, locking, counting and
  enumerating them, and the search over all domains.  They
  work on the class \<^verbatim>\<open>CMailBox\<close> of \<^verbatim>\<open>Mail_Box\<close>, through a local object.
\<close>

section \<open>The code\<close>

text \<open>A call of a method of a \<^verbatim>\<open>CMailBox\<close> object.\<close>

definition open_box :: "'w win32 \<Rightarrow> wstring \<Rightarrow> CMailBox \<times> 'w admin \<Rightarrow> (bool \<times> CMailBox \<times> 'w admin) option" where
  "open_box api addr t = (case t of (box, s) \<Rightarrow> do {
     (ok, box, root, w) \<leftarrow> OpenMailBox api addr (box, ad_root s, ad_os s);
     Some (ok, box, s\<lparr>ad_root := root, ad_os := w\<rparr>) })"

definition create_box :: "'w win32 \<Rightarrow> wstring \<Rightarrow> CMailBox \<times> 'w admin \<Rightarrow> (bool \<times> CMailBox \<times> 'w admin) option" where
  "create_box api addr t = (case t of (box, s) \<Rightarrow> do {
     (ok, box, root, w) \<leftarrow> CreateMailBox api addr (box, ad_root s, ad_os s);
     Some (ok, box, s\<lparr>ad_root := root, ad_os := w\<rparr>) })"

subsection \<open>Locking\<close>

text \<open>The renaming of a lock file that \<^verbatim>\<open>LockUser\<close> and \<^verbatim>\<open>UnlockUser\<close> do in opposite directions.\<close>

definition user_lock_file :: "'w win32 \<Rightarrow> 'w admin_api \<Rightarrow> bool \<Rightarrow> wstring option \<Rightarrow> wstring option \<Rightarrow> 'w admin
    \<Rightarrow> (HRESULT \<times> 'w admin) option" where
  "user_lock_file api ad lock psDomainName psUserName s = do {
     ((hr, p), s) \<leftarrow> BuildUserPath api psDomainName psUserName POP3_MAX_PATH s;
     Some (if hr = S_OK \<and> POP3_MAX_PATH > length p + length LOCK_FILENAME_W + 1
              \<and> POP3_MAX_PATH > length p + length LOCKRENAME_FILENAME + 1
           then (case ask_os (\<lambda>w. if lock then MoveFile ad w (lock_file p) (rename_file p)
                                   else MoveFile ad w (rename_file p) (lock_file p)) s of
                   (ok, s) \<Rightarrow> (if ok then S_OK else last_error api s, s))
           else (hr, s)) }"

definition LockUser :: "'w win32 \<Rightarrow> 'w admin_api \<Rightarrow> wstring option \<Rightarrow> wstring option \<Rightarrow> 'w admin \<Rightarrow> (HRESULT \<times> 'w admin) option" where
  "LockUser api ad = user_lock_file api ad True"

definition UnlockUser :: "'w win32 \<Rightarrow> 'w admin_api \<Rightarrow> wstring option \<Rightarrow> wstring option \<Rightarrow> 'w admin \<Rightarrow> (HRESULT \<times> 'w admin) option" where
  "UnlockUser api ad = user_lock_file api ad False"

definition isUserLocked :: "'w win32 \<Rightarrow> wstring option \<Rightarrow> wstring option \<Rightarrow> 'w admin \<Rightarrow> (bool \<times> 'w admin) option" where
  "isUserLocked api psDomainName psUserName s = (case BuildEmailAddr psDomainName psUserName POP3_MAX_ADDRESS_LENGTH of (hr, addr) \<Rightarrow> do {
     (hr, s) \<leftarrow> (if hr = S_OK then MailboxSetRemote api s else Some (hr, s));
     (bRC, s) \<leftarrow>
       (if hr = S_OK then do {
          (ok, box, s) \<leftarrow> open_box api addr (new_CMailBox, s);
          if ok then do {
            ((hr, p), s) \<leftarrow> BuildUserPath api psDomainName psUserName POP3_MAX_PATH s;
            Some (if hr = S_OK \<and> POP3_MAX_PATH > length p + length LOCK_FILENAME_W + 1
                  then (case ask_os (\<lambda>w. GetFileAttributes api w (lock_file p)) s of (a, s) \<Rightarrow> (a = ERROR_NO_FILE_ATTR, s))
                  else (False, s)) }
          else Some (False, s) }
        else Some (False, s));
     (_, s) \<leftarrow> MailboxResetRemote api s;
     Some (bRC, s) })"

definition GetUserLock :: "'w win32 \<Rightarrow> 'w admin_api \<Rightarrow> wstring option \<Rightarrow> wstring option \<Rightarrow> 'w admin
    \<Rightarrow> ((HRESULT \<times> bool option) \<times> 'w admin) option" where
  "GetUserLock api ad psDomainName psUserName s =
     (case CreateUserMutex api ad psDomainName psUserName s of ((hr, h), s) \<Rightarrow> do {
        (l, s) \<leftarrow> (if hr = S_OK then do { (b, s) \<leftarrow> isUserLocked api psDomainName psUserName s; Some (Some b, s) } else Some (None, s));
        Some ((hr, l), close_mutex api h s) })"

definition SetUserLock :: "'w win32 \<Rightarrow> 'w admin_api \<Rightarrow> wstring option \<Rightarrow> wstring option \<Rightarrow> bool \<Rightarrow> 'w admin
    \<Rightarrow> (HRESULT \<times> 'w admin) option" where
  "SetUserLock api ad psDomainName psUserName bLock s =
     (case CreateUserMutex api ad psDomainName psUserName s of ((hr, h), s) \<Rightarrow> do {
        (hr, s) \<leftarrow> (if hr = S_OK \<and> \<not> bLock then do {
                        (locked, s) \<leftarrow> IsDomainLocked api psDomainName s;
                        Some (if locked then HRESULT_FROM_WIN32 ERROR_INVALID_DOMAIN_STATE else S_OK, s) }
                      else Some (hr, s));
        let (hr, addr) = (if hr = S_OK then BuildEmailAddr psDomainName psUserName POP3_MAX_ADDRESS_LENGTH else (hr, []));
        (hr, s) \<leftarrow> (if hr = S_OK then MailboxSetRemote api s else Some (hr, s));
        (hr, s) \<leftarrow> (if hr = S_OK then do {
                        (ok, box, s) \<leftarrow> open_box api addr (new_CMailBox, s);
                        Some (if ok then S_OK else HRESULT_FROM_WIN32 ERROR_PATH_NOT_FOUND, s) }
                      else Some (hr, s));
        (hr, s) \<leftarrow> (if hr = S_OK then do {
                        (locked, s) \<leftarrow> isUserLocked api psDomainName psUserName s;
                        if bLock then (if \<not> locked then LockUser api ad psDomainName psUserName s
                                       else Some (HRESULT_FROM_WIN32 ERROR_LOCKED, s))
                        else (if locked then UnlockUser api ad psDomainName psUserName s
                              else Some (HRESULT_FROM_WIN32 ERROR_NOT_LOCKED, s)) }
                      else Some (hr, s));
        (_, s) \<leftarrow> MailboxResetRemote api s;
        Some (hr, close_mutex api h s) })"

subsection \<open>Searching all domains\<close>

text \<open>
  \<^verbatim>\<open>SearchDomainsForMailbox\<close>: the code, and the domain in which the mailbox was found.  The argument \<^term>\<open>want\<close>
  is whether the caller asks for the domain, and \<^term>\<open>mem\<close> the success of the allocation for it.
\<close>

fun search_loop :: "'w win32 \<Rightarrow> bool \<Rightarrow> bool \<Rightarrow> wstring \<Rightarrow> wstring list \<Rightarrow> HRESULT \<Rightarrow> CMailBox \<times> 'w admin
    \<Rightarrow> ((HRESULT \<times> wstring option) \<times> 'w admin) option" where
  "search_loop api want mem u [] hr (box, s) = Some ((hr, None), s)"
| "search_loop api want mem u (d # ds) hr (box, s) =
     (case BuildEmailAddr (Some d) (Some u) POP3_MAX_ADDRESS_LENGTH of (hr', addr) \<Rightarrow>
        if hr' \<noteq> S_OK then Some ((hr', None), s)
        else do {
          (ok, box, s) \<leftarrow> open_box api addr (box, s);
          if ok then Some (if want then (if mem then (S_OK, Some d) else (E_OUTOFMEMORY, None)) else (S_OK, None), s)
          else search_loop api want mem u ds hr (box, s) })"

definition SearchDomainsForMailbox :: "'w win32 \<Rightarrow> 'w admin_api \<Rightarrow> bool \<Rightarrow> bool \<Rightarrow> wstring option \<Rightarrow> 'w admin
    \<Rightarrow> ((HRESULT \<times> wstring option) \<times> 'w admin) option" where
  "SearchDomainsForMailbox api ad want mem psUserName s = (case psUserName of
      None \<Rightarrow> Some ((E_INVALIDARG, None), s)
    | Some u \<Rightarrow>
        if length u = 0 then Some ((E_INVALIDARG, None), s)
        else (case if_ok (if_ok (ask_os (CoCreateP3Config api) s) (ask_os (get_Domains api))) (ask_os (NewEnumDomains ad)) of
          (hr, s) \<Rightarrow>
            if hr \<noteq> S_OK then Some ((if hr = S_FALSE then HRESULT_FROM_WIN32 ERROR_NO_SUCH_USER else hr, None), s)
            else (case ask_os (EnumDomains ad) s of ((ds, hr), s) \<Rightarrow> do {
              ((hr, r), s) \<leftarrow> search_loop api want mem u ds hr (new_CMailBox, s);
              Some ((if hr = S_FALSE then HRESULT_FROM_WIN32 ERROR_NO_SUCH_USER else hr, r), s) })))"

subsection \<open>Adding and removing\<close>

text \<open>With accounts of the machine a mailbox name may be used in one domain only.\<close>

definition check_unique :: "'w win32 \<Rightarrow> 'w admin_api \<Rightarrow> wstring \<Rightarrow> wstring option \<Rightarrow> CMailBox \<times> 'w admin
    \<Rightarrow> (HRESULT \<times> CMailBox \<times> 'w admin) option" where
  "check_unique api ad addr psUserName t = (case t of (box, s) \<Rightarrow>
     case current_auth_id ad s of ((hr, i), s) \<Rightarrow>
       if hr = S_OK \<and> wcsicmp_equal i SZ_AUTH_ID_LOCAL_SAM then do {
         ((hr, _), s) \<leftarrow> SearchDomainsForMailbox api ad False True psUserName s;
         if hr = S_OK then do {
           (ok, box, s) \<leftarrow> open_box api addr (box, s);
           Some (if ok then (HRESULT_FROM_WIN32 ERROR_FILE_EXISTS, CloseMailBox box, s)
                 else (HRESULT_FROM_WIN32 ERROR_USER_EXISTS, box, s)) }
         else Some (if hr = HRESULT_FROM_WIN32 ERROR_NO_SUCH_USER then S_OK else hr, box, s) }
       else Some (hr, box, s))"

definition make_mailbox :: "'w win32 \<Rightarrow> 'w admin_api \<Rightarrow> wstring \<Rightarrow> bool \<Rightarrow> wstring option \<Rightarrow> wstring option \<Rightarrow> CMailBox \<times> 'w admin
    \<Rightarrow> (HRESULT \<times> 'w admin) option" where
  "make_mailbox api ad addr bLocked psDomainName psUserName t = do {
     (ok, box, s) \<leftarrow> open_box api addr t;
     if ok then Some (HRESULT_FROM_WIN32 ERROR_FILE_EXISTS, s)
     else do {
       (ok, box, s) \<leftarrow> create_box api addr (box, s);
       if ok \<and> bLocked then do { (_, s) \<leftarrow> LockUser api ad psDomainName psUserName s; Some (S_OK, s) }
       else Some (if ok then S_OK else E_FAIL, s) } }"

definition AddUser :: "'w win32 \<Rightarrow> 'w admin_api \<Rightarrow> wstring option \<Rightarrow> wstring option \<Rightarrow> 'w admin \<Rightarrow> (HRESULT \<times> 'w admin) option" where
  "AddUser api ad psDomainName psUserName s = do {
     (hr, s) \<leftarrow> ValidateDomain api ad psDomainName s;
     let hr = (if hr = S_OK \<and> \<not> isValidMailboxName psUserName then HRESULT_FROM_WIN32 ERROR_BAD_USERNAME else hr);
     (bLocked, s) \<leftarrow> (if hr = S_OK then do { (b, s) \<leftarrow> IsDomainLocked api psDomainName s; Some (Some b, s) } else Some (None, s));
     if SUCCEEDED hr then do {
       let (hr, addr) = BuildEmailAddr psDomainName psUserName POP3_MAX_ADDRESS_LENGTH;
       (hr, s) \<leftarrow> (if hr = S_OK then MailboxSetRemote api s else Some (hr, s));
       (hr, box, s) \<leftarrow> (if hr = S_OK then check_unique api ad addr psUserName (new_CMailBox, s) else Some (hr, new_CMailBox, s));
       (hr, s) \<leftarrow> (if hr = S_OK then do { b \<leftarrow> bLocked; make_mailbox api ad addr b psDomainName psUserName (box, s) }
                     else Some (hr, s));
       (_, s) \<leftarrow> MailboxResetRemote api s;
       Some (hr, s) }
     else Some (hr, s) }"

text \<open>
  Removing: the directory is renamed and then deleted; when that fails, what is left is renamed back
  and its lock file repaired.
\<close>

definition kill_mailbox :: "'w win32 \<Rightarrow> 'w admin_api \<Rightarrow> nat \<Rightarrow> wstring \<Rightarrow> wstring \<Rightarrow> wstring \<Rightarrow> CMailBox \<times> 'w admin
    \<Rightarrow> (HRESULT \<times> 'w admin) option" where
  "kill_mailbox api ad k addr sUserFile sRenameFile t = (case t of (box, s) \<Rightarrow>
     case ask_os (\<lambda>w. MoveFile ad w sUserFile sRenameFile) s of
       (False, s) \<Rightarrow> Some (last_error api s, s)
     | (True, s) \<Rightarrow> do {
         (ok, w) \<leftarrow> BDeleteDirTree api k sRenameFile (ad_os s);
         let s = s\<lparr>ad_os := w\<rparr>;
         if ok then Some (S_OK, s)
         else (let hr = must_fail api s in
           case ask_os (\<lambda>w. MoveFile ad w sRenameFile sUserFile) s of
             (False, s) \<Rightarrow> Some (hr, s)
           | (True, s) \<Rightarrow> do {
               (ok, box, s) \<leftarrow> open_box api addr (box, s);
               Some (hr, if ok then (case RepairMailBox api (box, ad_os s) of (_, _, w) \<Rightarrow> s\<lparr>ad_os := w\<rparr>) else s) }) })"

text \<open>The address of \<^verbatim>\<open>RemoveUser\<close> is used even when it did not fit its buffer: no result then.\<close>

definition removal_name :: "wstring \<Rightarrow> wstring \<Rightarrow> HRESULT \<times> wstring" where
  "removal_name p u =
     (if length p + length MAILBOX_PREFIX_W + length u + length MAILBOX_EXTENSION2_W + 1 < POP3_MAX_PATH
      then (S_OK, path_join p (MAILBOX_PREFIX_W @ u @ MAILBOX_EXTENSION2_W)) else (E_FAIL, p))"

definition RemoveUser :: "'w win32 \<Rightarrow> 'w admin_api \<Rightarrow> nat \<Rightarrow> wstring option \<Rightarrow> wstring option \<Rightarrow> 'w admin
    \<Rightarrow> (HRESULT \<times> 'w admin) option" where
  "RemoveUser api ad k psDomainName psUserName s = do {
     ((hr, sUserFile), s) \<leftarrow> BuildUserPath api psDomainName psUserName POP3_MAX_PATH s;
     ((hr, sRenameFile), s) \<leftarrow>
       (if hr = S_OK then do {
          u \<leftarrow> psUserName;
          ((hr, p), s) \<leftarrow> BuildDomainPath api psDomainName POP3_MAX_PATH s;
          Some (if hr = S_OK then removal_name p u else (hr, p), s) }
        else Some ((hr, []), s));
     (hr, s) \<leftarrow> (if hr = S_OK then ValidateDomain api ad psDomainName s else Some (hr, s));
     (hr, s) \<leftarrow> (if hr = S_OK then MailboxSetRemote api s else Some (hr, s));
     (hr, s) \<leftarrow>
       (if hr = S_OK then do {
          let (hr, addr) = BuildEmailAddr psDomainName psUserName POP3_MAX_ADDRESS_LENGTH;
          if hr \<noteq> S_OK then None
          else do {
            (ok, box, s) \<leftarrow> open_box api addr (new_CMailBox, s);
            if ok then
              (case CreateUserMutex api ad psDomainName psUserName s of ((hr, h), s) \<Rightarrow> do {
                 (hr, s) \<leftarrow> (if hr = S_OK then kill_mailbox api ad k addr sUserFile sRenameFile (box, s) else Some (hr, s));
                 Some (hr, close_mutex api h s) })
            else Some (last_error api s, s) } }
        else Some (hr, s));
     (_, s) \<leftarrow> MailboxResetRemote api s;
     Some (hr, s) }"

subsection \<open>Counting and enumerating\<close>

text \<open>
  An entry of a search is a mailbox when it is a directory, its name has prefix and extension and the mailbox can
  be opened.  The three operations share the test; \<^verbatim>\<open>_bstr\<close> is the address.
\<close>

definition entry_mailbox :: "'w win32 \<Rightarrow> wstring \<Rightarrow> WIN32_FIND_DATA \<Rightarrow> CMailBox \<times> 'w admin
    \<Rightarrow> (wstring option \<times> CMailBox \<times> 'w admin) option" where
  "entry_mailbox api d e t =
     (if \<not> is_directory (dwFileAttributes e) then Some (None, t)
      else (case GetMailboxFromStoreNameW (Some (cFileName e)) of
              None \<Rightarrow> Some (None, t)
            | Some (ps, _) \<Rightarrow> do {
                (ok, t) \<leftarrow> open_box api (ps @ wide ''@'' @ d) t;
                Some (if ok then Some ps else None, t) }))"

fun count_users :: "'w win32 \<Rightarrow> wstring \<Rightarrow> WIN32_FIND_DATA list \<Rightarrow> int \<Rightarrow> CMailBox \<times> 'w admin
    \<Rightarrow> ((HRESULT \<times> int) \<times> 'w admin) option" where
  "count_users api d [] n (box, s) = do { (hr, s) \<leftarrow> search_end api s; Some ((hr, n), s) }"
| "count_users api d (e # es) n (box, s) = do {
     (u, box, s) \<leftarrow> entry_mailbox api d e (box, s);
     count_users api d es (if u \<noteq> None then n + 1 else n) (box, s) }"

definition GetUserCount :: "'w win32 \<Rightarrow> 'w admin_api \<Rightarrow> wstring option \<Rightarrow> 'w admin \<Rightarrow> ((HRESULT \<times> int) \<times> 'w admin) option" where
  "GetUserCount api ad psDomainName s = do {
     ((hr, p), s) \<leftarrow> BuildDomainPath api psDomainName POP3_MAX_PATH s;
     let (hr, pat) = (if hr = S_OK then mailbox_pattern p else (hr, p));
     (hr, s) \<leftarrow> (if hr = S_OK then MailboxSetRemote api s else Some (hr, s));
     ((hr, n), s) \<leftarrow>
       (if hr = S_OK then do {
          d \<leftarrow> psDomainName;
          let (es, s) = ask_os (\<lambda>w. FindFirstFileEx ad w pat) s;
          let hr = (if es = [] then last_error api s else S_OK);
          ((hr, n), s) \<leftarrow> (if hr = S_OK then (if es = [] then None else count_users api d es 0 (new_CMailBox, s)) else Some ((hr, 0), s));
          let hr = (if hr = HRESULT_FROM_WIN32 ERROR_NO_MORE_FILES \<or> hr = HRESULT_FROM_WIN32 ERROR_FILE_NOT_FOUND then S_OK else hr);
          Some ((hr, n), if es \<noteq> [] then tell_os (FindClose api) s else s) }
        else Some ((hr, 0), s));
     (_, s) \<leftarrow> MailboxResetRemote api s;
     Some ((hr, n), s) }"

text \<open>
  The enumeration of users: the handle of the search is the list of entries that are still to come.  The loop
  of \<^verbatim>\<open>InitFindFirstUser\<close> (\<^term>\<open>strict\<close>) fails at a name that does not fit the buffer; that of
  \<^verbatim>\<open>GetNextUser\<close> skips it.  The search has then moved on, and the failure is overwritten when the entry is the last one.
\<close>

fun find_user :: "'w win32 \<Rightarrow> bool \<Rightarrow> nat \<Rightarrow> wstring \<Rightarrow> WIN32_FIND_DATA list \<Rightarrow> CMailBox \<times> 'w admin
    \<Rightarrow> ((HRESULT \<times> wstring option \<times> WIN32_FIND_DATA list) \<times> 'w admin) option" where
  "find_user api strict n d [] (box, s) = do { (hr, s) \<leftarrow> search_end api s; Some ((hr, None, []), s) }"
| "find_user api strict n d (e # es) (box, s) = do {
     (u, box, s) \<leftarrow> entry_mailbox api d e (box, s);
     case u of
       Some ps \<Rightarrow>
         if n > length ps then Some ((S_OK, Some ps, es), s)
         else if strict \<and> es \<noteq> [] then Some ((HRESULT_FROM_WIN32 ERROR_INSUFFICIENT_BUFFER, None, tl es), s)
         else find_user api strict n d es (box, s)
     | None \<Rightarrow> find_user api strict n d es (box, s) }"

definition InitFindFirstUser :: "'w win32 \<Rightarrow> 'w admin_api \<Rightarrow> wstring option \<Rightarrow> nat \<Rightarrow> WIN32_FIND_DATA list option \<Rightarrow> 'w admin
    \<Rightarrow> ((HRESULT \<times> wstring option \<times> WIN32_FIND_DATA list option) \<times> 'w admin) option" where
  "InitFindFirstUser api ad psDomainName n hfSearch s = do {
     let s = (if hfSearch \<noteq> None then tell_os (FindClose api) s else s);
     ((hr, p), s) \<leftarrow> BuildDomainPath api psDomainName POP3_MAX_PATH s;
     let (hr, pat) = (if hr = S_OK then mailbox_pattern p else (hr, p));
     (hr, s) \<leftarrow> (if hr = S_OK then MailboxSetRemote api s else Some (hr, s));
     ((hr, u, hf), s) \<leftarrow>
       (if hr = S_OK then do {
          d \<leftarrow> psDomainName;
          let (es, s) = ask_os (\<lambda>w. FindFirstFileEx ad w pat) s;
          ((hr, u, hf), s) \<leftarrow>
            (if es = [] then (if last_error api s = S_OK then None else Some ((last_error api s, None, None), s))
             else do { ((hr, u, es), s) \<leftarrow> find_user api True n d es (new_CMailBox, s); Some ((hr, u, Some es), s) });
          Some ((if hr = HRESULT_FROM_WIN32 ERROR_NO_MORE_FILES \<or> hr = HRESULT_FROM_WIN32 ERROR_FILE_NOT_FOUND
                 then S_FALSE else hr, u, hf), s) }
        else Some ((hr, None, None), s));
     (_, s) \<leftarrow> MailboxResetRemote api s;
     Some ((hr, u, hf), s) }"

definition GetNextUser :: "'w win32 \<Rightarrow> wstring option \<Rightarrow> nat \<Rightarrow> WIN32_FIND_DATA list \<Rightarrow> 'w admin
    \<Rightarrow> ((HRESULT \<times> wstring option \<times> WIN32_FIND_DATA list option) \<times> 'w admin) option" where
  "GetNextUser api psDomainName n hfSearch s = (case psDomainName of
      None \<Rightarrow> Some ((E_INVALIDARG, None, Some hfSearch), s)
    | Some d \<Rightarrow> do {
        (hr, s) \<leftarrow> MailboxSetRemote api s;
        ((hr, u, es), s) \<leftarrow> (if hr = S_OK then find_user api False n d hfSearch (new_CMailBox, s) else Some ((hr, None, hfSearch), s));
        (_, s) \<leftarrow> MailboxResetRemote api s;
        Some (if hr = HRESULT_FROM_WIN32 ERROR_NO_MORE_FILES then ((S_FALSE, None, None), tell_os (FindClose api) s)
              else ((hr, u, Some es), s)) })"

text \<open>The two operations that enumerate a mailbox; \<^term>\<open>get\<close> is what they read from it.\<close>

definition with_enumerated :: "'w win32 \<Rightarrow> wstring option \<Rightarrow> wstring option \<Rightarrow> (CMailBox \<Rightarrow> 'a) \<Rightarrow> 'w admin
    \<Rightarrow> ((HRESULT \<times> 'a option) \<times> 'w admin) option" where
  "with_enumerated api psDomainName psUserName get s = (case BuildEmailAddr psDomainName psUserName POP3_MAX_ADDRESS_LENGTH of (hr, addr) \<Rightarrow> do {
     (hr, s) \<leftarrow> (if hr = S_OK then MailboxSetRemote api s else Some (hr, s));
     ((hr, r), s) \<leftarrow>
       (if hr = S_OK then do {
          (ok, box, s) \<leftarrow> open_box api addr (new_CMailBox, s);
          if ok then do {
            (ok, box, w) \<leftarrow> EnumerateMailBox api 0 (box, ad_os s);
            Some (if ok then (S_OK, Some (get box)) else (E_FAIL, None), s\<lparr>ad_os := w\<rparr>) }
          else Some ((E_FAIL, None), s) }
        else Some ((hr, None), s));
     (_, s) \<leftarrow> MailboxResetRemote api s;
     Some ((hr, r), s) })"

text \<open>The figures are stored in a \<^verbatim>\<open>long\<close>.\<close>

definition disk_usage :: "DWORD \<Rightarrow> int \<times> int" where
  "disk_usage dwTotalSize = (if 0x7FFFFFFF > dwTotalSize then (1, sint dwTotalSize) else (10, sint (dwTotalSize div 10)))"

definition GetUserMessageDiskUsage :: "'w win32 \<Rightarrow> wstring option \<Rightarrow> wstring option \<Rightarrow> 'w admin
    \<Rightarrow> ((HRESULT \<times> (int \<times> int) option) \<times> 'w admin) option" where
  "GetUserMessageDiskUsage api psDomainName psUserName = with_enumerated api psDomainName psUserName (\<lambda>box. disk_usage (m_dwTotalSize box))"

definition GetUserMessageCount :: "'w win32 \<Rightarrow> wstring option \<Rightarrow> wstring option \<Rightarrow> 'w admin
    \<Rightarrow> ((HRESULT \<times> int option) \<times> 'w admin) option" where
  "GetUserMessageCount api psDomainName psUserName = with_enumerated api psDomainName psUserName (\<lambda>box. sint (m_cMailCount box))"

end
