(* ===== verification/Admin_Paths.thy ===== *)
theory Admin_Paths
  imports Admin_User Sim_Os
begin

text \<open>
  The administration and the mailbox class compute the path of a mailbox each in its own way; here, that they
  agree.  Also the figures that are returned for a mailbox.
\<close>

section \<open>The directory of a mailbox\<close>

text \<open>The characters the table allows, as a set of numbers.\<close>

lemma length_g_ASCII128: "length g_ASCII128 = 128"
  by (simp add: g_ASCII128_def)

lemma g_ASCII128_allowed:
  assumes "n < 128" "g_ASCII128 ! n \<noteq> 0"
  shows "32 < n" "n \<notin> {34, 42, 44, 47, 58, 62, 63, 64, 92, 124}"
proof -
  have "list_all (\<lambda>(n, v). v = 0 \<or> (32 < n \<and> n \<notin> {34, 42, 44, 47, 58, 62, 63, 64, 92, 124})) (enumerate 0 g_ASCII128)"
    by code_simp
  moreover have "(n, g_ASCII128 ! n) \<in> set (enumerate 0 g_ASCII128)"
    using assms(1) length_g_ASCII128 by (simp add: in_set_enumerate_eq)
  ultimately have "32 < n \<and> n \<notin> {34, 42, 44, 47, 58, 62, 63, 64, 92, 124}"
    using assms(2) by (auto simp: list_all_iff)
  then show "32 < n" "n \<notin> {34, 42, 44, 47, 58, 62, 63, 64, 92, 124}" by blast+
qed

lemma valid_char:
  assumes "isValidMailboxName (Some u)" "c \<in> set u"
  shows "32 < c" "c \<le> 127" "unat c \<notin> {34, 42, 44, 47, 58, 62, 63, 64, 92, 124}"
proof -
  have c: "c \<le> 127" "g_ASCII128 ! unat c \<noteq> 0" using assms by (auto simp: isValidMailboxName_def)
  then have n: "unat c < 128" by (simp add: word_le_nat_alt)
  show "c \<le> 127" by (rule c)
  show "32 < c" using g_ASCII128_allowed(1) [OF n c(2)] by (simp add: word_less_nat_alt)
  show "unat c \<notin> {34, 42, 44, 47, 58, 62, 63, 64, 92, 124}" by (rule g_ASCII128_allowed(2) [OF n c(2)])
qed

lemma valid_name_allowed: "isValidMailboxName (Some u) \<Longrightarrow> wcspbrk_null u NotAllowedSet"
proof -
  assume v: "isValidMailboxName (Some u)"
  have "c \<notin> set u" if "c \<in> set NotAllowedSet" for c
    using valid_char(3) [OF v, of c] that by (auto simp: NotAllowedSet_def wide_def)
  then show ?thesis by (auto simp: wcspbrk_null_def)
qed

lemma valid_name_at: "isValidMailboxName (Some u) \<Longrightarrow> of_char (CHR 0x40) \<notin> set u"
  using valid_char(3) [of u "of_char (CHR 0x40)"] by auto

text \<open>
  C38. The mailbox that the administration adds, locks and removes is the one that the service opens.  On the local
  machine, for a mailbox name that \<^verbatim>\<open>AddUser\<close> accepts, a domain without characters that are
  not allowed in a path, and lengths that fit, the path that \<^verbatim>\<open>BuildUserPath\<close> gives to the
  administration is the path that \<^verbatim>\<open>SetMailBoxPath\<close> computes from the address of \<^verbatim>\<open>BuildEmailAddr\<close>:
  no name the check lets through is cut at an \<^verbatim>\<open>@\<close>, stripped of a blank or refused.
\<close>

theorem user_path_is_mailbox_path:
  assumes u: "isValidMailboxName (Some u)" and d: "wcspbrk_null d NotAllowedSet" "d \<noteq> []" "length d < POP3_MAX_DOMAIN_LENGTH - 1"
    and space: "\<And>c. iswspace api c \<Longrightarrow> c \<le> 32 \<or> 127 < c"
    and s: "m_psMachineMailRoot s = None" "m_wszMailRoot (ad_root s) \<noteq> []"
    and fits: "length (m_wszMailRoot (ad_root s)) + length d + length u + 10 < POP3_MAX_PATH"
  shows "\<exists>p addr. BuildUserPath api (Some d) (Some u) POP3_MAX_PATH s = Some ((S_OK, p), s)
    \<and> BuildEmailAddr (Some d) (Some u) POP3_MAX_ADDRESS_LENGTH = (S_OK, addr)
    \<and> SetMailBoxPath api addr (box, ad_root s, w)
        = Some (True, box\<lparr>m_bMailBoxOpened := False, m_wszMailBoxPath := p\<rparr>, ad_root s, w)"
proof -
  let ?root = "m_wszMailRoot (ad_root s)" and ?at = "of_char (CHR 0x40) :: WCHAR"
  have len: "length u < POP3_MAX_MAILBOX_LENGTH" "u \<noteq> []" using u by (auto simp: isValidMailboxName_def)
  have at: "?at \<notin> set u" by (rule valid_name_at [OF u])
  have addr: "u @ wide ''@'' @ d = u @ ?at # d" by (simp add: wide_def)
  have "\<not> iswspace api (hd u)"
    using space [of "hd u"] valid_char(1,2) [OF u, of "hd u"] len(2) by (auto simp: not_less)
  then have drop: "dropWhile (iswspace api) (u @ ?at # d) = u @ ?at # d"
    using len(2) by (cases u) auto
  have take: "takeWhile (\<lambda>c. c \<noteq> ?at) (u @ ?at # d) = u"
    using at by (subst takeWhile_append2) auto
  have path: "snprintf (POP3_MAX_PATH - 1) (mailbox_path ?root d u) = Some (mailbox_path ?root d u)"
    using fits by (simp add: snprintf_def mailbox_path_def)
  have build: "BuildUserPath api (Some d) (Some u) POP3_MAX_PATH s = Some ((S_OK, mailbox_path ?root d u), s)"
    using s fits by (simp add: BuildUserPath_def BuildDomainPath_def GetMailRoot_def mailbox_path_def)
  have set: "SetMailBoxPath api (u @ wide ''@'' @ d) (box, ad_root s, w)
      = Some (True, box\<lparr>m_bMailBoxOpened := False, m_wszMailBoxPath := mailbox_path ?root d u\<rparr>, ad_root s, w)"
    unfolding SetMailBoxPath_def addr drop Let_def take
    using d len s(2) fits valid_name_allowed [OF u] path by simp
  show ?thesis using build set d(3) len(1) by (intro exI conjI) (auto simp: BuildEmailAddr_def)
qed

definition demo_admin :: "sim admin" where
  "demo_admin = \<lparr>m_psMachineName = None, m_psMachineMailRoot = None, m_isPOP3Installed = True,
     ad_root = MailRoot_init\<lparr>m_wszMailRoot := wide ''C:''\<rparr>, ad_os = sim_start\<rparr>"

theorem user_path_is_mailbox_path_witness:
  "\<exists>p addr. BuildUserPath sim_api (Some (wide ''d'')) (Some (wide ''u'')) POP3_MAX_PATH demo_admin = Some ((S_OK, p), demo_admin)
    \<and> SetMailBoxPath sim_api addr (new_CMailBox, ad_root demo_admin, sim_start)
        = Some (True, new_CMailBox\<lparr>m_bMailBoxOpened := False, m_wszMailBoxPath := p\<rparr>, ad_root demo_admin, sim_start)"
proof -
  have "isValidMailboxName (Some (wide ''u''))" by code_simp
  moreover have "wcspbrk_null (wide ''d'') NotAllowedSet" by code_simp
  moreover have "c \<le> 32 \<or> 127 < c" if "iswspace sim_api c" for c :: WCHAR
    using that by (auto simp: sim_api_def word_le_nat_alt word_less_nat_alt)
  moreover have "m_psMachineMailRoot demo_admin = None" "m_wszMailRoot (ad_root demo_admin) = wide ''C:''"
    by (simp_all add: demo_admin_def)
  ultimately show ?thesis
    using user_path_is_mailbox_path [of "wide ''u''" "wide ''d''" sim_api demo_admin new_CMailBox sim_start]
    by (auto simp: wide_def)
qed

section \<open>The figures of a mailbox\<close>

text \<open>
  The disk usage is a number that a \<^verbatim>\<open>long\<close> holds, and with its factor it is the total to within one unit of the factor.
\<close>

lemma disk_usage_bounds:
  assumes "disk_usage n = (factor, usage)"
  shows "0 \<le> usage" "usage < 2 ^ 31 - 1" "usage * factor \<le> uint n" "uint n < usage * factor + factor"
proof -
  have small: "sint m = uint m" if "uint m < 2 ^ 31" for m :: DWORD
    using that by (simp add: signed_take_bit_eq_if_positive sint_uint bit_iff_odd take_bit_int_eq_self)
  have div: "uint (n div 10) = uint n div 10" by (simp add: uint_div_distrib)
  have le: "0 \<le> uint n" "uint n < 2 ^ 32" using uint_lt2p [of n] by simp_all
  have "0 \<le> usage \<and> usage < 2 ^ 31 - 1 \<and> usage * factor \<le> uint n \<and> uint n < usage * factor + factor"
  proof (cases "n < 0x7FFFFFFF")
    case True
    then have "uint n < 0x7FFFFFFF" by (simp add: word_less_def)
    moreover have "factor = 1" "usage = sint n" using assms True by (simp_all add: disk_usage_def)
    ultimately show ?thesis using small [of n] le by simp
  next
    case False
    then have f: "factor = 10" "usage = sint (n div 10)" using assms by (simp_all add: disk_usage_def)
    moreover have "0 \<le> uint n div 10" using le(1) by (simp add: pos_imp_zdiv_nonneg_iff)
    moreover have "uint n div 10 < 2 ^ 31 - 1" using le(2) by simp
    ultimately have "usage = uint n div 10" "usage < 2 ^ 31 - 1" "0 \<le> usage"
      using small [of "n div 10"] div by simp_all
    moreover have "uint n div 10 * 10 \<le> uint n \<and> uint n < uint n div 10 * 10 + 10" by linarith
    ultimately show ?thesis using f(1) by simp
  qed
  then show "0 \<le> usage" "usage < 2 ^ 31 - 1" "usage * factor \<le> uint n" "uint n < usage * factor + factor" by auto
qed

end
