(* ===== verification/Admin_Locks.thy ===== *)
theory Admin_Locks
  imports Admin_Paths
begin

text \<open>
  What locking a domain does to the files of the store, on a view of the world that has the set of the files
  that exist.
\<close>

section \<open>The files of the store\<close>

text \<open>
  The calls as documented, in three groups.  The code of a call that fails is a positive number of 16 bits.  A file that is moved was there and its new name was free; moving fails
  with \<^verbatim>\<open>ERROR_FILE_NOT_FOUND\<close> only when the file is not there, and never with the code of a search that ended.
  A file that is created as new was not there, and a creation fails with \<^verbatim>\<open>ERROR_FILE_EXISTS\<close> only when it was.
  A file that is opened is there, and one that is there is not refused as missing.  Calls that fail, and searches, change nothing.
\<close>

definition system_error :: "DWORD \<Rightarrow> bool" where "system_error e \<longleftrightarrow> 0 < e \<and> e < 0x10000"

definition move_laws :: "'w win32 \<Rightarrow> 'w admin_api \<Rightarrow> ('w \<Rightarrow> wstring set) \<Rightarrow> bool" where
  "move_laws api ad there \<longleftrightarrow> (\<forall>w a b. case MoveFile ad w a b of (ok, w') \<Rightarrow>
     if ok then a \<in> there w \<and> b \<notin> there w \<and> there w' = insert b (there w - {a})
     else there w' = there w \<and> system_error (GetLastError api w') \<and> GetLastError api w' \<noteq> ERROR_NO_MORE_FILES
       \<and> (GetLastError api w' = ERROR_FILE_NOT_FOUND \<longrightarrow> a \<notin> there w))"

definition create_laws :: "'w win32 \<Rightarrow> ('w \<Rightarrow> wstring set) \<Rightarrow> bool" where
  "create_laws api there \<longleftrightarrow> (\<forall>w f acc sh o' fl.
     (case CreateFile api w f acc sh o' CREATE_NEW fl of (h, w') \<Rightarrow>
        if h \<noteq> INVALID_HANDLE_VALUE then f \<notin> there w \<and> there w' = insert f (there w)
        else there w' = there w \<and> system_error (GetLastError api w') \<and> (GetLastError api w' = ERROR_FILE_EXISTS \<longrightarrow> f \<in> there w))
   \<and> (case CreateFile api w f acc sh o' OPEN_EXISTING fl of (h, w') \<Rightarrow>
        there w' = there w \<and> (h \<noteq> INVALID_HANDLE_VALUE \<longrightarrow> f \<in> there w)
        \<and> (h = INVALID_HANDLE_VALUE \<and> f \<in> there w \<longrightarrow>
             system_error (GetLastError api w') \<and> GetLastError api w' \<notin> {ERROR_FILE_NOT_FOUND, ERROR_NO_MORE_FILES})))"

definition quiet_laws :: "'w win32 \<Rightarrow> 'w admin_api \<Rightarrow> ('w \<Rightarrow> wstring set) \<Rightarrow> bool" where
  "quiet_laws api ad there \<longleftrightarrow>
     (\<forall>w. there (FindNextFile api w) = there w \<and> there (FindClose api w) = there w
        \<and> (\<forall>h. there (snd (CloseHandle api w h)) = there w) \<and> (\<forall>p. there (snd (FindFirstFileEx ad w p)) = there w))"

definition store_laws :: "'w win32 \<Rightarrow> 'w admin_api \<Rightarrow> ('w \<Rightarrow> wstring set) \<Rightarrow> bool" where
  "store_laws api ad there \<longleftrightarrow> move_laws api ad there \<and> create_laws api there \<and> quiet_laws api ad there"

lemma move_laws_True:
  assumes "move_laws api ad there" "MoveFile ad w a b = (True, w')"
  shows "a \<in> there w \<and> b \<notin> there w \<and> there w' = insert b (there w - {a})"
  using assms(1) [unfolded move_laws_def, rule_format, where w = w and a = a and b = b] assms(2) by simp

lemma move_laws_False:
  assumes "move_laws api ad there" "MoveFile ad w a b = (False, w')"
  shows "there w' = there w \<and> system_error (GetLastError api w') \<and> GetLastError api w' \<noteq> ERROR_NO_MORE_FILES
     \<and> (GetLastError api w' = ERROR_FILE_NOT_FOUND \<longrightarrow> a \<notin> there w)"
  using assms(1) [unfolded move_laws_def, rule_format, where w = w and a = a and b = b] assms(2) by simp

lemma create_laws_new:
  assumes "create_laws api there" "CreateFile api w f acc sh o' CREATE_NEW fl = (h, w')"
  shows "if h \<noteq> INVALID_HANDLE_VALUE then f \<notin> there w \<and> there w' = insert f (there w)
    else there w' = there w \<and> system_error (GetLastError api w') \<and> (GetLastError api w' = ERROR_FILE_EXISTS \<longrightarrow> f \<in> there w)"
  using assms(1) [unfolded create_laws_def, rule_format, where w = w and f = f and acc = acc and sh = sh and o' = o' and fl = fl, THEN conjunct1] assms(2) by simp

lemma create_laws_open:
  assumes "create_laws api there" "CreateFile api w f acc sh o' OPEN_EXISTING fl = (h, w')"
  shows "there w' = there w" "h \<noteq> INVALID_HANDLE_VALUE \<Longrightarrow> f \<in> there w"
    and "h = INVALID_HANDLE_VALUE \<Longrightarrow> f \<in> there w \<Longrightarrow>
      system_error (GetLastError api w') \<and> GetLastError api w' \<notin> {ERROR_FILE_NOT_FOUND, ERROR_NO_MORE_FILES}"
  using assms(1) [unfolded create_laws_def, rule_format, where w = w and f = f and acc = acc and sh = sh and o' = o' and fl = fl, THEN conjunct2] assms(2) by simp_all

lemma quiet_lawsD:
  assumes "quiet_laws api ad there"
  shows "there (FindNextFile api w) = there w" "there (FindClose api w) = there w"
    "there (snd (CloseHandle api w h)) = there w" "there (snd (FindFirstFileEx ad w p)) = there w"
  using assms unfolding quiet_laws_def by blast+

definition mail_dirs :: "wstring \<Rightarrow> WIN32_FIND_DATA list \<Rightarrow> wstring set" where
  "mail_dirs p es = (\<lambda>e. path_join p (cFileName e)) ` {e \<in> set es. is_directory (dwFileAttributes e)}"

text \<open>The files after the mailboxes of \<^term>\<open>D\<close> were locked.\<close>

definition locked :: "wstring set \<Rightarrow> wstring set \<Rightarrow> wstring set" where
  "locked D A = (A - lock_file ` D) \<union> rename_file ` {x \<in> D. lock_file x \<in> A}"

lemma lock_names:
  "lock_file a = lock_file b \<longleftrightarrow> a = b" "rename_file a = rename_file b \<longleftrightarrow> a = b"
  "lock_file a \<noteq> rename_file b" "rename_file b \<noteq> lock_file a"
  by (auto simp: lock_file_def rename_file_def path_join_def LOCK_FILENAME_W_def LOCKRENAME_FILENAME_def wide_def)

lemma locked_empty [simp]: "locked {} A = A"
  by (simp add: locked_def)

lemma locked_move:
  assumes "lock_file x \<in> locked D A"
  shows "locked (insert x D) A = insert (rename_file x) (locked D A - {lock_file x})"
  using assms by (auto simp: locked_def lock_names)

lemma locked_none: "lock_file x \<notin> locked D A \<Longrightarrow> locked (insert x D) A = locked D A"
  by (auto simp: locked_def lock_names)

lemma mail_dirs_simps [simp]:
  "mail_dirs p [] = {}"
  "mail_dirs p (e # es) = (if is_directory (dwFileAttributes e) then insert (path_join p (cFileName e)) (mail_dirs p es) else mail_dirs p es)"
  by (auto simp: mail_dirs_def)

section \<open>The codes\<close>

lemma low16: "system_error e \<Longrightarrow> e AND 0xFFFF = e"
proof -
  assume e: "system_error e"
  have "unat e < 2 ^ 16" using e by (simp add: system_error_def word_less_nat_alt)
  then have "take_bit 16 (unat e) = unat e" by (simp only: take_bit_nat_eq_self_iff)
  moreover have n: "of_nat (unat e) = e" by simp
  ultimately have "take_bit 16 e = e" using take_bit_of_nat [of 16 "unat e", where 'a = "32 word"] by (simp only: n)
  moreover have "(mask 16 :: DWORD) = 0xFFFF" by (simp add: mask_eq_exp_minus_1)
  ultimately show ?thesis by (metis take_bit_eq_mask)
qed

lemma system_error_HRESULT:
  assumes "system_error e"
  shows "HRESULT_FROM_WIN32 e = e OR 0x80070000"
proof -
  have u: "0 < uint e" "uint e < 2 ^ 16" using assms by (simp_all add: system_error_def word_less_def)
  have "sint e = uint e"
    using u by (simp add: signed_take_bit_eq_if_positive sint_uint bit_iff_odd take_bit_int_eq_self)
  then show ?thesis using u(1) low16 [OF assms] by (simp add: HRESULT_FROM_WIN32_def)
qed

lemma HRESULT_FROM_WIN32_inject:
  assumes "system_error x" "system_error y" "HRESULT_FROM_WIN32 x = HRESULT_FROM_WIN32 y"
  shows "x = y"
proof -
  have low: "(e OR 0x80070000) AND 0xFFFF = e" if e: "system_error e" for e :: DWORD
  proof -
    have "(0x80070000 :: DWORD) AND 0xFFFF = 0" by simp
    then show ?thesis unfolding bit.conj_disj_distrib2 low16 [OF e] by (simp only: or.right_neutral)
  qed
  have "x OR 0x80070000 = y OR 0x80070000"
    using assms(3) unfolding system_error_HRESULT [OF assms(1)] system_error_HRESULT [OF assms(2)] .
  then show ?thesis using low [OF assms(1)] low [OF assms(2)] by metis
qed

text \<open>The codes that the loop of a search takes for its end.\<close>

definition end_code :: "HRESULT \<Rightarrow> bool" where
  "end_code hr \<longleftrightarrow> hr = HRESULT_FROM_WIN32 ERROR_NO_MORE_FILES \<or> hr = HRESULT_FROM_WIN32 ERROR_FILE_NOT_FOUND"

lemma not_end_code:
  "\<not> end_code E_FAIL" "\<not> end_code E_UNEXPECTED" "\<not> end_code S_OK"
  by (simp_all add: end_code_def E_FAIL_def E_UNEXPECTED_def S_OK_def HRESULT_FROM_WIN32_def ERROR_NO_MORE_FILES_def ERROR_FILE_NOT_FOUND_def)

lemma system_error_not_end:
  assumes "system_error e" "e \<noteq> ERROR_NO_MORE_FILES" "e \<noteq> ERROR_FILE_NOT_FOUND"
  shows "\<not> end_code (HRESULT_FROM_WIN32 e)" "HRESULT_FROM_WIN32 e \<noteq> S_OK"
proof -
  have "system_error ERROR_NO_MORE_FILES" "system_error ERROR_FILE_NOT_FOUND"
    by (simp_all add: system_error_def ERROR_NO_MORE_FILES_def ERROR_FILE_NOT_FOUND_def)
  then show "\<not> end_code (HRESULT_FROM_WIN32 e)" using HRESULT_FROM_WIN32_inject assms by (auto simp: end_code_def)
  show "HRESULT_FROM_WIN32 e \<noteq> S_OK" using assms(1) by (auto simp: HRESULT_FROM_WIN32_fails system_error_def)
qed

section \<open>Locking\<close>

text \<open>One mailbox: it is locked, or the loop stops with a code that is not that of its end.\<close>

lemma lock_entry_moved:
  assumes laws: "create_laws api there" "quiet_laws api ad there"
    and r: "lock_entry api ad v p e s = (hr, s')" "is_directory (dwFileAttributes e)" "lock_fits p (cFileName e)"
    and m: "MoveFile ad (ad_os s) (lock_file x) (rename_file x) = (True, w)" "x = path_join p (cFileName e)"
    and there: "rename_file x \<in> there w"
  shows "there (ad_os s') = there w" "hr = S_OK \<or> \<not> end_code hr"
proof -
  obtain h w1 where c: "CreateFile api w (rename_file x) (GENERIC_READ OR GENERIC_WRITE) 0 None OPEN_EXISTING FILE_ATTRIBUTE_HIDDEN = (h, w1)"
    by fastforce
  have res: "lock_entry api ad v p e s =
      (if v then (if h = INVALID_HANDLE_VALUE then (HRESULT_FROM_WIN32 (GetLastError api w1), s\<lparr>ad_os := w1\<rparr>)
                  else (S_OK, s\<lparr>ad_os := snd (CloseHandle api w1 h)\<rparr>)) else (S_OK, s\<lparr>ad_os := w\<rparr>))"
    using r(2,3) m c by (simp add: lock_entry_def ask_os_def Let_def last_error_def split_def)
  note o = create_laws_open [OF laws(1) c]
  show "there (ad_os s') = there w"
    using r(1) res o(1) quiet_lawsD(3) [OF laws(2)] by (auto split: if_splits)
  show "hr = S_OK \<or> \<not> end_code hr"
    using r(1) res o(3) there system_error_not_end(1) by (auto split: if_splits)
qed

lemma lock_entry_locks:
  assumes laws: "store_laws api ad there" and a: "there (ad_os s) = locked D A"
    and r: "lock_entry api ad v p e s = (hr, s')"
  shows "hr = S_OK \<Longrightarrow> there (ad_os s') = locked (if is_directory (dwFileAttributes e) then insert (path_join p (cFileName e)) D else D) A"
    and "hr = S_OK \<or> \<not> end_code hr"
proof -
  let ?x = "path_join p (cFileName e)"
  have l: "move_laws api ad there" "create_laws api there" "quiet_laws api ad there" using laws by (auto simp: store_laws_def)
  obtain ok w where m: "MoveFile ad (ad_os s) (lock_file ?x) (rename_file ?x) = (ok, w)" by fastforce
  consider "\<not> is_directory (dwFileAttributes e)" | "is_directory (dwFileAttributes e)" "\<not> lock_fits p (cFileName e)"
    | (moved) "is_directory (dwFileAttributes e)" "lock_fits p (cFileName e)" "ok"
    | (not_moved) "is_directory (dwFileAttributes e)" "lock_fits p (cFileName e)" "\<not> ok" by blast
  then have "(hr = S_OK \<longrightarrow> there (ad_os s') = locked (if is_directory (dwFileAttributes e) then insert ?x D else D) A)
      \<and> (hr = S_OK \<or> \<not> end_code hr)"
  proof cases
    case 1
    then show ?thesis using r a by (simp add: lock_entry_def)
  next
    case 2
    then show ?thesis using r not_end_code by (auto simp: lock_entry_def E_FAIL_def S_OK_def)
  next
    case moved
    have m': "MoveFile ad (ad_os s) (lock_file ?x) (rename_file ?x) = (True, w)" using m moved(3) by simp
    note t = move_laws_True [OF l(1) m']
    have w: "there w = locked (insert ?x D) A" using t a locked_move [of ?x D A] by auto
    have "rename_file ?x \<in> there w" using t by simp
    from lock_entry_moved [OF l(2,3) r moved(1,2) m' refl this] show ?thesis using w moved(1) by simp
  next
    case not_moved
    have m': "MoveFile ad (ad_os s) (lock_file ?x) (rename_file ?x) = (False, w)" using m not_moved(3) by simp
    note t = move_laws_False [OF l(1) m']
    have res: "lock_entry api ad v p e s =
        (if GetLastError api w \<noteq> ERROR_FILE_NOT_FOUND then HRESULT_FROM_WIN32 (GetLastError api w) else S_OK, s\<lparr>ad_os := w\<rparr>)"
      using not_moved m' by (simp add: lock_entry_def ask_os_def Let_def last_error_def)
    show ?thesis
    proof (cases "GetLastError api w = ERROR_FILE_NOT_FOUND")
      case True
      then show ?thesis using r res t a not_moved(1) locked_none [of ?x D A] by auto
    next
      case False
      then show ?thesis using r res system_error_not_end t by auto
    qed
  qed
  then show "hr = S_OK \<Longrightarrow> there (ad_os s') = locked (if is_directory (dwFileAttributes e) then insert ?x D else D) A"
    "hr = S_OK \<or> \<not> end_code hr" by blast+
qed

lemma lock_loop_locks:
  assumes laws: "store_laws api ad there"
  shows "there (ad_os s) = locked D A \<Longrightarrow> lock_loop api ad v p es s = Some (hr, s') \<Longrightarrow> end_code hr \<Longrightarrow>
    there (ad_os s') = locked (mail_dirs p es \<union> D) A"
proof (induction es arbitrary: s D)
  case Nil
  have q: "quiet_laws api ad there" using laws by (simp add: store_laws_def)
  show ?case using Nil quiet_lawsD(1) [OF q] by (auto simp: search_end_def tell_os_def Let_def split: if_splits)
next
  case (Cons e es)
  obtain h s1 where e: "lock_entry api ad v p e s = (h, s1)" by fastforce
  note le = lock_entry_locks [OF laws Cons.prems(1) e]
  have "h = S_OK" using Cons.prems(2,3) e le(2) by (auto split: if_splits)
  then show ?case
    using Cons.IH [OF le(1), of] Cons.prems(2,3) e by (auto simp: insert_commute Un_insert_left split: if_splits)
qed

lemma lock_loop_not_ok: "lock_loop api ad v p es s = Some (hr, s') \<Longrightarrow> hr \<noteq> S_OK"
  by (induction es arbitrary: s) (auto simp: search_end_def Let_def split: if_splits prod.splits)

lemma each_mailbox_locks:
  assumes laws: "store_laws api ad there"
    and r: "each_mailbox api ad (lock_loop api ad v p) p s = Some (S_OK, s')"
    and f: "FindFirstFileEx ad (ad_os s) (snd (mailbox_pattern p)) = (es, w)"
  shows "there (ad_os s') = locked (mail_dirs p es) (there (ad_os s))"
proof -
  have q: "quiet_laws api ad there" using laws by (simp add: store_laws_def)
  obtain h pat where pat: "mailbox_pattern p = (h, pat)" by fastforce
  have h: "h = S_OK \<or> h = E_UNEXPECTED" using pat by (auto simp: mailbox_pattern_def split: if_splits)
  have w: "there w = there (ad_os s)" using quiet_lawsD(4) [OF q, of "ad_os s" "snd (mailbox_pattern p)"] f by simp
  show ?thesis
  proof (cases "es = []")
    case True
    then have "s' = s\<lparr>ad_os := w\<rparr>"
      using r pat f by (auto simp: each_mailbox_def ask_os_def Let_def split: if_splits)
    then show ?thesis using True w by simp
  next
    case False
    then have "h = S_OK"
      using r pat f h not_end_code by (auto simp: each_mailbox_def ask_os_def Let_def end_code_def E_UNEXPECTED_def S_OK_def split: if_splits)
    then obtain hr s2 where l: "lock_loop api ad v p es (s\<lparr>ad_os := w\<rparr>) = Some (hr, s2)"
        and e: "end_code hr \<or> hr = S_OK" and s': "s' = tell_os (FindClose api) s2"
      using r pat f False by (auto simp: each_mailbox_def ask_os_def Let_def end_code_def bind_eq_Some_conv split: if_splits)
    have "end_code hr" using e lock_loop_not_ok [OF l] by simp
    then have "there (ad_os s2) = locked (mail_dirs p es \<union> {}) (there (ad_os s))"
      using lock_loop_locks [OF laws _ l, of "{}" "there (ad_os s)"] w by simp
    then show ?thesis using s' quiet_lawsD(2) [OF q] by (simp add: tell_os_def)
  qed
qed

lemma mark_domain_marks:
  assumes laws: "store_laws api ad there" and fits: "length p + 10 < POP3_MAX_PATH"
    and r: "mark_domain api v p s = (S_OK, s')"
  shows "there (ad_os s') = insert (rename_file p) (there (ad_os s))"
proof -
  have l: "create_laws api there" "quiet_laws api ad there" using laws by (auto simp: store_laws_def)
  obtain h w where c: "CreateFile api (ad_os s) (rename_file p) GENERIC_ALL 0 None CREATE_NEW FILE_ATTRIBUTE_HIDDEN = (h, w)" by fastforce
  have fit: "length p + length LOCKRENAME_FILENAME + 1 < POP3_MAX_PATH" using fits by (simp add: LOCKRENAME_FILENAME_def wide_def)
  have res: "mark_domain api v p s = (if h \<noteq> INVALID_HANDLE_VALUE then (S_OK, s\<lparr>ad_os := snd (CloseHandle api w h)\<rparr>)
      else (if \<not> (v \<and> GetLastError api w = ERROR_FILE_EXISTS) then HRESULT_FROM_WIN32 (GetLastError api w) else S_OK, s\<lparr>ad_os := w\<rparr>))"
    using fit c by (simp add: mark_domain_def ask_os_def last_error_def split_def)
  note n = create_laws_new [OF l(1) c]
  show ?thesis
  proof (cases "h = INVALID_HANDLE_VALUE")
    case True
    then have "GetLastError api w = ERROR_FILE_EXISTS" "s' = s\<lparr>ad_os := w\<rparr>"
      using r res n by (auto simp: HRESULT_FROM_WIN32_fails system_error_def split: if_splits)
    then show ?thesis using n True by auto
  next
    case False
    then show ?thesis using r res n quiet_lawsD(3) [OF l(2)] by auto
  qed
qed

text \<open>
  C36. A domain that is locked cannot be read.  When \<^verbatim>\<open>LockDomain\<close> reports success, every mailbox directory that the
  search found has its lock file renamed (those that were locked before stay so), the marker file of the domain
  is there, nothing else of the store has changed; and from then on the service's attempt to lock a mailbox of the domain, which
  every session makes before it reads mail, fails as long as the files stay as they are.
\<close>

theorem LockDomain_locks_out:
  assumes laws: "store_laws api ad there"
    and path: "BuildDomainPath api psDomainName POP3_MAX_PATH s = Some ((S_OK, p), s0)" "length p + 10 < POP3_MAX_PATH"
    and search: "FindFirstFileEx ad (ad_os s0) (snd (mailbox_pattern p)) = (es, w0)"
    and lock: "LockDomain api ad psDomainName v s = Some (S_OK, s')"
  shows "there (ad_os s') = insert (rename_file p) (locked (mail_dirs p es) (there (ad_os s0)))
    \<and> (\<forall>box w. m_wszMailBoxPath box \<in> mail_dirs p es \<and> there w = there (ad_os s') \<longrightarrow> \<not> fst (LockMailBox api (box, w)))"
proof (intro conjI allI impI)
  obtain hr s1 where e: "each_mailbox api ad (lock_loop api ad v p) p s0 = Some (hr, s1)"
    using lock path(1) by (auto simp: LockDomain_def bind_eq_Some_conv)
  have ok: "hr = S_OK"
    using lock path(1) e by (auto simp: LockDomain_def bind_eq_Some_conv split: if_splits)
  have m: "mark_domain api v p s1 = (S_OK, s')"
    using lock path(1) e ok by (auto simp: LockDomain_def bind_eq_Some_conv split: if_splits prod.splits)
  show th: "there (ad_os s') = insert (rename_file p) (locked (mail_dirs p es) (there (ad_os s0)))"
    using mark_domain_marks [OF laws path(2) m] each_mailbox_locks [OF laws e [unfolded ok] search] by simp
  fix box :: CMailBox and w
  assume b: "m_wszMailBoxPath box \<in> mail_dirs p es \<and> there w = there (ad_os s')"
  have c: "create_laws api there" using laws by (simp add: store_laws_def)
  have "lock_file (m_wszMailBoxPath box) \<notin> there w"
    using b th by (auto simp: locked_def lock_names)
  then have shut: "h = INVALID_HANDLE_VALUE"
    if "CreateFile api w (lock_file (m_wszMailBoxPath box)) acc sh o' OPEN_EXISTING fl = (h, w')" for acc sh o' fl h w'
    using create_laws_open(2) [OF c that] by blast
  then show "\<not> fst (LockMailBox api (box, w))"
    by (auto simp: LockMailBox_def snprintf_def Let_def split: option.splits prod.splits if_splits dest: shut [unfolded lock_file_def])
qed

text \<open>A store for the witness: it has the files of \<^verbatim>\<open>Sim_Os\<close>, and one mailbox directory.\<close>

definition store_create :: "sim \<Rightarrow> wstring \<Rightarrow> DWORD \<Rightarrow> HANDLE \<times> sim" where
  "store_create w f disp =
     (let found = f \<in> fst ` set (sim_files w)
      in if disp = CREATE_NEW then (if found then sim_fail ERROR_FILE_EXISTS INVALID_HANDLE_VALUE w else (16, w\<lparr>sim_files := (f, []) # sim_files w\<rparr>))
         else (if found then (16, w) else sim_fail ERROR_FILE_NOT_FOUND INVALID_HANDLE_VALUE w))"

definition store_move :: "sim \<Rightarrow> wstring \<Rightarrow> wstring \<Rightarrow> bool \<times> sim" where
  "store_move w a b =
     (let F = fst ` set (sim_files w)
      in if a \<notin> F then sim_fail ERROR_FILE_NOT_FOUND False w
         else if b \<in> F then sim_fail ERROR_ALREADY_EXISTS False w
         else (True, w\<lparr>sim_files := (b, the (map_of (sim_files w) a)) # filter (\<lambda>f. fst f \<noteq> a) (sim_files w)\<rparr>))"

definition store_sim :: "sim win32" where
  "store_sim = sim_api\<lparr>CreateFile := (\<lambda>w f acc sh o' disp fl. store_create w f disp), CloseHandle := (\<lambda>w h. (True, w))\<rparr>"

definition demo_entry :: WIN32_FIND_DATA where
  "demo_entry = \<lparr>dwFileAttributes = FILE_ATTRIBUTE_DIRECTORY, nFileSizeLow = 0, cFileName = wide ''P3_u.mbx''\<rparr>"

definition admin_sim :: "sim admin_api" where
  "admin_sim = \<lparr>MoveFile = store_move, FindFirstFileEx = (\<lambda>w p. ([demo_entry], w)), DnsValidateName = (\<lambda>w d. (0, w)),
     CreateMutex = (\<lambda>w n. (24, w)), ADsGetObject = (\<lambda>w p. (S_OK, w)), ADsGetContainer = (\<lambda>w p. (S_OK, w)),
     Container_Create = (\<lambda>w p d. (S_OK, w)), Container_Delete = (\<lambda>w p d. (S_OK, w)), QueryIADs = Pair S_OK,
     Put_RouteAction = (\<lambda>w p d a. (S_OK, w)), SetInfo = (\<lambda>w p. (S_OK, w)), CoCreateAuthMethods = Pair S_OK,
     put_AuthMachineName = (\<lambda>w m. (S_OK, w)), get_CurrentAuth = Pair S_OK, get_AuthItem = Pair S_OK,
     get_AuthID = Pair (S_OK, []), NewEnumDomains = Pair S_OK, EnumDomains = Pair ([], S_OK)\<rparr>"

lemma store_sim_laws: "store_laws store_sim admin_sim (\<lambda>w. fst ` set (sim_files w))"
proof -
  have "move_laws store_sim admin_sim (\<lambda>w. fst ` set (sim_files w))"
    unfolding move_laws_def
    by (auto simp: store_sim_def sim_api_def admin_sim_def store_move_def sim_fail_def Let_def system_error_def image_iff
        ERROR_FILE_NOT_FOUND_def ERROR_ALREADY_EXISTS_def ERROR_NO_MORE_FILES_def split: if_splits)
  moreover have "create_laws store_sim (\<lambda>w. fst ` set (sim_files w))"
    unfolding create_laws_def
    by (auto simp: store_sim_def sim_api_def store_create_def sim_fail_def Let_def system_error_def CREATE_NEW_def OPEN_EXISTING_def
        ERROR_FILE_EXISTS_def split: if_splits)
  moreover have "quiet_laws store_sim admin_sim (\<lambda>w. fst ` set (sim_files w))"
    by (simp add: quiet_laws_def store_sim_def sim_api_def admin_sim_def)
  ultimately show ?thesis by (simp add: store_laws_def)
qed

definition demo_box_path :: wstring where "demo_box_path = wide [CHR ''C'', CHR '':'', BACKSLASH, CHR ''d'', BACKSLASH] @ wide ''P3_u.mbx''"

definition demo_store :: "sim admin" where
  "demo_store = demo_admin\<lparr>ad_os := sim_start\<lparr>sim_files := [(lock_file demo_box_path, [])]\<rparr>\<rparr>"

theorem LockDomain_locks_out_witness:
  "\<exists>s'. LockDomain store_sim admin_sim (Some (wide ''d'')) False demo_store = Some (S_OK, s')
    \<and> fst ` set (sim_files (ad_os s')) = {rename_file demo_box_path, rename_file (wide [CHR ''C'', CHR '':'', BACKSLASH, CHR ''d''])}
    \<and> \<not> fst (LockMailBox store_sim (new_CMailBox\<lparr>m_wszMailBoxPath := demo_box_path\<rparr>, ad_os s'))"
proof -
  let ?p = "wide [CHR ''C'', CHR '':'', BACKSLASH, CHR ''d'']"
  have b: "BuildDomainPath store_sim (Some (wide ''d'')) POP3_MAX_PATH demo_store = Some ((S_OK, ?p), demo_store)"
    by code_simp
  have f: "FindFirstFileEx admin_sim (ad_os demo_store) (snd (mailbox_pattern ?p)) = ([demo_entry], ad_os demo_store)"
    by (simp add: admin_sim_def)
  have len: "length ?p + 10 < POP3_MAX_PATH" by (simp add: wide_def)
  have "\<not> Option.is_none (LockDomain store_sim admin_sim (Some (wide ''d'')) False demo_store)
      \<and> fst (the (LockDomain store_sim admin_sim (Some (wide ''d'')) False demo_store)) = S_OK"
    by code_simp
  then obtain s' where l: "LockDomain store_sim admin_sim (Some (wide ''d'')) False demo_store = Some (S_OK, s')"
    by (cases "LockDomain store_sim admin_sim (Some (wide ''d'')) False demo_store") auto
  have dirs: "mail_dirs ?p [demo_entry] = {demo_box_path}"
    by (simp add: demo_entry_def is_directory_def FILE_ATTRIBUTE_DIRECTORY_def path_join_def demo_box_path_def wide_def)
  have old: "fst ` set (sim_files (ad_os demo_store)) = {lock_file demo_box_path}" by (simp add: demo_store_def)
  show ?thesis
    using l LockDomain_locks_out [OF store_sim_laws b len f l] dirs old by (auto simp: locked_def)
qed

end
