(* ===== verification/Admin_Atomic.thy ===== *)
theory Admin_Atomic
  imports Admin_Locks
begin

text \<open>
  Adding a domain: it is an object of the metabase and a directory of the store, and is added to both or
  to neither.
\<close>

section \<open>The metabase and the directories\<close>

text \<open>
  Two views of the world: the domains of the SMTP service under its container \<^term>\<open>c\<close>, and the directories that
  exist.  The calls as documented: an object is written with \<^verbatim>\<open>SetInfo\<close> and removed with \<^verbatim>\<open>Delete\<close> of its
  container; the codes are \<^verbatim>\<open>S_OK\<close> or errors; \<^verbatim>\<open>ADsGetObject\<close> tells whether the object is there, \<^verbatim>\<open>GetFileAttributes\<close> whether
  the directory is; the other calls change neither.
\<close>

record 'w domain_view =
  smtp :: "'w \<Rightarrow> wstring set"
  dirs :: "'w \<Rightarrow> wstring set"

definition same :: "'w domain_view \<Rightarrow> 'w \<Rightarrow> 'w \<Rightarrow> bool" where
  "same v w w' \<longleftrightarrow> smtp v w' = smtp v w \<and> dirs v w' = dirs v w"

definition plain_code :: "HRESULT \<Rightarrow> bool" where
  "plain_code hr \<longleftrightarrow> hr = S_OK \<or> \<not> SUCCEEDED hr"

definition quiet_calls :: "'w win32 \<Rightarrow> 'w admin_api \<Rightarrow> wstring \<Rightarrow> 'w domain_view \<Rightarrow> bool" where
  "quiet_calls api ad c v \<longleftrightarrow> (\<forall>w p q n.
     same v w (snd (DnsValidateName ad w p)) \<and> same v w (snd (ADsGetObject ad w p)) \<and> same v w (snd (ADsGetContainer ad w p))
   \<and> same v w (snd (Container_Create ad w p q)) \<and> same v w (snd (QueryIADs ad w)) \<and> same v w (snd (Put_RouteAction ad w p q n))
   \<and> same v w (snd (GetFileAttributes api w p)) \<and> same v w (snd (SetInfo ad w c)))"

definition object_laws :: "'w admin_api \<Rightarrow> wstring \<Rightarrow> 'w domain_view \<Rightarrow> bool" where
  "object_laws ad c v \<longleftrightarrow> (\<forall>w d.
     (case ADsGetObject ad w (c @ wide ''/'' @ d) of (hr, w') \<Rightarrow>
        plain_code hr \<and> (hr = HRESULT_FROM_WIN32 ERROR_PATH_NOT_FOUND \<longrightarrow> d \<notin> smtp v w))
   \<and> (case SetInfo ad w (c @ wide ''/'' @ d) of (hr, w') \<Rightarrow>
        plain_code hr \<and> dirs v w' = dirs v w \<and> smtp v w' = (if hr = S_OK then insert d (smtp v w) else smtp v w))
   \<and> (case Container_Delete ad w c d of (hr, w') \<Rightarrow>
        dirs v w' = dirs v w \<and> smtp v w' = (if SUCCEEDED hr then smtp v w - {d} else smtp v w)))"

definition directory_laws :: "'w win32 \<Rightarrow> 'w domain_view \<Rightarrow> bool" where
  "directory_laws api v \<longleftrightarrow> (\<forall>w p.
     (case GetFileAttributes api w p of (a, w') \<Rightarrow> (a \<noteq> ERROR_NO_FILE_ATTR \<and> is_directory a \<longleftrightarrow> p \<in> dirs v w))
   \<and> (case CreateDirectory api w p of (ok, w') \<Rightarrow>
        smtp v w' = smtp v w \<and> (if ok then p \<notin> dirs v w \<and> dirs v w' = insert p (dirs v w) else dirs v w' = dirs v w)))"

definition domain_laws :: "'w win32 \<Rightarrow> 'w admin_api \<Rightarrow> wstring \<Rightarrow> 'w domain_view \<Rightarrow> bool" where
  "domain_laws api ad c v \<longleftrightarrow> quiet_calls api ad c v \<and> object_laws ad c v \<and> directory_laws api v"

lemma quiet_callsD:
  assumes "quiet_calls api ad c v"
  shows "DnsValidateName ad w p = (r1, w') \<Longrightarrow> same v w w'" "ADsGetObject ad w p = (r2, w') \<Longrightarrow> same v w w'"
    "ADsGetContainer ad w p = (r2, w') \<Longrightarrow> same v w w'" "Container_Create ad w p q = (r2, w') \<Longrightarrow> same v w w'"
    "QueryIADs ad w = (r2, w') \<Longrightarrow> same v w w'" "Put_RouteAction ad w p q n = (r2, w') \<Longrightarrow> same v w w'"
    "GetFileAttributes api w p = (r1, w') \<Longrightarrow> same v w w'" "SetInfo ad w c = (r2, w') \<Longrightarrow> same v w w'"
  using assms unfolding quiet_calls_def by (metis snd_conv)+

lemma object_lawsD:
  assumes "object_laws ad c v"
  shows "ADsGetObject ad w (c @ wide ''/'' @ d) = (hr, w') \<Longrightarrow>
      plain_code hr \<and> (hr = HRESULT_FROM_WIN32 ERROR_PATH_NOT_FOUND \<longrightarrow> d \<notin> smtp v w)"
    "SetInfo ad w (c @ wide ''/'' @ d) = (hr, w') \<Longrightarrow>
      plain_code hr \<and> dirs v w' = dirs v w \<and> smtp v w' = (if hr = S_OK then insert d (smtp v w) else smtp v w)"
    "Container_Delete ad w c d = (hr, w') \<Longrightarrow>
      dirs v w' = dirs v w \<and> smtp v w' = (if SUCCEEDED hr then smtp v w - {d} else smtp v w)"
  using assms [unfolded object_laws_def, rule_format, where w = w and d = d] by (auto split: prod.splits)

lemma directory_lawsD:
  assumes "directory_laws api v"
  shows "GetFileAttributes api w p = (a, w') \<Longrightarrow> (a \<noteq> ERROR_NO_FILE_ATTR \<and> is_directory a \<longleftrightarrow> p \<in> dirs v w)"
    "CreateDirectory api w p = (ok, w') \<Longrightarrow>
      smtp v w' = smtp v w \<and> (if ok then p \<notin> dirs v w \<and> dirs v w' = insert p (dirs v w) else dirs v w' = dirs v w)"
  using assms [unfolded directory_laws_def, rule_format, where w = w and p = p] by (auto split: prod.splits)

lemma same_trans: "same v w w' \<Longrightarrow> same v w' w'' \<Longrightarrow> same v w w''"
  by (simp add: same_def)

lemma same_refl [simp]: "same v w w"
  by (simp add: same_def)

section \<open>The parts\<close>

text \<open>Only the world of the state changes.\<close>

definition framed :: "'w admin \<Rightarrow> 'w admin \<Rightarrow> bool" where
  "framed s s' \<longleftrightarrow> m_psMachineName s' = m_psMachineName s \<and> m_psMachineMailRoot s' = m_psMachineMailRoot s
     \<and> m_isPOP3Installed s' = m_isPOP3Installed s \<and> ad_root s' = ad_root s"

lemma framed_simps [simp]: "framed s s" "framed s (s\<lparr>ad_os := w\<rparr>)"
  by (simp_all add: framed_def)

lemma framed_trans: "framed s s' \<Longrightarrow> framed s' s'' \<Longrightarrow> framed s s''"
  by (simp add: framed_def)

text \<open>The mail root that paths are built on.\<close>

definition store_root :: "'w admin \<Rightarrow> wstring" where
  "store_root s = (case m_psMachineMailRoot s of Some r \<Rightarrow> r | None \<Rightarrow> m_wszMailRoot (ad_root s))"

lemma framed_paths:
  "framed s s' \<Longrightarrow> GetSMTPDomainPath x n s' = GetSMTPDomainPath x n s"
  "framed s s' \<Longrightarrow> store_root s' = store_root s"
  by (simp_all add: GetSMTPDomainPath_def store_root_def framed_def split: option.splits)

lemma BuildDomainPath_root:
  assumes "store_root s \<noteq> []" "length (store_root s) + length d + 1 < n"
  shows "BuildDomainPath api (Some d) n s = Some ((S_OK, path_join (store_root s) d), s)"
  using assms by (auto simp: BuildDomainPath_def store_root_def GetMailRoot_def split: option.splits)

lemma win32_codes:
  "HRESULT_FROM_WIN32 ERROR_PATH_NOT_FOUND = 0x80070003" "HRESULT_FROM_WIN32 ERROR_INVALID_DOMAINNAME = 0x800704BC"
  "HRESULT_FROM_WIN32 ERROR_FILE_EXISTS = 0x80070050" "HRESULT_FROM_WIN32 ERROR_DOMAIN_EXISTS = 0x8007054C"
  by (simp_all add: HRESULT_FROM_WIN32_def ERROR_PATH_NOT_FOUND_def ERROR_INVALID_DOMAINNAME_def ERROR_FILE_EXISTS_def ERROR_DOMAIN_EXISTS_def)

lemma failed_codes:
  "\<not> SUCCEEDED 0x80070003" "\<not> SUCCEEDED 0x800704BC" "\<not> SUCCEEDED 0x80070050" "\<not> SUCCEEDED 0x8007054C"
  by (simp_all add: SUCCEEDED_def)

lemma must_fail_fails: "\<not> SUCCEEDED (must_fail api s)"
  by (simp add: must_fail_def)

lemma AddSMTPDomain_laws:
  assumes q: "quiet_calls api ad c v" and o: "object_laws ad c v"
    and c: "GetSMTPDomainPath None POP3_MAX_PATH s = (S_OK, c)" and r: "AddSMTPDomain ad d s = (hr, s')"
  shows "framed s s' \<and> dirs v (ad_os s') = dirs v (ad_os s) \<and> plain_code hr
    \<and> smtp v (ad_os s') = (if hr = S_OK then insert d (smtp v (ad_os s)) else smtp v (ad_os s))"
proof -
  obtain h1 w1 where 1: "ADsGetContainer ad (ad_os s) c = (h1, w1)" by fastforce
  obtain h2 w2 where 2: "Container_Create ad w1 c d = (h2, w2)" by fastforce
  obtain h3 w3 where 3: "QueryIADs ad w2 = (h3, w3)" by fastforce
  obtain h4 w4 where 4: "Put_RouteAction ad w3 c d SMTP_DELIVER = (h4, w4)" by fastforce
  obtain h5 w5 where 5: "SetInfo ad w4 (c @ wide ''/'' @ d) = (h5, w5)" by fastforce
  have res: "AddSMTPDomain ad d s =
      (if \<not> SUCCEEDED h1 then (h1, s\<lparr>ad_os := w1\<rparr>) else if \<not> SUCCEEDED h2 then (h2, s\<lparr>ad_os := w2\<rparr>)
       else if \<not> SUCCEEDED h3 then (h3, s\<lparr>ad_os := w3\<rparr>) else if \<not> SUCCEEDED h4 then (h4, s\<lparr>ad_os := w4\<rparr>)
       else (h5, s\<lparr>ad_os := w5\<rparr>))"
    using c 1 2 3 4 5 by (simp add: AddSMTPDomain_def ask_os_def if_succeeded_def Let_def)
  note s1 = quiet_callsD(3) [OF q 1]
  note s2 = same_trans [OF s1 quiet_callsD(4) [OF q 2]]
  note s3 = same_trans [OF s2 quiet_callsD(5) [OF q 3]]
  note s4 = same_trans [OF s3 quiet_callsD(6) [OF q 4]]
  show ?thesis
    using r res s1 s2 s3 s4 object_lawsD(2) [OF o 5]
    by (auto simp: same_def plain_code_def split: if_splits)
qed

lemma RemoveSMTPDomain_laws:
  assumes q: "quiet_calls api ad c v" and o: "object_laws ad c v"
    and c: "GetSMTPDomainPath None POP3_MAX_PATH s = (S_OK, c)" and r: "RemoveSMTPDomain ad d s = (hr, s')"
    and works: "\<And>w. SUCCEEDED (fst (ADsGetContainer ad w c)) \<and> SUCCEEDED (fst (Container_Delete ad w c d))"
  shows "framed s s' \<and> dirs v (ad_os s') = dirs v (ad_os s) \<and> smtp v (ad_os s') = smtp v (ad_os s) - {d}"
proof -
  obtain h1 w1 where 1: "ADsGetContainer ad (ad_os s) c = (h1, w1)" by fastforce
  obtain h2 w2 where 2: "Container_Delete ad w1 c d = (h2, w2)" by fastforce
  obtain h3 w3 where 3: "QueryIADs ad w2 = (h3, w3)" by fastforce
  obtain h5 w5 where 5: "SetInfo ad w3 c = (h5, w5)" by fastforce
  have ok: "SUCCEEDED h1" "SUCCEEDED h2" using works [of "ad_os s"] works [of w1] 1 2 by simp_all
  have res: "RemoveSMTPDomain ad d s = (if \<not> SUCCEEDED h3 then (h3, s\<lparr>ad_os := w3\<rparr>) else (h5, s\<lparr>ad_os := w5\<rparr>))"
    using c 1 2 3 5 ok by (simp add: RemoveSMTPDomain_def ask_os_def if_succeeded_def Let_def)
  note s3 = quiet_callsD(5) [OF q 3]
  note s5 = same_trans [OF s3 quiet_callsD(8) [OF q 5]]
  show ?thesis
    using r res quiet_callsD(3) [OF q 1] s3 s5 object_lawsD(3) [OF o 2] ok
    by (auto simp: same_def split: if_splits)
qed

lemma ExistsStoreDomain_laws:
  assumes q: "quiet_calls api ad c v" and l: "directory_laws api v"
    and root: "store_root s \<noteq> []" "length (store_root s) + length d + 1 < POP3_MAX_PATH"
    and r: "ExistsStoreDomain api ad (Some d) s = Some (hr, s')"
  shows "framed s s' \<and> same v (ad_os s) (ad_os s') \<and> plain_code hr
    \<and> (hr = S_OK \<longrightarrow> path_join (store_root s) d \<in> dirs v (ad_os s))
    \<and> (hr = HRESULT_FROM_WIN32 ERROR_PATH_NOT_FOUND \<longrightarrow> path_join (store_root s) d \<notin> dirs v (ad_os s))"
proof -
  let ?p = "path_join (store_root s) d"
  obtain n w1 where 1: "DnsValidateName ad (ad_os s) d = (n, w1)" by fastforce
  obtain a w2 where 2: "GetFileAttributes api w1 ?p = (a, w2)" by fastforce
  have root': "store_root (s\<lparr>ad_os := w1\<rparr>) = store_root s" by (simp add: store_root_def split: option.splits)
  have b: "BuildDomainPath api (Some d) POP3_MAX_PATH (s\<lparr>ad_os := w1\<rparr>) = Some ((S_OK, ?p), s\<lparr>ad_os := w1\<rparr>)"
    using BuildDomainPath_root [of "s\<lparr>ad_os := w1\<rparr>" d] root unfolding root' by simp
  have res: "ExistsStoreDomain api ad (Some d) s =
      (if n \<noteq> ERROR_SUCCESS then Some (HRESULT_FROM_WIN32 ERROR_INVALID_DOMAINNAME, s\<lparr>ad_os := w1\<rparr>)
       else Some (if a = ERROR_NO_FILE_ATTR \<or> \<not> is_directory a then HRESULT_FROM_WIN32 ERROR_PATH_NOT_FOUND else S_OK, s\<lparr>ad_os := w2\<rparr>))"
    using 1 2 b by (simp add: ExistsStoreDomain_def ask_os_def)
  note s1 = quiet_callsD(1) [OF q 1] and a = directory_lawsD(1) [OF l 2]
  note s2 = same_trans [OF s1 quiet_callsD(7) [OF q 2]]
  have "?p \<in> dirs v w1 \<longleftrightarrow> ?p \<in> dirs v (ad_os s)" using s1 by (simp add: same_def)
  then show ?thesis
    using r res s1 s2 a by (auto simp: plain_code_def win32_codes failed_codes S_OK_def split: if_splits)
qed

lemma AddStoreDomain_laws:
  assumes q: "quiet_calls api ad c v" and l: "directory_laws api v"
    and root: "store_root s \<noteq> []" "length (store_root s) + length d + 1 < POP3_MAX_PATH"
    and r: "AddStoreDomain api ad (Some d) s = Some (hr, s')"
  shows "framed s s' \<and> smtp v (ad_os s') = smtp v (ad_os s) \<and> plain_code hr
    \<and> dirs v (ad_os s') = (if hr = S_OK then insert (path_join (store_root s) d) (dirs v (ad_os s)) else dirs v (ad_os s))"
proof -
  obtain h s1 where e: "ExistsStoreDomain api ad (Some d) s = Some (h, s1)"
    using r by (auto simp: AddStoreDomain_def bind_eq_Some_conv)
  note x = ExistsStoreDomain_laws [OF q l root e]
  have root1: "store_root s1 = store_root s" using x framed_paths(2) by blast
  have b: "BuildDomainPath api (Some d) POP3_MAX_PATH s1 = Some ((S_OK, path_join (store_root s) d), s1)"
    using BuildDomainPath_root [of s1 d] root unfolding root1 by simp
  obtain ok w where m: "CreateDirectory api (ad_os s1) (path_join (store_root s) d) = (ok, w)" by fastforce
  have fails: "\<not> SUCCEEDED (HRESULT_FROM_WIN32 ERROR_FILE_EXISTS)" by (simp add: win32_codes failed_codes)
  show ?thesis
  proof (cases "h = HRESULT_FROM_WIN32 ERROR_PATH_NOT_FOUND")
    case True
    then have "\<not> SUCCEEDED h" by (simp add: win32_codes failed_codes)
    then have "(hr, s') = (if ok then S_OK else must_fail api (s1\<lparr>ad_os := w\<rparr>), s1\<lparr>ad_os := w\<rparr>)"
      using r e True b m by (simp add: AddStoreDomain_def ask_os_def)
    moreover have "must_fail api (s1\<lparr>ad_os := w\<rparr>) \<noteq> S_OK" using must_fail_fails hresult_values(1) by metis
    ultimately show ?thesis
      using x directory_lawsD(2) [OF l m] framed_trans [of s s1 "s1\<lparr>ad_os := w\<rparr>"] must_fail_fails [of api "s1\<lparr>ad_os := w\<rparr>"]
      by (auto simp: same_def plain_code_def)
  next
    case False
    then have "s' = s1" "\<not> SUCCEEDED hr"
      using r e fails by (auto simp: AddStoreDomain_def split: if_splits)
    then show ?thesis using x by (auto simp: same_def plain_code_def)
  qed
qed

lemma ExistsSMTPDomain_laws:
  assumes q: "quiet_calls api ad c v" and o: "object_laws ad c v"
    and c: "GetSMTPDomainPath (Some d) POP3_MAX_PATH s = (S_OK, c @ wide ''/'' @ d)" and r: "ExistsSMTPDomain ad (Some d) s = (hr, s')"
  shows "framed s s' \<and> same v (ad_os s) (ad_os s') \<and> plain_code hr
    \<and> (hr = HRESULT_FROM_WIN32 ERROR_PATH_NOT_FOUND \<longrightarrow> d \<notin> smtp v (ad_os s))"
proof -
  obtain h w where 1: "ADsGetObject ad (ad_os s) (c @ wide ''/'' @ d) = (h, w)" by fastforce
  have "S_OK \<noteq> HRESULT_FROM_WIN32 ERROR_PATH_NOT_FOUND" by (simp add: win32_codes S_OK_def)
  then show ?thesis
    using r c 1 quiet_callsD(2) [OF q 1] object_lawsD(1) [OF o 1]
    by (auto simp: ExistsSMTPDomain_def ask_os_def plain_code_def split: if_splits)
qed

lemma GetSMTPDomainPath_None:
  assumes "GetSMTPDomainPath (Some d) n s = (S_OK, c @ wide ''/'' @ d)"
  shows "GetSMTPDomainPath None n s = (S_OK, c)"
  using assms by (auto simp: GetSMTPDomainPath_def S_OK_def E_FAIL_def split: option.splits if_splits)

lemma check_domain_name_laws:
  assumes q: "quiet_calls api ad c v" and r: "check_domain_name ad d s = Some (hr, s')"
  shows "framed s s' \<and> same v (ad_os s) (ad_os s') \<and> plain_code hr \<and> hr \<noteq> HRESULT_FROM_WIN32 ERROR_PATH_NOT_FOUND"
proof -
  obtain n w where 1: "DnsValidateName ad (ad_os s) d = (n, w)" by fastforce
  show ?thesis
    using r 1 quiet_callsD(1) [OF q 1]
    by (auto simp: check_domain_name_def ask_os_def plain_code_def win32_codes failed_codes S_OK_def split: if_splits)
qed

section \<open>Adding a domain\<close>

text \<open>The second half: after the tests.\<close>

lemma add_both:
  assumes laws: "domain_laws api ad c v"
    and c: "GetSMTPDomainPath None POP3_MAX_PATH s = (S_OK, c)"
    and root: "store_root s \<noteq> []" "length (store_root s) + length d + 1 < POP3_MAX_PATH"
    and works: "\<And>w. SUCCEEDED (fst (ADsGetContainer ad w c)) \<and> SUCCEEDED (fst (Container_Delete ad w c d))"
    and new: "d \<notin> smtp v (ad_os s)"
    and a: "AddSMTPDomain ad d s = (h, s1)"
    and b: "(if h = S_OK \<and> want then do {
               (hr, s) \<leftarrow> AddStoreDomain api ad (Some d) s1;
               Some (hr, if hr \<noteq> S_OK then snd (RemoveSMTPDomain ad d s) else s) } else Some (h, s1)) = Some (hr, s')"
  shows "plain_code hr
    \<and> smtp v (ad_os s') = (if hr = S_OK then insert d (smtp v (ad_os s)) else smtp v (ad_os s))
    \<and> dirs v (ad_os s') = (if hr = S_OK \<and> want then insert (path_join (store_root s) d) (dirs v (ad_os s)) else dirs v (ad_os s))"
proof -
  have l: "quiet_calls api ad c v" "object_laws ad c v" "directory_laws api v" using laws by (simp_all add: domain_laws_def)
  note x = AddSMTPDomain_laws [OF l(1,2) c a]
  have f1: "framed s s1" using x by simp
  show ?thesis
  proof (cases "h = S_OK \<and> want")
    case True
    obtain h2 s2 where st: "AddStoreDomain api ad (Some d) s1 = Some (h2, s2)" and hr: "hr = h2"
        and s': "s' = (if h2 \<noteq> S_OK then snd (RemoveSMTPDomain ad d s2) else s2)"
      using b True by (auto simp: bind_eq_Some_conv)
    note y = AddStoreDomain_laws [OF l(1,3) _ _ st, unfolded framed_paths(2) [OF f1], OF root]
    have c2: "GetSMTPDomainPath None POP3_MAX_PATH s2 = (S_OK, c)"
      using framed_paths(1) framed_trans [OF f1, of s2] y c by metis
    obtain h3 s3 where rm: "RemoveSMTPDomain ad d s2 = (h3, s3)" by fastforce
    note z = RemoveSMTPDomain_laws [OF l(1,2) c2 rm works]
    show ?thesis using x y z True hr s' rm new by auto
  next
    case False
    then have "hr = h" "s' = s1" using b by auto
    then show ?thesis using x False by auto
  qed
qed

lemma domain_codes:
  "S_OK \<noteq> HRESULT_FROM_WIN32 ERROR_PATH_NOT_FOUND" "\<not> SUCCEEDED (HRESULT_FROM_WIN32 ERROR_DOMAIN_EXISTS)"
  "HRESULT_FROM_WIN32 ERROR_DOMAIN_EXISTS \<noteq> S_OK" "HRESULT_FROM_WIN32 ERROR_DOMAIN_EXISTS \<noteq> HRESULT_FROM_WIN32 ERROR_PATH_NOT_FOUND"
  "S_OK \<noteq> ERROR_FILE_EXISTS"
  by (simp_all add: win32_codes failed_codes S_OK_def ERROR_FILE_EXISTS_def)

text \<open>What \<^verbatim>\<open>AddDomain\<close> does once the name and the metabase have been looked at.\<close>

definition add_checked :: "'w win32 \<Rightarrow> 'w admin_api \<Rightarrow> wstring \<Rightarrow> 'w admin \<Rightarrow> (HRESULT \<times> 'w admin) option" where
  "add_checked api ad d s = do {
     (h, s) \<leftarrow> ExistsStoreDomain api ad (Some d) s;
     (hr, s) \<leftarrow>
       (if h = S_OK \<or> h = HRESULT_FROM_WIN32 ERROR_PATH_NOT_FOUND then
          (case AddSMTPDomain ad d s of (h4, s) \<Rightarrow>
             if h4 = S_OK \<and> h \<noteq> S_OK then do {
               (hr, s) \<leftarrow> AddStoreDomain api ad (Some d) s;
               Some (hr, if hr \<noteq> S_OK then snd (RemoveSMTPDomain ad d s) else s) } else Some (h4, s))
        else Some (h, s));
     Some (if hr = S_OK then (if h = S_OK then ERROR_FILE_EXISTS else S_OK) else hr, s) }"

lemma AddDomain_checks:
  assumes l: "quiet_calls api ad c v" "object_laws ad c v"
    and c: "GetSMTPDomainPath (Some d) POP3_MAX_PATH s = (S_OK, c @ wide ''/'' @ d)"
    and r: "AddDomain api ad (Some d) s = Some (hr, s')"
  shows "(\<not> SUCCEEDED hr \<and> same v (ad_os s) (ad_os s'))
    \<or> (\<exists>s2. framed s s2 \<and> same v (ad_os s) (ad_os s2) \<and> d \<notin> smtp v (ad_os s) \<and> add_checked api ad d s2 = Some (hr, s'))"
proof -
  note nz = domain_codes
  obtain h1 s1 where 1: "check_domain_name ad d s = Some (h1, s1)"
    using r by (auto simp: AddDomain_def bind_eq_Some_conv)
  note x1 = check_domain_name_laws [OF l(1) 1]
  show ?thesis
  proof (cases "h1 = S_OK")
    case False
    then have "hr = h1" "s' = s1" using r 1 x1 by (auto simp: AddDomain_def Let_def)
    then show ?thesis using x1 False by (auto simp: plain_code_def)
  next
    case ok1: True
    obtain h2 s2 where 2: "ExistsSMTPDomain ad (Some d) s1 = (h2, s2)" by fastforce
    have f1: "framed s s1" using x1 by simp
    have c1: "GetSMTPDomainPath (Some d) POP3_MAX_PATH s1 = (S_OK, c @ wide ''/'' @ d)" using c framed_paths(1) [OF f1] by simp
    note x2 = ExistsSMTPDomain_laws [OF l c1 2]
    have s2: "same v (ad_os s) (ad_os s2)" using x1 x2 by (simp add: same_def)
    show ?thesis
    proof (cases "h2 = HRESULT_FROM_WIN32 ERROR_PATH_NOT_FOUND")
      case False
      then have "\<not> SUCCEEDED hr" "s' = s2"
        using r 1 2 ok1 x2 nz by (auto simp: AddDomain_def Let_def plain_code_def split: if_splits)
      then show ?thesis using s2 by simp
    next
      case True
      then have "add_checked api ad d s2 = AddDomain api ad (Some d) s"
        using 1 2 ok1 nz
        by (cases "ExistsStoreDomain api ad (Some d) s2") (auto simp: AddDomain_def add_checked_def Let_def split: prod.splits)
      moreover have "framed s s2" "d \<notin> smtp v (ad_os s)" using f1 x1 x2 True framed_trans by (auto simp: same_def)
      ultimately show ?thesis using s2 r by auto
    qed
  qed
qed

lemma add_checked_laws:
  assumes laws: "domain_laws api ad c v"
    and c: "GetSMTPDomainPath None POP3_MAX_PATH s = (S_OK, c)"
    and root: "store_root s \<noteq> []" "length (store_root s) + length d + 1 < POP3_MAX_PATH"
    and works: "\<And>w. SUCCEEDED (fst (ADsGetContainer ad w c)) \<and> SUCCEEDED (fst (Container_Delete ad w c d))"
    and new: "d \<notin> smtp v (ad_os s)" and p: "p = path_join (store_root s) d"
    and r: "add_checked api ad d s = Some (hr, s')"
  shows "(hr = S_OK \<and> p \<notin> dirs v (ad_os s)
      \<and> smtp v (ad_os s') = insert d (smtp v (ad_os s)) \<and> dirs v (ad_os s') = insert p (dirs v (ad_os s)))
    \<or> (hr = ERROR_FILE_EXISTS \<and> p \<in> dirs v (ad_os s)
      \<and> smtp v (ad_os s') = insert d (smtp v (ad_os s)) \<and> dirs v (ad_os s') = dirs v (ad_os s))
    \<or> (\<not> SUCCEEDED hr \<and> smtp v (ad_os s') = smtp v (ad_os s) \<and> dirs v (ad_os s') = dirs v (ad_os s))"
proof -
  have l: "quiet_calls api ad c v" "directory_laws api v" using laws by (simp_all add: domain_laws_def)
  obtain h s3 where 3: "ExistsStoreDomain api ad (Some d) s = Some (h, s3)"
    using r by (auto simp: add_checked_def bind_eq_Some_conv)
  note x = ExistsStoreDomain_laws [OF l root 3]
  have f: "framed s s3" and sm: "smtp v (ad_os s3) = smtp v (ad_os s)" "dirs v (ad_os s3) = dirs v (ad_os s)"
    using x by (auto simp: same_def)
  show ?thesis
  proof (cases "h = S_OK \<or> h = HRESULT_FROM_WIN32 ERROR_PATH_NOT_FOUND")
    case False
    then have "hr = h" "s' = s3" using r 3 by (auto simp: add_checked_def)
    then show ?thesis using x False sm by (auto simp: plain_code_def)
  next
    case True
    obtain h4 s4 where 4: "AddSMTPDomain ad d s3 = (h4, s4)" by fastforce
    have c3: "GetSMTPDomainPath None POP3_MAX_PATH s3 = (S_OK, c)" using c framed_paths(1) [OF f] by simp
    obtain h5 where 5: "(if h4 = S_OK \<and> h \<noteq> S_OK then do {
           (hr, s) \<leftarrow> AddStoreDomain api ad (Some d) s4;
           Some (hr, if hr \<noteq> S_OK then snd (RemoveSMTPDomain ad d s) else s) } else Some (h4, s4)) = Some (h5, s')"
        and hr: "hr = (if h5 = S_OK then (if h = S_OK then ERROR_FILE_EXISTS else S_OK) else h5)"
      using r 3 4 True by (auto simp: add_checked_def bind_eq_Some_conv split: if_splits)
    note y = add_both [OF laws c3 _ _ works _ 4 5, unfolded framed_paths(2) [OF f] sm, OF root new]
    show ?thesis using y hr True x p domain_codes by (auto simp: plain_code_def)
  qed
qed


text \<open>A metabase for the witness, in the table of names of \<^verbatim>\<open>Sim_Os\<close>; the directories are its files.\<close>

definition meta_name :: "wstring \<Rightarrow> wstring" where
  "meta_name p = drop (length ADS_SMTPDOMAIN_PATH_LOCAL + 1) p"

definition meta_put :: "sim \<Rightarrow> wstring \<Rightarrow> HRESULT \<times> sim" where
  "meta_put w p = (S_OK, if length p > length ADS_SMTPDOMAIN_PATH_LOCAL then w\<lparr>sim_users := (meta_name p, []) # sim_users w\<rparr> else w)"

definition meta_sim :: "sim admin_api" where
  "meta_sim = admin_sim\<lparr>
     ADsGetObject := (\<lambda>w p. (if meta_name p \<in> fst ` set (sim_users w) then S_OK else HRESULT_FROM_WIN32 ERROR_PATH_NOT_FOUND, w)),
     Container_Delete := (\<lambda>w p d. (S_OK, w\<lparr>sim_users := filter (\<lambda>u. fst u \<noteq> d) (sim_users w)\<rparr>)),
     SetInfo := meta_put\<rparr>"

definition dir_sim :: "sim win32" where
  "dir_sim = sim_api\<lparr>
     GetFileAttributes := (\<lambda>w p. (if p \<in> fst ` set (sim_files w) then FILE_ATTRIBUTE_DIRECTORY else ERROR_NO_FILE_ATTR, w)),
     CreateDirectory := (\<lambda>w p. if p \<in> fst ` set (sim_files w) then sim_fail ERROR_ALREADY_EXISTS False w
                              else (True, w\<lparr>sim_files := (p, []) # sim_files w\<rparr>))\<rparr>"

definition demo_view :: "sim domain_view" where
  "demo_view = \<lparr>smtp = (\<lambda>w. fst ` set (sim_users w)), dirs = (\<lambda>w. fst ` set (sim_files w))\<rparr>"

lemma meta_sim_laws: "domain_laws dir_sim meta_sim ADS_SMTPDOMAIN_PATH_LOCAL demo_view"
proof -
  have "quiet_calls dir_sim meta_sim ADS_SMTPDOMAIN_PATH_LOCAL demo_view"
    by (simp add: quiet_calls_def meta_sim_def admin_sim_def dir_sim_def meta_put_def)
  moreover have name: "meta_name (ADS_SMTPDOMAIN_PATH_LOCAL @ wide ''/'' @ d) = d" for d
    by (simp add: meta_name_def wide_def)
  then have "object_laws meta_sim ADS_SMTPDOMAIN_PATH_LOCAL demo_view"
    using domain_codes(1)
    by (auto simp: object_laws_def meta_sim_def admin_sim_def demo_view_def meta_put_def plain_code_def win32_codes failed_codes)
  moreover have "directory_laws dir_sim demo_view"
    by (auto simp: directory_laws_def dir_sim_def sim_api_def demo_view_def sim_fail_def is_directory_def
        FILE_ATTRIBUTE_DIRECTORY_def ERROR_NO_FILE_ATTR_def)
  ultimately show ?thesis by (simp add: domain_laws_def)
qed


end
