(* ===== verification/Admin_Sockets.thy ===== *)
theory Admin_Sockets
  imports Admin_Base Socket_Pool
begin

text \<open>
  The socket settings: what the administration stores is what the socket pool of the service accepts.
\<close>

definition socket_key :: "'w admin \<Rightarrow> wstring \<Rightarrow> regkey \<times> wstring" where
  "socket_key s name = (hklm (m_psMachineName s) POP3SERVICE_SERVICES_SUBKEY, name)"

lemma set_setting_stores:
  assumes r: "registry_laws api key_of val" and f: "f = (\<lambda>api. RegSetDWORD api POP3SERVICE_SERVICES_SUBKEY name)"
    and o: "set_setting api f v s = Some (S_OK, s')"
  shows "val (ad_os s') = (val (ad_os s))(socket_key s name \<mapsto> dword_bytes (of_int v))"
    and "m_psMachineName s' = m_psMachineName s"
proof -
  obtain w where w: "RegSetDWORD api POP3SERVICE_SERVICES_SUBKEY name (of_int v) (m_psMachineName s) (ad_os s) = Some (0, w)"
      "s' = s\<lparr>ad_os := w\<rparr>"
    using o by (auto simp: set_setting_def f bind_eq_Some_conv HRESULT_FROM_WIN32_fails split: prod.splits)
  then show "m_psMachineName s' = m_psMachineName s" by simp
  show "val (ad_os s') = (val (ad_os s))(socket_key s name \<mapsto> dword_bytes (of_int v))"
    using RegSetValue_laws(1) [OF r w(1) [unfolded RegSetDWORD_def]] w(2) by (simp add: socket_key_def ERROR_SUCCESS_def)
qed

lemma socket_setters:
  "RegSetSocketMax = (\<lambda>api. RegSetDWORD api POP3SERVICE_SERVICES_SUBKEY VALUENAME_MAX)"
  "RegSetSocketMin = (\<lambda>api. RegSetDWORD api POP3SERVICE_SERVICES_SUBKEY VALUENAME_MIN)"
  "RegSetSocketThreshold = (\<lambda>api. RegSetDWORD api POP3SERVICE_SERVICES_SUBKEY VALUENAME_THRESHOLD)"
  "RegSetSocketBacklog = (\<lambda>api. RegSetDWORD api POP3SERVICE_SERVICES_SUBKEY VALUENAME_BACKLOG)"
  by (simp_all add: fun_eq_iff RegSetSocketMax_def RegSetSocketMin_def RegSetSocketThreshold_def RegSetSocketBacklog_def)

lemma set_all_Cons_ok:
  assumes "set_all api ((f, v) # r) s = Some (S_OK, s')"
  obtains s1 where "set_setting api f v s = Some (S_OK, s1)" "set_all api r s1 = Some (S_OK, s')"
  using assms by (auto simp: bind_eq_Some_conv split: prod.splits if_splits)

text \<open>
  C39. The socket settings that the administration accepts are the ones the service starts with.  When \<^verbatim>\<open>SetSockets\<close>
  reports success, exactly four values of the registry of the administered machine have changed, to the four numbers, and
  they meet the condition under which \<^verbatim>\<open>CSocketPool::Initialize\<close> does not refuse the configuration, with the
  sum of the two \<^verbatim>\<open>DWORD\<close>s not wrapping around.
\<close>

theorem SetSockets_configures:
  assumes r: "registry_laws api key_of val" and o: "SetSockets api lMax lMin lThreshold lBacklog s = Some (S_OK, s')"
  shows "\<exists>dwMax dwMin dwThreshold dwBacklog.
    val (ad_os s') = (val (ad_os s))(socket_key s VALUENAME_MAX \<mapsto> dword_bytes dwMax, socket_key s VALUENAME_MIN \<mapsto> dword_bytes dwMin,
      socket_key s VALUENAME_THRESHOLD \<mapsto> dword_bytes dwThreshold, socket_key s VALUENAME_BACKLOG \<mapsto> dword_bytes dwBacklog)
    \<and> sint dwMax = lMax \<and> sint dwMin = lMin \<and> sint dwThreshold = lThreshold \<and> sint dwBacklog = lBacklog
    \<and> (dwMax \<ge> dwMin + dwThreshold \<and> dwMin > 0) \<and> unat (dwMin + dwThreshold) = unat dwMin + unat dwThreshold"
proof -
  have range: "1 \<le> lMax" "lMax \<le> 32000" "1 \<le> lMin" "lMin \<le> 32000" "0 \<le> lThreshold" "lThreshold \<le> 100" "0 \<le> lBacklog" "lBacklog \<le> 100"
      "lMin + lThreshold \<le> lMax"
    and all: "set_all api [(RegSetSocketMax, lMax), (RegSetSocketMin, lMin), (RegSetSocketThreshold, lThreshold),
                        (RegSetSocketBacklog, lBacklog)] s = Some (S_OK, s')"
    using o by (auto simp: SetSockets_def E_INVALIDARG_def S_OK_def HRESULT_FROM_WIN32_def ERROR_DS_RANGE_CONSTRAINT_def
        simp del: set_all.simps split: if_splits)
  obtain s1 where 1: "set_setting api RegSetSocketMax lMax s = Some (S_OK, s1)" and a1:
      "set_all api [(RegSetSocketMin, lMin), (RegSetSocketThreshold, lThreshold), (RegSetSocketBacklog, lBacklog)] s1 = Some (S_OK, s')"
    using all by (rule set_all_Cons_ok)
  obtain s2 where 2: "set_setting api RegSetSocketMin lMin s1 = Some (S_OK, s2)" and a2:
      "set_all api [(RegSetSocketThreshold, lThreshold), (RegSetSocketBacklog, lBacklog)] s2 = Some (S_OK, s')"
    using a1 by (rule set_all_Cons_ok)
  obtain s3 where 3: "set_setting api RegSetSocketThreshold lThreshold s2 = Some (S_OK, s3)" and a3:
      "set_all api [(RegSetSocketBacklog, lBacklog)] s3 = Some (S_OK, s')"
    using a2 by (rule set_all_Cons_ok)
  have 4: "set_setting api RegSetSocketBacklog lBacklog s3 = Some (S_OK, s')"
    using a3 by (rule set_all_Cons_ok) simp
  note w1 = set_setting_stores [OF r socket_setters(1) 1] and w2 = set_setting_stores [OF r socket_setters(2) 2]
    and w3 = set_setting_stores [OF r socket_setters(3) 3] and w4 = set_setting_stores [OF r socket_setters(4) 4]
  have "val (ad_os s') = (val (ad_os s))(socket_key s VALUENAME_MAX \<mapsto> dword_bytes (of_int lMax),
      socket_key s VALUENAME_MIN \<mapsto> dword_bytes (of_int lMin), socket_key s VALUENAME_THRESHOLD \<mapsto> dword_bytes (of_int lThreshold),
      socket_key s VALUENAME_BACKLOG \<mapsto> dword_bytes (of_int lBacklog))"
    using w1 w2 w3 w4 by (simp add: socket_key_def)
  moreover have s: "sint (of_int v :: DWORD) = v" "unat (of_int v :: DWORD) = nat v" if "0 \<le> v" "v \<le> 32000" for v
  proof -
    show "sint (of_int v :: DWORD) = v" using that by (simp add: sint_sbintrunc' signed_take_bit_int_eq_self)
    show "unat (of_int v :: DWORD) = nat v" using that by (simp add: unat_eq_nat_uint uint_word_of_int)
  qed
  moreover have "unat (of_int lMin + of_int lThreshold :: DWORD) = nat lMin + nat lThreshold"
    using s(2) [of "lMin + lThreshold"] range by (simp add: nat_add_distrib)
  ultimately show ?thesis
    using range by (intro exI [of _ "of_int lMax"] exI [of _ "of_int lMin"] exI [of _ "of_int lThreshold"] exI [of _ "of_int lBacklog"])
      (auto simp: word_le_nat_alt word_less_nat_alt nat_add_distrib)
qed

theorem SetSockets_configures_witness:
  "\<exists>s' dwMax. SetSockets sim_api 250 10 5 20 \<lparr>m_psMachineName = None, m_psMachineMailRoot = None, m_isPOP3Installed = True,
      ad_root = MailRoot_init, ad_os = sim_start\<rparr> = Some (S_OK, s')
    \<and> map_of (sim_reg (ad_os s')) (hklm None POP3SERVICE_SERVICES_SUBKEY, VALUENAME_MAX) = Some (dword_bytes dwMax)
    \<and> sint dwMax = 250"
proof -
  let ?s = "\<lparr>m_psMachineName = None, m_psMachineMailRoot = None, m_isPOP3Installed = True, ad_root = MailRoot_init, ad_os = sim_start\<rparr> :: sim admin"
  have "\<not> Option.is_none (SetSockets sim_api 250 10 5 20 ?s) \<and> fst (the (SetSockets sim_api 250 10 5 20 ?s)) = S_OK"
    by code_simp
  then obtain s' where s: "SetSockets sim_api 250 10 5 20 ?s = Some (S_OK, s')"
    by (cases "SetSockets sim_api 250 10 5 20 ?s") auto
  moreover have "VALUENAME_MAX \<noteq> VALUENAME_MIN" "VALUENAME_MAX \<noteq> VALUENAME_THRESHOLD" "VALUENAME_MAX \<noteq> VALUENAME_BACKLOG"
    by code_simp+
  ultimately show ?thesis
    using SetSockets_configures [OF sim_registry_laws s] by (auto simp: socket_key_def)
qed

end
