(* ===== verification/Spec2Isabelle.thy ===== *)
theory Spec2Isabelle
  imports Pop3_Answers Svc_Main Auth_Domain Auth_Md5 Store_Driver Drop_Copy Admin_Atomic Admin_Sockets
begin

text \<open>
  The POP3 service of Windows Server 2003 (\<^verbatim>\<open>src/pop3\<close>), as a shallow embedding with the theorems that make
  it correct.

  \<^bold>\<open>The program.\<close>  \<^verbatim>\<open>pop3svc\<close> is a Windows service.  Its main thread (\<^verbatim>\<open>service.cpp\<close>, \<^verbatim>\<open>pop3svc.cpp\<close>) reads the
  registry (\<^verbatim>\<open>pop3regkeys.cpp\<close>), makes a pool of threads on an I/O completion port (\<^verbatim>\<open>thdpool.cpp\<close>) and a pool of
  sockets that wait for connections (\<^verbatim>\<open>socketpool.cpp\<close>), and then scans the connections for time-outs until
  it is told to stop.  A thread of the pool takes a completion and calls \<^verbatim>\<open>IOCallBack\<close>, which moves the context
  of a new connection from the free to the busy list (\<^verbatim>\<open>iolists.cpp\<close>) and hands the bytes to the protocol engine
  (\<^verbatim>\<open>pop3context.cpp\<close>).  The engine assembles lines, parses commands, logs a user on (password, \<^verbatim>\<open>APOP\<close>, or NTLM:
  \<^verbatim>\<open>ntauth.cpp\<close> with the token encoding of \<^verbatim>\<open>uuencode.cpp\<close>) and works on his mailbox (\<^verbatim>\<open>mailbox.cpp\<close>), a directory of
  files that is locked for the session.  The password is checked by an authentication method, which the start takes
  from a collection kept in the registry (\<^verbatim>\<open>authmethods.cpp\<close>): accounts of the machine (\<^verbatim>\<open>authlocalaccount.cpp\<close>), accounts of
  a domain (\<^verbatim>\<open>authdomainaccount.cpp\<close>) or passwords kept in the mailboxes (\<^verbatim>\<open>authmd5hash.cpp\<close>).

  Mail arrives through a sink in the SMTP service (\<^verbatim>\<open>smtp/storedriver\<close>): \<^verbatim>\<open>CSimpleDriver\<close> is called with a message and
  its recipients, and an object of class \<^verbatim>\<open>CPOP3DropDir\<close> copies the message block by block into a file of
  each mailbox, doubling the dots at the beginnings of lines on the way, driven by the completions of its reads and writes.  The
  files are created under a token with more rights (\<^verbatim>\<open>adjusttokenprivileges.cpp\<close>).  The administrator makes domains and
  mailboxes, locks them and changes the settings with \<^verbatim>\<open>CP3AdminWorker\<close> (\<^verbatim>\<open>admin/p3admin/p3adminworker.cpp\<close>).  The three
  programs share the store: its paths, the class \<^verbatim>\<open>CMailBox\<close>, and the lock file of a mailbox.

  \<^bold>\<open>The theories\<close>, from the bottom, each with the files under \<^verbatim>\<open>src/pop3\<close> that it models:

  \<^item> \<^verbatim>\<open>Pop3_Prelude\<close>: Win32 integers as words, wide strings, the run-time functions the sources call, and array
    access that has no value outside the array.
  \<^item> \<^verbatim>\<open>Win32_Api\<close>: the operating system as a record of functions over an arbitrary world; \<^verbatim>\<open>Sim_Os\<close>: one executable
    instance, for the witnesses only.
  \<^item> \<^verbatim>\<open>Uuencode\<close> (\<^verbatim>\<open>service/pop3svc/uuencode.cpp\<close>): the decoder and the encoder with their buffers.
  \<^item> \<^verbatim>\<open>Pop3_Reg\<close> (\<^verbatim>\<open>shared/pop3reg/pop3regkeys.cpp\<close>): the settings.
  \<^item> \<^verbatim>\<open>Mail_Path\<close>, \<^verbatim>\<open>Mail_Top\<close>, \<^verbatim>\<open>Mail_Box\<close> (\<^verbatim>\<open>shared/mailbox/mailbox.cpp\<close>): the class \<^verbatim>\<open>CMailBox\<close>; its vector is an optional
    array of optional items, as the pointers are.
  \<^item> \<^verbatim>\<open>Pop3_State\<close> (\<^verbatim>\<open>iocontext.h\<close>, \<^verbatim>\<open>pop3context.h\<close>, \<^verbatim>\<open>globaldef.h\<close>, \<^verbatim>\<open>perfapp.h\<close>): the contexts, the globals as one record,
    the performance counters, and the trace \<^verbatim>\<open>g_out\<close> of what was sent, logged and closed.
  \<^item> \<^verbatim>\<open>Io_Lists\<close> (\<^verbatim>\<open>iolists.cpp\<close>): the two rings of list entries over an explicit store of links.
  \<^item> \<^verbatim>\<open>Nt_Auth\<close> (\<^verbatim>\<open>ntauth.cpp\<close>), \<^verbatim>\<open>Socket_Pool\<close> (\<^verbatim>\<open>socketpool.cpp\<close>), \<^verbatim>\<open>Pop3_Parse\<close> and \<^verbatim>\<open>Pop3_Context\<close> (\<^verbatim>\<open>pop3context.cpp\<close>),
    \<^verbatim>\<open>Io_CallBack\<close> (\<^verbatim>\<open>IOCallBack\<close>, \<^verbatim>\<open>ThreadProc\<close>, \<^verbatim>\<open>CheckTimeOut\<close>, \<^verbatim>\<open>Cleanup\<close>), \<^verbatim>\<open>Thread_Pool\<close> (\<^verbatim>\<open>thdpool.cpp\<close>), \<^verbatim>\<open>Svc_Control\<close>
    (\<^verbatim>\<open>service.cpp\<close>, \<^verbatim>\<open>pop3svc.cpp\<close>, \<^verbatim>\<open>perfapp.cpp\<close>): one definition for each method, in the order of the code.
  \<^item> \<^verbatim>\<open>Auth_Types\<close>, \<^verbatim>\<open>Auth_Methods\<close> (\<^verbatim>\<open>shared/pop3auth/authmethods.cpp\<close>, \<^verbatim>\<open>authmethodsenum.cpp\<close>), \<^verbatim>\<open>Auth_Local\<close>
    (\<^verbatim>\<open>authlocalaccount.cpp\<close>), \<^verbatim>\<open>Auth_Domain\<close> (\<^verbatim>\<open>authdomainaccount.cpp\<close>), \<^verbatim>\<open>Auth_Md5\<close> (\<^verbatim>\<open>authmd5hash.cpp\<close>, \<^verbatim>\<open>authutil.h\<close>): the
    collection of authentication methods and the three methods.  \<^verbatim>\<open>PreInit\<close> of \<^verbatim>\<open>Svc_Control\<close> runs the collection; the session
    calls \<^verbatim>\<open>Authenticate\<close> of the method as a function of the system.
  \<^item> \<^verbatim>\<open>Token_Privileges\<close> (\<^verbatim>\<open>smtp/storedriver/adjusttokenprivileges.cpp\<close>), \<^verbatim>\<open>Dot_Stuff\<close>, \<^verbatim>\<open>Drop_Dir\<close>, \<^verbatim>\<open>Drop_Life\<close> and \<^verbatim>\<open>Drop_Copy\<close>
    (\<^verbatim>\<open>pop3dropdir.cpp\<close>), \<^verbatim>\<open>Store_Driver\<close> (\<^verbatim>\<open>csimpledriver.cpp\<close>): the sink; the message object, the file cache and the event
    log are the record \<^verbatim>\<open>sink_api\<close>.  \<^verbatim>\<open>Drop_Life\<close> and \<^verbatim>\<open>Drop_Copy\<close> hold what is shown of a delivery; \<^verbatim>\<open>Sink_Sim\<close> is an
    instance for the witnesses.
  \<^item> \<^verbatim>\<open>Admin_Base\<close>, \<^verbatim>\<open>Admin_Domain\<close>, \<^verbatim>\<open>Admin_User\<close> (\<^verbatim>\<open>admin/p3admin/p3adminworker.cpp\<close>, and \<^verbatim>\<open>BDeleteDirTree\<close> of
    \<^verbatim>\<open>shared/util/util.cpp\<close>): the administration; \<^verbatim>\<open>Admin_Paths\<close>, \<^verbatim>\<open>Admin_Locks\<close>, \<^verbatim>\<open>Admin_Sockets\<close>, \<^verbatim>\<open>Admin_Atomic\<close>: how it fits the
    mailbox class, the service and the metabase.
  \<^item> \<^verbatim>\<open>Pop3_Session\<close>, \<^verbatim>\<open>Pop3_Answers\<close>, \<^verbatim>\<open>Pool_Lists\<close>, \<^verbatim>\<open>Svc_Invariant\<close>, \<^verbatim>\<open>Svc_Stop\<close>, \<^verbatim>\<open>Svc_Main\<close>: what holds of them.

  \<^bold>\<open>Conventions.\<close>  A method is a function from the object, the globals or the world to its result and their new
  values.  A missing value (\<^verbatim>\<open>None\<close>) stands for an access outside an array, a dereferenced null pointer, a
  variable that was never set, or a call that waits for ever; a theorem that a call gives a value says that
  none of these happens.  Loops over arrays and over counted resources are structural; the walks over the
  linked lists are \<^verbatim>\<open>partial_function (option)\<close>, and that they return is proved from the shape of the lists.
  A critical section is one step; what other threads do between the steps of a thread is an explicit
  argument (\<^verbatim>\<open>Run\<close>) or an interleaving of steps (\<^verbatim>\<open>svc_step\<close>).

  \<^bold>\<open>What is shown.\<close>

  \<^item> Tokens and settings: encoding and decoding are inverse and stay in their buffers; numbers and the mail
    root survive the registry.
  \<^item> Mailbox: the vector, its count and its sizes agree after every operation; deletion and reset refine the
    maildrop of RFC 1939 (locale \<^verbatim>\<open>maildrop\<close>); a commit deletes the marked files and no other, a lost connection
    none; different accounts have different directories; \<^verbatim>\<open>TOP\<close> counts headers and lines.
  \<^item> Lists: the locale \<^verbatim>\<open>entry_list\<close> with its interpretation on the linked lists; the cursor of a scan survives
    removals.
  \<^item> Engine: every completion keeps the invariant of a connection; the transaction state is entered only after
    a logon; every command in it is answered; \<^verbatim>\<open>LIST\<close>, \<^verbatim>\<open>UIDL\<close> (locale \<^verbatim>\<open>mail_lines\<close>) and \<^verbatim>\<open>STAT\<close> print the maildrop;
    a line that comes in pieces is the line; the counters follow the states.
  \<^item> Service: free and busy list, contexts and counters agree under every interleaving of completions,
    scans and control requests; a scan ends and ends exactly the idle connections; a start that succeeds
    gives a state in which this holds, the main loop leaves when it is told to, stopping ends every
    connection, and the thread pool closes every handle it made.

  \<^item> Authentication: what the collection saves is what it reads, removing a method keeps the current one, and its
    enumerator delivers nothing; a local account is created entirely or not at all; the object for the accounts of a
    domain can always be used, except to create a user after the directory was lost, and finds a free
    name for a new account; a stored password is the one that is read up to 128 characters, and a user
    is accepted exactly with it or with the digest that \<^verbatim>\<open>APOP\<close> sends.
  \<^item> Delivery: the routine that stuffs dots backwards inside its buffer is equal to the plain definition, also
    across blocks; the completions of a message leave its stuffed text in the file, from which a client gets the
    message back; the recipients are marked once each and in order and the caller is told once; the
    loop over the recipients returns.  The synchronous delivery reports the opposite of what it did.
  \<^item> Administration: a domain is added to the metabase and to the store or to neither; the directory of a mailbox is the same for the administration and the service; after
    a domain was locked the service cannot lock a mailbox of it; the socket settings that are accepted are
    accepted by the service, and are stored as given.

  \<^bold>\<open>Bounds.\<close>  \<^verbatim>\<open>L\<close> bounds the number of files of a mailbox directory (a hypothesis on the file system, needed
  because the vector and its 32-bit count grow with it).  The argument of \<^verbatim>\<open>BDeleteDirTree\<close> bounds the depth of the directories.
  The configured maximum of sockets is below
  \<^verbatim>\<open>2^31\<close>, since it is stored in a \<^verbatim>\<open>LONG\<close>; the lists then hold fewer than \<^verbatim>\<open>2^32\<close> entries and their counts do not
  wrap.

  \<^bold>\<open>Not modelled.\<close>  The installation of the service and the command line (\<^verbatim>\<open>servicesetup.cpp\<close>, \<^verbatim>\<open>pop3svcmain.cpp\<close>),
  which only call the service control manager; \<^verbatim>\<open>RegSetupOCM\<close>; the shared memory of the performance
  counters; the registration of the sink (\<^verbatim>\<open>simpledriver.cpp\<close>).  Of the administration: moving the mail root with its access
  rights, the configuration of the SMTP service by scripts, the files with the owner for quotas, the control of
  services, and the COM objects, command line, snap-in and set-up over it.  The directory, the accounts and the cryptography of the system are parameters, and
  so is MD5, whose source is not in the repository.  The other products of the repository (the
  web server, message queuing, the index server) share no code with the POP3 service.
\<close>

end
